(* ===== verification/Prelude.thy ===== *)
theory Prelude
  imports Complex_Main "HOL-Library.Multiset" "HOL-Library.Sublist"
begin

text \<open>
  What every component of the model shares.

  \<^item> The exceptions the services throw (\<open>err\<close>) and the shape of a service operation: a function
    from a state to a result (an exception or a value) and the next state.  An exception keeps
    what was already written, as an exception thrown between two database calls does;
    \<open>transaction\<close> is Prisma's \<open>$transaction\<close>, which rolls the state back on an exception.
  \<^item> \<open>wp\<close>, the weakest precondition of an operation for a normal and an exceptional
    postcondition, with its equations in the collection \<open>wp\<close>; \<open>keeps\<close>, invariance.
  \<^item> The table operations the services use of Prisma: unique update, update of many rows,
    creation of a row.
  \<^item> The stable sort of JavaScript's \<open>Array.prototype.sort\<close> and the locale of the comparison
    functions it is meant for.
  \<^item> Generic lemmas on sums over filtered lists.
\<close>

section \<open>Collections\<close>

named_theorems wp \<open>weakest preconditions of the operations\<close>
named_theorems op_defs \<open>definitions of the operation combinators\<close>
named_theorems keepsI \<open>introduction rules for invariance\<close>

text \<open>Keys of tables are tuples; quantifiers over them stay quantifiers over keys.\<close>

declare split_paired_All [simp del] split_paired_Ex [simp del]

section \<open>Exceptions and operations\<close>

type_synonym ident = nat

text \<open>
  The exception classes of NestJS the services throw, with the constant part of the message, and
  Prisma's known request errors with their code and the SQLSTATE of their \<open>meta\<close> field.
\<close>

datatype err =
    BadRequest string
  | NotFound string
  | Conflict string
  | Unauthorized string
  | Forbidden string
  | ServiceUnavailable string
  | PrismaKnown string "string option"
  | OtherError string

type_synonym ('s, 'a) op = "'s \<Rightarrow> (err + 'a) \<times> 's"

definition ret :: "'a \<Rightarrow> ('s, 'a) op" where
  [op_defs]: "ret x = (\<lambda>s. (Inr x, s))"

definition throw :: "err \<Rightarrow> ('s, 'a) op" where
  [op_defs]: "throw e = (\<lambda>s. (Inl e, s))"

definition bind :: "('s, 'a) op \<Rightarrow> ('a \<Rightarrow> ('s, 'b) op) \<Rightarrow> ('s, 'b) op" where
  [op_defs]: "bind m f = (\<lambda>s. case m s of (Inl e, s') \<Rightarrow> (Inl e, s') | (Inr x, s') \<Rightarrow> f x s')"

definition andThen :: "('s, 'a) op \<Rightarrow> ('s, 'b) op \<Rightarrow> ('s, 'b) op" where
  [op_defs]: "andThen m n = bind m (\<lambda>_. n)"

definition gets :: "('s \<Rightarrow> 'a) \<Rightarrow> ('s, 'a) op" where
  [op_defs]: "gets f = (\<lambda>s. (Inr (f s), s))"

definition modify :: "('s \<Rightarrow> 's) \<Rightarrow> ('s, unit) op" where
  [op_defs]: "modify f = (\<lambda>s. (Inr (), f s))"

definition transaction :: "('s, 'a) op \<Rightarrow> ('s, 'a) op" where
  [op_defs]: "transaction m = (\<lambda>s. case m s of (Inl e, s') \<Rightarrow> (Inl e, s) | (Inr x, s') \<Rightarrow> (Inr x, s'))"

definition throwIf :: "bool \<Rightarrow> err \<Rightarrow> ('s, unit) op" where
  [op_defs]: "throwIf b e = (if b then throw e else ret ())"

definition orThrow :: "'a option \<Rightarrow> err \<Rightarrow> ('s, 'a) op" where
  [op_defs]: "orThrow x e = (case x of None \<Rightarrow> throw e | Some a \<Rightarrow> ret a)"

text \<open>A \<open>for ... of\<close> loop with an awaited body: the first exception ends it.\<close>

fun forEach :: "'b list \<Rightarrow> ('b \<Rightarrow> ('s, unit) op) \<Rightarrow> ('s, unit) op" where
  "forEach [] f = ret ()"
| "forEach (x # xs) f = andThen (f x) (forEach xs f)"

text \<open>A JavaScript \<open>Set\<close> of an array, in insertion order.\<close>

definition uniq :: "'b list \<Rightarrow> 'b list" where
  "uniq xs = rev (remdups (rev xs))"

lemma set_uniq [simp]: "set (uniq xs) = set xs"
  by (simp add: uniq_def)

lemma distinct_uniq [simp]: "distinct (uniq xs)"
  by (simp add: uniq_def)

text \<open>The same loop collecting what each iteration pushes.\<close>

fun collect :: "'b list \<Rightarrow> ('b \<Rightarrow> ('s, 'a list) op) \<Rightarrow> ('s, 'a list) op" where
  "collect [] f = ret []"
| "collect (x # xs) f = bind (f x) (\<lambda>ys. bind (collect xs f) (\<lambda>zs. ret (ys @ zs)))"

section \<open>Weakest preconditions\<close>

definition post :: "('a \<Rightarrow> 's \<Rightarrow> bool) \<Rightarrow> (err \<Rightarrow> 's \<Rightarrow> bool) \<Rightarrow> (err + 'a) \<times> 's \<Rightarrow> bool" where
  "post Q E r = (case r of (Inl e, s) \<Rightarrow> E e s | (Inr x, s) \<Rightarrow> Q x s)"

definition wp :: "('s, 'a) op \<Rightarrow> ('a \<Rightarrow> 's \<Rightarrow> bool) \<Rightarrow> (err \<Rightarrow> 's \<Rightarrow> bool) \<Rightarrow> 's \<Rightarrow> bool" where
  "wp m Q E s = post Q E (m s)"

lemma post_simps [simp]:
  "post Q E (Inl e, s) = E e s"
  "post Q E (Inr x, s) = Q x s"
  by (simp_all add: post_def)

text \<open>
  The equations leave the state out, so that they also rewrite the postcondition of an
  operation that comes before.
\<close>

lemma wp_ret [wp]: "wp (ret x) Q E = Q x"
  by (simp add: fun_eq_iff wp_def ret_def)

lemma wp_throw [wp]: "wp (throw e) Q E = E e"
  by (simp add: fun_eq_iff wp_def throw_def)

lemma wp_bind [wp]: "wp (bind m f) Q E = wp m (\<lambda>x. wp (f x) Q E) E"
  by (simp add: fun_eq_iff wp_def bind_def post_def split: prod.split sum.split)

lemma wp_andThen [wp]: "wp (andThen m n) Q E = wp m (\<lambda>_. wp n Q E) E"
  by (simp add: andThen_def wp_bind)

lemma wp_gets [wp]: "wp (gets f) Q E = (\<lambda>s. Q (f s) s)"
  by (simp add: fun_eq_iff wp_def gets_def)

lemma wp_modify [wp]: "wp (modify f) Q E = (\<lambda>s. Q () (f s))"
  by (simp add: fun_eq_iff wp_def modify_def)

lemma wp_transaction [wp]: "wp (transaction m) Q E = (\<lambda>s. wp m Q (\<lambda>e _. E e s) s)"
  by (simp add: fun_eq_iff wp_def transaction_def post_def split: prod.split sum.split)

lemma wp_throwIf [wp]: "wp (throwIf b e) Q E = (if b then E e else Q ())"
  by (simp add: throwIf_def wp_ret wp_throw)

lemma wp_orThrow [wp]: "wp (orThrow x e) Q E = (case x of None \<Rightarrow> E e | Some a \<Rightarrow> Q a)"
  by (simp add: orThrow_def wp_ret wp_throw split: option.split)

lemma wp_if [wp]: "wp (if b then m else n) Q E = (if b then wp m Q E else wp n Q E)"
  by simp

lemma wp_case_option [wp]:
  "wp (case x of None \<Rightarrow> m | Some a \<Rightarrow> f a) Q E =
    (case x of None \<Rightarrow> wp m Q E | Some a \<Rightarrow> wp (f a) Q E)"
  by (simp split: option.split)

lemma wp_mono:
  assumes "wp m Q E s"
    and "\<And>x s'. m s = (Inr x, s') \<Longrightarrow> Q x s' \<Longrightarrow> Q' x s'"
    and "\<And>e s'. m s = (Inl e, s') \<Longrightarrow> E e s' \<Longrightarrow> E' e s'"
  shows "wp m Q' E' s"
  using assms by (auto simp: wp_def post_def split: prod.splits sum.splits)

lemma wp_trueI: "wp m (\<lambda>_ _. True) (\<lambda>_ _. True) s"
  by (simp add: wp_def post_def split: prod.split sum.split)

lemma wp_okD: "wp m Q E s \<Longrightarrow> m s = (Inr x, s') \<Longrightarrow> Q x s'"
  by (simp add: wp_def)

lemma wp_errD: "wp m Q E s \<Longrightarrow> m s = (Inl e, s') \<Longrightarrow> E e s'"
  by (simp add: wp_def)

lemma wp_iff: "wp m Q E s \<longleftrightarrow>
    (\<forall>x s'. m s = (Inr x, s') \<longrightarrow> Q x s') \<and> (\<forall>e s'. m s = (Inl e, s') \<longrightarrow> E e s')"
  by (auto simp: wp_def post_def split: prod.splits sum.splits)

lemma wp_obtain:
  assumes "wp m Q (\<lambda>_ _. False) s"
  obtains x s' where "m s = (Inr x, s')" "Q x s'"
  using assms by (cases "m s"; cases "fst (m s)") (auto simp: wp_iff)

text \<open>An operation is determined by its weakest preconditions.\<close>

lemma wp_eqI:
  assumes "\<And>Q E. wp m Q E = wp n Q E"
  shows "m = n"
proof (rule ext)
  fix s
  have "wp m (\<lambda>x s'. n s = (Inr x, s')) (\<lambda>e s'. n s = (Inl e, s')) s"
    unfolding assms by (simp add: wp_iff)
  then show "m s = n s" by (cases "m s"; cases "fst (m s)") (auto simp: wp_iff)
qed

lemma wp_conj: "wp m Q E s \<Longrightarrow> wp m Q' E' s \<Longrightarrow>
    wp m (\<lambda>x s. Q x s \<and> Q' x s) (\<lambda>e s. E e s \<and> E' e s) s"
  by (auto simp: wp_def post_def split: prod.splits sum.splits)

text \<open>Loops: an invariant of the body is an invariant of the loop.\<close>

lemma wp_forEach:
  assumes "I s"
    and "\<And>x t. x \<in> set xs \<Longrightarrow> I t \<Longrightarrow> wp (f x) (\<lambda>_. I) E t"
  shows "wp (forEach xs f) (\<lambda>_. I) E s"
  using assms
proof (induction xs arbitrary: s)
  case Nil
  then show ?case by (simp add: wp_ret)
next
  case (Cons x xs)
  have first: "wp (f x) (\<lambda>_. I) E s" using Cons.prems by simp
  have rest: "wp (forEach xs f) (\<lambda>_. I) E t" if "I t" for t
    using Cons.IH [OF that] Cons.prems(2) by simp
  have "wp (f x) (\<lambda>_. wp (forEach xs f) (\<lambda>_. I) E) E s"
    by (rule wp_mono [OF first]) (simp_all add: rest)
  then show ?case by (simp add: wp_andThen)
qed

lemma wp_collect:
  assumes "I [] s"
    and "\<And>x acc t. x \<in> set xs \<Longrightarrow> I acc t \<Longrightarrow> wp (f x) (\<lambda>ys. I (acc @ ys)) E t"
  shows "wp (collect xs f) I E s"
proof -
  have "I acc s \<Longrightarrow> (\<And>x acc t. x \<in> set xs \<Longrightarrow> I acc t \<Longrightarrow> wp (f x) (\<lambda>ys. I (acc @ ys)) E t) \<Longrightarrow>
    wp (collect xs f) (\<lambda>ys. I (acc @ ys)) E s" for acc
  proof (induction xs arbitrary: s acc)
    case Nil
    then show ?case by (simp add: wp_ret)
  next
    case (Cons x xs)
    have first: "wp (f x) (\<lambda>ys. I (acc @ ys)) E s" using Cons.prems by simp
    have rest: "wp (collect xs f) (\<lambda>zs. I (acc @ ys @ zs)) E t" if "I (acc @ ys) t" for ys t
      using Cons.IH [OF that] Cons.prems(2) by simp
    have "wp (f x) (\<lambda>ys. wp (collect xs f) (\<lambda>zs. I (acc @ ys @ zs)) E) E s"
      by (rule wp_mono [OF first]) (simp_all add: rest)
    then show ?case by (simp add: wp_bind wp_ret)
  qed
  from this [of "[]"] assms show ?thesis by simp
qed

text \<open>The same with an invariant that knows what is left to do.\<close>

lemma wp_forEach_rest:
  assumes "I xs s"
    and "\<And>x xs t. I (x # xs) t \<Longrightarrow> wp (f x) (\<lambda>_. I xs) E t"
  shows "wp (forEach xs f) (\<lambda>_. I []) E s"
  using assms(1)
proof (induction xs arbitrary: s)
  case Nil
  then show ?case by (simp add: wp_ret)
next
  case (Cons x xs)
  have "wp (f x) (\<lambda>_. wp (forEach xs f) (\<lambda>_. I []) E) E s"
    by (rule wp_mono [OF assms(2) [OF Cons.prems]]) (simp_all add: Cons.IH)
  then show ?case by (simp add: wp_andThen)
qed

lemma wp_collect_rest:
  assumes "I xs [] s"
    and "\<And>x xs acc t. I (x # xs) acc t \<Longrightarrow> wp (f x) (\<lambda>ys. I xs (acc @ ys)) E t"
  shows "wp (collect xs f) (I []) E s"
proof -
  have "I xs acc s \<Longrightarrow> wp (collect xs f) (\<lambda>ys. I [] (acc @ ys)) E s" for acc
  proof (induction xs arbitrary: s acc)
    case Nil
    then show ?case by (simp add: wp_ret)
  next
    case (Cons x xs)
    have "wp (f x) (\<lambda>ys. wp (collect xs f) (\<lambda>zs. I [] (acc @ ys @ zs)) E) E s"
      by (rule wp_mono [OF assms(2) [OF Cons.prems]]) (use Cons.IH in fastforce)+
    then show ?case by (simp add: wp_bind wp_ret)
  qed
  from this [of "[]"] assms(1) show ?thesis by simp
qed

section \<open>Invariance\<close>

definition keeps :: "('s \<Rightarrow> bool) \<Rightarrow> ('s, 'a) op \<Rightarrow> bool" where
  "keeps I m \<longleftrightarrow> (\<forall>s. I s \<longrightarrow> wp m (\<lambda>_. I) (\<lambda>_. I) s)"

lemma keepsD: "keeps I m \<Longrightarrow> I s \<Longrightarrow> m s = (r, s') \<Longrightarrow> I s'"
  by (cases r) (auto simp: keeps_def wp_def)

lemma keeps_intro: "(\<And>s. I s \<Longrightarrow> wp m (\<lambda>_. I) (\<lambda>_. I) s) \<Longrightarrow> keeps I m"
  by (simp add: keeps_def)

lemma keeps_wp: "keeps I m \<Longrightarrow> I s \<Longrightarrow> wp m (\<lambda>_. I) (\<lambda>_. I) s"
  by (simp add: keeps_def)

lemma keeps_ret [keepsI]: "keeps I (ret x)"
  by (simp add: keeps_def wp_ret)

lemma keeps_throw [keepsI]: "keeps I (throw e)"
  by (simp add: keeps_def wp_throw)

lemma keeps_gets [keepsI]: "keeps I (gets f)"
  by (simp add: keeps_def wp_gets)

lemma keeps_throwIf [keepsI]: "keeps I (throwIf b e)"
  by (simp add: keeps_def wp_throwIf)

lemma keeps_orThrow [keepsI]: "keeps I (orThrow x e)"
  by (simp add: keeps_def wp_orThrow split: option.split)

lemma keeps_modify: "(\<And>s. I s \<Longrightarrow> I (f s)) \<Longrightarrow> keeps I (modify f)"
  by (simp add: keeps_def wp_modify)

lemma keeps_bind [keepsI]: "keeps I m \<Longrightarrow> (\<And>x. keeps I (f x)) \<Longrightarrow> keeps I (bind m f)"
  by (auto simp: keeps_def wp_bind intro: wp_mono [where Q = "\<lambda>_. I"])

lemma keeps_andThen [keepsI]: "keeps I m \<Longrightarrow> keeps I n \<Longrightarrow> keeps I (andThen m n)"
  by (simp add: andThen_def keeps_bind)

lemma keeps_transaction [keepsI]: "keeps I m \<Longrightarrow> keeps I (transaction m)"
  by (auto simp: keeps_def wp_transaction intro: wp_mono [where Q = "\<lambda>_. I"])

lemma keeps_if [keepsI]: "keeps I m \<Longrightarrow> keeps I n \<Longrightarrow> keeps I (if b then m else n)"
  by simp

lemma keeps_case_option [keepsI]:
  "keeps I m \<Longrightarrow> (\<And>a. keeps I (f a)) \<Longrightarrow> keeps I (case x of None \<Rightarrow> m | Some a \<Rightarrow> f a)"
  by (simp split: option.split)

lemma keeps_forEach [keepsI]: "(\<And>x. keeps I (f x)) \<Longrightarrow> keeps I (forEach xs f)"
  by (rule keeps_intro, rule wp_forEach) (auto intro: keeps_wp)

lemma keeps_collect [keepsI]: "(\<And>x. keeps I (f x)) \<Longrightarrow> keeps I (collect xs f)"
  by (induction xs) (auto intro: keeps_ret keeps_bind)

text \<open>A transaction that fails leaves the state as it was.\<close>

lemma transaction_error: "transaction m s = (Inl e, s') \<Longrightarrow> s' = s"
  by (auto simp: transaction_def split: prod.splits sum.splits)

lemma transaction_ok: "transaction m s = (Inr x, s') \<longleftrightarrow> m s = (Inr x, s')"
  by (auto simp: transaction_def split: prod.splits sum.splits)

section \<open>Tables\<close>

text \<open>
  A table is the list of its rows, in the order an unordered query returns them.  Rows are never
  deleted by the services.  \<open>updateRow\<close> is Prisma's \<open>update\<close> (error P2025 when no row matches),
  \<open>updateMany\<close> its \<open>updateMany\<close>, \<open>createRow\<close> its \<open>create\<close>.
\<close>

definition mapWhere :: "('r \<Rightarrow> bool) \<Rightarrow> ('r \<Rightarrow> 'r) \<Rightarrow> 'r list \<Rightarrow> 'r list" where
  "mapWhere p f rs = map (\<lambda>r. if p r then f r else r) rs"

definition updateRow ::
  "('s \<Rightarrow> 'r list) \<Rightarrow> (('r list \<Rightarrow> 'r list) \<Rightarrow> 's \<Rightarrow> 's) \<Rightarrow> ('r \<Rightarrow> bool) \<Rightarrow> ('r \<Rightarrow> 'r) \<Rightarrow> ('s, 'r) op" where
  [op_defs]: "updateRow tab upd p f = (\<lambda>s. case find p (tab s) of
      None \<Rightarrow> (Inl (PrismaKnown ''P2025'' None), s)
    | Some r \<Rightarrow> (Inr (f r), upd (\<lambda>_. mapWhere p f (tab s)) s))"

definition updateMany ::
  "('s \<Rightarrow> 'r list) \<Rightarrow> (('r list \<Rightarrow> 'r list) \<Rightarrow> 's \<Rightarrow> 's) \<Rightarrow> ('r \<Rightarrow> bool) \<Rightarrow> ('r \<Rightarrow> 'r) \<Rightarrow> ('s, unit) op" where
  [op_defs]: "updateMany tab upd p f = modify (\<lambda>s. upd (\<lambda>_. mapWhere p f (tab s)) s)"

definition createRow ::
  "('s \<Rightarrow> 'r list) \<Rightarrow> (('r list \<Rightarrow> 'r list) \<Rightarrow> 's \<Rightarrow> 's) \<Rightarrow> 'r \<Rightarrow> ('s, 'r) op" where
  [op_defs]: "createRow tab upd r = (\<lambda>s. (Inr r, upd (\<lambda>_. tab s @ [r]) s))"

text \<open>An exception caught by a handler that sees it.\<close>

definition catchErr :: "('s, 'a) op \<Rightarrow> (err \<Rightarrow> ('s, 'a) op) \<Rightarrow> ('s, 'a) op" where
  "catchErr m h = (\<lambda>s. case m s of (Inl e, s') \<Rightarrow> h e s' | (Inr x, s') \<Rightarrow> (Inr x, s'))"

lemma wp_catchErr [wp]: "wp (catchErr m h) Q E = wp m Q (\<lambda>e. wp (h e) Q E)"
  by (simp add: fun_eq_iff wp_def catchErr_def post_def split: prod.split sum.split)

text \<open>An operation on one field of a larger state.\<close>

definition zoom :: "('s \<Rightarrow> 't) \<Rightarrow> (('t \<Rightarrow> 't) \<Rightarrow> 's \<Rightarrow> 's) \<Rightarrow> ('t, 'a) op \<Rightarrow> ('s, 'a) op" where
  "zoom fld upd m = (\<lambda>s. case m (fld s) of (r, t) \<Rightarrow> (r, upd (\<lambda>_. t) s))"

lemma wp_zoom [wp]:
  "wp (zoom fld upd m) Q E =
    (\<lambda>s. wp m (\<lambda>x t. Q x (upd (\<lambda>_. t) s)) (\<lambda>e t. E e (upd (\<lambda>_. t) s)) (fld s))"
  by (simp add: fun_eq_iff wp_def zoom_def post_def split: prod.split sum.split)

lemma wp_updateRow [wp]:
  "wp (updateRow tab upd p f) Q E = (\<lambda>s. case find p (tab s) of
      None \<Rightarrow> E (PrismaKnown ''P2025'' None) s
    | Some r \<Rightarrow> Q (f r) (upd (\<lambda>_. mapWhere p f (tab s)) s))"
  by (simp add: fun_eq_iff wp_def updateRow_def split: option.split)

lemma wp_updateMany [wp]:
  "wp (updateMany tab upd p f) Q E = (\<lambda>s. Q () (upd (\<lambda>_. mapWhere p f (tab s)) s))"
  by (simp add: updateMany_def wp_modify)

lemma wp_createRow [wp]:
  "wp (createRow tab upd r) Q E = (\<lambda>s. Q r (upd (\<lambda>_. tab s @ [r]) s))"
  by (simp add: fun_eq_iff createRow_def wp_def)

lemma keeps_updateRow [keepsI]:
  "(\<And>s x. I s \<Longrightarrow> I (upd (\<lambda>_. x) s)) \<Longrightarrow> keeps I (updateRow tab upd p f)"
  by (simp add: keeps_def wp_updateRow split: option.split)

lemma keeps_updateMany [keepsI]:
  "(\<And>s x. I s \<Longrightarrow> I (upd (\<lambda>_. x) s)) \<Longrightarrow> keeps I (updateMany tab upd p f)"
  by (simp add: keeps_def wp_updateMany)

lemma keeps_createRow [keepsI]:
  "(\<And>s x. I s \<Longrightarrow> I (upd (\<lambda>_. x) s)) \<Longrightarrow> keeps I (createRow tab upd r)"
  by (simp add: keeps_def wp_createRow)

lemma mapWhere_simps [simp]:
  "mapWhere p f [] = []"
  "mapWhere p f (r # rs) = (if p r then f r else r) # mapWhere p f rs"
  by (simp_all add: mapWhere_def)

lemma mapWhere_append [simp]: "mapWhere p f (rs @ qs) = mapWhere p f rs @ mapWhere p f qs"
  by (simp add: mapWhere_def)

lemma length_mapWhere [simp]: "length (mapWhere p f rs) = length rs"
  by (simp add: mapWhere_def)

lemma set_mapWhere: "r \<in> set (mapWhere p f rs) \<longleftrightarrow> (\<exists>q \<in> set rs. r = (if p q then f q else q))"
  by (auto simp: mapWhere_def)

lemma mapWhereE:
  assumes "r \<in> set (mapWhere p f rs)"
  obtains (updated) q where "q \<in> set rs" "p q" "r = f q" | (kept) "r \<in> set rs" "\<not> p r"
  using assms by (auto simp: mapWhere_def split: if_splits)

lemma map_mapWhere_frame: "(\<And>r. g (f r) = g r) \<Longrightarrow> map g (mapWhere p f rs) = map g rs"
  by (simp add: mapWhere_def)

lemma image_mapWhere_frame: "(\<And>r. g (f r) = g r) \<Longrightarrow> g ` set (mapWhere p f rs) = g ` set rs"
  using map_mapWhere_frame [of g f p rs] by (metis list.set_map)

lemma mapWhere_id: "(\<And>r. r \<in> set rs \<Longrightarrow> \<not> p r) \<Longrightarrow> mapWhere p f rs = rs"
  by (simp add: mapWhere_def map_idI)

lemma find_SomeD: "find p rs = Some r \<Longrightarrow> r \<in> set rs \<and> p r"
  by (auto simp: find_Some_iff)

lemma find_NoneD: "find p rs = None \<Longrightarrow> r \<in> set rs \<Longrightarrow> \<not> p r"
  by (auto simp: find_None_iff)

lemma find_unique:
  "distinct (map k rs) \<Longrightarrow> r \<in> set rs \<Longrightarrow> find (\<lambda>q. k q = k r) rs = Some r"
  by (induction rs) (auto simp: image_iff)

lemma find_append: "find p (rs @ qs) = (case find p rs of None \<Rightarrow> find p qs | Some r \<Rightarrow> Some r)"
  by (induction rs) auto

lemma find_mapWhere_frame:
  "(\<And>r. p r \<Longrightarrow> q (f r) = q r) \<Longrightarrow>
    find q (mapWhere p f rs) = map_option (\<lambda>r. if p r then f r else r) (find q rs)"
  by (induction rs) auto

section \<open>Sums over filtered lists\<close>

definition sumWhere :: "('r \<Rightarrow> bool) \<Rightarrow> ('r \<Rightarrow> 'n::comm_monoid_add) \<Rightarrow> 'r list \<Rightarrow> 'n" where
  "sumWhere p f rs = sum_list (map f (filter p rs))"

lemma sumWhere_simps [simp]:
  "sumWhere p f [] = 0"
  "sumWhere p f (r # rs) = (if p r then f r + sumWhere p f rs else sumWhere p f rs)"
  by (simp_all add: sumWhere_def)

lemma sumWhere_append [simp]: "sumWhere p f (rs @ qs) = sumWhere p f rs + sumWhere p f qs"
  by (simp add: sumWhere_def)

lemma sumWhere_cong:
  "(\<And>r. r \<in> set rs \<Longrightarrow> p r = q r) \<Longrightarrow> (\<And>r. r \<in> set rs \<Longrightarrow> p r \<Longrightarrow> f r = g r) \<Longrightarrow>
    sumWhere p f rs = sumWhere q g rs"
  by (induction rs) auto

lemma sumWhere_none: "(\<And>r. r \<in> set rs \<Longrightarrow> \<not> p r) \<Longrightarrow> sumWhere p f rs = 0"
  by (induction rs) auto

lemma sumWhere_nonneg:
  "(\<And>r. r \<in> set rs \<Longrightarrow> p r \<Longrightarrow> 0 \<le> f r) \<Longrightarrow> 0 \<le> sumWhere p (f :: 'r \<Rightarrow> int) rs"
  by (induction rs) auto

lemma sumWhere_member:
  "r \<in> set rs \<Longrightarrow> p r \<Longrightarrow> (\<And>q. q \<in> set rs \<Longrightarrow> 0 \<le> f q) \<Longrightarrow> f r \<le> sumWhere p (f :: 'r \<Rightarrow> int) rs"
proof (induction rs)
  case (Cons a rs)
  have "0 \<le> sumWhere p f rs" using Cons.prems(3) by (intro sumWhere_nonneg) simp
  then show ?case using Cons by (auto intro: order_trans)
qed simp

lemma sumWhere_mapWhere:
  "sumWhere p f (mapWhere q g rs) =
    sumWhere (\<lambda>r. \<not> q r \<and> p r) f rs + sumWhere (\<lambda>r. q r \<and> p (g r)) (\<lambda>r. f (g r)) rs"
  by (induction rs) (auto simp: algebra_simps)

lemma sumWhere_split:
  "sumWhere p f rs = sumWhere (\<lambda>r. \<not> q r \<and> p r) f rs + sumWhere (\<lambda>r. q r \<and> p r) f rs"
  by (induction rs) (auto simp: algebra_simps)

lemma sumWhere_unique:
  assumes "distinct (map k rs)" "r \<in> set rs"
  shows "sumWhere (\<lambda>q. k q = k r \<and> p q) f rs = (if p r then f r else 0)"
  using assms
proof (induction rs)
  case (Cons a rs)
  show ?case
  proof (cases "a = r")
    case True
    with Cons.prems have "sumWhere (\<lambda>q. k q = k r \<and> p q) f rs = 0"
      by (intro sumWhere_none) (auto simp: image_iff)
    with True show ?thesis by simp
  next
    case False
    with Cons.prems have "k a \<noteq> k r" by (auto simp: image_iff)
    with False Cons show ?thesis by simp
  qed
qed simp

text \<open>Updating the one row with a given key changes a filtered sum by the difference.\<close>

lemma sumWhere_update_unique:
  fixes f :: "'r \<Rightarrow> 'n::ab_group_add"
  assumes "distinct (map k rs)" "r \<in> set rs"
  shows "sumWhere p f (mapWhere (\<lambda>q. k q = k r) g rs) =
    sumWhere p f rs - (if p r then f r else 0) + (if p (g r) then f (g r) else 0)"
proof -
  have "sumWhere (\<lambda>q. k q = k r \<and> p (g q)) (\<lambda>q. f (g q)) rs = (if p (g r) then f (g r) else 0)"
    using sumWhere_unique [OF assms, of "\<lambda>q. p (g q)" "\<lambda>q. f (g q)"] .
  moreover have "sumWhere p f rs =
      sumWhere (\<lambda>q. \<not> k q = k r \<and> p q) f rs + (if p r then f r else 0)"
    using sumWhere_unique [OF assms, of p f] sumWhere_split [of p f rs "\<lambda>q. k q = k r"] by simp
  ultimately show ?thesis by (simp add: sumWhere_mapWhere)
qed

section \<open>JavaScript's stable sort\<close>

text \<open>
  \<open>Array.prototype.sort(cmp)\<close> is stable since ES2019: for a consistent comparison function its
  result is the one stable sorting of the array, which this insertion sort computes.  A
  comparison function returns a number of which only the sign counts, here an \<open>int\<close>; \<open>falsyOr\<close>
  is the \<open>||\<close> that chains criteria (0 and NaN fall through).
\<close>

definition falsyOr :: "int \<Rightarrow> int \<Rightarrow> int" where
  "falsyOr a b = (if a = 0 then b else a)"

fun jsInsert :: "('a \<Rightarrow> 'a \<Rightarrow> int) \<Rightarrow> 'a \<Rightarrow> 'a list \<Rightarrow> 'a list" where
  "jsInsert cmp x [] = [x]"
| "jsInsert cmp x (y # ys) = (if cmp x y \<le> 0 then x # y # ys else y # jsInsert cmp x ys)"

fun jsSort :: "('a \<Rightarrow> 'a \<Rightarrow> int) \<Rightarrow> 'a list \<Rightarrow> 'a list" where
  "jsSort cmp [] = []"
| "jsSort cmp (x # xs) = jsInsert cmp x (jsSort cmp xs)"

lemma mset_jsInsert: "mset (jsInsert cmp x ys) = add_mset x (mset ys)"
  by (induction ys) auto

lemma mset_jsSort [simp]: "mset (jsSort cmp xs) = mset xs"
  by (induction xs) (auto simp: mset_jsInsert)

lemma set_jsSort [simp]: "set (jsSort cmp xs) = set xs"
  by (metis mset_jsSort set_mset_mset)

lemma length_jsSort [simp]: "length (jsSort cmp xs) = length xs"
  by (metis mset_jsSort size_mset)

lemma distinct_map_jsSort [simp]: "distinct (map f (jsSort cmp xs)) = distinct (map f xs)"
  by (metis mset_jsSort mset_map mset_eq_imp_distinct_iff)

lemma sum_list_map_jsSort [simp]:
  "sum_list (map f (jsSort cmp xs)) = sum_list (map (f :: 'a \<Rightarrow> int) xs)"
  by (metis mset_jsSort mset_map sum_mset_sum_list)

text \<open>The contract of a comparison function: signs are antisymmetric and \<open>\<le>\<close> is transitive.\<close>

locale js_comparator =
  fixes cmp :: "'a \<Rightarrow> 'a \<Rightarrow> int"
  assumes cmp_sym: "sgn (cmp b a) = - sgn (cmp a b)"
    and cmp_trans: "cmp a b \<le> 0 \<Longrightarrow> cmp b c \<le> 0 \<Longrightarrow> cmp a c \<le> 0"
begin

lemma cmp_total: "\<not> cmp a b \<le> 0 \<Longrightarrow> cmp b a \<le> 0"
  using cmp_sym [of b a] by (simp add: sgn_if split: if_splits)

lemma cmp_refl: "cmp a a \<le> 0"
  using cmp_total by blast

lemma cmp_zero_sym: "cmp a b = 0 \<Longrightarrow> cmp b a = 0"
  using cmp_sym [of b a] by (simp add: sgn_if split: if_splits)

lemma cmp_zero_iff: "cmp a b = 0 \<longleftrightarrow> cmp a b \<le> 0 \<and> cmp b a \<le> 0"
  using cmp_sym [of b a] by (auto simp: sgn_if split: if_splits)

lemma set_jsInsert: "set (jsInsert cmp x ys) = insert x (set ys)"
  by (metis mset_jsInsert set_mset_add_mset_insert set_mset_mset)

lemma sorted_jsInsert:
  "sorted_wrt (\<lambda>a b. cmp a b \<le> 0) ys \<Longrightarrow> sorted_wrt (\<lambda>a b. cmp a b \<le> 0) (jsInsert cmp x ys)"
  by (induction ys) (auto simp: set_jsInsert intro: cmp_total cmp_trans)

theorem sorted_jsSort: "sorted_wrt (\<lambda>a b. cmp a b \<le> 0) (jsSort cmp xs)"
  by (induction xs) (auto intro: sorted_jsInsert)

lemma filter_jsInsert:
  assumes "sorted_wrt (\<lambda>a b. cmp a b \<le> 0) ys"
  shows "filter (\<lambda>b. cmp a b = 0) (jsInsert cmp x ys) =
    (if cmp a x = 0 then x # filter (\<lambda>b. cmp a b = 0) ys else filter (\<lambda>b. cmp a b = 0) ys)"
  using assms
proof (induction ys)
  case (Cons y ys)
  have "cmp a y \<noteq> 0" if "cmp a x = 0" "\<not> cmp x y \<le> 0"
  proof
    assume "cmp a y = 0"
    then have "cmp x y \<le> 0"
      using that(1) cmp_trans [of x a y] cmp_zero_sym by simp
    with that(2) show False by simp
  qed
  then show ?case using Cons by auto
qed simp

text \<open>Stability: elements that compare equal keep their order.\<close>

theorem stable_jsSort: "filter (\<lambda>b. cmp a b = 0) (jsSort cmp xs) = filter (\<lambda>b. cmp a b = 0) xs"
  by (induction xs) (auto simp: filter_jsInsert sorted_jsSort)

lemma hd_jsSort_least: "b \<in> set xs \<Longrightarrow> cmp (hd (jsSort cmp xs)) b \<le> 0"
proof -
  assume b: "b \<in> set xs"
  obtain h t where ht: "jsSort cmp xs = h # t"
    using b by (cases "jsSort cmp xs") (auto simp: set_jsSort dest: arg_cong [where f = set])
  have "b \<in> set (h # t)" using b ht set_jsSort by metis
  moreover have "sorted_wrt (\<lambda>a b. cmp a b \<le> 0) (h # t)" using sorted_jsSort [of xs] ht by simp
  ultimately show ?thesis using ht cmp_refl by auto
qed

end

text \<open>
  Two criteria chained by \<open>||\<close>, and a criterion on a numeric field.  The library states them once;
  each comparison function of the code is an interpretation of the locale.
\<close>

lemma js_comparator_diff: "js_comparator (\<lambda>a b. (f a :: int) - f b)"
  by unfold_locales (auto simp: sgn_if)

lemma js_comparator_falsyOr:
  assumes "js_comparator c" "js_comparator d"
  shows "js_comparator (\<lambda>a b. falsyOr (c a b) (d a b))"
proof (unfold_locales, goal_cases)
  case (1 b a)
  show ?case
    using js_comparator.cmp_sym [OF assms(1), of b a] js_comparator.cmp_sym [OF assms(2), of b a]
    by (auto simp: falsyOr_def sgn_if split: if_splits)
next
  case (2 a b c')
  have t1: "c a c' \<le> 0" if "c a b \<le> 0" "c b c' \<le> 0"
    using js_comparator.cmp_trans [OF assms(1)] that by blast
  have t1': "c c' a \<le> 0" if "c c' b \<le> 0" "c b a \<le> 0"
    using js_comparator.cmp_trans [OF assms(1)] that by blast
  have t1'': "c b a \<le> 0" if "c b c' \<le> 0" "c c' a \<le> 0"
    using js_comparator.cmp_trans [OF assms(1)] that by blast
  have t1''': "c c' b \<le> 0" if "c c' a \<le> 0" "c a b \<le> 0"
    using js_comparator.cmp_trans [OF assms(1)] that by blast
  have z: "c x y = 0 \<longleftrightarrow> c x y \<le> 0 \<and> c y x \<le> 0" for x y
    using js_comparator.cmp_zero_iff [OF assms(1)] .
  have t2: "d a c' \<le> 0" if "d a b \<le> 0" "d b c' \<le> 0"
    using js_comparator.cmp_trans [OF assms(2)] that by blast
  show ?case
    using 2 t1 t1' t1'' t1''' t2 z [of a b] z [of b c'] z [of a c']
    by (auto simp: falsyOr_def split: if_splits)
qed

end
