(* ===== verification/Schema.thy ===== *)
theory Schema
  imports Prelude
begin

text \<open>
  The canonical data model of backend/prisma/schema.prisma: its enums, the rows of its tables and
  the state of the running system.

  \<^item> An enum is a datatype; a constructor is written with its type, as in the code
    (\<open>OrderStatus.PICKED\<close>, \<open>ShipmentStatus.PICKED\<close>).
  \<^item> A table row is a record whose fields carry the table's initials.  The five balances of a
    stock position that the ledger derives (\<open>onHand\<close>, \<open>reserved\<close>, \<open>allocated\<close>, \<open>inTransit\<close>,
    \<open>damaged\<close>) are one value of the type \<open>buckets\<close>, a commutative group, so that a ledger sum is
    a sum of such values.
  \<^item> Identifiers (cuid strings in the database) are opaque: natural numbers drawn from the counter
    \<open>nextId\<close> of the state.  Quantities and money in minor units are mathematical integers; the
    columns are 32-bit, so the model is exact below that bound.  Times are milliseconds.
  \<^item> The state \<open>world\<close> holds the tables, the ATP cache and the delayed jobs kept in Redis, the
    domain events published so far, the clock, the source of random identifiers and the requests
    sent to the payment gateway so far.
\<close>

section \<open>Enums\<close>

datatype LocationType = WAREHOUSE | STORE | THIRD_PARTY_LOGISTICS | DROP_SHIP_VENDOR

datatype InventoryEventType =
    RECEIPT | ADJUSTMENT | RESERVE | RELEASE_RESERVE | ALLOCATE | DEALLOCATE
  | CONVERT_RESERVE_TO_ALLOC | SHIP | RETURN | DAMAGE | INBOUND_CREATE | INBOUND_ARRIVE
  | TRANSFER_OUT | TRANSFER_IN

datatype OrderChannel = WEB | POS | MARKETPLACE | PHONE | B2B

datatype OrderStatus =
    CREATED | VALIDATED | ALLOCATED | RELEASED | PICKED | SHIPPED | DELIVERED
  | CANCELLED | RETURNED

datatype FulfillmentType = SHIP_FROM_DC | SHIP_FROM_STORE | BOPIS | CURBSIDE | DROP_SHIP

datatype PaymentStatus = PENDING | AUTHORIZED | CAPTURED | DECLINED | REFUNDED | VOIDED

datatype FraudStatus = PENDING | PASS | REVIEW | FAIL

datatype ReservationStatus = ACTIVE | CONSUMED | RELEASED | EXPIRED

datatype AllocationStatus = ALLOCATED | PICKED | SHIPPED | CANCELLED

datatype ShipmentStatus =
    PENDING | PICKED | READY_FOR_PICKUP | SHIPPED | PICKED_UP | DELIVERED | CANCELLED

datatype SourcingStrategy = NEAREST | PRIORITY | FEWEST_SPLITS | BALANCED

datatype ReturnStatus = REQUESTED | RECEIVED | COMPLETED | CANCELLED

datatype InboundStatus = EXPECTED | RECEIVED | CANCELLED

datatype OutboxStatus = PENDING | PUBLISHED | FAILED

datatype OutboxType = INVENTORY_ATP_CHANGED | ORDER_STATUS_CHANGED

datatype ChannelType = SHOPIFY | MARKETPLACE | POS | OTHER

section \<open>Stock balances\<close>

datatype buckets = Buckets
  (bk_onHand: int) (bk_reserved: int) (bk_allocated: int) (bk_inTransit: int) (bk_damaged: int)

instantiation buckets :: ab_group_add
begin

definition zero_buckets :: buckets where
  "zero_buckets = Buckets 0 0 0 0 0"

definition plus_buckets :: "buckets \<Rightarrow> buckets \<Rightarrow> buckets" where
  "plus_buckets a b = Buckets (bk_onHand a + bk_onHand b) (bk_reserved a + bk_reserved b)
    (bk_allocated a + bk_allocated b) (bk_inTransit a + bk_inTransit b) (bk_damaged a + bk_damaged b)"

definition minus_buckets :: "buckets \<Rightarrow> buckets \<Rightarrow> buckets" where
  "minus_buckets a b = Buckets (bk_onHand a - bk_onHand b) (bk_reserved a - bk_reserved b)
    (bk_allocated a - bk_allocated b) (bk_inTransit a - bk_inTransit b) (bk_damaged a - bk_damaged b)"

definition uminus_buckets :: "buckets \<Rightarrow> buckets" where
  "uminus_buckets a = Buckets (- bk_onHand a) (- bk_reserved a) (- bk_allocated a)
    (- bk_inTransit a) (- bk_damaged a)"

instance
  by standard
    (simp_all add: zero_buckets_def plus_buckets_def minus_buckets_def uminus_buckets_def)

end

lemma buckets_sel [simp]:
  "bk_onHand 0 = 0" "bk_reserved 0 = 0" "bk_allocated 0 = 0" "bk_inTransit 0 = 0" "bk_damaged 0 = 0"
  "bk_onHand (a + b) = bk_onHand a + bk_onHand b"
  "bk_reserved (a + b) = bk_reserved a + bk_reserved b"
  "bk_allocated (a + b) = bk_allocated a + bk_allocated b"
  "bk_inTransit (a + b) = bk_inTransit a + bk_inTransit b"
  "bk_damaged (a + b) = bk_damaged a + bk_damaged b"
  "bk_onHand (a - b) = bk_onHand a - bk_onHand b"
  "bk_reserved (a - b) = bk_reserved a - bk_reserved b"
  "bk_allocated (a - b) = bk_allocated a - bk_allocated b"
  "bk_inTransit (a - b) = bk_inTransit a - bk_inTransit b"
  "bk_damaged (a - b) = bk_damaged a - bk_damaged b"
  by (simp_all add: zero_buckets_def plus_buckets_def minus_buckets_def)

lemma buckets_eqI:
  "bk_onHand a = bk_onHand b \<Longrightarrow> bk_reserved a = bk_reserved b \<Longrightarrow> bk_allocated a = bk_allocated b \<Longrightarrow>
    bk_inTransit a = bk_inTransit b \<Longrightarrow> bk_damaged a = bk_damaged b \<Longrightarrow> a = b"
  by (rule buckets.expand) simp

lemma bk_sumWhere:
  "bk_onHand (sumWhere p f rs) = sumWhere p (\<lambda>r. bk_onHand (f r)) rs"
  "bk_reserved (sumWhere p f rs) = sumWhere p (\<lambda>r. bk_reserved (f r)) rs"
  "bk_allocated (sumWhere p f rs) = sumWhere p (\<lambda>r. bk_allocated (f r)) rs"
  "bk_inTransit (sumWhere p f rs) = sumWhere p (\<lambda>r. bk_inTransit (f r)) rs"
  "bk_damaged (sumWhere p f rs) = sumWhere p (\<lambda>r. bk_damaged (f r)) rs"
  by (induction rs) simp_all

section \<open>Rows\<close>

record tenant =
  tn_id :: ident
  tn_slug :: string

record sku =
  sk_id :: ident
  sk_tenantId :: ident
  sk_code :: string
  sk_name :: string
  sk_active :: bool

record location =
  lo_id :: ident
  lo_tenantId :: ident
  lo_code :: string
  lo_name :: string
  lo_type :: LocationType
  lo_active :: bool
  lo_latitude :: "real option"
  lo_longitude :: "real option"
  lo_fulfillmentPriority :: int
  lo_shipFromEnabled :: bool
  lo_pickupEnabled :: bool
  lo_dailyOrderCapacity :: "int option"

type_synonym stockKey = "ident \<times> ident \<times> ident"

record ledgerRow =
  lg_id :: ident
  lg_tenantId :: ident
  lg_skuId :: ident
  lg_locationId :: ident
  lg_eventType :: InventoryEventType
  lg_delta :: buckets
  lg_referenceType :: "string option"
  lg_referenceId :: "ident option"
  lg_reason :: "string option"
  lg_createdAt :: int

record snapshotRow =
  sn_id :: ident
  sn_tenantId :: ident
  sn_skuId :: ident
  sn_locationId :: ident
  sn_bal :: buckets
  sn_safetyStock :: int
  sn_version :: int

record order =
  o_id :: ident
  o_tenantId :: ident
  o_channel :: OrderChannel
  o_externalRef :: "string option"
  o_status :: OrderStatus
  o_shipToLatitude :: "real option"
  o_shipToLongitude :: "real option"
  o_shipToRegion :: "string option"
  o_allowSplit :: bool
  o_allowBackorder :: bool
  o_customerRef :: "string option"
  o_currency :: string
  o_paymentStatus :: PaymentStatus
  o_fraudStatus :: FraudStatus
  o_taxTotal :: int
  o_discountTotal :: int
  o_paymentReference :: "string option"
  o_createdAt :: int

record orderLine =
  ol_id :: ident
  ol_orderId :: ident
  ol_skuId :: ident
  ol_quantity :: int
  ol_unitPrice :: int

record orderEvent =
  oe_orderId :: ident
  oe_fromStatus :: "OrderStatus option"
  oe_toStatus :: OrderStatus
  oe_note :: "string option"
  oe_createdAt :: int

record reservation =
  rv_id :: ident
  rv_tenantId :: ident
  rv_skuId :: ident
  rv_locationId :: ident
  rv_orderId :: "ident option"
  rv_orderLineId :: "ident option"
  rv_quantity :: int
  rv_status :: ReservationStatus
  rv_expiresAt :: int

record allocation =
  al_id :: ident
  al_tenantId :: ident
  al_orderId :: ident
  al_orderLineId :: ident
  al_skuId :: ident
  al_locationId :: ident
  al_quantity :: int
  al_status :: AllocationStatus
  al_shipmentId :: "ident option"

record shipment =
  sh_id :: ident
  sh_tenantId :: ident
  sh_orderId :: ident
  sh_locationId :: ident
  sh_fulfillmentType :: FulfillmentType
  sh_status :: ShipmentStatus
  sh_trackingNumber :: "string option"
  sh_carrier :: "string option"
  sh_fulfillmentProvider :: "string option"
  sh_externalJobId :: "string option"
  sh_createdAt :: int
  sh_updatedAt :: int

record sourcingRule =
  sr_id :: ident
  sr_tenantId :: ident
  sr_name :: string
  sr_channel :: "OrderChannel option"
  sr_region :: "string option"
  sr_strategy :: SourcingStrategy
  sr_allowSplit :: bool
  sr_priority :: int
  sr_active :: bool

record returnRow =
  rt_id :: ident
  rt_tenantId :: ident
  rt_orderId :: ident
  rt_status :: ReturnStatus
  rt_reason :: "string option"
  rt_rma :: string
  rt_createdAt :: int

record returnLine =
  rl_id :: ident
  rl_returnId :: ident
  rl_orderLineId :: ident
  rl_skuId :: ident
  rl_quantity :: int
  rl_restock :: bool
  rl_locationId :: "ident option"

record inbound =
  ib_id :: ident
  ib_tenantId :: ident
  ib_skuId :: ident
  ib_locationId :: ident
  ib_quantity :: int
  ib_receivedQty :: int
  ib_expectedAt :: int
  ib_status :: InboundStatus
  ib_reference :: "string option"

record outboxEvent =
  ob_id :: ident
  ob_seq :: int
  ob_tenantId :: ident
  ob_type :: OutboxType
  ob_subjectId :: ident
  ob_status :: OutboxStatus
  ob_publishedAt :: "int option"
  ob_attempts :: int

text \<open>What the ATP cache answers (\<open>AvailabilityView\<close>): no location stands for the network rollup.\<close>

record availabilityView =
  av_skuId :: ident
  av_locationId :: "ident option"
  av_bal :: buckets
  av_safetyStock :: int
  av_available :: int
  av_availableToPromise :: int

text \<open>A domain event (\<open>DomainEvent\<close>) and a delayed \<open>expire-one\<close> job.\<close>

datatype domainEvent =
    InventoryAtp (de_tenantId: ident) (de_subjectId: ident)
  | OrderStatusEvent (de_tenantId: ident) (de_subjectId: ident) (de_status: OrderStatus)

record expireJob =
  ej_reservationId :: ident
  ej_tenantId :: ident
  ej_delay :: int

text \<open>
  A request to the payment gateway's API.  An idempotency key is its prefix, the order and, for a
  refund, the amount.
\<close>

datatype gatewayCall =
    CreateIntent (gc_amount: int) (gc_currency: string) (gc_paymentMethod: string) (gc_orderId: ident)
      (gc_key: "string \<times> ident \<times> int option")
  | CaptureIntent (gc_intent: string)
  | CreateRefund (gc_intent: string) (gc_amount: int) (gc_key: "string \<times> ident \<times> int option")
  | CancelIntent (gc_intent: string)

section \<open>The state\<close>

record world =
  tenants :: "tenant list"
  skus :: "sku list"
  locations :: "location list"
  ledger :: "ledgerRow list"
  snapshots :: "snapshotRow list"
  orders :: "order list"
  orderLines :: "orderLine list"
  orderEvents :: "orderEvent list"
  reservations :: "reservation list"
  allocations :: "allocation list"
  shipments :: "shipment list"
  sourcingRules :: "sourcingRule list"
  returnRows :: "returnRow list"
  returnLines :: "returnLine list"
  inbounds :: "inbound list"
  outbox :: "outboxEvent list"
  outboxUp :: bool
  nextSeq :: int
  cache :: "ident \<times> ident \<times> ident option \<Rightarrow> availabilityView option"
  published :: "domainEvent list"
  jobs :: "expireJob list"
  clock :: int
  nextId :: ident
  uuidOf :: "ident \<Rightarrow> string"
  gatewayLog :: "gatewayCall list"

text \<open>Drawing a fresh identifier (\<open>cuid()\<close>, \<open>randomUUID()\<close>).\<close>

definition freshId :: "(world, ident) op" where
  "freshId = (\<lambda>w. (Inr (nextId w), w\<lparr>nextId := Suc (nextId w)\<rparr>))"

lemma wp_freshId [wp]: "wp freshId Q E = (\<lambda>w. Q (nextId w) (w\<lparr>nextId := Suc (nextId w)\<rparr>))"
  by (simp add: fun_eq_iff wp_def freshId_def)

definition now :: "(world, int) op" where
  "now = gets clock"

lemma wp_now [wp]: "wp now Q E = (\<lambda>w. Q (clock w) w)"
  by (simp add: now_def wp_gets)

lemma keeps_now [keepsI]: "keeps I now"
  by (simp add: keeps_def wp_now)

text \<open>The key of a stock position: tenant, SKU and location.\<close>

definition sn_key :: "snapshotRow \<Rightarrow> stockKey" where
  "sn_key s = (sn_tenantId s, sn_skuId s, sn_locationId s)"

definition lg_key :: "ledgerRow \<Rightarrow> stockKey" where
  "lg_key l = (lg_tenantId l, lg_skuId l, lg_locationId l)"

definition rv_key :: "reservation \<Rightarrow> stockKey" where
  "rv_key r = (rv_tenantId r, rv_skuId r, rv_locationId r)"

definition al_key :: "allocation \<Rightarrow> stockKey" where
  "al_key a = (al_tenantId a, al_skuId a, al_locationId a)"

definition ib_key :: "inbound \<Rightarrow> stockKey" where
  "ib_key i = (ib_tenantId i, ib_skuId i, ib_locationId i)"

lemmas key_defs = sn_key_def lg_key_def rv_key_def al_key_def ib_key_def

end
