(* ===== verification/Pagination.thy ===== *)
theory Pagination
  imports Prelude
begin

text \<open>
  backend/src/common/pagination.ts: list query parameters resolved into skip/take, and the page
  envelope every paginated list answers with.  \<open>pageOf\<close> is what a query with that skip and take
  returns of the matching rows.
\<close>

section \<open>Definitions\<close>

record pageQuery =
  pq_page :: "int option"
  pq_pageSize :: "int option"

record skipTake =
  st_skip :: int
  st_take :: int
  st_page :: int
  st_pageSize :: int

record 'a page =
  pg_items :: "'a list"
  pg_total :: int
  pg_page :: int
  pg_pageSize :: int
  pg_pageCount :: int

definition toSkipTake :: "pageQuery \<Rightarrow> skipTake" where
  "toSkipTake q =
    (let page = (case pq_page q of Some p \<Rightarrow> if 0 < p then p else 1 | None \<Rightarrow> 1);
         pageSize = (case pq_pageSize q of Some n \<Rightarrow> if 0 < n then min n 200 else 25 | None \<Rightarrow> 25)
     in \<lparr>st_skip = (page - 1) * pageSize, st_take = pageSize, st_page = page, st_pageSize = pageSize\<rparr>)"

definition makePage :: "'a list \<Rightarrow> int \<Rightarrow> int \<Rightarrow> int \<Rightarrow> 'a page" where
  "makePage items tot page pageSize =
    \<lparr>pg_items = items, pg_total = tot, pg_page = page, pg_pageSize = pageSize,
     pg_pageCount = max 1 \<lceil>(of_int tot :: rat) / of_int pageSize\<rceil>\<rparr>"

text \<open>Prisma's \<open>skip\<close> and \<open>take\<close> on the matching rows in query order.\<close>

definition pageOf :: "skipTake \<Rightarrow> 'a list \<Rightarrow> 'a list" where
  "pageOf st xs = take (nat (st_take st)) (drop (nat (st_skip st)) xs)"

text \<open>A paginated list as every service composes it.\<close>

definition paginate :: "pageQuery \<Rightarrow> 'a list \<Rightarrow> 'a page" where
  "paginate q xs = (let st = toSkipTake q in
    makePage (pageOf st xs) (int (length xs)) (st_page st) (st_pageSize st))"

section \<open>Lemmas\<close>

lemma toSkipTake_bounds:
  "1 \<le> st_page (toSkipTake q)" "1 \<le> st_take (toSkipTake q)" "st_take (toSkipTake q) \<le> 200"
  "st_take (toSkipTake q) = st_pageSize (toSkipTake q)" "0 \<le> st_skip (toSkipTake q)"
  by (auto simp: toSkipTake_def Let_def split: option.splits)

lemma ceiling_div_int:
  "0 < n \<Longrightarrow> \<lceil>(of_int m :: rat) / of_int n\<rceil> = - ((- m) div n)"
  using floor_divide_of_int_eq [of "- m" n, where 'a = rat] by (simp add: ceiling_def)

lemma pages_cover:
  assumes "0 < k"
  shows "concat (map (\<lambda>p. take k (drop (p * k) xs)) [0..<n]) = take (n * k) xs"
proof (induction n)
  case (Suc n)
  have "take (n * k) xs @ take k (drop (n * k) xs) = take (n * k + k) xs"
    by (rule take_add [symmetric])
  with Suc show ?case by (simp add: add.commute)
qed simp

lemma pageCount_enough:
  assumes "0 < k"
  shows "length xs \<le> nat (pg_pageCount (makePage its (int (length xs)) p (int k))) * k"
proof -
  let ?c = "- ((- int (length xs)) div int k)"
  have "int k * ((- int (length xs)) div int k) + (- int (length xs)) mod int k = - int (length xs)"
    by (rule mult_div_mod_eq)
  moreover have "0 \<le> (- int (length xs)) mod int k" using assms by simp
  ultimately have "int k * ((- int (length xs)) div int k) \<le> - int (length xs)" by linarith
  then have "int (length xs) \<le> ?c * int k" by (simp add: mult.commute)
  moreover have "?c \<le> max 1 ?c" by simp
  ultimately have "int (length xs) \<le> max 1 ?c * int k"
    by (meson mult_right_mono of_nat_0_le_iff order_trans)
  moreover have "int (nat (max 1 ?c)) = max 1 ?c" by (rule int_nat_eq [THEN trans]) simp
  ultimately have "int (length xs) \<le> int (nat (max 1 ?c) * k)" by (simp only: of_nat_mult)
  then have "length xs \<le> nat (max 1 ?c) * k" by (simp only: of_nat_le_iff)
  moreover have "pg_pageCount (makePage its (int (length xs)) p (int k)) = max 1 ?c"
    using assms ceiling_div_int [of "int k" "int (length xs)"] by (simp add: makePage_def)
  ultimately show ?thesis by simp
qed

end
