(* ===== verification/Inventory.thy ===== *)
theory Inventory
  imports Schema Pagination
begin

text \<open>
  backend/src/inventory/inventory.service.ts with inventory.types.ts: the only writer of stock.
  \<open>applyWithin\<close> is the core of every movement (create the snapshot row if it is missing, read it
  under the row lock, validate the new balances, write the row and append the ledger event);
  \<open>applyMovement\<close> wraps it in a transaction and invalidates the ATP cache.  The specification
  of a movement is \<open>moved\<close>: the balance function of the state changes at one key, by the deltas,
  and the ledger grows by one row that says so.  The locale \<open>stock_writer\<close> is what the other
  components may assume of a movement; the last section interprets it on \<open>applyWithin\<close>.
\<close>

section \<open>Movements\<close>

record bucketDeltas =
  bd_onHand :: "int option"
  bd_reserved :: "int option"
  bd_allocated :: "int option"
  bd_inTransit :: "int option"
  bd_damaged :: "int option"

definition noDeltas :: bucketDeltas where
  "noDeltas = \<lparr>bd_onHand = None, bd_reserved = None, bd_allocated = None, bd_inTransit = None,
    bd_damaged = None\<rparr>"

record movementParams =
  mv_tenantId :: ident
  mv_skuId :: ident
  mv_locationId :: ident
  mv_eventType :: InventoryEventType
  mv_deltas :: bucketDeltas
  mv_requireAvailable :: bool
  mv_referenceType :: "string option"
  mv_referenceId :: "ident option"
  mv_reason :: "string option"

text \<open>The \<open>?? 0\<close> of the code.\<close>

definition orZero :: "int option \<Rightarrow> int" where
  "orZero x = (case x of None \<Rightarrow> 0 | Some n \<Rightarrow> n)"

definition deltaOf :: "bucketDeltas \<Rightarrow> buckets" where
  "deltaOf d = Buckets (orZero (bd_onHand d)) (orZero (bd_reserved d)) (orZero (bd_allocated d))
    (orZero (bd_inTransit d)) (orZero (bd_damaged d))"

definition nextBalance :: "buckets \<Rightarrow> bucketDeltas \<Rightarrow> buckets" where
  "nextBalance current d = Buckets
    (bk_onHand current + orZero (bd_onHand d))
    (bk_reserved current + orZero (bd_reserved d))
    (bk_allocated current + orZero (bd_allocated d))
    (bk_inTransit current + orZero (bd_inTransit d))
    (bk_damaged current + orZero (bd_damaged d))"

definition mv_key :: "movementParams \<Rightarrow> stockKey" where
  "mv_key p = (mv_tenantId p, mv_skuId p, mv_locationId p)"

section \<open>Validation\<close>

text \<open>The first bucket that would go negative, in the order the code looks.\<close>

definition negativeBucket :: "buckets \<Rightarrow> string option" where
  "negativeBucket b = map_option fst (find (\<lambda>(n, v). v < 0)
    [(''onHand'', bk_onHand b), (''reserved'', bk_reserved b), (''allocated'', bk_allocated b),
     (''inTransit'', bk_inTransit b), (''damaged'', bk_damaged b)])"

definition availableOf :: "buckets \<Rightarrow> int \<Rightarrow> int" where
  "availableOf b safetyStock = bk_onHand b - bk_reserved b - bk_allocated b - safetyStock"

definition validateMovement :: "snapshotRow \<Rightarrow> movementParams \<Rightarrow> ('s, unit) op" where
  "validateMovement nextRow p =
    (case negativeBucket (sn_bal nextRow) of
       Some b \<Rightarrow> throw (Conflict (''Movement would drive negative: '' @ b))
     | None \<Rightarrow>
         throwIf (mv_requireAvailable p \<and> availableOf (sn_bal nextRow) (sn_safetyStock nextRow) < 0)
           (Conflict ''Insufficient available stock''))"

section \<open>The core write\<close>

text \<open>
  The row an upsert creates: all balances, the safety stock and the version start at 0.  A
  missing SKU, location or tenant violates a foreign key.
\<close>

definition freshSnapshot :: "ident \<Rightarrow> ident \<Rightarrow> ident \<Rightarrow> ident \<Rightarrow> snapshotRow" where
  "freshSnapshot i tenantId skuId locationId = \<lparr>sn_id = i, sn_tenantId = tenantId, sn_skuId = skuId,
    sn_locationId = locationId, sn_bal = 0, sn_safetyStock = 0, sn_version = 0\<rparr>"

definition refsExist :: "ident \<Rightarrow> ident \<Rightarrow> ident \<Rightarrow> world \<Rightarrow> bool" where
  "refsExist tenantId skuId locationId w \<longleftrightarrow>
    list_ex (\<lambda>t. tn_id t = tenantId) (tenants w) \<and>
    list_ex (\<lambda>k. sk_id k = skuId) (skus w) \<and>
    list_ex (\<lambda>l. lo_id l = locationId) (locations w)"

definition findSnapshot :: "stockKey \<Rightarrow> world \<Rightarrow> snapshotRow option" where
  "findSnapshot k w = find (\<lambda>s. sn_key s = k) (snapshots w)"

text \<open>\<open>INSERT ... ON CONFLICT DO NOTHING\<close>\<close>

definition ensureSnapshot :: "ident \<Rightarrow> ident \<Rightarrow> ident \<Rightarrow> (world, unit) op" where
  "ensureSnapshot tenantId skuId locationId =
    bind freshId (\<lambda>i.
    bind (gets (findSnapshot (tenantId, skuId, locationId))) (\<lambda>existing.
    case existing of
      Some _ \<Rightarrow> ret ()
    | None \<Rightarrow>
        bind (gets (refsExist tenantId skuId locationId)) (\<lambda>ok.
        andThen (throwIf (\<not> ok) (PrismaKnown ''P2010'' (Some ''23503'')))
        (modify (\<lambda>w. w\<lparr>snapshots := snapshots w @ [freshSnapshot i tenantId skuId locationId]\<rparr>)))))"

definition appendLedger :: "movementParams \<Rightarrow> (world, unit) op" where
  "appendLedger p =
    bind freshId (\<lambda>i. bind now (\<lambda>ts.
    modify (\<lambda>w. w\<lparr>ledger := ledger w @ [
      \<lparr>lg_id = i, lg_tenantId = mv_tenantId p, lg_skuId = mv_skuId p, lg_locationId = mv_locationId p,
       lg_eventType = mv_eventType p, lg_delta = deltaOf (mv_deltas p),
       lg_referenceType = mv_referenceType p, lg_referenceId = mv_referenceId p,
       lg_reason = mv_reason p, lg_createdAt = ts\<rparr>]\<rparr>)))"

definition applyLocked :: "movementParams \<Rightarrow> (world, snapshotRow) op" where
  "applyLocked p =
    bind (gets (findSnapshot (mv_key p))) (\<lambda>rows.
    bind (orThrow rows (NotFound ''Snapshot row missing after upsert'')) (\<lambda>current.
    let nextRow = current\<lparr>sn_bal := nextBalance (sn_bal current) (mv_deltas p)\<rparr> in
    andThen (validateMovement nextRow p)
    (andThen (updateMany snapshots snapshots_update (\<lambda>s. sn_id s = sn_id current)
       (\<lambda>s. s\<lparr>sn_bal := sn_bal nextRow, sn_version := sn_version current + 1\<rparr>))
    (andThen (appendLedger p)
    (ret (nextRow\<lparr>sn_version := sn_version current + 1\<rparr>))))))"

definition applyWithin :: "movementParams \<Rightarrow> (world, snapshotRow) op" where
  "applyWithin p =
    andThen (ensureSnapshot (mv_tenantId p) (mv_skuId p) (mv_locationId p)) (applyLocked p)"

text \<open>
  Invalidation: drop the SKU's cached answers, record an outbox event (an insert that fails is
  ignored; \<open>outboxUp\<close> says whether it succeeds), publish the live event.
\<close>

definition invalidate :: "ident \<Rightarrow> ident \<Rightarrow> (world, unit) op" where
  "invalidate tenantId skuId =
    andThen (modify (\<lambda>w. w\<lparr>cache := (\<lambda>(t, s, l).
      if t = tenantId \<and> s = skuId then None else cache w (t, s, l))\<rparr>))
    (andThen (bind freshId (\<lambda>i. modify (\<lambda>w. if outboxUp w
        then w\<lparr>outbox := outbox w @ [\<lparr>ob_id = i, ob_seq = nextSeq w, ob_tenantId = tenantId,
                 ob_type = INVENTORY_ATP_CHANGED, ob_subjectId = skuId, ob_status = OutboxStatus.PENDING,
                 ob_publishedAt = None, ob_attempts = 0\<rparr>],
               nextSeq := nextSeq w + 1\<rparr>
        else w)))
    (modify (\<lambda>w. w\<lparr>published := published w @ [InventoryAtp tenantId skuId]\<rparr>)))"

text \<open>\<open>apply\<close> without a transaction of the caller's; with one it is \<open>applyWithin\<close>.\<close>

definition applyMovement :: "movementParams \<Rightarrow> (world, snapshotRow) op" where
  "applyMovement p =
    bind (transaction (applyWithin p)) (\<lambda>result.
    andThen (invalidate (mv_tenantId p) (mv_skuId p)) (ret result))"

section \<open>Public movement primitives\<close>

definition baseMovement ::
  "ident \<Rightarrow> ident \<Rightarrow> ident \<Rightarrow> InventoryEventType \<Rightarrow> bucketDeltas \<Rightarrow> movementParams" where
  "baseMovement tenantId skuId locationId ev d = \<lparr>mv_tenantId = tenantId, mv_skuId = skuId,
    mv_locationId = locationId, mv_eventType = ev, mv_deltas = d, mv_requireAvailable = False,
    mv_referenceType = None, mv_referenceId = None, mv_reason = None\<rparr>"

definition receive :: "ident \<Rightarrow> ident \<Rightarrow> ident \<Rightarrow> int \<Rightarrow> string option \<Rightarrow> (world, snapshotRow) op" where
  "receive t s l quantity reason = applyMovement
    ((baseMovement t s l RECEIPT (noDeltas\<lparr>bd_onHand := Some quantity\<rparr>))\<lparr>mv_reason := reason\<rparr>)"

definition adjust :: "ident \<Rightarrow> ident \<Rightarrow> ident \<Rightarrow> int \<Rightarrow> string option \<Rightarrow> (world, snapshotRow) op" where
  "adjust t s l delta reason = applyMovement
    ((baseMovement t s l ADJUSTMENT (noDeltas\<lparr>bd_onHand := Some delta\<rparr>))\<lparr>mv_reason := reason\<rparr>)"

text \<open>The movements that carry a reference: which order, reservation or shipment caused them.\<close>

record movementRef =
  rf_type :: "string option"
  rf_id :: "ident option"
  rf_reason :: "string option"

definition withRef :: "movementRef \<Rightarrow> movementParams \<Rightarrow> movementParams" where
  "withRef r p = p\<lparr>mv_referenceType := rf_type r, mv_referenceId := rf_id r, mv_reason := rf_reason r\<rparr>"

definition reserve :: "ident \<Rightarrow> ident \<Rightarrow> ident \<Rightarrow> int \<Rightarrow> movementRef \<Rightarrow> (world, snapshotRow) op" where
  "reserve t s l quantity r = applyMovement
    ((withRef r (baseMovement t s l RESERVE (noDeltas\<lparr>bd_reserved := Some quantity\<rparr>)))
      \<lparr>mv_requireAvailable := True\<rparr>)"

definition releaseReserve :: "ident \<Rightarrow> ident \<Rightarrow> ident \<Rightarrow> int \<Rightarrow> movementRef \<Rightarrow> (world, snapshotRow) op" where
  "releaseReserve t s l quantity r = applyMovement
    (withRef r (baseMovement t s l RELEASE_RESERVE (noDeltas\<lparr>bd_reserved := Some (- quantity)\<rparr>)))"

definition allocate :: "ident \<Rightarrow> ident \<Rightarrow> ident \<Rightarrow> int \<Rightarrow> movementRef \<Rightarrow> (world, snapshotRow) op" where
  "allocate t s l quantity r = applyMovement
    ((withRef r (baseMovement t s l ALLOCATE (noDeltas\<lparr>bd_allocated := Some quantity\<rparr>)))
      \<lparr>mv_requireAvailable := True\<rparr>)"

definition deallocate :: "ident \<Rightarrow> ident \<Rightarrow> ident \<Rightarrow> int \<Rightarrow> movementRef \<Rightarrow> (world, snapshotRow) op" where
  "deallocate t s l quantity r = applyMovement
    (withRef r (baseMovement t s l DEALLOCATE (noDeltas\<lparr>bd_allocated := Some (- quantity)\<rparr>)))"

definition convertReserveToAllocation ::
  "ident \<Rightarrow> ident \<Rightarrow> ident \<Rightarrow> int \<Rightarrow> movementRef \<Rightarrow> (world, snapshotRow) op" where
  "convertReserveToAllocation t s l quantity r = applyMovement
    (withRef r (baseMovement t s l CONVERT_RESERVE_TO_ALLOC
      (noDeltas\<lparr>bd_reserved := Some (- quantity), bd_allocated := Some quantity\<rparr>)))"

definition shipStock :: "ident \<Rightarrow> ident \<Rightarrow> ident \<Rightarrow> int \<Rightarrow> movementRef \<Rightarrow> (world, snapshotRow) op" where
  "shipStock t s l quantity r = applyMovement
    (withRef r (baseMovement t s l SHIP
      (noDeltas\<lparr>bd_onHand := Some (- quantity), bd_allocated := Some (- quantity)\<rparr>)))"

definition returnStock :: "ident \<Rightarrow> ident \<Rightarrow> ident \<Rightarrow> int \<Rightarrow> string option \<Rightarrow> (world, snapshotRow) op" where
  "returnStock t s l quantity reason = applyMovement
    ((baseMovement t s l RETURN (noDeltas\<lparr>bd_onHand := Some quantity\<rparr>))\<lparr>mv_reason := reason\<rparr>)"

definition createInbound :: "ident \<Rightarrow> ident \<Rightarrow> ident \<Rightarrow> int \<Rightarrow> string option \<Rightarrow> (world, snapshotRow) op" where
  "createInbound t s l quantity reason = applyMovement
    ((baseMovement t s l INBOUND_CREATE (noDeltas\<lparr>bd_inTransit := Some quantity\<rparr>))
      \<lparr>mv_reason := reason\<rparr>)"

definition arriveInbound :: "ident \<Rightarrow> ident \<Rightarrow> ident \<Rightarrow> int \<Rightarrow> (world, snapshotRow) op" where
  "arriveInbound t s l quantity = applyMovement
    (baseMovement t s l INBOUND_ARRIVE
      (noDeltas\<lparr>bd_inTransit := Some (- quantity), bd_onHand := Some quantity\<rparr>))"

section \<open>Transfer and safety stock\<close>

definition transferOut :: "ident \<Rightarrow> ident \<Rightarrow> ident \<Rightarrow> ident \<Rightarrow> int \<Rightarrow> string option \<Rightarrow> movementParams" where
  "transferOut t s from to quantity reason =
    (baseMovement t s from TRANSFER_OUT (noDeltas\<lparr>bd_onHand := Some (- quantity)\<rparr>))
      \<lparr>mv_requireAvailable := True, mv_referenceType := Some ''transfer'',
       mv_referenceId := Some to, mv_reason := reason\<rparr>"

definition transferIn :: "ident \<Rightarrow> ident \<Rightarrow> ident \<Rightarrow> ident \<Rightarrow> int \<Rightarrow> string option \<Rightarrow> movementParams" where
  "transferIn t s from to quantity reason =
    (baseMovement t s to TRANSFER_IN (noDeltas\<lparr>bd_onHand := Some quantity\<rparr>))
      \<lparr>mv_referenceType := Some ''transfer'', mv_referenceId := Some from, mv_reason := reason\<rparr>"

definition transfer ::
  "ident \<Rightarrow> ident \<Rightarrow> ident \<Rightarrow> ident \<Rightarrow> int \<Rightarrow> string option \<Rightarrow> (world, unit) op" where
  "transfer tenantId skuId fromLocationId toLocationId quantity reason =
    andThen (throwIf (fromLocationId = toLocationId) (Conflict ''Source and destination must differ''))
    (andThen (throwIf (quantity \<le> 0) (Conflict ''Transfer quantity must be positive''))
    (andThen (transaction
       (andThen (applyWithin (transferOut tenantId skuId fromLocationId toLocationId quantity reason))
       (andThen (applyWithin (transferIn tenantId skuId fromLocationId toLocationId quantity reason))
       (ret ()))))
    (invalidate tenantId skuId)))"

text \<open>An upsert of the safety stock alone; no ledger event, no version bump.\<close>

definition setSafetyStock :: "ident \<Rightarrow> ident \<Rightarrow> ident \<Rightarrow> int \<Rightarrow> (world, unit) op" where
  "setSafetyStock tenantId skuId locationId safetyStock =
    andThen
    (bind (gets (findSnapshot (tenantId, skuId, locationId))) (\<lambda>existing.
     case existing of
       Some _ \<Rightarrow> updateMany snapshots snapshots_update (\<lambda>r. sn_key r = (tenantId, skuId, locationId))
         (\<lambda>r. r\<lparr>sn_safetyStock := safetyStock\<rparr>)
     | None \<Rightarrow>
         bind freshId (\<lambda>i.
         bind (gets (refsExist tenantId skuId locationId)) (\<lambda>ok.
         andThen (throwIf (\<not> ok) (PrismaKnown ''P2003'' None))
         (modify (\<lambda>w. w\<lparr>snapshots := snapshots w @
           [(freshSnapshot i tenantId skuId locationId)\<lparr>sn_safetyStock := safetyStock\<rparr>]\<rparr>))))))
    (invalidate tenantId skuId)"

section \<open>Listing\<close>

record snapshotQuery = pageQuery +
  sq_skuId :: "ident option"
  sq_locationId :: "ident option"
  sq_search :: "string option"

text \<open>
  The rows a list query matches.  \<open>contains\<close> is the database's case-insensitive substring test
  on the SKU code.
\<close>

definition snapshotMatches ::
  "(string \<Rightarrow> string \<Rightarrow> bool) \<Rightarrow> ident \<Rightarrow> snapshotQuery \<Rightarrow> world \<Rightarrow> snapshotRow \<Rightarrow> bool" where
  "snapshotMatches contains tenantId q w s \<longleftrightarrow>
    sn_tenantId s = tenantId \<and>
    (case sq_skuId q of None \<Rightarrow> True | Some k \<Rightarrow> sn_skuId s = k) \<and>
    (case sq_locationId q of None \<Rightarrow> True | Some l \<Rightarrow> sn_locationId s = l) \<and>
    (case sq_search q of None \<Rightarrow> True
     | Some txt \<Rightarrow> txt = [] \<or> list_ex (\<lambda>k. sk_id k = sn_skuId s \<and> contains (sk_code k) txt) (skus w))"

definition snapshotOrder :: "snapshotRow \<Rightarrow> snapshotRow \<Rightarrow> int" where
  "snapshotOrder a b = falsyOr (int (sn_skuId a) - int (sn_skuId b))
    (int (sn_locationId a) - int (sn_locationId b))"

definition withAvailable :: "snapshotRow \<Rightarrow> snapshotRow \<times> int" where
  "withAvailable s = (s, max 0 (availableOf (sn_bal s) (sn_safetyStock s)))"

definition listSnapshots ::
  "(string \<Rightarrow> string \<Rightarrow> bool) \<Rightarrow> ident \<Rightarrow> snapshotQuery \<Rightarrow> world \<Rightarrow> (snapshotRow \<times> int) page" where
  "listSnapshots contains tenantId q w =
    (let st = toSkipTake (pageQuery.truncate q);
         matching = filter (snapshotMatches contains tenantId q w) (snapshots w);
         rows = pageOf st (jsSort snapshotOrder matching)
     in makePage (map withAvailable rows) (int (length matching)) (st_page st) (st_pageSize st))"

section \<open>The stock position as a function of the state\<close>

definition balance :: "world \<Rightarrow> stockKey \<Rightarrow> buckets" where
  "balance w k = (case findSnapshot k w of None \<Rightarrow> 0 | Some s \<Rightarrow> sn_bal s)"

definition safetyOf :: "world \<Rightarrow> stockKey \<Rightarrow> int" where
  "safetyOf w k = (case findSnapshot k w of None \<Rightarrow> 0 | Some s \<Rightarrow> sn_safetyStock s)"

definition availableAt :: "world \<Rightarrow> stockKey \<Rightarrow> int" where
  "availableAt w k = availableOf (balance w k) (safetyOf w k)"

text \<open>The unique constraint and the primary key of the snapshot table.\<close>

definition snapshotsOk :: "world \<Rightarrow> bool" where
  "snapshotsOk w \<longleftrightarrow> distinct (map sn_key (snapshots w)) \<and> distinct (map sn_id (snapshots w)) \<and>
    (\<forall>s \<in> set (snapshots w). sn_id s < nextId w)"

definition nonneg :: "buckets \<Rightarrow> bool" where
  "nonneg b \<longleftrightarrow> 0 \<le> bk_onHand b \<and> 0 \<le> bk_reserved b \<and> 0 \<le> bk_allocated b \<and>
    0 \<le> bk_inTransit b \<and> 0 \<le> bk_damaged b"

text \<open>What validation accepts.\<close>

definition admissible :: "movementParams \<Rightarrow> buckets \<Rightarrow> int \<Rightarrow> bool" where
  "admissible p b safetyStock \<longleftrightarrow>
    nonneg b \<and> (mv_requireAvailable p \<longrightarrow> 0 \<le> availableOf b safetyStock)"

text \<open>The abstract step of a movement.\<close>

definition ledgerEntryOf :: "movementParams \<Rightarrow> ledgerRow \<Rightarrow> bool" where
  "ledgerEntryOf p l \<longleftrightarrow> lg_key l = mv_key p \<and> lg_delta l = deltaOf (mv_deltas p) \<and>
    lg_eventType l = mv_eventType p"

definition stockOnly :: "world \<Rightarrow> world \<Rightarrow> bool" where
  "stockOnly w w' \<longleftrightarrow>
    (\<exists>ss n ls. w' = w\<lparr>snapshots := ss, nextId := n, ledger := ls\<rparr> \<and> nextId w \<le> n)"

definition moved :: "movementParams \<Rightarrow> world \<Rightarrow> world \<Rightarrow> bool" where
  "moved p w w' \<longleftrightarrow> stockOnly w w' \<and>
    (\<exists>l. ledger w' = ledger w @ [l] \<and> ledgerEntryOf p l) \<and>
    balance w' = (balance w)(mv_key p := balance w (mv_key p) + deltaOf (mv_deltas p)) \<and>
    safetyOf w' = safetyOf w \<and>
    sn_key ` set (snapshots w') = insert (mv_key p) (sn_key ` set (snapshots w))"

text \<open>What a rejected movement leaves: no balance, buffer or ledger row changed.\<close>

definition untouched :: "world \<Rightarrow> world \<Rightarrow> bool" where
  "untouched w w' \<longleftrightarrow> stockOnly w w' \<and> ledger w' = ledger w \<and> balance w' = balance w \<and>
    safetyOf w' = safetyOf w \<and> snapshotsOk w'"

text \<open>The foreign keys of a snapshot row the upsert may have to create.\<close>

definition stockable :: "movementParams \<Rightarrow> world \<Rightarrow> bool" where
  "stockable p w \<longleftrightarrow> findSnapshot (mv_key p) w \<noteq> None \<or>
    refsExist (mv_tenantId p) (mv_skuId p) (mv_locationId p) w"

lemma stockOnlyI: "w' = w\<lparr>snapshots := ss, nextId := n, ledger := ls\<rparr> \<Longrightarrow> nextId w \<le> n \<Longrightarrow> stockOnly w w'"
  by (auto simp: stockOnly_def)

lemma stockOnly_refl [simp]: "stockOnly w w"
  by (rule stockOnlyI [where ss = "snapshots w" and n = "nextId w" and ls = "ledger w"]) simp_all

lemma stockOnly_trans:
  assumes "stockOnly u v" "stockOnly v w"
  shows "stockOnly u w"
proof -
  obtain ss n ls where v: "v = u\<lparr>snapshots := ss, nextId := n, ledger := ls\<rparr>" "nextId u \<le> n"
    using assms(1) by (auto simp: stockOnly_def)
  obtain ss' n' ls' where w: "w = v\<lparr>snapshots := ss', nextId := n', ledger := ls'\<rparr>" "nextId v \<le> n'"
    using assms(2) by (auto simp: stockOnly_def)
  show ?thesis by (rule stockOnlyI [where ss = ss' and n = n' and ls = ls']) (use v w in simp_all)
qed

lemma stockOnly_sel:
  assumes "stockOnly w w'"
  shows "nextId w \<le> nextId w'" "tenants w' = tenants w" "skus w' = skus w" "locations w' = locations w"
    "orders w' = orders w" "orderLines w' = orderLines w" "orderEvents w' = orderEvents w"
    "reservations w' = reservations w" "allocations w' = allocations w" "shipments w' = shipments w"
    "sourcingRules w' = sourcingRules w" "returnRows w' = returnRows w" "returnLines w' = returnLines w"
    "inbounds w' = inbounds w" "outbox w' = outbox w" "outboxUp w' = outboxUp w" "nextSeq w' = nextSeq w"
    "cache w' = cache w" "published w' = published w" "jobs w' = jobs w" "clock w' = clock w"
    "uuidOf w' = uuidOf w" "gatewayLog w' = gatewayLog w"
  using assms by (auto simp: stockOnly_def)

section \<open>Lemmas on one movement\<close>

lemma nextBalance_eq: "nextBalance b d = b + deltaOf d"
  by (rule buckets_eqI) (simp_all add: nextBalance_def deltaOf_def)

lemma negativeBucket_None: "negativeBucket b = None \<longleftrightarrow> nonneg b"
  by (auto simp: negativeBucket_def nonneg_def)

lemma wp_validateMovement [wp]:
  "wp (validateMovement r p) Q E = (\<lambda>s. case negativeBucket (sn_bal r) of
      Some b \<Rightarrow> E (Conflict (''Movement would drive negative: '' @ b)) s
    | None \<Rightarrow> if mv_requireAvailable p \<and> availableOf (sn_bal r) (sn_safetyStock r) < 0
        then E (Conflict ''Insufficient available stock'') s else Q () s)"
  by (auto simp: fun_eq_iff validateMovement_def wp split: option.splits)

lemma findSnapshot_SomeD: "findSnapshot k w = Some s \<Longrightarrow> s \<in> set (snapshots w) \<and> sn_key s = k"
  by (auto simp: findSnapshot_def dest: find_SomeD)

lemma findSnapshot_NoneD: "findSnapshot k w = None \<Longrightarrow> k \<notin> sn_key ` set (snapshots w)"
  by (auto simp: findSnapshot_def find_None_iff)

lemma findSnapshot_unique:
  "snapshotsOk w \<Longrightarrow> s \<in> set (snapshots w) \<Longrightarrow> findSnapshot (sn_key s) w = Some s"
  by (simp add: findSnapshot_def snapshotsOk_def find_unique)

lemma balance_row: "snapshotsOk w \<Longrightarrow> s \<in> set (snapshots w) \<Longrightarrow> balance w (sn_key s) = sn_bal s"
  by (simp add: balance_def findSnapshot_unique)

lemma safetyOf_row:
  "snapshotsOk w \<Longrightarrow> s \<in> set (snapshots w) \<Longrightarrow> safetyOf w (sn_key s) = sn_safetyStock s"
  by (simp add: safetyOf_def findSnapshot_unique)

lemma snapshotsOk_id_eq:
  "snapshotsOk w \<Longrightarrow> s \<in> set (snapshots w) \<Longrightarrow> t \<in> set (snapshots w) \<Longrightarrow> sn_id s = sn_id t \<Longrightarrow> s = t"
  by (auto simp: snapshotsOk_def distinct_map inj_on_def)

text \<open>Frame: operations that leave the snapshot table alone.\<close>

lemma view_cong:
  "snapshots w' = snapshots w \<Longrightarrow> findSnapshot k w' = findSnapshot k w"
  "snapshots w' = snapshots w \<Longrightarrow> balance w' = balance w"
  "snapshots w' = snapshots w \<Longrightarrow> safetyOf w' = safetyOf w"
  "snapshots w' = snapshots w \<Longrightarrow> nextId w \<le> nextId w' \<Longrightarrow> snapshotsOk w \<Longrightarrow> snapshotsOk w'"
  by (auto simp: findSnapshot_def balance_def safetyOf_def snapshotsOk_def fun_eq_iff)

text \<open>The stock views do not see the other tables.\<close>

lemma findSnapshot_frame [simp]:
  "findSnapshot k (ledger_update f0 w) = findSnapshot k w"
  "findSnapshot k (orders_update f1 w) = findSnapshot k w"
  "findSnapshot k (orderLines_update f2 w) = findSnapshot k w"
  "findSnapshot k (orderEvents_update f3 w) = findSnapshot k w"
  "findSnapshot k (reservations_update f4 w) = findSnapshot k w"
  "findSnapshot k (allocations_update f5 w) = findSnapshot k w"
  "findSnapshot k (shipments_update f6 w) = findSnapshot k w"
  "findSnapshot k (returnRows_update f7 w) = findSnapshot k w"
  "findSnapshot k (returnLines_update f8 w) = findSnapshot k w"
  "findSnapshot k (inbounds_update f9 w) = findSnapshot k w"
  "findSnapshot k (outbox_update f10 w) = findSnapshot k w"
  "findSnapshot k (nextSeq_update f11 w) = findSnapshot k w"
  "findSnapshot k (cache_update f12 w) = findSnapshot k w"
  "findSnapshot k (published_update f13 w) = findSnapshot k w"
  "findSnapshot k (jobs_update f14 w) = findSnapshot k w"
  "findSnapshot k (clock_update f15 w) = findSnapshot k w"
  "findSnapshot k (gatewayLog_update f30 w) = findSnapshot k w"
  "findSnapshot k (nextId_update f16 w) = findSnapshot k w"
  by (rule view_cong, simp)+

lemma balance_frame [simp]:
  "balance (ledger_update f0 w) = balance w"
  "balance (orders_update f1 w) = balance w"
  "balance (orderLines_update f2 w) = balance w"
  "balance (orderEvents_update f3 w) = balance w"
  "balance (reservations_update f4 w) = balance w"
  "balance (allocations_update f5 w) = balance w"
  "balance (shipments_update f6 w) = balance w"
  "balance (returnRows_update f7 w) = balance w"
  "balance (returnLines_update f8 w) = balance w"
  "balance (inbounds_update f9 w) = balance w"
  "balance (outbox_update f10 w) = balance w"
  "balance (nextSeq_update f11 w) = balance w"
  "balance (cache_update f12 w) = balance w"
  "balance (published_update f13 w) = balance w"
  "balance (jobs_update f14 w) = balance w"
  "balance (clock_update f15 w) = balance w"
  "balance (gatewayLog_update f30 w) = balance w"
  "balance (nextId_update f16 w) = balance w"
  by (rule view_cong, simp)+

lemma safetyOf_frame [simp]:
  "safetyOf (ledger_update f0 w) = safetyOf w"
  "safetyOf (orders_update f1 w) = safetyOf w"
  "safetyOf (orderLines_update f2 w) = safetyOf w"
  "safetyOf (orderEvents_update f3 w) = safetyOf w"
  "safetyOf (reservations_update f4 w) = safetyOf w"
  "safetyOf (allocations_update f5 w) = safetyOf w"
  "safetyOf (shipments_update f6 w) = safetyOf w"
  "safetyOf (returnRows_update f7 w) = safetyOf w"
  "safetyOf (returnLines_update f8 w) = safetyOf w"
  "safetyOf (inbounds_update f9 w) = safetyOf w"
  "safetyOf (outbox_update f10 w) = safetyOf w"
  "safetyOf (nextSeq_update f11 w) = safetyOf w"
  "safetyOf (cache_update f12 w) = safetyOf w"
  "safetyOf (published_update f13 w) = safetyOf w"
  "safetyOf (jobs_update f14 w) = safetyOf w"
  "safetyOf (clock_update f15 w) = safetyOf w"
  "safetyOf (gatewayLog_update f30 w) = safetyOf w"
  "safetyOf (nextId_update f16 w) = safetyOf w"
  by (rule view_cong, simp)+

lemma snapshotsOk_frame [simp]:
  "snapshotsOk (ledger_update f0 w) = snapshotsOk w"
  "snapshotsOk (orders_update f1 w) = snapshotsOk w"
  "snapshotsOk (orderLines_update f2 w) = snapshotsOk w"
  "snapshotsOk (orderEvents_update f3 w) = snapshotsOk w"
  "snapshotsOk (reservations_update f4 w) = snapshotsOk w"
  "snapshotsOk (allocations_update f5 w) = snapshotsOk w"
  "snapshotsOk (shipments_update f6 w) = snapshotsOk w"
  "snapshotsOk (returnRows_update f7 w) = snapshotsOk w"
  "snapshotsOk (returnLines_update f8 w) = snapshotsOk w"
  "snapshotsOk (inbounds_update f9 w) = snapshotsOk w"
  "snapshotsOk (outbox_update f10 w) = snapshotsOk w"
  "snapshotsOk (nextSeq_update f11 w) = snapshotsOk w"
  "snapshotsOk (cache_update f12 w) = snapshotsOk w"
  "snapshotsOk (published_update f13 w) = snapshotsOk w"
  "snapshotsOk (jobs_update f14 w) = snapshotsOk w"
  "snapshotsOk (clock_update f15 w) = snapshotsOk w"
  "snapshotsOk (gatewayLog_update f30 w) = snapshotsOk w"
  by (simp_all add: snapshotsOk_def)

lemma snapshotsOk_nextId: "snapshotsOk w \<Longrightarrow> nextId w \<le> n \<Longrightarrow> snapshotsOk (w\<lparr>nextId := n\<rparr>)"
  by (rule view_cong(4)) simp_all

text \<open>The upsert: afterwards the row exists, and no balance has changed.\<close>

lemma ensureSnapshot_spec:
  assumes "snapshotsOk w"
  shows "wp (ensureSnapshot t s l)
    (\<lambda>_ w'. \<exists>ss c. w' = w\<lparr>nextId := Suc (nextId w), snapshots := ss\<rparr> \<and> snapshotsOk w' \<and>
      findSnapshot (t, s, l) w' = Some c \<and> balance w' = balance w \<and> safetyOf w' = safetyOf w \<and>
      sn_bal c = balance w (t, s, l) \<and> sn_safetyStock c = safetyOf w (t, s, l) \<and>
      sn_key ` set ss = insert (t, s, l) (sn_key ` set (snapshots w)) \<and>
      (findSnapshot (t, s, l) w \<noteq> None \<or> refsExist t s l w))
    (\<lambda>e w'. e = PrismaKnown ''P2010'' (Some ''23503'') \<and> findSnapshot (t, s, l) w = None \<and>
      \<not> refsExist t s l w \<and> untouched w w') w"
proof (cases "findSnapshot (t, s, l) w")
  case None
  let ?r = "freshSnapshot (nextId w) t s l"
  let ?w = "w\<lparr>nextId := Suc (nextId w), snapshots := snapshots w @ [?r]\<rparr>"
  have key: "sn_key ?r = (t, s, l)" by (simp add: freshSnapshot_def sn_key_def)
  have row: "sn_id ?r = nextId w" "sn_bal ?r = 0" "sn_safetyStock ?r = 0"
    by (simp_all add: freshSnapshot_def)
  have find': "findSnapshot k ?w = (if k = (t, s, l) then Some ?r else findSnapshot k w)" for k
    using None by (auto simp: findSnapshot_def find_append key split: option.splits)
  have ok: "snapshotsOk ?w"
    using assms findSnapshot_NoneD [OF None]
    by (auto simp: snapshotsOk_def key row image_iff less_Suc_eq)
  have bal: "balance ?w = balance w" "safetyOf ?w = safetyOf w"
    using None by (auto simp: fun_eq_iff balance_def safetyOf_def find' row)
  have zero: "balance w (t, s, l) = 0" "safetyOf w (t, s, l) = 0"
    by (simp_all add: balance_def safetyOf_def None)
  have run: "wp (ensureSnapshot t s l) Q E w = (if refsExist t s l w then Q () ?w
      else E (PrismaKnown ''P2010'' (Some ''23503'')) (w\<lparr>nextId := Suc (nextId w)\<rparr>))" for Q E
  proof -
    have "findSnapshot (t, s, l) (w\<lparr>nextId := Suc (nextId w)\<rparr>) = None"
      using None by (simp add: findSnapshot_def)
    moreover have "refsExist t s l (w\<lparr>nextId := Suc (nextId w)\<rparr>) = refsExist t s l w"
      by (simp add: refsExist_def)
    ultimately show ?thesis by (simp add: ensureSnapshot_def wp)
  qed
  have un: "untouched w (w\<lparr>nextId := Suc (nextId w)\<rparr>)"
    using view_cong [of "w\<lparr>nextId := Suc (nextId w)\<rparr>" w] assms
    by (simp add: untouched_def)
      (rule stockOnlyI [where ss = "snapshots w" and n = "Suc (nextId w)" and ls = "ledger w"]; simp)
  show ?thesis
    unfolding run using None
    by (auto intro!: exI [of _ "snapshots w @ [?r]"] exI [of _ ?r] simp: ok find' key row bal zero un)
next
  case (Some c)
  let ?w = "w\<lparr>nextId := Suc (nextId w)\<rparr>"
  have f: "findSnapshot k ?w = findSnapshot k w" for k by (simp add: findSnapshot_def)
  have "snapshotsOk ?w" using assms by (rule view_cong(4) [rotated 2]) simp_all
  moreover have "balance ?w = balance w" "safetyOf ?w = safetyOf w"
    by (simp_all add: fun_eq_iff balance_def safetyOf_def f)
  moreover have "?w = w\<lparr>nextId := Suc (nextId w), snapshots := snapshots w\<rparr>" by simp
  moreover have "insert (t, s, l) (sn_key ` set (snapshots w)) = sn_key ` set (snapshots w)"
    using findSnapshot_SomeD [OF Some] by (metis imageI insert_absorb)
  ultimately show ?thesis
    using Some f
    by (auto simp: ensureSnapshot_def wp balance_def [of w "(t, s, l)"] safetyOf_def [of w "(t, s, l)"]
        intro!: exI [of _ "snapshots w"])
qed

text \<open>Updating the row with a given identifier updates the row found under its key.\<close>

lemma findSnapshot_update:
  assumes "snapshotsOk w" "findSnapshot k0 w = Some c" "\<And>r. sn_key (f r) = sn_key r"
  shows "findSnapshot k (w\<lparr>snapshots := mapWhere (\<lambda>r. sn_id r = sn_id c) f (snapshots w)\<rparr>) =
    (if k = k0 then Some (f c) else findSnapshot k w)"
proof -
  have c: "c \<in> set (snapshots w)" "sn_key c = k0" using findSnapshot_SomeD [OF assms(2)] by auto
  have "find (\<lambda>s. sn_key s = k) (mapWhere (\<lambda>r. sn_id r = sn_id c) f (snapshots w)) =
      map_option (\<lambda>r. if sn_id r = sn_id c then f r else r) (findSnapshot k w)"
    by (simp add: findSnapshot_def find_mapWhere_frame assms(3))
  moreover have "sn_id r \<noteq> sn_id c" if "findSnapshot k w = Some r" "k \<noteq> k0" for r
    using that findSnapshot_SomeD [OF that(1)] snapshotsOk_id_eq [OF assms(1) _ c(1)] c(2) by blast
  ultimately show ?thesis
    using assms(2) by (cases "findSnapshot k w") (auto simp: findSnapshot_def)
qed

lemma snapshotsOk_rows:
  assumes "snapshotsOk w" "map sn_key rs = map sn_key (snapshots w)" "map sn_id rs = map sn_id (snapshots w)"
  shows "snapshotsOk (w\<lparr>snapshots := rs\<rparr>)"
proof -
  have "\<forall>i \<in> set (map sn_id rs). i < nextId w"
    using assms(1) unfolding assms(3) by (simp add: snapshotsOk_def)
  then have "\<forall>s \<in> set rs. sn_id s < nextId w" by simp
  then show ?thesis using assms by (simp add: snapshotsOk_def)
qed

lemma snapshotsOk_update:
  assumes "snapshotsOk w" "\<And>r. sn_key (f r) = sn_key r" "\<And>r. sn_id (f r) = sn_id r"
  shows "snapshotsOk (w\<lparr>snapshots := mapWhere p f (snapshots w)\<rparr>)"
  using assms by (auto simp: snapshotsOk_def map_mapWhere_frame set_mapWhere)

text \<open>The locked part: the row and the state it writes.\<close>

definition writtenRow :: "movementParams \<Rightarrow> snapshotRow \<Rightarrow> snapshotRow \<Rightarrow> snapshotRow" where
  "writtenRow p c r = r\<lparr>sn_bal := sn_bal c + deltaOf (mv_deltas p), sn_version := sn_version c + 1\<rparr>"

definition ledgerEntry :: "movementParams \<Rightarrow> ident \<Rightarrow> int \<Rightarrow> ledgerRow" where
  "ledgerEntry p i ts = \<lparr>lg_id = i, lg_tenantId = mv_tenantId p, lg_skuId = mv_skuId p,
     lg_locationId = mv_locationId p, lg_eventType = mv_eventType p, lg_delta = deltaOf (mv_deltas p),
     lg_referenceType = mv_referenceType p, lg_referenceId = mv_referenceId p,
     lg_reason = mv_reason p, lg_createdAt = ts\<rparr>"

definition writtenState :: "movementParams \<Rightarrow> snapshotRow \<Rightarrow> world \<Rightarrow> world" where
  "writtenState p c w = w\<lparr>snapshots := mapWhere (\<lambda>r. sn_id r = sn_id c) (writtenRow p c) (snapshots w),
     nextId := Suc (nextId w), ledger := ledger w @ [ledgerEntry p (nextId w) (clock w)]\<rparr>"

lemma writtenRow_key [simp]: "sn_key (writtenRow p c r) = sn_key r"
  and writtenRow_sel [simp]:
    "sn_id (writtenRow p c r) = sn_id r" "sn_safetyStock (writtenRow p c r) = sn_safetyStock r"
    "sn_bal (writtenRow p c r) = sn_bal c + deltaOf (mv_deltas p)"
  by (simp_all add: writtenRow_def sn_key_def)

lemma rejection_iff:
  "(\<exists>b. negativeBucket bal = Some b) \<or> mv_requireAvailable p \<and> availableOf bal n < 0 \<longleftrightarrow>
    \<not> admissible p bal n"
  by (auto simp: admissible_def negativeBucket_None [symmetric])

lemma wp_applyLocked:
  assumes "findSnapshot (mv_key p) w = Some c"
  shows "wp (applyLocked p) Q E w =
    (if admissible p (sn_bal c + deltaOf (mv_deltas p)) (sn_safetyStock c)
     then Q (writtenRow p c c) (writtenState p c w)
     else wp (validateMovement (writtenRow p c c) p :: (world, unit) op) (\<lambda>_ _. False) E w)"
  using assms
  by (auto simp: applyLocked_def wp Let_def nextBalance_eq admissible_def negativeBucket_None
      writtenState_def appendLedger_def ledgerEntry_def writtenRow_def [abs_def]
      dest: negativeBucket_None [THEN iffD2] split: option.splits)

lemma writtenState_moved:
  assumes ok: "snapshotsOk w" and c: "findSnapshot (mv_key p) w = Some c"
  shows "moved p w (writtenState p c w)" and "snapshotsOk (writtenState p c w)"
proof -
  let ?ss = "mapWhere (\<lambda>r. sn_id r = sn_id c) (writtenRow p c) (snapshots w)"
  have fs: "findSnapshot k (writtenState p c w) =
      (if k = mv_key p then Some (writtenRow p c c) else findSnapshot k w)" for k
    using findSnapshot_update [OF ok c writtenRow_key, of k]
    by (simp add: findSnapshot_def writtenState_def)
  have "balance (writtenState p c w) =
      (balance w)(mv_key p := balance w (mv_key p) + deltaOf (mv_deltas p))"
    by (simp add: fun_eq_iff balance_def fs c)
  moreover have "safetyOf (writtenState p c w) = safetyOf w"
    by (simp add: fun_eq_iff safetyOf_def fs c)
  moreover have "sn_key ` set (snapshots (writtenState p c w)) =
      insert (mv_key p) (sn_key ` set (snapshots w))"
  proof -
    have "map sn_key ?ss = map sn_key (snapshots w)" by (rule map_mapWhere_frame) simp
    then have "sn_key ` set ?ss = sn_key ` set (snapshots w)" by (metis list.set_map)
    then show ?thesis
      using findSnapshot_SomeD [OF c] by (simp add: writtenState_def) (metis imageI insert_absorb)
  qed
  ultimately show "moved p w (writtenState p c w)"
    unfolding moved_def
    by (auto simp: writtenState_def ledgerEntryOf_def ledgerEntry_def lg_key_def mv_key_def
        intro!: stockOnlyI [OF refl])
  have "snapshotsOk (w\<lparr>snapshots := ?ss\<rparr>)" using ok by (rule snapshotsOk_update) simp_all
  then show "snapshotsOk (writtenState p c w)"
    by (rule view_cong(4) [rotated 2]) (simp_all add: writtenState_def)
qed

text \<open>The specification of \<open>applyWithin\<close>: the abstract step when it returns, the reason when not.\<close>

lemma wp_rejection:
  assumes "\<not> admissible p (sn_bal r) (sn_safetyStock r)"
  shows "wp (validateMovement r p) (\<lambda>_ _. False) (\<lambda>e w'. w' = w \<and> (\<exists>m. e = Conflict m)) w"
  using assms by (auto simp: wp admissible_def negativeBucket_None split: option.split)

lemma applyWithin_spec:
  assumes ok: "snapshotsOk w"
  shows "wp (applyWithin p)
    (\<lambda>r w'. moved p w w' \<and> snapshotsOk w' \<and>
      admissible p (balance w' (mv_key p)) (safetyOf w (mv_key p)) \<and>
      sn_key r = mv_key p \<and> sn_bal r = balance w' (mv_key p) \<and> stockable p w)
    (\<lambda>e w'. untouched w w' \<and>
      (\<not> stockable p w \<and> e = PrismaKnown ''P2010'' (Some ''23503'') \<or>
       \<not> admissible p (balance w (mv_key p) + deltaOf (mv_deltas p)) (safetyOf w (mv_key p)) \<and>
        (\<exists>m. e = Conflict m))) w"
  (is "wp _ ?Q ?E w")
proof -
  have key: "(mv_tenantId p, mv_skuId p, mv_locationId p) = mv_key p" by (simp add: mv_key_def)
  have locked: "wp (applyLocked p) ?Q ?E w1"
    if w1: "w1 = w\<lparr>nextId := Suc (nextId w), snapshots := ss\<rparr>" "snapshotsOk w1"
      "findSnapshot (mv_key p) w1 = Some c" "balance w1 = balance w" "safetyOf w1 = safetyOf w"
      "sn_bal c = balance w (mv_key p)" "sn_safetyStock c = safetyOf w (mv_key p)"
      "sn_key ` set ss = insert (mv_key p) (sn_key ` set (snapshots w))" "stockable p w"
    for w1 ss c
  proof (cases "admissible p (sn_bal c + deltaOf (mv_deltas p)) (sn_safetyStock c)")
    case True
    note m = writtenState_moved [OF w1(2,3)]
    have m1: "moved p w (writtenState p c w1)"
      using m(1) w1(4,5,8) stockOnly_trans [of w w1 "writtenState p c w1"]
        stockOnlyI [of w1 "ledger w" "Suc (nextId w)" ss w]
      by (auto simp: moved_def w1(1))
    moreover have "sn_key c = mv_key p" using findSnapshot_SomeD [OF w1(3)] by simp
    moreover have "balance (writtenState p c w1) (mv_key p) = sn_bal c + deltaOf (mv_deltas p)"
      using m1 w1(6) by (simp add: moved_def)
    ultimately have "?Q (writtenRow p c c) (writtenState p c w1)"
      using True m(2) w1(7,9) by simp
    then show ?thesis by (simp only: wp_applyLocked [OF w1(3)] True if_True)
  next
    case False
    then have "wp (validateMovement (writtenRow p c c) p) (\<lambda>_ _. False)
        (\<lambda>e w'. w' = w1 \<and> (\<exists>m. e = Conflict m)) w1"
      by (intro wp_rejection) simp
    moreover have "untouched w w1"
      using w1(2,4,5) stockOnlyI [of w1 "ledger w" "Suc (nextId w)" ss w]
      by (simp add: untouched_def w1(1))
    ultimately have "wp (validateMovement (writtenRow p c c) p) (\<lambda>_ _. False) ?E w1"
      using False w1(6,7) by (auto elim!: wp_mono)
    then show ?thesis by (simp add: wp_applyLocked [OF w1(3)] False)
  qed
  show ?thesis
    unfolding applyWithin_def wp
  proof (rule wp_mono [OF ensureSnapshot_spec [OF ok]], goal_cases)
    case (1 x w1)
    then have "stockable p w" by (auto simp: key stockable_def)
    moreover obtain ss c where "w1 = w\<lparr>nextId := Suc (nextId w), snapshots := ss\<rparr>" "snapshotsOk w1"
      "findSnapshot (mv_key p) w1 = Some c" "balance w1 = balance w" "safetyOf w1 = safetyOf w"
      "sn_bal c = balance w (mv_key p)" "sn_safetyStock c = safetyOf w (mv_key p)"
      "sn_key ` set ss = insert (mv_key p) (sn_key ` set (snapshots w))"
      using 1(2) unfolding key by blast
    ultimately show ?case by (intro locked)
  next
    case (2 e w1)
    then show ?case by (simp add: key stockable_def)
  qed
qed

text \<open>The same as a rule for the operations that call it.\<close>

lemma wp_applyWithin:
  assumes "snapshotsOk w"
    and "\<And>r w'. moved p w w' \<Longrightarrow> snapshotsOk w' \<Longrightarrow>
      admissible p (balance w' (mv_key p)) (safetyOf w (mv_key p)) \<Longrightarrow> stockable p w \<Longrightarrow>
      sn_key r = mv_key p \<Longrightarrow> sn_bal r = balance w' (mv_key p) \<Longrightarrow> Q r w'"
    and "\<And>e w'. untouched w w' \<Longrightarrow> E e w'"
  shows "wp (applyWithin p) Q E w"
  by (rule wp_mono [OF applyWithin_spec [OF assms(1)]]) (auto intro: assms(2,3))

section \<open>The stock invariant\<close>

text \<open>
  The balances of a key are the sum of the deltas of its ledger rows, and no bucket is negative.
\<close>

definition ledgerSum :: "world \<Rightarrow> stockKey \<Rightarrow> buckets" where
  "ledgerSum w k = sumWhere (\<lambda>l. lg_key l = k) lg_delta (ledger w)"

definition stockInv :: "world \<Rightarrow> bool" where
  "stockInv w \<longleftrightarrow> snapshotsOk w \<and> (\<forall>k. nonneg (balance w k)) \<and> ledgerSum w = balance w"

lemma stockInvD:
  "stockInv w \<Longrightarrow> snapshotsOk w" "stockInv w \<Longrightarrow> nonneg (balance w k)"
  "stockInv w \<Longrightarrow> ledgerSum w = balance w"
  by (simp_all add: stockInv_def)

lemma moved_stockInv:
  assumes "stockInv w" "moved p w w'" "snapshotsOk w'" "nonneg (balance w' (mv_key p))"
  shows "stockInv w'"
  using assms by (auto simp: stockInv_def moved_def ledgerSum_def ledgerEntryOf_def fun_eq_iff)

lemma untouched_stockInv: "stockInv w \<Longrightarrow> untouched w w' \<Longrightarrow> stockInv w'"
  by (simp add: stockInv_def untouched_def ledgerSum_def fun_eq_iff)

lemma stockInv_frame:
  "stockInv w \<Longrightarrow> snapshots w' = snapshots w \<Longrightarrow> ledger w' = ledger w \<Longrightarrow> nextId w \<le> nextId w' \<Longrightarrow>
    stockInv w'"
  using view_cong [of w' w] by (simp add: stockInv_def ledgerSum_def fun_eq_iff)

lemma stockInv_frame_simps [simp]:
  "stockInv (orders_update f0 w) = stockInv w"
  "stockInv (orderLines_update f1 w) = stockInv w"
  "stockInv (orderEvents_update f2 w) = stockInv w"
  "stockInv (reservations_update f3 w) = stockInv w"
  "stockInv (allocations_update f4 w) = stockInv w"
  "stockInv (shipments_update f5 w) = stockInv w"
  "stockInv (returnRows_update f6 w) = stockInv w"
  "stockInv (returnLines_update f7 w) = stockInv w"
  "stockInv (inbounds_update f8 w) = stockInv w"
  "stockInv (outbox_update f9 w) = stockInv w"
  "stockInv (nextSeq_update f10 w) = stockInv w"
  "stockInv (cache_update f11 w) = stockInv w"
  "stockInv (published_update f12 w) = stockInv w"
  "stockInv (jobs_update f13 w) = stockInv w"
  "stockInv (clock_update f14 w) = stockInv w"
  "stockInv (gatewayLog_update f30 w) = stockInv w"
  by (simp_all add: stockInv_def ledgerSum_def fun_eq_iff)

lemma stockInv_nextId: "stockInv w \<Longrightarrow> nextId w \<le> n \<Longrightarrow> stockInv (w\<lparr>nextId := n\<rparr>)"
  by (rule stockInv_frame) simp_all

lemma keeps_stock_freshId [keepsI]: "keeps stockInv freshId"
  by (rule keeps_intro) (simp add: wp stockInv_nextId)

lemma keeps_stock_applyWithin [keepsI]: "keeps stockInv (applyWithin p)"
proof (rule keeps_intro)
  fix w assume w: "stockInv w"
  show "wp (applyWithin p) (\<lambda>_. stockInv) (\<lambda>_. stockInv) w"
    using stockInvD(1) [OF w]
    by (rule wp_applyWithin)
      (auto intro: moved_stockInv [OF w] untouched_stockInv [OF w] simp: admissible_def)
qed

text \<open>Invalidation leaves the stock tables alone.\<close>

definition invalidated :: "ident \<Rightarrow> ident \<Rightarrow> world \<Rightarrow> world" where
  "invalidated tenantId skuId w = w\<lparr>
     cache := (\<lambda>(t, s, l). if t = tenantId \<and> s = skuId then None else cache w (t, s, l)),
     nextId := Suc (nextId w),
     outbox := (if outboxUp w then outbox w @ [\<lparr>ob_id = nextId w, ob_seq = nextSeq w,
       ob_tenantId = tenantId, ob_type = INVENTORY_ATP_CHANGED, ob_subjectId = skuId,
       ob_status = OutboxStatus.PENDING, ob_publishedAt = None, ob_attempts = 0\<rparr>] else outbox w),
     nextSeq := (if outboxUp w then nextSeq w + 1 else nextSeq w),
     published := published w @ [InventoryAtp tenantId skuId]\<rparr>"

lemma wp_invalidate [wp]: "wp (invalidate t s) Q E = (\<lambda>w. Q () (invalidated t s w))"
  by (rule ext) (simp add: invalidate_def wp invalidated_def)

lemma invalidated_sel [simp]:
  "snapshots (invalidated t s w) = snapshots w" "ledger (invalidated t s w) = ledger w"
  "nextId (invalidated t s w) = Suc (nextId w)" "tenants (invalidated t s w) = tenants w"
  "skus (invalidated t s w) = skus w" "locations (invalidated t s w) = locations w"
  "orders (invalidated t s w) = orders w" "orderLines (invalidated t s w) = orderLines w"
  "orderEvents (invalidated t s w) = orderEvents w"
  "reservations (invalidated t s w) = reservations w"
  "allocations (invalidated t s w) = allocations w" "shipments (invalidated t s w) = shipments w"
  "sourcingRules (invalidated t s w) = sourcingRules w"
  "returnRows (invalidated t s w) = returnRows w" "returnLines (invalidated t s w) = returnLines w"
  "inbounds (invalidated t s w) = inbounds w" "jobs (invalidated t s w) = jobs w"
  "clock (invalidated t s w) = clock w" "uuidOf (invalidated t s w) = uuidOf w"
  "outboxUp (invalidated t s w) = outboxUp w" "gatewayLog (invalidated t s w) = gatewayLog w"
  "published (invalidated t s w) = published w @ [InventoryAtp t s]"
  "cache (invalidated t s w) = (\<lambda>(t', s', l). if t' = t \<and> s' = s then None else cache w (t', s', l))"
  by (simp_all add: invalidated_def)

lemma invalidated_view [simp]:
  "findSnapshot k (invalidated t s w) = findSnapshot k w"
  "balance (invalidated t s w) = balance w" "safetyOf (invalidated t s w) = safetyOf w"
  by (rule view_cong; simp)+

lemma snapshotsOk_invalidated [simp]: "snapshotsOk w \<Longrightarrow> snapshotsOk (invalidated t s w)"
  by (rule view_cong(4)) simp_all

lemma keeps_stock_invalidate [keepsI]: "keeps stockInv (invalidate t s)"
  by (rule keeps_intro) (simp add: wp, erule stockInv_frame, simp_all)

lemma keeps_stock_applyMovement [keepsI]: "keeps stockInv (applyMovement p)"
  unfolding applyMovement_def by (intro keepsI)

lemma keeps_stock_transfer [keepsI]: "keeps stockInv (transfer t s a b n r)"
  unfolding transfer_def by (intro keepsI)

lemmas movement_defs = receive_def adjust_def reserve_def releaseReserve_def allocate_def deallocate_def
  convertReserveToAllocation_def shipStock_def returnStock_def createInbound_def arriveInbound_def

lemma keeps_stock_primitives [keepsI]:
  "keeps stockInv (receive t s l n r)" "keeps stockInv (adjust t s l n r)"
  "keeps stockInv (reserve t s l n rf)" "keeps stockInv (releaseReserve t s l n rf)"
  "keeps stockInv (allocate t s l n rf)" "keeps stockInv (deallocate t s l n rf)"
  "keeps stockInv (convertReserveToAllocation t s l n rf)" "keeps stockInv (shipStock t s l n rf)"
  "keeps stockInv (returnStock t s l n r)" "keeps stockInv (createInbound t s l n r)"
  "keeps stockInv (arriveInbound t s l n)"
  unfolding movement_defs by (rule keeps_stock_applyMovement)+

text \<open>Setting the buffer changes the buffer of one key and no balance.\<close>

lemma wp_setSafetyStock:
  assumes ok: "snapshotsOk w"
  shows "wp (setSafetyStock t s l n)
    (\<lambda>_ w'. snapshotsOk w' \<and> balance w' = balance w \<and> safetyOf w' = (safetyOf w)((t, s, l) := n) \<and>
      ledger w' = ledger w)
    (\<lambda>e w'. e = PrismaKnown ''P2003'' None \<and> findSnapshot (t, s, l) w = None \<and>
      \<not> refsExist t s l w \<and> w' = w\<lparr>nextId := Suc (nextId w)\<rparr>) w"
proof (cases "findSnapshot (t, s, l) w")
  case None
  let ?r = "(freshSnapshot (nextId w) t s l)\<lparr>sn_safetyStock := n\<rparr>"
  let ?w = "w\<lparr>nextId := Suc (nextId w), snapshots := snapshots w @ [?r]\<rparr>"
  have row: "sn_key ?r = (t, s, l)" "sn_id ?r = nextId w" "sn_bal ?r = 0" "sn_safetyStock ?r = n"
    by (simp_all add: freshSnapshot_def sn_key_def)
  have find': "findSnapshot k ?w = (if k = (t, s, l) then Some ?r else findSnapshot k w)" for k
    using None row(1) by (auto simp: findSnapshot_def find_append split: option.splits)
  have "snapshotsOk ?w"
    using ok findSnapshot_NoneD [OF None] row
    by (auto simp: snapshotsOk_def image_iff less_Suc_eq)
  moreover have "balance ?w = balance w"
    using None by (auto simp: fun_eq_iff balance_def find' row)
  moreover have "safetyOf ?w = (safetyOf w)((t, s, l) := n)"
    by (auto simp: fun_eq_iff safetyOf_def find' row)
  moreover have "refsExist t s l (w\<lparr>nextId := Suc (nextId w)\<rparr>) = refsExist t s l w"
    by (simp add: refsExist_def)
  ultimately show ?thesis
    unfolding setSafetyStock_def by (auto simp: wp None)
next
  case (Some c)
  let ?f = "\<lambda>r. r\<lparr>sn_safetyStock := n\<rparr>"
  let ?w = "w\<lparr>snapshots := mapWhere (\<lambda>r. sn_key r = (t, s, l)) ?f (snapshots w)\<rparr>"
  have fkey: "sn_key (?f r) = sn_key r" for r :: snapshotRow by (simp add: sn_key_def)
  have find': "findSnapshot k ?w = (if k = (t, s, l) then Some (?f c) else findSnapshot k w)" for k
  proof -
    have "findSnapshot k ?w =
        map_option (\<lambda>r. if sn_key r = (t, s, l) then ?f r else r) (findSnapshot k w)"
      by (simp add: findSnapshot_def find_mapWhere_frame fkey)
    then show ?thesis
      using Some findSnapshot_SomeD [of k w] by (cases "findSnapshot k w") auto
  qed
  have "snapshotsOk ?w" using ok fkey by (rule snapshotsOk_update) simp
  moreover have "balance ?w = balance w" using Some by (auto simp: fun_eq_iff balance_def find')
  moreover have "safetyOf ?w = (safetyOf w)((t, s, l) := n)"
    by (auto simp: fun_eq_iff safetyOf_def find')
  ultimately show ?thesis
    unfolding setSafetyStock_def
    by (auto simp: wp Some)
qed

lemma keeps_stock_setSafetyStock [keepsI]: "keeps stockInv (setSafetyStock t s l n)"
proof (rule keeps_intro)
  fix w assume w: "stockInv w"
  show "wp (setSafetyStock t s l n) (\<lambda>_. stockInv) (\<lambda>_. stockInv) w"
    by (rule wp_mono [OF wp_setSafetyStock [OF stockInvD(1) [OF w]]])
      (use w in \<open>auto simp: stockInv_def ledgerSum_def fun_eq_iff intro: snapshotsOk_nextId\<close>)
qed

section \<open>What a client may assume of a movement\<close>

text \<open>
  A writer of stock: when it returns, the balance of its key has changed by its delta, and
  nothing else has.  A batch of writes then changes every balance by the sum of the deltas of the
  writes to that key, and a batch whose deltas cancel conserves the total over its keys.
\<close>

locale stock_writer =
  fixes put :: "'p \<Rightarrow> ('s, 'r) op" and ok :: "'s \<Rightarrow> bool"
    and bal :: "'s \<Rightarrow> 'k \<Rightarrow> 'v::ab_group_add" and key :: "'p \<Rightarrow> 'k" and delta :: "'p \<Rightarrow> 'v"
  assumes put_ok: "ok s \<Longrightarrow> put p s = (Inr r, s') \<Longrightarrow>
    ok s' \<and> bal s' = (bal s)(key p := bal s (key p) + delta p)"
begin

definition batch :: "'p list \<Rightarrow> ('s, unit) op" where
  "batch ps = forEach ps (\<lambda>p. andThen (put p) (ret ()))"

lemma wp_put: "ok s \<Longrightarrow> wp (put p)
    (\<lambda>_ s'. ok s' \<and> bal s' = (bal s)(key p := bal s (key p) + delta p)) (\<lambda>_ _. True) s"
  by (auto simp: wp_iff dest: put_ok)

lemma wp_batch: "ok s \<Longrightarrow> wp (batch ps)
    (\<lambda>_ s'. ok s' \<and> (\<forall>k. bal s' k = bal s k + sumWhere (\<lambda>p. key p = k) delta ps)) (\<lambda>_ _. True) s"
proof (induction ps arbitrary: s)
  case Nil
  then show ?case by (simp add: batch_def wp_ret)
next
  case (Cons p ps)
  let ?Q = "\<lambda>_ s'. ok s' \<and> (\<forall>k. bal s' k = bal s k + sumWhere (\<lambda>p. key p = k) delta (p # ps))"
  have rest: "wp (batch ps) ?Q (\<lambda>_ _. True) t"
    if t: "ok t" "bal t = (bal s)(key p := bal s (key p) + delta p)" for t
    by (rule wp_mono [OF Cons.IH [OF t(1)]]) (simp_all add: t(2) add.assoc)
  have "wp (put p) (\<lambda>_. wp (batch ps) ?Q (\<lambda>_ _. True)) (\<lambda>_ _. True) s"
    by (rule wp_mono [OF wp_put [OF Cons.prems]]) (simp_all only: rest simp_thms)
  then show ?case by (simp add: batch_def wp_andThen wp_ret)
qed

text \<open>Conservation over a set of keys.\<close>

lemma batch_total:
  assumes "ok s" "batch ps s = (Inr (), s')" "finite K" "key ` set ps \<subseteq> K"
  shows "(\<Sum>k\<in>K. bal s' k) = (\<Sum>k\<in>K. bal s k) + sum_list (map delta ps)"
proof -
  have "bal s' k = bal s k + sumWhere (\<lambda>p. key p = k) delta ps" for k
    using wp_okD [OF wp_batch [OF assms(1)] assms(2)] by simp
  then have "(\<Sum>k\<in>K. bal s' k) = (\<Sum>k\<in>K. bal s k) + (\<Sum>k\<in>K. sumWhere (\<lambda>p. key p = k) delta ps)"
    by (simp add: sum.distrib)
  also have "(\<Sum>k\<in>K. sumWhere (\<lambda>p. key p = k) delta ps) = sum_list (map delta ps)"
    using assms(4)
  proof (induction ps)
    case (Cons p ps)
    have "(\<Sum>k\<in>K. sumWhere (\<lambda>p. key p = k) delta (p # ps)) =
        (\<Sum>k\<in>K. (if k = key p then delta p else 0) + sumWhere (\<lambda>p. key p = k) delta ps)"
      by (rule sum.cong) auto
    then show ?case using Cons assms(3) by (simp add: sum.distrib sum.delta)
  qed simp
  finally show ?thesis .
qed

end

interpretation stock: stock_writer applyWithin snapshotsOk balance mv_key "\<lambda>p. deltaOf (mv_deltas p)"
proof
  fix w p r w' assume "snapshotsOk w" "applyWithin p w = (Inr r, w')"
  then show "snapshotsOk w' \<and>
      balance w' = (balance w)(mv_key p := balance w (mv_key p) + deltaOf (mv_deltas p))"
    using wp_okD [OF applyWithin_spec] by (auto simp: moved_def)
qed

text \<open>A movement on its own: when it succeeds, and what it leaves.\<close>

lemma applyMovement_ok:
  assumes "snapshotsOk w" "applyMovement p w = (Inr r, w')"
  obtains w1 where "moved p w w1" "snapshotsOk w1" "stockable p w"
    "admissible p (balance w1 (mv_key p)) (safetyOf w (mv_key p))"
    "w' = invalidated (mv_tenantId p) (mv_skuId p) w1"
proof -
  have "wp (applyMovement p) (\<lambda>_ w'. \<exists>w1. moved p w w1 \<and> snapshotsOk w1 \<and> stockable p w \<and>
      admissible p (balance w1 (mv_key p)) (safetyOf w (mv_key p)) \<and>
      w' = invalidated (mv_tenantId p) (mv_skuId p) w1) (\<lambda>_ _. True) w"
    unfolding applyMovement_def wp
    using assms(1) by (rule wp_applyWithin) auto
  from wp_okD [OF this assms(2)] that show ?thesis by blast
qed

lemma applyMovement_error:
  assumes "snapshotsOk w" "applyMovement p w = (Inl e, w')"
  shows "w' = w" and "\<not> stockable p w \<or>
    \<not> admissible p (balance w (mv_key p) + deltaOf (mv_deltas p)) (safetyOf w (mv_key p)) \<and> (\<exists>m. e = Conflict m)"
proof -
  have "wp (applyMovement p) (\<lambda>_ _. True) (\<lambda>e w'. w' = w \<and> (\<not> stockable p w \<or>
      \<not> admissible p (balance w (mv_key p) + deltaOf (mv_deltas p)) (safetyOf w (mv_key p)) \<and>
      (\<exists>m. e = Conflict m))) w"
    unfolding applyMovement_def wp
    by (rule wp_mono [OF applyWithin_spec [OF assms(1)]]) auto
  from wp_errD [OF this assms(2)]
  show "w' = w" and "\<not> stockable p w \<or>
    \<not> admissible p (balance w (mv_key p) + deltaOf (mv_deltas p)) (safetyOf w (mv_key p)) \<and> (\<exists>m. e = Conflict m)"
    by simp_all
qed

interpretation movement: stock_writer applyMovement snapshotsOk balance mv_key
  "\<lambda>p. deltaOf (mv_deltas p)"
proof
  fix w p r w' assume "snapshotsOk w" "applyMovement p w = (Inr r, w')"
  then obtain w1 where "moved p w w1" "snapshotsOk w1"
    "w' = invalidated (mv_tenantId p) (mv_skuId p) w1" by (rule applyMovement_ok)
  then show "snapshotsOk w' \<and>
      balance w' = (balance w)(mv_key p := balance w (mv_key p) + deltaOf (mv_deltas p))"
    by (auto simp: moved_def intro: view_cong(4))
qed

lemma applyMovement_succeeds_iff:
  assumes "snapshotsOk w"
  shows "(\<exists>r w'. applyMovement p w = (Inr r, w')) \<longleftrightarrow> stockable p w \<and>
    admissible p (balance w (mv_key p) + deltaOf (mv_deltas p)) (safetyOf w (mv_key p))"
proof (cases "applyMovement p w")
  case (Pair x w')
  show ?thesis
  proof (cases x)
    case (Inl e)
    then show ?thesis using applyMovement_error(2) [OF assms] Pair by auto
  next
    case (Inr r)
    then have "applyMovement p w = (Inr r, w')" using Pair by simp
    with assms obtain w1 where "moved p w w1" "stockable p w"
      "admissible p (balance w1 (mv_key p)) (safetyOf w (mv_key p))" by (rule applyMovement_ok)
    then show ?thesis using Inr Pair by (simp add: moved_def)
  qed
qed

section \<open>Properties\<close>

lemma availableOf_add:
  "availableOf (b + Buckets h r a i d) n = availableOf b n + h - r - a"
  by (simp add: availableOf_def)

lemma primitive_params [simp]:
  "mv_key (baseMovement t s l ev d) = (t, s, l)"
  "mv_deltas (baseMovement t s l ev d) = d"
  "mv_tenantId (baseMovement t s l ev d) = t" "mv_skuId (baseMovement t s l ev d) = s"
  "mv_locationId (baseMovement t s l ev d) = l" "mv_eventType (baseMovement t s l ev d) = ev"
  "mv_requireAvailable (baseMovement t s l ev d) = False"
  "mv_key (withRef rf p) = mv_key p" "mv_deltas (withRef rf p) = mv_deltas p"
  "mv_tenantId (withRef rf p) = mv_tenantId p" "mv_skuId (withRef rf p) = mv_skuId p"
  "mv_locationId (withRef rf p) = mv_locationId p" "mv_eventType (withRef rf p) = mv_eventType p"
  "mv_requireAvailable (withRef rf p) = mv_requireAvailable p"
  "mv_key (p\<lparr>mv_requireAvailable := b\<rparr>) = mv_key p" "mv_key (p\<lparr>mv_reason := rs\<rparr>) = mv_key p"
  "mv_key (p\<lparr>mv_referenceType := ty\<rparr>) = mv_key p" "mv_key (p\<lparr>mv_referenceId := i\<rparr>) = mv_key p"
  by (simp_all add: baseMovement_def withRef_def mv_key_def)

lemma deltaOf_simps [simp]:
  "deltaOf (noDeltas\<lparr>bd_onHand := Some n\<rparr>) = Buckets n 0 0 0 0"
  "deltaOf (noDeltas\<lparr>bd_reserved := Some n\<rparr>) = Buckets 0 n 0 0 0"
  "deltaOf (noDeltas\<lparr>bd_allocated := Some n\<rparr>) = Buckets 0 0 n 0 0"
  "deltaOf (noDeltas\<lparr>bd_inTransit := Some n\<rparr>) = Buckets 0 0 0 n 0"
  "deltaOf (noDeltas\<lparr>bd_reserved := Some m, bd_allocated := Some n\<rparr>) = Buckets 0 m n 0 0"
  "deltaOf (noDeltas\<lparr>bd_onHand := Some m, bd_allocated := Some n\<rparr>) = Buckets m 0 n 0 0"
  "deltaOf (noDeltas\<lparr>bd_inTransit := Some m, bd_onHand := Some n\<rparr>) = Buckets n 0 0 m 0"
  by (simp_all add: deltaOf_def noDeltas_def orZero_def)

definition reserveParams :: "ident \<Rightarrow> ident \<Rightarrow> ident \<Rightarrow> int \<Rightarrow> movementRef \<Rightarrow> movementParams" where
  "reserveParams t s l n r =
    (withRef r (baseMovement t s l RESERVE (noDeltas\<lparr>bd_reserved := Some n\<rparr>)))\<lparr>mv_requireAvailable := True\<rparr>"

lemma reserveParams_simps [simp]:
  "mv_key (reserveParams t s l n r) = (t, s, l)"
  "deltaOf (mv_deltas (reserveParams t s l n r)) = Buckets 0 n 0 0 0"
  "mv_requireAvailable (reserveParams t s l n r)"
  "mv_tenantId (reserveParams t s l n r) = t" "mv_skuId (reserveParams t s l n r) = s"
  by (simp_all add: reserveParams_def)

lemma admissible_reserve:
  "nonneg b \<Longrightarrow> 0 \<le> n \<Longrightarrow> admissible (reserveParams t s l n r) (b + Buckets 0 n 0 0 0) m \<longleftrightarrow>
    n \<le> availableOf b m"
  by (auto simp: admissible_def nonneg_def availableOf_def)

text \<open>
  Property C5.  Reserving stock never oversells: on a position that exists (or can be created), a
  reservation of \<open>n\<close> units succeeds exactly when \<open>n\<close> units are available (on hand, less what is
  reserved, allocated or kept as safety stock); then the availability of that position, and of
  no other, falls by \<open>n\<close>, and the ledger has one more row.  Otherwise it is refused with a conflict and
  nothing has changed.
\<close>

theorem reserve_exact:
  assumes "stockInv w" "stockable (reserveParams t s l n r) w" "0 \<le> n"
  shows "case reserve t s l n r w of
      (Inr row, w') \<Rightarrow> n \<le> availableAt w (t, s, l) \<and> stockInv w' \<and>
        availableAt w' = (availableAt w)((t, s, l) := availableAt w (t, s, l) - n) \<and>
        length (ledger w') = Suc (length (ledger w))
    | (Inl e, w') \<Rightarrow> availableAt w (t, s, l) < n \<and> w' = w \<and> (\<exists>m. e = Conflict m)"
proof -
  let ?p = "reserveParams t s l n r"
  have run: "reserve t s l n r = applyMovement ?p" by (simp add: reserve_def reserveParams_def)
  note ok = stockInvD(1) [OF assms(1)]
  note adm = admissible_reserve [OF stockInvD(2) [OF assms(1)] assms(3)]
  show ?thesis
  proof (cases "reserve t s l n r w")
    case (Pair x w')
    show ?thesis
    proof (cases x)
      case (Inl e)
      then have "applyMovement ?p w = (Inl e, w')" using Pair run by simp
      from applyMovement_error [OF ok this] assms(2) show ?thesis
        by (auto simp: Pair Inl adm availableAt_def)
    next
      case (Inr row)
      then have go: "applyMovement ?p w = (Inr row, w')" using Pair run by simp
      from ok go obtain w1 where w1: "moved ?p w w1"
        "admissible ?p (balance w1 (mv_key ?p)) (safetyOf w (mv_key ?p))"
        "w' = invalidated (mv_tenantId ?p) (mv_skuId ?p) w1" by (rule applyMovement_ok)
      have "stockInv w'" using keepsD [OF keeps_stock_applyMovement assms(1) go] .
      moreover have "n \<le> availableAt w (t, s, l)"
        using w1(1,2) by (simp add: moved_def adm availableAt_def)
      moreover have "availableAt w' = (availableAt w)((t, s, l) := availableAt w (t, s, l) - n)"
        using w1(1,3) by (auto simp: moved_def availableAt_def availableOf_add fun_eq_iff)
      ultimately show ?thesis using w1(1,3) by (auto simp: Pair Inr moved_def)
    qed
  qed
qed

definition demoWorld :: world where
  "demoWorld = \<lparr>tenants = [\<lparr>tn_id = 7, tn_slug = ''acme''\<rparr>],
    skus = [\<lparr>sk_id = 2, sk_tenantId = 7, sk_code = ''A-1'', sk_name = ''A'', sk_active = True\<rparr>],
    locations = map (\<lambda>i. \<lparr>lo_id = i, lo_tenantId = 7, lo_code = ''L'', lo_name = ''L'', lo_type = WAREHOUSE,
      lo_active = True, lo_latitude = None, lo_longitude = None, lo_fulfillmentPriority = 0,
      lo_shipFromEnabled = True, lo_pickupEnabled = True, lo_dailyOrderCapacity = None\<rparr>) [3, 4],
    ledger = [\<lparr>lg_id = 6, lg_tenantId = 7, lg_skuId = 2, lg_locationId = 3, lg_eventType = RECEIPT,
      lg_delta = Buckets 10 0 0 0 0, lg_referenceType = None, lg_referenceId = None, lg_reason = None,
      lg_createdAt = 0\<rparr>],
    snapshots = [\<lparr>sn_id = 5, sn_tenantId = 7, sn_skuId = 2, sn_locationId = 3,
      sn_bal = Buckets 10 0 0 0 0, sn_safetyStock = 2, sn_version = 1\<rparr>],
    orders = [], orderLines = [], orderEvents = [], reservations = [], allocations = [],
    shipments = [], sourcingRules = [], returnRows = [], returnLines = [], inbounds = [],
    outbox = [], outboxUp = True, nextSeq = 1, cache = (\<lambda>_. None), published = [], jobs = [],
    clock = 0, nextId = 10, uuidOf = (\<lambda>_. ''u''), gatewayLog = []\<rparr>"

definition demoOrder :: order where
  "demoOrder = \<lparr>o_id = 5, o_tenantId = 7, o_channel = WEB, o_externalRef = None, o_status = CREATED,
    o_shipToLatitude = None, o_shipToLongitude = None, o_shipToRegion = None, o_allowSplit = True,
    o_allowBackorder = False, o_customerRef = None, o_currency = ''USD'',
    o_paymentStatus = PaymentStatus.PENDING, o_fraudStatus = FraudStatus.PENDING, o_taxTotal = 0,
    o_discountTotal = 0, o_paymentReference = None, o_createdAt = 0\<rparr>"

definition demoLine :: orderLine where
  "demoLine = \<lparr>ol_id = 6, ol_orderId = 5, ol_skuId = 2, ol_quantity = 4, ol_unitPrice = 1000\<rparr>"

definition noRef :: movementRef where
  "noRef = \<lparr>rf_type = None, rf_id = None, rf_reason = None\<rparr>"

lemma demoWorld_sel:
  "snapshots demoWorld = [\<lparr>sn_id = 5, sn_tenantId = 7, sn_skuId = 2, sn_locationId = 3,
      sn_bal = Buckets 10 0 0 0 0, sn_safetyStock = 2, sn_version = 1\<rparr>]"
  "ledger demoWorld = [\<lparr>lg_id = 6, lg_tenantId = 7, lg_skuId = 2, lg_locationId = 3, lg_eventType = RECEIPT,
      lg_delta = Buckets 10 0 0 0 0, lg_referenceType = None, lg_referenceId = None, lg_reason = None,
      lg_createdAt = 0\<rparr>]"
  "nextId demoWorld = 10" "clock demoWorld = 0" "orders demoWorld = []" "orderLines demoWorld = []"
  "orderEvents demoWorld = []" "reservations demoWorld = []" "allocations demoWorld = []"
  "shipments demoWorld = []" "inbounds demoWorld = []" "returnRows demoWorld = []"
  "returnLines demoWorld = []" "sourcingRules demoWorld = []" "outbox demoWorld = []"
  "published demoWorld = []" "jobs demoWorld = []" "cache demoWorld = (\<lambda>_. None)" "outboxUp demoWorld"
  "gatewayLog demoWorld = []"
  by (simp_all add: demoWorld_def)

lemma demoWorld_stock: "stockInv demoWorld"
  by (auto simp: stockInv_def snapshotsOk_def demoWorld_def balance_def findSnapshot_def nonneg_def
      ledgerSum_def fun_eq_iff key_defs)

lemma reserve_exact_witness:
  "availableAt demoWorld (7, 2, 3) = 8 \<and>
    (case reserve 7 2 3 5 noRef demoWorld of
      (Inr row, w') \<Rightarrow> availableAt w' (7, 2, 3) = 3 | (Inl e, w') \<Rightarrow> False)"
proof -
  have "stockable (reserveParams 7 2 3 5 noRef) demoWorld"
    by (simp add: stockable_def findSnapshot_def demoWorld_def key_defs)
  moreover have "availableAt demoWorld (7, 2, 3) = 8"
    by (simp add: availableAt_def balance_def safetyOf_def findSnapshot_def demoWorld_def key_defs
        availableOf_def)
  ultimately show ?thesis
    using reserve_exact [of demoWorld 7 2 3 5 noRef] demoWorld_stock
    by (auto split: prod.splits sum.splits)
qed

text \<open>Transfers.\<close>

lemma transfer_params [simp]:
  "mv_key (transferOut t s a b n r) = (t, s, a)" "mv_key (transferIn t s a b n r) = (t, s, b)"
  "deltaOf (mv_deltas (transferOut t s a b n r)) = Buckets (- n) 0 0 0 0"
  "deltaOf (mv_deltas (transferIn t s a b n r)) = Buckets n 0 0 0 0"
  "mv_requireAvailable (transferOut t s a b n r)" "\<not> mv_requireAvailable (transferIn t s a b n r)"
  by (simp_all add: transferOut_def transferIn_def)

text \<open>The two legs are a batch of the writer \<open>applyWithin\<close>.\<close>

lemma transfer_legs:
  "andThen (applyWithin p) (andThen (applyWithin q) (ret ())) = stock.batch [p, q]"
  by (rule wp_eqI) (simp add: stock.batch_def wp)

lemma wp_transfer_body:
  assumes inv: "stockInv w" and ne: "a \<noteq> b" and pos: "0 < n"
  shows "wp (andThen (applyWithin (transferOut t s a b n r))
      (andThen (applyWithin (transferIn t s a b n r)) (ret ())))
    (\<lambda>_ w'. n \<le> availableAt w (t, s, a) \<and> n \<le> bk_onHand (balance w (t, s, a)) \<and>
      stockable (transferOut t s a b n r) w \<and> stockable (transferIn t s a b n r) w \<and>
      safetyOf w' = safetyOf w \<and> balance w' = (balance w)
        ((t, s, a) := balance w (t, s, a) - Buckets n 0 0 0 0,
         (t, s, b) := balance w (t, s, b) + Buckets n 0 0 0 0))
    (\<lambda>e _. availableAt w (t, s, a) < n \<or> bk_onHand (balance w (t, s, a)) < n \<or>
      \<not> stockable (transferOut t s a b n r) w \<or> \<not> stockable (transferIn t s a b n r) w) w"
  (is "wp (andThen (applyWithin ?p) (andThen (applyWithin ?q) _)) ?Q ?E w")
proof -
  note nn = stockInvD(2) [OF inv]
  have neg: "balance w (t, s, a) + Buckets (- n) 0 0 0 0 = balance w (t, s, a) - Buckets n 0 0 0 0"
    by (rule buckets_eqI) simp_all
  have out: "admissible ?p (balance w (t, s, a) + Buckets (- n) 0 0 0 0) (safetyOf w (t, s, a)) \<longleftrightarrow>
      n \<le> availableAt w (t, s, a) \<and> n \<le> bk_onHand (balance w (t, s, a))"
    using nn [of "(t, s, a)"] by (auto simp: admissible_def nonneg_def availableAt_def availableOf_def)
  have into: "admissible ?q (balance w (t, s, b) + Buckets n 0 0 0 0) m" for m
    using nn [of "(t, s, b)"] pos by (auto simp: admissible_def nonneg_def)
  have second: "wp (applyWithin ?q) (\<lambda>_. ?Q ()) ?E w1"
    if m: "moved ?p w w1" "snapshotsOk w1" "stockable ?p w"
      "n \<le> availableAt w (t, s, a)" "n \<le> bk_onHand (balance w (t, s, a))" for w1
  proof -
    have b1: "balance w1 = (balance w)((t, s, a) := balance w (t, s, a) - Buckets n 0 0 0 0)"
      "safetyOf w1 = safetyOf w"
      using m(1) by (simp_all add: moved_def neg)
    have st: "stockable ?q w1 = stockable ?q w"
    proof -
      have "(\<exists>r. findSnapshot (t, s, b) v = Some r) \<longleftrightarrow> (t, s, b) \<in> sn_key ` set (snapshots v)" for v
        using findSnapshot_NoneD [of "(t, s, b)" v] findSnapshot_SomeD [of "(t, s, b)" v]
        by (cases "findSnapshot (t, s, b) v") (auto intro: rev_image_eqI)
      moreover have "sn_key ` set (snapshots w1) = insert (t, s, a) (sn_key ` set (snapshots w))"
        using m(1) by (simp add: moved_def)
      ultimately show ?thesis
        using ne stockOnly_sel [of w w1] m(1)
        by (simp add: stockable_def refsExist_def moved_def)
    qed
    show ?thesis
      by (rule wp_mono [OF applyWithin_spec [OF m(2)]])
        (use m b1 ne st into in \<open>auto simp: moved_def\<close>)
  qed
  show ?thesis
    unfolding wp
    by (rule wp_mono [OF applyWithin_spec [OF stockInvD(1) [OF inv]]])
      (use out second in \<open>auto simp: moved_def wp\<close>)
qed

lemma wp_transfer:
  assumes "stockInv w"
  shows "wp (transfer t s a b n r) (\<lambda>_ w'. a \<noteq> b \<and> 0 < n \<and> n \<le> availableAt w (t, s, a) \<and>
      balance w' = (balance w)
        ((t, s, a) := balance w (t, s, a) - Buckets n 0 0 0 0,
         (t, s, b) := balance w (t, s, b) + Buckets n 0 0 0 0))
    (\<lambda>e w'. w' = w \<and>
      (a = b \<or> n \<le> 0 \<or> availableAt w (t, s, a) < n \<or> bk_onHand (balance w (t, s, a)) < n \<or>
       \<not> stockable (transferOut t s a b n r) w \<or> \<not> stockable (transferIn t s a b n r) w)) w"
proof (cases "a \<noteq> b \<and> 0 < n")
  case True
  then show ?thesis
    using wp_transfer_body [OF assms, of a b n t s r]
    unfolding transfer_def wp_andThen [where m = "throwIf _ _"] wp_andThen [where m = "transaction _"]
      wp_throwIf wp_transaction
    by (auto simp: wp_invalidate elim!: wp_mono)
next
  case False
  then show ?thesis by (auto simp: transfer_def wp)
qed

lemma demo_transfer:
  "balance demoWorld (7, 2, 3) = Buckets 10 0 0 0 0" "balance demoWorld (7, 2, 4) = 0"
  "availableAt demoWorld (7, 2, 3) = 8"
  "stockable (transferOut 7 2 3 4 6 None) demoWorld" "stockable (transferIn 7 2 3 4 6 None) demoWorld"
  by (simp_all add: availableAt_def balance_def safetyOf_def findSnapshot_def demoWorld_def key_defs
      availableOf_def stockable_def refsExist_def transferOut_def transferIn_def)

text \<open>
  Property C8.  A transfer moves on-hand stock between two locations, all or nothing.  It succeeds
  only for two different locations, a positive quantity that is both available and on hand at the source,
  and positions that exist or can be created; then the source loses and the destination gains exactly
  that quantity on hand and no other balance changes.  In every other case nothing has changed.
\<close>

theorem transfer_all_or_nothing:
  assumes "stockInv w"
  shows "case transfer t s a b n r w of
      (Inr _, w') \<Rightarrow> a \<noteq> b \<and> 0 < n \<and> n \<le> availableAt w (t, s, a) \<and> stockInv w' \<and>
        balance w' = (balance w)
          ((t, s, a) := balance w (t, s, a) - Buckets n 0 0 0 0,
           (t, s, b) := balance w (t, s, b) + Buckets n 0 0 0 0)
    | (Inl e, w') \<Rightarrow> w' = w \<and>
        (a = b \<or> n \<le> 0 \<or> availableAt w (t, s, a) < n \<or> bk_onHand (balance w (t, s, a)) < n \<or>
         \<not> stockable (transferOut t s a b n r) w \<or> \<not> stockable (transferIn t s a b n r) w)"
proof -
  have "wp (transfer t s a b n r) (\<lambda>_. stockInv) (\<lambda>_ _. True) w"
    by (rule wp_mono [OF keeps_wp [OF keeps_stock_transfer assms]]) simp_all
  with wp_transfer [OF assms, of t s a b n r] show ?thesis
    by (auto simp: wp_iff split: prod.split sum.split)
qed

lemma transfer_all_or_nothing_witness:
  "bk_onHand (balance (snd (transfer 7 2 3 4 6 None demoWorld)) (7, 2, 4)) = 6 \<and>
   bk_onHand (balance (snd (transfer 7 2 3 4 6 None demoWorld)) (7, 2, 3)) = 4"
proof -
  show ?thesis
    using transfer_all_or_nothing [OF demoWorld_stock, where t = 7 and s = 2 and a = 3 and b = 4 and n = 6 and r = None] demo_transfer
    by (auto split: prod.splits sum.splits)
qed

text \<open>
  Conservation: whatever the locations, a transfer that returns leaves the total of
  every bucket over any finite set of positions that holds both ends unchanged: no unit is lost
  or duplicated.
\<close>

lemma transfer_conserves:
  assumes "stockInv w" "transfer t s a b n r w = (Inr (), w')"
    and "finite K" "(t, s, a) \<in> K" "(t, s, b) \<in> K"
  shows "(\<Sum>k\<in>K. balance w' k) = (\<Sum>k\<in>K. balance w k)"
proof -
  let ?ps = "[transferOut t s a b n r, transferIn t s a b n r]"
  have "wp (transfer t s a b n r) (\<lambda>_ w'. \<exists>w1. stock.batch ?ps w = (Inr (), w1) \<and> balance w' = balance w1)
      (\<lambda>_ _. True) w"
    unfolding transfer_def transfer_legs by (auto simp: wp wp_iff)
  from wp_okD [OF this assms(2)] obtain w1
    where w1: "stock.batch ?ps w = (Inr (), w1)" "balance w' = balance w1" by auto
  have "(\<Sum>k\<in>K. balance w1 k) = (\<Sum>k\<in>K. balance w k) + sum_list (map (\<lambda>p. deltaOf (mv_deltas p)) ?ps)"
    using assms(3-5) by (intro stock.batch_total [OF stockInvD(1) [OF assms(1)] w1(1)]) auto
  also have "sum_list (map (\<lambda>p. deltaOf (mv_deltas p)) ?ps) = 0" by (auto intro: buckets_eqI)
  finally show ?thesis by (simp add: w1(2))
qed

lemma transfer_conserves_witness:
  "\<exists>w'. transfer 7 2 3 4 6 None demoWorld = (Inr (), w') \<and>
    (\<Sum>k\<in>{(7, 2, 3), (7, 2, 4)}. balance w' k) = (\<Sum>k\<in>{(7, 2, 3), (7, 2, 4)}. balance demoWorld k)"
proof -
  have "wp (transfer 7 2 3 4 6 None) (\<lambda>_ _. True) (\<lambda>_ _. False) demoWorld"
    by (rule wp_mono [OF wp_transfer [OF demoWorld_stock]]) (use demo_transfer in auto)
  then obtain w' where run: "transfer 7 2 3 4 6 None demoWorld = (Inr (), w')"
    by (rule wp_obtain) auto
  from transfer_conserves [OF demoWorld_stock run, of "{(7, 2, 3), (7, 2, 4)}"]
  have "(\<Sum>k\<in>{(7, 2, 3), (7, 2, 4)}. balance w' k) = (\<Sum>k\<in>{(7, 2, 3), (7, 2, 4)}. balance demoWorld k)"
    by simp
  with run show ?thesis by blast
qed

end
