(* ===== verification/Atp.thy ===== *)
theory Atp
  imports Inventory
begin

text \<open>
  backend/src/inventory/atp.service.ts: available-to-promise, computed from the snapshots and the
  expected inbounds and cached per SKU and location.  The specification is \<open>stockTotals\<close>, the
  figures a query is about as a function of the stock position; \<open>cacheCoherent\<close> says that every
  cached answer has the figures of the current tables, and the lemmas show which operations keep
  it.  The cache has no clock: a cached answer may also expire at any time (\<open>expireCache\<close>).
\<close>

section \<open>Definitions\<close>

text \<open>The code's \<open>Buckets\<close>: the five balances and the safety stock.\<close>

record stockBuckets =
  sb_bal :: buckets
  sb_safetyStock :: int

definition zeroBuckets :: stockBuckets where
  "zeroBuckets = \<lparr>sb_bal = 0, sb_safetyStock = 0\<rparr>"

definition addBuckets :: "stockBuckets \<Rightarrow> snapshotRow \<Rightarrow> stockBuckets" where
  "addBuckets acc s = \<lparr>sb_bal = sb_bal acc + sn_bal s, sb_safetyStock = sb_safetyStock acc + sn_safetyStock s\<rparr>"

definition bucketsOf :: "snapshotRow option \<Rightarrow> stockBuckets" where
  "bucketsOf snap = (case snap of Some s \<Rightarrow> addBuckets zeroBuckets s | None \<Rightarrow> zeroBuckets)"

definition inboundCounts :: "int \<Rightarrow> ident \<Rightarrow> ident \<Rightarrow> ident option \<Rightarrow> world \<Rightarrow> inbound \<Rightarrow> bool" where
  "inboundCounts horizonDays tenantId skuId locationId w i \<longleftrightarrow>
    ib_tenantId i = tenantId \<and> ib_skuId i = skuId \<and>
    (case locationId of None \<Rightarrow> True | Some l \<Rightarrow> ib_locationId i = l) \<and>
    ib_status i = EXPECTED \<and> ib_expectedAt i \<le> clock w + horizonDays * 24 * 60 * 60 * 1000"

definition inboundWithinHorizon :: "int \<Rightarrow> ident \<Rightarrow> ident \<Rightarrow> ident option \<Rightarrow> world \<Rightarrow> int" where
  "inboundWithinHorizon horizonDays tenantId skuId locationId w =
    (if horizonDays \<le> 0 then 0
     else sumWhere (inboundCounts horizonDays tenantId skuId locationId w) ib_quantity (inbounds w)
        - sumWhere (inboundCounts horizonDays tenantId skuId locationId w) ib_receivedQty (inbounds w))"

definition compose :: "ident \<Rightarrow> ident option \<Rightarrow> stockBuckets \<Rightarrow> int \<Rightarrow> availabilityView" where
  "compose skuId locationId b inboundForAtp =
    (let available = max 0 (availableOf (sb_bal b) (sb_safetyStock b))
     in \<lparr>av_skuId = skuId, av_locationId = locationId, av_bal = sb_bal b,
         av_safetyStock = sb_safetyStock b, av_available = available,
         av_availableToPromise = available + max 0 inboundForAtp\<rparr>)"

text \<open>The read-through cache both reads share.\<close>

definition cached ::
  "ident \<times> ident \<times> ident option \<Rightarrow> (world \<Rightarrow> availabilityView) \<Rightarrow> (world, availabilityView) op" where
  "cached key fresh =
    bind (gets (\<lambda>w. cache w key)) (\<lambda>hit.
    case hit of
      Some v \<Rightarrow> ret v
    | None \<Rightarrow> bind (gets fresh) (\<lambda>view.
        andThen (modify (\<lambda>w. w\<lparr>cache := (cache w)(key := Some view)\<rparr>)) (ret view)))"

definition freshAtLocation :: "int \<Rightarrow> ident \<Rightarrow> ident \<Rightarrow> ident \<Rightarrow> world \<Rightarrow> availabilityView" where
  "freshAtLocation horizonDays tenantId skuId locationId w =
    compose skuId (Some locationId) (bucketsOf (findSnapshot (tenantId, skuId, locationId) w))
      (inboundWithinHorizon horizonDays tenantId skuId (Some locationId) w)"

definition atLocation ::
  "int \<Rightarrow> ident \<Rightarrow> ident \<Rightarrow> ident \<Rightarrow> (world, availabilityView) op" where
  "atLocation horizonDays tenantId skuId locationId =
    cached (tenantId, skuId, Some locationId) (freshAtLocation horizonDays tenantId skuId locationId)"

definition locationActive :: "world \<Rightarrow> ident \<Rightarrow> bool" where
  "locationActive w i \<longleftrightarrow> list_ex (\<lambda>l. lo_id l = i \<and> lo_active l) (locations w)"

definition networkRows :: "ident \<Rightarrow> ident \<Rightarrow> world \<Rightarrow> snapshotRow list" where
  "networkRows tenantId skuId w = filter (\<lambda>s. sn_tenantId s = tenantId \<and> sn_skuId s = skuId \<and>
    locationActive w (sn_locationId s)) (snapshots w)"

definition freshNetwork :: "int \<Rightarrow> ident \<Rightarrow> ident \<Rightarrow> world \<Rightarrow> availabilityView" where
  "freshNetwork horizonDays tenantId skuId w =
    compose skuId None (fold (\<lambda>s acc. addBuckets acc s) (networkRows tenantId skuId w) zeroBuckets)
      (inboundWithinHorizon horizonDays tenantId skuId None w)"

definition network :: "int \<Rightarrow> ident \<Rightarrow> ident \<Rightarrow> (world, availabilityView) op" where
  "network horizonDays tenantId skuId =
    cached (tenantId, skuId, None) (freshNetwork horizonDays tenantId skuId)"

definition breakdown :: "int \<Rightarrow> ident \<Rightarrow> ident \<Rightarrow> world \<Rightarrow> availabilityView list" where
  "breakdown horizonDays tenantId skuId w =
    map (\<lambda>s. compose skuId (Some (sn_locationId s)) (bucketsOf (Some s))
        (inboundWithinHorizon horizonDays tenantId skuId (Some (sn_locationId s)) w))
      (networkRows tenantId skuId w)"

text \<open>A cached answer reaches its time to live.\<close>

definition expireCache :: "ident \<times> ident \<times> ident option \<Rightarrow> (world, unit) op" where
  "expireCache key = modify (\<lambda>w. w\<lparr>cache := (cache w)(key := None)\<rparr>)"

section \<open>Specification: the figures a read is about\<close>

definition stockTotals :: "world \<Rightarrow> ident \<times> ident \<times> ident option \<Rightarrow> stockBuckets" where
  "stockTotals w = (\<lambda>(t, s, lo). case lo of
      Some l \<Rightarrow> \<lparr>sb_bal = balance w (t, s, l), sb_safetyStock = safetyOf w (t, s, l)\<rparr>
    | None \<Rightarrow> (let ks = {k \<in> sn_key ` set (snapshots w). fst k = t \<and> fst (snd k) = s \<and>
                  locationActive w (snd (snd k))}
        in \<lparr>sb_bal = (\<Sum>k\<in>ks. balance w k), sb_safetyStock = (\<Sum>k\<in>ks. safetyOf w k)\<rparr>))"

definition shows_figures :: "availabilityView \<Rightarrow> stockBuckets \<Rightarrow> bool" where
  "shows_figures v b \<longleftrightarrow> av_bal v = sb_bal b \<and> av_safetyStock v = sb_safetyStock b \<and>
    av_available v = max 0 (availableOf (sb_bal b) (sb_safetyStock b)) \<and>
    av_available v \<le> av_availableToPromise v"

definition cacheCoherent :: "world \<Rightarrow> bool" where
  "cacheCoherent w \<longleftrightarrow> (\<forall>k v. cache w k = Some v \<longrightarrow> shows_figures v (stockTotals w k))"

section \<open>Lemmas\<close>

lemma compose_shows: "shows_figures (compose s lo b n) b"
  by (simp add: shows_figures_def compose_def Let_def)

lemma fold_addBuckets:
  "fold (\<lambda>s acc. addBuckets acc s) rs b =
    \<lparr>sb_bal = sb_bal b + sum_list (map sn_bal rs),
     sb_safetyStock = sb_safetyStock b + sum_list (map sn_safetyStock rs)\<rparr>"
  by (induction rs arbitrary: b) (simp_all add: addBuckets_def add.assoc)

text \<open>A sum over rows is a sum over their keys.\<close>

lemma sum_list_rows:
  assumes "snapshotsOk w"
  shows "sum_list (map sn_bal (filter p (snapshots w))) =
      (\<Sum>k\<in>sn_key ` set (filter p (snapshots w)). balance w k)"
    and "sum_list (map sn_safetyStock (filter p (snapshots w))) =
      (\<Sum>k\<in>sn_key ` set (filter p (snapshots w)). safetyOf w k)"
proof -
  let ?rs = "filter p (snapshots w)"
  have d: "distinct (map sn_key ?rs)"
    using assms by (simp add: snapshotsOk_def distinct_map_filter)
  then have inj: "inj_on sn_key (set ?rs)" "distinct ?rs" by (auto simp: distinct_map)
  have "map sn_bal ?rs = map (\<lambda>r. balance w (sn_key r)) ?rs"
    using balance_row [OF assms] by simp
  then have "sum_list (map sn_bal ?rs) = (\<Sum>r\<in>set ?rs. balance w (sn_key r))"
    using inj(2) by (simp add: sum_list_distinct_conv_sum_set)
  then show "sum_list (map sn_bal ?rs) = (\<Sum>k\<in>sn_key ` set ?rs. balance w k)"
    using inj(1) by (simp add: sum.reindex)
  have "map sn_safetyStock ?rs = map (\<lambda>r. safetyOf w (sn_key r)) ?rs"
    using safetyOf_row [OF assms] by simp
  then have "sum_list (map sn_safetyStock ?rs) = (\<Sum>r\<in>set ?rs. safetyOf w (sn_key r))"
    using inj(2) by (simp add: sum_list_distinct_conv_sum_set)
  then show "sum_list (map sn_safetyStock ?rs) = (\<Sum>k\<in>sn_key ` set ?rs. safetyOf w k)"
    using inj(1) by (simp add: sum.reindex)
qed

lemma networkRows_keys:
  "sn_key ` set (networkRows t s w) = {k \<in> sn_key ` set (snapshots w). fst k = t \<and> fst (snd k) = s \<and>
    locationActive w (snd (snd k))}"
  by (auto simp: networkRows_def sn_key_def)

lemma freshAtLocation_shows: "shows_figures (freshAtLocation h t s l w) (stockTotals w (t, s, Some l))"
proof -
  have "bucketsOf (findSnapshot (t, s, l) w) = stockTotals w (t, s, Some l)"
    by (auto simp: bucketsOf_def addBuckets_def zeroBuckets_def stockTotals_def balance_def safetyOf_def
        split: option.splits)
  then show ?thesis by (simp add: freshAtLocation_def) (metis compose_shows)
qed

lemma freshNetwork_shows:
  assumes "snapshotsOk w"
  shows "shows_figures (freshNetwork h t s w) (stockTotals w (t, s, None))"
proof -
  have "fold (\<lambda>r acc. addBuckets acc r) (networkRows t s w) zeroBuckets = stockTotals w (t, s, None)"
    using sum_list_rows [OF assms] networkRows_keys [of t s w]
    by (simp add: fold_addBuckets zeroBuckets_def stockTotals_def networkRows_def Let_def)
  then show ?thesis by (simp add: freshNetwork_def) (metis compose_shows)
qed

text \<open>
  What a movement may leave stale: the answers about its own SKU.  \<open>cacheExcept D\<close> is coherence up
  to the (tenant, SKU) pairs of \<open>D\<close>; invalidation removes a pair from \<open>D\<close>.
\<close>

definition cacheExcept :: "(ident \<times> ident) set \<Rightarrow> world \<Rightarrow> bool" where
  "cacheExcept D w \<longleftrightarrow> (\<forall>k v. cache w k = Some v \<longrightarrow> (fst k, fst (snd k)) \<notin> D \<longrightarrow>
    shows_figures v (stockTotals w k))"

lemma cacheCoherent_except: "cacheCoherent w = cacheExcept {} w"
  by (simp add: cacheCoherent_def cacheExcept_def)

lemma cacheExcept_mono: "cacheExcept D w \<Longrightarrow> D \<subseteq> D' \<Longrightarrow> cacheExcept D' w"
  by (fastforce simp: cacheExcept_def)

lemma stockTotals_cong:
  "snapshots w' = snapshots w \<Longrightarrow> locations w' = locations w \<Longrightarrow> stockTotals w' = stockTotals w"
  using view_cong [of w' w] by (auto simp: stockTotals_def locationActive_def fun_eq_iff split: option.split)

lemma cacheExcept_cong:
  "cacheExcept D w \<Longrightarrow> snapshots w' = snapshots w \<Longrightarrow> locations w' = locations w \<Longrightarrow> cache w' = cache w \<Longrightarrow>
    cacheExcept D w'"
  using stockTotals_cong [of w' w] by (simp add: cacheExcept_def)

lemma stockTotals_moved:
  assumes "moved p w w'" "(t, s) \<noteq> (mv_tenantId p, mv_skuId p)"
  shows "stockTotals w' (t, s, lo) = stockTotals w (t, s, lo)"
proof -
  have key: "(t, s, l) \<noteq> mv_key p" for l using assms(2) by (auto simp: mv_key_def)
  have loc: "locationActive w' i = locationActive w i" for i
    using assms(1) stockOnly_sel(4) [of w w'] by (simp add: locationActive_def moved_def)
  have b: "balance w' (t, s, l) = balance w (t, s, l)" "safetyOf w' (t, s, l) = safetyOf w (t, s, l)" for l
    using assms(1) key by (auto simp: moved_def)
  let ?K = "\<lambda>v. {k \<in> sn_key ` set (snapshots v). fst k = t \<and> fst (snd k) = s \<and> locationActive v (snd (snd k))}"
  have ks: "?K w' = ?K w" using assms loc by (auto simp: moved_def mv_key_def)
  have "sum (balance w') (?K w) = sum (balance w) (?K w)" "sum (safetyOf w') (?K w) = sum (safetyOf w) (?K w)"
  proof -
    have "balance w' k = balance w k" "safetyOf w' k = safetyOf w k" if "k \<in> ?K w" for k
      using that b [of "snd (snd k)"] by (cases k, simp)+
    then show "sum (balance w') (?K w) = sum (balance w) (?K w)"
      "sum (safetyOf w') (?K w) = sum (safetyOf w) (?K w)" by (blast intro: sum.cong)+
  qed
  then show ?thesis using ks b by (simp add: stockTotals_def Let_def split: option.split)
qed

lemma cacheExcept_moved:
  assumes "cacheExcept D w" "moved p w w'"
  shows "cacheExcept (insert (mv_tenantId p, mv_skuId p) D) w'"
proof -
  have "cache w' = cache w" using assms(2) stockOnly_sel [of w w'] by (simp add: moved_def)
  then show ?thesis
    using assms stockTotals_moved [OF assms(2)] by (auto simp: cacheExcept_def)
qed

lemma cacheExcept_invalidated:
  assumes "cacheExcept D w"
  shows "cacheExcept (D - {(t, s)}) (invalidated t s w)"
proof -
  have "stockTotals (invalidated t s w) = stockTotals w" by (rule stockTotals_cong) simp_all
  then show ?thesis using assms by (auto simp: cacheExcept_def split: if_splits)
qed

text \<open>A movement with its invalidation keeps the cache coherent.\<close>

lemma cacheCoherent_applyMovement:
  assumes "snapshotsOk w" "cacheCoherent w"
  shows "wp (applyMovement p) (\<lambda>_ w'. snapshotsOk w' \<and> cacheCoherent w') (\<lambda>_ w'. w' = w) w"
proof -
  have "cacheCoherent (invalidated (mv_tenantId p) (mv_skuId p) w1)" if "moved p w w1" for w1
    using cacheExcept_invalidated [OF cacheExcept_moved [OF assms(2) [unfolded cacheCoherent_except] that],
        of "mv_tenantId p" "mv_skuId p"]
    by (simp add: cacheCoherent_except)
  then show ?thesis
    unfolding applyMovement_def wp using assms(1) by (intro wp_applyWithin) auto
qed

section \<open>The contract of a read-through cache\<close>

text \<open>
  What the reader needs of the function that computes a fresh answer: it has the figures of its key.
  Then the answer has the current figures whether it was cached or not, and the cache stays coherent.
\<close>

locale read_through =
  fixes key :: "ident \<times> ident \<times> ident option" and fresh :: "world \<Rightarrow> availabilityView"
  assumes fresh_shows: "snapshotsOk w \<Longrightarrow> shows_figures (fresh w) (stockTotals w key)"
begin

lemma wp_cached:
  assumes "snapshotsOk w" "cacheCoherent w"
  shows "wp (cached key fresh) (\<lambda>v w'. shows_figures v (stockTotals w key) \<and> cacheCoherent w' \<and>
      cache w' key = Some v \<and> (cache w key = None \<longrightarrow> v = fresh w) \<and> w' = w\<lparr>cache := cache w'\<rparr>)
    (\<lambda>_ _. False) w"
proof (cases "cache w key")
  case None
  have "stockTotals (w\<lparr>cache := c\<rparr>) = stockTotals w" for c by (rule stockTotals_cong) simp_all
  then have "cacheCoherent (w\<lparr>cache := (cache w)(key := Some (fresh w))\<rparr>)"
    using assms fresh_shows by (auto simp: cacheCoherent_def)
  then show ?thesis using assms(1) fresh_shows by (simp add: cached_def wp None)
next
  case (Some v)
  then show ?thesis using assms(2) by (simp add: cached_def wp cacheCoherent_def)
qed

end

interpretation locationRead: read_through "(t, s, Some l)" "freshAtLocation h t s l" for t s l h
  by unfold_locales (rule freshAtLocation_shows)

interpretation networkRead: read_through "(t, s, None)" "freshNetwork h t s" for t s h
  by unfold_locales (rule freshNetwork_shows)

section \<open>Properties\<close>


lemma demoWorld_cache: "snapshotsOk demoWorld" "cacheCoherent demoWorld"
  using demoWorld_stock by (simp_all add: stockInv_def cacheCoherent_def demoWorld_def)


text \<open>
  The network answer rolls up the breakdown: computed afresh, its balances and safety stock are
  the sums over the locations of the breakdown, and its availability is at most the sum of theirs,
  with equality when no location is short (a location below its safety stock lowers the network
  figure but counts as 0 on its own).
\<close>

lemma network_rolls_up:
  "av_bal (freshNetwork h t s w) = sum_list (map av_bal (breakdown h t s w)) \<and>
   av_safetyStock (freshNetwork h t s w) = sum_list (map av_safetyStock (breakdown h t s w)) \<and>
   av_available (freshNetwork h t s w) \<le> sum_list (map av_available (breakdown h t s w)) \<and>
   ((\<forall>r \<in> set (networkRows t s w). 0 \<le> availableOf (sn_bal r) (sn_safetyStock r)) \<longrightarrow>
     av_available (freshNetwork h t s w) = sum_list (map av_available (breakdown h t s w)))"
proof -
  let ?rs = "networkRows t s w"
  have fields: "av_bal (compose s lo b n) = sb_bal b" "av_safetyStock (compose s lo b n) = sb_safetyStock b"
    "av_available (compose s lo b n) = max 0 (availableOf (sb_bal b) (sb_safetyStock b))" for lo b n
    by (simp_all add: compose_def Let_def)
  have one: "bucketsOf (Some r) = \<lparr>sb_bal = sn_bal r, sb_safetyStock = sn_safetyStock r\<rparr>" for r
    by (simp add: bucketsOf_def addBuckets_def zeroBuckets_def)
  have lin: "availableOf (sum_list (map sn_bal rs)) (sum_list (map sn_safetyStock rs)) =
      sum_list (map (\<lambda>r. availableOf (sn_bal r) (sn_safetyStock r)) rs)" for rs
    by (induction rs) (simp_all add: availableOf_def)
  have le: "sum_list (map f rs) \<le> sum_list (map (\<lambda>r. max 0 (f r)) rs)"
    "0 \<le> sum_list (map (\<lambda>r. max 0 (f r)) rs)" for f :: "snapshotRow \<Rightarrow> int" and rs
    by (induction rs) simp_all
  have "sum_list (map (\<lambda>r. max 0 (availableOf (sn_bal r) (sn_safetyStock r))) ?rs) =
      sum_list (map (\<lambda>r. availableOf (sn_bal r) (sn_safetyStock r)) ?rs)"
    if "\<forall>r \<in> set ?rs. 0 \<le> availableOf (sn_bal r) (sn_safetyStock r)"
    using that by (intro arg_cong [where f = sum_list] map_cong) auto
  then show ?thesis
    using le [of "\<lambda>r. availableOf (sn_bal r) (sn_safetyStock r)" ?rs]
    by (auto simp: freshNetwork_def breakdown_def fields one fold_addBuckets zeroBuckets_def lin o_def)
qed

lemma network_rolls_up_witness:
  "av_available (freshNetwork 7 7 2 demoWorld) = sum_list (map av_available (breakdown 7 7 2 demoWorld))"
proof -
  have "\<forall>r \<in> set (networkRows 7 2 demoWorld). 0 \<le> availableOf (sn_bal r) (sn_safetyStock r)"
    by (simp add: networkRows_def demoWorld_def availableOf_def)
  then show ?thesis using network_rolls_up [of 7 7 2 demoWorld] by blast
qed

text \<open>
  The network promise is not the sum of the locations' promises when a location is
  closed: expected inbounds to an inactive location still count in the network's available-to-promise,
  although its stock does not and the breakdown does not list it.
\<close>

lemma network_promises_inactive_inbound:
  "\<exists>w. stockInv w \<and> breakdown 7 7 2 w = [] \<and>
    av_available (freshNetwork 7 7 2 w) = 0 \<and> av_availableToPromise (freshNetwork 7 7 2 w) = 5"
proof -
  let ?w = "demoWorld\<lparr>locations := [], snapshots := [], ledger := [],
    inbounds := [\<lparr>ib_id = 8, ib_tenantId = 7, ib_skuId = 2, ib_locationId = 3, ib_quantity = 5,
      ib_receivedQty = 0, ib_expectedAt = 0, ib_status = EXPECTED, ib_reference = None\<rparr>]\<rparr>"
  have "stockInv ?w"
    by (auto simp: stockInv_def snapshotsOk_def balance_def findSnapshot_def nonneg_def
        ledgerSum_def fun_eq_iff)
  moreover have "breakdown 7 7 2 ?w = []" by (simp add: breakdown_def networkRows_def)
  moreover have "av_available (freshNetwork 7 7 2 ?w) = 0" "av_availableToPromise (freshNetwork 7 7 2 ?w) = 5"
    by (simp_all add: freshNetwork_def networkRows_def compose_def Let_def zeroBuckets_def
        inboundWithinHorizon_def inboundCounts_def availableOf_def demoWorld_def)
  ultimately show ?thesis by blast
qed

end
