(* ===== verification/Inbound.thy ===== *)
theory Inbound
  imports Atp
begin

text \<open>
  backend/src/inventory/inbound.service.ts: expected supply.  Creating an inbound raises the
  in-transit balance of its position, receiving (part of) it moves units from in transit to on hand.
  \<open>inboundInv\<close> ties the table to the balances: the in-transit balance of a position is what its
  expected inbounds still have to deliver.
\<close>

section \<open>Definitions\<close>

definition inboundMovement ::
  "ident \<Rightarrow> ident \<Rightarrow> ident \<Rightarrow> InventoryEventType \<Rightarrow> bucketDeltas \<Rightarrow> ident \<Rightarrow> movementParams" where
  "inboundMovement t s l ev d inboundId =
    (baseMovement t s l ev d)\<lparr>mv_referenceType := Some ''inbound'', mv_referenceId := Some inboundId\<rparr>"

definition create_inbound ::
  "ident \<Rightarrow> ident \<Rightarrow> ident \<Rightarrow> int \<Rightarrow> int option \<Rightarrow> string option \<Rightarrow> (world, inbound) op" where
  "create_inbound tenantId skuId locationId quantity expectedAt reference =
    bind now (\<lambda>ts.
    bind (transaction (
      bind freshId (\<lambda>i.
      bind (gets (refsExist tenantId skuId locationId)) (\<lambda>ok.
      andThen (throwIf (\<not> ok) (PrismaKnown ''P2003'' None))
      (bind (createRow inbounds inbounds_update
        \<lparr>ib_id = i, ib_tenantId = tenantId, ib_skuId = skuId, ib_locationId = locationId,
         ib_quantity = quantity, ib_receivedQty = 0,
         ib_expectedAt = (case expectedAt of Some d \<Rightarrow> d | None \<Rightarrow> ts),
         ib_status = EXPECTED, ib_reference = reference\<rparr>) (\<lambda>row.
      andThen (applyWithin (inboundMovement tenantId skuId locationId INBOUND_CREATE
        (noDeltas\<lparr>bd_inTransit := Some quantity\<rparr>) (ib_id row)))
      (ret row))))))) (\<lambda>inb.
    andThen (invalidate tenantId skuId) (ret inb)))"

record inboundQuery = pageQuery +
  iq_skuId :: "ident option"
  iq_locationId :: "ident option"
  iq_status :: "InboundStatus option"

definition inboundMatches :: "ident \<Rightarrow> inboundQuery \<Rightarrow> inbound \<Rightarrow> bool" where
  "inboundMatches tenantId q i \<longleftrightarrow> ib_tenantId i = tenantId \<and>
    (case iq_skuId q of None \<Rightarrow> True | Some s \<Rightarrow> ib_skuId i = s) \<and>
    (case iq_locationId q of None \<Rightarrow> True | Some l \<Rightarrow> ib_locationId i = l) \<and>
    (case iq_status q of None \<Rightarrow> True | Some st \<Rightarrow> ib_status i = st)"

definition list_inbound :: "ident \<Rightarrow> inboundQuery \<Rightarrow> world \<Rightarrow> inbound page" where
  "list_inbound tenantId q w = paginate (pageQuery.truncate q)
    (jsSort (\<lambda>a b. ib_expectedAt a - ib_expectedAt b) (filter (inboundMatches tenantId q) (inbounds w)))"

definition findInbound :: "ident \<Rightarrow> ident \<Rightarrow> world \<Rightarrow> inbound option" where
  "findInbound tenantId inboundId w = find (\<lambda>i. ib_id i = inboundId \<and> ib_tenantId i = tenantId) (inbounds w)"

definition receiveQty :: "inbound \<Rightarrow> int option \<Rightarrow> int" where
  "receiveQty i quantity =
    (let remaining = ib_quantity i - ib_receivedQty i
     in min (case quantity of Some n \<Rightarrow> n | None \<Rightarrow> remaining) remaining)"

definition receivedRow :: "inbound \<Rightarrow> int \<Rightarrow> inbound \<Rightarrow> inbound" where
  "receivedRow i q r = r\<lparr>ib_receivedQty := ib_receivedQty i + q,
     ib_status := (if ib_quantity i \<le> ib_receivedQty i + q then InboundStatus.RECEIVED else EXPECTED)\<rparr>"

definition receive_inbound :: "ident \<Rightarrow> ident \<Rightarrow> int option \<Rightarrow> (world, inbound) op" where
  "receive_inbound tenantId inboundId quantity =
    bind (transaction (
      bind (gets (findInbound tenantId inboundId)) (\<lambda>found.
      bind (orThrow found (BadRequest ''Inbound not found'')) (\<lambda>i.
      andThen (throwIf (ib_status i \<noteq> EXPECTED) (BadRequest ''Inbound is not expected''))
      (let q = receiveQty i quantity in
       andThen (throwIf (q \<le> 0) (BadRequest ''Nothing left to receive''))
       (andThen (applyWithin (inboundMovement tenantId (ib_skuId i) (ib_locationId i) INBOUND_ARRIVE
          (noDeltas\<lparr>bd_inTransit := Some (- q), bd_onHand := Some q\<rparr>) (ib_id i)))
       (updateRow inbounds inbounds_update (\<lambda>r. ib_id r = ib_id i) (receivedRow i q)))))))) (\<lambda>updated.
    andThen (invalidate tenantId (ib_skuId updated)) (ret updated))"

section \<open>Invariant\<close>

definition outstanding :: "inbound \<Rightarrow> int" where
  "outstanding i = (if ib_status i = EXPECTED then ib_quantity i - ib_receivedQty i else 0)"

definition inboundRowOk :: "inbound \<Rightarrow> bool" where
  "inboundRowOk i \<longleftrightarrow> 0 \<le> ib_receivedQty i \<and> ib_receivedQty i \<le> ib_quantity i \<and>
    (ib_status i = InboundStatus.RECEIVED \<longrightarrow> ib_receivedQty i = ib_quantity i) \<and>
    (ib_status i = EXPECTED \<longrightarrow> ib_receivedQty i < ib_quantity i)"

definition expectedQty :: "world \<Rightarrow> stockKey \<Rightarrow> int" where
  "expectedQty w k = sumWhere (\<lambda>i. ib_key i = k) outstanding (inbounds w)"

definition inboundInv :: "world \<Rightarrow> bool" where
  "inboundInv w \<longleftrightarrow> snapshotsOk w \<and> distinct (map ib_id (inbounds w)) \<and>
    (\<forall>i \<in> set (inbounds w). ib_id i < nextId w \<and> inboundRowOk i) \<and>
    (\<lambda>k. bk_inTransit (balance w k)) = expectedQty w"

section \<open>Lemmas\<close>

lemma inboundMovement_simps [simp]:
  "mv_key (inboundMovement t s l ev d i) = (t, s, l)" "mv_deltas (inboundMovement t s l ev d i) = d"
  "mv_tenantId (inboundMovement t s l ev d i) = t" "mv_skuId (inboundMovement t s l ev d i) = s"
  "\<not> mv_requireAvailable (inboundMovement t s l ev d i)"
  by (simp_all add: inboundMovement_def)

lemma findInbound_SomeD:
  "findInbound t i w = Some r \<Longrightarrow> r \<in> set (inbounds w) \<and> ib_id r = i \<and> ib_tenantId r = t"
  by (auto simp: findInbound_def dest: find_SomeD)

lemma find_inbound_id:
  "distinct (map ib_id (inbounds w)) \<Longrightarrow> r \<in> set (inbounds w) \<Longrightarrow>
    find (\<lambda>q. ib_id q = ib_id r) (inbounds w) = Some r"
  by (rule find_unique)

lemma receivedRow_simps [simp]:
  "ib_id (receivedRow i q r) = ib_id r" "ib_key (receivedRow i q r) = ib_key r"
  "ib_quantity (receivedRow i q r) = ib_quantity r" "ib_skuId (receivedRow i q r) = ib_skuId r"
  by (simp_all add: receivedRow_def ib_key_def)

lemma receiveQty_bounds:
  assumes "inboundRowOk i" "ib_status i = EXPECTED" "0 < receiveQty i n"
  shows "outstanding (receivedRow i (receiveQty i n) i) = outstanding i - receiveQty i n"
    and "inboundRowOk (receivedRow i (receiveQty i n) i)"
  using assms
  by (auto simp: inboundRowOk_def outstanding_def receivedRow_def receiveQty_def Let_def split: option.splits)

text \<open>Receiving: the invariant, and what changed.\<close>

lemma expectedQty_received:
  assumes "inboundInv w" "i \<in> set (inbounds w)" "ib_status i = EXPECTED" "0 < receiveQty i n"
  shows "sumWhere (\<lambda>j. ib_key j = k) outstanding
      (mapWhere (\<lambda>j. ib_id j = ib_id i) (receivedRow i (receiveQty i n)) (inbounds w)) =
    expectedQty w k - (if k = ib_key i then receiveQty i n else 0)"
proof -
  have ok: "distinct (map ib_id (inbounds w))" "inboundRowOk i"
    using assms(1,2) by (auto simp: inboundInv_def)
  show ?thesis
    using sumWhere_update_unique [OF ok(1) assms(2), of "\<lambda>j. ib_key j = k" outstanding
        "receivedRow i (receiveQty i n)"] receiveQty_bounds(1) [OF ok(2) assms(3,4)]
    by (auto simp: expectedQty_def)
qed

text \<open>An expected inbound can always be received: its position has enough in transit.\<close>

lemma outstanding_nonneg: "inboundRowOk i \<Longrightarrow> 0 \<le> outstanding i"
  by (auto simp: inboundRowOk_def outstanding_def)

lemma expectedQty_ge:
  assumes "inboundInv w" "i \<in> set (inbounds w)"
  shows "outstanding i \<le> bk_inTransit (balance w (ib_key i))"
proof -
  have "outstanding i \<le> sumWhere (\<lambda>j. ib_key j = ib_key i) outstanding (inbounds w)"
    using assms(2) inboundInv_def [of w] assms(1) outstanding_nonneg
    by (intro sumWhere_member) auto
  moreover have "bk_inTransit (balance w (ib_key i)) = expectedQty w (ib_key i)"
    using assms(1) by (simp add: inboundInv_def fun_eq_iff)
  ultimately show ?thesis by (simp add: expectedQty_def)
qed

lemma receive_possible:
  assumes "stockInv w" "inboundInv w" "i \<in> set (inbounds w)" "ib_status i = EXPECTED"
    "0 < receiveQty i n" "mv_key p = ib_key i" "\<not> mv_requireAvailable p"
  shows "stockable p w"
    and "admissible p (balance w (ib_key i) + Buckets (receiveQty i n) 0 0 (- receiveQty i n) 0) m"
proof -
  have le: "receiveQty i n \<le> outstanding i"
    using assms(4) by (simp add: receiveQty_def outstanding_def Let_def)
  then have pos: "receiveQty i n \<le> bk_inTransit (balance w (ib_key i))"
    using expectedQty_ge [OF assms(2,3)] by simp
  then have "findSnapshot (mv_key p) w \<noteq> None"
    using assms(5,6) by (auto simp: balance_def split: option.splits)
  then show "stockable p w" by (simp add: stockable_def)
  show "admissible p (balance w (ib_key i) + Buckets (receiveQty i n) 0 0 (- receiveQty i n) 0) m"
    using pos assms(5,7) stockInvD(2) [OF assms(1), of "ib_key i"]
    by (simp add: admissible_def nonneg_def)
qed

lemma wp_receive_inbound:
  assumes inv: "inboundInv w"
  shows "wp (receive_inbound t inboundId n)
    (\<lambda>r w'. \<exists>i. findInbound t inboundId w = Some i \<and> ib_status i = EXPECTED \<and> 0 < receiveQty i n \<and>
      r = receivedRow i (receiveQty i n) i \<and> inboundInv w' \<and>
      findInbound t inboundId w' = Some r \<and>
      balance w' = (balance w)(ib_key i :=
        balance w (ib_key i) + Buckets (receiveQty i n) 0 0 (- receiveQty i n) 0))
    (\<lambda>e w'. w' = w \<and> (stockInv w \<longrightarrow>
      \<not> (\<exists>i. findInbound t inboundId w = Some i \<and> ib_status i = EXPECTED \<and> 0 < receiveQty i n))) w"
  (is "wp _ ?Q _ w")
proof (cases "\<exists>i. findInbound t inboundId w = Some i \<and> ib_status i = EXPECTED \<and> 0 < receiveQty i n")
  case False
  then show ?thesis
    by (auto simp: receive_inbound_def wp Let_def split: option.split)
next
  case True
  then obtain i where i: "findInbound t inboundId w = Some i" "ib_status i = EXPECTED"
    and pos: "0 < receiveQty i n" by blast
  let ?q = "receiveQty i n"
  let ?p = "inboundMovement t (ib_skuId i) (ib_locationId i) INBOUND_ARRIVE
    (noDeltas\<lparr>bd_inTransit := Some (- ?q), bd_onHand := Some ?q\<rparr>) (ib_id i)"
  note mem = findInbound_SomeD [OF i(1)]
  have key: "(t, ib_skuId i, ib_locationId i) = ib_key i" using mem by (simp add: ib_key_def)
  have ok: "snapshotsOk w" "distinct (map ib_id (inbounds w))" "inboundRowOk i"
    using inv mem by (auto simp: inboundInv_def)
  have final: "\<exists>r. find (\<lambda>j. ib_id j = ib_id i) (inbounds w1) = Some r \<and> r = i \<and>
      (let w' = invalidated t (ib_skuId i) (w1\<lparr>inbounds :=
        mapWhere (\<lambda>j. ib_id j = ib_id i) (receivedRow i ?q) (inbounds w1)\<rparr>)
       in inboundInv w' \<and> findInbound t inboundId w' = Some (receivedRow i ?q i) \<and>
        balance w' = (balance w)(ib_key i := balance w (ib_key i) + Buckets ?q 0 0 (- ?q) 0))"
    if m: "moved ?p w w1" "snapshotsOk w1" for w1
  proof -
    let ?rs = "mapWhere (\<lambda>j. ib_id j = ib_id i) (receivedRow i ?q) (inbounds w)"
    have w1: "inbounds w1 = inbounds w" "nextId w \<le> nextId w1"
      "balance w1 = (balance w)(ib_key i := balance w (ib_key i) + Buckets ?q 0 0 (- ?q) 0)"
      using m(1) stockOnly_sel [of w w1] by (simp_all add: moved_def key)
    have f: "find (\<lambda>j. ib_id j = ib_id i) (inbounds w) = Some i" using find_inbound_id ok(2) mem by blast
    have ids: "distinct (map ib_id ?rs)" using ok(2) by (simp add: map_mapWhere_frame)
    have rows: "ib_id j < nextId w \<and> inboundRowOk j" if "j \<in> set ?rs" for j
    proof -
      obtain j0 where j0: "j0 \<in> set (inbounds w)" "j = (if ib_id j0 = ib_id i then receivedRow i ?q j0 else j0)"
        using \<open>j \<in> set ?rs\<close> by (auto simp: set_mapWhere)
      moreover have "j0 = i" if "ib_id j0 = ib_id i"
        using that j0(1) mem ok(2) by (auto simp: distinct_map inj_on_def)
      ultimately show ?thesis
        using inv receiveQty_bounds(2) [OF ok(3) i(2) pos] by (auto simp: inboundInv_def split: if_splits)
    qed
    have eq: "(\<lambda>k. bk_inTransit (balance w k)) = expectedQty w" using inv by (simp add: inboundInv_def)
    have tr: "(\<lambda>k. bk_inTransit (balance w1 k)) = (\<lambda>k. sumWhere (\<lambda>j. ib_key j = k) outstanding ?rs)"
      using expectedQty_received [OF inv _ i(2) pos] mem fun_cong [OF eq]
      by (auto simp: fun_eq_iff w1(3))
    have "find (\<lambda>j. ib_id j = inboundId \<and> ib_tenantId j = t) ?rs = Some (receivedRow i ?q i)"
      using i(1) mem find_mapWhere_frame [of "\<lambda>j. ib_id j = ib_id i" "\<lambda>j. ib_id j = inboundId \<and> ib_tenantId j = t"
        "receivedRow i ?q" "inbounds w"]
      by (simp add: findInbound_def receivedRow_def)
    then show ?thesis
      using f ids rows tr m(2) w1
      by (auto simp: Let_def inboundInv_def expectedQty_def [abs_def] findInbound_def
          dest!: rows)
  qed
  have "wp (applyWithin ?p) (\<lambda>_ w1. case find (\<lambda>r. ib_id r = ib_id i) (inbounds w1) of
        None \<Rightarrow> False
      | Some r \<Rightarrow> ?Q (receivedRow i ?q r) (invalidated t (ib_skuId (receivedRow i ?q r)) (w1\<lparr>inbounds :=
          mapWhere (\<lambda>j. ib_id j = ib_id i) (receivedRow i ?q) (inbounds w1)\<rparr>)))
      (\<lambda>_ _. \<not> stockInv w) w"
  proof (rule wp_mono [OF applyWithin_spec [OF ok(1)]], goal_cases)
    case (1 x w1)
    then show ?case using i pos by (auto dest!: final simp: Let_def)
  next
    case (2 e w1)
    have "stockable ?p w \<and> admissible ?p (balance w (mv_key ?p) + deltaOf (mv_deltas ?p)) (safetyOf w (mv_key ?p))"
      if "stockInv w"
      using receive_possible [OF that inv _ i(2) pos, of ?p] mem by (simp add: key)
    with 2 show ?case by blast
  qed
  then show ?thesis
    unfolding receive_inbound_def wp Let_def
    using i pos by (simp add: not_le) (auto elim!: wp_mono split: option.splits)
qed

text \<open>Creating.\<close>

lemma wp_create_inbound:
  assumes inv: "inboundInv w" and pos: "0 < n"
  shows "wp (create_inbound t s l n d rf)
    (\<lambda>r w'. inboundInv w' \<and> outstanding r = n \<and> ib_key r = (t, s, l) \<and> inbounds w' = inbounds w @ [r] \<and>
      balance w' = (balance w)((t, s, l) := balance w (t, s, l) + Buckets 0 0 0 n 0))
    (\<lambda>e w'. w' = w) w"
proof -
  let ?r = "\<lparr>ib_id = nextId w, ib_tenantId = t, ib_skuId = s, ib_locationId = l, ib_quantity = n,
    ib_receivedQty = 0, ib_expectedAt = (case d of Some d \<Rightarrow> d | None \<Rightarrow> clock w), ib_status = EXPECTED,
    ib_reference = rf\<rparr>"
  let ?p = "inboundMovement t s l INBOUND_CREATE (noDeltas\<lparr>bd_inTransit := Some n\<rparr>) (nextId w)"
  let ?w0 = "w\<lparr>nextId := Suc (nextId w), inbounds := inbounds w @ [?r]\<rparr>"
  have ok: "snapshotsOk ?w0" using inv snapshotsOk_nextId [of w] by (simp add: inboundInv_def)
  have row: "inboundRowOk ?r" "outstanding ?r = n" "ib_key ?r = (t, s, l)"
    using pos by (simp_all add: inboundRowOk_def outstanding_def ib_key_def)
  have fin: "let w' = invalidated t s w1 in inboundInv w' \<and> inbounds w' = inbounds w @ [?r] \<and>
      balance w' = (balance w)((t, s, l) := balance w (t, s, l) + Buckets 0 0 0 n 0)"
    if m: "moved ?p ?w0 w1" "snapshotsOk w1" for w1
  proof -
    have w1: "inbounds w1 = inbounds w @ [?r]" "Suc (nextId w) \<le> nextId w1"
      "balance w1 = (balance w)((t, s, l) := balance w (t, s, l) + Buckets 0 0 0 n 0)"
      using m(1) stockOnly_sel [of ?w0 w1] by (simp_all add: moved_def)
    have "(\<lambda>k. bk_inTransit (balance w k)) = expectedQty w" using inv by (simp add: inboundInv_def)
    then have "(\<lambda>k. bk_inTransit (balance w1 k)) = (\<lambda>k. sumWhere (\<lambda>j. ib_key j = k) outstanding (inbounds w @ [?r]))"
      using row by (auto simp: fun_eq_iff w1(3) expectedQty_def)
    moreover have "ib_id j < Suc (nextId w1)" if "j \<in> set (inbounds w)" for j
      using inv that w1(2) by (force simp: inboundInv_def)
    moreover have "distinct (map ib_id (inbounds w @ [?r]))"
      using inv by (auto simp: inboundInv_def)
    ultimately show ?thesis
      using inv row(1) m(2) w1
      by (auto simp: Let_def inboundInv_def expectedQty_def [abs_def] simp del: map_append)
  qed
  have *: "refsExist t s l (w\<lparr>nextId := Suc (nextId w)\<rparr>) = refsExist t s l w"
    by (simp add: refsExist_def)
  show ?thesis
    unfolding create_inbound_def wp
    using row(2,3)
    by (auto intro!: wp_applyWithin [OF ok] dest!: fin simp: Let_def *)
qed

lemma keeps_inbound:
  "0 < n \<Longrightarrow> keeps inboundInv (create_inbound t s l n d rf)"
  "keeps inboundInv (receive_inbound t i q)"
  by (rule keeps_intro, rule wp_mono [OF wp_create_inbound]; auto)
    (rule keeps_intro, rule wp_mono [OF wp_receive_inbound]; auto)

lemma keeps_stock_inbound [keepsI]:
  "keeps stockInv (create_inbound t s l n d rf)" "keeps stockInv (receive_inbound t i q)"
  unfolding create_inbound_def receive_inbound_def Let_def by (intro keepsI; simp)+

section \<open>Properties\<close>

text \<open>
  Receiving an inbound: it is refused, and nothing changes, exactly when the inbound is unknown to the
  tenant, no longer expected, or the quantity to receive (the given one, capped by what remains) is not
  positive.  Otherwise that quantity moves from in transit to on hand at the inbound's position, the
  received total grows by it and never exceeds the ordered quantity, the inbound becomes
  received exactly when nothing remains, and every position's in-transit balance is still what
  its expected inbounds have left to deliver.
\<close>

lemma receive_inbound_exact:
  assumes "stockInv w" "inboundInv w"
  shows "case receive_inbound t inboundId n w of
      (Inl e, w') \<Rightarrow> w' = w \<and> (\<forall>i. findInbound t inboundId w = Some i \<longrightarrow>
        ib_status i \<noteq> EXPECTED \<or> receiveQty i n \<le> 0)
    | (Inr r, w') \<Rightarrow> (\<exists>i. findInbound t inboundId w = Some i \<and> ib_status i = EXPECTED \<and> 0 < receiveQty i n \<and>
        ib_receivedQty r = ib_receivedQty i + receiveQty i n \<and> ib_receivedQty r \<le> ib_quantity r \<and>
        (ib_status r = InboundStatus.RECEIVED \<longleftrightarrow> ib_receivedQty r = ib_quantity r) \<and>
        findInbound t inboundId w' = Some r \<and> stockInv w' \<and> inboundInv w' \<and>
        balance w' = (balance w)(ib_key i :=
          balance w (ib_key i) + Buckets (receiveQty i n) 0 0 (- receiveQty i n) 0))"
proof -
  have row: "ib_receivedQty (receivedRow i q i) = ib_receivedQty i + q \<and>
      ib_receivedQty (receivedRow i q i) \<le> ib_quantity (receivedRow i q i) \<and>
      (ib_status (receivedRow i q i) = InboundStatus.RECEIVED \<longleftrightarrow>
        ib_receivedQty (receivedRow i q i) = ib_quantity (receivedRow i q i))"
    if "q = receiveQty i n" for i q
    using that by (auto simp: receivedRow_def receiveQty_def Let_def)
  have inv: "stockInv w'" if "receive_inbound t inboundId n w = (r, w')" for r w'
    using keepsD [OF keeps_stock_inbound(2) assms(1) that] .
  show ?thesis
  proof (cases "receive_inbound t inboundId n w")
    case (Pair x w')
    show ?thesis
    proof (cases x)
      case (Inl e)
      with Pair wp_errD [OF wp_receive_inbound [OF assms(2)], of t inboundId n e w'] assms(1)
      show ?thesis by auto
    next
      case (Inr r)
      with Pair have go: "receive_inbound t inboundId n w = (Inr r, w')" by simp
      from wp_okD [OF wp_receive_inbound [OF assms(2)] go] row inv [OF go] Inr Pair
      show ?thesis by fastforce
    qed
  qed
qed

definition demoInbound :: world where
  "demoInbound = demoWorld\<lparr>ledger := ledger demoWorld @
      [(ledger demoWorld ! 0)\<lparr>lg_id := 8, lg_delta := Buckets 0 0 0 4 0\<rparr>],
    snapshots := map (\<lambda>r. r\<lparr>sn_bal := Buckets 10 0 0 4 0\<rparr>) (snapshots demoWorld),
    inbounds := [\<lparr>ib_id = 9, ib_tenantId = 7, ib_skuId = 2, ib_locationId = 3, ib_quantity = 6,
      ib_receivedQty = 2, ib_expectedAt = 0, ib_status = EXPECTED, ib_reference = None\<rparr>]\<rparr>"

lemma demoInbound_inv: "stockInv demoInbound" "inboundInv demoInbound"
  by (auto simp: stockInv_def inboundInv_def snapshotsOk_def demoInbound_def demoWorld_def balance_def
      findSnapshot_def nonneg_def ledgerSum_def fun_eq_iff key_defs expectedQty_def outstanding_def
      inboundRowOk_def plus_buckets_def)

lemma receive_inbound_exact_witness:
  "\<exists>r w'. receive_inbound 7 9 (Some 3) demoInbound = (Inr r, w') \<and> ib_receivedQty r = 5 \<and>
    balance w' (7, 2, 3) = Buckets 13 0 0 1 0"
proof -
  let ?i = "inbounds demoInbound ! 0"
  have i: "findInbound 7 9 demoInbound = Some ?i" "ib_status ?i = EXPECTED" "receiveQty ?i (Some 3) = 3"
    "ib_key ?i = (7, 2, 3)" "ib_receivedQty ?i = 2" "balance demoInbound (7, 2, 3) = Buckets 10 0 0 4 0"
    by (simp_all add: findInbound_def demoInbound_def receiveQty_def ib_key_def balance_def
        findSnapshot_def demoWorld_def sn_key_def)
  show ?thesis
    using receive_inbound_exact [OF demoInbound_inv, of 7 9 "Some 3"] i
    by (auto split: prod.splits sum.splits simp: plus_buckets_def)
qed

text \<open>The console's list: by expected date, rows of equal dates in table order.\<close>

interpretation inboundOrder: js_comparator "\<lambda>a b. ib_expectedAt a - ib_expectedAt b"
  by (rule js_comparator_diff)

end
