(* ===== verification/Reconciliation.thy ===== *)
theory Reconciliation
  imports Atp
begin

text \<open>
  backend/src/admin/reconciliation.service.ts: the integrity job that compares every snapshot with
  the sum of its ledger rows, reports the differences and can repair them.  The ledger sums are
  grouped by SKU and location only; the tenant filter, when there is one, is applied before the
  grouping.  The properties say when the report is exact, what a repair restores, and what goes
  wrong when two tenants share a SKU and location.
\<close>

section \<open>Definitions\<close>

record driftEntry =
  de_skuId :: ident
  de_locationId :: ident
  de_snapshot :: buckets
  de_derived :: buckets
  de_diff :: "(string \<times> int) list"

record reconciliationReport =
  rr_checked :: nat
  rr_drifted :: nat
  rr_repaired :: nat
  rr_entries :: "driftEntry list"

text \<open>The fields that differ, with \<open>b - a\<close>.\<close>

definition bucketFields :: "buckets \<Rightarrow> (string \<times> int) list" where
  "bucketFields b = [(''onHand'', bk_onHand b), (''reserved'', bk_reserved b), (''allocated'', bk_allocated b),
    (''inTransit'', bk_inTransit b), (''damaged'', bk_damaged b)]"

definition diff :: "buckets \<Rightarrow> buckets \<Rightarrow> (string \<times> int) list" where
  "diff a b = map (\<lambda>((n, x), (_, y)). (n, y - x))
    (filter (\<lambda>((_, x), (_, y)). x \<noteq> y) (zip (bucketFields a) (bucketFields b)))"

text \<open>\<open>groupBy\<close> SKU and location with the sum of every delta column.\<close>

definition ledgerGroups :: "ledgerRow list \<Rightarrow> ((ident \<times> ident) \<times> buckets) list" where
  "ledgerGroups rows = map (\<lambda>k. (k, sumWhere (\<lambda>l. (lg_skuId l, lg_locationId l) = k) lg_delta rows))
    (remdups (map (\<lambda>l. (lg_skuId l, lg_locationId l)) rows))"

definition inScope :: "ident option \<Rightarrow> ident \<Rightarrow> bool" where
  "inScope tenantFilter t = (case tenantFilter of None \<Rightarrow> True | Some t' \<Rightarrow> t = t')"

definition derivedMap :: "ident option \<Rightarrow> world \<Rightarrow> ident \<times> ident \<Rightarrow> buckets option" where
  "derivedMap tenantFilter w =
    map_of (ledgerGroups (filter (\<lambda>l. inScope tenantFilter (lg_tenantId l)) (ledger w)))"

definition repairRow :: "snapshotRow \<Rightarrow> buckets \<Rightarrow> (world, unit) op" where
  "repairRow snap derived =
    andThen (updateRow snapshots snapshots_update (\<lambda>r. sn_id r = sn_id snap)
       (\<lambda>r. r\<lparr>sn_bal := derived, sn_version := sn_version r + 1\<rparr>))
    (modify (\<lambda>w. w\<lparr>cache := (\<lambda>(t, s, l).
       if t = sn_tenantId snap \<and> s = sn_skuId snap then None else cache w (t, s, l))\<rparr>))"

definition checkRow :: "(ident \<times> ident \<Rightarrow> buckets option) \<Rightarrow> bool \<Rightarrow> snapshotRow \<Rightarrow> (world, driftEntry list) op" where
  "checkRow derivedOf repair snap =
    (let derived = (case derivedOf (sn_skuId snap, sn_locationId snap) of Some b \<Rightarrow> b | None \<Rightarrow> 0);
         d = diff (sn_bal snap) derived
     in if d = [] then ret []
        else andThen (if repair then repairRow snap derived else ret ())
          (ret [\<lparr>de_skuId = sn_skuId snap, de_locationId = sn_locationId snap, de_snapshot = sn_bal snap,
             de_derived = derived, de_diff = d\<rparr>]))"

definition run :: "ident option \<Rightarrow> bool \<Rightarrow> (world, reconciliationReport) op" where
  "run tenantFilter repair =
    bind (gets (derivedMap tenantFilter)) (\<lambda>derivedOf.
    bind (gets (\<lambda>w. filter (\<lambda>s. inScope tenantFilter (sn_tenantId s)) (snapshots w))) (\<lambda>snaps.
    bind (collect snaps (checkRow derivedOf repair)) (\<lambda>entries.
    ret \<lparr>rr_checked = length snaps, rr_drifted = length entries,
      rr_repaired = (if repair then length entries else 0), rr_entries = entries\<rparr>)))"

definition reconcileTenant :: "ident \<Rightarrow> bool \<Rightarrow> (world, reconciliationReport) op" where
  "reconcileTenant tenantId repair = run (Some tenantId) repair"

definition reconcileAll :: "bool \<Rightarrow> (world, reconciliationReport) op" where
  "reconcileAll repair = run None repair"

section \<open>Lemmas\<close>

lemma diff_Nil_iff [simp]: "diff a b = [] \<longleftrightarrow> a = b"
  by (auto simp: diff_def bucketFields_def intro: buckets_eqI split: if_splits)

lemma derivedMap_eq:
  "derivedMap tf w (s, l) = (let b = sumWhere (\<lambda>r. inScope tf (lg_tenantId r) \<and> lg_skuId r = s \<and> lg_locationId r = l)
      lg_delta (ledger w)
    in if \<exists>r \<in> set (ledger w). inScope tf (lg_tenantId r) \<and> lg_skuId r = s \<and> lg_locationId r = l
       then Some b else None)"
proof -
  have m: "map_of (map (\<lambda>k. (k, f k)) ks) k = (if k \<in> set ks then Some (f k) else None)" for f ks and k :: "'k"
    by (induction ks) auto
  have f: "sumWhere p f (filter q rs) = sumWhere (\<lambda>r. q r \<and> p r) f rs" for p f q and rs :: "ledgerRow list"
    by (induction rs) auto
  have "(s, l) \<in> (\<lambda>r. (lg_skuId r, lg_locationId r)) ` {r \<in> set (ledger w). inScope tf (lg_tenantId r)} \<longleftrightarrow>
      (\<exists>r \<in> set (ledger w). inScope tf (lg_tenantId r) \<and> lg_skuId r = s \<and> lg_locationId r = l)"
    by auto
  then show ?thesis
    by (auto simp: derivedMap_def ledgerGroups_def m f Let_def)
qed

text \<open>What the job compares a row with.\<close>

definition derivedFor :: "ident option \<Rightarrow> world \<Rightarrow> snapshotRow \<Rightarrow> buckets" where
  "derivedFor tf w s = sumWhere (\<lambda>r. inScope tf (lg_tenantId r) \<and> lg_skuId r = sn_skuId s \<and>
    lg_locationId r = sn_locationId s) lg_delta (ledger w)"

lemma derived_default:
  "(case derivedMap tf w (sn_skuId s, sn_locationId s) of Some b \<Rightarrow> b | None \<Rightarrow> 0) = derivedFor tf w s"
  using sumWhere_none [of "ledger w" "\<lambda>r. inScope tf (lg_tenantId r) \<and> lg_skuId r = sn_skuId s \<and>
    lg_locationId r = sn_locationId s" lg_delta]
  by (auto simp: derivedMap_eq Let_def derivedFor_def)

lemma derivedFor_tenant: "sn_tenantId s = t \<Longrightarrow> derivedFor (Some t) w s = ledgerSum w (sn_key s)"
  by (simp add: derivedFor_def ledgerSum_def inScope_def key_defs)

text \<open>Each SKU's ledger rows belong to the tenant of its snapshots.\<close>

definition tenantOwnsSku :: "world \<Rightarrow> bool" where
  "tenantOwnsSku w \<longleftrightarrow> (\<forall>l \<in> set (ledger w). \<forall>s \<in> set (snapshots w).
    lg_skuId l = sn_skuId s \<longrightarrow> lg_tenantId l = sn_tenantId s)"

lemma derivedFor_all:
  assumes "tenantOwnsSku w" "s \<in> set (snapshots w)"
  shows "derivedFor None w s = ledgerSum w (sn_key s)"
  unfolding derivedFor_def ledgerSum_def
  by (rule sumWhere_cong) (use assms in \<open>auto simp: inScope_def key_defs tenantOwnsSku_def\<close>)

definition entryFor :: "ident option \<Rightarrow> world \<Rightarrow> snapshotRow \<Rightarrow> driftEntry" where
  "entryFor tf w s = \<lparr>de_skuId = sn_skuId s, de_locationId = sn_locationId s, de_snapshot = sn_bal s,
     de_derived = derivedFor tf w s, de_diff = diff (sn_bal s) (derivedFor tf w s)\<rparr>"

definition drifted :: "ident option \<Rightarrow> world \<Rightarrow> snapshotRow list" where
  "drifted tf w = filter (\<lambda>s. inScope tf (sn_tenantId s) \<and> sn_bal s \<noteq> derivedFor tf w s) (snapshots w)"

lemma run_report:
  "run tf False w = (Inr \<lparr>rr_checked = length (filter (\<lambda>s. inScope tf (sn_tenantId s)) (snapshots w)),
     rr_drifted = length (drifted tf w), rr_repaired = 0, rr_entries = map (entryFor tf w) (drifted tf w)\<rparr>, w)"
proof -
  have "collect ss (checkRow (derivedMap tf w) False) w =
      (Inr (map (entryFor tf w) (filter (\<lambda>s. sn_bal s \<noteq> derivedFor tf w s) ss)), w)" for ss
  proof (induction ss)
    case Nil
    then show ?case by (simp add: ret_def)
  next
    case (Cons s ss)
    then show ?case
      by (simp add: checkRow_def derived_default Let_def op_defs entryFor_def)
  qed
  then show ?thesis
    by (simp add: run_def op_defs drifted_def conj_commute)
qed

text \<open>A repair, row by row.\<close>

definition repairedRow :: "ident option \<Rightarrow> world \<Rightarrow> snapshotRow \<Rightarrow> snapshotRow \<Rightarrow> snapshotRow" where
  "repairedRow tf w s r = r\<lparr>sn_bal := derivedFor tf w s, sn_version := sn_version r + 1\<rparr>"

lemma repairedRow_sel [simp]:
  "sn_id (repairedRow tf w s r) = sn_id r" "sn_key (repairedRow tf w s r) = sn_key r"
  "sn_bal (repairedRow tf w s r) = derivedFor tf w s"
  "sn_tenantId (repairedRow tf w s r) = sn_tenantId r"
  "sn_skuId (repairedRow tf w s r) = sn_skuId r" "sn_locationId (repairedRow tf w s r) = sn_locationId r"
  "sn_safetyStock (repairedRow tf w s r) = sn_safetyStock r"
  by (simp_all add: repairedRow_def key_defs)

lemma collect_repair:
  assumes "\<And>s. s \<in> set ss \<Longrightarrow> sn_id s \<in> sn_id ` set (snapshots v)"
  shows "\<exists>c. collect ss (checkRow (derivedMap tf w) True) v =
    (Inr (map (entryFor tf w) (filter (\<lambda>s. sn_bal s \<noteq> derivedFor tf w s) ss)),
     v\<lparr>snapshots := fold (\<lambda>s rs. if sn_bal s \<noteq> derivedFor tf w s
          then mapWhere (\<lambda>r. sn_id r = sn_id s) (repairedRow tf w s) rs else rs) ss (snapshots v),
        cache := c\<rparr>)"
  using assms
proof (induction ss arbitrary: v)
  case Nil
  show ?case by (rule exI [of _ "cache v"]) (simp add: ret_def)
next
  case (Cons s ss)
  show ?case
  proof (cases "sn_bal s = derivedFor tf w s")
    case True
    then have "checkRow (derivedMap tf w) True s v = (Inr [], v)"
      by (simp add: checkRow_def derived_default Let_def op_defs)
    moreover obtain c where "collect ss (checkRow (derivedMap tf w) True) v =
      (Inr (map (entryFor tf w) (filter (\<lambda>s. sn_bal s \<noteq> derivedFor tf w s) ss)),
       v\<lparr>snapshots := fold (\<lambda>s rs. if sn_bal s \<noteq> derivedFor tf w s
          then mapWhere (\<lambda>r. sn_id r = sn_id s) (repairedRow tf w s) rs else rs) ss (snapshots v), cache := c\<rparr>)"
      using Cons.IH [of v] Cons.prems by auto
    ultimately show ?thesis using True by (intro exI [of _ c]) (simp add: bind_def ret_def)
  next
    case False
    let ?c = "\<lambda>(t, k, l). if t = sn_tenantId s \<and> k = sn_skuId s then None else cache v (t, k, l)"
    let ?v = "v\<lparr>snapshots := mapWhere (\<lambda>r. sn_id r = sn_id s) (repairedRow tf w s) (snapshots v), cache := ?c\<rparr>"
    obtain r where "find (\<lambda>r. sn_id r = sn_id s) (snapshots v) = Some r"
      using Cons.prems [of s] by (cases "find (\<lambda>r. sn_id r = sn_id s) (snapshots v)") (auto simp: find_None_iff)
    then have step: "checkRow (derivedMap tf w) True s v = (Inr [entryFor tf w s], ?v)"
      using False
      by (simp add: checkRow_def derived_default Let_def op_defs repairRow_def entryFor_def repairedRow_def [abs_def]
          cong del: if_weak_cong)
    have "map sn_id (snapshots ?v) = map sn_id (snapshots v)" by (simp add: map_mapWhere_frame)
    then have "sn_id ` set (snapshots ?v) = sn_id ` set (snapshots v)" by (metis list.set_map)
    then obtain c where "collect ss (checkRow (derivedMap tf w) True) ?v =
      (Inr (map (entryFor tf w) (filter (\<lambda>s. sn_bal s \<noteq> derivedFor tf w s) ss)),
       ?v\<lparr>snapshots := fold (\<lambda>s rs. if sn_bal s \<noteq> derivedFor tf w s
          then mapWhere (\<lambda>r. sn_id r = sn_id s) (repairedRow tf w s) rs else rs) ss (snapshots ?v), cache := c\<rparr>)"
      using Cons.IH [of ?v] Cons.prems by auto
    then show ?thesis using False step by (intro exI [of _ c]) (simp add: bind_def ret_def)
  qed
qed

lemma fold_repair:
  assumes "distinct (map sn_id ss)" "\<And>s r. sn_id (f s r) = sn_id r"
  shows "fold (\<lambda>s rs. if P s then mapWhere (\<lambda>r. sn_id r = sn_id s) (f s) rs else rs) ss rs =
    map (\<lambda>r. case find (\<lambda>s. sn_id s = sn_id r) ss of Some s \<Rightarrow> if P s then f s r else r | None \<Rightarrow> r) rs"
  using assms(1)
proof (induction ss arbitrary: rs)
  case (Cons a ss)
  have none: "find (\<lambda>s. sn_id s = sn_id a) ss = None"
    using Cons.prems by (auto simp: find_None_iff image_iff)
  show ?case
    using Cons none by (auto simp: mapWhere_def assms(2) eq_commute [of "sn_id a"])
qed simp

definition repairedRows :: "ident option \<Rightarrow> world \<Rightarrow> snapshotRow list" where
  "repairedRows tf w = map (\<lambda>r. if r \<in> set (drifted tf w) then repairedRow tf w r r else r) (snapshots w)"

lemma run_repair:
  assumes ok: "snapshotsOk w"
  obtains c where "run tf True w = (Inr \<lparr>rr_checked = length (filter (\<lambda>s. inScope tf (sn_tenantId s)) (snapshots w)),
     rr_drifted = length (drifted tf w), rr_repaired = length (drifted tf w),
     rr_entries = map (entryFor tf w) (drifted tf w)\<rparr>,
     w\<lparr>snapshots := repairedRows tf w, cache := c\<rparr>)"
proof -
  let ?ss = "filter (\<lambda>s. inScope tf (sn_tenantId s)) (snapshots w)"
  have d: "distinct (map sn_id ?ss)" using ok by (simp add: snapshotsOk_def distinct_map_filter)
  have f: "find (\<lambda>s. sn_id s = sn_id r) ?ss = (if inScope tf (sn_tenantId r) then Some r else None)"
    if "r \<in> set (snapshots w)" for r
  proof (cases "inScope tf (sn_tenantId r)")
    case True
    then show ?thesis using find_unique [OF d, of r] that by simp
  next
    case False
    then show ?thesis using that snapshotsOk_id_eq [OF ok] by (auto simp: find_None_iff)
  qed
  have "fold (\<lambda>s rs. if sn_bal s \<noteq> derivedFor tf w s
      then mapWhere (\<lambda>r. sn_id r = sn_id s) (repairedRow tf w s) rs else rs) ?ss (snapshots w) =
    repairedRows tf w"
    unfolding repairedRows_def fold_repair [OF d, of "repairedRow tf w", OF repairedRow_sel(1)]
    by (rule map_cong) (auto simp: f drifted_def)
  moreover obtain c where "collect ?ss (checkRow (derivedMap tf w) True) w =
    (Inr (map (entryFor tf w) (filter (\<lambda>s. sn_bal s \<noteq> derivedFor tf w s) ?ss)),
     w\<lparr>snapshots := fold (\<lambda>s rs. if sn_bal s \<noteq> derivedFor tf w s
          then mapWhere (\<lambda>r. sn_id r = sn_id s) (repairedRow tf w s) rs else rs) ?ss (snapshots w), cache := c\<rparr>)"
    using collect_repair [of ?ss w tf w] by auto
  ultimately have "run tf True w = (Inr \<lparr>rr_checked = length ?ss, rr_drifted = length (drifted tf w),
      rr_repaired = length (drifted tf w), rr_entries = map (entryFor tf w) (drifted tf w)\<rparr>,
     w\<lparr>snapshots := repairedRows tf w, cache := c\<rparr>)"
    by (simp add: run_def op_defs drifted_def conj_commute)
  then show thesis by (rule that)
qed

section \<open>Properties\<close>

text \<open>
  The tenant report is sound and complete: it changes nothing, checks every snapshot of the tenant, and
  has one entry for each of them whose balances are not the sum of its ledger rows, with both
  figures, and no other; so a consistent database is reported clean.  The cross-tenant report is
  exact in the same sense as long as every SKU's ledger rows belong to the tenant of its snapshots.
\<close>

lemma reconcile_exact:
  "(\<exists>rep. reconcileTenant t False w = (Inr rep, w) \<and>
      rr_checked rep = length (filter (\<lambda>s. sn_tenantId s = t) (snapshots w)) \<and>
      map (\<lambda>e. (de_skuId e, de_locationId e, de_snapshot e, de_derived e)) (rr_entries rep) =
        map (\<lambda>s. (sn_skuId s, sn_locationId s, sn_bal s, ledgerSum w (sn_key s)))
          (filter (\<lambda>s. sn_tenantId s = t \<and> sn_bal s \<noteq> ledgerSum w (sn_key s)) (snapshots w)) \<and>
      (stockInv w \<longrightarrow> rr_entries rep = [])) \<and>
    (tenantOwnsSku w \<longrightarrow> (\<exists>rep. reconcileAll False w = (Inr rep, w) \<and>
      map (\<lambda>e. (de_skuId e, de_locationId e, de_snapshot e, de_derived e)) (rr_entries rep) =
        map (\<lambda>s. (sn_skuId s, sn_locationId s, sn_bal s, ledgerSum w (sn_key s)))
          (filter (\<lambda>s. sn_bal s \<noteq> ledgerSum w (sn_key s)) (snapshots w))))"
proof (intro conjI impI)
  have e: "(de_skuId (entryFor tf w s), de_locationId (entryFor tf w s), de_snapshot (entryFor tf w s),
      de_derived (entryFor tf w s)) = (sn_skuId s, sn_locationId s, sn_bal s, derivedFor tf w s)" for tf s
    by (simp add: entryFor_def)
  have dt: "drifted (Some t) w =
      filter (\<lambda>s. sn_tenantId s = t \<and> sn_bal s \<noteq> ledgerSum w (sn_key s)) (snapshots w)"
    unfolding drifted_def by (rule filter_cong) (auto simp: inScope_def derivedFor_tenant)
  have "drifted (Some t) w = []" if "stockInv w"
    unfolding dt using that balance_row [of w] by (auto simp: stockInv_def fun_eq_iff filter_empty_conv)
  moreover have "map (\<lambda>s. (sn_skuId s, sn_locationId s, sn_bal s, derivedFor (Some t) w s)) (drifted (Some t) w) =
      map (\<lambda>s. (sn_skuId s, sn_locationId s, sn_bal s, ledgerSum w (sn_key s)))
        (filter (\<lambda>s. sn_tenantId s = t \<and> sn_bal s \<noteq> ledgerSum w (sn_key s)) (snapshots w))"
    unfolding dt by (simp add: derivedFor_tenant)
  ultimately show "\<exists>rep. reconcileTenant t False w = (Inr rep, w) \<and>
      rr_checked rep = length (filter (\<lambda>s. sn_tenantId s = t) (snapshots w)) \<and>
      map (\<lambda>e. (de_skuId e, de_locationId e, de_snapshot e, de_derived e)) (rr_entries rep) =
        map (\<lambda>s. (sn_skuId s, sn_locationId s, sn_bal s, ledgerSum w (sn_key s)))
          (filter (\<lambda>s. sn_tenantId s = t \<and> sn_bal s \<noteq> ledgerSum w (sn_key s)) (snapshots w)) \<and>
      (stockInv w \<longrightarrow> rr_entries rep = [])"
    by (simp add: reconcileTenant_def run_report inScope_def o_def e)
  assume own: "tenantOwnsSku w"
  have "drifted None w = filter (\<lambda>s. sn_bal s \<noteq> ledgerSum w (sn_key s)) (snapshots w)"
    unfolding drifted_def by (rule filter_cong) (simp_all add: inScope_def derivedFor_all own)
  then show "\<exists>rep. reconcileAll False w = (Inr rep, w) \<and>
      map (\<lambda>e. (de_skuId e, de_locationId e, de_snapshot e, de_derived e)) (rr_entries rep) =
        map (\<lambda>s. (sn_skuId s, sn_locationId s, sn_bal s, ledgerSum w (sn_key s)))
          (filter (\<lambda>s. sn_bal s \<noteq> ledgerSum w (sn_key s)) (snapshots w))"
    using own by (simp add: reconcileAll_def run_report o_def e derivedFor_all)
qed

lemma reconcile_exact_witness:
  "\<exists>rep. reconcileAll False (demoWorld\<lparr>ledger := []\<rparr>) = (Inr rep, demoWorld\<lparr>ledger := []\<rparr>) \<and>
    length (rr_entries rep) = 1"
proof -
  have own: "tenantOwnsSku (demoWorld\<lparr>ledger := []\<rparr>)" by (simp add: tenantOwnsSku_def)
  have one: "length (filter (\<lambda>s. sn_bal s \<noteq> ledgerSum (demoWorld\<lparr>ledger := []\<rparr>) (sn_key s))
      (snapshots (demoWorld\<lparr>ledger := []\<rparr>))) = 1"
    by (simp add: demoWorld_sel ledgerSum_def zero_buckets_def)
  obtain rep where rep: "reconcileAll False (demoWorld\<lparr>ledger := []\<rparr>) = (Inr rep, demoWorld\<lparr>ledger := []\<rparr>)"
    and es: "map (\<lambda>e. (de_skuId e, de_locationId e, de_snapshot e, de_derived e)) (rr_entries rep) =
      map (\<lambda>s. (sn_skuId s, sn_locationId s, sn_bal s, ledgerSum (demoWorld\<lparr>ledger := []\<rparr>) (sn_key s)))
        (filter (\<lambda>s. sn_bal s \<noteq> ledgerSum (demoWorld\<lparr>ledger := []\<rparr>) (sn_key s))
          (snapshots (demoWorld\<lparr>ledger := []\<rparr>)))"
    using reconcile_exact [of 7 "demoWorld\<lparr>ledger := []\<rparr>"] own by blast
  have "length (rr_entries rep) = 1" using arg_cong [OF es, of length] one by (simp only: length_map)
  with rep show ?thesis by blast
qed

text \<open>
  A repair of a tenant restores consistency: afterwards every snapshot of the tenant
  has exactly the sum of its ledger rows, the other tenants' rows, the ledger and every
  safety stock are untouched, the report counts each repaired row, and a second report finds no drift.
\<close>

lemma reconcile_repairs:
  assumes "snapshotsOk w"
  shows "\<exists>rep w'. reconcileTenant t True w = (Inr rep, w') \<and> snapshotsOk w' \<and> ledger w' = ledger w \<and>
    rr_repaired rep = rr_drifted rep \<and>
    (\<forall>s \<in> set (snapshots w'). sn_tenantId s = t \<longrightarrow> sn_bal s = ledgerSum w (sn_key s)) \<and>
    (\<forall>k. fst k \<noteq> t \<longrightarrow> balance w' k = balance w k) \<and> safetyOf w' = safetyOf w \<and>
    (\<exists>rep'. reconcileTenant t False w' = (Inr rep', w') \<and> rr_drifted rep' = 0)"
proof -
  let ?rs = "repairedRows (Some t) w"
  obtain c rep where run: "reconcileTenant t True w = (Inr rep, w\<lparr>snapshots := ?rs, cache := c\<rparr>)"
    and rep: "rr_repaired rep = rr_drifted rep"
    unfolding reconcileTenant_def by (rule run_repair [OF assms, of "Some t"]) fastforce
  let ?w = "w\<lparr>snapshots := ?rs, cache := c\<rparr>"
  have keys: "map sn_key ?rs = map sn_key (snapshots w)" "map sn_id ?rs = map sn_id (snapshots w)"
    by (simp_all add: repairedRows_def)
  have ok: "snapshotsOk ?w"
    using snapshotsOk_rows [OF assms keys] by simp
  have fixed: "sn_bal r = ledgerSum w (sn_key r)" if r: "r \<in> set ?rs" "sn_tenantId r = t" for r
  proof -
    obtain x where x: "x \<in> set (snapshots w)"
        "r = (if x \<in> set (drifted (Some t) w) then repairedRow (Some t) w x x else x)"
      using r(1) unfolding repairedRows_def set_map by blast
    moreover from x(2) r(2) have "sn_tenantId x = t" by (simp split: if_splits)
    ultimately show ?thesis by (auto simp: drifted_def inScope_def derivedFor_tenant)
  qed
  have find': "findSnapshot k (w\<lparr>snapshots := ?rs\<rparr>) = map_option (\<lambda>r. if r \<in> set (drifted (Some t) w)
      then repairedRow (Some t) w r r else r) (findSnapshot k w)" for k
  proof -
    have "find (\<lambda>s. sn_key s = k) (map f rs) = map_option f (find (\<lambda>s. sn_key s = k) rs)"
      if "\<And>r. sn_key (f r) = sn_key r" for f rs
      using that by (induction rs) auto
    then show ?thesis by (simp add: findSnapshot_def repairedRows_def)
  qed
  have "sn_tenantId r = t" if "r \<in> set (drifted (Some t) w)" for r
    using that by (simp add: drifted_def inScope_def)
  then have other: "balance ?w k = balance w k" if "fst k \<noteq> t" for k
    using that findSnapshot_SomeD [of k w]
    by (cases "findSnapshot k w") (auto simp: balance_def find' sn_key_def)
  have saf: "safetyOf ?w = safetyOf w"
    by (auto simp: fun_eq_iff safetyOf_def find' split: option.split)
  have l: "derivedFor tf ?w s = derivedFor tf w s" for tf s by (simp add: derivedFor_def)
  have "drifted (Some t) ?w = []"
    using fixed by (auto simp: drifted_def filter_empty_conv inScope_def l derivedFor_tenant)
  then show ?thesis
    using run rep ok fixed other saf
    by (intro exI [of _ rep] exI [of _ ?w]) (simp add: reconcileTenant_def [of t False] run_report)
qed

lemma reconcile_repairs_witness:
  "\<exists>rep w'. reconcileTenant 7 True demoWorld = (Inr rep, w') \<and> safetyOf w' = safetyOf demoWorld"
  using reconcile_repairs [OF demoWorld_cache(1), of 7] by blast

definition twoTenants :: world where
  "twoTenants = demoWorld\<lparr>ledger := ledger demoWorld @
      [(ledger demoWorld ! 0)\<lparr>lg_id := 8, lg_tenantId := 8, lg_delta := Buckets 5 0 0 0 0\<rparr>],
    snapshots := snapshots demoWorld @
      [(snapshots demoWorld ! 0)\<lparr>sn_id := 9, sn_tenantId := 8, sn_bal := Buckets 5 0 0 0 0\<rparr>]\<rparr>"

text \<open>
  The cross-tenant pass is not exact in general: the grouping forgets the tenant, so
  when two tenants have stock of the same SKU at the same location it reports drift on a consistent
  database, and its repair then gives both tenants the sum of the two.
\<close>

lemma reconcileAll_mixes_tenants:
  "\<exists>w rep w'. stockInv w \<and> reconcileAll True w = (Inr rep, w') \<and> rr_drifted rep = 2 \<and>
    bk_onHand (balance w (7, 2, 3)) = 10 \<and> bk_onHand (balance w (8, 2, 3)) = 5 \<and>
    bk_onHand (balance w' (7, 2, 3)) = 15 \<and> bk_onHand (balance w' (8, 2, 3)) = 15"
proof -
  let ?w = twoTenants
  let ?s1 = "snapshots demoWorld ! 0"
  let ?s2 = "?s1\<lparr>sn_id := 9, sn_tenantId := 8, sn_bal := Buckets 5 0 0 0 0\<rparr>"
  have rows: "snapshots ?w = [?s1, ?s2]" by (simp add: twoTenants_def demoWorld_sel)
  have inv: "stockInv ?w"
    by (auto simp: stockInv_def snapshotsOk_def twoTenants_def demoWorld_sel balance_def findSnapshot_def nonneg_def
        ledgerSum_def fun_eq_iff key_defs)
  have b: "derivedFor None ?w s = Buckets 15 0 0 0 0" if "sn_skuId s = 2" "sn_locationId s = 3" for s
    using that by (simp add: derivedFor_def inScope_def twoTenants_def demoWorld_sel plus_buckets_def)
  have d: "drifted None ?w = [?s1, ?s2]"
    unfolding drifted_def rows using b [of ?s1] b [of ?s2] by (simp add: demoWorld_sel inScope_def)
  obtain c rep where run: "reconcileAll True ?w = (Inr rep, ?w\<lparr>snapshots := repairedRows None ?w, cache := c\<rparr>)"
    and rep: "rr_drifted rep = length (drifted None ?w)"
  proof -
    show thesis
      by (rule run_repair [OF stockInvD(1) [OF inv], where tf = None], rule that, unfold reconcileAll_def, assumption)
        (simp only: reconciliationReport.simps)
  qed
  have new: "repairedRows None ?w =
      [?s1\<lparr>sn_bal := Buckets 15 0 0 0 0, sn_version := 2\<rparr>, ?s2\<lparr>sn_bal := Buckets 15 0 0 0 0, sn_version := 2\<rparr>]"
    unfolding repairedRows_def d rows using b [of ?s1] b [of ?s2] by (simp add: repairedRow_def demoWorld_sel)
  have "bk_onHand (balance ?w (7, 2, 3)) = 10" "bk_onHand (balance ?w (8, 2, 3)) = 5"
    by (simp_all add: balance_def findSnapshot_def twoTenants_def demoWorld_sel key_defs)
  moreover have "bk_onHand (balance (v\<lparr>snapshots := [?s1\<lparr>sn_bal := Buckets 15 0 0 0 0, sn_version := 2\<rparr>,
      ?s2\<lparr>sn_bal := Buckets 15 0 0 0 0, sn_version := 2\<rparr>], cache := c\<rparr>) (i, 2, 3)) = 15"
    if "i = 7 \<or> i = 8" for v i
    using that by (auto simp: balance_def findSnapshot_def demoWorld_sel key_defs)
  ultimately show ?thesis
    using inv run rep unfolding d new by (intro exI conjI) (assumption | simp)+
qed

end
