(* ===== verification/StateMachine.thy ===== *)
theory StateMachine
  imports Schema
begin

text \<open>
  backend/src/orders/order-state-machine.ts: the order lifecycle.  The lemmas give the shape of the
  transition graph (it has no cycle, \<open>rank\<close> is its height) and the paths an order can have taken,
  which the order services rely on.
\<close>

section \<open>Definitions\<close>

fun TRANSITIONS :: "OrderStatus \<Rightarrow> OrderStatus list" where
  "TRANSITIONS OrderStatus.CREATED = [OrderStatus.VALIDATED, OrderStatus.CANCELLED]"
| "TRANSITIONS OrderStatus.VALIDATED = [OrderStatus.ALLOCATED, OrderStatus.CANCELLED]"
| "TRANSITIONS OrderStatus.ALLOCATED = [OrderStatus.RELEASED, OrderStatus.CANCELLED]"
| "TRANSITIONS OrderStatus.RELEASED = [OrderStatus.PICKED, OrderStatus.CANCELLED]"
| "TRANSITIONS OrderStatus.PICKED = [OrderStatus.SHIPPED, OrderStatus.CANCELLED]"
| "TRANSITIONS OrderStatus.SHIPPED = [OrderStatus.DELIVERED]"
| "TRANSITIONS OrderStatus.DELIVERED = [OrderStatus.RETURNED]"
| "TRANSITIONS OrderStatus.CANCELLED = []"
| "TRANSITIONS OrderStatus.RETURNED = []"

definition canTransition :: "OrderStatus \<Rightarrow> OrderStatus \<Rightarrow> bool" where
  "canTransition from to = List.member (TRANSITIONS from) to"

definition assertTransition :: "OrderStatus \<Rightarrow> OrderStatus \<Rightarrow> ('s, unit) op" where
  "assertTransition from to = throwIf (\<not> canTransition from to) (BadRequest ''Illegal order transition'')"

definition HOLDS_INVENTORY :: "OrderStatus list" where
  "HOLDS_INVENTORY = [OrderStatus.CREATED, OrderStatus.VALIDATED, OrderStatus.ALLOCATED,
    OrderStatus.RELEASED, OrderStatus.PICKED]"

section \<open>Lemmas\<close>

fun rank :: "OrderStatus \<Rightarrow> nat" where
  "rank OrderStatus.CREATED = 0"
| "rank OrderStatus.VALIDATED = 1"
| "rank OrderStatus.ALLOCATED = 2"
| "rank OrderStatus.RELEASED = 3"
| "rank OrderStatus.PICKED = 4"
| "rank OrderStatus.SHIPPED = 5"
| "rank OrderStatus.DELIVERED = 6"
| "rank OrderStatus.RETURNED = 7"
| "rank OrderStatus.CANCELLED = 5"

lemma wp_assertTransition [wp]:
  "wp (assertTransition a b) Q E = (if canTransition a b then Q () else E (BadRequest ''Illegal order transition''))"
  by (simp add: assertTransition_def wp)

lemma keeps_assertTransition [keepsI]: "keeps I (assertTransition a b)"
  unfolding assertTransition_def by (rule keepsI)

lemma canTransition_rank: "canTransition a b \<Longrightarrow> rank a < rank b"
  by (cases a) (auto simp: canTransition_def)

lemma reach_rank: "rtranclp canTransition a b \<Longrightarrow> rank a \<le> rank b"
  by (induction rule: rtranclp_induct) (auto dest: canTransition_rank)

lemma reach_strict: "tranclp canTransition a b \<Longrightarrow> rank a < rank b"
  by (induction rule: tranclp_induct) (auto dest: canTransition_rank)

lemma canTransition_cancel: "canTransition a OrderStatus.CANCELLED \<longleftrightarrow> a \<in> set HOLDS_INVENTORY"
  by (cases a) (simp_all add: canTransition_def HOLDS_INVENTORY_def)

lemma canTransition_from_shipped:
  "canTransition OrderStatus.SHIPPED b \<longleftrightarrow> b = OrderStatus.DELIVERED"
  "canTransition OrderStatus.DELIVERED b \<longleftrightarrow> b = OrderStatus.RETURNED"
  "\<not> canTransition OrderStatus.CANCELLED b" "\<not> canTransition OrderStatus.RETURNED b"
  by (auto simp: canTransition_def)

lemma reach_from_shipped:
  "rtranclp canTransition OrderStatus.SHIPPED b \<Longrightarrow>
    b \<in> {OrderStatus.SHIPPED, OrderStatus.DELIVERED, OrderStatus.RETURNED}"
  by (induction rule: rtranclp_induct) (auto simp: canTransition_from_shipped)

text \<open>A path as the list of the statuses after the first.\<close>

fun legalPath :: "OrderStatus \<Rightarrow> OrderStatus list \<Rightarrow> bool" where
  "legalPath a [] = True"
| "legalPath a (b # bs) = (canTransition a b \<and> legalPath b bs)"

lemma legalPath_append:
  "legalPath a (bs @ cs) \<longleftrightarrow> legalPath a bs \<and> legalPath (last (a # bs)) cs"
  by (induction bs arbitrary: a) auto

lemma legalPath_reach: "legalPath a bs \<Longrightarrow> rtranclp canTransition a (last (a # bs))"
proof (induction bs arbitrary: a)
  case (Cons b bs)
  then have "canTransition a b" "rtranclp canTransition b (last (b # bs))" by simp_all
  then show ?case by (simp add: converse_rtranclp_into_rtranclp)
qed simp

lemma legalPath_length: "legalPath a bs \<Longrightarrow> length bs + rank a \<le> rank (last (a # bs))"
proof (induction bs arbitrary: a)
  case (Cons b bs)
  then have "canTransition a b" "length bs + rank b \<le> rank (last (b # bs))" by simp_all
  then show ?case using canTransition_rank [of a b] by simp
qed simp

lemma legalPath_distinct: "legalPath a bs \<Longrightarrow> sorted_wrt (\<lambda>x y. rank x < rank y) (a # bs)"
proof (induction bs arbitrary: a)
  case (Cons b bs)
  then have s: "canTransition a b" "sorted_wrt (\<lambda>x y. rank x < rank y) (b # bs)"
    using Cons.IH [of b] by simp_all
  then show ?case using canTransition_rank [of a b] by auto
qed simp

lemma rank_le: "rank s \<le> 7"
  by (cases s) simp_all

section \<open>Properties\<close>

text \<open>
  Property C14.  The order lifecycle: whatever transitions an order goes through, it never comes back to a
  status it has left and makes at most seven of them; cancelled and returned are final; an order can be
  cancelled from exactly the statuses declared to hold inventory, and from shipped on it can
  only end shipped, delivered or returned, never cancelled.
\<close>

theorem lifecycle:
  "(legalPath OrderStatus.CREATED path \<longrightarrow> distinct (OrderStatus.CREATED # path) \<and> length path \<le> 7) \<and>
   (tranclp canTransition a b \<longrightarrow> \<not> rtranclp canTransition b a) \<and>
   (\<forall>s. (\<forall>s'. \<not> canTransition s s') \<longleftrightarrow> s \<in> {OrderStatus.CANCELLED, OrderStatus.RETURNED}) \<and>
   (\<forall>s. canTransition s OrderStatus.CANCELLED \<longleftrightarrow> s \<in> set HOLDS_INVENTORY) \<and>
   (rtranclp canTransition OrderStatus.SHIPPED b \<longrightarrow>
      b \<in> {OrderStatus.SHIPPED, OrderStatus.DELIVERED, OrderStatus.RETURNED})"
proof (intro conjI impI)
  assume p: "legalPath OrderStatus.CREATED path"
  have "sorted_wrt (<) (map rank (OrderStatus.CREATED # path))"
    using legalPath_distinct [OF p] by (simp only: sorted_wrt_map)
  then have "distinct (map rank (OrderStatus.CREATED # path))" by (simp only: strict_sorted_iff)
  then show "distinct (OrderStatus.CREATED # path)" by (simp only: distinct_map)
  show "length path \<le> 7"
    using legalPath_length [OF p] rank_le [of "last (OrderStatus.CREATED # path)"] by linarith
next
  assume "tranclp canTransition a b"
  then show "\<not> rtranclp canTransition b a" using reach_strict reach_rank by (metis not_less)
next
  show "\<forall>s. (\<forall>s'. \<not> canTransition s s') \<longleftrightarrow> s \<in> {OrderStatus.CANCELLED, OrderStatus.RETURNED}"
  proof
    fix s show "(\<forall>s'. \<not> canTransition s s') \<longleftrightarrow> s \<in> {OrderStatus.CANCELLED, OrderStatus.RETURNED}"
      by (cases s) (auto simp: canTransition_def)
  qed
qed (use canTransition_cancel reach_from_shipped in blast)+

lemma lifecycle_witness:
  "distinct [OrderStatus.CREATED, OrderStatus.VALIDATED, OrderStatus.CANCELLED]"
  using lifecycle [of "[OrderStatus.VALIDATED, OrderStatus.CANCELLED]"]
  by (simp add: canTransition_def)

end
