(* ===== verification/Payments.thy ===== *)
theory Payments
  imports Inventory
begin

text \<open>
  backend/src/payments: the gateway interface (\<open>PaymentProvider\<close>), the in-memory mock, the Stripe
  adapter and the facade over the selected one.  A provider is a record of operations.  The Stripe
  API is not part of the program: it is the parameter \<open>api\<close>, which answers a request knowing all
  the requests sent before it.  The locale \<open>payment_gateway\<close> is what the order services rely on:
  a gateway never throws and changes no table; both providers satisfy it.
\<close>

section \<open>Strings\<close>

definition upperChar :: "char \<Rightarrow> char" where
  "upperChar c = (if 97 \<le> (of_char c :: nat) \<and> (of_char c :: nat) \<le> 122 then char_of ((of_char c :: nat) - 32) else c)"

definition lowerChar :: "char \<Rightarrow> char" where
  "lowerChar c = (if 65 \<le> (of_char c :: nat) \<and> (of_char c :: nat) \<le> 90 then char_of ((of_char c :: nat) + 32) else c)"

definition toUpperCase :: "string \<Rightarrow> string" where
  "toUpperCase s = map upperChar s"

definition toLowerCase :: "string \<Rightarrow> string" where
  "toLowerCase s = map lowerChar s"

fun includesStr :: "string \<Rightarrow> string \<Rightarrow> bool" where
  "includesStr [] sub = (sub = [])"
| "includesStr (c # cs) sub = (prefix sub (c # cs) \<or> includesStr cs sub)"

definition orEmpty :: "string option \<Rightarrow> string" where
  "orEmpty s = (case s of Some t \<Rightarrow> t | None \<Rightarrow> [])"

definition orElse :: "'a option \<Rightarrow> 'a option \<Rightarrow> 'a option" where
  "orElse x y = (case x of Some a \<Rightarrow> Some a | None \<Rightarrow> y)"

section \<open>The interface\<close>

datatype AuthorizationStatus = AUTHORIZED | DECLINED
datatype CaptureStatus = CAPTURED | FAILED
datatype RefundStatus = REFUNDED | FAILED
datatype VoidStatus = VOIDED | FAILED

record paymentAuthorization =
  pa_status :: AuthorizationStatus
  pa_reference :: "string option"
  pa_declineReason :: "string option"

type_synonym orderForPayment = "order \<times> orderLine list"

record paymentProvider =
  pp_name :: string
  pp_authorize :: "orderForPayment \<Rightarrow> (world, paymentAuthorization) op"
  pp_capture :: "order \<Rightarrow> string option \<Rightarrow> (world, CaptureStatus \<times> string option) op"
  pp_refund :: "orderForPayment \<Rightarrow> int \<Rightarrow> (world, RefundStatus \<times> string option) op"
  pp_voidPayment :: "order \<Rightarrow> string option \<Rightarrow> (world, VoidStatus \<times> string option) op"

definition linesTotal :: "orderLine list \<Rightarrow> int" where
  "linesTotal ls = fold (\<lambda>l s. s + ol_unitPrice l * ol_quantity l) ls 0"

definition orderAmountMinor :: "orderForPayment \<Rightarrow> int" where
  "orderAmountMinor ord = max 0 (linesTotal (snd ord) + o_taxTotal (fst ord) - o_discountTotal (fst ord))"

text \<open>A prefix and twelve characters of a random UUID.\<close>

definition randomRef :: "string \<Rightarrow> (world, string) op" where
  "randomRef pre = bind freshId (\<lambda>i. bind (gets (\<lambda>w. uuidOf w i)) (\<lambda>u. ret (pre @ take 12 u)))"

section \<open>The mock\<close>

definition declines :: "order \<Rightarrow> bool" where
  "declines ord = includesStr (toUpperCase (orEmpty (o_externalRef ord))) ''DECLINE''"

definition mockProvider :: paymentProvider where
  "mockProvider = \<lparr>
    pp_name = ''mock'',
    pp_authorize = (\<lambda>ord. if declines (fst ord)
      then ret \<lparr>pa_status = DECLINED, pa_reference = None, pa_declineReason = Some ''payment declined''\<rparr>
      else bind (randomRef ''mock_auth_'') (\<lambda>r.
        ret \<lparr>pa_status = AUTHORIZED, pa_reference = Some r, pa_declineReason = None\<rparr>)),
    pp_capture = (\<lambda>_ authRef. case authRef of
        Some r \<Rightarrow> ret (CAPTURED, Some r)
      | None \<Rightarrow> bind (randomRef ''mock_cap_'') (\<lambda>r. ret (CAPTURED, Some r))),
    pp_refund = (\<lambda>_ _. bind (randomRef ''mock_ref_'') (\<lambda>r. ret (REFUNDED, Some r))),
    pp_voidPayment = (\<lambda>_ authRef. case authRef of
        Some r \<Rightarrow> ret (VOIDED, Some r)
      | None \<Rightarrow> bind (randomRef ''mock_void_'') (\<lambda>r. ret (VOIDED, Some r)))\<rparr>"

section \<open>The Stripe adapter\<close>

text \<open>What the API answers: an object with its id and status, or a thrown error.\<close>

datatype stripeError =
    StripeCardError (se_declineCode: "string option") (se_message: "string option")
  | StripeError (se_message: "string option") (se_code: "string option")
  | JsError string
  | OtherThrown

record stripeObject =
  so_id :: string
  so_status :: string
  so_lastPaymentError :: "string option"

type_synonym stripeApi = "gatewayCall list \<Rightarrow> gatewayCall \<Rightarrow> stripeError + stripeObject"

record stripeConfig =
  sc_secretKey :: "string option"
  sc_paymentMethod :: string
  sc_declinePaymentMethod :: string

fun describe :: "stripeError \<Rightarrow> string" where
  "describe (StripeCardError code msg) =
    (case code of Some c \<Rightarrow> c | None \<Rightarrow> (case msg of Some m \<Rightarrow> m | None \<Rightarrow> ''card declined''))"
| "describe (StripeError msg code) =
    (case msg of Some m \<Rightarrow> m | None \<Rightarrow> (case code of Some c \<Rightarrow> c | None \<Rightarrow> ''stripe error''))"
| "describe (JsError m) = m"
| "describe OtherThrown = ''unknown payment error''"

definition callApi :: "stripeApi \<Rightarrow> gatewayCall \<Rightarrow> (world, stripeError + stripeObject) op" where
  "callApi api c = bind (gets (\<lambda>w. api (gatewayLog w) c)) (\<lambda>r.
    andThen (modify (\<lambda>w. w\<lparr>gatewayLog := gatewayLog w @ [c]\<rparr>)) (ret r))"

text \<open>An empty key counts as no key.\<close>

definition hasKey :: "stripeConfig \<Rightarrow> bool" where
  "hasKey cfg = (case sc_secretKey cfg of Some k \<Rightarrow> k \<noteq> [] | None \<Rightarrow> False)"

definition isDryRunRef :: "string option \<Rightarrow> bool" where
  "isDryRunRef ref = (case ref of None \<Rightarrow> True | Some r \<Rightarrow> r = [] \<or> prefix ''stripe_dryrun_'' r)"

definition stripeAuthorize ::
  "stripeConfig \<Rightarrow> stripeApi \<Rightarrow> orderForPayment \<Rightarrow> (world, paymentAuthorization) op" where
  "stripeAuthorize cfg api ord =
    (let amount = orderAmountMinor ord; declined = declines (fst ord) in
     if amount \<le> 0 then ret \<lparr>pa_status = AUTHORIZED, pa_reference = None, pa_declineReason = None\<rparr>
     else if \<not> hasKey cfg then
       (if declined
        then ret \<lparr>pa_status = DECLINED, pa_reference = None,
               pa_declineReason = Some ''payment declined (dry-run)''\<rparr>
        else bind (randomRef ''stripe_dryrun_'') (\<lambda>r.
          ret \<lparr>pa_status = AUTHORIZED, pa_reference = Some r, pa_declineReason = None\<rparr>))
     else bind (callApi api (CreateIntent amount (toLowerCase (o_currency (fst ord)))
            (if declined then sc_declinePaymentMethod cfg else sc_paymentMethod cfg)
            (o_id (fst ord)) (''auth_'', o_id (fst ord), None))) (\<lambda>answer.
       case answer of
         Inr intent \<Rightarrow>
           if so_status intent = ''requires_capture''
           then ret \<lparr>pa_status = AUTHORIZED, pa_reference = Some (so_id intent), pa_declineReason = None\<rparr>
           else ret \<lparr>pa_status = DECLINED, pa_reference = Some (so_id intent),
                  pa_declineReason = Some (case so_lastPaymentError intent of Some m \<Rightarrow> m
                    | None \<Rightarrow> ''unexpected intent status '' @ so_status intent)\<rparr>
       | Inl err \<Rightarrow> ret \<lparr>pa_status = DECLINED, pa_reference = None,
           pa_declineReason = Some (describe err)\<rparr>))"

definition stripeCapture ::
  "stripeConfig \<Rightarrow> stripeApi \<Rightarrow> order \<Rightarrow> string option \<Rightarrow> (world, CaptureStatus \<times> string option) op" where
  "stripeCapture cfg api ord authRef =
    (if \<not> hasKey cfg \<or> isDryRunRef authRef then ret (CAPTURED, authRef)
     else bind (callApi api (CaptureIntent (the authRef))) (\<lambda>answer.
       case answer of
         Inr intent \<Rightarrow> ret (if so_status intent = ''succeeded'' then CAPTURED else CaptureStatus.FAILED,
           Some (so_id intent))
       | Inl err \<Rightarrow> ret (CaptureStatus.FAILED, authRef)))"

definition stripeRefund ::
  "stripeConfig \<Rightarrow> stripeApi \<Rightarrow> orderForPayment \<Rightarrow> int \<Rightarrow> (world, RefundStatus \<times> string option) op" where
  "stripeRefund cfg api ord amountMinor =
    (let ref = o_paymentReference (fst ord) in
     if \<not> hasKey cfg \<or> isDryRunRef ref then
       (case ref of
          Some r \<Rightarrow> ret (REFUNDED, Some r)
        | None \<Rightarrow> bind (randomRef ''stripe_ref_'') (\<lambda>r. ret (REFUNDED, Some r)))
     else bind (callApi api (CreateRefund (the ref) amountMinor
            (''refund_'', o_id (fst ord), Some amountMinor))) (\<lambda>answer.
       case answer of
         Inr refund \<Rightarrow> ret (if so_status refund \<in> {''succeeded'', ''pending''} then REFUNDED
           else RefundStatus.FAILED, Some (so_id refund))
       | Inl err \<Rightarrow> ret (RefundStatus.FAILED, ref)))"

definition stripeVoid ::
  "stripeConfig \<Rightarrow> stripeApi \<Rightarrow> order \<Rightarrow> string option \<Rightarrow> (world, VoidStatus \<times> string option) op" where
  "stripeVoid cfg api ord authRef =
    (let ref = orElse authRef (o_paymentReference ord) in
     if \<not> hasKey cfg \<or> isDryRunRef ref then ret (VOIDED, ref)
     else bind (callApi api (CancelIntent (the ref))) (\<lambda>answer.
       case answer of
         Inr intent \<Rightarrow> ret (if so_status intent = ''canceled'' then VOIDED else VoidStatus.FAILED,
           Some (so_id intent))
       | Inl err \<Rightarrow> ret (VoidStatus.FAILED, ref)))"

definition stripeProvider :: "stripeConfig \<Rightarrow> stripeApi \<Rightarrow> paymentProvider" where
  "stripeProvider cfg api = \<lparr>pp_name = ''stripe'', pp_authorize = stripeAuthorize cfg api,
    pp_capture = stripeCapture cfg api, pp_refund = stripeRefund cfg api,
    pp_voidPayment = stripeVoid cfg api\<rparr>"

section \<open>Selection and facade\<close>

record paymentConfig =
  pc_provider :: "string option"
  pc_stripe :: stripeConfig

definition selectProvider :: "paymentConfig \<Rightarrow> stripeApi \<Rightarrow> paymentProvider" where
  "selectProvider cfg api =
    (if toLowerCase (case pc_provider cfg of Some n \<Rightarrow> n | None \<Rightarrow> ''mock'') = ''stripe''
     then stripeProvider (pc_stripe cfg) api else mockProvider)"

definition refundPayment ::
  "paymentProvider \<Rightarrow> orderForPayment \<Rightarrow> int option \<Rightarrow> (world, RefundStatus \<times> string option) op" where
  "refundPayment gw ord amountMinor =
    pp_refund gw ord (case amountMinor of Some n \<Rightarrow> n | None \<Rightarrow> orderAmountMinor ord)"

section \<open>The contract of a gateway\<close>

definition gatewayOnly :: "(world, 'a) op \<Rightarrow> bool" where
  "gatewayOnly m \<longleftrightarrow>
    (\<forall>w. wp m (\<lambda>_ w'. \<exists>n g. w' = w\<lparr>nextId := n, gatewayLog := g\<rparr> \<and> nextId w \<le> n) (\<lambda>_ _. False) w)"

lemma wp_gatewayOnly:
  assumes "gatewayOnly m"
    and "\<And>x n g. nextId w \<le> n \<Longrightarrow> m w = (Inr x, w\<lparr>nextId := n, gatewayLog := g\<rparr>) \<Longrightarrow>
      Q x (w\<lparr>nextId := n, gatewayLog := g\<rparr>)"
  shows "wp m Q E w"
  by (rule wp_mono [of m "\<lambda>_ w'. \<exists>n g. w' = w\<lparr>nextId := n, gatewayLog := g\<rparr> \<and> nextId w \<le> n" "\<lambda>_ _. False"])
    (use assms in \<open>auto simp: gatewayOnly_def\<close>)

lemma keeps_gatewayOnly:
  "gatewayOnly m \<Longrightarrow> (\<And>w n g. I w \<Longrightarrow> nextId w \<le> n \<Longrightarrow> I (w\<lparr>nextId := n, gatewayLog := g\<rparr>)) \<Longrightarrow> keeps I m"
  by (rule keeps_intro) (auto intro: wp_gatewayOnly)

text \<open>Operations built from the bookkeeping and calls of the API are of that kind.\<close>

lemma gatewayOnlyI:
  "(\<And>w. wp m (\<lambda>_ w'. \<exists>n g. w' = w\<lparr>nextId := n, gatewayLog := g\<rparr> \<and> nextId w \<le> n) (\<lambda>_ _. False) w) \<Longrightarrow>
    gatewayOnly m"
  by (simp add: gatewayOnly_def)

lemma gatewayOnly_ret: "gatewayOnly (ret x)"
proof (rule gatewayOnlyI)
  fix w :: world
  have "w = w\<lparr>nextId := nextId w, gatewayLog := gatewayLog w\<rparr>" by simp
  then show "wp (ret x) (\<lambda>_ w'. \<exists>n g. w' = w\<lparr>nextId := n, gatewayLog := g\<rparr> \<and> nextId w \<le> n) (\<lambda>_ _. False) w"
    unfolding wp by blast
qed

lemma gatewayOnly_bind:
  assumes m: "gatewayOnly m" and f: "\<And>x. gatewayOnly (f x)"
  shows "gatewayOnly (bind m f)"
proof (rule gatewayOnlyI)
  fix w :: world
  show "wp (bind m f) (\<lambda>_ w'. \<exists>n g. w' = w\<lparr>nextId := n, gatewayLog := g\<rparr> \<and> nextId w \<le> n) (\<lambda>_ _. False) w"
    unfolding wp
    by (rule wp_gatewayOnly [OF m], rule wp_gatewayOnly [OF f]) (auto intro!: exI)
qed

lemma gatewayOnly_freshId: "gatewayOnly freshId"
proof (rule gatewayOnlyI)
  fix w :: world
  have "w\<lparr>nextId := Suc (nextId w)\<rparr> = w\<lparr>nextId := Suc (nextId w), gatewayLog := gatewayLog w\<rparr>" by simp
  then show "wp freshId (\<lambda>_ w'. \<exists>n g. w' = w\<lparr>nextId := n, gatewayLog := g\<rparr> \<and> nextId w \<le> n) (\<lambda>_ _. False) w"
    unfolding wp by (metis le_SucI order_refl)
qed

lemma gatewayOnly_gets: "gatewayOnly (gets f)"
proof -
  have "gatewayOnly (bind (ret ()) (\<lambda>_. gets f)) = gatewayOnly (gets f)" by (simp add: gatewayOnly_def wp)
  moreover have "w = w\<lparr>nextId := nextId w, gatewayLog := gatewayLog w\<rparr>" for w :: world by simp
  ultimately show ?thesis unfolding gatewayOnly_def wp by (metis order_refl)
qed

lemma gatewayOnly_log: "gatewayOnly (modify (\<lambda>w. w\<lparr>gatewayLog := g w\<rparr>))"
proof (rule gatewayOnlyI)
  fix w :: world
  have "w\<lparr>gatewayLog := g w\<rparr> = w\<lparr>nextId := nextId w, gatewayLog := g w\<rparr>" by simp
  then show "wp (modify (\<lambda>w. w\<lparr>gatewayLog := g w\<rparr>))
      (\<lambda>_ w'. \<exists>n g. w' = w\<lparr>nextId := n, gatewayLog := g\<rparr> \<and> nextId w \<le> n) (\<lambda>_ _. False) w"
    unfolding wp by blast
qed

lemma gatewayOnly_randomRef: "gatewayOnly (randomRef pre)"
  unfolding randomRef_def
  by (intro gatewayOnly_bind gatewayOnly_freshId gatewayOnly_gets gatewayOnly_ret)

lemma gatewayOnly_callApi: "gatewayOnly (callApi api c)"
  unfolding callApi_def andThen_def
  by (intro gatewayOnly_bind gatewayOnly_gets gatewayOnly_log gatewayOnly_ret)

lemma gatewayOnly_if: "gatewayOnly m \<Longrightarrow> gatewayOnly n \<Longrightarrow> gatewayOnly (if b then m else n)"
  by simp

lemma gatewayOnly_case_option:
  "gatewayOnly m \<Longrightarrow> (\<And>a. gatewayOnly (f a)) \<Longrightarrow> gatewayOnly (case x of None \<Rightarrow> m | Some a \<Rightarrow> f a)"
  by (cases x) simp_all

lemma gatewayOnly_case_sum:
  "(\<And>a. gatewayOnly (f a)) \<Longrightarrow> (\<And>b. gatewayOnly (g b)) \<Longrightarrow>
    gatewayOnly (case x of Inl a \<Rightarrow> f a | Inr b \<Rightarrow> g b)"
  by (cases x) simp_all

lemmas gatewayOnly_intros = gatewayOnly_if gatewayOnly_case_option gatewayOnly_case_sum gatewayOnly_bind gatewayOnly_ret gatewayOnly_randomRef gatewayOnly_callApi

locale payment_gateway =
  fixes gw :: paymentProvider
  assumes authorize_only: "gatewayOnly (pp_authorize gw ord)"
    and capture_only: "gatewayOnly (pp_capture gw ol ref)"
    and refund_only: "gatewayOnly (pp_refund gw ord amt)"
    and void_only: "gatewayOnly (pp_voidPayment gw ol ref)"
begin

lemma refundPayment_only: "gatewayOnly (refundPayment gw ord amt)"
  unfolding refundPayment_def by (rule refund_only)

text \<open>What does not look at the identifiers and the gateway's log is invariant.\<close>

lemma keeps_gateway:
  assumes "\<And>w n g. I w \<Longrightarrow> nextId w \<le> n \<Longrightarrow> I (w\<lparr>nextId := n, gatewayLog := g\<rparr>)"
  shows "keeps I (pp_authorize gw ord)" "keeps I (pp_capture gw ol ref)"
    "keeps I (refundPayment gw ord amt)" "keeps I (pp_voidPayment gw ol ref)"
  by (rule keeps_gatewayOnly, (rule authorize_only capture_only refundPayment_only void_only),
      (erule assms, assumption))+

end

interpretation mock: payment_gateway mockProvider
  by unfold_locales (auto simp: mockProvider_def split: option.split intro: gatewayOnly_intros)

lemma stripeAuthorize_only: "gatewayOnly (stripeAuthorize cfg api ord)"
  unfolding stripeAuthorize_def Let_def by (intro gatewayOnly_intros)

lemma stripeCapture_only: "gatewayOnly (stripeCapture cfg api ol ref)"
  unfolding stripeCapture_def by (intro gatewayOnly_intros)

lemma stripeRefund_only: "gatewayOnly (stripeRefund cfg api ord amt)"
  unfolding stripeRefund_def Let_def by (intro gatewayOnly_intros)

lemma stripeVoid_only: "gatewayOnly (stripeVoid cfg api ol ref)"
  unfolding stripeVoid_def Let_def by (intro gatewayOnly_intros)

lemmas stripe_only = stripeAuthorize_only stripeCapture_only stripeRefund_only stripeVoid_only

interpretation stripe: payment_gateway "stripeProvider cfg api" for cfg api
  by unfold_locales (simp_all add: stripeProvider_def stripe_only)

interpretation selected: payment_gateway "selectProvider cfg api" for cfg api
  using mock.payment_gateway_axioms stripe.payment_gateway_axioms
  by (simp add: selectProvider_def)

text \<open>What authorizing asks of the API.\<close>

lemma authorize_calls:
  "wp (pp_authorize (selectProvider pcfg api) ord)
    (\<lambda>_ w'. \<exists>calls. gatewayLog w' = gatewayLog w @ calls \<and> length calls \<le> 1 \<and>
      (\<forall>c \<in> set calls. 0 < orderAmountMinor ord \<and> gc_amount c = orderAmountMinor ord \<and>
        gc_orderId c = o_id (fst ord))) (\<lambda>_ _. False) w"
  by (auto simp: selectProvider_def mockProvider_def stripeProvider_def stripeAuthorize_def wp Let_def
      randomRef_def callApi_def split: sum.split)

end
