(* ===== verification/Validation.thy ===== *)
theory Validation
  imports Payments
begin

text \<open>
  backend/src/orders/validation.service.ts: the order-validation pipeline.  The hooks (fraud, tax,
  promo) change the accumulator in turn, then the gateway authorizes the final amount.  Rates are
  rational numbers and a product with a rate is exact; the code's is the nearest double, so the
  two agree unless the exact product is within rounding error of a half.
\<close>

section \<open>Definitions\<close>

record validationConfig =
  vc_taxRate :: rat
  vc_promoPct :: rat

record validationOutcome =
  vo_paymentStatus :: PaymentStatus
  vo_fraudStatus :: FraudStatus
  vo_taxTotal :: int
  vo_discountTotal :: int
  vo_paymentReference :: "string option"
  vo_rejection :: "string option"

text \<open>\<open>Math.round\<close>: halves go up.\<close>

definition mathRound :: "rat \<Rightarrow> int" where
  "mathRound x = \<lfloor>x + 1 / 2\<rfloor>"

definition subtotal :: "orderForPayment \<Rightarrow> int" where
  "subtotal ord = linesTotal (snd ord)"

definition fraudHook :: "orderForPayment \<Rightarrow> validationOutcome \<Rightarrow> validationOutcome" where
  "fraudHook ord acc =
    (if includesStr (toUpperCase (orEmpty (o_customerRef (fst ord)))) ''FRAUD''
     then acc\<lparr>vo_fraudStatus := FAIL,
            vo_rejection := orElse (vo_rejection acc) (Some ''failed fraud screen'')\<rparr>
     else acc\<lparr>vo_fraudStatus := PASS\<rparr>)"

definition taxHook :: "rat \<Rightarrow> orderForPayment \<Rightarrow> validationOutcome \<Rightarrow> validationOutcome" where
  "taxHook rate ord acc = acc\<lparr>vo_taxTotal := mathRound (of_int (subtotal ord) * rate)\<rparr>"

definition promoHook :: "rat \<Rightarrow> orderForPayment \<Rightarrow> validationOutcome \<Rightarrow> validationOutcome" where
  "promoHook pct ord acc = acc\<lparr>vo_discountTotal := mathRound (of_int (subtotal ord) * pct)\<rparr>"

definition hooks :: "validationConfig \<Rightarrow> (orderForPayment \<Rightarrow> validationOutcome \<Rightarrow> validationOutcome) list" where
  "hooks cfg = [fraudHook, taxHook (vc_taxRate cfg), promoHook (vc_promoPct cfg)]"

definition emptyOutcome :: validationOutcome where
  "emptyOutcome = \<lparr>vo_paymentStatus = PaymentStatus.PENDING, vo_fraudStatus = FraudStatus.PENDING,
    vo_taxTotal = 0, vo_discountTotal = 0, vo_paymentReference = None, vo_rejection = None\<rparr>"

definition evaluate ::
  "validationConfig \<Rightarrow> paymentProvider \<Rightarrow> orderForPayment \<Rightarrow> (world, validationOutcome) op" where
  "evaluate cfg gw ord =
    (let acc = fold (\<lambda>hook acc. hook ord acc) (hooks cfg) emptyOutcome in
     bind (pp_authorize gw ((fst ord)\<lparr>o_taxTotal := vo_taxTotal acc, o_discountTotal := vo_discountTotal acc\<rparr>,
         snd ord)) (\<lambda>auth.
     ret (if pa_status auth = AuthorizationStatus.AUTHORIZED
       then acc\<lparr>vo_paymentStatus := PaymentStatus.AUTHORIZED, vo_paymentReference := pa_reference auth\<rparr>
       else acc\<lparr>vo_paymentStatus := PaymentStatus.DECLINED,
              vo_rejection := orElse (vo_rejection acc)
                (orElse (pa_declineReason auth) (Some ''payment declined''))\<rparr>)))"

section \<open>Lemmas\<close>

lemma mathRound_bounds: "\<bar>of_int (mathRound x) - x\<bar> \<le> 1 / 2"
  unfolding mathRound_def by linarith

lemma mathRound_mono: "x \<le> y \<Longrightarrow> mathRound x \<le> mathRound y"
  unfolding mathRound_def by (rule floor_mono) simp

lemma mathRound_int [simp]: "mathRound (of_int n) = n"
  unfolding mathRound_def by linarith

text \<open>The accumulator after the hooks.\<close>

definition afterHooks :: "validationConfig \<Rightarrow> orderForPayment \<Rightarrow> validationOutcome" where
  "afterHooks cfg ord = promoHook (vc_promoPct cfg) ord (taxHook (vc_taxRate cfg) ord (fraudHook ord emptyOutcome))"

definition suspectedFraud :: "order \<Rightarrow> bool" where
  "suspectedFraud ol = includesStr (toUpperCase (orEmpty (o_customerRef ol))) ''FRAUD''"

lemma afterHooks_sel [simp]:
  "vo_taxTotal (afterHooks cfg ord) = mathRound (of_int (linesTotal (snd ord)) * vc_taxRate cfg)"
  "vo_discountTotal (afterHooks cfg ord) = mathRound (of_int (linesTotal (snd ord)) * vc_promoPct cfg)"
  "vo_fraudStatus (afterHooks cfg ord) = (if suspectedFraud (fst ord) then FAIL else PASS)"
  "vo_rejection (afterHooks cfg ord) = (if suspectedFraud (fst ord) then Some ''failed fraud screen'' else None)"
  "vo_paymentStatus (afterHooks cfg ord) = PaymentStatus.PENDING"
  "vo_paymentReference (afterHooks cfg ord) = None"
  by (simp_all add: afterHooks_def promoHook_def taxHook_def fraudHook_def subtotal_def suspectedFraud_def
      emptyOutcome_def orElse_def)

lemma evaluate_eq:
  "evaluate cfg gw ord =
    bind (pp_authorize gw ((fst ord)\<lparr>o_taxTotal := vo_taxTotal (afterHooks cfg ord),
        o_discountTotal := vo_discountTotal (afterHooks cfg ord)\<rparr>, snd ord)) (\<lambda>auth.
    ret (if pa_status auth = AuthorizationStatus.AUTHORIZED
      then (afterHooks cfg ord)\<lparr>vo_paymentStatus := PaymentStatus.AUTHORIZED, vo_paymentReference := pa_reference auth\<rparr>
      else (afterHooks cfg ord)\<lparr>vo_paymentStatus := PaymentStatus.DECLINED,
             vo_rejection := orElse (vo_rejection (afterHooks cfg ord))
               (orElse (pa_declineReason auth) (Some ''payment declined''))\<rparr>))"
proof -
  have "fold (\<lambda>hook acc. hook ord acc) (hooks cfg) emptyOutcome = afterHooks cfg ord"
    by (simp add: hooks_def afterHooks_def)
  then show ?thesis by (simp only: evaluate_def Let_def)
qed

text \<open>The amount to charge: line total plus tax less discount.\<close>

definition chargeAmount :: "validationConfig \<Rightarrow> orderForPayment \<Rightarrow> int" where
  "chargeAmount cfg ord = linesTotal (snd ord) + mathRound (of_int (linesTotal (snd ord)) * vc_taxRate cfg)
    - mathRound (of_int (linesTotal (snd ord)) * vc_promoPct cfg)"

context payment_gateway
begin

lemma evaluate_only: "gatewayOnly (evaluate cfg gw ord)"
  unfolding evaluate_eq by (intro gatewayOnly_bind authorize_only gatewayOnly_ret)

text \<open>An order is let through exactly when the gateway authorizes and the fraud screen passes.\<close>

lemma evaluate_rejection:
  "wp (evaluate cfg gw ord) (\<lambda>out _.
    (vo_rejection out = None \<longleftrightarrow>
      vo_paymentStatus out = PaymentStatus.AUTHORIZED \<and> \<not> suspectedFraud (fst ord)) \<and>
    vo_paymentStatus out \<in> {PaymentStatus.AUTHORIZED, PaymentStatus.DECLINED} \<and>
    vo_taxTotal out = mathRound (of_int (linesTotal (snd ord)) * vc_taxRate cfg) \<and>
    vo_discountTotal out = mathRound (of_int (linesTotal (snd ord)) * vc_promoPct cfg) \<and>
    vo_fraudStatus out = (if suspectedFraud (fst ord) then FAIL else PASS)) (\<lambda>_ _. False) w"
  unfolding evaluate_eq wp
  by (rule wp_gatewayOnly [OF authorize_only]) (auto simp: orElse_def split: option.split)

end

section \<open>Properties\<close>

text \<open>
  Validation charges the right amount and lets the right orders through: for every
  configured gateway it terminates without an exception; the order is let through exactly when the payment was authorized
  and the customer does not look fraudulent; tax and discount are within half a minor unit of the
  rate times the line total; and a live Stripe gateway is asked for at most one authorization, of
  line total plus that tax less that discount, and never for a zero or negative amount.
\<close>

lemma validation_outcome:
  "\<exists>out w'. evaluate cfg (selectProvider pcfg api) ord w = (Inr out, w') \<and>
    (vo_rejection out = None \<longleftrightarrow>
      vo_paymentStatus out = PaymentStatus.AUTHORIZED \<and> \<not> suspectedFraud (fst ord)) \<and>
    \<bar>of_int (vo_taxTotal out) - of_int (linesTotal (snd ord)) * vc_taxRate cfg\<bar> \<le> 1 / 2 \<and>
    \<bar>of_int (vo_discountTotal out) - of_int (linesTotal (snd ord)) * vc_promoPct cfg\<bar> \<le> 1 / 2 \<and>
    (\<exists>calls. gatewayLog w' = gatewayLog w @ calls \<and> length calls \<le> 1 \<and>
      (\<forall>c \<in> set calls. 0 < chargeAmount cfg ord \<and> gc_amount c = chargeAmount cfg ord \<and> gc_orderId c = o_id (fst ord)))"
proof -
  let ?ord = "((fst ord)\<lparr>o_taxTotal := vo_taxTotal (afterHooks cfg ord),
    o_discountTotal := vo_discountTotal (afterHooks cfg ord)\<rparr>, snd ord)"
  have amt: "orderAmountMinor ?ord = max 0 (chargeAmount cfg ord)" by (simp add: orderAmountMinor_def chargeAmount_def)
  have log: "wp (pp_authorize (selectProvider pcfg api) ?ord)
      (\<lambda>_ w'. \<exists>calls. gatewayLog w' = gatewayLog w @ calls \<and> length calls \<le> 1 \<and>
        (\<forall>c \<in> set calls. 0 < chargeAmount cfg ord \<and> gc_amount c = chargeAmount cfg ord \<and>
          gc_orderId c = o_id (fst ord))) (\<lambda>_ _. False) w"
  proof (rule wp_mono [OF authorize_calls], goal_cases)
    case (1 x w')
    then show ?case unfolding amt by (auto simp: max_def split: if_splits)
  qed simp
  have "wp (evaluate cfg (selectProvider pcfg api) ord)
      (\<lambda>_ w'. \<exists>calls. gatewayLog w' = gatewayLog w @ calls \<and> length calls \<le> 1 \<and>
        (\<forall>c \<in> set calls. 0 < chargeAmount cfg ord \<and> gc_amount c = chargeAmount cfg ord \<and> gc_orderId c = o_id (fst ord))) (\<lambda>_ _. False) w"
    unfolding evaluate_eq wp by (rule wp_mono [OF log]) simp_all
  from wp_conj [OF this selected.evaluate_rejection] obtain out w'
    where run: "evaluate cfg (selectProvider pcfg api) ord w = (Inr out, w')"
      and let_through: "vo_rejection out = None \<longleftrightarrow>
        vo_paymentStatus out = PaymentStatus.AUTHORIZED \<and> \<not> suspectedFraud (fst ord)"
      and totals: "vo_taxTotal out = mathRound (of_int (linesTotal (snd ord)) * vc_taxRate cfg)"
        "vo_discountTotal out = mathRound (of_int (linesTotal (snd ord)) * vc_promoPct cfg)"
      and calls: "\<exists>calls. gatewayLog w' = gatewayLog w @ calls \<and> length calls \<le> 1 \<and>
        (\<forall>c \<in> set calls. 0 < chargeAmount cfg ord \<and> gc_amount c = chargeAmount cfg ord \<and>
          gc_orderId c = o_id (fst ord))"
    by (auto elim!: wp_obtain)
  show ?thesis
    by (intro exI [of _ out] exI [of _ w'] conjI run let_through calls)
      (simp_all only: totals mathRound_bounds)
qed

definition demoGateway :: paymentConfig where
  "demoGateway = \<lparr>pc_provider = Some ''Stripe'', pc_stripe = \<lparr>sc_secretKey = Some ''sk'',
    sc_paymentMethod = ''pm'', sc_declinePaymentMethod = ''pm_no''\<rparr>\<rparr>"

definition demoApi :: stripeApi where
  "demoApi calls c = Inr \<lparr>so_id = ''pi'', so_status = ''requires_capture'', so_lastPaymentError = None\<rparr>"

lemma validation_outcome_witness:
  "\<exists>out w'. evaluate \<lparr>vc_taxRate = 8 / 100, vc_promoPct = 0\<rparr> (selectProvider demoGateway demoApi)
      (demoOrder, [demoLine]) demoWorld = (Inr out, w') \<and>
    \<bar>of_int (vo_taxTotal out) - 320\<bar> \<le> (1 / 2 :: rat)"
proof -
  have "of_int (linesTotal (snd (demoOrder, [demoLine]))) * vc_taxRate \<lparr>vc_taxRate = 8 / 100, vc_promoPct = 0\<rparr> = (320 :: rat)"
    by (simp add: linesTotal_def demoLine_def)
  then show ?thesis
    using validation_outcome [of "\<lparr>vc_taxRate = 8 / 100, vc_promoPct = 0\<rparr>" demoGateway demoApi
        "(demoOrder, [demoLine])" demoWorld]
    by metis
qed

end
