(* ===== verification/Commitments.thy ===== *)
theory Commitments
  imports Inventory
begin

text \<open>
  The invariant that ties the stock balances to the rows that justify them: the reserved balance of
  a position is the sum of its active reservations, the allocated balance the sum of its
  allocations that are not yet shipped or cancelled.  No source file states it; the order,
  sourcing, fulfillment and return services keep it together.  One lemma per kind of step
  (hold, release, commit, give up, ship) says that a movement followed by the matching row change keeps it.
\<close>

section \<open>Definitions\<close>

definition held :: "world \<Rightarrow> stockKey \<Rightarrow> int" where
  "held w k = sumWhere (\<lambda>r. rv_key r = k \<and> rv_status r = ACTIVE) rv_quantity (reservations w)"

definition openAllocation :: "allocation \<Rightarrow> bool" where
  "openAllocation a \<longleftrightarrow> al_status a \<in> {AllocationStatus.ALLOCATED, AllocationStatus.PICKED}"

definition committed :: "world \<Rightarrow> stockKey \<Rightarrow> int" where
  "committed w k = sumWhere (\<lambda>a. al_key a = k \<and> openAllocation a) al_quantity (allocations w)"

definition commitRows :: "world \<Rightarrow> bool" where
  "commitRows w \<longleftrightarrow>
    distinct (map rv_id (reservations w)) \<and> (\<forall>r \<in> set (reservations w). rv_id r < nextId w \<and> 0 < rv_quantity r) \<and>
    distinct (map al_id (allocations w)) \<and> (\<forall>a \<in> set (allocations w). al_id a < nextId w \<and> 0 < al_quantity a)"

definition commitInv :: "world \<Rightarrow> bool" where
  "commitInv w \<longleftrightarrow> snapshotsOk w \<and> commitRows w \<and>
    (\<lambda>k. bk_reserved (balance w k)) = held w \<and> (\<lambda>k. bk_allocated (balance w k)) = committed w"

section \<open>Lemmas\<close>

lemma commitInvD:
  "commitInv w \<Longrightarrow> snapshotsOk w" "commitInv w \<Longrightarrow> commitRows w"
  "commitInv w \<Longrightarrow> bk_reserved (balance w k) = held w k"
  "commitInv w \<Longrightarrow> bk_allocated (balance w k) = committed w k"
  by (simp_all add: commitInv_def fun_eq_iff)

lemma held_cong: "reservations w' = reservations w \<Longrightarrow> held w' = held w"
  by (simp add: held_def fun_eq_iff)

lemma committed_cong: "allocations w' = allocations w \<Longrightarrow> committed w' = committed w"
  by (simp add: committed_def fun_eq_iff)

lemma commitRows_cong:
  "commitRows w \<Longrightarrow> reservations w' = reservations w \<Longrightarrow> allocations w' = allocations w \<Longrightarrow>
    nextId w \<le> nextId w' \<Longrightarrow> commitRows w'"
  by (auto simp: commitRows_def intro: less_le_trans)

lemma commitInv_frame:
  assumes "commitInv w" "snapshots w' = snapshots w" "reservations w' = reservations w"
    "allocations w' = allocations w" "nextId w \<le> nextId w'"
  shows "commitInv w'"
  using assms view_cong(2,4) [OF assms(2)] held_cong [OF assms(3)] committed_cong [OF assms(4)]
    commitRows_cong [of w w']
  by (simp add: commitInv_def)

lemma commitInv_frame_simps [simp]:
  "commitInv (ledger_update f1 w) = commitInv w" "commitInv (orders_update f2 w) = commitInv w"
  "commitInv (orderLines_update f3 w) = commitInv w" "commitInv (orderEvents_update f4 w) = commitInv w"
  "commitInv (shipments_update f5 w) = commitInv w" "commitInv (returnRows_update f6 w) = commitInv w"
  "commitInv (returnLines_update f7 w) = commitInv w" "commitInv (inbounds_update f8 w) = commitInv w"
  "commitInv (outbox_update f9 w) = commitInv w" "commitInv (nextSeq_update f10 w) = commitInv w"
  "commitInv (cache_update f11 w) = commitInv w" "commitInv (published_update f12 w) = commitInv w"
  "commitInv (jobs_update f13 w) = commitInv w" "commitInv (clock_update f14 w) = commitInv w"
  "commitInv (gatewayLog_update f15 w) = commitInv w"
  by (simp_all add: commitInv_def commitRows_def held_def fun_eq_iff committed_def)

lemma commitInv_nextId: "commitInv w \<Longrightarrow> nextId w \<le> n \<Longrightarrow> commitInv (w\<lparr>nextId := n\<rparr>)"
  by (erule commitInv_frame) simp_all

lemma commitInv_invalidated: "commitInv w \<Longrightarrow> commitInv (invalidated t s w)"
  by (erule commitInv_frame) simp_all

text \<open>A movement together with the row change that justifies it.\<close>

lemma commitInv_step:
  assumes "commitInv w" "moved p w w1" "snapshotsOk w1"
    and "snapshots w2 = snapshots w1" "nextId w1 \<le> nextId w2" "commitRows w2"
    and "\<And>k. held w2 k = held w k + (if k = mv_key p then bk_reserved (deltaOf (mv_deltas p)) else 0)"
    and "\<And>k. committed w2 k = committed w k + (if k = mv_key p then bk_allocated (deltaOf (mv_deltas p)) else 0)"
  shows "commitInv w2"
proof -
  have b: "balance w2 = (balance w)(mv_key p := balance w (mv_key p) + deltaOf (mv_deltas p))"
    using assms(2) view_cong(2) [OF assms(4)] by (simp add: moved_def)
  have "snapshotsOk w2" using assms(3-5) view_cong(4) by blast
  moreover have "bk_reserved (balance w2 k) = held w2 k" "bk_allocated (balance w2 k) = committed w2 k" for k
    using assms(1,7,8) by (auto simp: b commitInv_def fun_eq_iff)
  ultimately show ?thesis using assms(6) by (auto simp: commitInv_def)
qed

text \<open>The row changes.\<close>

lemma held_append:
  "reservations w2 = reservations w @ [r] \<Longrightarrow> rv_status r = ACTIVE \<Longrightarrow>
    held w2 k = held w k + (if k = rv_key r then rv_quantity r else 0)"
  by (auto simp: held_def)

lemma committed_append:
  "allocations w2 = allocations w @ [a] \<Longrightarrow> openAllocation a \<Longrightarrow>
    committed w2 k = committed w k + (if k = al_key a then al_quantity a else 0)"
  by (auto simp: committed_def)

lemma held_close:
  assumes "commitRows w" "r \<in> set (reservations w)" "rv_status r = ACTIVE"
    and "reservations w2 = mapWhere (\<lambda>x. rv_id x = rv_id r) f (reservations w)" "rv_status (f r) \<noteq> ACTIVE"
  shows "held w2 k = held w k + (if k = rv_key r then - rv_quantity r else 0)"
proof -
  have "distinct (map rv_id (reservations w))" using assms(1) by (simp add: commitRows_def)
  from sumWhere_update_unique [OF this assms(2), of "\<lambda>r. rv_key r = k \<and> rv_status r = ACTIVE" rv_quantity f]
  show ?thesis using assms(3-5) by (auto simp: held_def)
qed

lemma committed_close:
  assumes "commitRows w" "a \<in> set (allocations w)" "openAllocation a"
    and "allocations w2 = mapWhere (\<lambda>x. al_id x = al_id a) f (allocations w)" "\<not> openAllocation (f a)"
  shows "committed w2 k = committed w k + (if k = al_key a then - al_quantity a else 0)"
proof -
  have "distinct (map al_id (allocations w))" using assms(1) by (simp add: commitRows_def)
  from sumWhere_update_unique [OF this assms(2), of "\<lambda>a. al_key a = k \<and> openAllocation a" al_quantity f]
  show ?thesis using assms(3-5) by (auto simp: committed_def)
qed

lemma commitRows_append_reservation:
  assumes "commitRows w" "reservations w2 = reservations w @ [r]" "allocations w2 = allocations w"
    and "nextId w \<le> rv_id r" "rv_id r < nextId w2" "0 < rv_quantity r"
  shows "commitRows w2"
  using assms by (fastforce simp: commitRows_def)

lemma commitRows_append_allocation:
  assumes "commitRows w" "allocations w2 = allocations w @ [a]" "reservations w2 = reservations w"
    and "nextId w \<le> al_id a" "al_id a < nextId w2" "0 < al_quantity a"
  shows "commitRows w2"
  using assms by (fastforce simp: commitRows_def)

lemma commitRows_update_reservations:
  assumes "commitRows w" "reservations w2 = mapWhere P f (reservations w)" "allocations w2 = allocations w"
    and "nextId w \<le> nextId w2" "\<And>r. rv_id (f r) = rv_id r" "\<And>r. rv_quantity (f r) = rv_quantity r"
  shows "commitRows w2"
  using assms by (fastforce simp: commitRows_def map_mapWhere_frame set_mapWhere split: if_splits)

lemma commitRows_update_allocations:
  assumes "commitRows w" "allocations w2 = mapWhere P f (allocations w)" "reservations w2 = reservations w"
    and "nextId w \<le> nextId w2" "\<And>r. al_id (f r) = al_id r" "\<And>r. al_quantity (f r) = al_quantity r"
  shows "commitRows w2"
  using assms by (fastforce simp: commitRows_def map_mapWhere_frame set_mapWhere split: if_splits)

text \<open>The four kinds of steps.\<close>

lemma moved_rows:
  assumes "moved p w w1"
  shows "reservations w1 = reservations w" "allocations w1 = allocations w" "nextId w \<le> nextId w1"
  using assms stockOnly_sel [of w w1] by (simp_all add: moved_def)

lemma commitInv_hold:
  assumes "commitInv w" "moved p w w1" "snapshotsOk w1" "deltaOf (mv_deltas p) = Buckets 0 q 0 0 0"
    and "rv_key r = mv_key p" "rv_quantity r = q" "rv_status r = ACTIVE" "rv_id r = nextId w1" "0 < q"
    and "w2 = w1\<lparr>nextId := Suc (nextId w1), reservations := reservations w1 @ [r]\<rparr>"
  shows "commitInv w2"
proof (rule commitInv_step [OF assms(1-3)])
  note m = moved_rows [OF assms(2)]
  show "commitRows w2"
    using commitRows_append_reservation [OF commitInvD(2) [OF assms(1)], of w2 r] assms m by simp
  show "held w2 k = held w k + (if k = mv_key p then bk_reserved (deltaOf (mv_deltas p)) else 0)" for k
    using held_append [of w2 w r k] assms m by simp
  show "committed w2 k = committed w k + (if k = mv_key p then bk_allocated (deltaOf (mv_deltas p)) else 0)" for k
    using committed_cong [of w2 w] assms m by simp
qed (simp_all add: assms)

lemma commitInv_commit:
  assumes "commitInv w" "moved p w w1" "snapshotsOk w1" "deltaOf (mv_deltas p) = Buckets 0 0 q 0 0"
    and "al_key a = mv_key p" "al_quantity a = q" "openAllocation a" "al_id a = nextId w1" "0 < q"
    and "w2 = w1\<lparr>nextId := Suc (nextId w1), allocations := allocations w1 @ [a]\<rparr>"
  shows "commitInv w2"
proof (rule commitInv_step [OF assms(1-3)])
  note m = moved_rows [OF assms(2)]
  show "commitRows w2"
    using commitRows_append_allocation [OF commitInvD(2) [OF assms(1)], of w2 a] assms m by simp
  show "held w2 k = held w k + (if k = mv_key p then bk_reserved (deltaOf (mv_deltas p)) else 0)" for k
    using held_cong [of w2 w] assms m by simp
  show "committed w2 k = committed w k + (if k = mv_key p then bk_allocated (deltaOf (mv_deltas p)) else 0)" for k
    using committed_append [of w2 w a k] assms m by simp
qed (simp_all add: assms)

lemma commitInv_release:
  assumes "commitInv w" "moved p w w1" "snapshotsOk w1"
    and "r \<in> set (reservations w)" "rv_status r = ACTIVE" "st \<noteq> ACTIVE"
    and "deltaOf (mv_deltas p) = Buckets 0 (- rv_quantity r) 0 0 0" "rv_key r = mv_key p"
    and "w2 = w1\<lparr>reservations := mapWhere (\<lambda>x. rv_id x = rv_id r) (rv_status_update (\<lambda>_. st)) (reservations w1)\<rparr>"
  shows "commitInv w2"
proof (rule commitInv_step [OF assms(1-3)])
  note m = moved_rows [OF assms(2)] and rows = commitInvD(2) [OF assms(1)]
  show "commitRows w2"
    using commitRows_update_reservations [OF rows, of w2 "\<lambda>x. rv_id x = rv_id r" "rv_status_update (\<lambda>_. st)"]
      assms m by simp
  show "held w2 k = held w k + (if k = mv_key p then bk_reserved (deltaOf (mv_deltas p)) else 0)" for k
    using held_close [OF rows assms(4,5), of w2 "rv_status_update (\<lambda>_. st)" k] assms m by simp
  show "committed w2 k = committed w k + (if k = mv_key p then bk_allocated (deltaOf (mv_deltas p)) else 0)" for k
    using committed_cong [of w2 w] assms m by simp
qed (simp_all add: assms)

lemma findSnapshot_iff: "findSnapshot k w \<noteq> None \<longleftrightarrow> k \<in> sn_key ` set (snapshots w)"
  by (auto simp: findSnapshot_def find_None_iff)

lemma moved_found: "moved p w w1 \<Longrightarrow> findSnapshot k w \<noteq> None \<Longrightarrow> findSnapshot k w1 \<noteq> None"
  unfolding findSnapshot_iff by (simp add: moved_def)

text \<open>An allocation ends: cancelled (only the allocated balance falls) or shipped (on hand too).\<close>

lemma commitInv_close_allocation:
  assumes "commitInv w" "moved p w w1" "snapshotsOk w1"
    and "a \<in> set (allocations w)" "openAllocation a" "\<not> openAllocation (f a)"
    and "bk_allocated (deltaOf (mv_deltas p)) = - al_quantity a" "bk_reserved (deltaOf (mv_deltas p)) = 0"
    and "al_key a = mv_key p" "\<And>r. al_id (f r) = al_id r" "\<And>r. al_quantity (f r) = al_quantity r"
    and "w2 = w1\<lparr>allocations := mapWhere (\<lambda>x. al_id x = al_id a) f (allocations w1)\<rparr>"
  shows "commitInv w2"
proof (rule commitInv_step [OF assms(1-3)])
  note m = moved_rows [OF assms(2)] and rows = commitInvD(2) [OF assms(1)]
  show "commitRows w2"
    using commitRows_update_allocations [OF rows, of w2 "\<lambda>x. al_id x = al_id a" f] assms m by simp
  show "held w2 k = held w k + (if k = mv_key p then bk_reserved (deltaOf (mv_deltas p)) else 0)" for k
    using held_cong [of w2 w] assms m by simp
  show "committed w2 k = committed w k + (if k = mv_key p then bk_allocated (deltaOf (mv_deltas p)) else 0)" for k
    using committed_close [OF rows assms(4,5), of w2 f k] assms m by simp
qed (simp_all add: assms)

text \<open>A movement that touches neither balance.\<close>

lemma commitInv_neutral:
  assumes "commitInv w" "moved p w w1" "snapshotsOk w1"
    and "bk_reserved (deltaOf (mv_deltas p)) = 0" "bk_allocated (deltaOf (mv_deltas p)) = 0"
  shows "commitInv w1"
  using moved_rows [OF assms(2)] commitInvD(2) [OF assms(1)] commitRows_cong [of w w1]
    held_cong [of w1 w] committed_cong [of w1 w] assms(4,5)
  by (intro commitInv_step [OF assms(1-3)]) simp_all

lemma commitInv_untouched: "commitInv w \<Longrightarrow> untouched w w' \<Longrightarrow> commitInv w'"
  using stockOnly_sel [of w w'] held_cong [of w' w] committed_cong [of w' w] commitRows_cong [of w w']
  by (simp add: untouched_def commitInv_def)

lemma keeps_commit_applyWithin:
  assumes "bk_reserved (deltaOf (mv_deltas p)) = 0" "bk_allocated (deltaOf (mv_deltas p)) = 0"
  shows "keeps commitInv (applyWithin p)"
proof (rule keeps_intro)
  fix w assume w: "commitInv w"
  show "wp (applyWithin p) (\<lambda>_. commitInv) (\<lambda>_. commitInv) w"
    using commitInvD(1) [OF w]
    by (rule wp_applyWithin) (use assms w in \<open>auto intro: commitInv_neutral commitInv_untouched\<close>)
qed

lemma keeps_commit_invalidate [keepsI]: "keeps commitInv (invalidate t s)"
  by (rule keeps_intro) (simp add: wp commitInv_invalidated)

lemma keeps_commit_freshId [keepsI]: "keeps commitInv freshId"
  by (rule keeps_intro) (simp add: wp commitInv_nextId)

lemma keeps_commit_applyMovement:
  assumes "bk_reserved (deltaOf (mv_deltas p)) = 0" "bk_allocated (deltaOf (mv_deltas p)) = 0"
  shows "keeps commitInv (applyMovement p)"
  unfolding applyMovement_def by (intro keepsI keeps_commit_applyWithin assms)

end
