(* ===== verification/Retry.thy ===== *)
theory Retry
  imports Prelude
begin

text \<open>
  backend/src/common/retry.util.ts: running an operation again when it fails on a transient
  contention conflict.  Between two attempts the code sleeps, and other requests may commit:
  the argument \<open>env\<close> is what they do to the state after attempt \<open>n\<close>.
\<close>

section \<open>Definitions\<close>

fun isRetryable :: "err \<Rightarrow> bool" where
  "isRetryable (Conflict m) = True"
| "isRetryable (PrismaKnown code pg) =
    (code = ''P2034'' \<or> (case pg of None \<Rightarrow> False | Some c \<Rightarrow> c \<in> {''40001'', ''40P01''}))"
| "isRetryable _ = False"

text \<open>The loop from a given attempt on; \<open>lastErr\<close> is what is thrown after it (\<open>attempts < 1\<close> only).\<close>

function retryFrom ::
  "nat \<Rightarrow> nat \<Rightarrow> (nat \<Rightarrow> 's \<Rightarrow> 's) \<Rightarrow> ('s, 'a) op \<Rightarrow> err \<Rightarrow> ('s, 'a) op" where
  "retryFrom attempt attempts env fn lastErr s =
    (if attempts < attempt then (Inl lastErr, s)
     else case fn s of
       (Inr x, s') \<Rightarrow> (Inr x, s')
     | (Inl e, s') \<Rightarrow>
         if \<not> isRetryable e \<or> attempt = attempts then (Inl e, s')
         else retryFrom (Suc attempt) attempts env fn e (env attempt s'))"
  by pat_completeness auto
termination
  by (relation "measure (\<lambda>(a, n, _). Suc n - a)") auto

declare retryFrom.simps [simp del]

definition retryOnConflict :: "nat \<Rightarrow> (nat \<Rightarrow> 's \<Rightarrow> 's) \<Rightarrow> ('s, 'a) op \<Rightarrow> ('s, 'a) op" where
  "retryOnConflict attempts env fn = retryFrom 1 attempts env fn (OtherError ''undefined'')"

definition defaultAttempts :: nat where
  "defaultAttempts = 4"

section \<open>Lemmas\<close>

text \<open>The state in which attempt \<open>n + 1\<close> starts when the first \<open>n\<close> failed.\<close>

fun attemptState :: "(nat \<Rightarrow> 's \<Rightarrow> 's) \<Rightarrow> ('s, 'a) op \<Rightarrow> nat \<Rightarrow> 's \<Rightarrow> 's" where
  "attemptState env fn 0 s = s"
| "attemptState env fn (Suc n) s = env (Suc n) (snd (fn (attemptState env fn n s)))"

definition failsRetryably :: "('s, 'a) op \<Rightarrow> 's \<Rightarrow> bool" where
  "failsRetryably fn s = (case fst (fn s) of Inl e \<Rightarrow> isRetryable e | Inr _ \<Rightarrow> False)"

lemma retryFrom_iff:
  assumes "k < attempts"
    and "\<And>i. i < k \<Longrightarrow> failsRetryably fn (attemptState env fn i s)"
  shows "retryFrom (Suc k) attempts env fn e0 (attemptState env fn k s) = (r, t) \<longleftrightarrow>
    (\<exists>n. k \<le> n \<and> n < attempts \<and> (\<forall>i < n. failsRetryably fn (attemptState env fn i s)) \<and>
      fn (attemptState env fn n s) = (r, t) \<and>
      (n = attempts - 1 \<or> \<not> failsRetryably fn (attemptState env fn n s)))"
  using assms
proof (induction "attempts - k" arbitrary: k e0)
  case 0
  then show ?case by simp
next
  case (Suc d)
  let ?s = "attemptState env fn k s"
  obtain r' t' where rt: "fn ?s = (r', t')" by fastforce
  show ?case
  proof (cases "failsRetryably fn ?s \<and> Suc k \<noteq> attempts")
    case True
    then obtain e where r': "r' = Inl e" "isRetryable e"
      using rt by (auto simp: failsRetryably_def split: sum.splits)
    have step: "retryFrom (Suc k) attempts env fn e0 ?s =
        retryFrom (Suc (Suc k)) attempts env fn e (attemptState env fn (Suc k) s)"
      using True rt r' Suc.prems(1) by (subst retryFrom.simps) simp
    have fails: "failsRetryably fn (attemptState env fn i s)" if "i < Suc k" for i
      using that True Suc.prems(2) by (auto simp: less_Suc_eq)
    have bound: "Suc k < attempts" using True Suc.prems(1) by simp
    have "d = attempts - Suc k" using Suc.hyps(2) by simp
    from Suc.hyps(1) [OF this bound fails, of e]
    have "retryFrom (Suc k) attempts env fn e0 ?s = (r, t) \<longleftrightarrow>
      (\<exists>n. Suc k \<le> n \<and> n < attempts \<and> (\<forall>i < n. failsRetryably fn (attemptState env fn i s)) \<and>
      fn (attemptState env fn n s) = (r, t) \<and>
      (n = attempts - 1 \<or> \<not> failsRetryably fn (attemptState env fn n s)))"
      unfolding step by simp
    moreover have "k \<le> n \<and> (n = attempts - 1 \<or> \<not> failsRetryably fn (attemptState env fn n s)) \<longleftrightarrow>
        Suc k \<le> n \<and> (n = attempts - 1 \<or> \<not> failsRetryably fn (attemptState env fn n s))" for n
      using True Suc.prems(1) by (cases "n = k") auto
    ultimately show ?thesis by blast
  next
    case False
    then have here: "retryFrom (Suc k) attempts env fn e0 ?s = (r', t')"
      using rt Suc.prems(1)
      by (subst retryFrom.simps) (auto simp: failsRetryably_def split: sum.splits)
    have only: "n = k" if "k \<le> n" "n < attempts"
        "\<forall>i < n. failsRetryably fn (attemptState env fn i s)" for n
    proof (rule ccontr)
      assume "n \<noteq> k"
      then have "k < n" using that(1) by simp
      then have "failsRetryably fn ?s" "Suc k \<noteq> attempts" using that(2,3) by auto
      then show False using False by simp
    qed
    have stop: "k = attempts - 1 \<or> \<not> failsRetryably fn ?s" using False by auto
    have "(\<exists>n. k \<le> n \<and> n < attempts \<and> (\<forall>i < n. failsRetryably fn (attemptState env fn i s)) \<and>
        fn (attemptState env fn n s) = (r, t) \<and>
        (n = attempts - 1 \<or> \<not> failsRetryably fn (attemptState env fn n s))) \<longleftrightarrow> (r', t') = (r, t)"
      (is "?L \<longleftrightarrow> ?R")
    proof
      assume ?L
      then obtain n where n: "k \<le> n" "n < attempts"
          "\<forall>i < n. failsRetryably fn (attemptState env fn i s)" "fn (attemptState env fn n s) = (r, t)"
        by auto
      with only [of n] rt show ?R by simp
    next
      assume ?R
      with rt stop Suc.prems show ?L by (intro exI [of _ k]) simp
    qed
    then show ?thesis using here by simp
  qed
qed

lemma retryOnConflict_iff:
  assumes "0 < attempts"
  shows "retryOnConflict attempts env fn s = (r, t) \<longleftrightarrow>
    (\<exists>n < attempts. (\<forall>i < n. failsRetryably fn (attemptState env fn i s)) \<and>
      fn (attemptState env fn n s) = (r, t) \<and>
      (n = attempts - 1 \<or> \<not> failsRetryably fn (attemptState env fn n s)))"
  using retryFrom_iff [of 0 attempts fn env s "OtherError ''undefined''" r t] assms
  by (simp add: retryOnConflict_def)

text \<open>Invariance: what the operation and the other requests keep, the retried operation keeps.\<close>

lemma keeps_snd: "keeps I fn \<Longrightarrow> I s \<Longrightarrow> I (snd (fn s))"
  by (rule keepsD [of I fn s "fst (fn s)"]) simp_all

lemma attemptState_keeps:
  assumes "keeps I fn" "\<And>n s. I s \<Longrightarrow> I (env n s)" "I s"
  shows "I (attemptState env fn n s)"
  using assms by (induction n) (simp_all add: keeps_snd)

lemma keeps_retryOnConflict:
  assumes "keeps I fn" "\<And>n s. I s \<Longrightarrow> I (env n s)" "0 < attempts"
  shows "keeps I (retryOnConflict attempts env fn)"
proof (rule keeps_intro)
  fix s assume s: "I s"
  have "I t" if run: "retryOnConflict attempts env fn s = (r, t)" for r t
  proof -
    obtain n where n: "fn (attemptState env fn n s) = (r, t)"
      using run retryOnConflict_iff [OF assms(3), of env fn s r t] by auto
    have "I (attemptState env fn n s)" using assms(1,2) s by (rule attemptState_keeps)
    then show ?thesis using keepsD [OF assms(1) _ n] by simp
  qed
  then show "wp (retryOnConflict attempts env fn) (\<lambda>_. I) (\<lambda>_. I) s" by (simp add: wp_iff)
qed

text \<open>An operation whose errors are not retried runs once, whatever the others do.\<close>

lemma wp_retry_once:
  assumes "wp fn Q E s" "\<And>e s'. E e s' \<Longrightarrow> \<not> isRetryable e" "0 < attempts"
  shows "wp (retryOnConflict attempts env fn) Q E s"
proof -
  have once: "fn s = (r, t)" if run: "retryOnConflict attempts env fn s = (r, t)" for r t
  proof -
    obtain n where n: "\<forall>i < n. failsRetryably fn (attemptState env fn i s)" "fn (attemptState env fn n s) = (r, t)"
      using run retryOnConflict_iff [OF assms(3), of env fn s r t] by auto
    have "\<not> failsRetryably fn s"
      using assms(1,2) by (cases "fn s") (auto simp: failsRetryably_def wp_def split: sum.splits)
    then have "n = 0" using n(1) by (cases n) auto
    then show ?thesis using n(2) by simp
  qed
  then show ?thesis using assms(1) by (simp add: wp_iff)
qed

end
