(* ===== verification/Reservations.thy ===== *)
theory Reservations
  imports Commitments Retry
begin

text \<open>
  backend/src/orders/reservations.service.ts and reservation.processor.ts: soft holds with a time
  to live.  \<open>planLine\<close> picks the nodes for a line, \<open>reserveForOrder\<close> takes the holds of all lines in
  one retried transaction, \<open>release\<close> gives one back, the sweep and the delayed jobs expire them.
  The lemmas show that a plan can always be applied (so a reservation fails only for lack of
  stock), that the holds of an order cover its lines, and that holds and reserved balances agree.
\<close>

section \<open>Definitions\<close>

record planLeg =
  pl_locationId :: ident
  pl_quantity :: int

record planCandidate =
  cd_locationId :: ident
  cd_available :: int
  cd_priority :: int

definition findOrder :: "ident \<Rightarrow> world \<Rightarrow> order option" where
  "findOrder i w = find (\<lambda>ol. o_id ol = i) (orders w)"

definition linesOf :: "ident \<Rightarrow> world \<Rightarrow> orderLine list" where
  "linesOf i w = filter (\<lambda>l. ol_orderId l = i) (orderLines w)"

definition findLocation :: "ident \<Rightarrow> world \<Rightarrow> location option" where
  "findLocation i w = find (\<lambda>l. lo_id l = i) (locations w)"

text \<open>The snapshots of the SKU at active ship-from nodes, with the node's priority.\<close>

definition planCandidates :: "ident \<Rightarrow> ident \<Rightarrow> world \<Rightarrow> planCandidate list" where
  "planCandidates tenantId skuId w =
    filter (\<lambda>c. 0 < cd_available c)
      (List.map_filter (\<lambda>s. case findLocation (sn_locationId s) w of
          None \<Rightarrow> None
        | Some l \<Rightarrow> if lo_active l \<and> lo_shipFromEnabled l
            then Some \<lparr>cd_locationId = sn_locationId s,
              cd_available = bk_onHand (sn_bal s) - bk_reserved (sn_bal s) - bk_allocated (sn_bal s) - sn_safetyStock s,
              cd_priority = lo_fulfillmentPriority l\<rparr>
            else None)
        (filter (\<lambda>s. sn_tenantId s = tenantId \<and> sn_skuId s = skuId) (snapshots w)))"

definition planOrder :: "planCandidate \<Rightarrow> planCandidate \<Rightarrow> int" where
  "planOrder a b = falsyOr (cd_priority a - cd_priority b) (cd_available b - cd_available a)"

fun greedyPlan :: "int \<Rightarrow> planCandidate list \<Rightarrow> planLeg list" where
  "greedyPlan remaining [] = []"
| "greedyPlan remaining (c # cs) =
    (if remaining \<le> 0 then []
     else (let n = min remaining (cd_available c)
           in \<lparr>pl_locationId = cd_locationId c, pl_quantity = n\<rparr> # greedyPlan (remaining - n) cs))"

definition planLine :: "ident \<Rightarrow> ident \<Rightarrow> int \<Rightarrow> world \<Rightarrow> planLeg list" where
  "planLine tenantId skuId quantity w =
    greedyPlan quantity (jsSort planOrder (planCandidates tenantId skuId w))"

definition planned :: "planLeg list \<Rightarrow> int" where
  "planned legs = sum_list (map pl_quantity legs)"

definition holdParams :: "order \<Rightarrow> orderLine \<Rightarrow> planLeg \<Rightarrow> movementParams" where
  "holdParams ord line leg =
    (baseMovement (o_tenantId ord) (ol_skuId line) (pl_locationId leg) RESERVE
       (noDeltas\<lparr>bd_reserved := Some (pl_quantity leg)\<rparr>))
      \<lparr>mv_requireAvailable := True, mv_referenceType := Some ''order'', mv_referenceId := Some (o_id ord)\<rparr>"

definition holdRow :: "order \<Rightarrow> orderLine \<Rightarrow> planLeg \<Rightarrow> int \<Rightarrow> ident \<Rightarrow> reservation" where
  "holdRow ord line leg expiresAt i =
    \<lparr>rv_id = i, rv_tenantId = o_tenantId ord, rv_skuId = ol_skuId line, rv_locationId = pl_locationId leg,
     rv_orderId = Some (o_id ord), rv_orderLineId = Some (ol_id line), rv_quantity = pl_quantity leg,
     rv_status = ACTIVE, rv_expiresAt = expiresAt\<rparr>"

definition holdLeg :: "order \<Rightarrow> orderLine \<Rightarrow> int \<Rightarrow> planLeg \<Rightarrow> (world, reservation list) op" where
  "holdLeg ord line expiresAt leg =
    andThen (applyWithin (holdParams ord line leg))
    (bind freshId (\<lambda>i.
     bind (createRow reservations reservations_update (holdRow ord line leg expiresAt i)) (\<lambda>r. ret [r])))"

definition reserveLine :: "int \<Rightarrow> order \<Rightarrow> orderLine \<Rightarrow> (world, reservation list) op" where
  "reserveLine ttlSeconds ord line =
    bind (gets (planLine (o_tenantId ord) (ol_skuId line) (ol_quantity line))) (\<lambda>plan.
    andThen (throwIf (planned plan < ol_quantity line \<and> \<not> o_allowBackorder ord) (BadRequest ''Cannot reserve''))
    (bind now (\<lambda>ts.
     collect plan (holdLeg ord line (ts + ttlSeconds * 1000)))))"

definition scheduleExpiry :: "reservation \<Rightarrow> (world, unit) op" where
  "scheduleExpiry r = bind now (\<lambda>ts. modify (\<lambda>w.
    if list_ex (\<lambda>j. ej_reservationId j = rv_id r) (jobs w) then w
    else w\<lparr>jobs := jobs w @ [\<lparr>ej_reservationId = rv_id r, ej_tenantId = rv_tenantId r,
           ej_delay = max 0 (rv_expiresAt r - ts)\<rparr>]\<rparr>))"

definition reserveForOrder ::
  "int \<Rightarrow> (nat \<Rightarrow> world \<Rightarrow> world) \<Rightarrow> ident \<Rightarrow> (world, reservation list) op" where
  "reserveForOrder ttlSeconds env orderId =
    bind (gets (findOrder orderId)) (\<lambda>found.
    bind (orThrow found (PrismaKnown ''P2025'' None)) (\<lambda>ord.
    bind (gets (linesOf orderId)) (\<lambda>lines.
    bind (retryOnConflict defaultAttempts env
       (transaction (collect lines (reserveLine ttlSeconds ord)))) (\<lambda>created.
    andThen (forEach (uniq (map rv_skuId created)) (invalidate (o_tenantId ord)))
    (andThen (forEach created scheduleExpiry)
    (ret created))))))"

definition findReservation :: "ident \<Rightarrow> world \<Rightarrow> reservation option" where
  "findReservation i w = find (\<lambda>r. rv_id r = i) (reservations w)"

definition releaseParams :: "reservation \<Rightarrow> movementParams" where
  "releaseParams r =
    (baseMovement (rv_tenantId r) (rv_skuId r) (rv_locationId r) RELEASE_RESERVE
       (noDeltas\<lparr>bd_reserved := Some (- rv_quantity r)\<rparr>))
      \<lparr>mv_referenceType := Some ''reservation'', mv_referenceId := Some (rv_id r)\<rparr>"

definition releaseTx :: "ident \<Rightarrow> ReservationStatus \<Rightarrow> (world, reservation option) op" where
  "releaseTx reservationId status =
    bind (gets (findReservation reservationId)) (\<lambda>found.
    case found of
      None \<Rightarrow> ret None
    | Some r \<Rightarrow>
        if rv_status r \<noteq> ACTIVE then ret None
        else andThen (applyWithin (releaseParams r))
          (andThen (updateRow reservations reservations_update (\<lambda>x. rv_id x = rv_id r) (rv_status_update (\<lambda>_. status)))
          (ret (Some r))))"

definition release :: "ident \<Rightarrow> ReservationStatus \<Rightarrow> (world, bool) op" where
  "release reservationId status =
    bind (transaction (releaseTx reservationId status)) (\<lambda>released.
    case released of
      Some r \<Rightarrow> andThen (invalidate (rv_tenantId r) (rv_skuId r)) (ret True)
    | None \<Rightarrow> ret False)"

definition releaseForOrder :: "ident \<Rightarrow> (world, unit) op" where
  "releaseForOrder orderId =
    bind (gets (\<lambda>w. map rv_id (filter (\<lambda>r. rv_orderId r = Some orderId \<and> rv_status r = ACTIVE) (reservations w))))
      (\<lambda>active. forEach active (\<lambda>i. andThen (release i ReservationStatus.RELEASED) (ret ())))"

definition sweepExpired :: "int \<Rightarrow> (world, int) op" where
  "sweepExpired time =
    bind (gets (\<lambda>w. map rv_id (filter (\<lambda>r. rv_status r = ACTIVE \<and> rv_expiresAt r \<le> time) (reservations w))))
      (\<lambda>due. bind (collect due (\<lambda>i. bind (release i EXPIRED) (\<lambda>b. ret (if b then [()] else []))))
        (\<lambda>swept. ret (int (length swept))))"

datatype reservationJob = ExpireOne (rj_reservationId: ident) | Sweep | UnknownJob
datatype jobResult = Released ident bool | Swept int | NoResult

fun process :: "reservationJob \<Rightarrow> (world, jobResult) op" where
  "process (ExpireOne i) = bind (release i EXPIRED) (\<lambda>b. ret (Released i b))"
| "process Sweep = bind now (\<lambda>ts. bind (sweepExpired ts) (\<lambda>n. ret (Swept n)))"
| "process UnknownJob = ret NoResult"

section \<open>Lemmas on plans\<close>

interpretation planOrder: js_comparator planOrder
proof -
  have eq: "planOrder = (\<lambda>a b. falsyOr (cd_priority a - cd_priority b) ((- cd_available a) - (- cd_available b)))"
    by (simp add: fun_eq_iff planOrder_def)
  show "js_comparator planOrder"
    unfolding eq by (rule js_comparator_falsyOr; rule js_comparator_diff)
qed

lemma greedyPlan_bounds:
  assumes "\<forall>c \<in> set cs. 0 < cd_available c"
  shows "\<forall>l \<in> set (greedyPlan n cs). 0 < pl_quantity l \<and>
    (\<exists>c \<in> set cs. cd_locationId c = pl_locationId l \<and> pl_quantity l \<le> cd_available c)"
  using assms by (induction cs arbitrary: n) (auto simp: Let_def)

lemma greedyPlan_locations:
  "set (map pl_locationId (greedyPlan n cs)) \<subseteq> set (map cd_locationId cs)"
proof (induction cs arbitrary: n)
  case (Cons c cs)
  then show ?case using Cons.IH [of "n - min n (cd_available c)"] by (auto simp: Let_def)
qed simp

lemma greedyPlan_distinct:
  "distinct (map cd_locationId cs) \<Longrightarrow> distinct (map pl_locationId (greedyPlan n cs))"
proof (induction cs arbitrary: n)
  case (Cons c cs)
  then show ?case
    using greedyPlan_locations [of "n - min n (cd_available c)" cs] by (auto simp: Let_def)
qed simp

lemma greedyPlan_total:
  assumes "\<forall>c \<in> set cs. 0 < cd_available c" "0 \<le> n"
  shows "planned (greedyPlan n cs) = min n (sum_list (map cd_available cs))"
  using assms
proof (induction cs arbitrary: n)
  case (Cons c cs)
  have "0 \<le> sum_list (map cd_available cs)"
    using Cons.prems(1) by (intro sum_list_nonneg) (auto simp: less_imp_le)
  then show ?case
    using Cons.prems Cons.IH [of "n - min n (cd_available c)"] by (auto simp: planned_def Let_def)
qed (simp add: planned_def)

text \<open>What a plan is made of.\<close>

lemma planCandidates_row:
  assumes ok: "snapshotsOk w" and c: "c \<in> set (planCandidates t s w)"
  shows "cd_available c = availableAt w (t, s, cd_locationId c)" and "0 < cd_available c"
    and "findSnapshot (t, s, cd_locationId c) w \<noteq> None"
proof -
  obtain r where r: "r \<in> set (snapshots w)" "sn_tenantId r = t" "sn_skuId r = s" "sn_locationId r = cd_locationId c"
    and av: "cd_available c = bk_onHand (sn_bal r) - bk_reserved (sn_bal r) - bk_allocated (sn_bal r) - sn_safetyStock r"
    and pos: "0 < cd_available c"
    using c by (auto simp: planCandidates_def List.map_filter_def split: option.splits if_splits)
  then have k: "sn_key r = (t, s, cd_locationId c)" by (simp add: sn_key_def)
  show "cd_available c = availableAt w (t, s, cd_locationId c)"
    using balance_row [OF ok r(1)] safetyOf_row [OF ok r(1)] av
    by (simp add: k availableAt_def availableOf_def)
  show "0 < cd_available c" by (rule pos)
  show "findSnapshot (t, s, cd_locationId c) w \<noteq> None"
    using findSnapshot_unique [OF ok r(1)] by (simp add: k)
qed

lemma planCandidates_distinct:
  assumes "snapshotsOk w"
  shows "distinct (map cd_locationId (planCandidates t s w))"
proof -
  have gen: "distinct (map g (filter p (List.map_filter f rs)))"
    if d: "distinct (map h rs)" and fh: "\<And>r c. f r = Some c \<Longrightarrow> g c = h r"
    for f :: "snapshotRow \<Rightarrow> planCandidate option" and g :: "planCandidate \<Rightarrow> ident" and h p rs
  proof -
    have "map g (List.map_filter f rs) = map h (filter (\<lambda>r. f r \<noteq> None) rs)"
      using fh by (auto simp: List.map_filter_def)
    then have "distinct (map g (List.map_filter f rs))" using distinct_map_filter [OF d] by simp
    then show ?thesis by (rule distinct_map_filter)
  qed
  have locs: "distinct (map sn_locationId (filter (\<lambda>r. sn_tenantId r = t \<and> sn_skuId r = s) (snapshots w)))"
  proof -
    let ?rs = "filter (\<lambda>r. sn_tenantId r = t \<and> sn_skuId r = s) (snapshots w)"
    have "distinct (map sn_key ?rs)" using assms by (simp add: snapshotsOk_def distinct_map_filter)
    then show ?thesis by (auto simp: distinct_map inj_on_def sn_key_def)
  qed
  show ?thesis
    unfolding planCandidates_def by (rule gen [OF locs]) (auto split: option.splits if_splits)
qed

text \<open>What the network can promise: the positive availability of the nodes that may ship the SKU.\<close>

definition shipFrom :: "world \<Rightarrow> ident \<Rightarrow> bool" where
  "shipFrom w l \<longleftrightarrow> (case findLocation l w of None \<Rightarrow> False | Some lo \<Rightarrow> lo_active lo \<and> lo_shipFromEnabled lo)"

definition shipNodes :: "ident \<Rightarrow> ident \<Rightarrow> world \<Rightarrow> ident set" where
  "shipNodes t s w = {l. (t, s, l) \<in> sn_key ` set (snapshots w) \<and> shipFrom w l}"

definition networkAvailable :: "ident \<Rightarrow> ident \<Rightarrow> world \<Rightarrow> int" where
  "networkAvailable t s w = (\<Sum>l \<in> shipNodes t s w. max 0 (availableAt w (t, s, l)))"

lemma finite_shipNodes [simp]: "finite (shipNodes t s w)"
proof (rule finite_subset)
  show "shipNodes t s w \<subseteq> (\<lambda>k. snd (snd k)) ` (sn_key ` set (snapshots w))"
  proof
    fix l assume "l \<in> shipNodes t s w"
    then have "(t, s, l) \<in> sn_key ` set (snapshots w)" by (simp add: shipNodes_def)
    from imageI [OF this, of "\<lambda>k. snd (snd k)"]
    show "l \<in> (\<lambda>k. snd (snd k)) ` (sn_key ` set (snapshots w))" by simp
  qed
qed simp

lemma planCandidates_locations:
  assumes ok: "snapshotsOk w"
  shows "set (map cd_locationId (planCandidates t s w)) = {l \<in> shipNodes t s w. 0 < availableAt w (t, s, l)}"
    (is "?L = ?R")
proof
  show "?L \<subseteq> ?R"
  proof
    fix l assume "l \<in> ?L"
    then obtain c where c: "c \<in> set (planCandidates t s w)" "l = cd_locationId c" by auto
    have "shipFrom w l"
      using c by (auto simp: planCandidates_def List.map_filter_def shipFrom_def split: option.splits if_splits)
    then show "l \<in> ?R"
      using planCandidates_row [OF ok c(1)] c(2) findSnapshot_iff [of "(t, s, l)" w]
      by (simp add: shipNodes_def)
  qed
  show "?R \<subseteq> ?L"
  proof
    fix l assume l: "l \<in> ?R"
    then obtain r where r: "r \<in> set (snapshots w)" "sn_key r = (t, s, l)" by (auto simp: shipNodes_def)
    obtain lo where lo: "findLocation l w = Some lo" "lo_active lo" "lo_shipFromEnabled lo"
      using l by (auto simp: shipNodes_def shipFrom_def split: option.splits)
    have "bk_onHand (sn_bal r) - bk_reserved (sn_bal r) - bk_allocated (sn_bal r) - sn_safetyStock r > 0"
      using l balance_row [OF ok r(1)] safetyOf_row [OF ok r(1)] r(2)
      by (simp add: availableAt_def availableOf_def)
    then show "l \<in> ?L"
      using r lo by (fastforce simp: planCandidates_def List.map_filter_def sn_key_def image_iff)
  qed
qed

lemma planCandidates_total:
  assumes ok: "snapshotsOk w"
  shows "sum_list (map cd_available (planCandidates t s w)) = networkAvailable t s w"
proof -
  let ?cs = "planCandidates t s w" and ?h = "\<lambda>l. availableAt w (t, s, l)"
  have "map cd_available ?cs = map ?h (map cd_locationId ?cs)"
    using planCandidates_row(1) [OF ok] by simp
  then have "sum_list (map cd_available ?cs) = (\<Sum>l \<in> set (map cd_locationId ?cs). ?h l)"
    using planCandidates_distinct [OF ok, of t s] by (metis sum_list_distinct_conv_sum_set)
  also have "\<dots> = networkAvailable t s w"
    unfolding networkAvailable_def planCandidates_locations [OF ok]
    by (rule sum.mono_neutral_cong_left) auto
  finally show ?thesis .
qed

lemma planLine_spec:
  assumes ok: "snapshotsOk w"
  shows "\<forall>l \<in> set (planLine t s n w). 0 < pl_quantity l \<and>
      pl_quantity l \<le> availableAt w (t, s, pl_locationId l) \<and> pl_locationId l \<in> shipNodes t s w"
    and "distinct (map pl_locationId (planLine t s n w))"
    and "0 \<le> n \<Longrightarrow> planned (planLine t s n w) = min n (networkAvailable t s w)"
proof -
  let ?cs = "jsSort planOrder (planCandidates t s w)"
  have pos: "\<forall>c \<in> set ?cs. 0 < cd_available c" using planCandidates_row(2) [OF ok] by simp
  show "\<forall>l \<in> set (planLine t s n w). 0 < pl_quantity l \<and>
      pl_quantity l \<le> availableAt w (t, s, pl_locationId l) \<and> pl_locationId l \<in> shipNodes t s w"
  proof
    fix l assume "l \<in> set (planLine t s n w)"
    then obtain c where c: "0 < pl_quantity l" "c \<in> set (planCandidates t s w)"
        "cd_locationId c = pl_locationId l" "pl_quantity l \<le> cd_available c"
      using greedyPlan_bounds [OF pos, of n] by (auto simp: planLine_def)
    then have "pl_locationId l \<in> set (map cd_locationId (planCandidates t s w))" by (metis image_eqI list.set_map)
    then show "0 < pl_quantity l \<and> pl_quantity l \<le> availableAt w (t, s, pl_locationId l) \<and>
        pl_locationId l \<in> shipNodes t s w"
      using c planCandidates_row [OF ok c(2)] planCandidates_locations [OF ok, of t s] by auto
  qed
  show "distinct (map pl_locationId (planLine t s n w))"
    unfolding planLine_def using planCandidates_distinct [OF ok] by (intro greedyPlan_distinct) simp
  show "planned (planLine t s n w) = min n (networkAvailable t s w)" if "0 \<le> n"
    unfolding planLine_def greedyPlan_total [OF pos that] by (simp add: planCandidates_total [OF ok])
qed

text \<open>The plan respects the priorities: a node is used only when all nodes before it are used up.\<close>

lemma greedyPlan_take:
  assumes "\<forall>c \<in> set cs. 0 < cd_available c"
  shows "map pl_locationId (greedyPlan n cs) = map cd_locationId (take (length (greedyPlan n cs)) cs)"
    and "butlast (map pl_quantity (greedyPlan n cs)) = map cd_available (take (length (greedyPlan n cs) - 1) cs)"
  using assms
proof (induction cs arbitrary: n)
  case (Cons c cs)
  case 1
  then show ?case using Cons.IH(1) by (simp add: Let_def)
next
  case (Cons c cs)
  case 2
  let ?rest = "greedyPlan (n - min n (cd_available c)) cs"
  have "greedyPlan 0 cs = []" by (cases cs) simp_all
  then have none: "n \<le> cd_available c \<Longrightarrow> ?rest = []" by (simp add: min_def)
  show ?case
  proof (cases "?rest = []")
    case False
    then have "min n (cd_available c) = cd_available c" using none by linarith
    then show ?thesis using 2 False Cons.IH(2) [of "n - min n (cd_available c)"]
      by (cases "length ?rest") (auto simp: Let_def)
  qed (simp add: Let_def)
qed simp_all

section \<open>Taking holds\<close>

text \<open>Reserving changes the stock tables and appends to the reservations, nothing else.\<close>

definition holdsOnly :: "world \<Rightarrow> world \<Rightarrow> bool" where
  "holdsOnly w w' \<longleftrightarrow> nextId w \<le> nextId w' \<and>
    (\<exists>ss n ls rs. w' = w\<lparr>snapshots := ss, nextId := n, ledger := ls, reservations := rs\<rparr>)"

lemma holdsOnly_refl: "holdsOnly w w"
proof -
  have "w = w\<lparr>snapshots := snapshots w, nextId := nextId w, ledger := ledger w, reservations := reservations w\<rparr>"
    by simp
  then show ?thesis unfolding holdsOnly_def by blast
qed

lemma holdsOnly_trans: "holdsOnly u v \<Longrightarrow> holdsOnly v w \<Longrightarrow> holdsOnly u w"
proof -
  assume h: "holdsOnly u v" "holdsOnly v w"
  then obtain ss n ls rs ss' n' ls' rs' where
    "v = u\<lparr>snapshots := ss, nextId := n, ledger := ls, reservations := rs\<rparr>"
    "w = v\<lparr>snapshots := ss', nextId := n', ledger := ls', reservations := rs'\<rparr>"
    unfolding holdsOnly_def by blast
  then have "w = u\<lparr>snapshots := ss', nextId := n', ledger := ls', reservations := rs'\<rparr>" by simp
  moreover have "nextId u \<le> nextId w" using h unfolding holdsOnly_def by linarith
  ultimately show ?thesis unfolding holdsOnly_def by blast
qed

lemma stockOnly_holdsOnly: "stockOnly w w' \<Longrightarrow> holdsOnly w w'"
proof -
  assume s: "stockOnly w w'"
  then obtain ss n ls where w': "w' = w\<lparr>snapshots := ss, nextId := n, ledger := ls\<rparr>"
    unfolding stockOnly_def by blast
  have "w' = w\<lparr>snapshots := ss, nextId := n, ledger := ls, reservations := reservations w\<rparr>"
    unfolding w' by (rule world.equality) simp_all
  then show ?thesis using stockOnly_sel(1) [OF s] unfolding holdsOnly_def by blast
qed

lemma holdsOnly_append: "nextId w \<le> n \<Longrightarrow> holdsOnly w (w\<lparr>nextId := n, reservations := rs\<rparr>)"
proof -
  assume n: "nextId w \<le> n"
  have "w\<lparr>nextId := n, reservations := rs\<rparr> =
      w\<lparr>snapshots := snapshots w, nextId := n, ledger := ledger w, reservations := rs\<rparr>"
    by (rule world.equality) simp_all
  moreover have "nextId (w\<lparr>nextId := n, reservations := rs\<rparr>) = n" by simp
  ultimately show ?thesis using n unfolding holdsOnly_def by metis
qed

lemma holdsOnly_sel:
  assumes "holdsOnly w w'"
  shows "locations w' = locations w" "orders w' = orders w" "orderLines w' = orderLines w"
    "allocations w' = allocations w" "shipments w' = shipments w" "clock w' = clock w"
    "orderEvents w' = orderEvents w" "cache w' = cache w" "jobs w' = jobs w" "inbounds w' = inbounds w"
    "nextId w \<le> nextId w'"
  using assms by (auto simp: holdsOnly_def)

lemma holdParams_simps [simp]:
  "mv_key (holdParams ord line leg) = (o_tenantId ord, ol_skuId line, pl_locationId leg)"
  "deltaOf (mv_deltas (holdParams ord line leg)) = Buckets 0 (pl_quantity leg) 0 0 0"
  "mv_requireAvailable (holdParams ord line leg)"
  by (simp_all add: holdParams_def)

lemma holdRow_simps [simp]:
  "rv_id (holdRow ord line leg x i) = i" "rv_status (holdRow ord line leg x i) = ACTIVE"
  "rv_key (holdRow ord line leg x i) = (o_tenantId ord, ol_skuId line, pl_locationId leg)"
  "rv_quantity (holdRow ord line leg x i) = pl_quantity leg"
  "rv_orderId (holdRow ord line leg x i) = Some (o_id ord)"
  "rv_orderLineId (holdRow ord line leg x i) = Some (ol_id line)"
  "rv_expiresAt (holdRow ord line leg x i) = x" "rv_skuId (holdRow ord line leg x i) = ol_skuId line"
  "rv_tenantId (holdRow ord line leg x i) = o_tenantId ord"
  by (simp_all add: holdRow_def rv_key_def)

text \<open>What taking one hold does.\<close>

definition legTaken :: "stockKey \<Rightarrow> int \<Rightarrow> reservation \<Rightarrow> world \<Rightarrow> world \<Rightarrow> bool" where
  "legTaken k q r w w' \<longleftrightarrow> stockInv w' \<and> commitInv w' \<and> holdsOnly w w' \<and>
    reservations w' = reservations w @ [r] \<and>
    sn_key ` set (snapshots w') = sn_key ` set (snapshots w) \<and>
    availableAt w' = (availableAt w)(k := availableAt w k - q)"

lemma legTaken_moved:
  assumes inv: "stockInv w" "commitInv w" and q: "0 < pl_quantity leg"
    and here: "findSnapshot (o_tenantId ord, ol_skuId line, pl_locationId leg) w \<noteq> None"
    and m: "moved (holdParams ord line leg) w w1" "snapshotsOk w1"
      "admissible (holdParams ord line leg) (balance w1 (mv_key (holdParams ord line leg))) n"
  shows "legTaken (o_tenantId ord, ol_skuId line, pl_locationId leg) (pl_quantity leg)
    (holdRow ord line leg x (nextId w1)) w
    (w1\<lparr>nextId := Suc (nextId w1), reservations := reservations w1 @ [holdRow ord line leg x (nextId w1)]\<rparr>)"
    (is "legTaken ?k ?q ?r w ?w2")
proof -
  have "stockInv w1" using moved_stockInv [OF inv(1) m(1,2)] m(3) by (simp add: admissible_def)
  then have "stockInv ?w2" by (simp add: stockInv_nextId)
  moreover have "commitInv ?w2"
    by (rule commitInv_hold [OF inv(2) m(1,2), of "pl_quantity leg" ?r]) (use q in simp_all)
  moreover have "holdsOnly w ?w2"
    by (rule holdsOnly_trans [OF stockOnly_holdsOnly holdsOnly_append])
      (use m(1) in \<open>simp_all add: moved_def\<close>)
  moreover have "sn_key ` set (snapshots ?w2) = sn_key ` set (snapshots w)"
    using m(1) here unfolding findSnapshot_iff by (simp add: moved_def insert_absorb)
  moreover have "availableAt ?w2 = (availableAt w)(?k := availableAt w ?k - ?q)"
    using m(1) by (auto simp: fun_eq_iff availableAt_def moved_def availableOf_add)
  ultimately show ?thesis
    using moved_rows(1) [OF m(1)] by (simp add: legTaken_def)
qed

text \<open>One leg: with the stock available, it cannot fail.\<close>

lemma wp_holdLeg:
  assumes inv: "stockInv w" "commitInv w" and q: "0 < pl_quantity leg"
    "pl_quantity leg \<le> availableAt w (o_tenantId ord, ol_skuId line, pl_locationId leg)"
    "findSnapshot (o_tenantId ord, ol_skuId line, pl_locationId leg) w \<noteq> None"
  shows "wp (holdLeg ord line x leg)
    (\<lambda>rs w'. \<exists>i. rs = [holdRow ord line leg x i] \<and>
      legTaken (o_tenantId ord, ol_skuId line, pl_locationId leg) (pl_quantity leg) (holdRow ord line leg x i) w w')
    (\<lambda>_ _. False) w"
proof -
  let ?p = "holdParams ord line leg"
  have can: "stockable ?p w"
    "admissible ?p (balance w (mv_key ?p) + deltaOf (mv_deltas ?p)) (safetyOf w (mv_key ?p))"
    using q stockInvD(2) [OF inv(1), of "mv_key ?p"]
    by (simp_all add: stockable_def admissible_def availableAt_def availableOf_def nonneg_def)
  show ?thesis
    unfolding holdLeg_def wp
  proof (rule wp_mono [OF applyWithin_spec [OF stockInvD(1) [OF inv(1)]]], goal_cases)
    case (1 r w1)
    from 1(2) have m: "moved ?p w w1" "snapshotsOk w1"
        "admissible ?p (balance w1 (mv_key ?p)) (safetyOf w (mv_key ?p))" by simp_all
    show ?case using legTaken_moved [OF inv q(1,3) m, of x] by (intro exI [of _ "nextId w1"]) simp
  next
    case (2 e w1)
    with can show ?case by blast
  qed
qed

text \<open>All the legs of a line: the legs still to take stay possible.\<close>

lemma holdsOnly_nodes:
  assumes "holdsOnly w w'" "sn_key ` set (snapshots w') = sn_key ` set (snapshots w)"
  shows "shipNodes t s w' = shipNodes t s w"
  using holdsOnly_sel(1) [OF assms(1)] assms(2) by (simp add: shipNodes_def shipFrom_def findLocation_def)

lemma shipNodes_found: "l \<in> shipNodes t s w \<Longrightarrow> findSnapshot (t, s, l) w \<noteq> None"
  unfolding findSnapshot_iff by (simp add: shipNodes_def)

lemma networkAvailable_taken:
  assumes taken: "legTaken (t, s, l) q r w w'" and l: "l \<in> shipNodes t s w"
    and q: "0 < q" "q \<le> availableAt w (t, s, l)"
  shows "networkAvailable t' s' w' = networkAvailable t' s' w - (if t' = t \<and> s' = s then q else 0)"
proof -
  have nodes: "shipNodes t' s' w' = shipNodes t' s' w"
    using taken by (intro holdsOnly_nodes) (simp_all add: legTaken_def)
  have av: "availableAt w' = (availableAt w)((t, s, l) := availableAt w (t, s, l) - q)"
    using taken by (simp add: legTaken_def)
  show ?thesis
  proof (cases "t' = t \<and> s' = s")
    case True
    have "networkAvailable t s w = max 0 (availableAt w (t, s, l)) +
        (\<Sum>l' \<in> shipNodes t s w - {l}. max 0 (availableAt w (t, s, l')))"
      unfolding networkAvailable_def by (rule sum.remove) (simp_all add: l)
    moreover have "networkAvailable t s w' = max 0 (availableAt w' (t, s, l)) +
        (\<Sum>l' \<in> shipNodes t s w - {l}. max 0 (availableAt w' (t, s, l')))"
      using nodes True l unfolding networkAvailable_def by (subst sum.remove [of _ l]) simp_all
    moreover have "(\<Sum>l' \<in> shipNodes t s w - {l}. max 0 (availableAt w' (t, s, l'))) =
        (\<Sum>l' \<in> shipNodes t s w - {l}. max 0 (availableAt w (t, s, l')))"
      by (rule sum.cong) (simp_all add: av)
    ultimately show ?thesis using True q by (simp add: av)
  next
    case False
    then show ?thesis unfolding networkAvailable_def nodes by (auto simp: av intro: sum.cong)
  qed
qed

definition legsPossible :: "order \<Rightarrow> orderLine \<Rightarrow> planLeg list \<Rightarrow> world \<Rightarrow> bool" where
  "legsPossible ord line legs w \<longleftrightarrow> distinct (map pl_locationId legs) \<and>
    (\<forall>l \<in> set legs. 0 < pl_quantity l \<and>
      pl_quantity l \<le> availableAt w (o_tenantId ord, ol_skuId line, pl_locationId l) \<and>
      pl_locationId l \<in> shipNodes (o_tenantId ord) (ol_skuId line) w)"

definition holdsFor :: "order \<Rightarrow> orderLine \<Rightarrow> int \<Rightarrow> reservation list \<Rightarrow> bool" where
  "holdsFor ord line x rs \<longleftrightarrow> (\<forall>r \<in> set rs. rv_orderId r = Some (o_id ord) \<and> rv_orderLineId r = Some (ol_id line) \<and>
    rv_skuId r = ol_skuId line \<and> rv_tenantId r = o_tenantId ord \<and> rv_status r = ACTIVE \<and> rv_expiresAt r = x)"

text \<open>The state after some of the holds \<open>rs\<close> of a tenant, \<open>q\<close> units of a SKU.\<close>

definition holdsTaken :: "ident \<Rightarrow> (ident \<Rightarrow> int) \<Rightarrow> reservation list \<Rightarrow> world \<Rightarrow> world \<Rightarrow> bool" where
  "holdsTaken t q rs w w' \<longleftrightarrow> stockInv w' \<and> commitInv w' \<and> holdsOnly w w' \<and>
    reservations w' = reservations w @ rs \<and>
    (\<forall>s. networkAvailable t s w' = networkAvailable t s w - q s)"

lemma holdsTaken_refl: "stockInv w \<Longrightarrow> commitInv w \<Longrightarrow> holdsTaken t (\<lambda>_. 0) [] w w"
  by (simp add: holdsTaken_def holdsOnly_refl)

lemma holdsTaken_trans:
  "holdsTaken t q rs u v \<Longrightarrow> holdsTaken t q' rs' v w \<Longrightarrow> holdsTaken t (\<lambda>s. q s + q' s) (rs @ rs') u w"
  using holdsOnly_trans [of u v w] by (simp add: holdsTaken_def)

lemma legTaken_holdsTaken:
  assumes "legTaken (t, s, l) q r w w'" "l \<in> shipNodes t s w" "0 < q" "q \<le> availableAt w (t, s, l)"
  shows "holdsTaken t (\<lambda>s'. if s' = s then q else 0) [r] w w'"
  using assms(1) networkAvailable_taken [OF assms] by (simp add: holdsTaken_def legTaken_def)

lemma wp_holdLegs:
  assumes inv: "stockInv w" "commitInv w" and legs: "legsPossible ord line legs w"
  shows "wp (collect legs (holdLeg ord line x))
    (\<lambda>rs w'. holdsTaken (o_tenantId ord) (\<lambda>s. if s = ol_skuId line then planned legs else 0) rs w w' \<and>
      holdsFor ord line x rs \<and> sum_list (map rv_quantity rs) = planned legs)
    (\<lambda>_ _. False) w"
proof -
  let ?I = "\<lambda>ls acc w'. legsPossible ord line ls w' \<and>
    holdsTaken (o_tenantId ord) (\<lambda>s. if s = ol_skuId line then sum_list (map rv_quantity acc) else 0) acc w w' \<and>
    holdsFor ord line x acc \<and> sum_list (map rv_quantity acc) + planned ls = planned legs"
  have "wp (collect legs (holdLeg ord line x)) (?I []) (\<lambda>_ _. False) w"
  proof (rule wp_collect_rest)
    show "?I legs [] w" using inv legs holdsTaken_refl by (simp add: holdsFor_def cong: if_cong)
  next
    fix leg ls acc v
    assume I: "?I (leg # ls) acc v"
    let ?k = "(o_tenantId ord, ol_skuId line, pl_locationId leg)"
    have here: "0 < pl_quantity leg" "pl_quantity leg \<le> availableAt v ?k"
      "pl_locationId leg \<in> shipNodes (o_tenantId ord) (ol_skuId line) v"
      using I by (simp_all add: legsPossible_def)
    have step: "?I ls (acc @ [holdRow ord line leg x i]) v'"
      if t: "legTaken ?k (pl_quantity leg) (holdRow ord line leg x i) v v'" for i v'
    proof -
      have nodes: "shipNodes t' s' v' = shipNodes t' s' v" for t' s'
        using t by (intro holdsOnly_nodes) (simp_all add: legTaken_def)
      have "legsPossible ord line ls v'"
        using I t by (auto simp: legsPossible_def legTaken_def image_iff nodes)
      moreover have "holdsTaken (o_tenantId ord) (\<lambda>s. if s = ol_skuId line
          then sum_list (map rv_quantity (acc @ [holdRow ord line leg x i])) else 0)
          (acc @ [holdRow ord line leg x i]) w v'"
      proof -
        have "(\<lambda>s. if s = ol_skuId line then sum_list (map rv_quantity (acc @ [holdRow ord line leg x i])) else 0) =
          (\<lambda>s. (if s = ol_skuId line then sum_list (map rv_quantity acc) else 0) +
            (if s = ol_skuId line then pl_quantity leg else 0))" by (simp add: fun_eq_iff)
        then show ?thesis
          using I holdsTaken_trans [OF _ legTaken_holdsTaken [OF t here(3,1,2)]] by simp
      qed
      ultimately show ?thesis using I t by (auto simp: holdsFor_def planned_def)
    qed
    show "wp (holdLeg ord line x leg) (\<lambda>ys. ?I ls (acc @ ys)) (\<lambda>_ _. False) v"
    proof (rule wp_mono [OF wp_holdLeg])
      show "stockInv v" "commitInv v" using I by (simp_all add: holdsTaken_def)
    qed (use here shipNodes_found step in auto)
  qed
  then show ?thesis
  proof (rule wp_mono, goal_cases)
    case (1 rs w')
    then have "sum_list (map rv_quantity rs) = planned legs" by (simp add: planned_def)
    with 1(2) show ?case by metis
  qed simp
qed

text \<open>A line: all of it, or what the network has when the order allows a backorder.\<close>

lemma wp_reserveLine:
  assumes inv: "stockInv w" "commitInv w" and q: "0 \<le> ol_quantity line"
  shows "wp (reserveLine ttl ord line)
    (\<lambda>rs w'. holdsTaken (o_tenantId ord) (\<lambda>s. if s = ol_skuId line then sum_list (map rv_quantity rs) else 0) rs w w' \<and>
      holdsFor ord line (clock w + ttl * 1000) rs \<and>
      sum_list (map rv_quantity rs) = min (ol_quantity line) (networkAvailable (o_tenantId ord) (ol_skuId line) w) \<and>
      (ol_quantity line \<le> networkAvailable (o_tenantId ord) (ol_skuId line) w \<or> o_allowBackorder ord))
    (\<lambda>e w'. e = BadRequest ''Cannot reserve'' \<and> \<not> o_allowBackorder ord \<and>
      networkAvailable (o_tenantId ord) (ol_skuId line) w < ol_quantity line) w"
proof -
  let ?legs = "planLine (o_tenantId ord) (ol_skuId line) (ol_quantity line) w"
  note spec = planLine_spec [OF stockInvD(1) [OF inv(1)], where t = "o_tenantId ord" and s = "ol_skuId line"
    and n = "ol_quantity line"]
  note total = spec(3) [OF q]
  have legs: "legsPossible ord line ?legs w" using spec(1,2) by (simp add: legsPossible_def)
  show ?thesis
  proof (cases "planned ?legs < ol_quantity line \<and> \<not> o_allowBackorder ord")
    case False
    then have enough: "ol_quantity line \<le> networkAvailable (o_tenantId ord) (ol_skuId line) w \<or> o_allowBackorder ord"
      by (auto simp: total)
    have "wp (collect ?legs (holdLeg ord line (clock w + ttl * 1000)))
      (\<lambda>rs w'. holdsTaken (o_tenantId ord) (\<lambda>s. if s = ol_skuId line then sum_list (map rv_quantity rs) else 0) rs w w' \<and>
        holdsFor ord line (clock w + ttl * 1000) rs \<and>
        sum_list (map rv_quantity rs) = min (ol_quantity line) (networkAvailable (o_tenantId ord) (ol_skuId line) w) \<and>
        (ol_quantity line \<le> networkAvailable (o_tenantId ord) (ol_skuId line) w \<or> o_allowBackorder ord))
      (\<lambda>_ _. False) w"
    proof (rule wp_mono [OF wp_holdLegs [OF inv legs]], goal_cases)
      case (1 rs w')
      then have "sum_list (map rv_quantity rs) = planned ?legs" by simp
      with 1(2) enough total show ?case by metis
    qed simp
    then show ?thesis
      unfolding reserveLine_def wp if_not_P [OF False] by (rule wp_mono) simp_all
  next
    case True
    then show ?thesis
      unfolding reserveLine_def wp if_P [OF True] by (simp add: total min_less_iff_disj)
  qed
qed

text \<open>All the lines.  \<open>demand\<close> is what some lines ask of a SKU, \<open>heldFor\<close> what holds give a line.\<close>

definition demand :: "orderLine list \<Rightarrow> ident \<Rightarrow> int" where
  "demand ls s = sumWhere (\<lambda>l. ol_skuId l = s) ol_quantity ls"

definition heldFor :: "reservation list \<Rightarrow> orderLine \<Rightarrow> int" where
  "heldFor rs l = sumWhere (\<lambda>r. rv_orderLineId r = Some (ol_id l)) rv_quantity rs"

definition linesCovered :: "order \<Rightarrow> orderLine list \<Rightarrow> reservation list \<Rightarrow> bool" where
  "linesCovered ord ls rs \<longleftrightarrow> (\<forall>l \<in> set ls. heldFor rs l \<le> ol_quantity l \<and>
    (heldFor rs l = ol_quantity l \<or> o_allowBackorder ord))"

definition holdsOf :: "order \<Rightarrow> orderLine list \<Rightarrow> int \<Rightarrow> reservation list \<Rightarrow> bool" where
  "holdsOf ord ls x rs \<longleftrightarrow> (\<forall>r \<in> set rs. \<exists>l \<in> set ls. holdsFor ord l x [r])"

lemma holdsOf_append: "holdsOf ord ls x (rs @ qs) \<longleftrightarrow> holdsOf ord ls x rs \<and> holdsOf ord ls x qs"
  by (auto simp: holdsOf_def)

lemma holdsFor_holdsOf: "holdsFor ord l x rs \<Longrightarrow> l \<in> set ls \<Longrightarrow> holdsOf ord ls x rs"
  by (auto simp: holdsFor_def holdsOf_def)

lemma heldFor_holdsFor:
  assumes "holdsFor ord l x rs"
  shows "heldFor rs l' = (if ol_id l' = ol_id l then sum_list (map rv_quantity rs) else 0)"
  using assms by (induction rs) (auto simp: heldFor_def holdsFor_def)

lemma heldFor_none:
  assumes "holdsOf ord ls x rs" "ol_id l \<notin> ol_id ` set ls"
  shows "heldFor rs l = 0"
  unfolding heldFor_def
  by (rule sumWhere_none) (use assms in \<open>force simp: holdsOf_def holdsFor_def image_iff\<close>)

lemma heldFor_append: "heldFor (rs @ qs) l = heldFor rs l + heldFor qs l"
  by (simp add: heldFor_def)

lemma linesCovered_step:
  assumes "linesCovered ord ls rs" "holdsOf ord ls x rs" "holdsFor ord l x qs" "ol_id l \<notin> ol_id ` set ls"
    and "sum_list (map rv_quantity qs) \<le> ol_quantity l"
    and "sum_list (map rv_quantity qs) = ol_quantity l \<or> o_allowBackorder ord"
  shows "linesCovered ord (ls @ [l]) (rs @ qs)"
  using assms heldFor_holdsFor [OF assms(3)] heldFor_none [OF assms(2,4)]
  by (auto simp: linesCovered_def heldFor_append image_iff)

definition orderReserved :: "int \<Rightarrow> order \<Rightarrow> orderLine list \<Rightarrow> reservation list \<Rightarrow> world \<Rightarrow> world \<Rightarrow> bool" where
  "orderReserved ttl ord ls rs w w' \<longleftrightarrow>
    (\<exists>q. holdsTaken (o_tenantId ord) q rs w w' \<and> (o_allowBackorder ord \<or> q = demand ls)) \<and>
    holdsOf ord ls (clock w + ttl * 1000) rs \<and> linesCovered ord ls rs"

lemma networkAvailable_nonneg: "0 \<le> networkAvailable t s w"
  unfolding networkAvailable_def by (rule sum_nonneg) simp

lemma orderReserved_step:
  assumes prev: "orderReserved ttl ord ls rs w v" and fresh: "ol_id l \<notin> ol_id ` set ls"
    and taken: "holdsTaken (o_tenantId ord) (\<lambda>s. if s = ol_skuId l then sum_list (map rv_quantity qs) else 0) qs v v'"
    and hf: "holdsFor ord l (clock v + ttl * 1000) qs"
    and sum: "sum_list (map rv_quantity qs) = min (ol_quantity l) n" "ol_quantity l \<le> n \<or> o_allowBackorder ord"
  shows "orderReserved ttl ord (ls @ [l]) (rs @ qs) w v'"
proof -
  obtain q where q: "holdsTaken (o_tenantId ord) q rs w v" "o_allowBackorder ord \<or> q = demand ls"
    using prev by (auto simp: orderReserved_def)
  have clock: "clock v = clock w" using q(1) holdsOnly_sel(6) by (simp add: holdsTaken_def)
  let ?q = "\<lambda>s. q s + (if s = ol_skuId l then sum_list (map rv_quantity qs) else 0)"
  have "holdsTaken (o_tenantId ord) ?q (rs @ qs) w v'" by (rule holdsTaken_trans [OF q(1) taken])
  moreover have "o_allowBackorder ord \<or> ?q = demand (ls @ [l])"
    using q(2) sum by (auto simp: demand_def fun_eq_iff)
  moreover have "holdsOf ord (ls @ [l]) (clock w + ttl * 1000) (rs @ qs)"
    using prev hf clock holdsFor_holdsOf [OF hf, of "ls @ [l]"]
    by (auto simp: holdsOf_append orderReserved_def) (auto simp: holdsOf_def)
  moreover have "linesCovered ord (ls @ [l]) (rs @ qs)"
    using prev hf fresh sum clock by (intro linesCovered_step) (auto simp: orderReserved_def)
  ultimately show ?thesis by (auto simp: orderReserved_def)
qed

lemma wp_reserveLines:
  assumes inv: "stockInv w" "commitInv w" and lines: "distinct (map ol_id ls)" "\<forall>l \<in> set ls. 0 \<le> ol_quantity l"
  shows "wp (collect ls (reserveLine ttl ord))
    (\<lambda>rs w'. orderReserved ttl ord ls rs w w')
    (\<lambda>e w'. e = BadRequest ''Cannot reserve'' \<and> \<not> o_allowBackorder ord \<and>
      (\<exists>s. networkAvailable (o_tenantId ord) s w < demand ls s)) w"
proof -
  let ?E = "\<lambda>e w'. e = BadRequest ''Cannot reserve'' \<and> \<not> o_allowBackorder ord \<and>
      (\<exists>s. networkAvailable (o_tenantId ord) s w < demand ls s)"
  let ?I = "\<lambda>rest acc v. \<exists>ds. ls = ds @ rest \<and> orderReserved ttl ord ds acc w v"
  have "wp (collect ls (reserveLine ttl ord)) (?I []) ?E w"
  proof (rule wp_collect_rest)
    have "orderReserved ttl ord [] [] w w"
      using holdsTaken_refl [OF inv] by (auto simp: orderReserved_def holdsOf_def linesCovered_def demand_def fun_eq_iff)
    then show "?I ls [] w" by simp
  next
    fix l rest acc v assume "?I (l # rest) acc v"
    then obtain ds where d: "ls = ds @ l # rest" "orderReserved ttl ord ds acc w v" by blast
    obtain q where q: "holdsTaken (o_tenantId ord) q acc w v" "o_allowBackorder ord \<or> q = demand ds"
      using d(2) by (auto simp: orderReserved_def)
    have iv: "stockInv v" "commitInv v" using q(1) by (simp_all add: holdsTaken_def)
    show "wp (reserveLine ttl ord l) (\<lambda>ys. ?I rest (acc @ ys)) ?E v"
    proof (rule wp_mono [OF wp_reserveLine [OF iv]], goal_cases)
      case 1
      then show ?case using lines(2) d(1) by simp
    next
      case (2 rs v')
      have "orderReserved ttl ord (ds @ [l]) (acc @ rs) w v'"
        by (rule orderReserved_step [OF d(2)]) (use 2(2) lines(1) d(1) in auto)
      then show ?case using d(1) by (intro exI [of _ "ds @ [l]"]) simp
    next
      case (3 e v')
      have "networkAvailable (o_tenantId ord) (ol_skuId l) v =
          networkAvailable (o_tenantId ord) (ol_skuId l) w - demand ds (ol_skuId l)"
        using 3(2) q by (simp add: holdsTaken_def)
      moreover have "0 \<le> demand rest (ol_skuId l)"
        unfolding demand_def by (rule sumWhere_nonneg) (use lines(2) d(1) in simp)
      ultimately have "networkAvailable (o_tenantId ord) (ol_skuId l) w < demand ls (ol_skuId l)"
        using 3(2) by (simp add: demand_def d(1))
      then show ?case using 3(2) by blast
    qed
  qed
  then show ?thesis by (rule wp_mono) simp_all
qed

text \<open>After the commit: the cache is invalidated and the expiry jobs are queued.\<close>

definition expiryQueued :: "reservation \<Rightarrow> world \<Rightarrow> bool" where
  "expiryQueued r w \<longleftrightarrow> (\<exists>j \<in> set (jobs w). ej_reservationId j = rv_id r)"

definition afterReserve :: "world \<Rightarrow> world \<Rightarrow> bool" where
  "afterReserve w w' \<longleftrightarrow> (stockInv w \<longrightarrow> stockInv w') \<and> (commitInv w \<longrightarrow> commitInv w') \<and>
    reservations w' = reservations w \<and> orders w' = orders w \<and> clock w' = clock w \<and>
    orderLines w' = orderLines w \<and> orderEvents w' = orderEvents w \<and> allocations w' = allocations w \<and>
    nextId w \<le> nextId w' \<and>
    availableAt w' = availableAt w \<and> set (jobs w) \<subseteq> set (jobs w')"

lemma afterReserve_trans: "afterReserve u v \<Longrightarrow> afterReserve v w \<Longrightarrow> afterReserve u w"
  by (simp add: afterReserve_def subset_iff)

lemma expiryQueued_mono: "afterReserve v w \<Longrightarrow> expiryQueued q v \<Longrightarrow> expiryQueued q w"
  by (auto simp: afterReserve_def expiryQueued_def)

lemma afterReserve_invalidated: "afterReserve w (invalidated t s w)"
  by (auto simp: afterReserve_def commitInv_invalidated availableAt_def fun_eq_iff intro: stockInv_frame)

lemma wp_scheduleExpiry:
  "wp (scheduleExpiry r) (\<lambda>_ w'. afterReserve w w' \<and> expiryQueued r w' \<and>
     (\<forall>j \<in> set (jobs w'). j \<in> set (jobs w) \<or> ej_delay j = max 0 (rv_expiresAt r - clock w))) (\<lambda>_ _. False) w"
  by (auto simp: scheduleExpiry_def wp afterReserve_def expiryQueued_def availableAt_def fun_eq_iff list_ex_iff)

lemma wp_scheduleAll:
  "wp (forEach rs scheduleExpiry) (\<lambda>_ w'. afterReserve w w' \<and> (\<forall>r \<in> set rs. expiryQueued r w')) (\<lambda>_ _. False) w"
proof -
  have "wp (forEach rs scheduleExpiry)
    (\<lambda>_ w'. afterReserve w w' \<and> (\<forall>r \<in> set rs - set []. expiryQueued r w')) (\<lambda>_ _. False) w"
  proof (rule wp_forEach_rest [where I = "\<lambda>rest w'. afterReserve w w' \<and> (\<forall>r \<in> set rs - set rest. expiryQueued r w')"])
    fix r rest v assume I: "afterReserve w v \<and> (\<forall>q \<in> set rs - set (r # rest). expiryQueued q v)"
    show "wp (scheduleExpiry r) (\<lambda>_ w'. afterReserve w w' \<and> (\<forall>q \<in> set rs - set rest. expiryQueued q w')) (\<lambda>_ _. False) v"
    proof (rule wp_mono [OF wp_scheduleExpiry], goal_cases)
      case (1 x w')
      then have "afterReserve w w'" using I afterReserve_trans by blast
      moreover have "expiryQueued q w'" if "q \<in> set rs - set rest" for q
        using that I 1(2) expiryQueued_mono [of v w' q] by (cases "q = r") auto
      ultimately show ?case by blast
    qed simp
  qed (simp add: afterReserve_def)
  then show ?thesis by simp
qed

lemma wp_invalidateAll:
  "wp (forEach ss (invalidate t)) (\<lambda>_ w'. afterReserve w w') (\<lambda>_ _. False) w"
  by (rule wp_forEach) (auto simp: wp afterReserve_def commitInv_invalidated availableAt_def fun_eq_iff intro: stockInv_frame)

text \<open>What an order may ask of the network.\<close>

definition coverable :: "order \<Rightarrow> orderLine list \<Rightarrow> world \<Rightarrow> bool" where
  "coverable ord ls w \<longleftrightarrow> (\<forall>s. demand ls s \<le> networkAvailable (o_tenantId ord) s w)"

lemma orderReserved_coverable:
  "orderReserved ttl ord ls rs w w' \<Longrightarrow> coverable ord ls w \<or> o_allowBackorder ord"
  using networkAvailable_nonneg [of "o_tenantId ord" _ w']
  by (fastforce simp: orderReserved_def coverable_def holdsTaken_def)

lemma wp_reserveForOrder:
  assumes inv: "stockInv w" "commitInv w" and found: "findOrder orderId w = Some ord"
    and lines: "distinct (map ol_id (linesOf orderId w))" "\<forall>l \<in> set (linesOf orderId w). 0 \<le> ol_quantity l"
  shows "wp (reserveForOrder ttl env orderId)
    (\<lambda>rs w'. (coverable ord (linesOf orderId w) w \<or> o_allowBackorder ord) \<and>
      stockInv w' \<and> commitInv w' \<and> orders w' = orders w \<and> reservations w' = reservations w @ rs \<and>
      holdsOf ord (linesOf orderId w) (clock w + ttl * 1000) rs \<and> linesCovered ord (linesOf orderId w) rs \<and>
      (\<forall>r \<in> set rs. expiryQueued r w'))
    (\<lambda>e w'. w' = w \<and> e = BadRequest ''Cannot reserve'' \<and> \<not> o_allowBackorder ord \<and>
      \<not> coverable ord (linesOf orderId w) w) w"
proof -
  let ?ls = "linesOf orderId w"
  have tx: "wp (transaction (collect ?ls (reserveLine ttl ord)))
    (\<lambda>rs w'. orderReserved ttl ord ?ls rs w w')
    (\<lambda>e w'. w' = w \<and> e = BadRequest ''Cannot reserve'' \<and> \<not> o_allowBackorder ord \<and> \<not> coverable ord ?ls w) w"
    unfolding wp_transaction
    by (rule wp_mono [OF wp_reserveLines [OF inv lines]]) (auto simp: coverable_def not_le)
  have retried: "wp (retryOnConflict defaultAttempts env (transaction (collect ?ls (reserveLine ttl ord))))
    (\<lambda>rs w'. orderReserved ttl ord ?ls rs w w')
    (\<lambda>e w'. w' = w \<and> e = BadRequest ''Cannot reserve'' \<and> \<not> o_allowBackorder ord \<and> \<not> coverable ord ?ls w) w"
    by (rule wp_retry_once [OF tx]) (auto simp: defaultAttempts_def)
  have tail: "wp (forEach (uniq (map rv_skuId rs)) (invalidate (o_tenantId ord)))
    (\<lambda>_. wp (forEach rs scheduleExpiry) (\<lambda>_ w'. afterReserve v w' \<and> (\<forall>r \<in> set rs. expiryQueued r w')) (\<lambda>_ _. False))
    (\<lambda>_ _. False) v" for rs v
    by (rule wp_mono [OF wp_invalidateAll], rule wp_mono [OF wp_scheduleAll]) (auto intro: afterReserve_trans)
  show ?thesis
    unfolding reserveForOrder_def wp
    unfolding found option.case
  proof (rule wp_mono [OF retried], goal_cases)
    case (1 rs v)
    then have v: "stockInv v" "commitInv v" "orders v = orders w" "reservations v = reservations w @ rs"
      "holdsOf ord ?ls (clock w + ttl * 1000) rs" "linesCovered ord ?ls rs" "coverable ord ?ls w \<or> o_allowBackorder ord"
      using orderReserved_coverable holdsOnly_sel(2) by (auto simp: orderReserved_def holdsTaken_def)
    show ?case
    proof (rule wp_mono [OF tail [of rs v]], goal_cases)
      case (1 x w1)
      show ?case by (rule wp_mono [OF 1(2)]) (use v in \<open>auto simp: afterReserve_def\<close>)
    qed simp
  qed simp
qed

section \<open>Giving holds back\<close>

text \<open>The tables releasing leaves alone.\<close>

definition stockSide :: "world \<Rightarrow> world \<Rightarrow> bool" where
  "stockSide w w' \<longleftrightarrow> tenants w' = tenants w \<and> skus w' = skus w \<and> locations w' = locations w \<and>
    orders w' = orders w \<and> orderLines w' = orderLines w \<and> orderEvents w' = orderEvents w \<and>
    allocations w' = allocations w \<and> shipments w' = shipments w \<and> sourcingRules w' = sourcingRules w \<and>
    returnRows w' = returnRows w \<and> returnLines w' = returnLines w \<and> inbounds w' = inbounds w \<and>
    jobs w' = jobs w \<and> clock w' = clock w \<and> uuidOf w' = uuidOf w \<and> outboxUp w' = outboxUp w \<and>
    gatewayLog w' = gatewayLog w \<and> nextId w \<le> nextId w'"

lemma stockSide_refl [simp]: "stockSide w w"
  by (simp add: stockSide_def)

lemma stockSide_trans: "stockSide u v \<Longrightarrow> stockSide v w \<Longrightarrow> stockSide u w"
  by (simp add: stockSide_def)

lemma stockOnly_stockSide: "stockOnly w w' \<Longrightarrow> stockSide w w'"
  using stockOnly_sel [of w w'] by (simp add: stockSide_def)

text \<open>A released hold: its units are available again, its row carries the new status.\<close>

definition giveBack :: "ident \<Rightarrow> ReservationStatus \<Rightarrow> reservation list \<Rightarrow> reservation list" where
  "giveBack i st rs = mapWhere (\<lambda>r. rv_id r = i \<and> rv_status r = ACTIVE) (rv_status_update (\<lambda>_. st)) rs"

definition holdReleased :: "ident \<Rightarrow> ReservationStatus \<Rightarrow> reservation \<Rightarrow> world \<Rightarrow> world \<Rightarrow> bool" where
  "holdReleased i st r w w' \<longleftrightarrow> stockInv w' \<and> commitInv w' \<and> stockSide w w' \<and>
    findReservation i w = Some r \<and> rv_status r = ACTIVE \<and>
    reservations w' = giveBack i st (reservations w) \<and>
    availableAt w' = (availableAt w)(rv_key r := availableAt w (rv_key r) + rv_quantity r)"

definition activeHold :: "ident \<Rightarrow> world \<Rightarrow> bool" where
  "activeHold i w \<longleftrightarrow> (\<exists>r. findReservation i w = Some r \<and> rv_status r = ACTIVE)"

lemma releaseParams_simps [simp]:
  "mv_key (releaseParams r) = rv_key r"
  "deltaOf (mv_deltas (releaseParams r)) = Buckets 0 (- rv_quantity r) 0 0 0"
  "\<not> mv_requireAvailable (releaseParams r)"
  by (simp_all add: releaseParams_def rv_key_def)

text \<open>An active hold is covered by the reserved balance, so releasing it cannot be refused.\<close>

lemma activeHold_releasable:
  assumes inv: "stockInv w" "commitInv w" and r: "r \<in> set (reservations w)" "rv_status r = ACTIVE"
  shows "stockable (releaseParams r) w"
    and "admissible (releaseParams r) (balance w (rv_key r) + Buckets 0 (- rv_quantity r) 0 0 0) n"
proof -
  have pos: "0 < rv_quantity q" if "q \<in> set (reservations w)" for q
    using that commitInvD(2) [OF inv(2)] by (simp add: commitRows_def)
  have "rv_quantity r \<le> held w (rv_key r)"
    unfolding held_def by (rule sumWhere_member [OF r(1)]) (use r(2) pos in \<open>auto intro: less_imp_le\<close>)
  then have le: "rv_quantity r \<le> bk_reserved (balance w (rv_key r))" using commitInvD(3) [OF inv(2)] by simp
  then have "findSnapshot (rv_key r) w \<noteq> None"
    using pos [OF r(1)] by (cases "findSnapshot (rv_key r) w") (auto simp: balance_def)
  then show "stockable (releaseParams r) w" by (simp add: stockable_def)
  show "admissible (releaseParams r) (balance w (rv_key r) + Buckets 0 (- rv_quantity r) 0 0 0) n"
    using le stockInvD(2) [OF inv(1), of "rv_key r"] by (auto simp: admissible_def nonneg_def)
qed

lemma giveBack_found:
  assumes "commitRows w" "findReservation i w = Some r" "rv_status r = ACTIVE"
  shows "mapWhere (\<lambda>x. rv_id x = rv_id r) (rv_status_update (\<lambda>_. st)) (reservations w) = giveBack i st (reservations w)"
proof -
  have r: "r \<in> set (reservations w)" "rv_id r = i"
    using find_SomeD [OF assms(2) [unfolded findReservation_def]] by simp_all
  have "x = r" if "x \<in> set (reservations w)" "rv_id x = i" for x
    using that r assms(1) by (auto simp: commitRows_def distinct_map inj_on_def)
  then have "(rv_id x = rv_id r) = (rv_id x = i \<and> rv_status x = ACTIVE)" if "x \<in> set (reservations w)" for x
    using that assms(3) r(2) by metis
  then show ?thesis unfolding giveBack_def mapWhere_def by (intro map_cong) simp_all
qed

lemma wp_releaseTx:
  assumes inv: "stockInv w" "commitInv w" and st: "st \<noteq> ACTIVE"
  shows "wp (releaseTx i st)
    (\<lambda>out w'. case out of Some r \<Rightarrow> holdReleased i st r w w' | None \<Rightarrow> w' = w \<and> \<not> activeHold i w)
    (\<lambda>_ _. False) w"
proof (cases "activeHold i w")
  case False
  then show ?thesis by (auto simp: releaseTx_def wp activeHold_def split: option.split)
next
  case True
  then obtain r where r: "findReservation i w = Some r" "rv_status r = ACTIVE" by (auto simp: activeHold_def)
  have mem: "r \<in> set (reservations w)" "rv_id r = i"
    using find_SomeD [OF r(1) [unfolded findReservation_def]] by simp_all
  note can = activeHold_releasable [OF inv mem(1) r(2)]
  let ?w2 = "\<lambda>w1. w1\<lparr>reservations := mapWhere (\<lambda>x. rv_id x = rv_id r) (rv_status_update (\<lambda>_. st)) (reservations w1)\<rparr>"
  have after: "holdReleased i st r w (?w2 w1)"
    if m: "moved (releaseParams r) w w1" "snapshotsOk w1"
      "admissible (releaseParams r) (balance w1 (rv_key r)) n" for w1 n
  proof -
    have "stockInv w1" using moved_stockInv [OF inv(1) m(1,2)] m(3) by (simp add: admissible_def)
    moreover have "commitInv (?w2 w1)"
      by (rule commitInv_release [OF inv(2) m(1,2) mem(1) r(2) st]) simp_all
    moreover have "stockSide w (?w2 w1)"
      using m(1) stockOnly_stockSide [of w w1] by (simp add: moved_def stockSide_def)
    moreover have "availableAt (?w2 w1) = (availableAt w)(rv_key r := availableAt w (rv_key r) + rv_quantity r)"
      using m(1) by (auto simp: fun_eq_iff availableAt_def moved_def availableOf_add)
    ultimately show ?thesis
      using r moved_rows(1) [OF m(1)] giveBack_found [OF commitInvD(2) [OF inv(2)] r]
      by (simp add: holdReleased_def)
  qed
  have here: "find (\<lambda>x. rv_id x = rv_id r) (reservations w1) = Some r" if "moved (releaseParams r) w w1" for w1
    using r(1) mem(2) moved_rows(1) [OF that] by (simp add: findReservation_def)
  show ?thesis
    unfolding releaseTx_def wp r(1) option.case
    unfolding r(2) simp_thms if_False
  proof (rule wp_mono [OF applyWithin_spec [OF stockInvD(1) [OF inv(1)]]], goal_cases)
    case (1 x w1)
    then have m: "moved (releaseParams r) w w1" "snapshotsOk w1"
      "admissible (releaseParams r) (balance w1 (rv_key r)) (safetyOf w (rv_key r))" by simp_all
    show ?case using after [OF m] by (simp add: here [OF m(1)])
  next
    case (2 e w1)
    with can show ?case by simp
  qed
qed

lemma holdReleased_invalidated: "holdReleased i st r w v \<Longrightarrow> holdReleased i st r w (invalidated t s v)"
  by (auto simp: holdReleased_def commitInv_invalidated availableAt_def fun_eq_iff stockSide_def intro: stockInv_frame)

lemma wp_release:
  assumes inv: "stockInv w" "commitInv w" and st: "st \<noteq> ACTIVE"
  shows "wp (release i st)
    (\<lambda>b w'. b = activeHold i w \<and> (if b then \<exists>r. holdReleased i st r w w' else w' = w)) (\<lambda>_ _. False) w"
  unfolding release_def wp
proof (rule wp_mono [OF wp_releaseTx [OF inv st]], goal_cases)
  case (1 out w')
  show ?case
  proof (cases out)
    case (Some r)
    then have "holdReleased i st r w w'" using 1(2) by simp
    then show ?thesis
      using Some holdReleased_invalidated [of i st r w w'] by (auto simp: wp activeHold_def holdReleased_def)
  qed (use 1 in \<open>simp add: wp\<close>)
qed simp

text \<open>Several holds, one after the other.  What a position can promise or has promised is constant.\<close>

definition giveBackAll :: "ident set \<Rightarrow> ReservationStatus \<Rightarrow> reservation list \<Rightarrow> reservation list" where
  "giveBackAll is st rs = mapWhere (\<lambda>r. rv_id r \<in> is \<and> rv_status r = ACTIVE) (rv_status_update (\<lambda>_. st)) rs"

definition holdsReleased :: "ident set \<Rightarrow> ReservationStatus \<Rightarrow> world \<Rightarrow> world \<Rightarrow> bool" where
  "holdsReleased is st w w' \<longleftrightarrow> stockInv w' \<and> commitInv w' \<and> stockSide w w' \<and>
    reservations w' = giveBackAll is st (reservations w) \<and>
    (\<forall>k. availableAt w' k + held w' k = availableAt w k + held w k)"

lemma none_active:
  assumes "q \<in> set (mapWhere p (rv_status_update (\<lambda>_. st)) rs)" "st \<noteq> ACTIVE"
    and "rv_status q = ACTIVE"
  shows "q \<in> set rs \<and> \<not> p q"
  using assms(1)
proof (cases rule: mapWhereE)
  case (updated r)
  have "rv_status q = st" unfolding updated(3) by simp
  then show ?thesis using assms(2,3) by simp
qed simp

lemma giveBack_all:
  "st \<noteq> ACTIVE \<Longrightarrow> giveBack i st (giveBackAll is st rs) = giveBackAll (insert i is) st rs"
  by (induction rs) (auto simp: giveBack_def giveBackAll_def)

lemma giveBackAll_empty: "giveBackAll {} st rs = rs"
  by (simp add: giveBackAll_def mapWhere_id)

lemma giveBack_inactive:
  assumes "commitRows w" "\<not> activeHold i w"
  shows "giveBack i st (reservations w) = reservations w"
  unfolding giveBack_def
proof (rule mapWhere_id)
  fix r assume r: "r \<in> set (reservations w)"
  have "findReservation (rv_id r) w = Some r"
    using r assms(1) by (simp add: findReservation_def commitRows_def find_unique)
  then show "\<not> (rv_id r = i \<and> rv_status r = ACTIVE)" using assms(2) by (auto simp: activeHold_def)
qed

lemma holdsReleased_step:
  assumes prev: "holdsReleased is st w v" and st: "st \<noteq> ACTIVE" and r: "holdReleased i st r v w'"
  shows "holdsReleased (insert i is) st w w'"
proof -
  have inv: "stockInv v" "commitInv v" using prev by (simp_all add: holdsReleased_def)
  have mem: "r \<in> set (reservations v)" "rv_id r = i" "rv_status r = ACTIVE"
    using r find_SomeD [of "\<lambda>r. rv_id r = i"] by (auto simp: holdReleased_def findReservation_def)
  have "held w' k = held v k + (if k = rv_key r then - rv_quantity r else 0)" for k
    using r mem giveBack_found [OF commitInvD(2) [OF inv(2)], of i r st] st
    by (intro held_close [OF commitInvD(2) [OF inv(2)] mem(1,3), of w' "rv_status_update (\<lambda>_. st)"])
      (simp_all add: holdReleased_def)
  then have "availableAt w' k + held w' k = availableAt v k + held v k" for k
    using r by (simp add: holdReleased_def)
  then show ?thesis
    using r prev stockSide_trans [of w v w'] giveBack_all [OF st, of i "is"]
    by (simp add: holdsReleased_def holdReleased_def)
qed

lemma wp_release_step:
  assumes prev: "holdsReleased is st w v" and st: "st \<noteq> ACTIVE"
  shows "wp (release i st) (\<lambda>b w'. b = activeHold i v \<and> holdsReleased (insert i is) st w w') (\<lambda>_ _. False) v"
proof -
  have inv: "stockInv v" "commitInv v" using prev by (simp_all add: holdsReleased_def)
  show ?thesis
  proof (rule wp_mono [OF wp_release [OF inv st]], goal_cases)
    case (1 b w')
    show ?case
    proof (cases "activeHold i v")
      case True
      then obtain r where "holdReleased i st r v w'" using 1(2) by auto
      then show ?thesis using 1(2) holdsReleased_step [OF prev st] by blast
    next
      case False
      have "reservations v = giveBackAll (insert i is) st (reservations w)"
        using giveBack_inactive [OF commitInvD(2) [OF inv(2)] False, of st] giveBack_all [OF st, of i "is"] prev
        by (simp add: holdsReleased_def)
      then show ?thesis using 1(2) False prev by (simp add: holdsReleased_def)
    qed
  qed simp
qed

lemma holdsReleased_refl: "stockInv w \<Longrightarrow> commitInv w \<Longrightarrow> holdsReleased {} st w w"
  by (simp add: holdsReleased_def giveBackAll_empty)

definition orderHolds :: "ident \<Rightarrow> world \<Rightarrow> ident set" where
  "orderHolds orderId w = {i. \<exists>r \<in> set (reservations w). rv_id r = i \<and> rv_orderId r = Some orderId \<and> rv_status r = ACTIVE}"

lemma wp_releaseForOrder:
  assumes inv: "stockInv w" "commitInv w"
  shows "wp (releaseForOrder orderId) (\<lambda>_ w'. holdsReleased (orderHolds orderId w) RELEASED w w') (\<lambda>_ _. False) w"
proof -
  let ?ids = "map rv_id (filter (\<lambda>r. rv_orderId r = Some orderId \<and> rv_status r = ACTIVE) (reservations w))"
  have ids: "set ?ids = orderHolds orderId w" by (auto simp: orderHolds_def)
  let ?I = "\<lambda>rest v. \<exists>ds. ?ids = ds @ rest \<and> holdsReleased (set ds) RELEASED w v"
  have "wp (forEach ?ids (\<lambda>i. andThen (release i RELEASED) (ret ()))) (\<lambda>_. ?I []) (\<lambda>_ _. False) w"
  proof (rule wp_forEach_rest)
    show "?I ?ids w" using holdsReleased_refl [OF inv] by simp
  next
    fix i rest v assume "?I (i # rest) v"
    then obtain ds where d: "?ids = ds @ i # rest" "holdsReleased (set ds) RELEASED w v" by blast
    show "wp (andThen (release i RELEASED) (ret ())) (\<lambda>_. ?I rest) (\<lambda>_ _. False) v"
      unfolding wp
      by (rule wp_mono [OF wp_release_step [OF d(2)]]) (use d(1) in \<open>auto intro!: exI [of _ "ds @ [i]"]\<close>)
  qed
  then show ?thesis unfolding releaseForOrder_def wp by (rule wp_mono) (auto simp: ids [symmetric])
qed

definition dueHolds :: "int \<Rightarrow> world \<Rightarrow> reservation list" where
  "dueHolds time w = filter (\<lambda>r. rv_status r = ACTIVE \<and> rv_expiresAt r \<le> time) (reservations w)"

lemma activeHold_left:
  assumes "commitRows w" "r \<in> set (reservations w)" "rv_status r = ACTIVE" "rv_id r \<notin> is"
    and "reservations v = giveBackAll is st (reservations w)"
  shows "activeHold (rv_id r) v"
proof -
  have "find (\<lambda>q. rv_id q = rv_id r) (reservations w) = Some r"
    using assms(1,2) by (simp add: commitRows_def find_unique)
  then show ?thesis
    using assms(3-5) by (auto simp: activeHold_def findReservation_def giveBackAll_def find_mapWhere_frame)
qed

lemma wp_sweepExpired:
  assumes inv: "stockInv w" "commitInv w"
  shows "wp (sweepExpired time) (\<lambda>n w'. n = int (length (dueHolds time w)) \<and>
      holdsReleased (rv_id ` set (dueHolds time w)) EXPIRED w w') (\<lambda>_ _. False) w"
proof -
  let ?ids = "map rv_id (dueHolds time w)"
  note rows = commitInvD(2) [OF inv(2)]
  have dist: "distinct ?ids" using rows by (simp add: commitRows_def dueHolds_def distinct_map_filter)
  let ?I = "\<lambda>rest acc v. \<exists>ds. ?ids = ds @ rest \<and> holdsReleased (set ds) EXPIRED w v \<and> length acc = length ds"
  have "wp (collect ?ids (\<lambda>i. bind (release i EXPIRED) (\<lambda>b. ret (if b then [()] else [])))) (?I []) (\<lambda>_ _. False) w"
  proof (rule wp_collect_rest)
    show "?I ?ids [] w" using holdsReleased_refl [OF inv] by simp
  next
    fix i rest and acc :: "unit list" and v assume "?I (i # rest) acc v"
    then obtain ds where d: "?ids = ds @ i # rest" "holdsReleased (set ds) EXPIRED w v" "length acc = length ds" by blast
    have "i \<in> set ?ids" using d(1) by simp
    then obtain r where r: "r \<in> set (dueHolds time w)" "rv_id r = i" by auto
    have "i \<notin> set ds" using dist unfolding d(1) by simp
    then have "activeHold i v"
      using activeHold_left [OF rows, of r "set ds" v EXPIRED] r d(2) by (simp add: dueHolds_def holdsReleased_def)
    then show "wp (bind (release i EXPIRED) (\<lambda>b. ret (if b then [()] else []))) (\<lambda>ys. ?I rest (acc @ ys)) (\<lambda>_ _. False) v"
      unfolding wp
      by (intro wp_mono [OF wp_release_step [OF d(2)]]) (use d(1,3) in \<open>auto intro!: exI [of _ "ds @ [i]"]\<close>)
  qed
  then show ?thesis
    unfolding sweepExpired_def wp dueHolds_def [symmetric]
    by (rule wp_mono) (auto dest: arg_cong [where f = length] arg_cong [where f = set])
qed

section \<open>Properties\<close>


lemma demo_network: "networkAvailable 7 2 demoWorld = 8"
proof -
  have "sum_list (map cd_available (planCandidates 7 2 demoWorld)) = 8"
    by (simp add: planCandidates_def demoWorld_def List.map_filter_def findLocation_def)
  then show ?thesis using planCandidates_total [OF stockInvD(1) [OF demoWorld_stock], of 7 2] by simp
qed



definition demoReserving :: world where
  "demoReserving = demoWorld\<lparr>orders := [demoOrder], orderLines := [demoLine]\<rparr>"

lemma demoReserving_inv: "stockInv demoReserving" "commitInv demoReserving"
proof -
  show "stockInv demoReserving" using demoWorld_stock by (simp add: demoReserving_def)
  have "commitInv demoWorld"
    using stockInvD(1) [OF demoWorld_stock]
    by (auto simp: commitInv_def commitRows_def held_def committed_def demoWorld_def fun_eq_iff balance_def findSnapshot_def)
  then show "commitInv demoReserving" by (simp add: demoReserving_def)
qed

lemma demoReserving_sel:
  "findOrder 5 demoReserving = Some demoOrder" "linesOf 5 demoReserving = [demoLine]"
  "networkAvailable 7 s demoReserving = networkAvailable 7 s demoWorld"
  "reservations demoReserving = []" "clock demoReserving = 0"
  by (simp_all add: demoReserving_def findOrder_def linesOf_def demoOrder_def demoLine_def networkAvailable_def
      shipNodes_def shipFrom_def findLocation_def availableAt_def demoWorld_sel)

lemma demo_coverable: "coverable demoOrder [demoLine] demoReserving"
proof -
  have "demand [demoLine] s \<le> networkAvailable 7 s demoReserving" for s
    using networkAvailable_nonneg [of 7 s demoWorld] demo_network
    by (cases "s = 2") (simp_all add: demand_def demoLine_def demoReserving_sel)
  then show ?thesis by (simp add: coverable_def demoOrder_def)
qed


text \<open>
  Releasing a hold is idempotent and cannot fail: the first release of an active hold
  returns its units to availability at its position and nowhere else, and says so; of a hold that
  is not active (or does not exist) it changes nothing.  Releasing once more, with whatever status,
  answers false and changes nothing.
\<close>

lemma release_idempotent:
  assumes "stockInv w" "commitInv w" "st \<noteq> ACTIVE" "st' \<noteq> ACTIVE"
  shows "\<exists>w'. release i st w = (Inr (activeHold i w), w') \<and> release i st' w' = (Inr False, w') \<and>
    (if activeHold i w then \<exists>r. holdReleased i st r w w' else w' = w)"
proof -
  from wp_release [OF assms(1-3), of i] obtain b w' where run: "release i st w = (Inr b, w')"
    and out: "b = activeHold i w" "if b then \<exists>r. holdReleased i st r w w' else w' = w"
    by (rule wp_obtain) auto
  have inv: "stockInv w'" "commitInv w'" using out assms(1,2) by (auto simp: holdReleased_def split: if_splits)
  have inactive: "\<not> activeHold i w'"
  proof (cases b)
    case True
    then obtain r where "holdReleased i st r w w'" using out(2) by auto
    then have rows: "reservations w' = giveBack i st (reservations w)" by (simp add: holdReleased_def)
    have "rv_status q \<noteq> ACTIVE" if "q \<in> set (giveBack i st (reservations w))" "rv_id q = i" for q
      using none_active [OF that(1) [unfolded giveBack_def] assms(3)] that(2) by blast
    then show ?thesis
      unfolding activeHold_def findReservation_def rows by (blast dest: find_SomeD)
  qed (use out in simp)
  from wp_release [OF inv assms(4), of i] obtain b' w'' where again: "release i st' w' = (Inr b', w'')"
    "b' = activeHold i w'" "if b' then \<exists>r. holdReleased i st' r w' w'' else w'' = w'"
    by (rule wp_obtain) auto
  then have "release i st' w' = (Inr False, w')" using inactive by simp
  with run(1) out show ?thesis by (intro exI [of _ w'] conjI) simp_all
qed

definition demoHold :: reservation where
  "demoHold = \<lparr>rv_id = 8, rv_tenantId = 7, rv_skuId = 2, rv_locationId = 3, rv_orderId = Some 5,
    rv_orderLineId = Some 6, rv_quantity = 4, rv_status = ACTIVE, rv_expiresAt = 900\<rparr>"

definition demoHeld :: world where
  "demoHeld = demoReserving\<lparr>reservations := [demoHold],
    snapshots := [\<lparr>sn_id = 5, sn_tenantId = 7, sn_skuId = 2, sn_locationId = 3, sn_bal = Buckets 10 4 0 0 0,
      sn_safetyStock = 2, sn_version = 2\<rparr>],
    ledger := ledger demoWorld @ [\<lparr>lg_id = 9, lg_tenantId = 7, lg_skuId = 2, lg_locationId = 3, lg_eventType = RESERVE,
      lg_delta = Buckets 0 4 0 0 0, lg_referenceType = None, lg_referenceId = None, lg_reason = None, lg_createdAt = 0\<rparr>]\<rparr>"

lemma demoHeld_inv: "stockInv demoHeld" "commitInv demoHeld"
proof -
  have rows: "snapshots demoHeld = [\<lparr>sn_id = 5, sn_tenantId = 7, sn_skuId = 2, sn_locationId = 3,
      sn_bal = Buckets 10 4 0 0 0, sn_safetyStock = 2, sn_version = 2\<rparr>]"
    "reservations demoHeld = [demoHold]" "allocations demoHeld = []" "nextId demoHeld = 10"
    "map (\<lambda>l. (lg_key l, lg_delta l)) (ledger demoHeld) = [((7, 2, 3), Buckets 10 0 0 0 0), ((7, 2, 3), Buckets 0 4 0 0 0)]"
    by (simp_all add: demoHeld_def demoReserving_def demoWorld_sel lg_key_def)
  have ok: "snapshotsOk demoHeld" by (simp add: snapshotsOk_def rows sn_key_def)
  have bal: "balance demoHeld k = (if k = (7, 2, 3) then Buckets 10 4 0 0 0 else 0)" for k
    by (auto simp: balance_def findSnapshot_def rows sn_key_def)
  have "ledgerSum demoHeld k = sum_list (map snd (filter (\<lambda>e. fst e = k) (map (\<lambda>l. (lg_key l, lg_delta l)) (ledger demoHeld))))" for k
    by (simp add: ledgerSum_def sumWhere_def filter_map comp_def)
  then have "ledgerSum demoHeld k = balance demoHeld k" for k
    unfolding rows by (auto simp: bal intro: buckets_eqI)
  then show "stockInv demoHeld" by (simp add: stockInv_def ok bal nonneg_def fun_eq_iff)
  show "commitInv demoHeld"
    by (auto simp: commitInv_def ok bal commitRows_def rows held_def committed_def fun_eq_iff demoHold_def rv_key_def)
qed

lemma demoHeld_active: "activeHold 8 demoHeld"
  by (simp add: activeHold_def findReservation_def demoHeld_def demoHold_def)

lemma release_idempotent_witness:
  "\<exists>w'. release 8 RELEASED demoHeld = (Inr True, w') \<and> release 8 EXPIRED w' = (Inr False, w')"
  using release_idempotent [OF demoHeld_inv, of RELEASED EXPIRED 8] demoHeld_active by auto

text \<open>
  The expiry sweep is exact: run at a time, it expires every active hold whose time has come
  and no other row, counts them, returns their units to availability (what a position has
  available plus what it holds is unchanged), and never fails.
\<close>

lemma sweep_exact:
  assumes "stockInv w" "commitInv w"
  shows "\<exists>w'. sweepExpired time w = (Inr (int (length (dueHolds time w))), w') \<and>
    reservations w' = giveBackAll (rv_id ` set (dueHolds time w)) EXPIRED (reservations w) \<and>
    dueHolds time w' = [] \<and> stockInv w' \<and> commitInv w' \<and>
    (\<forall>k. availableAt w' k + held w' k = availableAt w k + held w k)"
proof -
  from wp_sweepExpired [OF assms, of time] obtain n w' where run: "sweepExpired time w = (Inr n, w')"
    "n = int (length (dueHolds time w))" "holdsReleased (rv_id ` set (dueHolds time w)) EXPIRED w w'"
    by (rule wp_obtain) auto
  moreover have "dueHolds time w' = []"
  proof -
    have rows: "reservations w' = giveBackAll (rv_id ` set (dueHolds time w)) EXPIRED (reservations w)"
      using run(3) by (simp add: holdsReleased_def)
    have "\<not> (rv_status r = ACTIVE \<and> rv_expiresAt r \<le> time)"
      if "r \<in> set (giveBackAll (rv_id ` set (dueHolds time w)) EXPIRED (reservations w))" for r
      using none_active [OF that [unfolded giveBackAll_def]] by (auto simp: dueHolds_def)
    then show ?thesis unfolding dueHolds_def [of time w'] rows filter_empty_conv by blast
  qed
  ultimately show ?thesis by (auto simp: holdsReleased_def)
qed

lemma sweep_exact_witness:
  "\<exists>w'. sweepExpired 1000 demoHeld = (Inr 1, w') \<and> dueHolds 1000 w' = []"
proof -
  have "dueHolds 1000 demoHeld = [demoHold]" by (simp add: dueHolds_def demoHeld_def demoHold_def)
  with sweep_exact [OF demoHeld_inv, of 1000] show ?thesis by auto
qed

end
