(* ===== verification/Orders.thy ===== *)
theory Orders
  imports Reservations StateMachine Validation
begin

text \<open>
  backend/src/orders/orders.service.ts: capturing an order, reading it, validating it, moving it
  through its lifecycle and cancelling it.  The invariant \<open>orderInv\<close> says that rows are keyed,
  lines and allocations belong to an order (the allocation to one of its tenant), and the events
  of every order are a legal path from CREATED to its status; \<open>coreInv\<close> joins it to the
  invariants of the stock and of the commitments.
\<close>

section \<open>Definitions\<close>

record orderLineDto =
  dl_skuId :: ident
  dl_quantity :: int
  dl_unitPrice :: "int option"

record createOrderDto =
  co_channel :: OrderChannel
  co_externalRef :: "string option"
  co_customerRef :: "string option"
  co_currency :: "string option"
  co_shipToLatitude :: "real option"
  co_shipToLongitude :: "real option"
  co_shipToRegion :: "string option"
  co_allowSplit :: "bool option"
  co_allowBackorder :: "bool option"
  co_reserveOnCreate :: "bool option"
  co_lines :: "orderLineDto list"

definition newOrder :: "ident \<Rightarrow> createOrderDto \<Rightarrow> ident \<Rightarrow> int \<Rightarrow> order" where
  "newOrder tenantId dto i ts =
    \<lparr>o_id = i, o_tenantId = tenantId, o_channel = co_channel dto, o_externalRef = co_externalRef dto,
     o_status = OrderStatus.CREATED, o_shipToLatitude = co_shipToLatitude dto,
     o_shipToLongitude = co_shipToLongitude dto, o_shipToRegion = co_shipToRegion dto,
     o_allowSplit = (case co_allowSplit dto of Some b \<Rightarrow> b | None \<Rightarrow> True),
     o_allowBackorder = (case co_allowBackorder dto of Some b \<Rightarrow> b | None \<Rightarrow> False),
     o_customerRef = co_customerRef dto,
     o_currency = (case co_currency dto of Some c \<Rightarrow> c | None \<Rightarrow> ''USD''),
     o_paymentStatus = PaymentStatus.PENDING, o_fraudStatus = FraudStatus.PENDING, o_taxTotal = 0,
     o_discountTotal = 0, o_paymentReference = None, o_createdAt = ts\<rparr>"

definition newLine :: "ident \<Rightarrow> orderLineDto \<Rightarrow> ident \<Rightarrow> orderLine" where
  "newLine orderId dl i = \<lparr>ol_id = i, ol_orderId = orderId, ol_skuId = dl_skuId dl,
     ol_quantity = dl_quantity dl,
     ol_unitPrice = (case dl_unitPrice dl of Some p \<Rightarrow> p | None \<Rightarrow> 0)\<rparr>"

text \<open>The unique constraint on tenant, channel and external reference (a missing one is no duplicate).\<close>

definition duplicateRef :: "ident \<Rightarrow> createOrderDto \<Rightarrow> world \<Rightarrow> bool" where
  "duplicateRef tenantId dto w \<longleftrightarrow> co_externalRef dto \<noteq> None \<and>
    list_ex (\<lambda>ord. o_tenantId ord = tenantId \<and> o_channel ord = co_channel dto \<and>
      o_externalRef ord = co_externalRef dto) (orders w)"

definition recordEvent :: "ident \<Rightarrow> OrderStatus option \<Rightarrow> OrderStatus \<Rightarrow> string option \<Rightarrow> (world, unit) op" where
  "recordEvent orderId from to note =
    bind now (\<lambda>ts. andThen (createRow orderEvents orderEvents_update
      \<lparr>oe_orderId = orderId, oe_fromStatus = from, oe_toStatus = to, oe_note = note, oe_createdAt = ts\<rparr>)
    (ret ()))"

definition createLine :: "ident \<Rightarrow> orderLineDto \<Rightarrow> (world, unit) op" where
  "createLine orderId dl =
    bind freshId (\<lambda>i.
    bind (gets (\<lambda>w. list_ex (\<lambda>k. sk_id k = dl_skuId dl) (skus w))) (\<lambda>ok.
    andThen (throwIf (\<not> ok) (PrismaKnown ''P2003'' None))
    (andThen (createRow orderLines orderLines_update (newLine orderId dl i)) (ret ()))))"

definition createOrderTx :: "ident \<Rightarrow> createOrderDto \<Rightarrow> (world, order) op" where
  "createOrderTx tenantId dto =
    bind freshId (\<lambda>i. bind now (\<lambda>ts.
    bind (gets (duplicateRef tenantId dto)) (\<lambda>dup.
    andThen (throwIf dup (PrismaKnown ''P2002'' None))
    (bind (gets (\<lambda>w. list_ex (\<lambda>t. tn_id t = tenantId) (tenants w))) (\<lambda>known.
    andThen (throwIf (\<not> known) (PrismaKnown ''P2003'' None))
    (bind (createRow orders orders_update (newOrder tenantId dto i ts)) (\<lambda>created.
    andThen (forEach (co_lines dto) (createLine i))
    (andThen (recordEvent i None OrderStatus.CREATED None)
    (ret created)))))))))"

text \<open>An order with everything that hangs on it.\<close>

record orderDetails =
  od_order :: order
  od_lines :: "orderLine list"
  od_reservations :: "reservation list"
  od_allocations :: "allocation list"
  od_shipments :: "(shipment \<times> allocation list) list"
  od_events :: "orderEvent list"

definition findTenantOrder :: "ident \<Rightarrow> ident \<Rightarrow> world \<Rightarrow> order option" where
  "findTenantOrder tenantId i w = find (\<lambda>ord. o_id ord = i \<and> o_tenantId ord = tenantId) (orders w)"

definition orderDetailsOf :: "order \<Rightarrow> world \<Rightarrow> orderDetails" where
  "orderDetailsOf ord w =
    \<lparr>od_order = ord, od_lines = linesOf (o_id ord) w,
     od_reservations = filter (\<lambda>r. rv_orderId r = Some (o_id ord)) (reservations w),
     od_allocations = filter (\<lambda>a. al_orderId a = o_id ord) (allocations w),
     od_shipments = map (\<lambda>s. (s, filter (\<lambda>a. al_shipmentId a = Some (sh_id s)) (allocations w)))
       (filter (\<lambda>s. sh_orderId s = o_id ord) (shipments w)),
     od_events = jsSort (\<lambda>a b. oe_createdAt a - oe_createdAt b)
       (filter (\<lambda>e. oe_orderId e = o_id ord) (orderEvents w))\<rparr>"

definition get_order :: "ident \<Rightarrow> ident \<Rightarrow> (world, orderDetails) op" where
  "get_order tenantId i =
    bind (gets (findTenantOrder tenantId i)) (\<lambda>found.
    bind (orThrow found (NotFound ''Order not found'')) (\<lambda>ord.
    gets (orderDetailsOf ord)))"

definition create_order ::
  "int \<Rightarrow> (nat \<Rightarrow> world \<Rightarrow> world) \<Rightarrow> ident \<Rightarrow> createOrderDto \<Rightarrow> (world, orderDetails) op" where
  "create_order ttlSeconds env tenantId dto =
    bind (transaction (createOrderTx tenantId dto)) (\<lambda>ord.
    andThen (if co_reserveOnCreate dto = Some True
             then andThen (reserveForOrder ttlSeconds env (o_id ord)) (ret ()) else ret ())
    (get_order tenantId (o_id ord)))"

record orderQuery = pageQuery +
  oq_status :: "OrderStatus option"
  oq_channel :: "OrderChannel option"
  oq_search :: "string option"

text \<open>\<open>contains\<close> is the database's case-insensitive substring test; NULL contains nothing.\<close>

definition orderMatches :: "(string \<Rightarrow> string \<Rightarrow> bool) \<Rightarrow> ident \<Rightarrow> orderQuery \<Rightarrow> order \<Rightarrow> bool" where
  "orderMatches contains tenantId q ord \<longleftrightarrow> o_tenantId ord = tenantId \<and>
    (case oq_status q of None \<Rightarrow> True | Some s \<Rightarrow> o_status ord = s) \<and>
    (case oq_channel q of None \<Rightarrow> True | Some c \<Rightarrow> o_channel ord = c) \<and>
    (case oq_search q of None \<Rightarrow> True
     | Some txt \<Rightarrow> txt = [] \<or> (case o_externalRef ord of None \<Rightarrow> False | Some e \<Rightarrow> contains e txt) \<or>
         (case o_customerRef ord of None \<Rightarrow> False | Some e \<Rightarrow> contains e txt))"

definition list_orders ::
  "(string \<Rightarrow> string \<Rightarrow> bool) \<Rightarrow> ident \<Rightarrow> orderQuery \<Rightarrow> world \<Rightarrow> (order \<times> orderLine list \<times> nat) page" where
  "list_orders contains tenantId q w =
    paginate (pageQuery.truncate q)
      (map (\<lambda>ord. (ord, linesOf (o_id ord) w, length (filter (\<lambda>s. sh_orderId s = o_id ord) (shipments w))))
        (jsSort (\<lambda>a b. o_createdAt b - o_createdAt a) (filter (orderMatches contains tenantId q) (orders w))))"

text \<open>The guarded transition with its audit event.\<close>

definition transitionTx :: "ident \<Rightarrow> ident \<Rightarrow> OrderStatus \<Rightarrow> string option \<Rightarrow> (world, order) op" where
  "transitionTx tenantId i to note =
    bind (gets (findTenantOrder tenantId i)) (\<lambda>found.
    bind (orThrow found (NotFound ''Order not found'')) (\<lambda>ord.
    andThen (assertTransition (o_status ord) to)
    (bind (updateRow orders orders_update (\<lambda>x. o_id x = i) (o_status_update (\<lambda>_. to))) (\<lambda>updated.
    andThen (recordEvent i (Some (o_status ord)) to note)
    (ret updated)))))"

definition publish :: "domainEvent \<Rightarrow> (world, unit) op" where
  "publish ev = modify (\<lambda>w. w\<lparr>published := published w @ [ev]\<rparr>)"

definition transition :: "ident \<Rightarrow> ident \<Rightarrow> OrderStatus \<Rightarrow> string option \<Rightarrow> (world, order) op" where
  "transition tenantId i to note =
    bind (transaction (transitionTx tenantId i to note)) (\<lambda>result.
    andThen (publish (OrderStatusEvent tenantId i to))
    (ret result))"

text \<open>Giving the money back: refund a captured charge, void an authorization.\<close>

definition setPaymentStatus :: "ident \<Rightarrow> PaymentStatus \<Rightarrow> (world, unit) op" where
  "setPaymentStatus i st =
    andThen (updateRow orders orders_update (\<lambda>x. o_id x = i) (o_paymentStatus_update (\<lambda>_. st))) (ret ())"

definition reversePayment :: "paymentProvider \<Rightarrow> order \<Rightarrow> (world, unit) op" where
  "reversePayment gw ord =
    (case o_paymentReference ord of
       None \<Rightarrow> ret ()
     | Some ref \<Rightarrow>
         if ref = [] then ret ()
         else if o_paymentStatus ord = PaymentStatus.CAPTURED then
           bind (gets (findOrder (o_id ord))) (\<lambda>found.
           bind (orThrow found (PrismaKnown ''P2025'' None)) (\<lambda>full.
           bind (gets (linesOf (o_id ord))) (\<lambda>lines.
           bind (refundPayment gw (full, lines) None) (\<lambda>res.
           if fst res = RefundStatus.REFUNDED then setPaymentStatus (o_id ord) PaymentStatus.REFUNDED else ret ()))))
         else if o_paymentStatus ord = PaymentStatus.AUTHORIZED then
           bind (pp_voidPayment gw ord (Some ref)) (\<lambda>res.
           if fst res = VoidStatus.VOIDED then setPaymentStatus (o_id ord) PaymentStatus.VOIDED else ret ())
         else ret ())"

text \<open>Cancelling one allocation: its units leave the allocated balance.\<close>

definition deallocateParams :: "ident \<Rightarrow> allocation \<Rightarrow> movementParams" where
  "deallocateParams tenantId a =
    (baseMovement tenantId (al_skuId a) (al_locationId a) DEALLOCATE
       (noDeltas\<lparr>bd_allocated := Some (- al_quantity a)\<rparr>))
      \<lparr>mv_referenceType := Some ''allocation'', mv_referenceId := Some (al_id a)\<rparr>"

definition cancelAllocation :: "ident \<Rightarrow> allocation \<Rightarrow> (world, unit) op" where
  "cancelAllocation tenantId a =
    andThen (transaction (
      andThen (applyWithin (deallocateParams tenantId a))
        (updateRow allocations allocations_update (\<lambda>x. al_id x = al_id a)
          (al_status_update (\<lambda>_. AllocationStatus.CANCELLED)))))
    (invalidate tenantId (al_skuId a))"

definition cancelShipments :: "ident \<Rightarrow> (world, unit) op" where
  "cancelShipments i = bind now (\<lambda>ts. updateMany shipments shipments_update
    (\<lambda>s. sh_orderId s = i \<and> sh_status s \<in> {ShipmentStatus.PENDING, ShipmentStatus.PICKED})
    (\<lambda>s. s\<lparr>sh_status := ShipmentStatus.CANCELLED, sh_updatedAt := ts\<rparr>))"

definition cancel :: "paymentProvider \<Rightarrow> ident \<Rightarrow> ident \<Rightarrow> string option \<Rightarrow> (world, order) op" where
  "cancel gw tenantId i note =
    bind (gets (findTenantOrder tenantId i)) (\<lambda>found.
    bind (orThrow found (NotFound ''Order not found'')) (\<lambda>ord.
    andThen (releaseForOrder (o_id ord))
    (bind (gets (\<lambda>w. filter (\<lambda>a. al_orderId a = o_id ord \<and> openAllocation a) (allocations w))) (\<lambda>opened.
    andThen (forEach opened (cancelAllocation tenantId))
    (andThen (cancelShipments (o_id ord))
    (bind (transition tenantId i OrderStatus.CANCELLED note) (\<lambda>cancelled.
    andThen (reversePayment gw ord)
    (ret cancelled))))))))"

definition recordOutcome :: "ident \<Rightarrow> validationOutcome \<Rightarrow> (world, unit) op" where
  "recordOutcome i out =
    andThen (updateRow orders orders_update (\<lambda>x. o_id x = i)
      (\<lambda>x. x\<lparr>o_paymentStatus := vo_paymentStatus out, o_fraudStatus := vo_fraudStatus out,
        o_taxTotal := vo_taxTotal out, o_discountTotal := vo_discountTotal out,
        o_paymentReference := vo_paymentReference out\<rparr>)) (ret ())"

definition validate_order ::
  "validationConfig \<Rightarrow> paymentProvider \<Rightarrow> ident \<Rightarrow> ident \<Rightarrow> (world, order) op" where
  "validate_order cfg gw tenantId i =
    bind (gets (findTenantOrder tenantId i)) (\<lambda>found.
    bind (orThrow found (NotFound ''Order not found'')) (\<lambda>ord.
    bind (gets (linesOf i)) (\<lambda>lines.
    bind (evaluate cfg gw (ord, lines)) (\<lambda>outcome.
    andThen (recordOutcome i outcome)
    (case vo_rejection outcome of
       Some why \<Rightarrow>
         if why = [] then transition tenantId i OrderStatus.VALIDATED (Some ''validated'')
         else andThen (cancel gw tenantId i (Some (''validation failed: '' @ why)))
           (throw (BadRequest (''Order validation failed: '' @ why)))
     | None \<Rightarrow> transition tenantId i OrderStatus.VALIDATED (Some ''validated''))))))"

text \<open>The console's release and reserve requests (orders.controller.ts).\<close>

definition release_order :: "ident \<Rightarrow> ident \<Rightarrow> (world, order) op" where
  "release_order tenantId i = transition tenantId i OrderStatus.RELEASED (Some ''released to fulfilment'')"

definition reserve_order ::
  "int \<Rightarrow> (nat \<Rightarrow> world \<Rightarrow> world) \<Rightarrow> ident \<Rightarrow> ident \<Rightarrow> (world, reservation list) op" where
  "reserve_order ttlSeconds env tenantId i =
    andThen (get_order tenantId i) (reserveForOrder ttlSeconds env i)"

section \<open>The invariant of the order book\<close>

definition history :: "world \<Rightarrow> ident \<Rightarrow> orderEvent list" where
  "history w i = filter (\<lambda>e. oe_orderId e = i) (orderEvents w)"

text \<open>The events of an order: a legal path from CREATED, each entry starting where the last ended.\<close>

definition historyOk :: "orderEvent list \<Rightarrow> OrderStatus \<Rightarrow> bool" where
  "historyOk es st \<longleftrightarrow> (\<exists>path. map oe_toStatus es = OrderStatus.CREATED # path \<and>
    map oe_fromStatus es = None # map Some (butlast (OrderStatus.CREATED # path)) \<and>
    legalPath OrderStatus.CREATED path \<and> last (OrderStatus.CREATED # path) = st)"

definition orderRows :: "world \<Rightarrow> bool" where
  "orderRows w \<longleftrightarrow>
    distinct (map o_id (orders w)) \<and> (\<forall>i \<in> o_id ` set (orders w). i < nextId w) \<and>
    distinct (map ol_id (orderLines w)) \<and>
    (\<forall>l \<in> set (orderLines w). ol_id l < nextId w \<and> 0 < ol_quantity l \<and> ol_orderId l \<in> o_id ` set (orders w)) \<and>
    (\<forall>a \<in> set (allocations w). (al_orderId a, al_tenantId a) \<in> (\<lambda>ord. (o_id ord, o_tenantId ord)) ` set (orders w))"

definition orderInv :: "world \<Rightarrow> bool" where
  "orderInv w \<longleftrightarrow> orderRows w \<and>
    (\<forall>ord \<in> set (orders w). historyOk (history w (o_id ord)) (o_status ord)) \<and>
    (\<forall>e \<in> set (orderEvents w). oe_orderId e \<in> o_id ` set (orders w))"

definition coreInv :: "world \<Rightarrow> bool" where
  "coreInv w \<longleftrightarrow> stockInv w \<and> commitInv w \<and> orderInv w"

lemma coreInvD: "coreInv w \<Longrightarrow> stockInv w" "coreInv w \<Longrightarrow> commitInv w" "coreInv w \<Longrightarrow> orderInv w"
  by (simp_all add: coreInv_def)

lemma orderInvD:
  "orderInv w \<Longrightarrow> orderRows w" "orderInv w \<Longrightarrow> distinct (map o_id (orders w))"
  "orderInv w \<Longrightarrow> distinct (map ol_id (orderLines w))"
  by (simp_all add: orderInv_def orderRows_def)

lemma orderInv_cong:
  assumes "orderInv w" "orders w' = orders w" "orderLines w' = orderLines w" "orderEvents w' = orderEvents w"
    and "map (\<lambda>a. (al_orderId a, al_tenantId a)) (allocations w') = map (\<lambda>a. (al_orderId a, al_tenantId a)) (allocations w)"
    and "nextId w \<le> nextId w'"
  shows "orderInv w'"
proof -
  have al: "(\<lambda>a. (al_orderId a, al_tenantId a)) ` set (allocations w') = (\<lambda>a. (al_orderId a, al_tenantId a)) ` set (allocations w)"
    using assms(5) by (metis list.set_map)
  have "(al_orderId a, al_tenantId a) \<in> (\<lambda>ord. (o_id ord, o_tenantId ord)) ` set (orders w)"
    if "a \<in> set (allocations w')" for a
  proof -
    have "(al_orderId a, al_tenantId a) \<in> (\<lambda>a. (al_orderId a, al_tenantId a)) ` set (allocations w)"
      using that al by blast
    then show ?thesis using assms(1) by (auto simp: orderInv_def orderRows_def)
  qed
  then show ?thesis
    using assms(1-4,6) by (auto simp: orderInv_def orderRows_def history_def intro: less_le_trans)
qed

lemma orderInv_frame:
  "orderInv w \<Longrightarrow> orders w' = orders w \<Longrightarrow> orderLines w' = orderLines w \<Longrightarrow> orderEvents w' = orderEvents w \<Longrightarrow>
    allocations w' = allocations w \<Longrightarrow> nextId w \<le> nextId w' \<Longrightarrow> orderInv w'"
  by (rule orderInv_cong) simp_all

lemma orderInv_frame_simps [simp]:
  "orderInv (snapshots_update f0 w) = orderInv w" "orderInv (ledger_update f1 w) = orderInv w"
  "orderInv (reservations_update f2 w) = orderInv w" "orderInv (shipments_update f3 w) = orderInv w"
  "orderInv (returnRows_update f4 w) = orderInv w" "orderInv (returnLines_update f5 w) = orderInv w"
  "orderInv (inbounds_update f6 w) = orderInv w" "orderInv (outbox_update f7 w) = orderInv w"
  "orderInv (nextSeq_update f8 w) = orderInv w" "orderInv (cache_update f9 w) = orderInv w"
  "orderInv (published_update f10 w) = orderInv w" "orderInv (jobs_update f11 w) = orderInv w"
  "orderInv (clock_update f12 w) = orderInv w" "orderInv (gatewayLog_update f13 w) = orderInv w"
  by (simp_all add: orderInv_def orderRows_def history_def)

lemma orderInv_nextId: "orderInv w \<Longrightarrow> nextId w \<le> n \<Longrightarrow> orderInv (w\<lparr>nextId := n\<rparr>)"
  by (erule orderInv_frame) simp_all

lemma orderInv_stockOnly: "orderInv w \<Longrightarrow> stockOnly w w' \<Longrightarrow> orderInv w'"
  using stockOnly_sel [of w w'] by (elim orderInv_frame) simp_all

lemma orderInv_stockSide: "orderInv w \<Longrightarrow> stockSide w w' \<Longrightarrow> orderInv w'"
  by (erule orderInv_frame) (simp_all add: stockSide_def)

lemma orderInv_invalidated: "orderInv w \<Longrightarrow> orderInv (invalidated t s w)"
  by (erule orderInv_frame) simp_all

lemma coreInv_invalidated: "coreInv w \<Longrightarrow> coreInv (invalidated t s w)"
  by (simp add: coreInv_def commitInv_invalidated orderInv_invalidated) (auto intro: stockInv_frame)

lemma coreInv_nextId: "coreInv w \<Longrightarrow> nextId w \<le> n \<Longrightarrow> coreInv (w\<lparr>nextId := n\<rparr>)"
  by (simp add: coreInv_def stockInv_nextId commitInv_nextId orderInv_nextId)

lemma coreInv_frame_simps [simp]:
  "coreInv (shipments_update f3 w) = coreInv w" "coreInv (returnRows_update f4 w) = coreInv w"
  "coreInv (returnLines_update f5 w) = coreInv w" "coreInv (inbounds_update f6 w) = coreInv w"
  "coreInv (outbox_update f7 w) = coreInv w" "coreInv (nextSeq_update f8 w) = coreInv w"
  "coreInv (cache_update f9 w) = coreInv w" "coreInv (published_update f10 w) = coreInv w"
  "coreInv (jobs_update f11 w) = coreInv w" "coreInv (clock_update f12 w) = coreInv w"
  "coreInv (gatewayLog_update f13 w) = coreInv w"
  by (simp_all add: coreInv_def)

text \<open>Changing fields of orders other than identity, tenant and status.\<close>

lemma orderInv_update_orders:
  assumes inv: "orderInv w" and f: "\<And>x. o_id (f x) = o_id x" "\<And>x. o_tenantId (f x) = o_tenantId x" "\<And>x. o_status (f x) = o_status x"
  shows "orderInv (w\<lparr>orders := mapWhere p f (orders w)\<rparr>)"
proof -
  let ?w = "w\<lparr>orders := mapWhere p f (orders w)\<rparr>"
  have ids: "map o_id (orders ?w) = map o_id (orders w)" by (simp add: map_mapWhere_frame f)
  have idset: "o_id ` set (orders ?w) = o_id ` set (orders w)" by (simp add: image_mapWhere_frame f)
  have own: "(\<lambda>ord. (o_id ord, o_tenantId ord)) ` set (orders ?w) = (\<lambda>ord. (o_id ord, o_tenantId ord)) ` set (orders w)"
    by (simp add: image_mapWhere_frame f)
  have "orderRows ?w"
    using inv unfolding orderInv_def orderRows_def idset own ids by simp
  moreover have "historyOk (history ?w (o_id ord)) (o_status ord)" if mem: "ord \<in> set (orders ?w)" for ord
  proof -
    obtain q where "q \<in> set (orders w)" "ord = (if p q then f q else q)"
      using mem by (auto simp: set_mapWhere)
    then show ?thesis using inv f by (auto simp: orderInv_def history_def split: if_splits)
  qed
  moreover have "\<forall>e \<in> set (orderEvents ?w). oe_orderId e \<in> o_id ` set (orders ?w)"
    using inv unfolding orderInv_def idset by simp
  ultimately show ?thesis by (simp add: orderInv_def)
qed

lemma coreInv_update_orders:
  assumes "coreInv w" "\<And>x. o_id (f x) = o_id x" "\<And>x. o_tenantId (f x) = o_tenantId x" "\<And>x. o_status (f x) = o_status x"
  shows "coreInv (w\<lparr>orders := mapWhere p f (orders w)\<rparr>)"
  using assms orderInv_update_orders [of w f p] by (simp add: coreInv_def)

text \<open>A transition appends a step to the path of the order.\<close>

lemma historyOk_append:
  assumes "historyOk es st" "canTransition st to" "oe_fromStatus e = Some st" "oe_toStatus e = to"
  shows "historyOk (es @ [e]) to"
proof -
  obtain path where p: "map oe_toStatus es = OrderStatus.CREATED # path"
    "map oe_fromStatus es = None # map Some (butlast (OrderStatus.CREATED # path))"
    "legalPath OrderStatus.CREATED path" "last (OrderStatus.CREATED # path) = st"
    using assms(1) by (auto simp: historyOk_def)
  let ?xs = "OrderStatus.CREATED # path"
  have "map Some (butlast ?xs) @ [Some (last ?xs)] = map Some (butlast ?xs @ [last ?xs])" by simp
  also have "butlast ?xs @ [last ?xs] = ?xs" by (rule append_butlast_last_id) simp
  finally have "map Some (butlast (OrderStatus.CREATED # path @ [to])) =
      map Some (butlast (OrderStatus.CREATED # path)) @ [Some st]"
    using p(4) by (simp only: append_Cons [symmetric] butlast_snoc)
  then show ?thesis
    unfolding historyOk_def using p assms(2-4)
    by (intro exI [of _ "path @ [to]"]) (simp add: legalPath_append)
qed

definition moveOrder :: "order \<Rightarrow> OrderStatus \<Rightarrow> string option \<Rightarrow> world \<Rightarrow> world" where
  "moveOrder ord to note w = w\<lparr>orders := mapWhere (\<lambda>x. o_id x = o_id ord) (o_status_update (\<lambda>_. to)) (orders w),
     orderEvents := orderEvents w @ [\<lparr>oe_orderId = o_id ord, oe_fromStatus = Some (o_status ord),
       oe_toStatus = to, oe_note = note, oe_createdAt = clock w\<rparr>]\<rparr>"

lemma moveOrder_sel [simp]:
  "snapshots (moveOrder ord to n w) = snapshots w" "ledger (moveOrder ord to n w) = ledger w"
  "reservations (moveOrder ord to n w) = reservations w" "allocations (moveOrder ord to n w) = allocations w"
  "shipments (moveOrder ord to n w) = shipments w" "orderLines (moveOrder ord to n w) = orderLines w"
  "nextId (moveOrder ord to n w) = nextId w" "clock (moveOrder ord to n w) = clock w"
  "returnRows (moveOrder ord to n w) = returnRows w" "returnLines (moveOrder ord to n w) = returnLines w"
  "inbounds (moveOrder ord to n w) = inbounds w" "gatewayLog (moveOrder ord to n w) = gatewayLog w"
  "published (moveOrder ord to n w) = published w" "locations (moveOrder ord to n w) = locations w"
  "orders (moveOrder ord to n w) = mapWhere (\<lambda>x. o_id x = o_id ord) (o_status_update (\<lambda>_. to)) (orders w)"
  "stockInv (moveOrder ord to n w) = stockInv w" "commitInv (moveOrder ord to n w) = commitInv w"
  "cache (moveOrder ord to n w) = cache w"
  by (simp_all add: moveOrder_def)

lemma orderInv_moveOrder:
  assumes inv: "orderInv w" and ord: "ord \<in> set (orders w)" and legal: "canTransition (o_status ord) to"
  shows "orderInv (moveOrder ord to note w)"
proof -
  let ?w = "moveOrder ord to note w" and ?f = "o_status_update (\<lambda>_. to)"
  have ids: "map o_id (orders ?w) = map o_id (orders w)" by (simp add: map_mapWhere_frame)
  have idset: "o_id ` set (orders ?w) = o_id ` set (orders w)" by (simp add: image_mapWhere_frame)
  have own: "(\<lambda>ord. (o_id ord, o_tenantId ord)) ` set (orders ?w) = (\<lambda>ord. (o_id ord, o_tenantId ord)) ` set (orders w)"
    by (simp add: image_mapWhere_frame)
  have "orderRows ?w" using inv unfolding orderInv_def orderRows_def idset own ids by simp
  moreover have "historyOk (history ?w (o_id x)) (o_status x)" if "x \<in> set (orders ?w)" for x
  proof -
    obtain q where q: "q \<in> set (orders w)" "x = (if o_id q = o_id ord then ?f q else q)"
      using \<open>x \<in> set (orders ?w)\<close> by (auto simp: set_mapWhere)
    have okq: "historyOk (history w (o_id q)) (o_status q)" using inv q(1) by (simp add: orderInv_def)
    show ?thesis
    proof (cases "o_id q = o_id ord")
      case True
      then have "q = ord" using q(1) ord orderInvD(2) [OF inv] by (auto simp: distinct_map inj_on_def)
      then show ?thesis
        using q okq legal by (auto simp: moveOrder_def history_def intro!: historyOk_append)
    next
      case False
      then show ?thesis using q okq by (simp add: moveOrder_def history_def)
    qed
  qed
  moreover have "\<forall>e \<in> set (orderEvents ?w). oe_orderId e \<in> o_id ` set (orders ?w)"
    using inv ord unfolding orderInv_def idset by (auto simp: moveOrder_def)
  ultimately show ?thesis by (simp add: orderInv_def)
qed

section \<open>Transitions\<close>

lemma findTenantOrderD:
  assumes "findTenantOrder t i w = Some ord"
  shows "ord \<in> set (orders w)" "o_id ord = i" "o_tenantId ord = t"
  using find_SomeD [OF assms [unfolded findTenantOrder_def]] by simp_all

lemma findOrder_row:
  assumes "orderInv w" "ord \<in> set (orders w)"
  shows "findOrder (o_id ord) w = Some ord"
  using assms unfolding findOrder_def by (intro find_unique orderInvD(2))

lemma wp_publish [wp]: "wp (publish ev) Q E = (\<lambda>w. Q () (w\<lparr>published := published w @ [ev]\<rparr>))"
  by (simp add: publish_def wp)

lemma wp_recordEvent [wp]: "wp (recordEvent i from to note) Q E =
    (\<lambda>w. Q () (w\<lparr>orderEvents := orderEvents w @ [\<lparr>oe_orderId = i, oe_fromStatus = from, oe_toStatus = to,
      oe_note = note, oe_createdAt = clock w\<rparr>]\<rparr>))"
  by (simp add: recordEvent_def wp)

lemma wp_transition:
  assumes inv: "orderInv w"
  shows "wp (transition t i to note)
    (\<lambda>updated w'. \<exists>ord. findTenantOrder t i w = Some ord \<and> canTransition (o_status ord) to \<and>
      updated = ord\<lparr>o_status := to\<rparr> \<and>
      w' = (moveOrder ord to note w)\<lparr>published := published w @ [OrderStatusEvent t i to]\<rparr>)
    (\<lambda>e w'. w' = w \<and> (findTenantOrder t i w = None \<and> e = NotFound ''Order not found'' \<or>
      (\<exists>ord. findTenantOrder t i w = Some ord \<and> \<not> canTransition (o_status ord) to \<and>
        e = BadRequest ''Illegal order transition''))) w"
proof (cases "findTenantOrder t i w")
  case None
  then show ?thesis by (simp add: transition_def transitionTx_def wp)
next
  case (Some ord)
  note o = findTenantOrderD [OF Some]
  have "find (\<lambda>x. o_id x = i) (orders w) = Some ord"
    using findOrder_row [OF inv o(1)] o(2) by (simp add: findOrder_def)
  then show ?thesis using Some o(2) by (simp add: transition_def transitionTx_def wp moveOrder_def)
qed

lemma coreInv_moveOrder:
  "coreInv w \<Longrightarrow> ord \<in> set (orders w) \<Longrightarrow> canTransition (o_status ord) to \<Longrightarrow> coreInv (moveOrder ord to note w)"
  by (simp add: coreInv_def orderInv_moveOrder)

lemma keeps_core_transition [keepsI]: "keeps coreInv (transition t i to note)"
proof (rule keeps_intro)
  fix w assume w: "coreInv w"
  show "wp (transition t i to note) (\<lambda>_. coreInv) (\<lambda>_. coreInv) w"
    by (rule wp_mono [OF wp_transition [OF coreInvD(3) [OF w]]])
      (use w in \<open>auto intro!: coreInv_moveOrder intro: findTenantOrderD(1)\<close>)
qed

section \<open>Reading and capturing\<close>

lemma wp_get_order: "wp (get_order t i) Q E w = (case findTenantOrder t i w of
    None \<Rightarrow> E (NotFound ''Order not found'') w | Some ord \<Rightarrow> Q (orderDetailsOf ord w) w)"
  by (simp add: get_order_def wp split: option.split)

lemma keeps_get_order [keepsI]: "keeps I (get_order t i)"
  by (rule keeps_intro) (simp add: wp_get_order split: option.split)

text \<open>The state after the transaction that captures an order.\<close>

fun linesFrom :: "ident \<Rightarrow> ident \<Rightarrow> orderLineDto list \<Rightarrow> orderLine list" where
  "linesFrom orderId n [] = []"
| "linesFrom orderId n (dl # dls) = newLine orderId dl n # linesFrom orderId (Suc n) dls"

definition captured :: "ident \<Rightarrow> createOrderDto \<Rightarrow> world \<Rightarrow> world" where
  "captured tenantId dto w = w\<lparr>
     orders := orders w @ [newOrder tenantId dto (nextId w) (clock w)],
     orderLines := orderLines w @ linesFrom (nextId w) (Suc (nextId w)) (co_lines dto),
     nextId := Suc (nextId w) + length (co_lines dto),
     orderEvents := orderEvents w @ [\<lparr>oe_orderId = nextId w, oe_fromStatus = None, oe_toStatus = OrderStatus.CREATED,
       oe_note = None, oe_createdAt = clock w\<rparr>]\<rparr>"

lemma linesFrom_rows:
  "map ol_quantity (linesFrom i n dls) = map dl_quantity dls" "map ol_skuId (linesFrom i n dls) = map dl_skuId dls"
  "map ol_id (linesFrom i n dls) = [n..<n + length dls]" "ol_orderId ` set (linesFrom i n dls) \<subseteq> {i}"
proof (induction dls arbitrary: n)
  case (Cons dl dls)
  case 3
  have "[n..<n + length (dl # dls)] = n # [Suc n..<Suc n + length dls]" by (subst upt_conv_Cons) simp_all
  then show ?case using Cons.IH(3) [of "Suc n"] by (simp add: newLine_def del: upt_Suc)
qed (auto simp: newLine_def)

lemma list_ex_key: "list_ex (\<lambda>k. f k = x) ks \<longleftrightarrow> x \<in> f ` set ks"
  unfolding list_ex_iff by blast

lemma wp_createLine: "wp (createLine i dl) Q E = (\<lambda>w. if dl_skuId dl \<in> sk_id ` set (skus w)
    then Q () (w\<lparr>nextId := Suc (nextId w), orderLines := orderLines w @ [newLine i dl (nextId w)]\<rparr>)
    else E (PrismaKnown ''P2003'' None) (w\<lparr>nextId := Suc (nextId w)\<rparr>))"
  by (simp add: fun_eq_iff createLine_def wp list_ex_key)

lemma wp_createLines:
  "wp (forEach dls (createLine i))
    (\<lambda>_ w'. (\<forall>dl \<in> set dls. dl_skuId dl \<in> sk_id ` set (skus w)) \<and>
      w' = w\<lparr>orderLines := orderLines w @ linesFrom i (nextId w) dls, nextId := nextId w + length dls\<rparr>)
    (\<lambda>e _. e = PrismaKnown ''P2003'' None \<and> (\<exists>dl \<in> set dls. dl_skuId dl \<notin> sk_id ` set (skus w))) w"
proof (induction dls arbitrary: w)
  case Nil
  then show ?case by (simp add: wp)
next
  case (Cons dl dls)
  let ?w = "w\<lparr>nextId := Suc (nextId w), orderLines := orderLines w @ [newLine i dl (nextId w)]\<rparr>"
  show ?case
  proof (cases "dl_skuId dl \<in> sk_id ` set (skus w)")
    case True
    have "wp (forEach dls (createLine i))
      (\<lambda>_ w'. (\<forall>dl \<in> set (dl # dls). dl_skuId dl \<in> sk_id ` set (skus w)) \<and>
        w' = w\<lparr>orderLines := orderLines w @ linesFrom i (nextId w) (dl # dls), nextId := nextId w + length (dl # dls)\<rparr>)
      (\<lambda>e _. e = PrismaKnown ''P2003'' None \<and> (\<exists>dl \<in> set (dl # dls). dl_skuId dl \<notin> sk_id ` set (skus w))) ?w"
      by (rule wp_mono [OF Cons.IH [of ?w]]) (use True in \<open>auto intro!: world.equality\<close>)
    then show ?thesis using True by (simp add: wp wp_createLine)
  next
    case False
    then show ?thesis by (simp add: wp wp_createLine)
  qed
qed

text \<open>When an order can be captured.\<close>

definition capturable :: "ident \<Rightarrow> createOrderDto \<Rightarrow> world \<Rightarrow> bool" where
  "capturable tenantId dto w \<longleftrightarrow> \<not> duplicateRef tenantId dto w \<and> tenantId \<in> tn_id ` set (tenants w) \<and>
    (\<forall>dl \<in> set (co_lines dto). dl_skuId dl \<in> sk_id ` set (skus w))"

lemma wp_createOrderTx:
  "wp (createOrderTx tenantId dto)
    (\<lambda>ord w'. capturable tenantId dto w \<and> ord = newOrder tenantId dto (nextId w) (clock w) \<and> w' = captured tenantId dto w)
    (\<lambda>e _. \<not> capturable tenantId dto w \<and> e \<in> {PrismaKnown ''P2002'' None, PrismaKnown ''P2003'' None}) w"
proof -
  have dup: "duplicateRef tenantId dto (w\<lparr>nextId := n\<rparr>) = duplicateRef tenantId dto w" for n
    by (simp add: duplicateRef_def)
  have lines: "wp (forEach (co_lines dto) (createLine (nextId w)))
    (\<lambda>_. wp (recordEvent (nextId w) None OrderStatus.CREATED None)
      (\<lambda>_ w'. capturable tenantId dto w \<and> w' = captured tenantId dto w) (\<lambda>_ _. False))
    (\<lambda>e _. \<not> capturable tenantId dto w \<and> e \<in> {PrismaKnown ''P2002'' None, PrismaKnown ''P2003'' None})
    (w\<lparr>nextId := Suc (nextId w), orders := orders w @ [newOrder tenantId dto (nextId w) (clock w)]\<rparr>)"
    if "\<not> duplicateRef tenantId dto w" "tenantId \<in> tn_id ` set (tenants w)"
  proof (rule wp_mono [OF wp_createLines], goal_cases)
    case (1 x w')
    then have "w' = w\<lparr>nextId := Suc (nextId w) + length (co_lines dto),
        orders := orders w @ [newOrder tenantId dto (nextId w) (clock w)],
        orderLines := orderLines w @ linesFrom (nextId w) (Suc (nextId w)) (co_lines dto)\<rparr>"
      by (intro world.equality) simp_all
    then show ?case using 1 that by (simp add: wp capturable_def captured_def)
  qed (use that in \<open>simp add: capturable_def\<close>)
  show ?thesis
  proof (cases "duplicateRef tenantId dto w \<or> tenantId \<notin> tn_id ` set (tenants w)")
    case True
    then show ?thesis by (auto simp: createOrderTx_def wp dup list_ex_key capturable_def)
  next
    case False
    then show ?thesis using lines by (simp add: createOrderTx_def wp dup list_ex_key)
  qed
qed

text \<open>A captured order is a well-formed one.\<close>

definition dtoOk :: "createOrderDto \<Rightarrow> bool" where
  "dtoOk dto \<longleftrightarrow> (\<forall>dl \<in> set (co_lines dto). 0 < dl_quantity dl)"

lemma linesFrom_mem:
  assumes "l \<in> set (linesFrom i n dls)"
  shows "ol_orderId l = i" "n \<le> ol_id l" "ol_id l < n + length dls" "ol_quantity l \<in> dl_quantity ` set dls"
proof -
  show "ol_orderId l = i" using assms linesFrom_rows(4) [of i n dls] by blast
  have "ol_id l \<in> set [n..<n + length dls]" using assms linesFrom_rows(3) [of i n dls] by (metis image_eqI list.set_map)
  then show "n \<le> ol_id l" "ol_id l < n + length dls" by simp_all
  show "ol_quantity l \<in> dl_quantity ` set dls" using assms linesFrom_rows(1) [of i n dls] by (metis image_eqI list.set_map)
qed

lemma orderInv_captured:
  assumes inv: "orderInv w" and ok: "dtoOk dto"
  shows "orderInv (captured t dto w)"
proof -
  let ?n = "nextId w" and ?w = "captured t dto w" and ?ls = "linesFrom (nextId w) (Suc (nextId w)) (co_lines dto)"
  note m = linesFrom_mem [of _ ?n "Suc ?n" "co_lines dto"]
  have rows: "orderRows w" and old: "\<forall>ord \<in> set (orders w). historyOk (history w (o_id ord)) (o_status ord)"
    "\<forall>e \<in> set (orderEvents w). oe_orderId e \<in> o_id ` set (orders w)"
    using inv by (simp_all add: orderInv_def)
  have below: "o_id ord < ?n" if "ord \<in> set (orders w)" for ord using rows that by (simp add: orderRows_def)
  have new: "orders ?w = orders w @ [newOrder t dto ?n (clock w)]" "orderLines ?w = orderLines w @ ?ls"
    "nextId ?w = Suc ?n + length (co_lines dto)" "allocations ?w = allocations w"
    and ev: "orderEvents ?w = orderEvents w @ [\<lparr>oe_orderId = ?n, oe_fromStatus = None, oe_toStatus = OrderStatus.CREATED,
       oe_note = None, oe_createdAt = clock w\<rparr>]"
    by (simp_all add: captured_def)
  have no: "o_id (newOrder t dto ?n (clock w)) = ?n" "o_status (newOrder t dto ?n (clock w)) = OrderStatus.CREATED"
    by (simp_all add: newOrder_def)
  have "orderRows ?w"
    unfolding orderRows_def
  proof (intro conjI ballI)
    have "?n \<notin> o_id ` set (orders w)" using below by fastforce
    then show "distinct (map o_id (orders ?w))" using rows by (simp add: orderRows_def new no)
    show "i < nextId ?w" if "i \<in> o_id ` set (orders ?w)" for i using that below by (fastforce simp: new no)
    have "distinct (map ol_id ?ls)" unfolding linesFrom_rows(3) by simp
    moreover have "ol_id l < ?n" if "l \<in> set (orderLines w)" for l using rows that by (simp add: orderRows_def)
    ultimately show "distinct (map ol_id (orderLines ?w))" using rows m(2) by (fastforce simp: orderRows_def new)
  next
    fix l assume l: "l \<in> set (orderLines ?w)"
    show "ol_id l < nextId ?w"
      using l rows m(3) [of l] by (auto simp: orderRows_def new intro: less_le_trans)
    show "0 < ol_quantity l"
      using l rows m(4) [of l] ok by (auto simp: orderRows_def new dtoOk_def)
    show "ol_orderId l \<in> o_id ` set (orders ?w)"
      using l rows m(1) [of l] by (auto simp: orderRows_def new no)
  next
    fix a assume "a \<in> set (allocations ?w)"
    then show "(al_orderId a, al_tenantId a) \<in> (\<lambda>ord. (o_id ord, o_tenantId ord)) ` set (orders ?w)"
      using rows by (auto simp: orderRows_def new)
  qed
  moreover have "historyOk (history ?w (o_id ord)) (o_status ord)" if "ord \<in> set (orders ?w)" for ord
  proof (cases "ord \<in> set (orders w)")
    case True
    then have "history ?w (o_id ord) = history w (o_id ord)" using below [OF True] by (simp add: history_def ev)
    then show ?thesis using old(1) True by simp
  next
    case False
    then have ord: "ord = newOrder t dto ?n (clock w)" using that by (simp add: new)
    have "?n \<notin> o_id ` set (orders w)" using below by fastforce
    then have "oe_orderId e \<noteq> ?n" if "e \<in> set (orderEvents w)" for e using old(2) that by metis
    then have "history w ?n = []" by (simp add: history_def filter_empty_conv)
    then show ?thesis unfolding ord no by (simp add: history_def ev historyOk_def)
  qed
  moreover have "\<forall>e \<in> set (orderEvents ?w). oe_orderId e \<in> o_id ` set (orders ?w)"
    using old(2) by (auto simp: ev new no)
  ultimately show ?thesis by (simp add: orderInv_def)
qed

lemma coreInv_captured: "coreInv w \<Longrightarrow> dtoOk dto \<Longrightarrow> coreInv (captured t dto w)"
proof -
  assume w: "coreInv w" "dtoOk dto"
  have "stockInv (captured t dto w)" "commitInv (captured t dto w)"
    using coreInvD [OF w(1)] by (simp_all add: captured_def stockInv_nextId commitInv_nextId)
  then show ?thesis using orderInv_captured w by (simp add: coreInv_def)
qed

section \<open>Invariance of the order book\<close>

lemma keeps_order_freshId [keepsI]: "keeps orderInv freshId"
  by (rule keeps_intro) (simp add: wp orderInv_nextId)

lemma orderInv_holdsOnly: "orderInv w \<Longrightarrow> holdsOnly w w' \<Longrightarrow> orderInv w'"
  using holdsOnly_sel [of w w'] by (elim orderInv_frame) simp_all

lemma wp_reserveLines_core:
  assumes w: "coreInv w" and ls: "distinct (map ol_id ls)" "\<forall>l \<in> set ls. 0 \<le> ol_quantity l"
  shows "wp (transaction (collect ls (reserveLine ttl ord))) (\<lambda>_. coreInv) (\<lambda>e. coreInv) w"
  unfolding wp_transaction
  by (rule wp_mono [OF wp_reserveLines [OF coreInvD(1,2) [OF w] ls]])
    (use w in \<open>auto simp: coreInv_def orderReserved_def holdsTaken_def intro: orderInv_holdsOnly\<close>)

lemma coreInv_afterReserve: "coreInv w \<Longrightarrow> afterReserve w w' \<Longrightarrow> coreInv w'"
  by (auto simp: coreInv_def afterReserve_def elim: orderInv_frame)

lemma linesOf_ok:
  assumes "orderInv w"
  shows "distinct (map ol_id (linesOf i w))" "\<forall>l \<in> set (linesOf i w). 0 < ol_quantity l"
  using assms by (auto simp: orderInv_def orderRows_def linesOf_def intro: distinct_map_filter)

text \<open>Reserving keeps all invariants, whatever other requests do in between that keeps them.\<close>

lemma keeps_core_reserveForOrder:
  assumes env: "\<And>n w. coreInv w \<Longrightarrow> coreInv (env n w)"
  shows "keeps coreInv (reserveForOrder ttl env i)"
proof (rule keeps_intro)
  fix w assume w: "coreInv w"
  note ls = linesOf_ok [OF coreInvD(3) [OF w], of i]
  have nonneg: "\<forall>l \<in> set (linesOf i w). 0 \<le> ol_quantity l" using ls(2) by (simp add: less_imp_le)
  have tx: "keeps coreInv (transaction (collect (linesOf i w) (reserveLine ttl ord)))" for ord
    by (rule keeps_intro) (rule wp_reserveLines_core [OF _ ls(1) nonneg])
  have retried: "keeps coreInv (retryOnConflict defaultAttempts env (transaction (collect (linesOf i w) (reserveLine ttl ord))))" for ord
    by (rule keeps_retryOnConflict [OF tx env]) (simp_all add: defaultAttempts_def)
  have inv: "keeps coreInv (forEach ss (invalidate t))" for ss t
    by (intro keepsI keeps_intro) (simp add: wp coreInv_invalidated)
  have job: "keeps coreInv (forEach rs scheduleExpiry)" for rs
    by (rule keeps_intro, rule wp_mono [OF wp_scheduleAll]) (auto intro: coreInv_afterReserve)
  have "keeps coreInv (bind (retryOnConflict defaultAttempts env (transaction (collect (linesOf i w) (reserveLine ttl ord))))
      (\<lambda>created. andThen (forEach (uniq (map rv_skuId created)) (invalidate (o_tenantId ord)))
        (andThen (forEach created scheduleExpiry) (ret created))))" for ord
    by (intro keepsI retried inv job)
  from keeps_wp [OF this w] show "wp (reserveForOrder ttl env i) (\<lambda>_. coreInv) (\<lambda>_. coreInv) w"
    using w unfolding reserveForOrder_def wp_bind [of "gets _"] wp_gets wp_bind [of "orThrow _ _"] wp_orThrow
    by (simp split: option.split)
qed

lemma keeps_core_create_order:
  assumes env: "\<And>n w. coreInv w \<Longrightarrow> coreInv (env n w)" and dto: "dtoOk dto"
  shows "keeps coreInv (create_order ttl env t dto)"
proof -
  have tx: "keeps coreInv (transaction (createOrderTx t dto))"
    by (rule keeps_intro, unfold wp_transaction, rule wp_mono [OF wp_createOrderTx])
      (use dto in \<open>auto intro: coreInv_captured\<close>)
  show ?thesis
    unfolding create_order_def by (rule keeps_bind [OF tx]) (intro keepsI keeps_core_reserveForOrder env)
qed

section \<open>Closing allocations\<close>

text \<open>What giving stock back leaves alone.\<close>

definition booksKept :: "world \<Rightarrow> world \<Rightarrow> bool" where
  "booksKept w w' \<longleftrightarrow> tenants w' = tenants w \<and> skus w' = skus w \<and> locations w' = locations w \<and>
    orders w' = orders w \<and> orderLines w' = orderLines w \<and> orderEvents w' = orderEvents w \<and>
    shipments w' = shipments w \<and> sourcingRules w' = sourcingRules w \<and> returnRows w' = returnRows w \<and>
    returnLines w' = returnLines w \<and> inbounds w' = inbounds w \<and> jobs w' = jobs w \<and> clock w' = clock w \<and>
    uuidOf w' = uuidOf w \<and> outboxUp w' = outboxUp w \<and> gatewayLog w' = gatewayLog w \<and> nextId w \<le> nextId w'"

lemma booksKept_refl: "booksKept w w"
  by (simp add: booksKept_def)

lemma booksKept_trans: "booksKept u v \<Longrightarrow> booksKept v w \<Longrightarrow> booksKept u w"
  by (simp add: booksKept_def)

lemma stockSide_booksKept: "stockSide w w' \<Longrightarrow> booksKept w w'"
  by (simp add: stockSide_def booksKept_def)

definition closeAll :: "ident set \<Rightarrow> allocation list \<Rightarrow> allocation list" where
  "closeAll is as = mapWhere (\<lambda>a. al_id a \<in> is) (al_status_update (\<lambda>_. AllocationStatus.CANCELLED)) as"

definition allocationsClosed :: "ident set \<Rightarrow> world \<Rightarrow> world \<Rightarrow> bool" where
  "allocationsClosed is w w' \<longleftrightarrow> stockInv w' \<and> commitInv w' \<and> booksKept w w' \<and>
    reservations w' = reservations w \<and> allocations w' = closeAll is (allocations w) \<and>
    (\<forall>k. availableAt w' k + committed w' k = availableAt w k + committed w k)"

lemma closeAll_empty: "closeAll {} as = as"
  by (simp add: closeAll_def mapWhere_id)

lemma closeAll_insert:
  "mapWhere (\<lambda>a. al_id a = i) (al_status_update (\<lambda>_. AllocationStatus.CANCELLED)) (closeAll is as) = closeAll (insert i is) as"
  by (induction as) (auto simp: closeAll_def)

lemma closeAll_keeps: "a \<in> set as \<Longrightarrow> al_id a \<notin> is \<Longrightarrow> a \<in> set (closeAll is as)"
  by (force simp: closeAll_def set_mapWhere)

lemma deallocateParams_simps [simp]:
  "mv_key (deallocateParams t a) = (t, al_skuId a, al_locationId a)"
  "deltaOf (mv_deltas (deallocateParams t a)) = Buckets 0 0 (- al_quantity a) 0 0"
  "\<not> mv_requireAvailable (deallocateParams t a)"
  by (simp_all add: deallocateParams_def)

text \<open>An open allocation is covered by the allocated balance.\<close>

lemma open_allocation_covered:
  assumes inv: "stockInv w" "commitInv w" and a: "a \<in> set (allocations w)" "openAllocation a"
  shows "al_quantity a \<le> bk_allocated (balance w (al_key a))" "findSnapshot (al_key a) w \<noteq> None"
proof -
  have pos: "0 < al_quantity q" if "q \<in> set (allocations w)" for q
    using that commitInvD(2) [OF inv(2)] by (simp add: commitRows_def)
  have "al_quantity a \<le> committed w (al_key a)"
    unfolding committed_def by (rule sumWhere_member [OF a(1)]) (use a(2) pos in \<open>auto intro: less_imp_le\<close>)
  then show le: "al_quantity a \<le> bk_allocated (balance w (al_key a))" using commitInvD(4) [OF inv(2)] by simp
  show "findSnapshot (al_key a) w \<noteq> None"
    using pos [OF a(1)] le by (cases "findSnapshot (al_key a) w") (auto simp: balance_def)
qed

lemma wp_cancelAllocation:
  assumes prev: "allocationsClosed is w v" and a: "a \<in> set (allocations w)" "al_id a \<notin> is" "openAllocation a" "al_tenantId a = t"
  shows "wp (cancelAllocation t a) (\<lambda>_ w'. allocationsClosed (insert (al_id a) is) w w') (\<lambda>_ _. False) v"
proof -
  have inv: "stockInv v" "commitInv v" using prev by (simp_all add: allocationsClosed_def)
  have mem: "a \<in> set (allocations v)"
    using closeAll_keeps [OF a(1,2)] prev by (simp add: allocationsClosed_def)
  have key: "(t, al_skuId a, al_locationId a) = al_key a" by (simp add: al_key_def a(4))
  note covered = open_allocation_covered [OF inv mem a(3)]
  have can: "stockable (deallocateParams t a) v"
    "admissible (deallocateParams t a) (balance v (al_key a) + Buckets 0 0 (- al_quantity a) 0 0) n" for n
    using covered stockInvD(2) [OF inv(1), of "al_key a"]
    by (auto simp: stockable_def key admissible_def nonneg_def)
  have dist: "distinct (map al_id (allocations v))" using commitInvD(2) [OF inv(2)] by (simp add: commitRows_def)
  let ?f = "al_status_update (\<lambda>_. AllocationStatus.CANCELLED)"
  let ?w2 = "\<lambda>w1. w1\<lparr>allocations := mapWhere (\<lambda>x. al_id x = al_id a) ?f (allocations w1)\<rparr>"
  have after: "allocationsClosed (insert (al_id a) is) w (invalidated t s (?w2 w1))"
    if m: "moved (deallocateParams t a) v w1" "snapshotsOk w1" "nonneg (balance w1 (al_key a))" for w1 s
  proof -
    have closed: "commitInv (?w2 w1)"
      by (rule commitInv_close_allocation [OF inv(2) m(1,2) mem a(3), of ?f])
        (simp_all add: openAllocation_def al_key_def a(4))
    have cm: "committed (?w2 w1) k = committed v k + (if k = al_key a then - al_quantity a else 0)" for k
      by (rule committed_close [OF commitInvD(2) [OF inv(2)] mem a(3), where f = ?f])
        (use moved_rows(2) [OF m(1)] in \<open>simp_all add: openAllocation_def\<close>)
    have "availableAt (?w2 w1) k + committed (?w2 w1) k = availableAt v k + committed v k" for k
      unfolding cm using m(1) by (simp add: availableAt_def moved_def key availableOf_add)
    moreover have "committed (invalidated t s (?w2 w1)) = committed (?w2 w1)" by (rule committed_cong) simp
    ultimately have av: "availableAt (invalidated t s (?w2 w1)) k + committed (invalidated t s (?w2 w1)) k =
        availableAt v k + committed v k" for k by (simp add: availableAt_def)
    have "stockInv w1" using moved_stockInv [OF inv(1) m(1,2)] m(3) by (simp add: key)
    then have st: "stockInv (invalidated t s (?w2 w1))" by (auto intro: stockInv_frame)
    have "booksKept v (invalidated t s (?w2 w1))"
      using m(1) stockOnly_sel [of v w1] by (simp add: moved_def booksKept_def)
    then have books: "booksKept w (invalidated t s (?w2 w1))"
      using prev booksKept_trans by (auto simp: allocationsClosed_def)
    show ?thesis
      using prev av st books closed moved_rows [OF m(1)] commitInv_invalidated [OF closed]
      by (simp add: allocationsClosed_def closeAll_insert)
  qed
  have here: "find (\<lambda>x. al_id x = al_id a) (allocations w1) = Some a" if "moved (deallocateParams t a) v w1" for w1
    using find_unique [OF dist mem] moved_rows(2) [OF that] by simp
  show ?thesis
    unfolding cancelAllocation_def wp
  proof (rule wp_mono [OF applyWithin_spec [OF stockInvD(1) [OF inv(1)]]], goal_cases)
    case (1 x w1)
    then have m: "moved (deallocateParams t a) v w1" "snapshotsOk w1" "nonneg (balance w1 (al_key a))"
      by (simp_all add: admissible_def key)
    show ?case using after [OF m] by (simp add: here [OF m(1)])
  next
    case (2 e w1)
    with can show ?case by (simp add: key)
  qed
qed

definition openOf :: "ident \<Rightarrow> world \<Rightarrow> ident set" where
  "openOf i w = al_id ` {a \<in> set (allocations w). al_orderId a = i \<and> openAllocation a}"

lemma allocationsClosed_refl: "stockInv w \<Longrightarrow> commitInv w \<Longrightarrow> allocationsClosed {} w w"
  by (simp add: allocationsClosed_def closeAll_empty booksKept_refl)

lemma wp_cancelAllocations:
  assumes inv: "stockInv w" "commitInv w" and own: "\<forall>a \<in> set (allocations w). al_orderId a = i \<longrightarrow> al_tenantId a = t"
  shows "wp (forEach (filter (\<lambda>a. al_orderId a = i \<and> openAllocation a) (allocations w)) (cancelAllocation t))
    (\<lambda>_ w'. allocationsClosed (openOf i w) w w') (\<lambda>_ _. False) w"
proof -
  let ?as = "filter (\<lambda>a. al_orderId a = i \<and> openAllocation a) (allocations w)"
  have dist: "distinct (map al_id ?as)"
    using commitInvD(2) [OF inv(2)] by (simp add: commitRows_def distinct_map_filter)
  let ?I = "\<lambda>rest v. \<exists>ds. ?as = ds @ rest \<and> allocationsClosed (al_id ` set ds) w v"
  have "wp (forEach ?as (cancelAllocation t)) (\<lambda>_. ?I []) (\<lambda>_ _. False) w"
  proof (rule wp_forEach_rest)
    show "?I ?as w" using allocationsClosed_refl [OF inv] by simp
  next
    fix a rest v assume "?I (a # rest) v"
    then obtain ds where d: "?as = ds @ a # rest" "allocationsClosed (al_id ` set ds) w v" by blast
    have "a \<in> set ?as" unfolding d(1) by simp
    then have mem: "a \<in> set (allocations w)" "openAllocation a" "al_tenantId a = t" using own by auto
    have "al_id a \<notin> al_id ` set ds" using dist unfolding d(1) by auto
    from wp_cancelAllocation [OF d(2) mem(1) this mem(2,3)]
    show "wp (cancelAllocation t a) (\<lambda>_. ?I rest) (\<lambda>_ _. False) v"
      by (rule wp_mono) (use d(1) in \<open>auto intro!: exI [of _ "ds @ [a]"]\<close>)
  qed
  moreover have "al_id ` set ?as = openOf i w" by (simp add: openOf_def)
  ultimately show ?thesis by (auto elim!: wp_mono)
qed

section \<open>Cancelling an order\<close>

text \<open>All the stock an order holds goes back, and its open shipments are cancelled.\<close>

definition givenBack :: "ident \<Rightarrow> world \<Rightarrow> world \<Rightarrow> bool" where
  "givenBack i w w' \<longleftrightarrow> stockInv w' \<and> commitInv w' \<and>
    reservations w' = giveBackAll (orderHolds i w) RELEASED (reservations w) \<and>
    allocations w' = closeAll (openOf i w) (allocations w) \<and>
    shipments w' = mapWhere (\<lambda>s. sh_orderId s = i \<and> sh_status s \<in> {ShipmentStatus.PENDING, ShipmentStatus.PICKED})
      (\<lambda>s. s\<lparr>sh_status := ShipmentStatus.CANCELLED, sh_updatedAt := clock w\<rparr>) (shipments w) \<and>
    (\<forall>k. availableAt w' k + held w' k + committed w' k = availableAt w k + held w k + committed w k)"

definition bookOnly :: "world \<Rightarrow> world \<Rightarrow> bool" where
  "bookOnly w w' \<longleftrightarrow> orders w' = orders w \<and> orderLines w' = orderLines w \<and> orderEvents w' = orderEvents w \<and>
    nextId w \<le> nextId w' \<and> gatewayLog w' = gatewayLog w"

lemma orderInv_closed:
  assumes "orderInv w" "bookOnly w w'" "allocations w' = closeAll is (allocations w)"
  shows "orderInv w'"
proof (rule orderInv_cong [OF assms(1)])
  show "map (\<lambda>a. (al_orderId a, al_tenantId a)) (allocations w') = map (\<lambda>a. (al_orderId a, al_tenantId a)) (allocations w)"
    unfolding assms(3) closeAll_def by (rule map_mapWhere_frame) simp
qed (use assms(2) in \<open>simp_all add: bookOnly_def\<close>)

lemma orderInv_owner:
  assumes inv: "orderInv w" and ord: "findTenantOrder t i w = Some ord"
  shows "\<forall>a \<in> set (allocations w). al_orderId a = i \<longrightarrow> al_tenantId a = t"
proof (intro ballI impI)
  fix a assume a: "a \<in> set (allocations w)" "al_orderId a = i"
  note o = findTenantOrderD [OF ord]
  obtain q where q: "q \<in> set (orders w)" "al_orderId a = o_id q" "al_tenantId a = o_tenantId q"
    using inv a(1) unfolding orderInv_def orderRows_def by force
  then have "q = ord" using o a(2) orderInvD(2) [OF inv] by (auto simp: distinct_map inj_on_def)
  then show "al_tenantId a = t" using q o by simp
qed

text \<open>The part of \<open>cancel\<close> before the transition cannot fail.\<close>

lemma wp_giveBack:
  assumes w: "coreInv w" and ord: "findTenantOrder t i w = Some ord"
  shows "wp (andThen (releaseForOrder i)
      (bind (gets (\<lambda>w. filter (\<lambda>a. al_orderId a = i \<and> openAllocation a) (allocations w))) (\<lambda>opened.
       andThen (forEach opened (cancelAllocation t)) (cancelShipments i))))
    (\<lambda>_ w'. givenBack i w w' \<and> bookOnly w w' \<and> coreInv w') (\<lambda>_ _. False) w"
  unfolding wp
proof (rule wp_mono [OF wp_releaseForOrder [OF coreInvD(1,2) [OF w]]], goal_cases)
  case (1 x w1)
  then have r: "stockInv w1" "commitInv w1" "stockSide w w1"
    "reservations w1 = giveBackAll (orderHolds i w) RELEASED (reservations w)"
    "\<And>k. availableAt w1 k + held w1 k = availableAt w k + held w k"
    by (simp_all add: holdsReleased_def)
  have al: "allocations w1 = allocations w" "shipments w1 = shipments w" "clock w1 = clock w"
    using r(3) by (simp_all add: stockSide_def)
  have own: "\<forall>a \<in> set (allocations w1). al_orderId a = i \<longrightarrow> al_tenantId a = t"
    using orderInv_owner [OF coreInvD(3) [OF w] ord] al by simp
  have cm: "committed w1 = committed w" by (rule committed_cong) (rule al(1))
  show ?case
  proof (rule wp_mono [OF wp_cancelAllocations [OF r(1,2) own]], goal_cases)
    case (1 x w2)
    then have c: "stockInv w2" "commitInv w2" "booksKept w1 w2" "reservations w2 = reservations w1"
      "allocations w2 = closeAll (openOf i w1) (allocations w1)"
      "\<And>k. availableAt w2 k + committed w2 k = availableAt w1 k + committed w1 k"
      by (simp_all add: allocationsClosed_def)
    let ?w3 = "w2\<lparr>shipments := mapWhere (\<lambda>s. sh_orderId s = i \<and> sh_status s \<in> {ShipmentStatus.PENDING, ShipmentStatus.PICKED})
      (\<lambda>s. s\<lparr>sh_status := ShipmentStatus.CANCELLED, sh_updatedAt := clock w2\<rparr>) (shipments w2)\<rparr>"
    have hd: "held w2 = held w1" by (rule held_cong) (rule c(4))
    have "held ?w3 = held w2" "committed ?w3 = committed w2" by (rule held_cong committed_cong; simp)+
    then have av: "availableAt ?w3 k + held ?w3 k + committed ?w3 k = availableAt w k + held w k + committed w k" for k
      using r(5) [of k] c(6) [of k] hd cm by (simp add: availableAt_def)
    have op: "openOf i w1 = openOf i w" by (simp add: openOf_def al)
    have "givenBack i w ?w3"
      unfolding givenBack_def using c r(4) al av op by (simp add: booksKept_def)
    moreover have book: "bookOnly w ?w3"
      using c(3) r(3) by (simp add: bookOnly_def booksKept_def stockSide_def)
    moreover have "orderInv ?w3"
      by (rule orderInv_closed [OF coreInvD(3) [OF w] book, of "openOf i w"]) (simp add: c al op)
    then have "coreInv ?w3" using c(1,2) by (simp add: coreInv_def)
    ultimately show ?case by (simp add: cancelShipments_def wp)
  qed simp
qed simp

lemma orderInv_payment:
  assumes "orderInv w" "nextId w \<le> n"
  shows "orderInv (w\<lparr>nextId := n, gatewayLog := g, orders := mapWhere p (o_paymentStatus_update st) (orders w)\<rparr>)"
  using orderInv_update_orders [of "w\<lparr>nextId := n, gatewayLog := g\<rparr>" "o_paymentStatus_update st" p] orderInv_nextId assms
  by simp

lemma coreInv_payment:
  assumes "coreInv w" "nextId w \<le> n"
  shows "coreInv (w\<lparr>nextId := n, gatewayLog := g, orders := mapWhere p (o_paymentStatus_update st) (orders w)\<rparr>)"
  using orderInv_payment assms by (simp add: coreInv_def stockInv_nextId commitInv_nextId)

text \<open>After the transition only the payment may still change.\<close>

definition cancelled :: "ident \<Rightarrow> ident \<Rightarrow> world \<Rightarrow> world \<Rightarrow> bool" where
  "cancelled t i w w' \<longleftrightarrow> coreInv w' \<and> givenBack i w w' \<and>
    (\<exists>ord. findTenantOrder t i w' = Some ord \<and> o_status ord = OrderStatus.CANCELLED)"

lemma givenBack_frame:
  assumes "givenBack i w v" "stockInv w'" "commitInv w'" "reservations w' = reservations v" "allocations w' = allocations v"
    "shipments w' = shipments v" "snapshots w' = snapshots v"
  shows "givenBack i w w'"
  using assms view_cong(2,3) [OF assms(7)] held_cong [OF assms(4)] committed_cong [OF assms(5)]
  by (simp add: givenBack_def availableAt_def)

lemma findTenantOrder_update:
  assumes "\<And>x. o_id (f x) = o_id x" "\<And>x. o_tenantId (f x) = o_tenantId x"
  shows "findTenantOrder t i (w\<lparr>orders := mapWhere p f (orders w)\<rparr>) =
    map_option (\<lambda>r. if p r then f r else r) (findTenantOrder t i w)"
  using assms by (simp add: findTenantOrder_def find_mapWhere_frame)

definition outcomeOn :: "validationOutcome \<Rightarrow> order \<Rightarrow> order" where
  "outcomeOn out x = x\<lparr>o_paymentStatus := vo_paymentStatus out, o_fraudStatus := vo_fraudStatus out,
     o_taxTotal := vo_taxTotal out, o_discountTotal := vo_discountTotal out,
     o_paymentReference := vo_paymentReference out\<rparr>"

lemma coreInv_gateway: "coreInv w \<Longrightarrow> nextId w \<le> n \<Longrightarrow> coreInv (w\<lparr>nextId := n, gatewayLog := g\<rparr>)"
  by (simp add: coreInv_nextId)

lemma keeps_core_recordOutcome: "keeps coreInv (recordOutcome i out)"
  by (rule keeps_intro) (auto simp: recordOutcome_def wp intro!: coreInv_update_orders split: option.split)

lemma givenBack_start:
  assumes "givenBack i v w'" "reservations v = reservations w" "allocations v = allocations w" "shipments v = shipments w"
    "snapshots v = snapshots w" "clock v = clock w"
  shows "givenBack i w w'"
  using assms view_cong(2,3) [OF assms(5)] held_cong [OF assms(2)] committed_cong [OF assms(3)]
  by (simp add: givenBack_def availableAt_def orderHolds_def openOf_def)

context payment_gateway
begin

text \<open>Reversing a payment changes the payment status of the order at most, and cannot fail.\<close>

lemma wp_reversePayment:
  assumes found: "findOrder (o_id ord) w \<noteq> None"
  shows "wp (reversePayment gw ord)
    (\<lambda>_ w'. \<exists>st n g. nextId w \<le> n \<and> w' = w\<lparr>nextId := n, gatewayLog := g,
      orders := mapWhere (\<lambda>x. o_id x = o_id ord) (o_paymentStatus_update st) (orders w)\<rparr>) (\<lambda>_ _. False) w"
    (is "wp _ ?Q ?E w")
proof -
  have same: "?Q () (w\<lparr>nextId := n, gatewayLog := g\<rparr>)" if "nextId w \<le> n" for n g
  proof -
    have "o_paymentStatus_update (\<lambda>x. x) r = r" for r :: order by (cases r) simp
    then have "mapWhere (\<lambda>x. o_id x = o_id ord) (o_paymentStatus_update (\<lambda>x. x)) (orders w) = orders w"
      unfolding mapWhere_def by (simp add: map_idI)
    then have "w\<lparr>nextId := n, gatewayLog := g\<rparr> = w\<lparr>nextId := n, gatewayLog := g,
      orders := mapWhere (\<lambda>x. o_id x = o_id ord) (o_paymentStatus_update (\<lambda>x. x)) (orders w)\<rparr>"
      by (intro world.equality) simp_all
    then show ?thesis using that by blast
  qed
  have set_: "wp (setPaymentStatus (o_id ord) s) ?Q ?E (w\<lparr>nextId := n, gatewayLog := g\<rparr>)" if "nextId w \<le> n" for n g s
    using found that
    by (auto simp: setPaymentStatus_def wp findOrder_def intro!: exI [of _ n] exI [of _ g] exI [of _ "\<lambda>_. s"] split: option.split)
  have noop: "?Q () w" using same [of "nextId w" "gatewayLog w"] by simp
  obtain full where full: "findOrder (o_id ord) w = Some full" using found by auto
  have refund: "wp (bind (refundPayment gw x amt) (\<lambda>res. if fst res = RefundStatus.REFUNDED
      then setPaymentStatus (o_id ord) PaymentStatus.REFUNDED else ret ())) ?Q ?E w" for x amt
    unfolding wp_bind by (rule wp_gatewayOnly [OF refundPayment_only]) (simp only: wp_if wp_ret set_ same simp_thms split: if_split)
  have void: "wp (bind (pp_voidPayment gw ord ref) (\<lambda>res. if fst res = VoidStatus.VOIDED
      then setPaymentStatus (o_id ord) PaymentStatus.VOIDED else ret ())) ?Q ?E w" for ref
    unfolding wp_bind by (rule wp_gatewayOnly [OF void_only]) (simp only: wp_if wp_ret set_ same simp_thms split: if_split)
  show ?thesis
    using noop refund void full
    by (cases "o_paymentReference ord")
      (simp_all add: reversePayment_def wp_ret wp_bind [of "gets _"] wp_bind [of "orThrow _ _"] wp_gets wp_orThrow)
qed

lemma wp_cancel:
  assumes w: "coreInv w"
  shows "wp (cancel gw t i note)
    (\<lambda>_ w'. (\<exists>ord. findTenantOrder t i w = Some ord \<and> o_status ord \<in> set HOLDS_INVENTORY) \<and> cancelled t i w w')
    (\<lambda>e w'. findTenantOrder t i w = None \<and> w' = w \<and> e = NotFound ''Order not found'' \<or>
      (\<exists>ord. findTenantOrder t i w = Some ord \<and> o_status ord \<notin> set HOLDS_INVENTORY \<and>
        e = BadRequest ''Illegal order transition'' \<and> coreInv w' \<and> givenBack i w w' \<and> bookOnly w w')) w"
proof (cases "findTenantOrder t i w")
  case None
  then show ?thesis by (simp add: cancel_def wp)
next
  case (Some ord)
  note o = findTenantOrderD [OF Some]
  let ?Q = "\<lambda>_ w'. (\<exists>ord. findTenantOrder t i w = Some ord \<and> o_status ord \<in> set HOLDS_INVENTORY) \<and> cancelled t i w w'"
  let ?E = "\<lambda>e w'. findTenantOrder t i w = None \<and> w' = w \<and> e = NotFound ''Order not found'' \<or>
      (\<exists>ord. findTenantOrder t i w = Some ord \<and> o_status ord \<notin> set HOLDS_INVENTORY \<and>
        e = BadRequest ''Illegal order transition'' \<and> coreInv w' \<and> givenBack i w w' \<and> bookOnly w w')"
  have tail: "wp (bind (transition t i OrderStatus.CANCELLED note) (\<lambda>c. andThen (reversePayment gw ord) (ret c))) ?Q ?E v"
    if v: "givenBack i w v" "bookOnly w v" "coreInv v" for v
    unfolding wp
  proof (rule wp_mono [OF wp_transition [OF coreInvD(3) [OF v(3)]]], goal_cases)
    case (1 c v')
    have found: "findTenantOrder t i v = Some ord" using v(2) Some by (simp add: bookOnly_def findTenantOrder_def)
    then have legal: "canTransition (o_status ord) OrderStatus.CANCELLED"
      and v': "v' = (moveOrder ord OrderStatus.CANCELLED note v)\<lparr>published := published v @ [OrderStatusEvent t i OrderStatus.CANCELLED]\<rparr>"
      using 1(2) by auto
    have core: "coreInv v'"
      using coreInv_moveOrder [OF v(3) findTenantOrderD(1) [OF found] legal] by (simp add: v')
    have "givenBack i w v'"
      by (rule givenBack_frame [OF v(1)]) (use core in \<open>simp_all add: v' coreInv_def\<close>)
    moreover have st: "findTenantOrder t i v' = Some (ord\<lparr>o_status := OrderStatus.CANCELLED\<rparr>)"
    proof -
      have "findTenantOrder t i v' = findTenantOrder t i (v\<lparr>orders := mapWhere (\<lambda>x. o_id x = o_id ord) (o_status_update (\<lambda>_. OrderStatus.CANCELLED)) (orders v)\<rparr>)"
        by (simp add: v' findTenantOrder_def)
      then show ?thesis using found by (simp add: findTenantOrder_update)
    qed
    moreover have "findOrder (o_id ord) v' \<noteq> None"
      using findOrder_row [OF coreInvD(3) [OF core] findTenantOrderD(1) [OF st]] by simp
    then have "wp (reversePayment gw ord) (\<lambda>_ w'. cancelled t i w w') (\<lambda>_ _. False) v'"
    proof (rule wp_mono [OF wp_reversePayment], goal_cases)
      case (1 x w')
      then obtain stf n g where w': "nextId v' \<le> n" "w' = v'\<lparr>nextId := n, gatewayLog := g,
          orders := mapWhere (\<lambda>x. o_id x = o_id ord) (o_paymentStatus_update stf) (orders v')\<rparr>" by auto
      have c': "coreInv w'" using coreInv_payment [OF core w'(1)] by (simp add: w'(2))
      have "givenBack i w w'"
        by (rule givenBack_frame [OF \<open>givenBack i w v'\<close>]) (use c' in \<open>simp_all add: w'(2) coreInv_def\<close>)
      moreover have "findTenantOrder t i w' = map_option (\<lambda>r. if o_id r = o_id ord then o_paymentStatus_update stf r else r) (findTenantOrder t i v')"
        using findTenantOrder_update [where f = "o_paymentStatus_update stf" and t = t and i = i
            and w = "v'\<lparr>nextId := n, gatewayLog := g\<rparr>"]
        by (simp add: w'(2) findTenantOrder_def)
      ultimately show ?case using c' st by (simp add: cancelled_def)
    qed simp
    ultimately show ?case using Some legal by (auto simp: canTransition_cancel elim!: wp_mono)
  next
    case (2 e v')
    have found: "findTenantOrder t i v = Some ord" using v(2) Some by (simp add: bookOnly_def findTenantOrder_def)
    then show ?case using 2(2) Some v by (auto simp: canTransition_cancel)
  qed
  have "wp (cancel gw t i note) ?Q ?E w = wp (andThen (releaseForOrder i)
      (bind (gets (\<lambda>w. filter (\<lambda>a. al_orderId a = i \<and> openAllocation a) (allocations w))) (\<lambda>opened.
       andThen (forEach opened (cancelAllocation t)) (cancelShipments i))))
    (\<lambda>_. wp (bind (transition t i OrderStatus.CANCELLED note) (\<lambda>c. andThen (reversePayment gw ord) (ret c))) ?Q ?E) ?E w"
    unfolding cancel_def wp using Some o(2) by simp
  then show ?thesis by (simp only:) (rule wp_mono [OF wp_giveBack [OF w Some]], auto intro: tail)
qed

lemma keeps_core_cancel [keepsI]: "keeps coreInv (cancel gw t i note)"
  by (rule keeps_intro, rule wp_mono [OF wp_cancel]) (auto simp: cancelled_def)

lemma keeps_core_evaluate: "keeps coreInv (evaluate cfg gw ord)"
  by (rule keeps_gatewayOnly [OF evaluate_only]) (rule coreInv_gateway)

lemma keeps_core_validate_order [keepsI]: "keeps coreInv (validate_order cfg gw t i)"
  unfolding validate_order_def by (intro keepsI keeps_core_evaluate keeps_core_recordOutcome)

text \<open>Validating a created order: the outcome of the pipeline decides, and nothing in between is left.\<close>

lemma wp_validate_order:
  assumes w: "coreInv w" and ord: "findTenantOrder t i w = Some ord" "o_status ord = OrderStatus.CREATED"
  shows "wp (validate_order cfg gw t i)
    (\<lambda>ord' w'. \<exists>out v. evaluate cfg gw (ord, linesOf i w) w = (Inr out, v) \<and> vo_rejection out \<in> {None, Some []} \<and>
      ord' = (outcomeOn out ord)\<lparr>o_status := OrderStatus.VALIDATED\<rparr> \<and> findTenantOrder t i w' = Some ord' \<and> coreInv w' \<and>
      reservations w' = reservations w \<and> allocations w' = allocations w \<and> snapshots w' = snapshots w)
    (\<lambda>e w'. \<exists>out v why. evaluate cfg gw (ord, linesOf i w) w = (Inr out, v) \<and> vo_rejection out = Some why \<and> why \<noteq> [] \<and>
      e = BadRequest (''Order validation failed: '' @ why) \<and> cancelled t i w w') w"
    (is "wp _ ?Q ?E w")
proof -
  note o = findTenantOrderD [OF ord(1)]
  have rest: "wp (andThen (recordOutcome i out)
      (case vo_rejection out of
         Some why \<Rightarrow>
           if why = [] then transition t i OrderStatus.VALIDATED (Some ''validated'')
           else andThen (cancel gw t i (Some (''validation failed: '' @ why)))
             (throw (BadRequest (''Order validation failed: '' @ why)))
       | None \<Rightarrow> transition t i OrderStatus.VALIDATED (Some ''validated''))) ?Q ?E v"
    if run: "evaluate cfg gw (ord, linesOf i w) w = (Inr out, v)" "v = w\<lparr>nextId := n, gatewayLog := g\<rparr>" "nextId w \<le> n"
    for out v n g
  proof -
    let ?v = "v\<lparr>orders := mapWhere (\<lambda>x. o_id x = i) (outcomeOn out) (orders v)\<rparr>"
    have cv: "coreInv v" using coreInv_gateway [OF w run(3)] by (simp add: run(2))
    have c: "coreInv ?v" by (rule coreInv_update_orders [OF cv]) (simp_all add: outcomeOn_def)
    have "findTenantOrder t i ?v = map_option (\<lambda>r. if o_id r = i then outcomeOn out r else r) (findTenantOrder t i v)"
      by (rule findTenantOrder_update) (simp_all add: outcomeOn_def)
    then have fo: "findTenantOrder t i ?v = Some (outcomeOn out ord)"
      using ord(1) o(2) by (simp add: findTenantOrder_def run(2))
    have st: "o_status (outcomeOn out ord) = OrderStatus.CREATED" "o_id (outcomeOn out ord) = i"
      using ord(2) o(2) by (simp_all add: outcomeOn_def)
    have here: "find (\<lambda>x. o_id x = i) (orders v) = Some ord"
      using findOrder_row [OF coreInvD(3) [OF w] o(1)] o(2) by (simp add: findOrder_def run(2))
    have go: "wp (transition t i OrderStatus.VALIDATED (Some ''validated'')) ?Q ?E ?v" if "vo_rejection out \<in> {None, Some []}"
    proof (rule wp_mono [OF wp_transition [OF coreInvD(3) [OF c]]], goal_cases)
      case (1 x w')
      then have w': "w' = (moveOrder (outcomeOn out ord) OrderStatus.VALIDATED (Some ''validated'') ?v)
          \<lparr>published := published ?v @ [OrderStatusEvent t i OrderStatus.VALIDATED]\<rparr>"
        and x: "x = (outcomeOn out ord)\<lparr>o_status := OrderStatus.VALIDATED\<rparr>"
        and legal: "canTransition (o_status (outcomeOn out ord)) OrderStatus.VALIDATED" using fo by auto
      have "coreInv w'" using coreInv_moveOrder [OF c findTenantOrderD(1) [OF fo] legal] by (simp add: w')
      moreover have "findTenantOrder t i w' = findTenantOrder t i (?v\<lparr>orders := mapWhere (\<lambda>x. o_id x = i) (o_status_update (\<lambda>_. OrderStatus.VALIDATED)) (orders ?v)\<rparr>)"
        by (simp add: w' findTenantOrder_def st(2))
      then have "findTenantOrder t i w' = Some x"
        using fo st(2) findTenantOrder_update [where w = ?v and f = "o_status_update (\<lambda>_. OrderStatus.VALIDATED)"
          and p = "\<lambda>x. o_id x = i" and t = t and i = i] by (simp add: x)
      ultimately show ?case using run that x by (auto simp: w')
    next
      case (2 e w')
      then show ?case using fo st(1) by (simp add: canTransition_def)
    qed
    have stop: "wp (andThen (cancel gw t i (Some (''validation failed: '' @ why)))
             (throw (BadRequest (''Order validation failed: '' @ why)))) ?Q ?E ?v" if "vo_rejection out = Some why" "why \<noteq> []" for why
      unfolding wp
    proof (rule wp_mono [OF wp_cancel [OF c]], goal_cases)
      case (1 x w')
      then have "givenBack i ?v w'" by (simp add: cancelled_def)
      then have "givenBack i w w'" by (rule givenBack_start) (simp_all add: run(2))
      then have "cancelled t i w w'" using 1(2) by (simp add: cancelled_def)
      then show ?case using run that by blast
    next
      case (2 e w')
      then show ?case using fo st(1) by (auto simp: HOLDS_INVENTORY_def)
    qed
    have rec: "wp (recordOutcome i out) Q E v = Q () ?v" for Q E
      using here by (simp add: recordOutcome_def wp outcomeOn_def [abs_def])
    show ?thesis
    proof (cases "vo_rejection out")
      case None
      then show ?thesis using go by (simp add: wp_andThen rec)
    next
      case (Some why)
      then show ?thesis using go stop by (cases "why = []") (simp_all add: wp_andThen [of "recordOutcome i out"] rec)
    qed
  qed
  have "wp (evaluate cfg gw (ord, linesOf i w)) (\<lambda>out v. wp (andThen (recordOutcome i out)
      (case vo_rejection out of
         Some why \<Rightarrow>
           if why = [] then transition t i OrderStatus.VALIDATED (Some ''validated'')
           else andThen (cancel gw t i (Some (''validation failed: '' @ why)))
             (throw (BadRequest (''Order validation failed: '' @ why)))
       | None \<Rightarrow> transition t i OrderStatus.VALIDATED (Some ''validated''))) ?Q ?E v) ?E w"
    by (rule wp_gatewayOnly [OF evaluate_only]) (rule rest, assumption, rule refl, assumption)
  then show ?thesis
    unfolding validate_order_def wp_bind [of "gets _"] wp_gets wp_bind [of "orThrow _ _"] wp_orThrow ord(1) option.case
      wp_bind [of "evaluate _ _ _"] .
qed

end

section \<open>Properties\<close>

lemma create_order_spec:
  assumes "co_reserveOnCreate dto \<noteq> Some True" "coreInv w" "dtoOk dto"
  shows "case create_order ttl env t dto w of
      (Inr d, w') \<Rightarrow> capturable t dto w \<and> w' = captured t dto w \<and> coreInv w' \<and>
        od_order d = newOrder t dto (nextId w) (clock w) \<and>
        map (\<lambda>l. (ol_skuId l, ol_quantity l)) (od_lines d) = map (\<lambda>l. (dl_skuId l, dl_quantity l)) (co_lines dto) \<and>
        map oe_toStatus (od_events d) = [OrderStatus.CREATED]
    | (Inl e, w') \<Rightarrow> \<not> capturable t dto w \<and> w' = w \<and> e \<in> {PrismaKnown ''P2002'' None, PrismaKnown ''P2003'' None}"
proof -
  let ?n = "nextId w" and ?w = "captured t dto w" and ?o = "newOrder t dto (nextId w) (clock w)"
  have rows: "orderRows w" using assms(2) by (simp add: coreInv_def orderInv_def)
  have old: "?n \<notin> o_id ` set (orders w)" using rows by (auto simp: orderRows_def)
  have no: "o_id ?o = ?n" "o_tenantId ?o = t" by (simp_all add: newOrder_def)
  have found: "findTenantOrder t ?n ?w = Some ?o"
  proof -
    have "o_id x \<noteq> ?n" if "x \<in> set (orders w)" for x using old that by (metis image_eqI)
    then have "find (\<lambda>ord. o_id ord = ?n \<and> o_tenantId ord = t) (orders w) = None"
      by (auto simp: find_None_iff)
    then show ?thesis by (simp add: findTenantOrder_def captured_def find_append no)
  qed
  have "ol_orderId l \<noteq> ?n" if "l \<in> set (orderLines w)" for l
    using rows that old unfolding orderRows_def by metis
  then have "linesOf ?n ?w = linesFrom ?n (Suc ?n) (co_lines dto)"
    using linesFrom_mem(1) [of _ ?n "Suc ?n" "co_lines dto"]
    by (simp add: linesOf_def captured_def filter_empty_conv filter_id_conv)
  moreover have "map (\<lambda>l. (ol_skuId l, ol_quantity l)) (linesFrom i n dls) = map (\<lambda>l. (dl_skuId l, dl_quantity l)) dls" for i n dls
    by (induction dls arbitrary: n) (simp_all add: newLine_def)
  ultimately have lines: "map (\<lambda>l. (ol_skuId l, ol_quantity l)) (od_lines (orderDetailsOf ?o ?w)) =
      map (\<lambda>l. (dl_skuId l, dl_quantity l)) (co_lines dto)"
    by (simp add: orderDetailsOf_def no)
  have "oe_orderId e \<noteq> ?n" if "e \<in> set (orderEvents w)" for e
    using assms(2) that old unfolding coreInv_def orderInv_def by metis
  then have events: "map oe_toStatus (od_events (orderDetailsOf ?o ?w)) = [OrderStatus.CREATED]"
    by (simp add: orderDetailsOf_def no captured_def filter_empty_conv)
  have "wp (create_order ttl env t dto)
    (\<lambda>d w'. capturable t dto w \<and> w' = ?w \<and> d = orderDetailsOf ?o ?w)
    (\<lambda>e w'. \<not> capturable t dto w \<and> w' = w \<and> e \<in> {PrismaKnown ''P2002'' None, PrismaKnown ''P2003'' None}) w"
    unfolding create_order_def wp
    by (rule wp_mono [OF wp_createOrderTx]) (use assms(1) found in \<open>auto simp: wp wp_get_order no\<close>)
  then show ?thesis
    using coreInv_captured [OF assms(2,3)] lines events
    by (auto simp: wp_iff orderDetailsOf_def split: prod.split sum.split)
qed


definition demoBook :: world where
  "demoBook = demoReserving\<lparr>orderEvents := [\<lparr>oe_orderId = 5, oe_fromStatus = None, oe_toStatus = OrderStatus.CREATED,
     oe_note = None, oe_createdAt = 0\<rparr>]\<rparr>"

lemma demoBook_core: "coreInv demoBook"
proof -
  have "historyOk (history demoBook 5) OrderStatus.CREATED"
    by (simp add: historyOk_def history_def demoBook_def)
  then have "orderInv demoBook"
    by (simp add: orderInv_def orderRows_def demoBook_def demoReserving_def demoOrder_def demoLine_def demoWorld_sel)
  then show ?thesis using demoReserving_inv by (simp add: coreInv_def demoBook_def)
qed

definition demoDto :: createOrderDto where
  "demoDto = \<lparr>co_channel = WEB, co_externalRef = Some ''R-1'', co_customerRef = None, co_currency = None,
    co_shipToLatitude = None, co_shipToLongitude = None, co_shipToRegion = None, co_allowSplit = None,
    co_allowBackorder = None, co_reserveOnCreate = None,
    co_lines = [\<lparr>dl_skuId = 2, dl_quantity = 3, dl_unitPrice = Some 500\<rparr>]\<rparr>"


text \<open>
  A transition is all or nothing and legal: it succeeds exactly when the tenant has the order
  and the state machine allows the step; then the order's status is the new one, its history has
  one more event leading from the old status to it, and the event is published after the commit.  Otherwise
  nothing has changed.  Either way every history stays a legal path from CREATED.
\<close>

lemma transition_exact:
  assumes "coreInv w"
  shows "case transition t i to msg w of
      (Inr ord', w') \<Rightarrow> (\<exists>ord. findTenantOrder t i w = Some ord \<and> canTransition (o_status ord) to \<and>
        ord' = ord\<lparr>o_status := to\<rparr> \<and> w' = (moveOrder ord to msg w)\<lparr>published := published w @ [OrderStatusEvent t i to]\<rparr>) \<and>
        coreInv w'
    | (Inl e, w') \<Rightarrow> w' = w \<and> (findTenantOrder t i w = None \<and> e = NotFound ''Order not found'' \<or>
        (\<exists>ord. findTenantOrder t i w = Some ord \<and> \<not> canTransition (o_status ord) to \<and>
          e = BadRequest ''Illegal order transition''))"
  using wp_transition [OF coreInvD(3) [OF assms], of t i to msg]
    keeps_wp [OF keeps_core_transition assms, of t i to msg]
  by (auto simp: wp_iff split: prod.split sum.split)

lemma demoBook_found: "findTenantOrder 7 5 demoBook = Some demoOrder"
  by (simp add: findTenantOrder_def demoBook_def demoReserving_def demoOrder_def)

lemma transition_exact_witness:
  "\<exists>ord' w'. transition 7 5 OrderStatus.VALIDATED None demoBook = (Inr ord', w') \<and> o_status ord' = OrderStatus.VALIDATED"
proof -
  have "canTransition (o_status demoOrder) OrderStatus.VALIDATED" by (simp add: canTransition_def demoOrder_def)
  then show ?thesis
    using transition_exact [OF demoBook_core, where t = 7 and i = 5 and to = OrderStatus.VALIDATED and msg = None] demoBook_found
    by (auto split: prod.splits sum.splits)
qed



text \<open>
  Property C19.  A rejected cancellation is not a no-op: on an order past the statuses that hold inventory the
  request answers with an illegal transition, and yet every active hold and every open allocation
  of the order has been given back and its open shipments are cancelled.
\<close>

theorem rejected_cancel_gives_back:
  assumes "coreInv w" "findTenantOrder t i w = Some ord" "o_status ord \<notin> set HOLDS_INVENTORY"
  shows "\<exists>w'. cancel (selectProvider pcfg api) t i msg w = (Inl (BadRequest ''Illegal order transition''), w') \<and>
    orders w' = orders w \<and> allocations w' = closeAll (openOf i w) (allocations w) \<and>
    reservations w' = giveBackAll (orderHolds i w) RELEASED (reservations w)"
proof (cases "cancel (selectProvider pcfg api) t i msg w")
  case (Pair x w')
  then show ?thesis
    using selected.wp_cancel [OF assms(1), of pcfg api t i msg] assms(2,3)
    by (cases x) (auto simp: wp_iff givenBack_def bookOnly_def)
qed

definition demoPick :: allocation where
  "demoPick = \<lparr>al_id = 8, al_tenantId = 7, al_orderId = 5, al_orderLineId = 6, al_skuId = 2, al_locationId = 3,
    al_quantity = 4, al_status = AllocationStatus.PICKED, al_shipmentId = None\<rparr>"

text \<open>A shipped order one allocation of which (a pickup, say) is still to be handed over.\<close>

definition demoShipped :: world where
  "demoShipped = demoWorld\<lparr>orders := [demoOrder\<lparr>o_status := OrderStatus.SHIPPED\<rparr>], orderLines := [demoLine],
    allocations := [demoPick],
    snapshots := [\<lparr>sn_id = 5, sn_tenantId = 7, sn_skuId = 2, sn_locationId = 3, sn_bal = Buckets 10 0 4 0 0,
      sn_safetyStock = 2, sn_version = 2\<rparr>],
    ledger := ledger demoWorld @ [\<lparr>lg_id = 9, lg_tenantId = 7, lg_skuId = 2, lg_locationId = 3, lg_eventType = ALLOCATE,
      lg_delta = Buckets 0 0 4 0 0, lg_referenceType = None, lg_referenceId = None, lg_reason = None, lg_createdAt = 0\<rparr>],
    orderEvents := map (\<lambda>(a, b). \<lparr>oe_orderId = 5, oe_fromStatus = a, oe_toStatus = b, oe_note = None, oe_createdAt = 0\<rparr>)
      [(None, OrderStatus.CREATED), (Some OrderStatus.CREATED, OrderStatus.VALIDATED),
       (Some OrderStatus.VALIDATED, OrderStatus.ALLOCATED), (Some OrderStatus.ALLOCATED, OrderStatus.RELEASED),
       (Some OrderStatus.RELEASED, OrderStatus.PICKED), (Some OrderStatus.PICKED, OrderStatus.SHIPPED)]\<rparr>"

lemma demoShipped_core: "coreInv demoShipped"
proof -
  have rows: "snapshots demoShipped = [\<lparr>sn_id = 5, sn_tenantId = 7, sn_skuId = 2, sn_locationId = 3,
      sn_bal = Buckets 10 0 4 0 0, sn_safetyStock = 2, sn_version = 2\<rparr>]"
    "reservations demoShipped = []" "allocations demoShipped = [demoPick]" "nextId demoShipped = 10"
    "map (\<lambda>l. (lg_key l, lg_delta l)) (ledger demoShipped) = [((7, 2, 3), Buckets 10 0 0 0 0), ((7, 2, 3), Buckets 0 0 4 0 0)]"
    by (simp_all add: demoShipped_def demoWorld_sel lg_key_def)
  have ok: "snapshotsOk demoShipped" by (simp add: snapshotsOk_def rows sn_key_def)
  have bal: "balance demoShipped k = (if k = (7, 2, 3) then Buckets 10 0 4 0 0 else 0)" for k
    by (auto simp: balance_def findSnapshot_def rows sn_key_def)
  have "ledgerSum demoShipped k = sum_list (map snd (filter (\<lambda>e. fst e = k) (map (\<lambda>l. (lg_key l, lg_delta l)) (ledger demoShipped))))" for k
    by (simp add: ledgerSum_def sumWhere_def filter_map comp_def)
  then have "ledgerSum demoShipped k = balance demoShipped k" for k
    unfolding rows by (auto simp: bal intro: buckets_eqI)
  then have st: "stockInv demoShipped" by (simp add: stockInv_def ok bal nonneg_def fun_eq_iff)
  have cm: "commitInv demoShipped"
    by (auto simp: commitInv_def ok bal commitRows_def rows held_def committed_def fun_eq_iff demoPick_def al_key_def openAllocation_def)
  let ?path = "[OrderStatus.VALIDATED, OrderStatus.ALLOCATED, OrderStatus.RELEASED, OrderStatus.PICKED, OrderStatus.SHIPPED]"
  have "historyOk (history demoShipped 5) OrderStatus.SHIPPED"
    unfolding historyOk_def by (rule exI [of _ ?path]) (simp add: history_def demoShipped_def canTransition_def)
  then have "orderInv demoShipped"
    by (simp add: orderInv_def orderRows_def demoShipped_def demoOrder_def demoLine_def demoWorld_sel demoPick_def)
  then show ?thesis using st cm by (simp add: coreInv_def)
qed

lemma rejected_cancel_gives_back_witness:
  "\<exists>w'. cancel (selectProvider demoGateway demoApi) 7 5 None demoShipped = (Inl (BadRequest ''Illegal order transition''), w') \<and>
    map al_status (allocations demoShipped) = [AllocationStatus.PICKED] \<and> map al_status (allocations w') = [AllocationStatus.CANCELLED]"
proof -
  have found: "findTenantOrder 7 5 demoShipped = Some (demoOrder\<lparr>o_status := OrderStatus.SHIPPED\<rparr>)"
    by (simp add: findTenantOrder_def demoShipped_def demoOrder_def)
  have al: "allocations demoShipped = [demoPick]" by (simp add: demoShipped_def)
  have "{a \<in> set [demoPick]. al_orderId a = 5 \<and> openAllocation a} = {demoPick}"
    by (auto simp: demoPick_def openAllocation_def)
  then have op: "openOf 5 demoShipped = {8}" unfolding openOf_def al by (simp add: demoPick_def)
  have "o_status (demoOrder\<lparr>o_status := OrderStatus.SHIPPED\<rparr>) \<notin> set HOLDS_INVENTORY" by (simp add: HOLDS_INVENTORY_def)
  from rejected_cancel_gives_back [OF demoShipped_core found this, where pcfg = demoGateway and api = demoApi and msg = None]
  obtain w' where w': "cancel (selectProvider demoGateway demoApi) 7 5 None demoShipped = (Inl (BadRequest ''Illegal order transition''), w')"
    "allocations w' = closeAll {8} [demoPick]" unfolding op al by blast
  then show ?thesis unfolding al by (intro exI [of _ w']) (simp add: closeAll_def demoPick_def)
qed

text \<open>
  Validating a created order: when the pipeline names a reason to reject it, the
  order ends CANCELLED with all its stock given back and the request fails with that reason; otherwise it ends VALIDATED
  with the payment status, fraud status, tax, discount and gateway reference of the pipeline's
  outcome, and no stock is touched.  Nothing else can happen, whatever the configured gateway answers.
\<close>

lemma validate_gate:
  assumes "coreInv w" "findTenantOrder t i w = Some ord" "o_status ord = OrderStatus.CREATED"
  shows "\<exists>out v. evaluate cfg (selectProvider pcfg api) (ord, linesOf i w) w = (Inr out, v) \<and>
    (case validate_order cfg (selectProvider pcfg api) t i w of
      (Inr ord', w') \<Rightarrow> vo_rejection out \<in> {None, Some []} \<and> findTenantOrder t i w' = Some ord' \<and>
        ord' = (outcomeOn out ord)\<lparr>o_status := OrderStatus.VALIDATED\<rparr> \<and> coreInv w' \<and> snapshots w' = snapshots w
    | (Inl e, w') \<Rightarrow> (\<exists>why. vo_rejection out = Some why \<and> why \<noteq> [] \<and>
        e = BadRequest (''Order validation failed: '' @ why)) \<and> cancelled t i w w')"
proof (cases "validate_order cfg (selectProvider pcfg api) t i w")
  case (Pair r w')
  note rule = selected.wp_validate_order [OF assms, of cfg pcfg api]
  show ?thesis
  proof (cases r)
    case (Inl e)
    show ?thesis
      using wp_errD [OF rule Pair [unfolded Inl]] unfolding Pair Inl prod.case sum.case by blast
  next
    case (Inr ord')
    show ?thesis
      using wp_okD [OF rule Pair [unfolded Inr]] unfolding Pair Inr prod.case sum.case by blast
  qed
qed

lemma validate_gate_witness:
  "\<exists>out v. evaluate \<lparr>vc_taxRate = 0, vc_promoPct = 0\<rparr> (selectProvider demoGateway demoApi) (demoOrder, linesOf 5 demoBook) demoBook = (Inr out, v)"
proof -
  have "o_status demoOrder = OrderStatus.CREATED" by (simp add: demoOrder_def)
  from validate_gate [where cfg = "\<lparr>vc_taxRate = 0, vc_promoPct = 0\<rparr>" and pcfg = demoGateway and api = demoApi,
      OF demoBook_core demoBook_found this]
  show ?thesis by blast
qed

text \<open>
  Validating an order a second time is refused, but only after a new authorization: with the mock
  gateway, an order that is past CREATED (shipped and captured, for instance) and is neither declined
  nor suspected of fraud answers with an illegal transition, and its payment status has been set
  back to AUTHORIZED with a new reference.
\<close>

lemma revalidation_resets_payment:
  assumes "coreInv w" "findTenantOrder t i w = Some ord" "o_status ord \<notin> {OrderStatus.CREATED}"
    and "\<not> declines ord" "\<not> suspectedFraud ord"
  shows "\<exists>w' ord'. validate_order cfg mockProvider t i w = (Inl (BadRequest ''Illegal order transition''), w') \<and>
    findTenantOrder t i w' = Some ord' \<and> o_status ord' = o_status ord \<and>
    o_paymentStatus ord' = PaymentStatus.AUTHORIZED \<and> o_paymentReference ord' = Some (''mock_auth_'' @ take 12 (uuidOf w (nextId w)))"
proof -
  note o = findTenantOrderD [OF assms(2)]
  let ?out = "(afterHooks cfg (ord, linesOf i w))\<lparr>vo_paymentStatus := PaymentStatus.AUTHORIZED,
    vo_paymentReference := Some (''mock_auth_'' @ take 12 (uuidOf w (nextId w)))\<rparr>"
  let ?v = "w\<lparr>nextId := Suc (nextId w)\<rparr>"
  have ev: "evaluate cfg mockProvider (ord, linesOf i w) w = (Inr ?out, ?v)"
  proof -
    have "\<not> declines (ord\<lparr>o_taxTotal := a, o_discountTotal := b\<rparr>)" for a b
      using assms(4) by (simp add: declines_def)
    then show ?thesis
      by (simp add: evaluate_eq mockProvider_def randomRef_def freshId_def bind_def gets_def ret_def)
  qed
  have rej: "vo_rejection ?out = None" using assms(5) by simp
  let ?v2 = "?v\<lparr>orders := mapWhere (\<lambda>x. o_id x = i) (outcomeOn ?out) (orders w)\<rparr>"
  have c: "coreInv ?v2"
    using coreInv_update_orders [OF coreInv_nextId [OF assms(1), of "Suc (nextId w)"], of "outcomeOn ?out" "\<lambda>x. o_id x = i"]
    by (simp add: outcomeOn_def)
  have "findTenantOrder t i (?v\<lparr>orders := mapWhere (\<lambda>x. o_id x = i) (outcomeOn ?out) (orders ?v)\<rparr>) =
      map_option (\<lambda>r. if o_id r = i then outcomeOn ?out r else r) (findTenantOrder t i ?v)"
    by (rule findTenantOrder_update) (simp_all add: outcomeOn_def)
  then have fo: "findTenantOrder t i ?v2 = Some (outcomeOn ?out ord)"
    using assms(2) o(2) by (simp add: findTenantOrder_def)
  have "\<not> canTransition (o_status ord) OrderStatus.VALIDATED"
    using assms(3) by (cases "o_status ord") (simp_all add: canTransition_def)
  then have tr: "wp (transition t i OrderStatus.VALIDATED msg) (\<lambda>_ _. False) (\<lambda>e w'. e = BadRequest ''Illegal order transition'' \<and> w' = ?v2) ?v2" for msg
    by (intro wp_mono [OF wp_transition [OF coreInvD(3) [OF c]]]) (use fo in \<open>auto simp: outcomeOn_def\<close>)
  have here: "find (\<lambda>x. o_id x = i) (orders w) = Some ord"
    using findOrder_row [OF coreInvD(3) [OF assms(1)] o(1)] o(2) by (simp add: findOrder_def)
  have "wp (validate_order cfg mockProvider t i) (\<lambda>_ _. False) (\<lambda>e w'. e = BadRequest ''Illegal order transition'' \<and> w' = ?v2) w"
  proof -
    have rec: "wp (recordOutcome i ?out) Q E ?v = Q () ?v2" for Q E
      using here by (simp add: recordOutcome_def wp outcomeOn_def [abs_def])
    have "wp (evaluate cfg mockProvider (ord, linesOf i w)) Q E w = Q ?out ?v" for Q E
      unfolding wp_def [of "evaluate _ _ _"] ev by simp
    then show ?thesis
      unfolding validate_order_def wp_bind wp_gets wp_orThrow assms(2) option.case wp_andThen
      using tr by (simp only: rec rej option.case)
  qed
  then obtain w' where "validate_order cfg mockProvider t i w = (Inl (BadRequest ''Illegal order transition''), w')" "w' = ?v2"
    by (cases "validate_order cfg mockProvider t i w"; cases "fst (validate_order cfg mockProvider t i w)") (auto simp: wp_iff)
  then show ?thesis using fo by (intro exI [of _ w'] exI [of _ "outcomeOn ?out ord"]) (simp add: outcomeOn_def)
qed

lemma revalidation_resets_payment_witness:
  "\<exists>w' ord'. validate_order \<lparr>vc_taxRate = 0, vc_promoPct = 0\<rparr> mockProvider 7 5 demoShipped =
      (Inl (BadRequest ''Illegal order transition''), w') \<and>
    findTenantOrder 7 5 w' = Some ord' \<and> o_paymentStatus ord' = PaymentStatus.AUTHORIZED"
proof -
  have found: "findTenantOrder 7 5 demoShipped = Some (demoOrder\<lparr>o_status := OrderStatus.SHIPPED\<rparr>)"
    by (simp add: findTenantOrder_def demoShipped_def demoOrder_def)
  have "\<not> declines (demoOrder\<lparr>o_status := OrderStatus.SHIPPED\<rparr>)" "\<not> suspectedFraud (demoOrder\<lparr>o_status := OrderStatus.SHIPPED\<rparr>)"
    by (simp_all add: declines_def suspectedFraud_def demoOrder_def orEmpty_def toUpperCase_def)
  from revalidation_resets_payment [OF demoShipped_core found _ this, of "\<lparr>vc_taxRate = 0, vc_promoPct = 0\<rparr>"]
  show ?thesis by auto
qed

end
