(* ===== verification/Geo.thy ===== *)
theory Geo
  imports Prelude
begin

text \<open>
  backend/src/sourcing/geo.util.ts: the great-circle distance by the haversine formula, over the
  real numbers (the code computes with doubles).  The lemmas show that the argument of the square
  root and of the arc sine is always in range, whatever the coordinates, and that the formula is
  the angle between the two points times the radius.
\<close>

section \<open>Definitions\<close>

definition toRad :: "real \<Rightarrow> real" where
  "toRad deg = deg * pi / 180"

definition haversineKm :: "real \<Rightarrow> real \<Rightarrow> real \<Rightarrow> real \<Rightarrow> real" where
  "haversineKm aLat aLng bLat bLng =
    (let R = 6371;
         dLat = toRad (bLat - aLat);
         dLng = toRad (bLng - aLng);
         lat1 = toRad aLat;
         lat2 = toRad bLat;
         h = (sin (dLat / 2))\<^sup>2 + (sin (dLng / 2))\<^sup>2 * cos lat1 * cos lat2
     in 2 * R * arcsin (sqrt h))"

section \<open>Lemmas\<close>

text \<open>The cosine of the angle between two points of the unit sphere: their scalar product.\<close>

definition cosAngle :: "real \<Rightarrow> real \<Rightarrow> real \<Rightarrow> real \<Rightarrow> real" where
  "cosAngle aLat aLng bLat bLng =
    sin (toRad aLat) * sin (toRad bLat) + cos (toRad aLat) * cos (toRad bLat) * cos (toRad bLng - toRad aLng)"

lemma toRad_diff: "toRad (x - y) = toRad x - toRad y"
  by (simp add: toRad_def left_diff_distrib diff_divide_distrib)

lemma half_angle: "(sin (x / 2))\<^sup>2 = (1 - cos x) / (2::real)"
  using cos_double_sin [of "x / 2"] by simp

lemma haversine_cosAngle:
  "(sin (toRad (bLat - aLat) / 2))\<^sup>2 + (sin (toRad (bLng - aLng) / 2))\<^sup>2 * cos (toRad aLat) * cos (toRad bLat) =
    (1 - cosAngle aLat aLng bLat bLng) / 2"
  unfolding half_angle cosAngle_def toRad_diff cos_diff [of "toRad bLat"]
  by (simp add: field_simps)

lemma two_squares: "(p\<^sup>2 + q\<^sup>2) * (s\<^sup>2 + k\<^sup>2) = (p * s + q * k)\<^sup>2 + (p * k - q * s)\<^sup>2"
  for p q s k :: real
  by (simp add: power2_eq_square algebra_simps)

lemma unit_product_bound:
  fixes a b c :: real
  assumes "\<bar>c\<bar> \<le> 1"
  shows "\<bar>sin a * sin b + cos a * cos b * c\<bar> \<le> 1"
proof -
  have c2: "c\<^sup>2 \<le> 1" using assms by (simp add: abs_square_le_1)
  have "(cos a)\<^sup>2 * c\<^sup>2 \<le> (cos a)\<^sup>2 * 1" by (rule mult_left_mono [OF c2]) simp
  then have "(sin a)\<^sup>2 + (cos a)\<^sup>2 * c\<^sup>2 \<le> 1" using sin_cos_squared_add [of a] by linarith
  moreover have "(sin a)\<^sup>2 + (cos a)\<^sup>2 * c\<^sup>2 = ((sin a)\<^sup>2 + (cos a * c)\<^sup>2) * ((sin b)\<^sup>2 + (cos b)\<^sup>2)"
    by (simp add: power_mult_distrib)
  moreover have "((sin a)\<^sup>2 + (cos a * c)\<^sup>2) * ((sin b)\<^sup>2 + (cos b)\<^sup>2) =
      (sin a * sin b + cos a * cos b * c)\<^sup>2 + (sin a * cos b - cos a * c * sin b)\<^sup>2"
    using two_squares [of "sin a" "cos a * c" "sin b" "cos b"] by (simp only: ac_simps)
  ultimately have "(sin a * sin b + cos a * cos b * c)\<^sup>2 \<le> 1"
    using zero_le_power2 [of "sin a * cos b - cos a * c * sin b"] by linarith
  then show ?thesis by (simp add: abs_square_le_1)
qed

lemma cosAngle_bound: "\<bar>cosAngle aLat aLng bLat bLng\<bar> \<le> 1"
  unfolding cosAngle_def by (rule unit_product_bound) simp

lemma arcsin_half:
  assumes "\<bar>u\<bar> \<le> 1"
  shows "2 * arcsin (sqrt ((1 - u) / 2)) = arccos u"
proof -
  let ?t = "arccos u"
  have t: "0 \<le> ?t" "?t \<le> pi" "cos ?t = u" using assms by (simp_all add: arccos_lbound arccos_ubound abs_le_iff)
  have "(1 - u) / 2 = (sin (?t / 2))\<^sup>2" using half_angle [of ?t] t(3) by simp
  moreover have "0 \<le> sin (?t / 2)" using t by (intro sin_ge_zero) simp_all
  ultimately have "sqrt ((1 - u) / 2) = sin (?t / 2)" by simp
  then show ?thesis using t by (simp add: arcsin_sin)
qed

lemma haversine_arccos: "haversineKm aLat aLng bLat bLng = 6371 * arccos (cosAngle aLat aLng bLat bLng)"
  unfolding haversineKm_def Let_def haversine_cosAngle
  using arcsin_half [OF cosAngle_bound, of aLat aLng bLat bLng] by simp

lemma cosAngle_sym: "cosAngle aLat aLng bLat bLng = cosAngle bLat bLng aLat aLng"
proof -
  have "cos (toRad bLng - toRad aLng) = cos (toRad aLng - toRad bLng)"
    using cos_minus [of "toRad bLng - toRad aLng"] by simp
  then show ?thesis by (simp add: cosAngle_def mult.commute)
qed

lemma cosAngle_self: "cosAngle aLat aLng aLat aLng = 1"
  using sin_cos_squared_add [of "toRad aLat"] by (simp add: cosAngle_def power2_eq_square)

text \<open>
  Property C20.  The haversine formula is the great-circle distance: for all coordinates, it is the Earth
  radius of 6371 km times the angle between the two points (the arc cosine of the scalar product
  of their unit vectors); so it is defined everywhere, symmetric, zero from a point to itself and
  at most half the circumference.
\<close>

theorem haversine_great_circle:
  "haversineKm aLat aLng bLat bLng = 6371 * arccos (cosAngle aLat aLng bLat bLng) \<and>
    haversineKm aLat aLng bLat bLng = haversineKm bLat bLng aLat aLng \<and>
    haversineKm aLat aLng aLat aLng = 0 \<and>
    0 \<le> haversineKm aLat aLng bLat bLng \<and> haversineKm aLat aLng bLat bLng \<le> 6371 * pi"
proof -
  have "- 1 \<le> cosAngle aLat aLng bLat bLng" "cosAngle aLat aLng bLat bLng \<le> 1"
    using cosAngle_bound [of aLat aLng bLat bLng] by (simp_all add: abs_le_iff)
  then show ?thesis
    using arccos_lbound [of "cosAngle aLat aLng bLat bLng"] arccos_ubound [of "cosAngle aLat aLng bLat bLng"]
    by (simp add: haversine_arccos cosAngle_self cosAngle_sym [of bLat bLng])
qed

end
