(* ===== verification/Sourcing.thy ===== *)
theory Sourcing
  imports Orders Geo
begin

text \<open>
  backend/src/sourcing/sourcing.service.ts: the sourcing engine.  For a VALIDATED order it picks the
  nodes of each line under the strategy of the first matching rule, commits the stock as
  allocations and groups them into one shipment per node, in one retried transaction.  The order
  is read, and its status checked, before the transaction; \<open>source_order\<close> is the read followed by
  \<open>sourceCommit\<close>.  \<open>sourcing-rule.service.ts\<close> keeps the rules.
\<close>

section \<open>Definitions\<close>

record candidate =
  ca_locationId :: ident
  ca_type :: LocationType
  ca_available :: int
  ca_priority :: int
  ca_distanceKm :: "real option"

record sourcedShipment =
  src_shipmentId :: ident
  src_locationId :: ident
  src_fulfillmentType :: FulfillmentType
  src_lines :: "(ident \<times> int) list"

record sourcingResult =
  src_orderId :: ident
  src_status :: OrderStatus
  src_fullyAllocated :: bool
  src_shipments :: "sourcedShipment list"
  src_backordered :: "(ident \<times> int) list"

subsection \<open>Strategy and candidates\<close>

definition ruleMatches :: "order \<Rightarrow> sourcingRule \<Rightarrow> bool" where
  "ruleMatches ord r \<longleftrightarrow> sr_tenantId r = o_tenantId ord \<and> sr_active r \<and>
    (sr_channel r = Some (o_channel ord) \<or> sr_channel r = None) \<and>
    (sr_region r = o_shipToRegion ord \<or> sr_region r = None)"

definition resolveStrategy :: "order \<Rightarrow> world \<Rightarrow> SourcingStrategy" where
  "resolveStrategy ord w =
    (case jsSort (\<lambda>a b. sr_priority a - sr_priority b) (filter (ruleMatches ord) (sourcingRules w)) of
       [] \<Rightarrow> BALANCED
     | rule # _ \<Rightarrow> sr_strategy rule)"

text \<open>The open allocations a node carries, and its soft cap.\<close>

definition openAt :: "ident \<Rightarrow> world \<Rightarrow> nat" where
  "openAt l w = length (filter (\<lambda>a. al_locationId a = l \<and>
    al_status a \<in> {AllocationStatus.ALLOCATED, AllocationStatus.PICKED}) (allocations w))"

definition atCapacity :: "location \<Rightarrow> world \<Rightarrow> bool" where
  "atCapacity lo w = (case lo_dailyOrderCapacity lo of None \<Rightarrow> False | Some cap \<Rightarrow> cap \<le> int (openAt (lo_id lo) w))"

definition distanceTo :: "order \<Rightarrow> location \<Rightarrow> real option" where
  "distanceTo ord lo =
    (case (o_shipToLatitude ord, o_shipToLongitude ord, lo_latitude lo, lo_longitude lo) of
       (Some aLat, Some aLng, Some bLat, Some bLng) \<Rightarrow> Some (haversineKm aLat aLng bLat bLng)
     | _ \<Rightarrow> None)"

definition candidateOf :: "order \<Rightarrow> world \<Rightarrow> snapshotRow \<Rightarrow> candidate option" where
  "candidateOf ord w s =
    (case findLocation (sn_locationId s) w of
       None \<Rightarrow> None
     | Some lo \<Rightarrow>
         if \<not> (lo_active lo \<and> lo_shipFromEnabled lo) then None
         else let available = bk_onHand (sn_bal s) - bk_reserved (sn_bal s) - bk_allocated (sn_bal s) - sn_safetyStock s
              in if available \<le> 0 then None
                 else if atCapacity lo w then None
                 else Some \<lparr>ca_locationId = sn_locationId s, ca_type = lo_type lo, ca_available = available,
                        ca_priority = lo_fulfillmentPriority lo, ca_distanceKm = distanceTo ord lo\<rparr>)"

definition candidatesForLine :: "order \<Rightarrow> ident \<Rightarrow> world \<Rightarrow> candidate list" where
  "candidatesForLine ord skuId w =
    List.map_filter (candidateOf ord w)
      (filter (\<lambda>s. sn_tenantId s = o_tenantId ord \<and> sn_skuId s = skuId) (snapshots w))"

subsection \<open>The plan of a line\<close>

text \<open>
  The difference of two distances where a missing one is infinite; of two missing ones it is NaN,
  which \<open>||\<close> passes over like 0.
\<close>

definition distanceDiff :: "candidate \<Rightarrow> candidate \<Rightarrow> int" where
  "distanceDiff a b =
    (case (ca_distanceKm a, ca_distanceKm b) of
       (None, None) \<Rightarrow> 0
     | (None, Some _) \<Rightarrow> 1
     | (Some _, None) \<Rightarrow> - 1
     | (Some x, Some y) \<Rightarrow> if x < y then - 1 else if y < x then 1 else 0)"

definition priorityDiff :: "candidate \<Rightarrow> candidate \<Rightarrow> int" where
  "priorityDiff a b = ca_priority a - ca_priority b"

definition availableDiff :: "candidate \<Rightarrow> candidate \<Rightarrow> int" where
  "availableDiff a b = ca_available b - ca_available a"

fun comparator :: "SourcingStrategy \<Rightarrow> candidate \<Rightarrow> candidate \<Rightarrow> int" where
  "comparator NEAREST a b = falsyOr (distanceDiff a b) (falsyOr (priorityDiff a b) (availableDiff a b))"
| "comparator PRIORITY a b = falsyOr (priorityDiff a b) (availableDiff a b)"
| "comparator FEWEST_SPLITS a b = falsyOr (availableDiff a b) (priorityDiff a b)"
| "comparator BALANCED a b = falsyOr (priorityDiff a b) (falsyOr (distanceDiff a b) (availableDiff a b))"

text \<open>The greedy loop reads the node and what it has; it is the one of the pre-source.\<close>

definition asPlanCandidate :: "candidate \<Rightarrow> planCandidate" where
  "asPlanCandidate c = \<lparr>cd_locationId = ca_locationId c, cd_available = ca_available c, cd_priority = ca_priority c\<rparr>"

definition singleNode :: "SourcingStrategy \<Rightarrow> int \<Rightarrow> candidate list \<Rightarrow> candidate option" where
  "singleNode strategy quantity cs =
    (if strategy = FEWEST_SPLITS
     then (case jsSort (comparator PRIORITY) (filter (\<lambda>c. quantity \<le> ca_available c) cs) of
             [] \<Rightarrow> None | c # _ \<Rightarrow> Some c)
     else None)"

definition sourcePlan :: "SourcingStrategy \<Rightarrow> int \<Rightarrow> candidate list \<Rightarrow> planLeg list" where
  "sourcePlan strategy quantity cs =
    (if cs = [] then []
     else case singleNode strategy quantity cs of
       Some c \<Rightarrow> [\<lparr>pl_locationId = ca_locationId c, pl_quantity = quantity\<rparr>]
     | None \<Rightarrow> greedyPlan quantity (map asPlanCandidate (jsSort (comparator strategy) cs)))"

subsection \<open>The transaction\<close>

definition consumeParams :: "order \<Rightarrow> reservation \<Rightarrow> movementParams" where
  "consumeParams ord r =
    (baseMovement (o_tenantId ord) (rv_skuId r) (rv_locationId r) RELEASE_RESERVE
       (noDeltas\<lparr>bd_reserved := Some (- rv_quantity r)\<rparr>))
      \<lparr>mv_referenceType := Some ''reservation'', mv_referenceId := Some (rv_id r)\<rparr>"

definition consumeHold :: "order \<Rightarrow> reservation \<Rightarrow> (world, unit) op" where
  "consumeHold ord r =
    andThen (applyWithin (consumeParams ord r))
    (andThen (updateRow reservations reservations_update (\<lambda>x. rv_id x = rv_id r) (rv_status_update (\<lambda>_. CONSUMED)))
    (ret ()))"

definition releaseOwnReservations :: "order \<Rightarrow> (world, unit) op" where
  "releaseOwnReservations ord =
    bind (gets (\<lambda>w. filter (\<lambda>r. rv_orderId r = Some (o_id ord) \<and> rv_status r = ACTIVE) (reservations w)))
      (\<lambda>active. forEach active (consumeHold ord))"

definition allocateParams :: "ident \<Rightarrow> order \<Rightarrow> orderLine \<Rightarrow> planLeg \<Rightarrow> movementParams" where
  "allocateParams tenantId ord line leg =
    (baseMovement tenantId (ol_skuId line) (pl_locationId leg) ALLOCATE
       (noDeltas\<lparr>bd_allocated := Some (pl_quantity leg)\<rparr>))
      \<lparr>mv_requireAvailable := True, mv_referenceType := Some ''order'', mv_referenceId := Some (o_id ord)\<rparr>"

definition allocationRow :: "ident \<Rightarrow> order \<Rightarrow> orderLine \<Rightarrow> planLeg \<Rightarrow> ident \<Rightarrow> allocation" where
  "allocationRow tenantId ord line leg i =
    \<lparr>al_id = i, al_tenantId = tenantId, al_orderId = o_id ord, al_orderLineId = ol_id line,
     al_skuId = ol_skuId line, al_locationId = pl_locationId leg, al_quantity = pl_quantity leg,
     al_status = AllocationStatus.ALLOCATED, al_shipmentId = None\<rparr>"

definition createAllocation :: "ident \<Rightarrow> order \<Rightarrow> orderLine \<Rightarrow> planLeg \<Rightarrow> (world, unit) op" where
  "createAllocation tenantId ord line leg =
    bind freshId (\<lambda>i.
    andThen (createRow allocations allocations_update (allocationRow tenantId ord line leg i)) (ret ()))"

text \<open>One line: the nodes it uses (keys of \<open>byLocation\<close>) and what it leaves to backorder.\<close>

definition sourceLine ::
  "SourcingStrategy \<Rightarrow> ident \<Rightarrow> order \<Rightarrow> orderLine \<Rightarrow> (world, (ident list \<times> (ident \<times> int) list) list) op" where
  "sourceLine strategy tenantId ord line =
    bind (gets (candidatesForLine ord (ol_skuId line))) (\<lambda>candidates.
    let plan = sourcePlan strategy (ol_quantity line) candidates
    in andThen (throwIf (planned plan < ol_quantity line \<and> \<not> o_allowBackorder ord) (BadRequest ''Cannot source''))
       (andThen (forEach plan (\<lambda>leg. andThen (applyWithin (allocateParams tenantId ord line leg)) (ret ())))
       (andThen (forEach plan (createAllocation tenantId ord line))
       (ret [(map pl_locationId plan,
              if planned plan < ol_quantity line then [(ol_skuId line, ol_quantity line - planned plan)] else [])]))))"

fun fulfillmentTypeFor :: "LocationType \<Rightarrow> FulfillmentType" where
  "fulfillmentTypeFor STORE = SHIP_FROM_STORE"
| "fulfillmentTypeFor DROP_SHIP_VENDOR = DROP_SHIP"
| "fulfillmentTypeFor _ = SHIP_FROM_DC"

definition newShipment :: "ident \<Rightarrow> order \<Rightarrow> location \<Rightarrow> ident \<Rightarrow> int \<Rightarrow> shipment" where
  "newShipment tenantId ord lo i ts =
    \<lparr>sh_id = i, sh_tenantId = tenantId, sh_orderId = o_id ord, sh_locationId = lo_id lo,
     sh_fulfillmentType = fulfillmentTypeFor (lo_type lo), sh_status = ShipmentStatus.PENDING,
     sh_trackingNumber = None, sh_carrier = None, sh_fulfillmentProvider = None, sh_externalJobId = None,
     sh_createdAt = ts, sh_updatedAt = ts\<rparr>"

definition shipmentFor :: "ident \<Rightarrow> order \<Rightarrow> ident \<Rightarrow> (world, sourcedShipment list) op" where
  "shipmentFor tenantId ord locationId =
    bind (gets (findLocation locationId)) (\<lambda>found.
    bind (orThrow found (PrismaKnown ''P2025'' None)) (\<lambda>lo.
    bind freshId (\<lambda>i. bind now (\<lambda>ts.
    bind (createRow shipments shipments_update (newShipment tenantId ord lo i ts)) (\<lambda>sh.
    andThen (updateMany allocations allocations_update
      (\<lambda>a. al_orderId a = o_id ord \<and> al_locationId a = locationId \<and> al_shipmentId a = None)
      (al_shipmentId_update (\<lambda>_. Some (sh_id sh))))
    (bind (gets (\<lambda>w. map (\<lambda>a. (al_skuId a, al_quantity a)) (filter (\<lambda>a. al_shipmentId a = Some (sh_id sh)) (allocations w))))
      (\<lambda>lines. ret [\<lparr>src_shipmentId = sh_id sh, src_locationId = locationId,
        src_fulfillmentType = sh_fulfillmentType sh, src_lines = lines\<rparr>])))))))"

text \<open>The note of the audit event; the em dash of the code is written as a comma.\<close>

fun strategyName :: "SourcingStrategy \<Rightarrow> string" where
  "strategyName NEAREST = ''NEAREST''"
| "strategyName PRIORITY = ''PRIORITY''"
| "strategyName FEWEST_SPLITS = ''FEWEST_SPLITS''"
| "strategyName BALANCED = ''BALANCED''"

definition sourcedNote :: "SourcingStrategy \<Rightarrow> (ident \<times> int) list \<Rightarrow> string" where
  "sourcedNote strategy backordered =
    ''sourced via '' @ strategyName strategy @ (if backordered \<noteq> [] then '' (partial, backorder)'' else [])"

definition sourceTx ::
  "SourcingStrategy \<Rightarrow> ident \<Rightarrow> order \<Rightarrow> orderLine list \<Rightarrow> (world, sourcedShipment list \<times> (ident \<times> int) list) op" where
  "sourceTx strategy tenantId ord lines =
    andThen (releaseOwnReservations ord)
    (bind (collect lines (sourceLine strategy tenantId ord)) (\<lambda>sourced.
     let byLocation = uniq (concat (map fst sourced)); backordered = concat (map snd sourced)
     in bind (collect byLocation (shipmentFor tenantId ord)) (\<lambda>shipmentsOut.
     andThen (updateRow orders orders_update (\<lambda>x. o_id x = o_id ord) (o_status_update (\<lambda>_. OrderStatus.ALLOCATED)))
     (andThen (recordEvent (o_id ord) (Some OrderStatus.VALIDATED) OrderStatus.ALLOCATED
        (Some (sourcedNote strategy backordered)))
     (ret (shipmentsOut, backordered))))))"

definition sourceCommit ::
  "(nat \<Rightarrow> world \<Rightarrow> world) \<Rightarrow> SourcingStrategy \<Rightarrow> ident \<Rightarrow> order \<Rightarrow> orderLine list \<Rightarrow> (world, sourcingResult) op" where
  "sourceCommit env strategy tenantId ord lines =
    bind (retryOnConflict defaultAttempts env (transaction (sourceTx strategy tenantId ord lines))) (\<lambda>result.
    andThen (forEach (uniq (map ol_skuId lines)) (invalidate tenantId))
    (ret \<lparr>src_orderId = o_id ord, src_status = OrderStatus.ALLOCATED, src_fullyAllocated = (snd result = []),
          src_shipments = fst result, src_backordered = snd result\<rparr>))"

definition source_order :: "(nat \<Rightarrow> world \<Rightarrow> world) \<Rightarrow> ident \<Rightarrow> ident \<Rightarrow> (world, sourcingResult) op" where
  "source_order env tenantId orderId =
    bind (gets (findTenantOrder tenantId orderId)) (\<lambda>found.
    bind (orThrow found (BadRequest ''Order not found'')) (\<lambda>ord.
    bind (gets (linesOf orderId)) (\<lambda>lines.
    andThen (throwIf (o_status ord \<noteq> OrderStatus.VALIDATED) (BadRequest ''Order must be VALIDATED to source''))
    (bind (gets (resolveStrategy ord)) (\<lambda>strategy.
    sourceCommit env strategy tenantId ord lines)))))"

subsection \<open>The rules\<close>

text \<open>A body field is absent (\<open>None\<close>) or given; a nullable column may be given as null.\<close>

record ruleDto =
  ru_name :: "string option"
  ru_channel :: "OrderChannel option option"
  ru_region :: "string option option"
  ru_strategy :: "SourcingStrategy option"
  ru_allowSplit :: "bool option"
  ru_priority :: "int option"
  ru_active :: "bool option"

definition list_rules :: "ident \<Rightarrow> pageQuery \<Rightarrow> world \<Rightarrow> sourcingRule page" where
  "list_rules tenantId q w = paginate q
    (jsSort (\<lambda>a b. sr_priority a - sr_priority b) (filter (\<lambda>r. sr_tenantId r = tenantId) (sourcingRules w)))"

definition create_rule ::
  "ident \<Rightarrow> string \<Rightarrow> SourcingStrategy \<Rightarrow> ruleDto \<Rightarrow> (world, sourcingRule) op" where
  "create_rule tenantId nm strategy dto =
    bind freshId (\<lambda>i. createRow sourcingRules sourcingRules_update
      \<lparr>sr_id = i, sr_tenantId = tenantId, sr_name = nm, sr_channel = (case ru_channel dto of Some x \<Rightarrow> x | None \<Rightarrow> None),
       sr_region = (case ru_region dto of Some x \<Rightarrow> x | None \<Rightarrow> None),
       sr_strategy = strategy, sr_allowSplit = (case ru_allowSplit dto of Some b \<Rightarrow> b | None \<Rightarrow> True),
       sr_priority = (case ru_priority dto of Some p \<Rightarrow> p | None \<Rightarrow> 100),
       sr_active = (case ru_active dto of Some b \<Rightarrow> b | None \<Rightarrow> True)\<rparr>)"

text \<open>A field that is absent from the body keeps its value.\<close>

definition updatedRule :: "ruleDto \<Rightarrow> sourcingRule \<Rightarrow> sourcingRule" where
  "updatedRule dto r = r
    \<lparr>sr_name := (case ru_name dto of Some x \<Rightarrow> x | None \<Rightarrow> sr_name r),
     sr_channel := (case ru_channel dto of Some x \<Rightarrow> x | None \<Rightarrow> sr_channel r),
     sr_region := (case ru_region dto of Some x \<Rightarrow> x | None \<Rightarrow> sr_region r),
     sr_strategy := (case ru_strategy dto of Some x \<Rightarrow> x | None \<Rightarrow> sr_strategy r),
     sr_allowSplit := (case ru_allowSplit dto of Some x \<Rightarrow> x | None \<Rightarrow> sr_allowSplit r),
     sr_priority := (case ru_priority dto of Some x \<Rightarrow> x | None \<Rightarrow> sr_priority r),
     sr_active := (case ru_active dto of Some x \<Rightarrow> x | None \<Rightarrow> sr_active r)\<rparr>"

definition update_rule :: "ident \<Rightarrow> ident \<Rightarrow> ruleDto \<Rightarrow> (world, sourcingRule) op" where
  "update_rule tenantId i dto =
    bind (gets (\<lambda>w. find (\<lambda>r. sr_id r = i \<and> sr_tenantId r = tenantId) (sourcingRules w))) (\<lambda>existing.
    bind (orThrow existing (NotFound ''Sourcing rule not found'')) (\<lambda>_.
    updateRow sourcingRules sourcingRules_update (\<lambda>r. sr_id r = i) (updatedRule dto)))"

section \<open>Lemmas on plans\<close>

lemma js_comparator_priorityDiff: "js_comparator priorityDiff"
  unfolding priorityDiff_def [abs_def] by (rule js_comparator_diff)

lemma js_comparator_availableDiff: "js_comparator availableDiff"
  using js_comparator_diff [of "\<lambda>c. - ca_available c"] by (simp add: availableDiff_def [abs_def])

lemma js_comparator_distanceDiff: "js_comparator distanceDiff"
proof (unfold_locales, goal_cases)
  case (1 b a)
  show ?case by (auto simp: distanceDiff_def split: option.splits)
next
  case (2 a b c)
  then show ?case by (auto simp: distanceDiff_def split: option.splits if_splits)
qed

interpretation comparator: js_comparator "comparator strategy" for strategy
proof -
  note c = js_comparator_priorityDiff js_comparator_availableDiff js_comparator_distanceDiff
  have eqs: "comparator NEAREST = (\<lambda>a b. falsyOr (distanceDiff a b) (falsyOr (priorityDiff a b) (availableDiff a b)))"
    "comparator PRIORITY = (\<lambda>a b. falsyOr (priorityDiff a b) (availableDiff a b))"
    "comparator FEWEST_SPLITS = (\<lambda>a b. falsyOr (availableDiff a b) (priorityDiff a b))"
    "comparator BALANCED = (\<lambda>a b. falsyOr (priorityDiff a b) (falsyOr (distanceDiff a b) (availableDiff a b)))"
    by (simp_all add: fun_eq_iff)
  show "js_comparator (comparator strategy)"
    by (cases strategy) (simp_all add: eqs js_comparator_falsyOr c)
qed

lemma asPlanCandidate_sel [simp]:
  "cd_locationId (asPlanCandidate c) = ca_locationId c" "cd_available (asPlanCandidate c) = ca_available c"
  "cd_priority (asPlanCandidate c) = ca_priority c"
  by (simp_all add: asPlanCandidate_def)

text \<open>The candidates are those of the pre-source that are not at capacity.\<close>

definition hasRoom :: "world \<Rightarrow> ident \<Rightarrow> bool" where
  "hasRoom w l \<longleftrightarrow> (case findLocation l w of None \<Rightarrow> False | Some lo \<Rightarrow> \<not> atCapacity lo w)"

lemma candidates_plan:
  "map asPlanCandidate (candidatesForLine ord s w) =
    filter (\<lambda>c. hasRoom w (cd_locationId c)) (planCandidates (o_tenantId ord) s w)"
proof -
  have "map asPlanCandidate (List.map_filter (candidateOf ord w) rs) =
    filter (\<lambda>c. hasRoom w (cd_locationId c)) (filter (\<lambda>c. 0 < cd_available c)
      (List.map_filter (\<lambda>s. case findLocation (sn_locationId s) w of
          None \<Rightarrow> None
        | Some l \<Rightarrow> if lo_active l \<and> lo_shipFromEnabled l
            then Some \<lparr>cd_locationId = sn_locationId s,
              cd_available = bk_onHand (sn_bal s) - bk_reserved (sn_bal s) - bk_allocated (sn_bal s) - sn_safetyStock s,
              cd_priority = lo_fulfillmentPriority l\<rparr>
            else None) rs))" for rs
    by (induction rs) (auto simp: map_filter_simps candidateOf_def asPlanCandidate_def hasRoom_def Let_def split: option.splits)
  then show ?thesis unfolding candidatesForLine_def planCandidates_def by blast
qed

lemma candidate_row:
  assumes ok: "snapshotsOk w" and c: "c \<in> set (candidatesForLine ord s w)"
  shows "ca_available c = availableAt w (o_tenantId ord, s, ca_locationId c)" "0 < ca_available c"
    "findSnapshot (o_tenantId ord, s, ca_locationId c) w \<noteq> None" "hasRoom w (ca_locationId c)"
    "ca_locationId c \<in> shipNodes (o_tenantId ord) s w"
proof -
  have "asPlanCandidate c \<in> set (map asPlanCandidate (candidatesForLine ord s w))" using c by simp
  then have p: "asPlanCandidate c \<in> set (planCandidates (o_tenantId ord) s w)" and room: "hasRoom w (ca_locationId c)"
    unfolding candidates_plan by simp_all
  show "hasRoom w (ca_locationId c)" by (rule room)
  show "ca_available c = availableAt w (o_tenantId ord, s, ca_locationId c)" "0 < ca_available c"
    "findSnapshot (o_tenantId ord, s, ca_locationId c) w \<noteq> None"
    using planCandidates_row [OF ok p] by simp_all
  have "cd_locationId (asPlanCandidate c) \<in> set (map cd_locationId (planCandidates (o_tenantId ord) s w))"
    using p by (metis image_eqI list.set_map)
  then show "ca_locationId c \<in> shipNodes (o_tenantId ord) s w"
    unfolding planCandidates_locations [OF ok] by simp
qed

lemma candidates_distinct:
  assumes "snapshotsOk w"
  shows "distinct (map ca_locationId (candidatesForLine ord s w))"
proof -
  have "map ca_locationId (candidatesForLine ord s w) = map cd_locationId (map asPlanCandidate (candidatesForLine ord s w))"
    by simp
  then show ?thesis
    unfolding candidates_plan using planCandidates_distinct [OF assms] by (simp only: distinct_map_filter)
qed

text \<open>What the candidates have together.\<close>

definition sourceable :: "candidate list \<Rightarrow> int" where
  "sourceable cs = sum_list (map ca_available cs)"

lemma sourcePlan_cases:
  obtains (none) "cs = []" "sourcePlan st n cs = []"
  | (single) c where "st = FEWEST_SPLITS" "c \<in> set cs" "n \<le> ca_available c"
      "sourcePlan st n cs = [\<lparr>pl_locationId = ca_locationId c, pl_quantity = n\<rparr>]"
  | (greedy) "sourcePlan st n cs = greedyPlan n (map asPlanCandidate (jsSort (comparator st) cs))"
      "st = FEWEST_SPLITS \<Longrightarrow> \<forall>c \<in> set cs. ca_available c < n"
proof (cases "singleNode st n cs")
  case None
  have big: "\<forall>c \<in> set cs. ca_available c < n" if "st = FEWEST_SPLITS"
  proof -
    have "jsSort (comparator PRIORITY) (filter (\<lambda>c. n \<le> ca_available c) cs) = []"
      using None that by (simp add: singleNode_def split: list.splits)
    then have "set (filter (\<lambda>c. n \<le> ca_available c) cs) = {}" by (metis set_jsSort set_empty)
    then show ?thesis by (auto simp: not_le)
  qed
  show ?thesis
  proof (cases "cs = []")
    case True
    then show ?thesis using none by (simp add: sourcePlan_def)
  next
    case False
    then show ?thesis using greedy big None by (simp add: sourcePlan_def)
  qed
next
  case (Some c)
  then have st: "st = FEWEST_SPLITS"
    and hd: "\<exists>t. jsSort (comparator PRIORITY) (filter (\<lambda>c. n \<le> ca_available c) cs) = c # t"
    by (auto simp: singleNode_def split: if_splits list.splits)
  then have "c \<in> set (filter (\<lambda>c. n \<le> ca_available c) cs)" by (metis list.set_intros(1) set_jsSort)
  then have c: "c \<in> set cs" "n \<le> ca_available c" by simp_all
  then have "cs \<noteq> []" by auto
  then show ?thesis using single [OF st c] Some by (simp add: sourcePlan_def)
qed

lemma sourcePlan_spec:
  assumes pos: "\<forall>c \<in> set cs. 0 < ca_available c" and dist: "distinct (map ca_locationId cs)" and n: "0 < n"
  shows "\<forall>l \<in> set (sourcePlan st n cs). 0 < pl_quantity l \<and>
      (\<exists>c \<in> set cs. ca_locationId c = pl_locationId l \<and> pl_quantity l \<le> ca_available c)"
    and "distinct (map pl_locationId (sourcePlan st n cs))"
    and "planned (sourcePlan st n cs) = min n (sourceable cs)"
proof -
  let ?ps = "map asPlanCandidate (jsSort (comparator st) cs)"
  have pos': "\<forall>c \<in> set ?ps. 0 < cd_available c" using pos by simp
  have "distinct (map ca_locationId (jsSort (comparator st) cs))" using dist by simp
  then have dist': "distinct (map cd_locationId ?ps)" by (simp add: comp_def)
  have sum: "sum_list (map cd_available ?ps) = sourceable cs" by (simp add: comp_def sourceable_def)
  have nonneg: "0 \<le> sourceable cs"
    unfolding sourceable_def using pos by (intro sum_list_nonneg) (auto simp: less_imp_le)
  show "\<forall>l \<in> set (sourcePlan st n cs). 0 < pl_quantity l \<and>
      (\<exists>c \<in> set cs. ca_locationId c = pl_locationId l \<and> pl_quantity l \<le> ca_available c)"
    by (cases rule: sourcePlan_cases [of cs st n]) (use n greedyPlan_bounds [OF pos', of n] in auto)
  show "distinct (map pl_locationId (sourcePlan st n cs))"
    by (cases rule: sourcePlan_cases [of cs st n]) (simp_all add: greedyPlan_distinct [OF dist'])
  show "planned (sourcePlan st n cs) = min n (sourceable cs)"
  proof (cases rule: sourcePlan_cases [of cs st n])
    case none
    then show ?thesis using n by (simp add: planned_def sourceable_def)
  next
    case (single c)
    have "ca_available c \<le> sourceable cs"
      unfolding sourceable_def using single(2) pos by (intro member_le_sum_list) (auto simp: less_imp_le)
    then show ?thesis using single by (simp add: planned_def)
  next
    case greedy
    then show ?thesis using greedyPlan_total [OF pos', of n] n sum by simp
  qed
qed

text \<open>The largest-first greedy plan uses the fewest nodes.\<close>

lemma sum_le_take:
  fixes f :: "'a \<Rightarrow> int"
  assumes "sorted_wrt (\<lambda>a b. f b \<le> f a) cs" "\<forall>c \<in> set cs. 0 \<le> f c" "S \<subseteq> set cs" "card S \<le> k"
  shows "sum f S \<le> sum_list (map f (take k cs))"
  using assms
proof (induction cs arbitrary: S k)
  case (Cons c cs)
  have fin: "finite S" using Cons.prems(3) finite_subset by blast
  show ?case
  proof (cases "S = {}")
    case True
    have "set (take k (c # cs)) \<subseteq> set (c # cs)" by (rule set_take_subset)
    then have "0 \<le> sum_list (map f (take k (c # cs)))" using Cons.prems(2) by (intro sum_list_nonneg) auto
    then show ?thesis using True by simp
  next
    case False
    define s where "s = (if c \<in> S then c else SOME x. x \<in> S)"
    have s: "s \<in> S" using False by (auto simp: s_def some_in_eq)
    have k: "k \<noteq> 0" using Cons.prems(4) False fin by auto
    have sub: "S - {s} \<subseteq> set cs" using Cons.prems(3) by (auto simp: s_def)
    have "card (S - {s}) \<le> k - 1" using Cons.prems(4) s fin by (simp add: card_Diff_singleton)
    then have rest: "sum f (S - {s}) \<le> sum_list (map f (take (k - 1) cs))"
      using Cons.IH [of "S - {s}" "k - 1"] Cons.prems(1,2) sub by simp
    have "f s \<le> f c" using s Cons.prems(1,3) by (auto simp: subset_iff)
    moreover have "sum f S = f s + sum f (S - {s})" by (rule sum.remove [OF fin s])
    ultimately show ?thesis using rest k by (cases k) simp_all
  qed
qed simp

lemma greedyPlan_short:
  assumes pos: "\<forall>c \<in> set cs. 0 < cd_available c" and m: "m < length (greedyPlan n cs)"
  shows "sum_list (map cd_available (take m cs)) < planned (greedyPlan n cs)"
proof -
  let ?g = "greedyPlan n cs" and ?k = "length (greedyPlan n cs)"
  have ne: "map pl_quantity ?g \<noteq> []" using m by auto
  have last: "0 < last (map pl_quantity ?g)"
    using greedyPlan_bounds [OF pos, of n] ne last_in_set [OF ne] by auto
  have "map pl_quantity ?g = butlast (map pl_quantity ?g) @ [last (map pl_quantity ?g)]" using ne by simp
  then have "planned ?g = sum_list (butlast (map pl_quantity ?g)) + last (map pl_quantity ?g)"
    unfolding planned_def by (metis add_0_right sum_list.Cons sum_list.Nil sum_list_append)
  then have "sum_list (map cd_available (take (?k - 1) cs)) < planned ?g"
    using greedyPlan_take(2) [OF pos, of n] last by simp
  moreover have "sum_list (map cd_available (take m cs)) \<le> sum_list (map cd_available (take (?k - 1) cs))"
  proof -
    have "take (?k - 1) cs = take m cs @ take (?k - 1 - m) (drop m cs)"
      using m take_add [of m "?k - 1 - m" cs] by simp
    moreover have "0 \<le> sum_list (map cd_available (take (?k - 1 - m) (drop m cs)))"
      using pos by (intro sum_list_nonneg) (auto simp: less_imp_le dest!: in_set_takeD in_set_dropD)
    ultimately show ?thesis by simp
  qed
  ultimately show ?thesis by linarith
qed

text \<open>
  A rival plan: legs at distinct candidates, within what each has.
\<close>

definition rivalPlan :: "candidate list \<Rightarrow> planLeg list \<Rightarrow> bool" where
  "rivalPlan cs ls \<longleftrightarrow> distinct (map pl_locationId ls) \<and>
    (\<forall>l \<in> set ls. \<exists>c \<in> set cs. ca_locationId c = pl_locationId l \<and> pl_quantity l \<le> ca_available c)"

lemma rivalPlan_total:
  assumes pos: "\<forall>c \<in> set cs. 0 < ca_available c" and dist: "distinct (map ca_locationId cs)" and r: "rivalPlan cs ls"
    and sorted: "sorted_wrt (\<lambda>a b. ca_available b \<le> ca_available a) cs'" "set cs' = set cs"
  shows "planned ls \<le> sum_list (map ca_available (take (length ls) cs'))"
proof -
  have "\<forall>l \<in> set ls. \<exists>c. c \<in> set cs \<and> ca_locationId c = pl_locationId l \<and> pl_quantity l \<le> ca_available c"
    using r unfolding rivalPlan_def by blast
  from bchoice [OF this] obtain h
    where c: "\<forall>l \<in> set ls. h l \<in> set cs \<and> ca_locationId (h l) = pl_locationId l \<and> pl_quantity l \<le> ca_available (h l)" ..
  have "map ca_locationId (map h ls) = map pl_locationId ls" using c by simp
  then have "distinct (map ca_locationId (map h ls))" using r unfolding rivalPlan_def by metis
  then have d: "distinct (map h ls)" unfolding distinct_map [of ca_locationId "map h ls"] by blast
  have "planned ls \<le> sum_list (map (\<lambda>l. ca_available (h l)) ls)"
    unfolding planned_def using c by (intro sum_list_mono) blast
  also have "\<dots> = sum ca_available (set (map h ls))"
    using d sum_list_distinct_conv_sum_set [of "map h ls" ca_available] by (simp add: comp_def)
  also have "\<dots> \<le> sum_list (map ca_available (take (length ls) cs'))"
  proof (rule sum_le_take [OF sorted(1)])
    show "\<forall>c \<in> set cs'. 0 \<le> ca_available c" using pos sorted(2) by (auto simp: less_imp_le)
    show "set (map h ls) \<subseteq> set cs'" using c sorted(2) by auto
    show "card (set (map h ls)) \<le> length ls" using card_length [of "map h ls"] by simp
  qed
  finally show ?thesis .
qed

lemma fewest_sorted: "sorted_wrt (\<lambda>a b. ca_available b \<le> ca_available a) (jsSort (comparator FEWEST_SPLITS) cs)"
  by (rule sorted_wrt_mono_rel [OF _ comparator.sorted_jsSort [of FEWEST_SPLITS cs]])
    (auto simp: falsyOr_def availableDiff_def split: if_splits)

lemma fewest_splits:
  assumes pos: "\<forall>c \<in> set cs. 0 < ca_available c" and dist: "distinct (map ca_locationId cs)" and n: "0 < n"
    and r: "rivalPlan cs ls" and as_much: "planned (sourcePlan FEWEST_SPLITS n cs) \<le> planned ls"
  shows "length (sourcePlan FEWEST_SPLITS n cs) \<le> length ls"
proof (cases rule: sourcePlan_cases [of cs FEWEST_SPLITS n])
  case none
  then show ?thesis by simp
next
  case (single c)
  then have "0 < planned ls" using as_much n by (simp add: planned_def)
  then have "ls \<noteq> []" by (auto simp: planned_def)
  then show ?thesis using single by (cases ls) simp_all
next
  case greedy
  let ?cs = "jsSort (comparator FEWEST_SPLITS) cs" and ?ps = "map asPlanCandidate (jsSort (comparator FEWEST_SPLITS) cs)"
  show ?thesis
  proof (rule ccontr)
    assume "\<not> ?thesis"
    then have "sum_list (map cd_available (take (length ls) ?ps)) < planned (sourcePlan FEWEST_SPLITS n cs)"
      using greedyPlan_short [of ?ps "length ls" n] pos unfolding greedy(1) by simp
    moreover have "map cd_available (take (length ls) ?ps) = map ca_available (take (length ls) ?cs)"
      by (simp add: take_map comp_def)
    ultimately show False
      using rivalPlan_total [OF pos dist r fewest_sorted, of cs] as_much by simp
  qed
qed

section \<open>The transaction, step by step\<close>

text \<open>The order's own holds are consumed; as in a release, their units become available.\<close>

definition holdsOwned :: "ident \<Rightarrow> ident \<Rightarrow> world \<Rightarrow> bool" where
  "holdsOwned t i w \<longleftrightarrow> (\<forall>r \<in> set (reservations w). rv_orderId r = Some i \<longrightarrow> rv_tenantId r = t)"

lemma consumeParams_eq: "rv_tenantId r = o_tenantId ord \<Longrightarrow> consumeParams ord r = releaseParams r"
  by (simp add: consumeParams_def releaseParams_def)

lemma wp_consumeHold:
  assumes inv: "stockInv v" "commitInv v" and found: "findReservation (rv_id r) v = Some r" "rv_status r = ACTIVE"
    and own: "rv_tenantId r = o_tenantId ord"
  shows "wp (consumeHold ord r) (\<lambda>_ w'. holdReleased (rv_id r) CONSUMED r v w') (\<lambda>_ _. False) v"
  using wp_releaseTx [OF inv, of CONSUMED "rv_id r"]
  by (simp add: releaseTx_def consumeHold_def wp found consumeParams_eq [OF own])

lemma giveBackAll_keeps: "r \<in> set rs \<Longrightarrow> rv_id r \<notin> is \<Longrightarrow> r \<in> set (giveBackAll is st rs)"
  by (force simp: giveBackAll_def set_mapWhere)

lemma wp_releaseOwn:
  assumes inv: "stockInv w" "commitInv w" and own: "holdsOwned (o_tenantId ord) (o_id ord) w"
  shows "wp (releaseOwnReservations ord) (\<lambda>_ w'. holdsReleased (orderHolds (o_id ord) w) CONSUMED w w') (\<lambda>_ _. False) w"
proof -
  let ?rs = "filter (\<lambda>r. rv_orderId r = Some (o_id ord) \<and> rv_status r = ACTIVE) (reservations w)"
  have dist: "distinct (map rv_id ?rs)" using commitInvD(2) [OF inv(2)] by (simp add: commitRows_def distinct_map_filter)
  let ?I = "\<lambda>rest v. \<exists>ds. ?rs = ds @ rest \<and> holdsReleased (rv_id ` set ds) CONSUMED w v"
  have "wp (forEach ?rs (consumeHold ord)) (\<lambda>_. ?I []) (\<lambda>_ _. False) w"
  proof (rule wp_forEach_rest)
    show "?I ?rs w" using holdsReleased_refl [OF inv] by simp
  next
    fix r rest v assume "?I (r # rest) v"
    then obtain ds where d: "?rs = ds @ r # rest" "holdsReleased (rv_id ` set ds) CONSUMED w v" by blast
    have "r \<in> set ?rs" unfolding d(1) by simp
    then have r: "r \<in> set (reservations w)" "rv_orderId r = Some (o_id ord)" "rv_status r = ACTIVE" by auto
    have fresh: "rv_id r \<notin> rv_id ` set ds" using dist unfolding d(1) by auto
    have iv: "stockInv v" "commitInv v" using d(2) by (simp_all add: holdsReleased_def)
    have "r \<in> set (reservations v)" using giveBackAll_keeps [OF r(1) fresh] d(2) by (simp add: holdsReleased_def)
    then have "findReservation (rv_id r) v = Some r"
      using commitInvD(2) [OF iv(2)] by (simp add: findReservation_def commitRows_def find_unique)
    moreover have "rv_tenantId r = o_tenantId ord" using own r by (simp add: holdsOwned_def)
    ultimately show "wp (consumeHold ord r) (\<lambda>_. ?I rest) (\<lambda>_ _. False) v"
      using holdsReleased_step [OF d(2), of "rv_id r" r] d(1)
      by (intro wp_mono [OF wp_consumeHold [OF iv _ r(3)]]) (auto intro!: exI [of _ "ds @ [r]"])
  qed
  moreover have "rv_id ` set ?rs = orderHolds (o_id ord) w" by (auto simp: orderHolds_def)
  ultimately show ?thesis unfolding releaseOwnReservations_def wp by (auto elim!: wp_mono)
qed

text \<open>The movements of a line: every leg takes its units at its node.\<close>

lemma allocateParams_simps [simp]:
  "mv_key (allocateParams t ord line leg) = (t, ol_skuId line, pl_locationId leg)"
  "deltaOf (mv_deltas (allocateParams t ord line leg)) = Buckets 0 0 (pl_quantity leg) 0 0"
  "mv_requireAvailable (allocateParams t ord line leg)"
  by (simp_all add: allocateParams_def)

definition legDelta :: "ident \<Rightarrow> ident \<Rightarrow> planLeg list \<Rightarrow> stockKey \<Rightarrow> buckets" where
  "legDelta t s legs k = sumWhere (\<lambda>l. (t, s, pl_locationId l) = k) (\<lambda>l. Buckets 0 0 (pl_quantity l) 0 0) legs"

definition legsFit :: "ident \<Rightarrow> ident \<Rightarrow> planLeg list \<Rightarrow> world \<Rightarrow> bool" where
  "legsFit t s legs w \<longleftrightarrow> distinct (map pl_locationId legs) \<and>
    (\<forall>l \<in> set legs. 0 < pl_quantity l \<and> pl_quantity l \<le> availableAt w (t, s, pl_locationId l) \<and>
      findSnapshot (t, s, pl_locationId l) w \<noteq> None)"

lemma wp_allocateLegs:
  assumes "stockInv v" "legsFit t (ol_skuId line) legs v"
  shows "wp (forEach legs (\<lambda>leg. andThen (applyWithin (allocateParams t ord line leg)) (ret ())))
    (\<lambda>_ w'. stockInv w' \<and> stockOnly v w' \<and> (\<forall>k. balance w' k = balance v k + legDelta t (ol_skuId line) legs k))
    (\<lambda>_ _. False) v"
  using assms
proof (induction legs arbitrary: v)
  case Nil
  then show ?case by (simp add: wp legDelta_def)
next
  case (Cons leg legs)
  let ?p = "allocateParams t ord line leg" and ?s = "ol_skuId line"
  let ?k = "(t, ?s, pl_locationId leg)"
  have here: "0 < pl_quantity leg" "pl_quantity leg \<le> availableAt v ?k" "findSnapshot ?k v \<noteq> None"
    and other: "pl_locationId leg \<notin> pl_locationId ` set legs"
    using Cons.prems(2) by (auto simp: legsFit_def)
  have can: "stockable ?p v" "admissible ?p (balance v ?k + Buckets 0 0 (pl_quantity leg) 0 0) (safetyOf v ?k)"
    using here stockInvD(2) [OF Cons.prems(1), of ?k]
    by (simp_all add: stockable_def admissible_def availableAt_def availableOf_def nonneg_def)
  have rest: "wp (forEach legs (\<lambda>leg. andThen (applyWithin (allocateParams t ord line leg)) (ret ())))
      (\<lambda>_ w'. stockInv w' \<and> stockOnly v w' \<and> (\<forall>k. balance w' k = balance v k + legDelta t ?s (leg # legs) k))
      (\<lambda>_ _. False) v1"
    if m: "moved ?p v v1" "snapshotsOk v1" "nonneg (balance v1 ?k)" for v1
  proof -
    have iv: "stockInv v1" using moved_stockInv [OF Cons.prems(1) m(1,2)] m(3) by simp
    have bal: "balance v1 = (balance v)(?k := balance v ?k + Buckets 0 0 (pl_quantity leg) 0 0)"
      "safetyOf v1 = safetyOf v" "stockOnly v v1" using m(1) by (simp_all add: moved_def)
    have "availableAt v1 (t, ?s, pl_locationId l) = availableAt v (t, ?s, pl_locationId l)" if "l \<in> set legs" for l
    proof -
      have "pl_locationId l \<noteq> pl_locationId leg" using other that by (metis image_eqI)
      then show ?thesis by (simp add: availableAt_def bal)
    qed
    then have "legsFit t ?s legs v1"
      using Cons.prems(2) moved_found [OF m(1)] by (simp add: legsFit_def)
    from Cons.IH [OF iv this] show ?thesis
      by (rule wp_mono) (use bal stockOnly_trans in \<open>auto simp: legDelta_def algebra_simps\<close>)
  qed
  show ?case
    unfolding forEach.simps wp
  proof (rule wp_mono [OF applyWithin_spec [OF stockInvD(1) [OF Cons.prems(1)]]], goal_cases)
    case (1 r v1)
    then have "moved ?p v v1" "snapshotsOk v1" "nonneg (balance v1 ?k)" by (simp_all add: admissible_def)
    then show ?case by (rule rest)
  next
    case (2 e v1)
    with can show ?case by simp
  qed
qed

text \<open>The rows of a line.\<close>

fun rowsFrom :: "ident \<Rightarrow> order \<Rightarrow> orderLine \<Rightarrow> ident \<Rightarrow> planLeg list \<Rightarrow> allocation list" where
  "rowsFrom t ord line n [] = []"
| "rowsFrom t ord line n (leg # legs) = allocationRow t ord line leg n # rowsFrom t ord line (Suc n) legs"

lemma wp_createAllocation: "wp (createAllocation t ord line leg) Q E =
    (\<lambda>v. Q () (v\<lparr>nextId := Suc (nextId v), allocations := allocations v @ [allocationRow t ord line leg (nextId v)]\<rparr>))"
  by (simp add: createAllocation_def wp)

lemma wp_createAllocations:
  "wp (forEach legs (createAllocation t ord line)) Q E =
    (\<lambda>v. Q () (v\<lparr>nextId := nextId v + length legs, allocations := allocations v @ rowsFrom t ord line (nextId v) legs\<rparr>))"
proof (induction legs)
  case (Cons leg legs)
  show ?case unfolding forEach.simps wp_andThen Cons.IH wp_createAllocation by simp
qed (simp add: wp)

lemma allocationRow_sel [simp]:
  "al_id (allocationRow t ord line leg i) = i" "al_tenantId (allocationRow t ord line leg i) = t"
  "al_orderId (allocationRow t ord line leg i) = o_id ord" "al_orderLineId (allocationRow t ord line leg i) = ol_id line"
  "al_skuId (allocationRow t ord line leg i) = ol_skuId line" "al_locationId (allocationRow t ord line leg i) = pl_locationId leg"
  "al_quantity (allocationRow t ord line leg i) = pl_quantity leg" "al_shipmentId (allocationRow t ord line leg i) = None"
  "al_status (allocationRow t ord line leg i) = AllocationStatus.ALLOCATED" "openAllocation (allocationRow t ord line leg i)"
  "al_key (allocationRow t ord line leg i) = (t, ol_skuId line, pl_locationId leg)"
  by (simp_all add: allocationRow_def openAllocation_def al_key_def)

lemma rowsFrom_rows:
  "map al_id (rowsFrom t ord line n legs) = [n..<n + length legs]"
  "map al_quantity (rowsFrom t ord line n legs) = map pl_quantity legs"
  "map al_locationId (rowsFrom t ord line n legs) = map pl_locationId legs"
  "\<forall>a \<in> set (rowsFrom t ord line n legs). \<exists>leg \<in> set legs. \<exists>i. a = allocationRow t ord line leg i"
proof (induction legs arbitrary: n)
  case (Cons leg legs)
  case 1
  have "[n..<n + length (leg # legs)] = n # [Suc n..<Suc n + length legs]" by (subst upt_conv_Cons) simp_all
  then show ?case using Cons.IH(1) [of "Suc n"] by (simp del: upt_Suc)
qed auto

lemma committed_rowsFrom:
  "sumWhere (\<lambda>a. al_key a = k \<and> openAllocation a) al_quantity (rowsFrom t ord line n legs) =
    bk_allocated (legDelta t (ol_skuId line) legs k)"
  by (induction legs arbitrary: n) (auto simp: legDelta_def)

lemma legDelta_reserved [simp]: "bk_reserved (legDelta t s legs k) = 0"
  by (induction legs) (auto simp: legDelta_def)

text \<open>A line: the allocations \<open>as\<close> are added, and everything agrees with them.\<close>

definition allocsAdded :: "allocation list \<Rightarrow> world \<Rightarrow> world \<Rightarrow> bool" where
  "allocsAdded as w w' \<longleftrightarrow> stockInv w' \<and> commitInv w' \<and> booksKept w w' \<and>
    reservations w' = reservations w \<and> allocations w' = allocations w @ as"

lemma allocsAdded_refl: "stockInv w \<Longrightarrow> commitInv w \<Longrightarrow> allocsAdded [] w w"
  by (simp add: allocsAdded_def booksKept_refl)

lemma allocsAdded_trans: "allocsAdded as u v \<Longrightarrow> allocsAdded bs v w \<Longrightarrow> allocsAdded (as @ bs) u w"
  using booksKept_trans [of u v w] by (simp add: allocsAdded_def)

lemma allocsAdded_rows:
  assumes inv: "commitInv v" and m: "stockInv v1" "stockOnly v v1"
    "\<And>k. balance v1 k = balance v k + legDelta t (ol_skuId line) legs k" and pos: "\<forall>l \<in> set legs. 0 < pl_quantity l"
  shows "allocsAdded (rowsFrom t ord line (nextId v1) legs) v
    (v1\<lparr>nextId := nextId v1 + length legs, allocations := allocations v1 @ rowsFrom t ord line (nextId v1) legs\<rparr>)"
    (is "allocsAdded ?rs v ?w")
proof -
  note so = stockOnly_sel [OF m(2)] and rows = commitInvD(2) [OF inv]
  have st: "stockInv ?w" using m(1) by (simp add: stockInv_nextId)
  have ids: "al_id a < nextId v1 + length legs" "nextId v1 \<le> al_id a" "0 < al_quantity a" if "a \<in> set ?rs" for a
  proof -
    have "al_id a \<in> set [nextId v1..<nextId v1 + length legs]"
      using that rowsFrom_rows(1) [of t ord line "nextId v1" legs] by (metis image_eqI list.set_map)
    then show "al_id a < nextId v1 + length legs" "nextId v1 \<le> al_id a" by simp_all
    show "0 < al_quantity a" using that pos rowsFrom_rows(4) [of t ord line "nextId v1" legs] by fastforce
  qed
  have old: "al_id a < nextId v" if "a \<in> set (allocations v)" for a using rows that by (simp add: commitRows_def)
  have "distinct (map al_id (allocations v @ ?rs))"
  proof -
    have "set (map al_id (allocations v)) \<inter> set (map al_id ?rs) = {}"
      using old ids(2) so(1) by fastforce
    then show ?thesis using rows by (simp add: commitRows_def rowsFrom_rows(1) del: set_map)
  qed
  moreover have "al_id a < nextId ?w \<and> 0 < al_quantity a" if "a \<in> set (allocations v @ ?rs)" for a
  proof (cases "a \<in> set ?rs")
    case True
    then show ?thesis using ids by simp
  next
    case False
    then have "a \<in> set (allocations v)" using that by simp
    then show ?thesis using old [of a] rows so(1) by (fastforce simp: commitRows_def)
  qed
  moreover have "rv_id r < nextId ?w \<and> 0 < rv_quantity r" if "r \<in> set (reservations v)" for r
    using that rows so(1) by (fastforce simp: commitRows_def)
  ultimately have "commitRows ?w" using rows by (simp add: commitRows_def so)
  moreover have "snapshotsOk ?w" using stockInvD(1) [OF st] .
  moreover have "held ?w = held v" by (rule held_cong) (simp add: so)
  moreover have "bk_reserved (balance ?w k) = held v k" "bk_allocated (balance ?w k) = committed ?w k" for k
    using commitInvD(3,4) [OF inv, of k] committed_rowsFrom [of k t ord line "nextId v1" legs]
    by (simp_all add: m(3) committed_def so)
  ultimately have "commitInv ?w" by (auto simp: commitInv_def)
  moreover have "booksKept v ?w" by (simp add: booksKept_def so trans_le_add1)
  ultimately show ?thesis using st by (simp add: allocsAdded_def so)
qed

text \<open>What the allocations of a line must look like.\<close>

definition allocFor :: "allocation list \<Rightarrow> orderLine \<Rightarrow> int" where
  "allocFor as l = sumWhere (\<lambda>a. al_orderLineId a = ol_id l) al_quantity as"

definition madeFor :: "ident \<Rightarrow> order \<Rightarrow> orderLine \<Rightarrow> world \<Rightarrow> allocation \<Rightarrow> bool" where
  "madeFor t ord l w a \<longleftrightarrow> al_tenantId a = t \<and> al_orderId a = o_id ord \<and> al_orderLineId a = ol_id l \<and>
    al_skuId a = ol_skuId l \<and> al_status a = AllocationStatus.ALLOCATED \<and> al_shipmentId a = None \<and>
    shipFrom w (al_locationId a) \<and> nextId w \<le> al_id a"

definition shortOf :: "allocation list \<Rightarrow> orderLine \<Rightarrow> (ident \<times> int) list" where
  "shortOf as l = (if allocFor as l < ol_quantity l then [(ol_skuId l, ol_quantity l - allocFor as l)] else [])"

lemma shipNodes_shipFrom: "l \<in> shipNodes t s w \<Longrightarrow> shipFrom w l"
  by (simp add: shipNodes_def)

lemma wp_sourceLine:
  assumes inv: "stockInv v" "commitInv v" and q: "0 < ol_quantity line" and t: "t = o_tenantId ord"
  shows "wp (sourceLine st t ord line)
    (\<lambda>out w'. \<exists>as locs. allocsAdded as v w' \<and> (\<forall>a \<in> set as. madeFor t ord line v a) \<and>
      allocFor as line = min (ol_quantity line) (sourceable (candidatesForLine ord (ol_skuId line) v)) \<and>
      (allocFor as line = ol_quantity line \<or> o_allowBackorder ord) \<and>
      out = [(locs, shortOf as line)] \<and> set locs = al_locationId ` set as)
    (\<lambda>e w'. e = BadRequest ''Cannot source'' \<and> \<not> o_allowBackorder ord \<and>
      sourceable (candidatesForLine ord (ol_skuId line) v) < ol_quantity line) v"
proof -
  let ?cs = "candidatesForLine ord (ol_skuId line) v" and ?plan = "sourcePlan st (ol_quantity line) (candidatesForLine ord (ol_skuId line) v)"
  note row = candidate_row [OF stockInvD(1) [OF inv(1)]]
  have pos: "\<forall>c \<in> set ?cs. 0 < ca_available c" using row(2) by blast
  note spec = sourcePlan_spec [OF pos candidates_distinct [OF stockInvD(1) [OF inv(1)]] q, of st]
  have fit: "legsFit t (ol_skuId line) ?plan v"
    unfolding legsFit_def
  proof (intro conjI ballI)
    show "distinct (map pl_locationId ?plan)" by (rule spec(2))
  next
    fix l assume "l \<in> set ?plan"
    then obtain c where c: "c \<in> set ?cs" "ca_locationId c = pl_locationId l" "pl_quantity l \<le> ca_available c" "0 < pl_quantity l"
      using spec(1) by blast
    show "0 < pl_quantity l" by (rule c(4))
    show "pl_quantity l \<le> availableAt v (t, ol_skuId line, pl_locationId l)" using row(1) [OF c(1)] c(2,3) t by simp
    show "findSnapshot (t, ol_skuId line, pl_locationId l) v \<noteq> None" using row(3) [OF c(1)] c(2) t by simp
  qed
  show ?thesis
  proof (cases "planned ?plan < ol_quantity line \<and> \<not> o_allowBackorder ord")
    case True
    then show ?thesis unfolding sourceLine_def wp Let_def if_P [OF True] by (simp add: spec(3) min_less_iff_disj)
  next
    case False
    have done_: "\<exists>as locs. allocsAdded as v u \<and> (\<forall>a \<in> set as. madeFor t ord line v a) \<and>
      allocFor as line = min (ol_quantity line) (sourceable ?cs) \<and>
      (allocFor as line = ol_quantity line \<or> o_allowBackorder ord) \<and>
      [(map pl_locationId ?plan, if planned ?plan < ol_quantity line then [(ol_skuId line, ol_quantity line - planned ?plan)] else [])] =
        [(locs, shortOf as line)] \<and> set locs = al_locationId ` set as"
      if v1: "stockInv v1" "stockOnly v v1" "\<forall>k. balance v1 k = balance v k + legDelta t (ol_skuId line) ?plan k"
        and w: "u = v1\<lparr>nextId := nextId v1 + length ?plan, allocations := allocations v1 @ rowsFrom t ord line (nextId v1) ?plan\<rparr>"
      for v1 u
    proof -
      let ?rs = "rowsFrom t ord line (nextId v1) ?plan"
      have added: "allocsAdded ?rs v u"
        unfolding w by (rule allocsAdded_rows [OF inv(2) v1(1,2)]) (use v1(3) spec(1) in auto)
      have for_: "madeFor t ord line v a" if mem: "a \<in> set ?rs" for a
      proof -
        obtain leg i where leg: "leg \<in> set ?plan" "a = allocationRow t ord line leg i"
          using rowsFrom_rows(4) [of t ord line "nextId v1" ?plan] mem by blast
        obtain c where c: "c \<in> set ?cs" "ca_locationId c = pl_locationId leg" using spec(1) leg(1) by blast
        have "al_id a \<in> set [nextId v1..<nextId v1 + length ?plan]"
          using mem rowsFrom_rows(1) [of t ord line "nextId v1" ?plan] by (metis image_eqI list.set_map)
        then have "nextId v \<le> al_id a" using stockOnly_sel(1) [OF v1(2)] by simp
        then show ?thesis using leg(2) shipNodes_shipFrom [OF row(5) [OF c(1)]] c(2) by (simp add: madeFor_def)
      qed
      have "allocFor ?rs line = sum_list (map al_quantity ?rs)"
        using for_ unfolding allocFor_def sumWhere_def by (simp add: madeFor_def filter_id_conv)
      then have total: "allocFor ?rs line = planned ?plan" by (simp add: rowsFrom_rows(2) planned_def)
      have locs: "set (map pl_locationId ?plan) = al_locationId ` set ?rs"
        using rowsFrom_rows(3) [of t ord line "nextId v1" ?plan] by (metis list.set_map)
      show ?thesis
        by (intro exI [of _ ?rs] exI [of _ "map pl_locationId ?plan"])
          (use added for_ total locs spec(3) False in \<open>auto simp: shortOf_def\<close>)
    qed
    have thr: "throwIf (planned ?plan < ol_quantity line \<and> \<not> o_allowBackorder ord) e = ret ()" for e
      using False by (auto simp: throwIf_def)
    show ?thesis
      unfolding sourceLine_def Let_def wp_bind wp_gets wp_andThen thr wp_ret wp_createAllocations
      by (rule wp_mono [OF wp_allocateLegs [OF inv(1) fit]]) (use done_ in auto)
  qed
qed

text \<open>All the lines: each is filled, or short with a backorder.\<close>

definition linesFilled :: "ident \<Rightarrow> order \<Rightarrow> orderLine list \<Rightarrow> allocation list \<Rightarrow> world \<Rightarrow> bool" where
  "linesFilled t ord ls as w \<longleftrightarrow> (\<forall>a \<in> set as. \<exists>l \<in> set ls. madeFor t ord l w a) \<and>
    (\<forall>l \<in> set ls. allocFor as l \<le> ol_quantity l \<and> (allocFor as l = ol_quantity l \<or> o_allowBackorder ord))"

lemma allocFor_append: "allocFor (as @ bs) l = allocFor as l + allocFor bs l"
  by (simp add: allocFor_def)

lemma allocFor_none:
  assumes "\<forall>a \<in> set as. \<exists>l \<in> set ls. madeFor t ord l w a" "ol_id l \<notin> ol_id ` set ls"
  shows "allocFor as l = 0"
  unfolding allocFor_def
  by (rule sumWhere_none) (use assms in \<open>force simp: madeFor_def image_iff\<close>)

lemma madeFor_start: "madeFor t ord l v a \<Longrightarrow> booksKept w v \<Longrightarrow> madeFor t ord l w a"
  by (auto simp: madeFor_def shipFrom_def findLocation_def booksKept_def)

lemma linesFilled_step:
  assumes prev: "linesFilled t ord ds as w" and fresh: "ol_id l \<notin> ol_id ` set ds"
    and new: "\<forall>a \<in> set bs. madeFor t ord l w a" "allocFor bs l \<le> ol_quantity l" "allocFor bs l = ol_quantity l \<or> o_allowBackorder ord"
  shows "linesFilled t ord (ds @ [l]) (as @ bs) w"
    and "concat (map (shortOf (as @ bs)) (ds @ [l])) = concat (map (shortOf as) ds) @ shortOf bs l"
proof -
  have other: "allocFor bs l' = 0" if "l' \<in> set ds" for l'
    using allocFor_none [of bs "[l]" t ord w l'] new(1) fresh that by (auto simp: image_iff)
  have old: "allocFor as l = 0" by (rule allocFor_none [where t = t and ord = ord and w = w, OF _ fresh]) (use prev in \<open>simp add: linesFilled_def\<close>)
  show "linesFilled t ord (ds @ [l]) (as @ bs) w"
    using prev new other old by (auto simp: linesFilled_def allocFor_append)
  have "map (shortOf (as @ bs)) ds = map (shortOf as) ds" using other by (simp add: shortOf_def allocFor_append)
  moreover have "shortOf (as @ bs) l = shortOf bs l" using old by (simp add: shortOf_def allocFor_append)
  ultimately show "concat (map (shortOf (as @ bs)) (ds @ [l])) = concat (map (shortOf as) ds) @ shortOf bs l"
    by (simp only: map_append concat_append list.map concat.simps append_Nil2)
qed

text \<open>A line that what is left after the lines before it cannot fill.\<close>

definition someLineShort :: "ident \<Rightarrow> order \<Rightarrow> orderLine list \<Rightarrow> world \<Rightarrow> bool" where
  "someLineShort t ord ls w \<longleftrightarrow> (\<exists>ds l rest as v. ls = ds @ l # rest \<and> allocsAdded as w v \<and> linesFilled t ord ds as w \<and>
    sourceable (candidatesForLine ord (ol_skuId l) v) < ol_quantity l)"

lemma wp_sourceLines:
  assumes inv: "stockInv w" "commitInv w" and t: "t = o_tenantId ord"
    and lines: "distinct (map ol_id ls)" "\<forall>l \<in> set ls. 0 < ol_quantity l"
  shows "wp (collect ls (sourceLine st t ord))
    (\<lambda>out v. \<exists>as. allocsAdded as w v \<and> linesFilled t ord ls as w \<and>
      concat (map snd out) = concat (map (shortOf as) ls) \<and> set (concat (map fst out)) = al_locationId ` set as)
    (\<lambda>e _. e = BadRequest ''Cannot source'' \<and> \<not> o_allowBackorder ord \<and> someLineShort t ord ls w) w"
proof -
  let ?I = "\<lambda>rest acc v. \<exists>ds as. ls = ds @ rest \<and> allocsAdded as w v \<and> linesFilled t ord ds as w \<and>
    concat (map snd acc) = concat (map (shortOf as) ds) \<and> set (concat (map fst acc)) = al_locationId ` set as"
  have "wp (collect ls (sourceLine st t ord)) (?I [])
    (\<lambda>e _. e = BadRequest ''Cannot source'' \<and> \<not> o_allowBackorder ord \<and> someLineShort t ord ls w) w"
  proof (rule wp_collect_rest)
    show "?I ls [] w" using allocsAdded_refl [OF inv] by (intro exI [of _ "[]"]) (simp add: linesFilled_def)
  next
    fix l rest acc v assume "?I (l # rest) acc v"
    then obtain ds as where d: "ls = ds @ l # rest" "allocsAdded as w v" "linesFilled t ord ds as w"
      "concat (map snd acc) = concat (map (shortOf as) ds)" "set (concat (map fst acc)) = al_locationId ` set as" by blast
    have iv: "stockInv v" "commitInv v" "booksKept w v" using d(2) by (simp_all add: allocsAdded_def)
    have q: "0 < ol_quantity l" using lines(2) d(1) by simp
    have fresh: "ol_id l \<notin> ol_id ` set ds" using lines(1) d(1) by auto
    show "wp (sourceLine st t ord l) (\<lambda>ys. ?I rest (acc @ ys))
      (\<lambda>e _. e = BadRequest ''Cannot source'' \<and> \<not> o_allowBackorder ord \<and> someLineShort t ord ls w) v"
    proof (rule wp_mono [OF wp_sourceLine [OF iv(1,2) q t]], goal_cases)
      case (1 out v')
      then obtain bs locs where b: "allocsAdded bs v v'" "\<forall>a \<in> set bs. madeFor t ord l v a"
        "allocFor bs l = min (ol_quantity l) (sourceable (candidatesForLine ord (ol_skuId l) v))"
        "allocFor bs l = ol_quantity l \<or> o_allowBackorder ord" "out = [(locs, shortOf bs l)]" "set locs = al_locationId ` set bs" by blast
      have "\<forall>a \<in> set bs. madeFor t ord l w a" using b(2) madeFor_start iv(3) by blast
      moreover have "allocFor bs l \<le> ol_quantity l" using b(3) by simp
      ultimately have "linesFilled t ord (ds @ [l]) (as @ bs) w"
        "concat (map (shortOf (as @ bs)) (ds @ [l])) = concat (map (shortOf as) ds) @ shortOf bs l"
        using linesFilled_step [OF d(3) fresh _ _ b(4)] by blast+
      then show ?case
        using d b(5,6) allocsAdded_trans [OF d(2) b(1)]
        by (intro exI [of _ "ds @ [l]"] exI [of _ "as @ bs"]) auto
    next
      case (2 e v')
      then show ?case using d(1-3) unfolding someLineShort_def by blast
    qed
  qed
  then show ?thesis by (rule wp_mono) auto
qed

text \<open>One shipment per node.  \<open>assigned\<close> attaches the loose allocations of an order.\<close>

definition assigned :: "ident \<Rightarrow> (ident \<times> ident) list \<Rightarrow> allocation \<Rightarrow> allocation" where
  "assigned i ps a = (if al_orderId a = i \<and> al_shipmentId a = None
     then a\<lparr>al_shipmentId := map_of ps (al_locationId a)\<rparr> else a)"

lemma assigned_sel [simp]:
  "al_id (assigned i ps a) = al_id a" "al_tenantId (assigned i ps a) = al_tenantId a"
  "al_orderId (assigned i ps a) = al_orderId a" "al_orderLineId (assigned i ps a) = al_orderLineId a"
  "al_skuId (assigned i ps a) = al_skuId a" "al_locationId (assigned i ps a) = al_locationId a"
  "al_quantity (assigned i ps a) = al_quantity a" "al_status (assigned i ps a) = al_status a"
  "al_key (assigned i ps a) = al_key a" "openAllocation (assigned i ps a) = openAllocation a"
  by (simp_all add: assigned_def al_key_def openAllocation_def)

lemma assigned_one:
  "mapWhere (\<lambda>a. al_orderId a = i \<and> al_locationId a = l \<and> al_shipmentId a = None) (al_shipmentId_update (\<lambda>_. Some n)) as =
    map (assigned i [(l, n)]) as"
  by (auto simp: mapWhere_def assigned_def)

lemma assigned_cons: "map (assigned i ps) (map (assigned i [(l, n)]) as) = map (assigned i ((l, n) # ps)) as"
  by (auto simp: assigned_def)

lemma assigned_none [simp]: "assigned i [] a = a"
  by (simp add: assigned_def)

definition shipmentsMade :: "ident \<Rightarrow> order \<Rightarrow> (ident \<times> ident) list \<Rightarrow> shipment list \<Rightarrow> bool" where
  "shipmentsMade t ord ps shs \<longleftrightarrow> map (\<lambda>s. (sh_locationId s, sh_id s)) shs = ps \<and>
    (\<forall>s \<in> set shs. sh_tenantId s = t \<and> sh_orderId s = o_id ord \<and> sh_status s = ShipmentStatus.PENDING)"

lemma wp_shipmentFor:
  assumes "findLocation l v = Some lo"
  shows "wp (shipmentFor t ord l) Q E v =
    Q [\<lparr>src_shipmentId = nextId v, src_locationId = l, src_fulfillmentType = fulfillmentTypeFor (lo_type lo),
        src_lines = map (\<lambda>a. (al_skuId a, al_quantity a))
          (filter (\<lambda>a. al_shipmentId a = Some (nextId v)) (map (assigned (o_id ord) [(l, nextId v)]) (allocations v)))\<rparr>]
      (v\<lparr>nextId := Suc (nextId v), shipments := shipments v @ [newShipment t ord lo (nextId v) (clock v)],
        allocations := map (assigned (o_id ord) [(l, nextId v)]) (allocations v)\<rparr>)"
  by (simp add: shipmentFor_def wp assms newShipment_def assigned_one [unfolded mapWhere_def] mapWhere_def)

lemma assigned_lines:
  assumes "n \<notin> snd ` set ps"
  shows "map (\<lambda>a. (al_skuId a, al_quantity a)) (filter (\<lambda>a. al_shipmentId a = Some n) (map (assigned i ps) as)) =
    map (\<lambda>a. (al_skuId a, al_quantity a)) (filter (\<lambda>a. al_shipmentId a = Some n) as)"
proof (induction as)
  case (Cons a as)
  have "map_of ps x \<noteq> Some n" for x using assms by (auto dest!: map_of_SomeD simp: image_iff)
  then have "al_shipmentId (assigned i ps a) = Some n \<longleftrightarrow> al_shipmentId a = Some n" by (auto simp: assigned_def)
  then show ?case using Cons by simp
qed simp

definition shipmentLines :: "world \<Rightarrow> sourcedShipment \<Rightarrow> bool" where
  "shipmentLines w s \<longleftrightarrow> src_lines s =
    map (\<lambda>a. (al_skuId a, al_quantity a)) (filter (\<lambda>a. al_shipmentId a = Some (src_shipmentId s)) (allocations w))"

definition splitAt :: "ident \<Rightarrow> order \<Rightarrow> (ident \<times> ident) list \<Rightarrow> sourcedShipment list \<Rightarrow> world \<Rightarrow> world \<Rightarrow> bool" where
  "splitAt t ord ps res v v' \<longleftrightarrow> (\<exists>shs. shipmentsMade t ord ps shs \<and>
    v' = v\<lparr>nextId := nextId v + length ps, shipments := shipments v @ shs,
      allocations := map (assigned (o_id ord) ps) (allocations v)\<rparr> \<and>
    map (\<lambda>s. (src_locationId s, src_shipmentId s)) res = ps \<and> (\<forall>s \<in> set res. shipmentLines v' s))"

lemma wp_shipments:
  assumes "\<forall>l \<in> set locs. shipFrom v l"
  shows "wp (collect locs (shipmentFor t ord))
    (\<lambda>res v'. splitAt t ord (zip locs [nextId v..<nextId v + length locs]) res v v') (\<lambda>_ _. False) v"
  using assms
proof (induction locs arbitrary: v)
  case Nil
  have "v = v\<lparr>allocations := map (assigned (o_id ord) []) (allocations v)\<rparr>"
    by (intro world.equality) (simp_all add: map_idI)
  then show ?case by (simp add: wp splitAt_def shipmentsMade_def)
next
  case (Cons l locs)
  obtain lo where lo: "findLocation l v = Some lo" using Cons.prems by (auto simp: shipFrom_def split: option.splits)
  let ?n = "nextId v" and ?as = "map (assigned (o_id ord) [(l, nextId v)]) (allocations v)"
  let ?ps = "zip locs [Suc (nextId v)..<Suc (nextId v) + length locs]"
  let ?sh = "newShipment t ord lo (nextId v) (clock v)"
  let ?v1 = "v\<lparr>nextId := Suc ?n, shipments := shipments v @ [?sh], allocations := ?as\<rparr>"
  let ?s = "\<lparr>src_shipmentId = ?n, src_locationId = l, src_fulfillmentType = fulfillmentTypeFor (lo_type lo),
        src_lines = map (\<lambda>a. (al_skuId a, al_quantity a)) (filter (\<lambda>a. al_shipmentId a = Some ?n) ?as)\<rparr>"
  have ps: "zip (l # locs) [?n..<?n + length (l # locs)] = (l, ?n) # ?ps" by (subst upt_conv_Cons) simp_all
  have fresh: "?n \<notin> snd ` set ?ps" by (auto dest: set_zip_rightD)
  have loc: "lo_id lo = l" using find_SomeD [OF lo [unfolded findLocation_def]] by simp
  have step: "splitAt t ord ((l, ?n) # ?ps) (?s # res) v v'" if r: "splitAt t ord ?ps res ?v1 v'" for res v'
  proof -
    obtain shs where s: "shipmentsMade t ord ?ps shs" "map (\<lambda>s. (src_locationId s, src_shipmentId s)) res = ?ps"
      "\<forall>s \<in> set res. shipmentLines v' s"
      and v': "v' = ?v1\<lparr>nextId := nextId ?v1 + length ?ps, shipments := shipments ?v1 @ shs,
        allocations := map (assigned (o_id ord) ?ps) ?as\<rparr>"
      using r by (auto simp: splitAt_def)
    have "shipmentsMade t ord ((l, ?n) # ?ps) (?sh # shs)"
      using s(1) by (simp add: shipmentsMade_def newShipment_def loc)
    moreover have "v' = v\<lparr>nextId := ?n + length ((l, ?n) # ?ps), shipments := shipments v @ (?sh # shs),
        allocations := map (assigned (o_id ord) ((l, ?n) # ?ps)) (allocations v)\<rparr>"
      unfolding v' assigned_cons by (intro world.equality) simp_all
    moreover have "shipmentLines v' ?s"
      using assigned_lines [OF fresh, of "o_id ord" ?as] by (simp add: shipmentLines_def v')
    ultimately show ?thesis using s(2,3) unfolding splitAt_def by (intro exI [of _ "?sh # shs"]) simp
  qed
  have "wp (collect locs (shipmentFor t ord)) (\<lambda>res v'. splitAt t ord ?ps res ?v1 v') (\<lambda>_ _. False) ?v1"
    using Cons.IH [of ?v1] Cons.prems by (simp add: shipFrom_def findLocation_def)
  then show ?case
    unfolding collect.simps wp_bind wp_shipmentFor [OF lo] ps wp_ret
    by (rule wp_mono) (use step in auto)
qed

section \<open>The commit\<close>

lemma orderInv_assigned:
  assumes inv: "orderInv w" and frame: "orders w' = orders w" "orderLines w' = orderLines w" "orderEvents w' = orderEvents w"
      "nextId w \<le> nextId w'"
    and al: "allocations w' = map (assigned i ps) (allocations w @ as)"
    and own: "\<forall>a \<in> set as. (al_orderId a, al_tenantId a) \<in> (\<lambda>ord. (o_id ord, o_tenantId ord)) ` set (orders w)"
  shows "orderInv w'"
proof -
  let ?u = "w\<lparr>allocations := allocations w @ as\<rparr>"
  have "orderInv ?u" using inv own by (auto simp: orderInv_def orderRows_def history_def)
  then show ?thesis
    by (rule orderInv_cong) (use frame al in simp_all)
qed

lemma commitInv_assigned:
  assumes inv: "commitInv v" and frame: "snapshots w' = snapshots v" "reservations w' = reservations v" "nextId v \<le> nextId w'"
    and al: "allocations w' = map (assigned i ps) (allocations v)"
  shows "commitInv w'"
proof -
  have "sumWhere (\<lambda>a. al_key a = k \<and> openAllocation a) al_quantity (map (assigned i ps) as) =
      sumWhere (\<lambda>a. al_key a = k \<and> openAllocation a) al_quantity as" for k as
    by (induction as) simp_all
  then have "committed w' = committed v" by (simp add: committed_def al fun_eq_iff)
  moreover have "held w' = held v" by (rule held_cong) (rule frame(2))
  moreover have "map al_id (allocations w') = map al_id (allocations v)" by (simp add: al comp_def)
  then have "commitRows w'"
    using commitInvD(2) [OF inv] frame by (auto simp: commitRows_def al comp_def intro: less_le_trans)
  ultimately show ?thesis
    using inv view_cong(2) [OF frame(1)] view_cong(4) [OF frame(1)] frame(3) by (auto simp: commitInv_def)
qed

text \<open>What sourcing an order leaves.\<close>

definition orderSourced ::
  "ident \<Rightarrow> order \<Rightarrow> orderLine list \<Rightarrow> sourcedShipment list \<Rightarrow> (ident \<times> int) list \<Rightarrow> world \<Rightarrow> world \<Rightarrow> bool" where
  "orderSourced t ord ls sout backs w w' \<longleftrightarrow> coreInv w' \<and>
    findTenantOrder t (o_id ord) w' = Some (ord\<lparr>o_status := OrderStatus.ALLOCATED\<rparr>) \<and>
    reservations w' = giveBackAll (orderHolds (o_id ord) w) CONSUMED (reservations w) \<and>
    (\<exists>as ps shs. linesFilled t ord ls as w \<and> backs = concat (map (shortOf as) ls) \<and>
      distinct (map fst ps) \<and> fst ` set ps = al_locationId ` set as \<and>
      allocations w' = map (assigned (o_id ord) ps) (allocations w @ as) \<and>
      shipments w' = shipments w @ shs \<and> shipmentsMade t ord ps shs \<and>
      map (\<lambda>s. (src_locationId s, src_shipmentId s)) sout = ps \<and> (\<forall>s \<in> set sout. shipmentLines w' s))"

text \<open>The transaction reads nothing of the order's row: it acts on the order as it was read before.\<close>

definition rowAllocated :: "order \<Rightarrow> string option \<Rightarrow> world \<Rightarrow> world" where
  "rowAllocated ord msg v = v\<lparr>orders := mapWhere (\<lambda>x. o_id x = o_id ord) (o_status_update (\<lambda>_. OrderStatus.ALLOCATED)) (orders v),
     orderEvents := orderEvents v @ [\<lparr>oe_orderId = o_id ord, oe_fromStatus = Some OrderStatus.VALIDATED,
       oe_toStatus = OrderStatus.ALLOCATED, oe_note = msg, oe_createdAt = clock v\<rparr>]\<rparr>"

definition sourcedStock ::
  "ident \<Rightarrow> order \<Rightarrow> orderLine list \<Rightarrow> sourcedShipment list \<Rightarrow> (ident \<times> int) list \<Rightarrow> world \<Rightarrow> world \<Rightarrow> bool" where
  "sourcedStock t ord ls sout backs w v \<longleftrightarrow> (\<exists>as locs v1 v2.
    holdsReleased (orderHolds (o_id ord) w) CONSUMED w v1 \<and> allocsAdded as v1 v2 \<and> linesFilled t ord ls as v1 \<and>
    backs = concat (map (shortOf as) ls) \<and> set locs = al_locationId ` set as \<and> distinct locs \<and>
    splitAt t ord (zip locs [nextId v2..<nextId v2 + length locs]) sout v2 v)"

definition cannotFill :: "ident \<Rightarrow> order \<Rightarrow> orderLine list \<Rightarrow> world \<Rightarrow> bool" where
  "cannotFill t ord ls w \<longleftrightarrow> (\<exists>v. holdsReleased (orderHolds (o_id ord) w) CONSUMED w v \<and> someLineShort t ord ls v)"

lemma wp_sourceTx_stock:
  assumes inv: "stockInv w" "commitInv w" and row: "o_id ord \<in> o_id ` set (orders w)" and t: "t = o_tenantId ord"
    and own: "holdsOwned t (o_id ord) w" and lines: "distinct (map ol_id ls)" "\<forall>l \<in> set ls. 0 < ol_quantity l"
  shows "wp (sourceTx st t ord ls)
    (\<lambda>(sout, backs) w'. \<exists>v. sourcedStock t ord ls sout backs w v \<and> w' = rowAllocated ord (Some (sourcedNote st backs)) v)
    (\<lambda>e _. e = BadRequest ''Cannot source'' \<and> \<not> o_allowBackorder ord \<and> cannotFill t ord ls w) w"
proof -
  have upd: "wp (updateRow orders orders_update (\<lambda>x. o_id x = o_id ord) (o_status_update (\<lambda>_. OrderStatus.ALLOCATED)))
      (\<lambda>_. wp (recordEvent (o_id ord) (Some OrderStatus.VALIDATED) OrderStatus.ALLOCATED n) Q E) E v =
      Q () (rowAllocated ord n v)" if "orders v = orders w" for v Q E n
  proof -
    have "find (\<lambda>x. o_id x = o_id ord) (orders v) \<noteq> None" using row that by (auto simp: find_None_iff)
    then show ?thesis by (auto simp: wp rowAllocated_def)
  qed
  show ?thesis
    unfolding sourceTx_def wp_andThen
  proof (rule wp_mono [OF wp_releaseOwn [OF inv own [unfolded t]]], goal_cases)
    case (1 x v1)
    then have r: "holdsReleased (orderHolds (o_id ord) w) CONSUMED w v1" by simp
    then have iv: "stockInv v1" "commitInv v1" by (simp_all add: holdsReleased_def)
    show ?case
      unfolding wp_bind
    proof (rule wp_mono [OF wp_sourceLines [OF iv t lines]], goal_cases)
      case (1 out v2)
      then obtain as where a: "allocsAdded as v1 v2" "linesFilled t ord ls as v1"
        "concat (map snd out) = concat (map (shortOf as) ls)" "set (concat (map fst out)) = al_locationId ` set as" by blast
      let ?locs = "uniq (concat (map fst out))"
      have from_: "\<forall>l \<in> set ?locs. shipFrom v2 l"
        using a(1,2,4) by (fastforce simp: linesFilled_def madeFor_def allocsAdded_def booksKept_def shipFrom_def findLocation_def)
      have ord2: "orders v2 = orders w"
        using a(1) r by (simp add: allocsAdded_def booksKept_def holdsReleased_def stockSide_def)
      show ?case
        unfolding Let_def wp_bind
      proof (rule wp_mono [OF wp_shipments [OF from_]], goal_cases)
        case (1 sout v3)
        then have o3: "orders v3 = orders w" using ord2 by (auto simp: splitAt_def)
        have "sourcedStock t ord ls sout (concat (map snd out)) w v3"
          unfolding sourcedStock_def
          by (rule exI [of _ as], rule exI [of _ ?locs], rule exI [of _ v1], rule exI [of _ v2]) (use r a 1(2) in simp)
        then show ?case unfolding wp_andThen upd [OF o3] wp_ret prod.case by blast
      qed simp
    next
      case (2 e v)
      then show ?case using r unfolding cannotFill_def by blast
    qed
  qed simp
qed

lemma sourcedStockE:
  assumes s: "sourcedStock t ord ls sout backs w v"
  obtains as ps shs where "stockInv v" "commitInv v" "linesFilled t ord ls as w" "backs = concat (map (shortOf as) ls)"
    "distinct (map fst ps)" "fst ` set ps = al_locationId ` set as"
    "allocations v = map (assigned (o_id ord) ps) (allocations w @ as)" "shipments v = shipments w @ shs"
    "shipmentsMade t ord ps shs" "map (\<lambda>s. (src_locationId s, src_shipmentId s)) sout = ps" "\<forall>s \<in> set sout. shipmentLines v s"
    "orders v = orders w" "orderLines v = orderLines w" "orderEvents v = orderEvents w" "nextId w \<le> nextId v"
    "reservations v = giveBackAll (orderHolds (o_id ord) w) CONSUMED (reservations w)" "clock v = clock w"
proof -
  obtain as locs v1 v2 where r: "holdsReleased (orderHolds (o_id ord) w) CONSUMED w v1"
    and a: "allocsAdded as v1 v2" "linesFilled t ord ls as v1" "backs = concat (map (shortOf as) ls)"
    and locs: "set locs = al_locationId ` set as" "distinct locs"
    and sp: "splitAt t ord (zip locs [nextId v2..<nextId v2 + length locs]) sout v2 v"
    using s unfolding sourcedStock_def by blast
  let ?ps = "zip locs [nextId v2..<nextId v2 + length locs]"
  obtain shs where s: "shipmentsMade t ord ?ps shs" "map (\<lambda>s. (src_locationId s, src_shipmentId s)) sout = ?ps"
    "\<forall>s \<in> set sout. shipmentLines v s"
    and v: "v = v2\<lparr>nextId := nextId v2 + length ?ps, shipments := shipments v2 @ shs,
      allocations := map (assigned (o_id ord) ?ps) (allocations v2)\<rparr>"
    using sp unfolding splitAt_def by blast
  have bk: "booksKept v1 v2" "booksKept w v1" "allocations v1 = allocations w"
    using a(1) r stockSide_booksKept by (auto simp: allocsAdded_def holdsReleased_def stockSide_def)
  have "map fst ?ps = locs" by (rule map_fst_zip) simp
  then have fst: "distinct (map fst ?ps)" "fst ` set ?ps = al_locationId ` set as" using locs by (simp_all flip: set_map)
  have "commitInv v" by (rule commitInv_assigned [of v2 _ "o_id ord" ?ps]) (use a(1) in \<open>simp_all add: v allocsAdded_def\<close>)
  moreover have "stockInv v" using a(1) by (simp add: v allocsAdded_def stockInv_nextId)
  moreover have "linesFilled t ord ls as w" using a(2) madeFor_start [OF _ bk(2)] by (fastforce simp: linesFilled_def)
  moreover have "allocations v = map (assigned (o_id ord) ?ps) (allocations w @ as)"
    using a(1) bk(3) by (simp add: v allocsAdded_def)
  moreover have "orders v = orders w" "orderLines v = orderLines w" "orderEvents v = orderEvents w" "nextId w \<le> nextId v"
    "shipments v = shipments w @ shs" "clock v = clock w"
    using bk(1,2) by (simp_all add: v booksKept_def)
  moreover have "reservations v = giveBackAll (orderHolds (o_id ord) w) CONSUMED (reservations w)"
    using r a(1) by (simp add: v allocsAdded_def holdsReleased_def)
  ultimately show thesis using that a(3) fst s by blast
qed

lemma wp_sourceTx:
  assumes w: "coreInv w" and ord: "findTenantOrder t i w = Some ord" "o_status ord = OrderStatus.VALIDATED"
    and own: "holdsOwned t i w" and ls: "ls = linesOf i w"
  shows "wp (sourceTx st t ord ls) (\<lambda>(sout, backs) w'. orderSourced t ord ls sout backs w w')
    (\<lambda>e _. e = BadRequest ''Cannot source'' \<and> \<not> o_allowBackorder ord \<and> cannotFill t ord ls w) w"
proof -
  note o = findTenantOrderD [OF ord(1)]
  have t: "t = o_tenantId ord" and i: "i = o_id ord" using o by simp_all
  have lines: "distinct (map ol_id ls)" "\<forall>l \<in> set ls. 0 < ol_quantity l"
    unfolding ls using linesOf_ok [OF coreInvD(3) [OF w], of i] by blast+
  have finish: "orderSourced t ord ls sout backs w (rowAllocated ord msg v)" if s: "sourcedStock t ord ls sout backs w v" for sout backs v msg
    using s
  proof (rule sourcedStockE, goal_cases)
    case (1 as ps shs)
    note same = 1(12-15)
    have row: "rowAllocated ord msg v = moveOrder ord OrderStatus.ALLOCATED msg v"
      by (simp add: rowAllocated_def moveOrder_def ord(2))
    have mine: "(o_id ord, o_tenantId ord) \<in> (\<lambda>ord. (o_id ord, o_tenantId ord)) ` set (orders w)" using o(1) by blast
    have "\<forall>a \<in> set as. (al_orderId a, al_tenantId a) \<in> (\<lambda>ord. (o_id ord, o_tenantId ord)) ` set (orders w)"
    proof
      fix x assume "x \<in> set as"
      then have "al_orderId x = o_id ord" "al_tenantId x = o_tenantId ord"
        using 1(3) t by (auto simp: linesFilled_def madeFor_def)
      then show "(al_orderId x, al_tenantId x) \<in> (\<lambda>ord. (o_id ord, o_tenantId ord)) ` set (orders w)" using mine by simp
    qed
    then have "orderInv v" by (rule orderInv_assigned [OF coreInvD(3) [OF w] same 1(7)])
    then have c: "coreInv v" using 1(1,2) by (simp add: coreInv_def)
    have legal: "canTransition (o_status ord) OrderStatus.ALLOCATED" by (simp add: ord(2) canTransition_def)
    have "coreInv (moveOrder ord OrderStatus.ALLOCATED msg v)"
      by (rule coreInv_moveOrder [OF c _ legal]) (simp add: same o(1))
    moreover have "findTenantOrder t (o_id ord) (moveOrder ord OrderStatus.ALLOCATED msg v) = Some (ord\<lparr>o_status := OrderStatus.ALLOCATED\<rparr>)"
    proof -
      have "findTenantOrder t (o_id ord) (moveOrder ord OrderStatus.ALLOCATED msg v) = findTenantOrder t (o_id ord)
          (w\<lparr>orders := mapWhere (\<lambda>x. o_id x = o_id ord) (o_status_update (\<lambda>_. OrderStatus.ALLOCATED)) (orders w)\<rparr>)"
        by (simp add: findTenantOrder_def same)
      then show ?thesis using ord(1) i by (simp add: findTenantOrder_update)
    qed
    moreover have "\<forall>s \<in> set sout. shipmentLines (moveOrder ord OrderStatus.ALLOCATED msg v) s"
      using 1(11) by (simp add: shipmentLines_def)
    ultimately show ?case
      unfolding orderSourced_def row using 1(3-10,16) by simp blast
  qed
  show ?thesis
    by (rule wp_mono [OF wp_sourceTx_stock [OF coreInvD(1,2) [OF w] _ t own [unfolded i] lines]])
      (use o(1) finish in auto)
qed

lemma orderSourced_invalidated:
  "orderSourced t ord ls sout backs w v \<Longrightarrow> orderSourced t ord ls sout backs w (invalidated t' s v)"
  by (simp add: orderSourced_def coreInv_invalidated findTenantOrder_def shipmentLines_def)

lemma wp_sourceCommit:
  assumes "coreInv w" "findTenantOrder t i w = Some ord" "o_status ord = OrderStatus.VALIDATED"
    and "holdsOwned t i w" "ls = linesOf i w"
  shows "wp (sourceCommit env st t ord ls)
    (\<lambda>res w'. orderSourced t ord ls (src_shipments res) (src_backordered res) w w' \<and> src_orderId res = i \<and>
      src_status res = OrderStatus.ALLOCATED \<and> src_fullyAllocated res = (src_backordered res = []))
    (\<lambda>e w'. w' = w \<and> e = BadRequest ''Cannot source'' \<and> \<not> o_allowBackorder ord \<and> cannotFill t ord ls w) w"
proof -
  have tx: "wp (transaction (sourceTx st t ord ls)) (\<lambda>out w'. orderSourced t ord ls (fst out) (snd out) w w')
    (\<lambda>e w'. w' = w \<and> e = BadRequest ''Cannot source'' \<and> \<not> o_allowBackorder ord \<and> cannotFill t ord ls w) w"
    unfolding wp_transaction by (rule wp_mono [OF wp_sourceTx [OF assms]]) auto
  have retried: "wp (retryOnConflict defaultAttempts env (transaction (sourceTx st t ord ls)))
    (\<lambda>out w'. orderSourced t ord ls (fst out) (snd out) w w')
    (\<lambda>e w'. w' = w \<and> e = BadRequest ''Cannot source'' \<and> \<not> o_allowBackorder ord \<and> cannotFill t ord ls w) w"
    by (rule wp_retry_once [OF tx]) (auto simp: defaultAttempts_def)
  have tail: "wp (forEach ss (invalidate t)) (\<lambda>_. orderSourced t ord ls sout backs w) (\<lambda>_ _. False) v"
    if "orderSourced t ord ls sout backs w v" for ss sout backs v
    using that by (rule wp_forEach) (simp add: wp orderSourced_invalidated)
  have "o_id ord = i" using findTenantOrderD(2) [OF assms(2)] .
  then show ?thesis
    unfolding sourceCommit_def wp_bind wp_andThen wp_ret
    by (intro wp_mono [OF retried]) (auto intro!: wp_mono [OF tail])
qed

lemma wp_source_order:
  assumes "coreInv w" "holdsOwned t i w"
  shows "wp (source_order env t i)
    (\<lambda>res w'. \<exists>ord. findTenantOrder t i w = Some ord \<and> o_status ord = OrderStatus.VALIDATED \<and>
      orderSourced t ord (linesOf i w) (src_shipments res) (src_backordered res) w w' \<and> src_orderId res = i \<and>
      src_status res = OrderStatus.ALLOCATED \<and> src_fullyAllocated res = (src_backordered res = []))
    (\<lambda>e w'. w' = w \<and>
      (findTenantOrder t i w = None \<and> e = BadRequest ''Order not found'' \<or>
       (\<exists>ord. findTenantOrder t i w = Some ord \<and>
         (o_status ord \<noteq> OrderStatus.VALIDATED \<and> e = BadRequest ''Order must be VALIDATED to source'' \<or>
          o_status ord = OrderStatus.VALIDATED \<and> e = BadRequest ''Cannot source'' \<and> \<not> o_allowBackorder ord \<and> cannotFill t ord (linesOf i w) w)))) w"
proof (cases "findTenantOrder t i w")
  case None
  then show ?thesis by (simp add: source_order_def wp)
next
  case (Some ord)
  show ?thesis
  proof (cases "o_status ord = OrderStatus.VALIDATED")
    case False
    then show ?thesis by (simp add: source_order_def wp Some)
  next
    case True
    have "wp (sourceCommit env (resolveStrategy ord w) t ord (linesOf i w))
      (\<lambda>res w'. \<exists>ord. findTenantOrder t i w = Some ord \<and> o_status ord = OrderStatus.VALIDATED \<and>
        orderSourced t ord (linesOf i w) (src_shipments res) (src_backordered res) w w' \<and> src_orderId res = i \<and>
        src_status res = OrderStatus.ALLOCATED \<and> src_fullyAllocated res = (src_backordered res = []))
      (\<lambda>e w'. w' = w \<and>
        (findTenantOrder t i w = None \<and> e = BadRequest ''Order not found'' \<or>
         (\<exists>ord. findTenantOrder t i w = Some ord \<and>
           (o_status ord \<noteq> OrderStatus.VALIDATED \<and> e = BadRequest ''Order must be VALIDATED to source'' \<or>
            o_status ord = OrderStatus.VALIDATED \<and> e = BadRequest ''Cannot source'' \<and> \<not> o_allowBackorder ord \<and> cannotFill t ord (linesOf i w) w)))) w"
      by (rule wp_mono [OF wp_sourceCommit [OF assms(1) Some True assms(2) refl]]) (use Some True in auto)
    then show ?thesis using True by (simp add: source_order_def wp_bind wp_gets wp_orThrow wp_andThen wp_throwIf Some)
  qed
qed

section \<open>Properties\<close>


text \<open>
  The plan of a line covers its quantity or, failing that, all the candidates have, with
  positive legs at distinct candidates and within what each has; and the nodes are used in the
  order of the strategy: no unused candidate comes before a used one, and every node but the last
  is used up.  (Under FEWEST_SPLITS a single node that can cover the line is used instead.)
\<close>

lemma source_plan_by_strategy:
  assumes "snapshotsOk w" "0 < n" "cs = candidatesForLine ord s w" "legs = sourcePlan st n cs"
  shows "planned legs = min n (sourceable cs) \<and> rivalPlan cs legs \<and> (\<forall>l \<in> set legs. 0 < pl_quantity l) \<and>
    (st \<noteq> FEWEST_SPLITS \<longrightarrow>
      (\<exists>used unused. jsSort (comparator st) cs = used @ unused \<and> map pl_locationId legs = map ca_locationId used \<and>
        (\<forall>u \<in> set used. \<forall>c \<in> set unused. comparator st u c \<le> 0) \<and>
        butlast (map pl_quantity legs) = map ca_available (butlast used)))"
proof -
  have pos: "\<forall>c \<in> set cs. 0 < ca_available c" unfolding assms(3) using candidate_row(2) [OF assms(1)] by blast
  have dist: "distinct (map ca_locationId cs)" unfolding assms(3) by (rule candidates_distinct [OF assms(1)])
  note spec = sourcePlan_spec [OF pos dist assms(2), of st, folded assms(4)]
  let ?cs = "jsSort (comparator st) cs" and ?k = "length legs"
  have "\<exists>used unused. ?cs = used @ unused \<and> map pl_locationId legs = map ca_locationId used \<and>
        (\<forall>u \<in> set used. \<forall>c \<in> set unused. comparator st u c \<le> 0) \<and>
        butlast (map pl_quantity legs) = map ca_available (butlast used)" if st: "st \<noteq> FEWEST_SPLITS"
  proof -
    have legs: "legs = greedyPlan n (map asPlanCandidate ?cs)"
      using sourcePlan_cases [of cs st n] st unfolding assms(4) by (metis greedyPlan.simps(1) jsSort.simps(1) list.map(1))
    have p: "\<forall>c \<in> set (map asPlanCandidate ?cs). 0 < cd_available c" using pos by simp
    have "sorted_wrt (\<lambda>a b. comparator st a b \<le> 0) (take ?k ?cs @ drop ?k ?cs)"
      using comparator.sorted_jsSort [of st cs] by simp
    then have "\<forall>u \<in> set (take ?k ?cs). \<forall>c \<in> set (drop ?k ?cs). comparator st u c \<le> 0"
      unfolding sorted_wrt_append by blast
    moreover have "map pl_locationId legs = map ca_locationId (take ?k ?cs)"
      using greedyPlan_take(1) [OF p, of n] unfolding legs [symmetric] by (simp add: take_map comp_def)
    moreover have "?k \<le> length ?cs" using calculation(2) by (metis length_map length_take min.absorb_iff2 min.commute)
    then have "butlast (take ?k ?cs) = take (?k - 1) ?cs" by (simp add: butlast_take)
    then have "butlast (map pl_quantity legs) = map ca_available (butlast (take ?k ?cs))"
      using greedyPlan_take(2) [OF p, of n] unfolding legs [symmetric] by (simp add: take_map comp_def)
    ultimately show ?thesis by (intro exI [of _ "take ?k ?cs"] exI [of _ "drop ?k ?cs"]) simp
  qed
  then show ?thesis using spec by (auto simp: rivalPlan_def)
qed

text \<open>
  Property C21.  Under FEWEST_SPLITS no other choice of nodes covers as much of a line with fewer of them:
  any legs at distinct candidates, within what each has, that cover at least what the plan covers
  are at least as many as the legs of the plan.
\<close>

theorem fewest_splits_minimal:
  assumes "snapshotsOk w" "0 < n" "cs = candidatesForLine ord s w" "rivalPlan cs ls"
    and "planned (sourcePlan FEWEST_SPLITS n cs) \<le> planned ls"
  shows "length (sourcePlan FEWEST_SPLITS n cs) \<le> length ls"
proof (rule fewest_splits)
  show "\<forall>c \<in> set cs. 0 < ca_available c" unfolding assms(3) using candidate_row(2) [OF assms(1)] by blast
  show "distinct (map ca_locationId cs)" unfolding assms(3) by (rule candidates_distinct [OF assms(1)])
qed (use assms in simp_all)

text \<open>Witnesses: the demo order, validated and open to backorders.\<close>

definition demoToSource :: world where
  "demoToSource = (moveOrder demoOrder OrderStatus.VALIDATED None demoBook)
     \<lparr>orders := [demoOrder\<lparr>o_status := OrderStatus.VALIDATED, o_allowBackorder := True\<rparr>]\<rparr>"

lemma demoToSource_core: "coreInv demoToSource"
proof -
  let ?v = "moveOrder demoOrder OrderStatus.VALIDATED None demoBook"
  have mem: "demoOrder \<in> set (orders demoBook)" using findTenantOrderD(1) [OF demoBook_found] .
  have "canTransition (o_status demoOrder) OrderStatus.VALIDATED" by (simp add: demoOrder_def canTransition_def)
  then have c: "coreInv ?v" by (rule coreInv_moveOrder [OF demoBook_core mem])
  have one: "orders demoBook = [demoOrder]" by (simp add: demoBook_def demoReserving_def)
  have "demoToSource = ?v\<lparr>orders := mapWhere (\<lambda>_. True) (o_allowBackorder_update (\<lambda>_. True)) (orders ?v)\<rparr>"
    unfolding demoToSource_def by (intro world.equality) (simp_all add: one mapWhere_def)
  with coreInv_update_orders [OF c, where f = "o_allowBackorder_update (\<lambda>_. True)" and p = "\<lambda>_. True"]
  show ?thesis by simp
qed

lemma demoToSource_sel:
  "findTenantOrder 7 5 demoToSource = Some (demoOrder\<lparr>o_status := OrderStatus.VALIDATED, o_allowBackorder := True\<rparr>)"
  "holdsOwned 7 5 demoToSource"
proof -
  show "findTenantOrder 7 5 demoToSource = Some (demoOrder\<lparr>o_status := OrderStatus.VALIDATED, o_allowBackorder := True\<rparr>)"
    by (simp add: findTenantOrder_def demoToSource_def demoOrder_def)
  have "reservations demoToSource = []" by (simp add: demoToSource_def demoBook_def demoReserving_sel)
  then show "holdsOwned 7 5 demoToSource" by (simp add: holdsOwned_def)
qed


lemma source_plan_by_strategy_witness:
  "planned (sourcePlan NEAREST 5 (candidatesForLine demoOrder 2 demoBook)) =
    min 5 (sourceable (candidatesForLine demoOrder 2 demoBook))"
  using source_plan_by_strategy [OF stockInvD(1) [OF coreInvD(1) [OF demoBook_core]] _ refl refl, where n = 5 and ord = demoOrder and s = 2 and st = NEAREST] by simp

lemma fewest_splits_minimal_witness:
  "length (sourcePlan FEWEST_SPLITS 5 (candidatesForLine demoOrder 2 demoBook)) \<le>
    length (sourcePlan PRIORITY 5 (candidatesForLine demoOrder 2 demoBook))"
proof -
  let ?cs = "candidatesForLine demoOrder 2 demoBook"
  have ok: "snapshotsOk demoBook" by (rule stockInvD(1) [OF coreInvD(1) [OF demoBook_core]])
  have pos: "\<forall>c \<in> set ?cs. 0 < ca_available c" using candidate_row(2) [OF ok] by blast
  note spec = sourcePlan_spec [OF pos candidates_distinct [OF ok], of 5]
  have "rivalPlan ?cs (sourcePlan PRIORITY 5 ?cs)" using spec(1,2) [of PRIORITY] by (auto simp: rivalPlan_def)
  moreover have "planned (sourcePlan FEWEST_SPLITS 5 ?cs) \<le> planned (sourcePlan PRIORITY 5 ?cs)" using spec(3) by simp
  ultimately show ?thesis using fewest_splits_minimal [OF ok _ refl, of 5] by simp
qed

lemma historyOk_last:
  assumes "historyOk es st" "historyOk (es @ [e]) to"
  shows "oe_fromStatus e = Some st"
proof -
  obtain p where p: "map oe_toStatus es = OrderStatus.CREATED # p" "last (OrderStatus.CREATED # p) = st"
    using assms(1) by (auto simp: historyOk_def)
  obtain q where q: "map oe_toStatus (es @ [e]) = OrderStatus.CREATED # q"
    "map oe_fromStatus (es @ [e]) = None # map Some (butlast (OrderStatus.CREATED # q))"
    using assms(2) by (auto simp: historyOk_def)
  have "OrderStatus.CREATED # q = (OrderStatus.CREATED # p) @ [oe_toStatus e]" using p(1) q(1) by simp
  then have "butlast (OrderStatus.CREATED # q) = OrderStatus.CREATED # p" by (metis butlast_snoc)
  then have "last (map oe_fromStatus (es @ [e])) = last (None # map Some (OrderStatus.CREATED # p))" using q(2) by metis
  then show ?thesis using p(2) by (simp add: last_map split: if_splits)
qed

text \<open>
  Property C22.  The commit trusts the status read before it: run on an order that was read VALIDATED but has since
  moved on (sourced by a concurrent request, shipped, cancelled), it does not fail for that; it
  allocates the full quantities of the lines once more on top of the allocations the order has,
  sets the status to ALLOCATED, and leaves an audit trail that is no path of the lifecycle.
\<close>

theorem stale_source_reallocates:
  assumes "coreInv w" "findTenantOrder t i w = Some cur" "holdsOwned t i w" "ls = linesOf i w"
    and "o_status cur \<notin> {OrderStatus.VALIDATED}" "ord = cur\<lparr>o_status := OrderStatus.VALIDATED\<rparr>"
  shows "case sourceCommit env st t ord ls w of
      (Inr res, w') \<Rightarrow> (\<exists>as ps. linesFilled t ord ls as w \<and> allocations w' = map (assigned i ps) (allocations w @ as)) \<and>
        findTenantOrder t i w' = Some (cur\<lparr>o_status := OrderStatus.ALLOCATED\<rparr>) \<and> \<not> historyOk (history w' i) OrderStatus.ALLOCATED
    | (Inl e, w') \<Rightarrow> w' = w \<and> e = BadRequest ''Cannot source'' \<and> \<not> o_allowBackorder cur \<and> cannotFill t ord ls w"
proof -
  note o = findTenantOrderD [OF assms(2)]
  have ids: "o_id ord = i" "o_tenantId ord = t" using o by (simp_all add: assms(6))
  have lines: "distinct (map ol_id ls)" "\<forall>l \<in> set ls. 0 < ol_quantity l"
    unfolding assms(4) using linesOf_ok [OF coreInvD(3) [OF assms(1)], of i] by blast+
  let ?R = "\<lambda>w'. (\<exists>as ps. linesFilled t ord ls as w \<and> allocations w' = map (assigned i ps) (allocations w @ as)) \<and>
        findTenantOrder t i w' = Some (cur\<lparr>o_status := OrderStatus.ALLOCATED\<rparr>) \<and> \<not> historyOk (history w' i) OrderStatus.ALLOCATED"
  let ?E = "\<lambda>e w'. w' = w \<and> e = BadRequest ''Cannot source'' \<and> \<not> o_allowBackorder cur \<and> cannotFill t ord ls w"
  have after: "?R (rowAllocated ord msg v)" if s: "sourcedStock t ord ls sout backs w v" for sout backs v msg
    using s
  proof (rule sourcedStockE, goal_cases)
    case (1 as ps shs)
    let ?w = "rowAllocated ord msg v"
    have found: "findTenantOrder t i ?w = Some (cur\<lparr>o_status := OrderStatus.ALLOCATED\<rparr>)"
    proof -
      have "findTenantOrder t i ?w = findTenantOrder t i
          (w\<lparr>orders := mapWhere (\<lambda>x. o_id x = i) (o_status_update (\<lambda>_. OrderStatus.ALLOCATED)) (orders w)\<rparr>)"
        by (simp add: findTenantOrder_def rowAllocated_def ids 1(12))
      then show ?thesis using assms(2) o(2) by (simp add: findTenantOrder_update)
    qed
    have "\<not> historyOk (history ?w i) OrderStatus.ALLOCATED"
    proof
      assume "historyOk (history ?w i) OrderStatus.ALLOCATED"
      moreover have "history ?w i = history w i @ [\<lparr>oe_orderId = i, oe_fromStatus = Some OrderStatus.VALIDATED,
          oe_toStatus = OrderStatus.ALLOCATED, oe_note = msg, oe_createdAt = clock v\<rparr>]"
        by (simp add: history_def rowAllocated_def ids 1(14))
      moreover have "historyOk (history w i) (o_status cur)"
        using coreInvD(3) [OF assms(1)] o(1,2) by (auto simp: orderInv_def)
      ultimately show False using historyOk_last [of "history w i" "o_status cur"] assms(5) by fastforce
    qed
    moreover have "allocations ?w = map (assigned i ps) (allocations w @ as)" using 1(7) by (simp add: rowAllocated_def ids)
    ultimately show ?case using 1(3) found by blast
  qed
  have tx: "wp (transaction (sourceTx st t ord ls)) (\<lambda>_. ?R) ?E w"
    unfolding wp_transaction
    by (rule wp_mono [OF wp_sourceTx_stock [OF coreInvD(1,2) [OF assms(1)] _ ids(2) [symmetric] assms(3) [folded ids(1)] lines]])
      (use o(1,2) ids after in \<open>auto simp: assms(6) [THEN arg_cong [where f = o_allowBackorder]]\<close>)
  have retried: "wp (retryOnConflict defaultAttempts env (transaction (sourceTx st t ord ls))) (\<lambda>_. ?R) ?E w"
    by (rule wp_retry_once [OF tx]) (auto simp: defaultAttempts_def)
  have tail: "wp (forEach ss (invalidate t)) (\<lambda>_. ?R) (\<lambda>_ _. False) v" if "?R v" for ss v
    using that by (rule wp_forEach) (simp add: wp findTenantOrder_def history_def)
  have "wp (sourceCommit env st t ord ls) (\<lambda>_. ?R) ?E w"
    unfolding sourceCommit_def wp_bind wp_andThen wp_ret
  proof (rule wp_mono [OF retried], goal_cases)
    case (1 out v)
    show ?case by (rule wp_mono [OF tail [OF 1(2)]]) simp_all
  qed simp
  then show ?thesis by (auto simp: wp_iff split: prod.split sum.split)
qed

definition demoSentFlexible :: world where
  "demoSentFlexible = demoShipped\<lparr>orders := mapWhere (\<lambda>_. True) (o_allowBackorder_update (\<lambda>_. True)) (orders demoShipped)\<rparr>"

lemma stale_source_reallocates_witness:
  "\<exists>res w'. sourceCommit (\<lambda>_ w. w) BALANCED 7 (demoOrder\<lparr>o_status := OrderStatus.VALIDATED, o_allowBackorder := True\<rparr>)
      (linesOf 5 demoSentFlexible) demoSentFlexible = (Inr res, w') \<and>
    findTenantOrder 7 5 w' = Some (demoOrder\<lparr>o_status := OrderStatus.ALLOCATED, o_allowBackorder := True\<rparr>)"
proof -
  let ?cur = "demoOrder\<lparr>o_status := OrderStatus.SHIPPED, o_allowBackorder := True\<rparr>"
  let ?ord = "demoOrder\<lparr>o_status := OrderStatus.VALIDATED, o_allowBackorder := True\<rparr>"
  have core: "coreInv demoSentFlexible"
    unfolding demoSentFlexible_def by (rule coreInv_update_orders [OF demoShipped_core]) simp_all
  have found: "findTenantOrder 7 5 demoSentFlexible = Some ?cur"
    by (simp add: findTenantOrder_def demoSentFlexible_def demoShipped_def mapWhere_def demoOrder_def)
  have own: "holdsOwned 7 5 demoSentFlexible"
    by (simp add: holdsOwned_def demoSentFlexible_def demoShipped_def demoWorld_sel)
  have st: "o_status ?cur \<notin> {OrderStatus.VALIDATED}" "?ord = ?cur\<lparr>o_status := OrderStatus.VALIDATED\<rparr>" by simp_all
  note law = stale_source_reallocates [OF core found own refl st, where env = "\<lambda>_ w. w" and st = BALANCED]
  show ?thesis
  proof (cases "sourceCommit (\<lambda>_ w. w) BALANCED 7 ?ord (linesOf 5 demoSentFlexible) demoSentFlexible")
    case (Pair r w')
    then show ?thesis using law by (cases r) simp_all
  qed
qed

end
