(* ===== verification/Fulfillment.thy ===== *)
theory Fulfillment
  imports Sourcing
begin

text \<open>
  backend/src/fulfillment: fulfillment.service.ts, which drives shipments through pick, ship and
  deliver (or staging and pick-up), takes the stock out, rolls the order's status forward and
  captures the payment; wms.service.ts and providers/, the hand-off to a warehouse system.
\<close>

section \<open>The warehouse hand-off\<close>

record wmsResult =
  wr_provider :: string
  wr_jobId :: string

record wmsProvider =
  wp_name :: string
  wp_dispatch :: "shipment \<Rightarrow> (ident \<times> int) list \<Rightarrow> (world, wmsResult) op"

text \<open>A prefix and some characters of a random UUID, in upper case.\<close>

definition upperRef :: "string \<Rightarrow> nat \<Rightarrow> (world, string) op" where
  "upperRef pre n = bind freshId (\<lambda>i. bind (gets (\<lambda>w. uuidOf w i)) (\<lambda>u. ret (pre @ toUpperCase (take n u))))"

definition mockWms :: wmsProvider where
  "mockWms = \<lparr>wp_name = ''mock'',
    wp_dispatch = (\<lambda>sh lines. bind (upperRef ''WMS-'' 10) (\<lambda>job. ret \<lparr>wr_provider = ''mock'', wr_jobId = job\<rparr>))\<rparr>"

text \<open>With or without a key the connector only draws a job id; the key changes what it logs.\<close>

definition shipBobWms :: wmsProvider where
  "shipBobWms = \<lparr>wp_name = ''shipbob'',
    wp_dispatch = (\<lambda>sh lines. bind (upperRef ''SB-'' 10) (\<lambda>job. ret \<lparr>wr_provider = ''shipbob'', wr_jobId = job\<rparr>))\<rparr>"

definition wmsRegistry :: "string \<Rightarrow> wmsProvider option" where
  "wmsRegistry = map_of [(wp_name shipBobWms, shipBobWms), (wp_name mockWms, mockWms)]"

definition providerFor :: "string option \<Rightarrow> wmsProvider" where
  "providerFor cfg =
    (case wmsRegistry (toLowerCase (case cfg of Some n \<Rightarrow> n | None \<Rightarrow> ''mock'')) of
       Some p \<Rightarrow> p | None \<Rightarrow> mockWms)"

definition wmsDispatch :: "string option \<Rightarrow> shipment \<Rightarrow> (ident \<times> int) list \<Rightarrow> (world, wmsResult) op" where
  "wmsDispatch cfg sh lines = wp_dispatch (providerFor cfg) sh lines"

section \<open>Rolling the order forward\<close>

definition ORDER_CHAIN :: "OrderStatus list" where
  "ORDER_CHAIN = [OrderStatus.ALLOCATED, OrderStatus.RELEASED, OrderStatus.PICKED, OrderStatus.SHIPPED,
    OrderStatus.DELIVERED]"

fun SHIPMENT_RANK :: "ShipmentStatus \<Rightarrow> int" where
  "SHIPMENT_RANK ShipmentStatus.PENDING = 0"
| "SHIPMENT_RANK ShipmentStatus.PICKED = 1"
| "SHIPMENT_RANK READY_FOR_PICKUP = 2"
| "SHIPMENT_RANK ShipmentStatus.SHIPPED = 2"
| "SHIPMENT_RANK PICKED_UP = 3"
| "SHIPMENT_RANK ShipmentStatus.DELIVERED = 3"
| "SHIPMENT_RANK ShipmentStatus.CANCELLED = - 1"

text \<open>\<open>Array.prototype.indexOf\<close>\<close>

fun indexFrom :: "int \<Rightarrow> 'a list \<Rightarrow> 'a \<Rightarrow> int" where
  "indexFrom n [] x = - 1"
| "indexFrom n (y # ys) x = (if y = x then n else indexFrom (n + 1) ys x)"

definition indexOf :: "'a list \<Rightarrow> 'a \<Rightarrow> int" where
  "indexOf xs x = indexFrom 0 xs x"

definition capturePayment :: "paymentProvider \<Rightarrow> order \<Rightarrow> string option \<Rightarrow> (world, CaptureStatus \<times> string option) op" where
  "capturePayment gw ord ref = pp_capture gw ord ref"

definition captureOrderPayment :: "paymentProvider \<Rightarrow> ident \<Rightarrow> (world, unit) op" where
  "captureOrderPayment gw orderId =
    bind (gets (findOrder orderId)) (\<lambda>found.
    case found of
      None \<Rightarrow> ret ()
    | Some ord \<Rightarrow>
        (case o_paymentReference ord of
           None \<Rightarrow> ret ()
         | Some ref \<Rightarrow>
             if ref = [] \<or> o_paymentStatus ord \<noteq> PaymentStatus.AUTHORIZED then ret ()
             else bind (capturePayment gw ord (Some ref)) (\<lambda>res.
               if fst res = CaptureStatus.CAPTURED then setPaymentStatus orderId PaymentStatus.CAPTURED
               else ret ())))"

text \<open>The stage of the least progressed shipment that is not cancelled.\<close>

definition rollupTarget :: "shipment list \<Rightarrow> OrderStatus option" where
  "rollupTarget active =
    (let minRank = Min (set (map (\<lambda>s. SHIPMENT_RANK (sh_status s)) active)) in
     if 3 \<le> minRank then Some OrderStatus.DELIVERED
     else if 2 \<le> minRank then Some OrderStatus.SHIPPED
     else if 1 \<le> minRank then Some OrderStatus.PICKED
     else None)"

definition activeShipments :: "ident \<Rightarrow> world \<Rightarrow> shipment list" where
  "activeShipments orderId w =
    filter (\<lambda>s. sh_status s \<noteq> ShipmentStatus.CANCELLED) (filter (\<lambda>s. sh_orderId s = orderId) (shipments w))"

text \<open>The statuses after index \<open>a\<close> up to index \<open>b\<close> of the chain.\<close>

definition chainSteps :: "int \<Rightarrow> int \<Rightarrow> OrderStatus list" where
  "chainSteps a b = take (nat (b - a)) (drop (nat (a + 1)) ORDER_CHAIN)"

definition rollupOrder :: "paymentProvider \<Rightarrow> ident \<Rightarrow> ident \<Rightarrow> (world, unit) op" where
  "rollupOrder gw tenantId orderId =
    bind (gets (activeShipments orderId)) (\<lambda>active.
    if active = [] then ret ()
    else case rollupTarget active of
      None \<Rightarrow> ret ()
    | Some target \<Rightarrow>
        bind (gets (findOrder orderId)) (\<lambda>found.
        bind (orThrow found (PrismaKnown ''P2025'' None)) (\<lambda>ord.
        let fromIdx = indexOf ORDER_CHAIN (o_status ord); toIdx = indexOf ORDER_CHAIN target
        in if fromIdx < 0 \<or> toIdx \<le> fromIdx then ret ()
           else andThen (forEach (chainSteps fromIdx toIdx)
               (\<lambda>st. andThen (transition tenantId orderId st (Some ''fulfilment rollup'')) (ret ())))
             (if indexOf ORDER_CHAIN OrderStatus.SHIPPED \<le> toIdx then captureOrderPayment gw orderId else ret ()))))"

section \<open>The steps of a shipment\<close>

definition requireShipment :: "ident \<Rightarrow> ident \<Rightarrow> (world, shipment) op" where
  "requireShipment tenantId shipmentId =
    bind (gets (\<lambda>w. find (\<lambda>s. sh_id s = shipmentId \<and> sh_tenantId s = tenantId) (shipments w))) (\<lambda>found.
    orThrow found (BadRequest ''Shipment not found''))"

definition updateShipment :: "ident \<Rightarrow> (shipment \<Rightarrow> shipment) \<Rightarrow> (world, shipment) op" where
  "updateShipment shipmentId f =
    bind now (\<lambda>ts. updateRow shipments shipments_update (\<lambda>s. sh_id s = shipmentId) (\<lambda>s. (f s)\<lparr>sh_updatedAt := ts\<rparr>))"

definition dispatch :: "string option \<Rightarrow> ident \<Rightarrow> ident \<Rightarrow> (world, shipment) op" where
  "dispatch cfg tenantId shipmentId =
    bind (requireShipment tenantId shipmentId) (\<lambda>sh.
    andThen (throwIf (sh_status sh \<noteq> ShipmentStatus.PICKED \<and> sh_status sh \<noteq> ShipmentStatus.PENDING)
      (BadRequest ''Shipment must be PENDING/PICKED to dispatch''))
    (bind (gets (\<lambda>w. map (\<lambda>a. (al_skuId a, al_quantity a))
      (filter (\<lambda>a. al_shipmentId a = Some shipmentId) (allocations w)))) (\<lambda>lines.
    bind (wmsDispatch cfg sh lines) (\<lambda>res.
    updateShipment shipmentId (\<lambda>s. s\<lparr>sh_fulfillmentProvider := Some (wr_provider res),
      sh_externalJobId := Some (wr_jobId res)\<rparr>)))))"

definition markReadyForPickup :: "paymentProvider \<Rightarrow> ident \<Rightarrow> ident \<Rightarrow> (world, shipment) op" where
  "markReadyForPickup gw tenantId shipmentId =
    bind (requireShipment tenantId shipmentId) (\<lambda>sh.
    andThen (throwIf (sh_status sh \<noteq> ShipmentStatus.PICKED) (BadRequest ''Shipment must be PICKED to mark ready''))
    (bind (updateShipment shipmentId (sh_status_update (\<lambda>_. READY_FOR_PICKUP))) (\<lambda>updated.
    andThen (rollupOrder gw tenantId (sh_orderId sh))
    (ret updated))))"

definition pickedOf :: "ident \<Rightarrow> world \<Rightarrow> allocation list" where
  "pickedOf shipmentId w =
    filter (\<lambda>a. al_shipmentId a = Some shipmentId \<and> al_status a = AllocationStatus.PICKED) (allocations w)"

definition shipParams :: "ident \<Rightarrow> ident \<Rightarrow> allocation \<Rightarrow> movementParams" where
  "shipParams tenantId shipmentId a =
    (baseMovement tenantId (al_skuId a) (al_locationId a) SHIP
       (noDeltas\<lparr>bd_onHand := Some (- al_quantity a), bd_allocated := Some (- al_quantity a)\<rparr>))
      \<lparr>mv_referenceType := Some ''shipment'', mv_referenceId := Some shipmentId\<rparr>"

text \<open>The transaction \<open>ship\<close> and \<open>pickUp\<close> share: deplete the stock, close the allocations.\<close>

definition depleteTx :: "ident \<Rightarrow> ident \<Rightarrow> allocation list \<Rightarrow> (shipment \<Rightarrow> shipment) \<Rightarrow> (world, shipment) op" where
  "depleteTx tenantId shipmentId picked f =
    andThen (forEach picked (\<lambda>a. andThen (applyWithin (shipParams tenantId shipmentId a)) (ret ())))
    (andThen (updateMany allocations allocations_update
       (\<lambda>a. al_shipmentId a = Some shipmentId \<and> al_status a = AllocationStatus.PICKED)
       (al_status_update (\<lambda>_. AllocationStatus.SHIPPED)))
    (updateShipment shipmentId f))"

definition pickUp :: "paymentProvider \<Rightarrow> ident \<Rightarrow> ident \<Rightarrow> (world, shipment) op" where
  "pickUp gw tenantId shipmentId =
    bind (requireShipment tenantId shipmentId) (\<lambda>sh.
    andThen (throwIf (sh_status sh \<noteq> READY_FOR_PICKUP) (BadRequest ''Shipment must be READY_FOR_PICKUP to pick up''))
    (bind (gets (pickedOf shipmentId)) (\<lambda>picked.
    bind (transaction (depleteTx tenantId shipmentId picked (sh_status_update (\<lambda>_. PICKED_UP)))) (\<lambda>updated.
    andThen (forEach (uniq (map al_skuId picked)) (invalidate tenantId))
    (andThen (rollupOrder gw tenantId (sh_orderId sh))
    (ret updated))))))"

definition pick :: "paymentProvider \<Rightarrow> ident \<Rightarrow> ident \<Rightarrow> (world, shipment) op" where
  "pick gw tenantId shipmentId =
    bind (requireShipment tenantId shipmentId) (\<lambda>sh.
    andThen (throwIf (sh_status sh \<noteq> ShipmentStatus.PENDING) (BadRequest ''Shipment must be PENDING to pick''))
    (bind (gets (findOrder (sh_orderId sh))) (\<lambda>found.
    bind (orThrow found (PrismaKnown ''P2025'' None)) (\<lambda>ord.
    andThen (throwIf (o_status ord \<noteq> OrderStatus.RELEASED \<and> o_status ord \<noteq> OrderStatus.PICKED)
      (BadRequest ''Order must be RELEASED before picking''))
    (bind (transaction
       (andThen (updateMany allocations allocations_update
          (\<lambda>a. al_shipmentId a = Some shipmentId \<and> al_status a = AllocationStatus.ALLOCATED)
          (al_status_update (\<lambda>_. AllocationStatus.PICKED)))
        (updateShipment shipmentId (sh_status_update (\<lambda>_. ShipmentStatus.PICKED))))) (\<lambda>updated.
    andThen (rollupOrder gw tenantId (sh_orderId sh))
    (ret updated)))))))"

definition ship :: "paymentProvider \<Rightarrow> ident \<Rightarrow> ident \<Rightarrow> string option \<Rightarrow> (world, shipment) op" where
  "ship gw tenantId shipmentId carrier =
    bind (requireShipment tenantId shipmentId) (\<lambda>sh.
    andThen (throwIf (sh_status sh \<noteq> ShipmentStatus.PICKED) (BadRequest ''Shipment must be PICKED to ship''))
    (bind (gets (pickedOf shipmentId)) (\<lambda>picked.
    bind (upperRef ''TRK-'' 12) (\<lambda>trackingNumber.
    bind (transaction (depleteTx tenantId shipmentId picked
       (\<lambda>s. s\<lparr>sh_status := ShipmentStatus.SHIPPED,
          sh_carrier := Some (case carrier of Some c \<Rightarrow> c | None \<Rightarrow> ''DEMO-CARRIER''),
          sh_trackingNumber := Some trackingNumber\<rparr>))) (\<lambda>updated.
    andThen (forEach (uniq (map al_skuId picked)) (invalidate tenantId))
    (andThen (rollupOrder gw tenantId (sh_orderId sh))
    (ret updated)))))))"

definition deliver :: "paymentProvider \<Rightarrow> ident \<Rightarrow> ident \<Rightarrow> (world, shipment) op" where
  "deliver gw tenantId shipmentId =
    bind (requireShipment tenantId shipmentId) (\<lambda>sh.
    andThen (throwIf (sh_status sh \<noteq> ShipmentStatus.SHIPPED) (BadRequest ''Shipment must be SHIPPED to deliver''))
    (bind (updateShipment shipmentId (sh_status_update (\<lambda>_. ShipmentStatus.DELIVERED))) (\<lambda>updated.
    andThen (rollupOrder gw tenantId (sh_orderId sh))
    (ret updated))))"

record shipmentQuery = pageQuery +
  hq_status :: "ShipmentStatus option"
  hq_orderId :: "ident option"

definition shipmentMatches :: "ident \<Rightarrow> shipmentQuery \<Rightarrow> shipment \<Rightarrow> bool" where
  "shipmentMatches tenantId q s \<longleftrightarrow> sh_tenantId s = tenantId \<and>
    (case hq_status q of None \<Rightarrow> True | Some st \<Rightarrow> sh_status s = st) \<and>
    (case hq_orderId q of None \<Rightarrow> True | Some i \<Rightarrow> sh_orderId s = i)"

definition listShipments ::
  "ident \<Rightarrow> shipmentQuery \<Rightarrow> world \<Rightarrow> (shipment \<times> (ident \<times> int) list \<times> (string \<times> string) option) page" where
  "listShipments tenantId q w =
    paginate (pageQuery.truncate q)
      (map (\<lambda>s. (s, map (\<lambda>a. (al_skuId a, al_quantity a)) (filter (\<lambda>a. al_shipmentId a = Some (sh_id s)) (allocations w)),
          map_option (\<lambda>lo. (lo_code lo, lo_name lo)) (findLocation (sh_locationId s) w)))
        (jsSort (\<lambda>a b. sh_createdAt b - sh_createdAt a) (filter (shipmentMatches tenantId q) (shipments w))))"

section \<open>A batch of movements\<close>

text \<open>
  Movements that do not ask for availability, one after the other: the balances change by the sum of
  the deltas, and the first movement that would drive a bucket negative (or has no row) ends it.
\<close>

definition deltaSum :: "('x \<Rightarrow> movementParams) \<Rightarrow> 'x list \<Rightarrow> stockKey \<Rightarrow> buckets" where
  "deltaSum P xs k = sumWhere (\<lambda>x. mv_key (P x) = k) (\<lambda>x. deltaOf (mv_deltas (P x))) xs"

lemma deltaSum_simps [simp]:
  "deltaSum P [] k = 0"
  "deltaSum P (x # xs) k = (if mv_key (P x) = k then deltaOf (mv_deltas (P x)) else 0) + deltaSum P xs k"
  by (simp_all add: deltaSum_def)

definition batchStops :: "('x \<Rightarrow> movementParams) \<Rightarrow> 'x list \<Rightarrow> err \<Rightarrow> world \<Rightarrow> bool" where
  "batchStops P xs e w \<longleftrightarrow> (\<exists>ds x rest. xs = ds @ x # rest \<and>
    (\<not> nonneg (balance w (mv_key (P x)) + deltaSum P (ds @ [x]) (mv_key (P x))) \<and> (\<exists>m. e = Conflict m) \<or>
     \<not> stockable (P x) w \<and> e = PrismaKnown ''P2010'' (Some ''23503'')))"

lemma not_stockable_back:
  assumes "moved p w w1" "\<not> stockable q w1"
  shows "\<not> stockable q w"
proof -
  have "stockOnly w w1" using assms(1) by (simp add: moved_def)
  then have "refsExist a b c w1 = refsExist a b c w" for a b c using stockOnly_sel [of w w1] by (simp add: refsExist_def)
  moreover have "findSnapshot (mv_key q) w1 = None \<Longrightarrow> findSnapshot (mv_key q) w = None"
    using moved_found [OF assms(1)] by (metis not_None_eq)
  ultimately show ?thesis using assms(2) by (simp add: stockable_def)
qed

lemma wp_moves:
  assumes "stockInv v" "\<forall>x \<in> set xs. \<not> mv_requireAvailable (P x)"
  shows "wp (forEach xs (\<lambda>x. andThen (applyWithin (P x)) (ret ())))
    (\<lambda>_ w'. stockInv w' \<and> stockOnly v w' \<and> safetyOf w' = safetyOf v \<and> (\<forall>k. balance w' k = balance v k + deltaSum P xs k))
    (\<lambda>e w'. batchStops P xs e v) v"
  using assms
proof (induction xs arbitrary: v)
  case Nil
  then show ?case by (simp add: wp)
next
  case (Cons x xs)
  let ?p = "P x" and ?k = "mv_key (P x)"
  have stop_here: "batchStops P (x # xs) e v"
    if "\<not> nonneg (balance v ?k + deltaOf (mv_deltas ?p)) \<and> (\<exists>m. e = Conflict m) \<or>
      \<not> stockable ?p v \<and> e = PrismaKnown ''P2010'' (Some ''23503'')" for e
    unfolding batchStops_def by (intro exI [of _ "[]"] exI [of _ x] exI [of _ xs]) (use that in simp)
  have rest: "wp (forEach xs (\<lambda>x. andThen (applyWithin (P x)) (ret ())))
    (\<lambda>_ w'. stockInv w' \<and> stockOnly v w' \<and> safetyOf w' = safetyOf v \<and> (\<forall>k. balance w' k = balance v k + deltaSum P (x # xs) k))
    (\<lambda>e w'. batchStops P (x # xs) e v) v1"
    if m: "moved ?p v v1" "snapshotsOk v1" "nonneg (balance v1 ?k)" for v1
  proof -
    have iv: "stockInv v1" by (rule moved_stockInv [OF Cons.prems(1) m])
    have b: "balance v1 = (balance v)(?k := balance v ?k + deltaOf (mv_deltas ?p))" "safetyOf v1 = safetyOf v" "stockOnly v v1"
      using m(1) by (simp_all add: moved_def)
    show ?thesis
    proof (rule wp_mono [OF Cons.IH [OF iv]], goal_cases)
      case 1
      then show ?case using Cons.prems(2) by simp
    next
      case (2 u w')
      then show ?case using b stockOnly_trans [of v v1 w'] by (auto simp: algebra_simps)
    next
      case (3 e w')
      then obtain ds y rest where y: "xs = ds @ y # rest"
        "\<not> nonneg (balance v1 (mv_key (P y)) + deltaSum P (ds @ [y]) (mv_key (P y))) \<and> (\<exists>m. e = Conflict m) \<or>
         \<not> stockable (P y) v1 \<and> e = PrismaKnown ''P2010'' (Some ''23503'')" by (auto simp: batchStops_def)
      have sum: "balance v1 (mv_key (P y)) + deltaSum P (ds @ [y]) (mv_key (P y)) =
          balance v (mv_key (P y)) + deltaSum P ((x # ds) @ [y]) (mv_key (P y))"
        by (simp add: b algebra_simps)
      have "x # xs = (x # ds) @ y # rest" using y(1) by simp
      moreover have "\<not> nonneg (balance v (mv_key (P y)) + deltaSum P ((x # ds) @ [y]) (mv_key (P y))) \<and> (\<exists>m. e = Conflict m) \<or>
         \<not> stockable (P y) v \<and> e = PrismaKnown ''P2010'' (Some ''23503'')"
        using y(2) not_stockable_back [OF m(1)] unfolding sum by blast
      ultimately show ?case unfolding batchStops_def by blast
    qed
  qed
  show ?case
    unfolding forEach.simps wp
  proof (rule wp_mono [OF applyWithin_spec [OF stockInvD(1) [OF Cons.prems(1)]]], goal_cases)
    case (1 r v1)
    then have "moved ?p v v1" "snapshotsOk v1" "nonneg (balance v1 ?k)" by (simp_all add: admissible_def)
    then show ?case by (rule rest)
  next
    case (2 e v1)
    then show ?case using stop_here [of e] Cons.prems(2) by (auto simp: admissible_def)
  qed
qed

section \<open>Depleting a shipment\<close>

lemma shipParams_simps [simp]:
  "mv_key (shipParams t i a) = (t, al_skuId a, al_locationId a)"
  "deltaOf (mv_deltas (shipParams t i a)) = Buckets (- al_quantity a) 0 (- al_quantity a) 0 0"
  "\<not> mv_requireAvailable (shipParams t i a)"
  by (simp_all add: shipParams_def)

definition pickedUnits :: "ident \<Rightarrow> world \<Rightarrow> stockKey \<Rightarrow> int" where
  "pickedUnits sid w k = sumWhere (\<lambda>a. al_key a = k) al_quantity (pickedOf sid w)"

text \<open>The goods the shipment takes out are there.\<close>

definition depletable :: "ident \<Rightarrow> world \<Rightarrow> bool" where
  "depletable sid w \<longleftrightarrow> (\<forall>k. pickedUnits sid w k \<le> bk_onHand (balance w k))"

lemma deltaSum_ship:
  assumes "\<forall>a \<in> set as. al_tenantId a = t"
  shows "deltaSum (shipParams t i) as k =
    Buckets (- sumWhere (\<lambda>a. al_key a = k) al_quantity as) 0 (- sumWhere (\<lambda>a. al_key a = k) al_quantity as) 0 0"
  using assms
proof (induction as)
  case (Cons a as)
  have "mv_key (shipParams t i a) = al_key a" using Cons.prems by (simp add: al_key_def)
  then show ?case using Cons by (auto simp: al_key_def intro: buckets_eqI)
qed (simp add: zero_buckets_def)

lemma picked_open: "a \<in> set (pickedOf sid w) \<Longrightarrow> a \<in> set (allocations w) \<and> openAllocation a"
  by (auto simp: pickedOf_def openAllocation_def)

lemma pickedUnits_committed:
  assumes "commitInv w"
  shows "committed w k = sumWhere (\<lambda>a. al_key a = k \<and> openAllocation a \<and>
      \<not> (al_shipmentId a = Some sid \<and> al_status a = AllocationStatus.PICKED)) al_quantity (allocations w) + pickedUnits sid w k"
    "pickedUnits sid w k \<le> committed w k" "0 \<le> pickedUnits sid w k"
proof -
  have pos: "0 < al_quantity a" if "a \<in> set (allocations w)" for a
    using commitInvD(2) [OF assms] that by (simp add: commitRows_def)
  have gen: "sumWhere (\<lambda>a. al_key a = k \<and> openAllocation a) al_quantity as =
      sumWhere (\<lambda>a. al_key a = k \<and> openAllocation a \<and> \<not> (al_shipmentId a = Some sid \<and> al_status a = AllocationStatus.PICKED)) al_quantity as +
      sumWhere (\<lambda>a. al_key a = k) al_quantity (filter (\<lambda>a. al_shipmentId a = Some sid \<and> al_status a = AllocationStatus.PICKED) as)" for as
    by (induction as) (auto simp: openAllocation_def)
  show eq: "committed w k = sumWhere (\<lambda>a. al_key a = k \<and> openAllocation a \<and>
      \<not> (al_shipmentId a = Some sid \<and> al_status a = AllocationStatus.PICKED)) al_quantity (allocations w) + pickedUnits sid w k"
    unfolding committed_def pickedUnits_def pickedOf_def by (rule gen)
  have "0 \<le> sumWhere (\<lambda>a. al_key a = k \<and> openAllocation a \<and>
      \<not> (al_shipmentId a = Some sid \<and> al_status a = AllocationStatus.PICKED)) al_quantity (allocations w)"
    by (rule sumWhere_nonneg) (use pos in \<open>auto intro: less_imp_le\<close>)
  then show "pickedUnits sid w k \<le> committed w k" using eq by simp
  show "0 \<le> pickedUnits sid w k"
    unfolding pickedUnits_def by (rule sumWhere_nonneg) (use pos picked_open in \<open>auto intro: less_imp_le\<close>)
qed

definition depleted :: "ident \<Rightarrow> (shipment \<Rightarrow> shipment) \<Rightarrow> world \<Rightarrow> world \<Rightarrow> bool" where
  "depleted sid f v w' \<longleftrightarrow> stockInv w' \<and> commitInv w' \<and> safetyOf w' = safetyOf v \<and>
    (\<forall>k. balance w' k = balance v k + Buckets (- pickedUnits sid v k) 0 (- pickedUnits sid v k) 0 0) \<and>
    allocations w' = mapWhere (\<lambda>a. al_shipmentId a = Some sid \<and> al_status a = AllocationStatus.PICKED)
      (al_status_update (\<lambda>_. AllocationStatus.SHIPPED)) (allocations v) \<and>
    shipments w' = mapWhere (\<lambda>s. sh_id s = sid) (\<lambda>s. (f s)\<lparr>sh_updatedAt := clock v\<rparr>) (shipments v) \<and>
    orders w' = orders v \<and> orderLines w' = orderLines v \<and> orderEvents w' = orderEvents v \<and>
    reservations w' = reservations v \<and> gatewayLog w' = gatewayLog v \<and> nextId v \<le> nextId w' \<and> clock w' = clock v"

lemma commitInv_shipped:
  assumes inv: "commitInv v" and w1: "stockInv w1" "stockOnly v w1"
    and bal: "\<And>k. balance w1 k = balance v k + Buckets (- pickedUnits sid v k) 0 (- pickedUnits sid v k) 0 0"
    and w': "snapshots w' = snapshots w1" "reservations w' = reservations v" "nextId w1 \<le> nextId w'"
      "allocations w' = mapWhere (\<lambda>a. al_shipmentId a = Some sid \<and> al_status a = AllocationStatus.PICKED)
        (al_status_update (\<lambda>_. AllocationStatus.SHIPPED)) (allocations v)"
  shows "commitInv w'"
proof -
  have le: "nextId v \<le> nextId w'" using stockOnly_sel(1) [OF w1(2)] w'(3) by simp
  have "commitRows w'"
    by (rule commitRows_update_allocations [OF commitInvD(2) [OF inv] w'(4,2) le]) simp_all
  moreover have "held w' = held v" by (rule held_cong) (rule w'(2))
  moreover have "committed w' k = committed v k - pickedUnits sid v k" for k
  proof -
    have "sumWhere (\<lambda>r. (al_shipmentId r = Some sid \<and> al_status r = AllocationStatus.PICKED) \<and>
        (al_key (al_status_update (\<lambda>_. AllocationStatus.SHIPPED) r) = k \<and> openAllocation (al_status_update (\<lambda>_. AllocationStatus.SHIPPED) r)))
        (\<lambda>r. al_quantity (al_status_update (\<lambda>_. AllocationStatus.SHIPPED) r)) (allocations v) = 0"
      by (rule sumWhere_none) (simp add: openAllocation_def)
    moreover have "sumWhere (\<lambda>r. \<not> (al_shipmentId r = Some sid \<and> al_status r = AllocationStatus.PICKED) \<and> (al_key r = k \<and> openAllocation r))
        al_quantity (allocations v) = committed v k - pickedUnits sid v k"
      unfolding pickedUnits_committed(1) [OF inv, of k sid] by (simp add: conj_ac)
    ultimately show ?thesis unfolding committed_def [of w'] w'(4) sumWhere_mapWhere by simp
  qed
  moreover have "snapshotsOk w'" using view_cong(4) [OF w'(1)] stockInvD(1) [OF w1(1)] w'(3) by blast
  moreover have "balance w' = balance w1" by (rule view_cong(2) [OF w'(1)])
  ultimately show ?thesis
    using commitInvD(3,4) [OF inv] bal by (auto simp: commitInv_def fun_eq_iff)
qed

lemma batchStops_ship:
  assumes inv: "stockInv v" "commitInv v" and own: "\<forall>a \<in> set (pickedOf sid v). al_tenantId a = t"
    and stop: "batchStops (shipParams t sid) (pickedOf sid v) e v"
  shows "\<not> depletable sid v \<and> (\<exists>m. e = Conflict m)"
proof -
  obtain ds a rest where d: "pickedOf sid v = ds @ a # rest"
    "\<not> nonneg (balance v (mv_key (shipParams t sid a)) + deltaSum (shipParams t sid) (ds @ [a]) (mv_key (shipParams t sid a))) \<and> (\<exists>m. e = Conflict m) \<or>
     \<not> stockable (shipParams t sid a) v \<and> e = PrismaKnown ''P2010'' (Some ''23503'')"
    using stop unfolding batchStops_def by blast
  have mem: "a \<in> set (pickedOf sid v)" by (simp add: d(1))
  have key: "mv_key (shipParams t sid a) = al_key a" using own mem by (simp add: al_key_def)
  let ?n = "sumWhere (\<lambda>x. al_key x = al_key a) al_quantity (ds @ [a])"
  have "\<forall>x \<in> set (ds @ [a]). al_tenantId x = t" using own d(1) by auto
  from deltaSum_ship [OF this] have sum: "deltaSum (shipParams t sid) (ds @ [a]) (al_key a) = Buckets (- ?n) 0 (- ?n) 0 0" by simp
  have "stockable (shipParams t sid a) v"
    using open_allocation_covered(2) [OF inv] picked_open [OF mem] by (simp add: stockable_def key [unfolded shipParams_simps])
  then have neg: "\<not> nonneg (balance v (al_key a) + Buckets (- ?n) 0 (- ?n) 0 0)" "\<exists>m. e = Conflict m"
    using d(2) unfolding key sum by simp_all
  have pos: "0 \<le> al_quantity x" if "x \<in> set rest" for x
  proof -
    have "x \<in> set (pickedOf sid v)" using that by (simp add: d(1))
    then show ?thesis using picked_open [of x sid v] commitInvD(2) [OF inv(2)] by (auto simp: commitRows_def intro!: less_imp_le)
  qed
  have "0 \<le> sumWhere (\<lambda>x. al_key x = al_key a) al_quantity rest" by (rule sumWhere_nonneg) (rule pos)
  then have "?n \<le> pickedUnits sid v (al_key a)" by (simp add: pickedUnits_def d(1))
  moreover have "pickedUnits sid v (al_key a) \<le> bk_allocated (balance v (al_key a))"
    using pickedUnits_committed(2) [OF inv(2)] commitInvD(4) [OF inv(2)] by simp
  ultimately have "bk_onHand (balance v (al_key a)) < pickedUnits sid v (al_key a)"
    using neg(1) stockInvD(2) [OF inv(1), of "al_key a"] by (auto simp: nonneg_def)
  then show ?thesis using neg(2) by (auto simp: depletable_def not_le)
qed

lemma wp_updateShipment: "wp (updateShipment i f) Q E = (\<lambda>w. case find (\<lambda>s. sh_id s = i) (shipments w) of
    None \<Rightarrow> E (PrismaKnown ''P2025'' None) w
  | Some s \<Rightarrow> Q ((f s)\<lparr>sh_updatedAt := clock w\<rparr>)
      (w\<lparr>shipments := mapWhere (\<lambda>s. sh_id s = i) (\<lambda>s. (f s)\<lparr>sh_updatedAt := clock w\<rparr>) (shipments w)\<rparr>))"
  by (simp add: updateShipment_def wp)

lemma wp_depleteTx:
  assumes inv: "stockInv v" "commitInv v" and own: "\<forall>a \<in> set (pickedOf sid v). al_tenantId a = t"
    and row: "find (\<lambda>s. sh_id s = sid) (shipments v) = Some sh"
  shows "wp (depleteTx t sid (pickedOf sid v) f)
    (\<lambda>s' w'. depletable sid v \<and> s' = (f sh)\<lparr>sh_updatedAt := clock v\<rparr> \<and> depleted sid f v w')
    (\<lambda>e _. \<not> depletable sid v \<and> (\<exists>m. e = Conflict m)) v"
  unfolding depleteTx_def wp_andThen
proof (rule wp_mono [OF wp_moves [OF inv(1)]], goal_cases)
  case 1
  show ?case by simp
next
  case (2 u w1)
  have bal: "balance w1 k = balance v k + Buckets (- pickedUnits sid v k) 0 (- pickedUnits sid v k) 0 0" for k
    using 2(2) deltaSum_ship [OF own, of sid k] by (simp add: pickedUnits_def)
  have w1: "stockInv w1" "stockOnly v w1" "safetyOf w1 = safetyOf v" using 2(2) by simp_all
  note so = stockOnly_sel [OF w1(2)]
  have can: "depletable sid v"
    unfolding depletable_def
  proof
    fix k show "pickedUnits sid v k \<le> bk_onHand (balance v k)"
      using stockInvD(2) [OF w1(1), of k] unfolding bal by (simp add: nonneg_def)
  qed
  let ?w = "w1\<lparr>allocations := mapWhere (\<lambda>a. al_shipmentId a = Some sid \<and> al_status a = AllocationStatus.PICKED)
        (al_status_update (\<lambda>_. AllocationStatus.SHIPPED)) (allocations v),
      shipments := mapWhere (\<lambda>s. sh_id s = sid) (\<lambda>s. (f s)\<lparr>sh_updatedAt := clock v\<rparr>) (shipments v)\<rparr>"
  have "commitInv ?w" by (rule commitInv_shipped [OF inv(2) w1(1,2) bal]) (simp_all add: so)
  moreover have "stockInv ?w" using w1(1) by simp
  ultimately have "depleted sid f v ?w" using w1(3) bal so by (simp add: depleted_def)
  then show ?case
    unfolding wp_updateMany wp_updateShipment
    by (simp add: so row can)
next
  case (3 e w')
  then show ?case using batchStops_ship [OF inv own] by blast
qed

section \<open>Rolling up\<close>

text \<open>What a change of status or payment leaves alone.\<close>

definition orderIds :: "world \<Rightarrow> (ident \<times> ident) list" where
  "orderIds w = map (\<lambda>x. (o_id x, o_tenantId x)) (orders w)"

definition statusOnly :: "world \<Rightarrow> world \<Rightarrow> bool" where
  "statusOnly w w' \<longleftrightarrow> nextId w \<le> nextId w' \<and> orderIds w' = orderIds w \<and>
    (\<exists>os es ps n g. w' = w\<lparr>orders := os, orderEvents := es, published := ps, nextId := n, gatewayLog := g\<rparr>)"

lemma statusOnly_refl: "statusOnly w w"
proof -
  have "w = w\<lparr>orders := orders w, orderEvents := orderEvents w, published := published w, nextId := nextId w, gatewayLog := gatewayLog w\<rparr>"
    by simp
  then show ?thesis unfolding statusOnly_def by blast
qed

lemma statusOnly_trans:
  assumes "statusOnly u v" "statusOnly v w"
  shows "statusOnly u w"
proof -
  obtain os es ps n g where v: "v = u\<lparr>orders := os, orderEvents := es, published := ps, nextId := n, gatewayLog := g\<rparr>"
    using assms(1) unfolding statusOnly_def by blast
  obtain os' es' ps' n' g' where w: "w = v\<lparr>orders := os', orderEvents := es', published := ps', nextId := n', gatewayLog := g'\<rparr>"
    using assms(2) unfolding statusOnly_def by blast
  have "w = u\<lparr>orders := os', orderEvents := es', published := ps', nextId := n', gatewayLog := g'\<rparr>" unfolding w v by simp
  moreover have "nextId u \<le> nextId w" using assms unfolding statusOnly_def by linarith
  moreover have "orderIds w = orderIds u" using assms unfolding statusOnly_def by simp
  ultimately show ?thesis unfolding statusOnly_def by blast
qed

lemma statusOnly_sel:
  assumes "statusOnly w w'"
  shows "snapshots w' = snapshots w" "ledger w' = ledger w" "orderLines w' = orderLines w" "reservations w' = reservations w"
    "allocations w' = allocations w" "shipments w' = shipments w" "clock w' = clock w" "locations w' = locations w"
    "nextId w \<le> nextId w'" "returnRows w' = returnRows w" "returnLines w' = returnLines w" "inbounds w' = inbounds w"
    "orderIds w' = orderIds w"
  using assms by (auto simp: statusOnly_def)

lemma statusOnlyI:
  assumes e: "w' = w\<lparr>orders := os, orderEvents := es, published := ps, nextId := n, gatewayLog := g\<rparr>" and n: "nextId w \<le> n"
    and os: "map (\<lambda>x. (o_id x, o_tenantId x)) os = map (\<lambda>x. (o_id x, o_tenantId x)) (orders w)"
  shows "statusOnly w w'"
proof -
  have "nextId w \<le> nextId w'" "orderIds w' = orderIds w" using n os by (simp_all add: e orderIds_def)
  then show ?thesis unfolding statusOnly_def using e by blast
qed

lemma statusOnly_moveOrder: "statusOnly w ((moveOrder ord to n w)\<lparr>published := ps\<rparr>)"
proof (rule statusOnlyI)
  show "(moveOrder ord to n w)\<lparr>published := ps\<rparr> = w\<lparr>orders := orders (moveOrder ord to n w),
      orderEvents := orderEvents (moveOrder ord to n w), published := ps, nextId := nextId w, gatewayLog := gatewayLog w\<rparr>"
    by (intro world.equality) (simp_all add: moveOrder_def)
  show "map (\<lambda>x. (o_id x, o_tenantId x)) (orders (moveOrder ord to n w)) = map (\<lambda>x. (o_id x, o_tenantId x)) (orders w)"
    unfolding moveOrder_def by (simp add: map_mapWhere_frame)
qed simp

lemma wp_transitions:
  assumes "coreInv w" "findTenantOrder t i w = Some ord" "legalPath (o_status ord) steps"
  shows "wp (forEach steps (\<lambda>st. andThen (transition t i st msg) (ret ())))
    (\<lambda>_ w'. coreInv w' \<and> statusOnly w w' \<and> gatewayLog w' = gatewayLog w \<and>
      findTenantOrder t i w' = Some (ord\<lparr>o_status := last (o_status ord # steps)\<rparr>)) (\<lambda>_ _. False) w"
  using assms
proof (induction steps arbitrary: w ord)
  case Nil
  then show ?case by (simp add: wp statusOnly_refl)
next
  case (Cons st steps)
  let ?ord = "ord\<lparr>o_status := st\<rparr>"
  show ?case
    unfolding forEach.simps wp
  proof (rule wp_mono [OF wp_transition [OF coreInvD(3) [OF Cons.prems(1)]]], goal_cases)
    case (1 x v)
    then have legal: "canTransition (o_status ord) st"
      and v: "v = (moveOrder ord st msg w)\<lparr>published := published w @ [OrderStatusEvent t i st]\<rparr>"
      using Cons.prems(2) by auto
    note o = findTenantOrderD [OF Cons.prems(2)]
    have core: "coreInv v" using coreInv_moveOrder [OF Cons.prems(1) o(1) legal] by (simp add: v)
    have only: "statusOnly w v" unfolding v by (rule statusOnly_moveOrder)
    have found: "findTenantOrder t i v = Some ?ord"
    proof -
      have "findTenantOrder t i v = findTenantOrder t i
          (w\<lparr>orders := mapWhere (\<lambda>x. o_id x = i) (o_status_update (\<lambda>_. st)) (orders w)\<rparr>)"
        by (simp add: v findTenantOrder_def o(2))
      then show ?thesis using Cons.prems(2) o(2) by (simp add: findTenantOrder_update)
    qed
    have path: "legalPath (o_status ?ord) steps" using Cons.prems(3) by simp
    show ?case
      by (rule wp_mono [OF Cons.IH [OF core found path]])
        (use statusOnly_trans [OF only] in \<open>auto simp: v\<close>)
  next
    case (2 e v)
    then show ?case using Cons.prems by auto
  qed
qed

text \<open>The chain: the steps between two of its statuses are legal transitions.\<close>

lemma chain_index [simp]:
  "indexOf ORDER_CHAIN OrderStatus.ALLOCATED = 0" "indexOf ORDER_CHAIN OrderStatus.RELEASED = 1"
  "indexOf ORDER_CHAIN OrderStatus.PICKED = 2" "indexOf ORDER_CHAIN OrderStatus.SHIPPED = 3"
  "indexOf ORDER_CHAIN OrderStatus.DELIVERED = 4" "indexOf ORDER_CHAIN OrderStatus.CREATED = - 1"
  "indexOf ORDER_CHAIN OrderStatus.VALIDATED = - 1" "indexOf ORDER_CHAIN OrderStatus.CANCELLED = - 1"
  "indexOf ORDER_CHAIN OrderStatus.RETURNED = - 1"
  by (simp_all add: indexOf_def ORDER_CHAIN_def)

lemma chainSteps_eqs:
  "chainSteps 0 1 = [OrderStatus.RELEASED]" "chainSteps 0 2 = [OrderStatus.RELEASED, OrderStatus.PICKED]"
  "chainSteps 0 3 = [OrderStatus.RELEASED, OrderStatus.PICKED, OrderStatus.SHIPPED]"
  "chainSteps 0 4 = [OrderStatus.RELEASED, OrderStatus.PICKED, OrderStatus.SHIPPED, OrderStatus.DELIVERED]"
  "chainSteps 1 2 = [OrderStatus.PICKED]" "chainSteps 1 3 = [OrderStatus.PICKED, OrderStatus.SHIPPED]"
  "chainSteps 1 4 = [OrderStatus.PICKED, OrderStatus.SHIPPED, OrderStatus.DELIVERED]"
  "chainSteps 2 3 = [OrderStatus.SHIPPED]" "chainSteps 2 4 = [OrderStatus.SHIPPED, OrderStatus.DELIVERED]"
  "chainSteps 3 4 = [OrderStatus.DELIVERED]"
  by (simp_all add: chainSteps_def ORDER_CHAIN_def)

lemma chainSteps_path:
  assumes "0 \<le> indexOf ORDER_CHAIN a" "indexOf ORDER_CHAIN a < indexOf ORDER_CHAIN b"
  shows "legalPath a (chainSteps (indexOf ORDER_CHAIN a) (indexOf ORDER_CHAIN b)) \<and>
    last (a # chainSteps (indexOf ORDER_CHAIN a) (indexOf ORDER_CHAIN b)) = b"
proof (cases a)
  case ALLOCATED
  then show ?thesis using assms by (cases b) (simp_all add: chainSteps_eqs canTransition_def)
next
  case RELEASED
  then show ?thesis using assms by (cases b) (simp_all add: chainSteps_eqs canTransition_def)
next
  case PICKED
  then show ?thesis using assms by (cases b) (simp_all add: chainSteps_eqs canTransition_def)
next
  case SHIPPED
  then show ?thesis using assms by (cases b) (simp_all add: chainSteps_eqs canTransition_def)
next
  case DELIVERED
  then show ?thesis using assms by (cases b) simp_all
qed (use assms in simp_all)

lemmas chainSteps_legal = conjunct1 [OF chainSteps_path] conjunct2 [OF chainSteps_path]

text \<open>The status the shipments call for: the order never goes back, and only on the chain.\<close>

definition rolledStatus :: "shipment list \<Rightarrow> OrderStatus \<Rightarrow> OrderStatus" where
  "rolledStatus active st =
    (case if active = [] then None else rollupTarget active of
       None \<Rightarrow> st
     | Some target \<Rightarrow>
         if indexOf ORDER_CHAIN st < 0 \<or> indexOf ORDER_CHAIN target \<le> indexOf ORDER_CHAIN st then st else target)"

definition paidBy :: "order \<Rightarrow> PaymentStatus \<Rightarrow> world \<Rightarrow> world \<Rightarrow> bool" where
  "paidBy ord p w w' \<longleftrightarrow>
    (if o_paymentStatus ord = PaymentStatus.AUTHORIZED then p \<in> {PaymentStatus.AUTHORIZED, PaymentStatus.CAPTURED}
     else p = o_paymentStatus ord \<and> gatewayLog w' = gatewayLog w)"

definition rolled :: "ident \<Rightarrow> ident \<Rightarrow> world \<Rightarrow> world \<Rightarrow> bool" where
  "rolled t i w w' \<longleftrightarrow> coreInv w' \<and> statusOnly w w' \<and>
    (\<exists>ord p. findTenantOrder t i w = Some ord \<and> paidBy ord p w w' \<and>
      findTenantOrder t i w' = Some (ord\<lparr>o_status := rolledStatus (activeShipments i w) (o_status ord), o_paymentStatus := p\<rparr>))"

lemma rolledI:
  assumes "coreInv w'" "statusOnly w w'" "findTenantOrder t i w = Some ord" "paidBy ord p w w'"
    "findTenantOrder t i w' = Some (ord\<lparr>o_status := rolledStatus (activeShipments i w) (o_status ord), o_paymentStatus := p\<rparr>)"
  shows "rolled t i w w'"
  using assms unfolding rolled_def by blast

lemma rolled_stay:
  assumes "coreInv w" "findTenantOrder t i w = Some ord" "rolledStatus (activeShipments i w) (o_status ord) = o_status ord"
  shows "rolled t i w w"
proof -
  have "ord = ord\<lparr>o_status := o_status ord, o_paymentStatus := o_paymentStatus ord\<rparr>" by simp
  moreover have "paidBy ord (o_paymentStatus ord) w w" by (simp add: paidBy_def)
  ultimately show ?thesis unfolding rolled_def
    using assms statusOnly_refl [of w] by (intro conjI exI [of _ ord] exI [of _ "o_paymentStatus ord"]) simp_all
qed

lemma statusOnly_payment:
  "nextId w \<le> n \<Longrightarrow> statusOnly w (w\<lparr>nextId := n, gatewayLog := g, orders := mapWhere p (o_paymentStatus_update st) (orders w)\<rparr>)"
  by (rule statusOnlyI [where os = "mapWhere p (o_paymentStatus_update st) (orders w)" and es = "orderEvents w" and ps = "published w" and n = n and g = g])
    (simp_all add: map_mapWhere_frame)

text \<open>The capture, if there was one, and the payment status it left.\<close>

definition settled :: "ident \<Rightarrow> order \<Rightarrow> world \<Rightarrow> world \<Rightarrow> bool" where
  "settled i ord w w' \<longleftrightarrow> (\<exists>st n g. nextId w \<le> n \<and> w' = w\<lparr>nextId := n, gatewayLog := g,
      orders := mapWhere (\<lambda>x. o_id x = i) (o_paymentStatus_update st) (orders w)\<rparr> \<and>
    paidBy ord (st (o_paymentStatus ord)) w w')"

lemma settledI:
  assumes "w' = w\<lparr>nextId := n, gatewayLog := g,
      orders := mapWhere (\<lambda>x. o_id x = i) (o_paymentStatus_update st) (orders w)\<rparr>" "nextId w \<le> n"
    "paidBy ord (st (o_paymentStatus ord)) w w'"
  shows "settled i ord w w'"
  using assms unfolding settled_def by blast

lemma settled_keep: "w\<lparr>nextId := n, gatewayLog := g\<rparr> = w\<lparr>nextId := n, gatewayLog := g,
      orders := mapWhere (\<lambda>x. o_id x = i) (o_paymentStatus_update (\<lambda>x. x)) (orders w)\<rparr>"
proof -
  have "o_paymentStatus_update (\<lambda>x. x) r = r" for r :: order by (cases r) simp
  then show ?thesis unfolding mapWhere_def by (intro world.equality) (simp_all add: map_idI)
qed

context payment_gateway
begin

lemma wp_captureOrderPayment:
  assumes found: "findOrder i w = Some ord"
  shows "wp (captureOrderPayment gw i) (\<lambda>_. settled i ord w) (\<lambda>_ _. False) w"
proof (cases "o_paymentReference ord = None \<or> o_paymentReference ord = Some [] \<or> o_paymentStatus ord \<noteq> PaymentStatus.AUTHORIZED")
  case True
  have "settled i ord w w"
    using settledI [OF settled_keep [where n = "nextId w" and g = "gatewayLog w" and w = w], where ord = ord and i = i] by (simp add: paidBy_def)
  then show ?thesis using True found by (auto simp: captureOrderPayment_def wp_bind wp_gets wp_ret split: option.split)
next
  case False
  then obtain ref where ref: "o_paymentReference ord = Some ref" "ref \<noteq> []" "o_paymentStatus ord = PaymentStatus.AUTHORIZED" by auto
  have "wp (bind (capturePayment gw ord (Some ref)) (\<lambda>res. if fst res = CaptureStatus.CAPTURED
      then setPaymentStatus i PaymentStatus.CAPTURED else ret ())) (\<lambda>_. settled i ord w) (\<lambda>_ _. False) w"
    unfolding wp_bind capturePayment_def
  proof (rule wp_gatewayOnly [OF capture_only])
    fix res n g assume n: "nextId w \<le> n"
    have "settled i ord w (w\<lparr>nextId := n, gatewayLog := g\<rparr>)"
      by (rule settledI [OF settled_keep n]) (simp add: paidBy_def ref)
    moreover have "wp (setPaymentStatus i PaymentStatus.CAPTURED) (\<lambda>_. settled i ord w) (\<lambda>_ _. False) (w\<lparr>nextId := n, gatewayLog := g\<rparr>)"
    proof -
      have "settled i ord w (w\<lparr>nextId := n, gatewayLog := g,
          orders := mapWhere (\<lambda>x. o_id x = i) (o_paymentStatus_update (\<lambda>_. PaymentStatus.CAPTURED)) (orders w)\<rparr>)"
        by (rule settledI [OF refl n]) (simp add: paidBy_def ref)
      moreover have "find (\<lambda>x. o_id x = i) (orders w) = Some ord" using found by (simp add: findOrder_def)
      ultimately show ?thesis by (simp add: setPaymentStatus_def wp)
    qed
    ultimately show "wp (if fst res = CaptureStatus.CAPTURED then setPaymentStatus i PaymentStatus.CAPTURED else ret ())
        (\<lambda>_. settled i ord w) (\<lambda>_ _. False) (w\<lparr>nextId := n, gatewayLog := g\<rparr>)" by (simp only: wp_if wp_ret split: if_split) simp
  qed
  then show ?thesis using ref found by (simp add: captureOrderPayment_def wp_bind [of "gets _"] wp_gets)
qed

lemma wp_rollupOrder:
  assumes core: "coreInv w" and ord: "findTenantOrder t i w = Some ord"
  shows "wp (rollupOrder gw t i) (\<lambda>_. rolled t i w) (\<lambda>_ _. False) w"
proof -
  note o = findTenantOrderD [OF ord]
  let ?active = "activeShipments i w"
  have found: "findOrder i w = Some ord" using findOrder_row [OF coreInvD(3) [OF core] o(1)] o(2) by simp
  show ?thesis
  proof (cases "if ?active = [] then None else rollupTarget ?active")
    case None
    then have "rolled t i w w" by (intro rolled_stay [OF core ord]) (simp add: rolledStatus_def)
    then show ?thesis using None by (auto simp: rollupOrder_def wp split: if_splits)
  next
    case (Some target)
    then have tg: "?active \<noteq> []" "rollupTarget ?active = Some target" by (simp_all split: if_splits)
    let ?from = "indexOf ORDER_CHAIN (o_status ord)" and ?to = "indexOf ORDER_CHAIN target"
    show ?thesis
    proof (cases "?from < 0 \<or> ?to \<le> ?from")
      case True
      then have "rolled t i w w" by (intro rolled_stay [OF core ord]) (simp add: rolledStatus_def tg)
      then show ?thesis using True by (auto simp: rollupOrder_def wp tg found Let_def)
    next
      case False
      then have lt: "0 \<le> ?from" "?from < ?to" by simp_all
      note path = chainSteps_legal [OF lt]
      have new: "rolledStatus ?active (o_status ord) = target" using False by (simp add: rolledStatus_def tg)
      let ?ord = "ord\<lparr>o_status := target\<rparr>"
      have tail: "wp (if b then captureOrderPayment gw i else ret ()) (\<lambda>_. rolled t i w) (\<lambda>_ _. False) v"
        if v: "coreInv v" "statusOnly w v" "gatewayLog v = gatewayLog w" "findTenantOrder t i v = Some ?ord" for v b
      proof (cases b)
        case False
        have "?ord = ord\<lparr>o_status := target, o_paymentStatus := o_paymentStatus ord\<rparr>" by simp
        moreover have "paidBy ord (o_paymentStatus ord) w v" using v(3) by (simp add: paidBy_def)
        ultimately have "rolled t i w v" unfolding rolled_def new
          using v ord new by (intro conjI exI [of _ ord] exI [of _ "o_paymentStatus ord"]) simp_all
        then show ?thesis using False by (simp add: wp)
      next
        case True
        note o' = findTenantOrderD [OF v(4)]
        have fv: "findOrder i v = Some ?ord" using findOrder_row [OF coreInvD(3) [OF v(1)] o'(1)] o'(2) by simp
        have "wp (captureOrderPayment gw i) (\<lambda>_. rolled t i w) (\<lambda>_ _. False) v"
        proof (rule wp_mono [OF wp_captureOrderPayment [OF fv]], goal_cases)
          case (1 x w')
          then obtain st n g where w': "nextId v \<le> n" "w' = v\<lparr>nextId := n, gatewayLog := g,
              orders := mapWhere (\<lambda>x. o_id x = i) (o_paymentStatus_update st) (orders v)\<rparr>"
            "paidBy ?ord (st (o_paymentStatus ?ord)) v w'" unfolding settled_def by blast
          have "coreInv w'" unfolding w'(2) by (rule coreInv_payment [OF v(1) w'(1)])
          moreover have "statusOnly w w'" unfolding w'(2) by (rule statusOnly_trans [OF v(2) statusOnly_payment [OF w'(1)]])
          moreover have "paidBy ord (st (o_paymentStatus ord)) w w'" using w'(3) v(3) by (auto simp: paidBy_def split: if_splits)
          moreover have "findTenantOrder t i w' = Some (ord\<lparr>o_status := target, o_paymentStatus := st (o_paymentStatus ord)\<rparr>)"
          proof -
            have "findTenantOrder t i w' = findTenantOrder t i
                (v\<lparr>orders := mapWhere (\<lambda>x. o_id x = i) (o_paymentStatus_update st) (orders v)\<rparr>)"
              by (simp add: findTenantOrder_def w'(2))
            then show ?thesis using v(4) o'(2) by (simp add: findTenantOrder_update)
          qed
          ultimately show ?case using ord rolledI [where p = "st (o_paymentStatus ord)"] new by simp
        qed simp
        then show ?thesis using True by simp
      qed
      have "wp (forEach (chainSteps ?from ?to) (\<lambda>st. andThen (transition t i st (Some ''fulfilment rollup'')) (ret ())))
        (\<lambda>_. wp (if indexOf ORDER_CHAIN OrderStatus.SHIPPED \<le> ?to then captureOrderPayment gw i else ret ())
          (\<lambda>_. rolled t i w) (\<lambda>_ _. False)) (\<lambda>_ _. False) w"
      proof (rule wp_mono [OF wp_transitions [OF core ord path(1)]], goal_cases)
        case (1 x v)
        then show ?case unfolding path(2) by (intro tail) blast+
      qed
      then show ?thesis
        using False by (simp add: rollupOrder_def wp_bind wp_gets wp_orThrow wp_andThen tg found Let_def del: chain_index)
    qed
  qed
qed

end

section \<open>Shipments, orders and allocations\<close>

text \<open>
  Identifiers of shipments are distinct; the order of a shipment exists and belongs to its tenant; so
  do the order and the tenant of an allocation attached to it.
\<close>

definition shipInv :: "world \<Rightarrow> bool" where
  "shipInv w \<longleftrightarrow> distinct (map sh_id (shipments w)) \<and>
    (\<forall>s \<in> set (shipments w). sh_id s < nextId w \<and> (sh_orderId s, sh_tenantId s) \<in> set (orderIds w)) \<and>
    (\<forall>a \<in> set (allocations w). \<forall>s \<in> set (shipments w). al_shipmentId a = Some (sh_id s) \<longrightarrow>
      al_orderId a = sh_orderId s \<and> al_tenantId a = sh_tenantId s)"

lemma shipInv_cong:
  assumes inv: "shipInv w" and n: "nextId w \<le> nextId w'" and os: "orderIds w' = orderIds w"
    and sh: "map (\<lambda>s. (sh_id s, sh_orderId s, sh_tenantId s)) (shipments w') = map (\<lambda>s. (sh_id s, sh_orderId s, sh_tenantId s)) (shipments w)"
    and al: "map (\<lambda>a. (al_shipmentId a, al_orderId a, al_tenantId a)) (allocations w') =
      map (\<lambda>a. (al_shipmentId a, al_orderId a, al_tenantId a)) (allocations w)"
  shows "shipInv w'"
proof -
  have ids: "map sh_id (shipments w') = map sh_id (shipments w)"
    using arg_cong [OF sh, of "map fst"] by (simp add: comp_def)
  have rows: "(\<lambda>s. (sh_id s, sh_orderId s, sh_tenantId s)) ` set (shipments w') = (\<lambda>s. (sh_id s, sh_orderId s, sh_tenantId s)) ` set (shipments w)"
    using arg_cong [OF sh, of set] by simp
  have als: "(\<lambda>a. (al_shipmentId a, al_orderId a, al_tenantId a)) ` set (allocations w') = (\<lambda>a. (al_shipmentId a, al_orderId a, al_tenantId a)) ` set (allocations w)"
    using arg_cong [OF al, of set] by simp
  have s: "\<exists>r \<in> set (shipments w). sh_id r = sh_id s \<and> sh_orderId r = sh_orderId s \<and> sh_tenantId r = sh_tenantId s"
    if "s \<in> set (shipments w')" for s
    using imageI [OF that, of "\<lambda>s. (sh_id s, sh_orderId s, sh_tenantId s)"] unfolding rows by auto
  have a: "\<exists>r \<in> set (allocations w). al_shipmentId r = al_shipmentId a \<and> al_orderId r = al_orderId a \<and> al_tenantId r = al_tenantId a"
    if "a \<in> set (allocations w')" for a
    using imageI [OF that, of "\<lambda>a. (al_shipmentId a, al_orderId a, al_tenantId a)"] unfolding als by auto
  show ?thesis
    unfolding shipInv_def ids os
  proof (intro conjI ballI impI)
    show "distinct (map sh_id (shipments w))" using inv by (simp add: shipInv_def)
    fix x assume x: "x \<in> set (shipments w')"
    obtain r where r: "r \<in> set (shipments w)" "sh_id r = sh_id x" "sh_orderId r = sh_orderId x" "sh_tenantId r = sh_tenantId x"
      using s [OF x] by blast
    then show "sh_id x < nextId w'" "(sh_orderId x, sh_tenantId x) \<in> set (orderIds w)"
      using inv n unfolding shipInv_def by fastforce+
    fix b assume b: "b \<in> set (allocations w')" and link: "al_shipmentId b = Some (sh_id x)"
    obtain q where q: "q \<in> set (allocations w)" "al_shipmentId q = al_shipmentId b" "al_orderId q = al_orderId b" "al_tenantId q = al_tenantId b"
      using a [OF b] by blast
    then have "al_orderId q = sh_orderId r \<and> al_tenantId q = sh_tenantId r"
      using inv r(1,2) link unfolding shipInv_def by simp
    then show "al_orderId b = sh_orderId x" "al_tenantId b = sh_tenantId x" using q r by simp_all
  qed
qed

definition findShipment :: "ident \<Rightarrow> ident \<Rightarrow> world \<Rightarrow> shipment option" where
  "findShipment t i w = find (\<lambda>s. sh_id s = i \<and> sh_tenantId s = t) (shipments w)"

lemma wp_requireShipment [wp]: "wp (requireShipment t i) Q E = (\<lambda>w. case findShipment t i w of
    None \<Rightarrow> E (BadRequest ''Shipment not found'') w | Some s \<Rightarrow> Q s w)"
  by (simp add: fun_eq_iff requireShipment_def wp findShipment_def split: option.split)

lemma findShipmentD:
  assumes "findShipment t i w = Some sh"
  shows "sh \<in> set (shipments w)" "sh_id sh = i" "sh_tenantId sh = t"
  using assms by (auto simp: findShipment_def find_Some_iff)

lemma find_distinct:
  "distinct (map k xs) \<Longrightarrow> x \<in> set xs \<Longrightarrow> find (\<lambda>y. k y = k x) xs = Some x"
  by (induction xs) auto

lemma findShipment_facts:
  assumes inv: "shipInv w" and sh: "findShipment t i w = Some sh"
  shows "find (\<lambda>s. sh_id s = i) (shipments w) = Some sh"
    and "\<exists>ord. findTenantOrder t (sh_orderId sh) w = Some ord"
    and "\<forall>a \<in> set (pickedOf i w). al_tenantId a = t"
proof -
  note s = findShipmentD [OF sh]
  have "distinct (map sh_id (shipments w))" using inv by (simp add: shipInv_def)
  then show "find (\<lambda>s. sh_id s = i) (shipments w) = Some sh" using find_distinct [of sh_id _ sh] s(1,2) by fastforce
  have "(sh_orderId sh, t) \<in> set (orderIds w)" using inv s by (auto simp: shipInv_def)
  then have "\<exists>x \<in> set (orders w). o_id x = sh_orderId sh \<and> o_tenantId x = t" by (auto simp: orderIds_def)
  then show "\<exists>ord. findTenantOrder t (sh_orderId sh) w = Some ord"
    unfolding findTenantOrder_def by (metis (mono_tags, lifting) find_None_iff not_None_eq)
  show "\<forall>a \<in> set (pickedOf i w). al_tenantId a = t" using inv s by (auto simp: shipInv_def pickedOf_def)
qed

section \<open>Stock leaves the warehouse\<close>

definition orderRolled :: "ident \<Rightarrow> ident \<Rightarrow> world \<Rightarrow> world \<Rightarrow> bool" where
  "orderRolled t i w w' \<longleftrightarrow> (\<exists>ord p. findTenantOrder t i w = Some ord \<and> paidBy ord p w w' \<and>
    findTenantOrder t i w' = Some (ord\<lparr>o_status := rolledStatus (activeShipments i w') (o_status ord), o_paymentStatus := p\<rparr>))"

definition stockLeft :: "ident \<Rightarrow> (shipment \<Rightarrow> shipment) \<Rightarrow> world \<Rightarrow> world \<Rightarrow> bool" where
  "stockLeft sid f w w' \<longleftrightarrow> safetyOf w' = safetyOf w \<and>
    (\<forall>k. balance w' k = balance w k + Buckets (- pickedUnits sid w k) 0 (- pickedUnits sid w k) 0 0) \<and>
    allocations w' = mapWhere (\<lambda>a. al_shipmentId a = Some sid \<and> al_status a = AllocationStatus.PICKED)
      (al_status_update (\<lambda>_. AllocationStatus.SHIPPED)) (allocations w) \<and>
    shipments w' = mapWhere (\<lambda>s. sh_id s = sid) (\<lambda>s. (f s)\<lparr>sh_updatedAt := clock w\<rparr>) (shipments w) \<and>
    reservations w' = reservations w"

definition leftWarehouse :: "ident \<Rightarrow> ident \<Rightarrow> ident \<Rightarrow> (shipment \<Rightarrow> shipment) \<Rightarrow> world \<Rightarrow> world \<Rightarrow> bool" where
  "leftWarehouse t i sid f w w' \<longleftrightarrow> coreInv w' \<and> shipInv w' \<and> stockLeft sid f w w' \<and> orderRolled t i w w'"

text \<open>The state between the transaction and the roll-up.\<close>

definition beforeRollup :: "ident \<Rightarrow> ident \<Rightarrow> (world \<Rightarrow> bool) \<Rightarrow> world \<Rightarrow> world \<Rightarrow> bool" where
  "beforeRollup t i P w v \<longleftrightarrow> coreInv v \<and> shipInv v \<and> P v \<and> findTenantOrder t i v = findTenantOrder t i w \<and>
    gatewayLog v = gatewayLog w"

text \<open>A condition on the state that invalidations and changes of status do not touch.\<close>

definition stockView :: "(world \<Rightarrow> bool) \<Rightarrow> bool" where
  "stockView P \<longleftrightarrow> (\<forall>v w. snapshots w = snapshots v \<longrightarrow> allocations w = allocations v \<longrightarrow> shipments w = shipments v \<longrightarrow>
    reservations w = reservations v \<longrightarrow> P v \<longrightarrow> P w)"

lemma stockView_left: "stockView (stockLeft sid f w)"
  unfolding stockView_def stockLeft_def by (metis view_cong(2,3))

lemma shipInv_invalidated: "shipInv w \<Longrightarrow> shipInv (invalidated t s w)"
  by (rule shipInv_cong) (simp_all add: orderIds_def)

lemma beforeRollup_invalidated:
  assumes "stockView P" "beforeRollup t i P w v"
  shows "beforeRollup t i P w (invalidated t' s v)"
proof -
  have "P (invalidated t' s v)" using assms unfolding stockView_def beforeRollup_def by (metis invalidated_sel(1,10-12))
  then show ?thesis using assms(2)
    by (simp add: beforeRollup_def coreInv_invalidated shipInv_invalidated findTenantOrder_def)
qed

lemma rolled_after:
  assumes P: "stockView P" and v: "beforeRollup t i P w v" and r: "rolled t i v w'"
  shows "coreInv w' \<and> shipInv w' \<and> P w' \<and> orderRolled t i w w'"
proof -
  obtain ord p where o: "findTenantOrder t i v = Some ord" "paidBy ord p v w'"
    "findTenantOrder t i w' = Some (ord\<lparr>o_status := rolledStatus (activeShipments i v) (o_status ord), o_paymentStatus := p\<rparr>)"
    and core: "coreInv w'" and only: "statusOnly v w'" using r unfolding rolled_def by blast
  note sel = statusOnly_sel [OF only]
  have vv: "shipInv v" "P v" "findTenantOrder t i v = findTenantOrder t i w" "gatewayLog v = gatewayLog w"
    using v by (simp_all add: beforeRollup_def)
  have "shipInv w'" by (rule shipInv_cong [OF vv(1) sel(9) sel(13)]) (simp_all add: sel)
  moreover have "P w'" using P vv(2) sel unfolding stockView_def by blast
  moreover have "activeShipments i v = activeShipments i w'" by (simp add: activeShipments_def sel)
  moreover have "paidBy ord p w w'" using o(2) vv(4) by (auto simp: paidBy_def split: if_splits)
  ultimately show ?thesis using core o vv(3) unfolding orderRolled_def by auto
qed

context payment_gateway
begin

lemma wp_afterwards:
  assumes "stockView P" "beforeRollup t i P w v" "findTenantOrder t i w = Some ord"
  shows "wp (andThen (forEach xs (invalidate t)) (andThen (rollupOrder gw t i) (ret u)))
    (\<lambda>s' w'. s' = u \<and> coreInv w' \<and> shipInv w' \<and> P w' \<and> orderRolled t i w w') (\<lambda>_ _. False) v"
  unfolding wp_andThen wp_ret
proof (rule wp_mono [OF wp_forEach [where I = "beforeRollup t i P w" and E = "\<lambda>_ _. False"]], goal_cases)
  case (3 x v')
  then have "coreInv v'" "findTenantOrder t i v' = Some ord" using assms(3) by (simp_all add: beforeRollup_def)
  from wp_rollupOrder [OF this] show ?case
    by (rule wp_mono) (use rolled_after [OF assms(1) 3(2)] in simp_all)
qed (use assms beforeRollup_invalidated in \<open>simp_all add: wp\<close>)

lemma wp_leave:
  assumes inv: "coreInv w" "shipInv w" and sh: "findShipment t sid w = Some sh"
    and f: "\<And>s. sh_id (f s) = sh_id s" "\<And>s. sh_orderId (f s) = sh_orderId s" "\<And>s. sh_tenantId (f s) = sh_tenantId s"
  shows "wp (bind (transaction (depleteTx t sid (pickedOf sid w) f))
      (\<lambda>u. andThen (forEach xs (invalidate t)) (andThen (rollupOrder gw t (sh_orderId sh)) (ret u))))
    (\<lambda>s' w'. depletable sid w \<and> s' = (f sh)\<lparr>sh_updatedAt := clock w\<rparr> \<and> leftWarehouse t (sh_orderId sh) sid f w w')
    (\<lambda>e w'. w' = w \<and> \<not> depletable sid w \<and> (\<exists>m. e = Conflict m)) w"
  unfolding wp_bind wp_transaction
proof (rule wp_mono [OF wp_depleteTx [OF coreInvD(1,2) [OF inv(1)] findShipment_facts(3,1) [OF inv(2) sh]]], goal_cases)
  case (1 u v)
  then have can: "depletable sid w" and u: "u = (f sh)\<lparr>sh_updatedAt := clock w\<rparr>" and d: "depleted sid f w v" by simp_all
  obtain ord where ord: "findTenantOrder t (sh_orderId sh) w = Some ord" using findShipment_facts(2) [OF inv(2) sh] by blast
  have rows: "orders v = orders w" "orderLines v = orderLines w" "orderEvents v = orderEvents w" "nextId w \<le> nextId v"
    "gatewayLog v = gatewayLog w" and al: "allocations v = mapWhere (\<lambda>a. al_shipmentId a = Some sid \<and> al_status a = AllocationStatus.PICKED)
      (al_status_update (\<lambda>_. AllocationStatus.SHIPPED)) (allocations w)"
    and shs: "shipments v = mapWhere (\<lambda>s. sh_id s = sid) (\<lambda>s. (f s)\<lparr>sh_updatedAt := clock w\<rparr>) (shipments w)"
    using d by (simp_all add: depleted_def)
  have "orderInv v"
    by (rule orderInv_cong [OF coreInvD(3) [OF inv(1)] rows(1-3) _ rows(4)]) (simp add: al map_mapWhere_frame)
  then have "coreInv v" using d by (simp add: depleted_def coreInv_def)
  moreover have "shipInv v"
    by (rule shipInv_cong [OF inv(2) rows(4)]) (simp_all add: rows orderIds_def al shs map_mapWhere_frame f)
  moreover have "stockLeft sid f w v" using d by (simp add: depleted_def stockLeft_def)
  ultimately have "beforeRollup t (sh_orderId sh) (stockLeft sid f w) w v"
    using rows by (simp add: beforeRollup_def findTenantOrder_def)
  from wp_afterwards [OF stockView_left this ord] show ?case
    by (rule wp_mono) (simp_all add: can u leftWarehouse_def)
next
  case (2 e w')
  then show ?case by simp
qed

end

section \<open>The requests\<close>

definition shipmentIs :: "ident \<Rightarrow> ident \<Rightarrow> ShipmentStatus \<Rightarrow> world \<Rightarrow> bool" where
  "shipmentIs t sid st w \<longleftrightarrow> (\<exists>sh. findShipment t sid w = Some sh \<and> sh_status sh = st)"

definition orderOf :: "ident \<Rightarrow> ident \<Rightarrow> world \<Rightarrow> ident" where
  "orderOf t sid w = (case findShipment t sid w of Some sh \<Rightarrow> sh_orderId sh | None \<Rightarrow> 0)"

text \<open>What \<open>ship\<close> and \<open>pick\<close> write on the row of the shipment.\<close>

definition sentOut :: "string option \<Rightarrow> string \<Rightarrow> shipment \<Rightarrow> shipment" where
  "sentOut carrier trk s = s\<lparr>sh_status := ShipmentStatus.SHIPPED,
     sh_carrier := Some (case carrier of Some c \<Rightarrow> c | None \<Rightarrow> ''DEMO-CARRIER''), sh_trackingNumber := Some trk\<rparr>"

text \<open>A status written on the shipment, the allocations changed by \<open>g\<close>, and the order rolled up.\<close>

definition shipmentMoved :: "ident \<Rightarrow> ShipmentStatus \<Rightarrow> (allocation \<Rightarrow> bool) \<Rightarrow> AllocationStatus \<Rightarrow> world \<Rightarrow> world \<Rightarrow> bool" where
  "shipmentMoved sid st p ast w w' \<longleftrightarrow> snapshots w' = snapshots w \<and> reservations w' = reservations w \<and>
    allocations w' = mapWhere p (al_status_update (\<lambda>_. ast)) (allocations w) \<and>
    shipments w' = mapWhere (\<lambda>s. sh_id s = sid) (\<lambda>s. s\<lparr>sh_status := st, sh_updatedAt := clock w\<rparr>) (shipments w)"

lemma stockView_moved: "stockView (shipmentMoved sid st p ast w)"
  by (simp add: stockView_def shipmentMoved_def)

lemma commitInv_repicked:
  assumes "commitInv w" "\<And>a. p a \<Longrightarrow> openAllocation a"
  shows "commitInv (w\<lparr>allocations := mapWhere p (al_status_update (\<lambda>_. AllocationStatus.PICKED)) (allocations w)\<rparr>)"
proof -
  let ?f = "al_status_update (\<lambda>_. AllocationStatus.PICKED)"
  let ?w = "w\<lparr>allocations := mapWhere p ?f (allocations w)\<rparr>"
  have "commitRows ?w"
    by (rule commitRows_update_allocations [OF commitInvD(2) [OF assms(1)], where P = p and f = ?f]) simp_all
  moreover have "committed ?w k = committed w k" for k
  proof -
    have "sumWhere (\<lambda>a. al_key a = k \<and> openAllocation a) al_quantity (mapWhere p ?f as) =
        sumWhere (\<lambda>a. al_key a = k \<and> openAllocation a) al_quantity as" for as
    proof (induction as)
      case (Cons a as)
      have "p a \<Longrightarrow> openAllocation a" by (rule assms(2))
      moreover have "openAllocation (?f a)" by (simp add: openAllocation_def)
      ultimately show ?case using Cons by (auto simp: al_key_def)
    qed simp
    then show ?thesis by (simp add: committed_def)
  qed
  moreover have "held ?w = held w" by (rule held_cong) simp
  moreover have "balance ?w = balance w" "snapshotsOk ?w = snapshotsOk w" by simp_all
  ultimately show ?thesis using assms(1) by (simp add: commitInv_def fun_eq_iff)
qed

context payment_gateway
begin

lemma wp_ship_eq:
  "wp (ship gw t sid carrier) Q E w = (case findShipment t sid w of
      None \<Rightarrow> E (BadRequest ''Shipment not found'') w
    | Some sh \<Rightarrow> if sh_status sh \<noteq> ShipmentStatus.PICKED then E (BadRequest ''Shipment must be PICKED to ship'') w
        else wp (bind (transaction (depleteTx t sid (pickedOf sid w)
              (sentOut carrier (''TRK-'' @ toUpperCase (take 12 (uuidOf w (nextId w)))))))
            (\<lambda>u. andThen (forEach (uniq (map al_skuId (pickedOf sid w))) (invalidate t))
              (andThen (rollupOrder gw t (sh_orderId sh)) (ret u)))) Q E (w\<lparr>nextId := Suc (nextId w)\<rparr>))"
  by (simp add: ship_def wp upperRef_def sentOut_def [abs_def] split: option.split)

lemma wp_ship:
  assumes inv: "coreInv w" "shipInv w"
  shows "wp (ship gw t sid carrier)
    (\<lambda>s w'. shipmentIs t sid ShipmentStatus.PICKED w \<and> depletable sid w \<and>
      (\<exists>trk. leftWarehouse t (orderOf t sid w) sid (sentOut carrier trk) w w'))
    (\<lambda>e w'. (\<exists>n. w' = w\<lparr>nextId := n\<rparr>) \<and> \<not> (shipmentIs t sid ShipmentStatus.PICKED w \<and> depletable sid w)) w"
    (is "wp _ ?Q ?E w")
proof -
  have same: "\<exists>n. w = w\<lparr>nextId := n\<rparr>" by (rule exI [of _ "nextId w"]) simp
  let ?w = "w\<lparr>nextId := Suc (nextId w)\<rparr>"
  have iv: "coreInv ?w" "shipInv ?w"
    using coreInv_nextId [OF inv(1)] shipInv_cong [OF inv(2), of ?w] by (simp_all add: orderIds_def)
  have units: "pickedUnits sid ?w = pickedUnits sid w" "pickedOf sid ?w = pickedOf sid w"
    by (simp_all add: pickedUnits_def pickedOf_def fun_eq_iff)
  have dep: "depletable sid ?w = depletable sid w" by (simp add: depletable_def units)
  have left: "leftWarehouse t i sid f ?w w' = leftWarehouse t i sid f w w'" for i f w'
    by (simp add: leftWarehouse_def stockLeft_def units orderRolled_def findTenantOrder_def paidBy_def)
  have "wp (bind (transaction (depleteTx t sid (pickedOf sid w) (sentOut carrier trk)))
      (\<lambda>u. andThen (forEach xs (invalidate t)) (andThen (rollupOrder gw t (sh_orderId sh)) (ret u)))) ?Q ?E ?w"
    if sh: "findShipment t sid w = Some sh" "sh_status sh = ShipmentStatus.PICKED" for sh trk xs
  proof -
    have found: "findShipment t sid ?w = Some sh" using sh(1) by (simp add: findShipment_def)
    show ?thesis
      by (rule wp_mono [OF wp_leave [OF iv found, unfolded units dep left, where f = "sentOut carrier trk"]])
        (use sh in \<open>auto simp: sentOut_def shipmentIs_def orderOf_def\<close>)
  qed
  then show ?thesis unfolding wp_ship_eq using same by (auto simp: shipmentIs_def split: option.split)
qed

lemma wp_pickUp:
  assumes inv: "coreInv w" "shipInv w"
  shows "wp (pickUp gw t sid)
    (\<lambda>s w'. shipmentIs t sid READY_FOR_PICKUP w \<and> depletable sid w \<and>
      leftWarehouse t (orderOf t sid w) sid (sh_status_update (\<lambda>_. PICKED_UP)) w w')
    (\<lambda>e w'. w' = w \<and> \<not> (shipmentIs t sid READY_FOR_PICKUP w \<and> depletable sid w)) w"
    (is "wp _ ?Q ?E w")
proof -
  have "wp (bind (transaction (depleteTx t sid (pickedOf sid w) (sh_status_update (\<lambda>_. PICKED_UP))))
      (\<lambda>u. andThen (forEach xs (invalidate t)) (andThen (rollupOrder gw t (sh_orderId sh)) (ret u)))) ?Q ?E w"
    if sh: "findShipment t sid w = Some sh" "sh_status sh = READY_FOR_PICKUP" for sh xs
    by (rule wp_mono [OF wp_leave [OF inv sh(1), where f = "sh_status_update (\<lambda>_. PICKED_UP)"]])
      (use sh in \<open>auto simp: shipmentIs_def orderOf_def\<close>)
  then show ?thesis
    unfolding pickUp_def wp_bind [of "requireShipment _ _"] wp_requireShipment wp_andThen [of "throwIf _ _"] wp_throwIf
      wp_bind [of "gets _"] wp_gets
    by (auto simp: shipmentIs_def split: option.split)
qed

end

text \<open>A status written on the row of the shipment, with nothing leaving the warehouse.\<close>

lemma beforeRollup_moved:
  assumes inv: "coreInv w" "shipInv w" and al: "\<And>a. p a \<Longrightarrow> al_status a = AllocationStatus.ALLOCATED"
  shows "beforeRollup t i (shipmentMoved sid st p AllocationStatus.PICKED w) w
    (w\<lparr>allocations := mapWhere p (al_status_update (\<lambda>_. AllocationStatus.PICKED)) (allocations w),
       shipments := mapWhere (\<lambda>s. sh_id s = sid) (\<lambda>s. s\<lparr>sh_status := st, sh_updatedAt := clock w\<rparr>) (shipments w)\<rparr>)"
proof -
  let ?v = "w\<lparr>allocations := mapWhere p (al_status_update (\<lambda>_. AllocationStatus.PICKED)) (allocations w)\<rparr>"
  have "commitInv ?v" by (rule commitInv_repicked [OF coreInvD(2) [OF inv(1)]]) (use al in \<open>simp add: openAllocation_def\<close>)
  moreover have "stockInv ?v" using coreInvD(1) [OF inv(1)] by simp
  moreover have "orderInv ?v"
    by (rule orderInv_cong [OF coreInvD(3) [OF inv(1)]]) (simp_all add: map_mapWhere_frame)
  ultimately have "coreInv ?v" by (simp add: coreInv_def)
  moreover have "shipInv (?v\<lparr>shipments := mapWhere (\<lambda>s. sh_id s = sid) (\<lambda>s. s\<lparr>sh_status := st, sh_updatedAt := clock w\<rparr>) (shipments w)\<rparr>)"
    by (rule shipInv_cong [OF inv(2)]) (simp_all add: map_mapWhere_frame orderIds_def)
  ultimately show ?thesis by (simp add: beforeRollup_def shipmentMoved_def findTenantOrder_def)
qed

definition toPick :: "ident \<Rightarrow> allocation \<Rightarrow> bool" where
  "toPick sid a \<longleftrightarrow> al_shipmentId a = Some sid \<and> al_status a = AllocationStatus.ALLOCATED"

definition pickable :: "ident \<Rightarrow> ident \<Rightarrow> world \<Rightarrow> bool" where
  "pickable t sid w \<longleftrightarrow> shipmentIs t sid ShipmentStatus.PENDING w \<and>
    (\<exists>ord. findTenantOrder t (orderOf t sid w) w = Some ord \<and> o_status ord \<in> {OrderStatus.RELEASED, OrderStatus.PICKED})"

text \<open>The step happened: the row, the allocations and the order say so.\<close>

definition stepTaken :: "ident \<Rightarrow> ident \<Rightarrow> ident \<Rightarrow> ShipmentStatus \<Rightarrow> (allocation \<Rightarrow> bool) \<Rightarrow> world \<Rightarrow> world \<Rightarrow> bool" where
  "stepTaken t i sid st p w w' \<longleftrightarrow> coreInv w' \<and> shipInv w' \<and> shipmentMoved sid st p AllocationStatus.PICKED w w' \<and>
    orderRolled t i w w'"

context payment_gateway
begin

lemma wp_step:
  assumes inv: "coreInv w" "shipInv w" and sh: "findShipment t sid w = Some sh"
    and al: "\<And>a. p a \<Longrightarrow> al_status a = AllocationStatus.ALLOCATED"
  shows "wp (andThen (rollupOrder gw t (sh_orderId sh)) (ret u)) (\<lambda>s' w'. s' = u \<and> stepTaken t (sh_orderId sh) sid st p w w')
    (\<lambda>_ _. False)
    (w\<lparr>allocations := mapWhere p (al_status_update (\<lambda>_. AllocationStatus.PICKED)) (allocations w),
       shipments := mapWhere (\<lambda>s. sh_id s = sid) (\<lambda>s. s\<lparr>sh_status := st, sh_updatedAt := clock w\<rparr>) (shipments w)\<rparr>)"
proof -
  obtain ord where ord: "findTenantOrder t (sh_orderId sh) w = Some ord" using findShipment_facts(2) [OF inv(2) sh] by blast
  from wp_afterwards [OF stockView_moved beforeRollup_moved [OF inv al] ord, where xs = "[]"] show ?thesis
    unfolding forEach.simps wp_andThen [of "ret ()"] wp_ret
    by (rule wp_mono) (simp_all add: stepTaken_def)
qed

lemma mapWhere_never: "mapWhere (\<lambda>_. False) f xs = xs"
  by (rule mapWhere_id) simp

lemma wp_statusStep:
  assumes inv: "coreInv w" "shipInv w" and sh: "findShipment t sid w = Some sh"
  shows "wp (bind (updateShipment sid (sh_status_update (\<lambda>_. st))) (\<lambda>u. andThen (rollupOrder gw t (sh_orderId sh)) (ret u)))
    (\<lambda>s' w'. stepTaken t (sh_orderId sh) sid st (\<lambda>_. False) w w') (\<lambda>_ _. False) w"
proof -
  note row = findShipment_facts(1) [OF inv(2) sh]
  have st: "wp (andThen (rollupOrder gw t (sh_orderId sh)) (ret u)) (\<lambda>s' w'. s' = u \<and> stepTaken t (sh_orderId sh) sid st (\<lambda>_. False) w w')
    (\<lambda>_ _. False)
    (w\<lparr>shipments := mapWhere (\<lambda>s. sh_id s = sid) (\<lambda>s. s\<lparr>sh_status := st, sh_updatedAt := clock w\<rparr>) (shipments w)\<rparr>)" for u
    using wp_step [OF inv sh, of "\<lambda>_. False" u st] by (simp add: mapWhere_never)
  show ?thesis
    unfolding wp_bind wp_updateShipment row option.case
    by (rule wp_mono [OF st]) simp_all
qed

lemma wp_deliver:
  assumes inv: "coreInv w" "shipInv w"
  shows "wp (deliver gw t sid)
    (\<lambda>s w'. shipmentIs t sid ShipmentStatus.SHIPPED w \<and>
      stepTaken t (orderOf t sid w) sid ShipmentStatus.DELIVERED (\<lambda>_. False) w w')
    (\<lambda>e w'. w' = w \<and> \<not> shipmentIs t sid ShipmentStatus.SHIPPED w) w"
    (is "wp _ ?Q ?E w")
proof -
  have "wp (bind (updateShipment sid (sh_status_update (\<lambda>_. ShipmentStatus.DELIVERED)))
      (\<lambda>u. andThen (rollupOrder gw t (sh_orderId sh)) (ret u))) ?Q ?E w"
    if sh: "findShipment t sid w = Some sh" "sh_status sh = ShipmentStatus.SHIPPED" for sh
    by (rule wp_mono [OF wp_statusStep [OF inv sh(1)]]) (use sh in \<open>auto simp: shipmentIs_def orderOf_def\<close>)
  then show ?thesis
    unfolding deliver_def wp_bind [of "requireShipment _ _"] wp_requireShipment wp_andThen [of "throwIf _ _"] wp_throwIf
    by (auto simp: shipmentIs_def split: option.split)
qed

lemma wp_markReady:
  assumes inv: "coreInv w" "shipInv w"
  shows "wp (markReadyForPickup gw t sid)
    (\<lambda>s w'. shipmentIs t sid ShipmentStatus.PICKED w \<and>
      stepTaken t (orderOf t sid w) sid READY_FOR_PICKUP (\<lambda>_. False) w w')
    (\<lambda>e w'. w' = w \<and> \<not> shipmentIs t sid ShipmentStatus.PICKED w) w"
    (is "wp _ ?Q ?E w")
proof -
  have "wp (bind (updateShipment sid (sh_status_update (\<lambda>_. READY_FOR_PICKUP)))
      (\<lambda>u. andThen (rollupOrder gw t (sh_orderId sh)) (ret u))) ?Q ?E w"
    if sh: "findShipment t sid w = Some sh" "sh_status sh = ShipmentStatus.PICKED" for sh
    by (rule wp_mono [OF wp_statusStep [OF inv sh(1)]]) (use sh in \<open>auto simp: shipmentIs_def orderOf_def\<close>)
  then show ?thesis
    unfolding markReadyForPickup_def wp_bind [of "requireShipment _ _"] wp_requireShipment wp_andThen [of "throwIf _ _"] wp_throwIf
    by (auto simp: shipmentIs_def split: option.split)
qed

lemma wp_pick:
  assumes inv: "coreInv w" "shipInv w"
  shows "wp (pick gw t sid)
    (\<lambda>s w'. pickable t sid w \<and> stepTaken t (orderOf t sid w) sid ShipmentStatus.PICKED (toPick sid) w w')
    (\<lambda>e w'. w' = w \<and> \<not> pickable t sid w) w"
    (is "wp _ ?Q ?E w")
proof (cases "shipmentIs t sid ShipmentStatus.PENDING w")
  case False
  then show ?thesis
    unfolding pick_def wp_bind [of "requireShipment _ _"] wp_requireShipment wp_andThen [of "throwIf _ _"] wp_throwIf
    by (auto simp: shipmentIs_def pickable_def split: option.split)
next
  case True
  then obtain sh where sh: "findShipment t sid w = Some sh" "sh_status sh = ShipmentStatus.PENDING" by (auto simp: shipmentIs_def)
  obtain ord where ord: "findTenantOrder t (sh_orderId sh) w = Some ord" using findShipment_facts(2) [OF inv(2) sh(1)] by blast
  note o = findTenantOrderD [OF ord]
  have found: "findOrder (sh_orderId sh) w = Some ord" using findOrder_row [OF coreInvD(3) [OF inv(1)] o(1)] o(2) by simp
  have can: "pickable t sid w = (o_status ord \<in> {OrderStatus.RELEASED, OrderStatus.PICKED})"
    using True sh ord by (simp add: pickable_def orderOf_def)
  note row = findShipment_facts(1) [OF inv(2) sh(1)]
  have st: "wp (andThen (rollupOrder gw t (sh_orderId sh)) (ret u)) (\<lambda>_ w'. stepTaken t (sh_orderId sh) sid ShipmentStatus.PICKED (toPick sid) w w')
    (\<lambda>_ _. False)
    (w\<lparr>allocations := mapWhere (\<lambda>a. al_shipmentId a = Some sid \<and> al_status a = AllocationStatus.ALLOCATED)
         (al_status_update (\<lambda>_. AllocationStatus.PICKED)) (allocations w),
      shipments := mapWhere (\<lambda>s. sh_id s = sid) (\<lambda>s. s\<lparr>sh_status := ShipmentStatus.PICKED, sh_updatedAt := clock w\<rparr>) (shipments w)\<rparr>)" for u
    by (rule wp_mono [OF wp_step [OF inv sh(1), of "toPick sid", unfolded toPick_def [abs_def]]]) (simp_all add: toPick_def [abs_def])
  have tx: "wp (bind (transaction
       (andThen (updateMany allocations allocations_update
          (\<lambda>a. al_shipmentId a = Some sid \<and> al_status a = AllocationStatus.ALLOCATED)
          (al_status_update (\<lambda>_. AllocationStatus.PICKED)))
        (updateShipment sid (sh_status_update (\<lambda>_. ShipmentStatus.PICKED)))))
      (\<lambda>u. andThen (rollupOrder gw t (sh_orderId sh)) (ret u)))
    (\<lambda>_ w'. stepTaken t (sh_orderId sh) sid ShipmentStatus.PICKED (toPick sid) w w') (\<lambda>_ _. False) w"
    unfolding wp_bind wp_transaction wp_andThen [of "updateMany _ _ _ _"] wp_updateMany wp_updateShipment
    using st row by simp
  show ?thesis
    unfolding pick_def wp_bind [of "requireShipment _ _"] wp_requireShipment wp_andThen [of "throwIf _ _"] wp_throwIf
      wp_bind [of "gets _"] wp_gets wp_bind [of "orThrow _ _"] wp_orThrow
    using tx sh found can by (simp add: orderOf_def)
qed

end

section \<open>Properties\<close>

lemma ship_spec:
  assumes "coreInv w" "shipInv w"
  shows "case ship (selectProvider pcfg api) t sid carrier w of
      (Inr s, w') \<Rightarrow> shipmentIs t sid ShipmentStatus.PICKED w \<and> depletable sid w \<and>
        (\<exists>trk. leftWarehouse t (orderOf t sid w) sid (sentOut carrier trk) w w')
    | (Inl e, w') \<Rightarrow> (\<exists>n. w' = w\<lparr>nextId := n\<rparr>) \<and> \<not> (shipmentIs t sid ShipmentStatus.PICKED w \<and> depletable sid w)"
  using selected.wp_ship [OF assms, of pcfg api t sid carrier] by (auto simp: wp_iff split: prod.split sum.split)

text \<open>
  Property C10.  Shipping works exactly on a PICKED shipment whose picked units are on hand at their
  locations.  Then each balance loses exactly those units from on hand and from allocated, the
  picked allocations and the shipment become SHIPPED, the carrier and a tracking number are
  recorded, the order is rolled up (its status follows the least progressed shipment that is not
  cancelled, and its payment may be captured), and all invariants hold.  Otherwise nothing
  happened but the drawing of an identifier.
\<close>

theorem ship_exact:
  assumes "coreInv w" "shipInv w"
  shows "case ship (selectProvider pcfg api) t sid carrier w of
      (Inr s, w') \<Rightarrow> shipmentIs t sid ShipmentStatus.PICKED w \<and> depletable sid w \<and>
        (\<exists>trk. leftWarehouse t (orderOf t sid w) sid (sentOut carrier trk) w w')
    | (Inl e, w') \<Rightarrow> (\<exists>n. w' = w\<lparr>nextId := n\<rparr>) \<and> \<not> (shipmentIs t sid ShipmentStatus.PICKED w \<and> depletable sid w)"
  by (rule ship_spec [OF assms])

text \<open>
  Picking works exactly on a PENDING shipment whose order is RELEASED or PICKED.  Then its
  allocations become PICKED and so does the shipment, the order is rolled up, balances and holds
  stay, and all invariants hold.  Otherwise nothing happened.
\<close>

lemma pick_exact:
  assumes "coreInv w" "shipInv w"
  shows "case pick (selectProvider pcfg api) t sid w of
      (Inr s, w') \<Rightarrow> pickable t sid w \<and> stepTaken t (orderOf t sid w) sid ShipmentStatus.PICKED (toPick sid) w w'
    | (Inl e, w') \<Rightarrow> w' = w \<and> \<not> pickable t sid w"
  using selected.wp_pick [OF assms, of pcfg api t sid] by (auto simp: wp_iff split: prod.split sum.split)

text \<open>The order once its last shipment has left.\<close>

lemma rolledStatus_shipped:
  assumes ex: "s \<in> set active" "SHIPMENT_RANK (sh_status s) = 2" and all: "\<forall>s \<in> set active. 2 \<le> SHIPMENT_RANK (sh_status s)"
    and st: "st \<in> {OrderStatus.ALLOCATED, OrderStatus.RELEASED, OrderStatus.PICKED}"
  shows "rolledStatus active st = OrderStatus.SHIPPED"
proof -
  have "Min (set (map (\<lambda>s. SHIPMENT_RANK (sh_status s)) active)) = 2"
    by (rule Min_eqI) (use ex all in \<open>auto intro: rev_image_eqI\<close>)
  then have "rollupTarget active = Some OrderStatus.SHIPPED" by (simp add: rollupTarget_def)
  then show ?thesis using ex(1) st by (auto simp: rolledStatus_def)
qed

text \<open>
  Property C23.  When every other active shipment of the order has left already, shipping the last one
  (PICKED, with its units on hand) succeeds and brings the order to SHIPPED, through whatever
  statuses are in between.
\<close>

theorem last_shipment_ships_order:
  assumes "coreInv w" "shipInv w" "shipmentIs t sid ShipmentStatus.PICKED w" "depletable sid w"
    and "findTenantOrder t (orderOf t sid w) w = Some ord"
    and "o_status ord \<in> {OrderStatus.ALLOCATED, OrderStatus.RELEASED, OrderStatus.PICKED}"
    and "\<forall>s \<in> set (activeShipments (orderOf t sid w) w). sh_id s \<noteq> sid \<longrightarrow> 2 \<le> SHIPMENT_RANK (sh_status s)"
  shows "\<exists>s w' ord'. ship (selectProvider pcfg api) t sid carrier w = (Inr s, w') \<and>
    findTenantOrder t (orderOf t sid w) w' = Some ord' \<and> o_status ord' = OrderStatus.SHIPPED"
proof (cases "ship (selectProvider pcfg api) t sid carrier w")
  case (Pair r w')
  note law = ship_spec [OF assms(1,2), where pcfg = pcfg and api = api and t = t and sid = sid and carrier = carrier, unfolded Pair]
  obtain s where r: "r = Inr s" using law assms(3,4) by (cases r) auto
  then obtain trk where left: "leftWarehouse t (orderOf t sid w) sid (sentOut carrier trk) w w'" using law by auto
  let ?i = "orderOf t sid w" and ?g = "\<lambda>s. (sentOut carrier trk s)\<lparr>sh_updatedAt := clock w\<rparr>"
  obtain sh where sh: "findShipment t sid w = Some sh" "sh_status sh = ShipmentStatus.PICKED" using assms(3) by (auto simp: shipmentIs_def)
  note d = findShipmentD [OF sh(1)]
  have shs: "shipments w' = mapWhere (\<lambda>s. sh_id s = sid) ?g (shipments w)" using left by (simp add: leftWarehouse_def stockLeft_def)
  have act: "activeShipments ?i w' = mapWhere (\<lambda>s. sh_id s = sid) ?g (activeShipments ?i w)"
  proof -
    have pk: "sh_status s = ShipmentStatus.PICKED" if "s \<in> set (shipments w)" "sh_id s = sid" for s
      using find_distinct [of sh_id "shipments w" s] findShipment_facts(1) [OF assms(2) sh(1)] that assms(2) sh(2) by (auto simp: shipInv_def)
    have "filter (\<lambda>s. sh_status s \<noteq> ShipmentStatus.CANCELLED) (filter (\<lambda>s. sh_orderId s = ?i) (mapWhere (\<lambda>s. sh_id s = sid) ?g xs)) =
      mapWhere (\<lambda>s. sh_id s = sid) ?g (filter (\<lambda>s. sh_status s \<noteq> ShipmentStatus.CANCELLED) (filter (\<lambda>s. sh_orderId s = ?i) xs))"
      if "\<forall>s \<in> set xs. sh_id s = sid \<longrightarrow> sh_status s = ShipmentStatus.PICKED" for xs
      using that by (induction xs) (auto simp: sentOut_def)
    then show ?thesis unfolding activeShipments_def shs using pk by blast
  qed
  have rank: "SHIPMENT_RANK (sh_status (?g sh)) = 2" by (simp add: sentOut_def)
  have "sh \<in> set (activeShipments ?i w)" using d sh by (simp add: activeShipments_def orderOf_def)
  then have "?g sh \<in> set (activeShipments ?i w')" unfolding act set_mapWhere using d by auto
  moreover have "\<forall>s \<in> set (activeShipments ?i w'). 2 \<le> SHIPMENT_RANK (sh_status s)"
    unfolding act using assms(7) by (auto simp: set_mapWhere sentOut_def)
  ultimately have "rolledStatus (activeShipments ?i w') (o_status ord) = OrderStatus.SHIPPED"
    using rolledStatus_shipped [OF _ rank _ assms(6)] by blast
  then show ?thesis using left assms(5) Pair r by (auto simp: leftWarehouse_def orderRolled_def)
qed

text \<open>
  Goods leave once: after a shipment has been shipped, shipping it again, picking it, staging it
  for pick-up or handing it over fails and takes no stock.
\<close>

lemma ship_once:
  assumes "coreInv w" "shipInv w" "ship (selectProvider pcfg api) t sid carrier w = (Inr s, w')"
    and "again \<in> {ship (selectProvider pcfg api) t sid c, pick (selectProvider pcfg api) t sid,
      markReadyForPickup (selectProvider pcfg api) t sid, pickUp (selectProvider pcfg api) t sid}"
  shows "\<exists>e n. again w' = (Inl e, w'\<lparr>nextId := n\<rparr>)"
proof -
  have law: "shipmentIs t sid ShipmentStatus.PICKED w" "\<exists>trk. leftWarehouse t (orderOf t sid w) sid (sentOut carrier trk) w w'"
    using ship_spec [OF assms(1,2), where pcfg = pcfg and api = api and t = t and sid = sid and carrier = carrier] by (simp_all add: assms(3))
  then obtain trk where left: "leftWarehouse t (orderOf t sid w) sid (sentOut carrier trk) w w'" by blast
  have inv: "coreInv w'" "shipInv w'" using left by (simp_all add: leftWarehouse_def)
  have same: "w' = w'\<lparr>nextId := nextId w'\<rparr>" by simp
  have shs: "shipments w' = mapWhere (\<lambda>s. sh_id s = sid) (\<lambda>s. (sentOut carrier trk s)\<lparr>sh_updatedAt := clock w\<rparr>) (shipments w)"
    using left by (simp add: leftWarehouse_def stockLeft_def)
  have gone: "sh_status s = ShipmentStatus.SHIPPED" if "findShipment t sid w' = Some s" for s
    using findShipmentD(1) [OF that] unfolding shs
  proof (cases rule: mapWhereE)
    case (updated q)
    then show ?thesis by (simp add: sentOut_def)
  next
    case kept
    then show ?thesis using findShipmentD(2) [OF that] by simp
  qed
  then have no: "\<not> shipmentIs t sid st w'" if "st \<noteq> ShipmentStatus.SHIPPED" for st using that by (auto simp: shipmentIs_def)
  have fails: "\<exists>e n. m w' = (Inl e, w'\<lparr>nextId := n\<rparr>)" if "wp m (\<lambda>_ _. False) (\<lambda>e v. \<exists>n. v = w'\<lparr>nextId := n\<rparr>) w'" for m :: "(world, shipment) op"
    using that by (cases "m w'"; cases "fst (m w')") (auto simp: wp_iff)
  have stay: "\<exists>n. w' = w'\<lparr>nextId := n\<rparr>" using same by blast
  show ?thesis
    using assms(4)
  proof (elim insertE emptyE)
    assume "again = ship (selectProvider pcfg api) t sid c"
    then show ?thesis by (intro fails, hypsubst) (rule wp_mono [OF selected.wp_ship [OF inv]], use no in auto)
  next
    assume "again = pick (selectProvider pcfg api) t sid"
    then show ?thesis by (intro fails, hypsubst) (rule wp_mono [OF selected.wp_pick [OF inv]], use no stay in \<open>auto simp: pickable_def\<close>)
  next
    assume "again = markReadyForPickup (selectProvider pcfg api) t sid"
    then show ?thesis by (intro fails, hypsubst) (rule wp_mono [OF selected.wp_markReady [OF inv]], use no stay in auto)
  next
    assume "again = pickUp (selectProvider pcfg api) t sid"
    then show ?thesis by (intro fails, hypsubst) (rule wp_mono [OF selected.wp_pickUp [OF inv]], use no stay in auto)
  qed
qed

text \<open>Witnesses: the demo order at a stage of its life, with one shipment of its four units.\<close>

definition demoTrail :: "OrderStatus list \<Rightarrow> orderEvent list" where
  "demoTrail path = map (\<lambda>(a, b). \<lparr>oe_orderId = 5, oe_fromStatus = a, oe_toStatus = b, oe_note = None, oe_createdAt = 0\<rparr>)
     (zip (None # map Some (butlast (OrderStatus.CREATED # path))) (OrderStatus.CREATED # path))"

lemma demoTrail_ok:
  assumes "legalPath OrderStatus.CREATED path"
  shows "historyOk (demoTrail path) (last (OrderStatus.CREATED # path))" "filter (\<lambda>e. oe_orderId e = 5) (demoTrail path) = demoTrail path"
    "\<forall>e \<in> set (demoTrail path). oe_orderId e = 5"
proof -
  have len: "length (None # map Some (butlast (OrderStatus.CREATED # path))) = length (OrderStatus.CREATED # path)" by simp
  have "map oe_toStatus (demoTrail path) = map snd (zip (None # map Some (butlast (OrderStatus.CREATED # path))) (OrderStatus.CREATED # path))"
    unfolding demoTrail_def map_map by (rule map_cong) auto
  moreover have "map oe_fromStatus (demoTrail path) = map fst (zip (None # map Some (butlast (OrderStatus.CREATED # path))) (OrderStatus.CREATED # path))"
    unfolding demoTrail_def map_map by (rule map_cong) auto
  ultimately show "historyOk (demoTrail path) (last (OrderStatus.CREATED # path))"
    unfolding historyOk_def map_fst_zip [OF len] map_snd_zip [OF len] by (intro exI [of _ path] conjI assms) simp_all
  show all: "\<forall>e \<in> set (demoTrail path). oe_orderId e = 5" unfolding demoTrail_def by auto
  then show "filter (\<lambda>e. oe_orderId e = 5) (demoTrail path) = demoTrail path" by (simp add: filter_id_conv)
qed

definition demoStage :: "OrderStatus list \<Rightarrow> ShipmentStatus \<Rightarrow> AllocationStatus \<Rightarrow> world" where
  "demoStage path sst ast = demoShipped
    \<lparr>orders := [demoOrder\<lparr>o_status := last (OrderStatus.CREATED # path)\<rparr>],
     orderEvents := demoTrail path,
     allocations := [demoPick\<lparr>al_status := ast, al_shipmentId := Some 4\<rparr>],
     shipments := [\<lparr>sh_id = 4, sh_tenantId = 7, sh_orderId = 5, sh_locationId = 3, sh_fulfillmentType = SHIP_FROM_DC,
       sh_status = sst, sh_trackingNumber = None, sh_carrier = None, sh_fulfillmentProvider = None,
       sh_externalJobId = None, sh_createdAt = 0, sh_updatedAt = 0\<rparr>]\<rparr>"

lemma demoStage_inv:
  assumes path: "legalPath OrderStatus.CREATED path" and al: "ast \<in> {AllocationStatus.ALLOCATED, AllocationStatus.PICKED}"
  shows "coreInv (demoStage path sst ast)" "shipInv (demoStage path sst ast)"
proof -
  let ?w = "demoStage path sst ast"
  have rows: "snapshots ?w = snapshots demoShipped" "reservations ?w = reservations demoShipped" "nextId ?w = 10"
    "allocations demoShipped = [demoPick]" "nextId demoShipped = 10" "ledger ?w = ledger demoShipped" "orderLines ?w = orderLines demoShipped"
    and here: "allocations ?w = [demoPick\<lparr>al_status := ast, al_shipmentId := Some 4\<rparr>]"
    by (simp_all add: demoStage_def demoShipped_def demoWorld_sel)
  note core = coreInvD [OF demoShipped_core]
  have st: "stockInv ?w" by (rule stockInv_frame [OF core(1)]) (simp_all add: rows)
  have "committed ?w k = committed demoShipped k" for k
    using al by (auto simp: committed_def here rows demoPick_def al_key_def openAllocation_def)
  moreover have "commitRows ?w" using commitInvD(2) [OF core(2)] by (simp add: commitRows_def here rows demoPick_def)
  moreover have "held ?w = held demoShipped" by (rule held_cong) (simp add: rows)
  moreover have "balance ?w = balance demoShipped" by (rule view_cong(2)) (rule rows)
  ultimately have cm: "commitInv ?w" using core(2) stockInvD(1) [OF st] by (simp add: commitInv_def fun_eq_iff)
  let ?st = "last (OrderStatus.CREATED # path)"
  have hist: "historyOk (history ?w 5) ?st"
    using demoTrail_ok [OF path] by (simp add: history_def demoStage_def del: last.simps)
  have book: "orders ?w = [demoOrder\<lparr>o_status := ?st\<rparr>]" "orderEvents ?w = demoTrail path" "orderLines ?w = [demoLine]"
    "o_id demoOrder = 5" "o_tenantId demoOrder = 7" "al_orderId demoPick = 5" "al_tenantId demoPick = 7"
    by (simp_all add: demoStage_def demoShipped_def demoOrder_def demoPick_def del: last.simps)
  have "orderRows ?w" by (simp add: orderRows_def book here rows demoLine_def del: last.simps)
  then have "orderInv ?w" using hist demoTrail_ok(3) [OF path] by (simp add: orderInv_def book del: last.simps)
  then show "coreInv ?w" using st cm by (simp add: coreInv_def)
  have "shipments ?w = [\<lparr>sh_id = 4, sh_tenantId = 7, sh_orderId = 5, sh_locationId = 3, sh_fulfillmentType = SHIP_FROM_DC,
       sh_status = sst, sh_trackingNumber = None, sh_carrier = None, sh_fulfillmentProvider = None,
       sh_externalJobId = None, sh_createdAt = 0, sh_updatedAt = 0\<rparr>]"
    by (simp add: demoStage_def)
  then show "shipInv ?w" by (simp add: shipInv_def here orderIds_def rows book del: last.simps)
qed

lemma demoStage_sel:
  "shipmentIs 7 4 sst (demoStage path sst ast)" "orderOf 7 4 (demoStage path sst ast) = 5"
  "findTenantOrder 7 5 (demoStage path sst ast) = Some (demoOrder\<lparr>o_status := last (OrderStatus.CREATED # path)\<rparr>)"
  "depletable 4 (demoStage path sst ast)"
  "sh_id ` set (activeShipments i (demoStage path sst ast)) \<subseteq> {4}"
proof -
  let ?w = "demoStage path sst ast"
  show "shipmentIs 7 4 sst ?w" "orderOf 7 4 ?w = 5"
    by (simp_all add: shipmentIs_def orderOf_def findShipment_def demoStage_def)
  show "findTenantOrder 7 5 ?w = Some (demoOrder\<lparr>o_status := last (OrderStatus.CREATED # path)\<rparr>)"
    by (simp add: findTenantOrder_def demoStage_def demoOrder_def del: last.simps)
  have bal: "balance ?w k = (if k = (7, 2, 3) then Buckets 10 0 4 0 0 else 0)" for k
    by (auto simp: balance_def findSnapshot_def demoStage_def demoShipped_def sn_key_def)
  have "allocations ?w = [demoPick\<lparr>al_status := ast, al_shipmentId := Some 4\<rparr>]" by (simp add: demoStage_def)
  then have "pickedUnits 4 ?w k \<le> bk_onHand (balance ?w k)" for k
    unfolding bal by (auto simp: pickedUnits_def pickedOf_def al_key_def demoPick_def)
  then show "depletable 4 ?w" unfolding depletable_def by blast
  have "sh_id ` set (shipments ?w) \<subseteq> {4}" by (simp add: demoStage_def)
  then show "sh_id ` set (activeShipments i ?w) \<subseteq> {4}" by (auto simp: activeShipments_def)
qed

definition pickedPath :: "OrderStatus list" where
  "pickedPath = [OrderStatus.VALIDATED, OrderStatus.ALLOCATED, OrderStatus.RELEASED, OrderStatus.PICKED]"

lemma pickedPath_legal: "legalPath OrderStatus.CREATED pickedPath" "last (OrderStatus.CREATED # pickedPath) = OrderStatus.PICKED"
  by (simp_all add: pickedPath_def canTransition_def)

definition demoPacked :: world where
  "demoPacked = demoStage pickedPath ShipmentStatus.PICKED AllocationStatus.PICKED"

lemma demoPacked_facts:
  "coreInv demoPacked" "shipInv demoPacked" "shipmentIs 7 4 ShipmentStatus.PICKED demoPacked" "depletable 4 demoPacked"
  "orderOf 7 4 demoPacked = 5" "findTenantOrder 7 5 demoPacked = Some (demoOrder\<lparr>o_status := OrderStatus.PICKED\<rparr>)"
  "sh_id ` set (activeShipments 5 demoPacked) \<subseteq> {4}"
  unfolding demoPacked_def
  using demoStage_inv [OF pickedPath_legal(1)] demoStage_sel [where path = pickedPath] pickedPath_legal(2) by auto

lemma ship_exact_witness:
  "\<exists>s w'. ship (selectProvider demoGateway demoApi) 7 4 None demoPacked = (Inr s, w') \<and> coreInv w' \<and>
    balance w' (7, 2, 3) = balance demoPacked (7, 2, 3) + Buckets (- pickedUnits 4 demoPacked (7, 2, 3)) 0 (- pickedUnits 4 demoPacked (7, 2, 3)) 0 0"
proof (cases "ship (selectProvider demoGateway demoApi) 7 4 None demoPacked")
  case (Pair r w')
  then show ?thesis
    using ship_exact [OF demoPacked_facts(1,2), where pcfg = demoGateway and api = demoApi and t = 7 and sid = 4 and carrier = None]
      demoPacked_facts(3,4) by (cases r) (auto simp: leftWarehouse_def stockLeft_def)
qed

lemma pick_exact_witness:
  "\<exists>s w'. pick (selectProvider demoGateway demoApi) 7 4 (demoStage [OrderStatus.VALIDATED, OrderStatus.ALLOCATED, OrderStatus.RELEASED]
      ShipmentStatus.PENDING AllocationStatus.ALLOCATED) = (Inr s, w') \<and> coreInv w'"
proof -
  let ?w = "demoStage [OrderStatus.VALIDATED, OrderStatus.ALLOCATED, OrderStatus.RELEASED] ShipmentStatus.PENDING AllocationStatus.ALLOCATED"
  have inv: "coreInv ?w" "shipInv ?w" by (rule demoStage_inv; simp add: canTransition_def)+
  have can: "pickable 7 4 ?w" by (simp add: pickable_def demoStage_sel)
  show ?thesis
  proof (cases "pick (selectProvider demoGateway demoApi) 7 4 ?w")
    case (Pair r w')
    then show ?thesis
      using pick_exact [OF inv, where pcfg = demoGateway and api = demoApi and t = 7 and sid = 4] can
      by (cases r) (auto simp: stepTaken_def)
  qed
qed

lemma last_shipment_ships_order_witness:
  "\<exists>s w' ord'. ship (selectProvider demoGateway demoApi) 7 4 None demoPacked = (Inr s, w') \<and>
    findTenantOrder 7 5 w' = Some ord' \<and> o_status ord' = OrderStatus.SHIPPED"
proof -
  note law = last_shipment_ships_order [OF demoPacked_facts(1-4), where pcfg = demoGateway and api = demoApi and carrier = None, unfolded demoPacked_facts(5), OF demoPacked_facts(6)]
  show ?thesis by (rule law) (use demoPacked_facts(7) in auto)
qed

lemma ship_once_witness:
  "\<exists>s w' e n. ship (selectProvider demoGateway demoApi) 7 4 None demoPacked = (Inr s, w') \<and>
    ship (selectProvider demoGateway demoApi) 7 4 None w' = (Inl e, w'\<lparr>nextId := n\<rparr>)"
proof -
  obtain s w' where s: "ship (selectProvider demoGateway demoApi) 7 4 None demoPacked = (Inr s, w')"
    using selected.wp_ship [OF demoPacked_facts(1,2), of demoGateway demoApi 7 4 None] demoPacked_facts(3,4)
    by (cases "ship (selectProvider demoGateway demoApi) 7 4 None demoPacked"; cases "fst (ship (selectProvider demoGateway demoApi) 7 4 None demoPacked)")
      (auto simp: wp_iff)
  then show ?thesis using ship_once [OF demoPacked_facts(1,2) s, where again = "ship (selectProvider demoGateway demoApi) 7 4 None" and c = None] by blast
qed

end
