(* ===== verification/Returns.thy ===== *)
theory Returns
  imports Fulfillment
begin

text \<open>
  backend/src/fulfillment/returns.service.ts: raising an RMA against a delivered order, receiving the
  goods back into stock, marking the order RETURNED once everything is back, and refunding.
\<close>

section \<open>Requests\<close>

record returnLineDto =
  td_orderLineId :: ident
  td_quantity :: int
  td_restock :: "bool option"
  td_locationId :: "ident option"

record createReturnDto =
  tr_orderId :: ident
  tr_reason :: "string option"
  tr_lines :: "returnLineDto list"

record returnQuery = pageQuery +
  tq_status :: "ReturnStatus option"
  tq_orderId :: "ident option"

definition returnMatches :: "ident \<Rightarrow> returnQuery \<Rightarrow> returnRow \<Rightarrow> bool" where
  "returnMatches tenantId q r \<longleftrightarrow> rt_tenantId r = tenantId \<and>
    (case tq_status q of None \<Rightarrow> True | Some st \<Rightarrow> rt_status r = st) \<and>
    (case tq_orderId q of None \<Rightarrow> True | Some i \<Rightarrow> rt_orderId r = i)"

definition linesOfReturn :: "ident \<Rightarrow> world \<Rightarrow> returnLine list" where
  "linesOfReturn i w = filter (\<lambda>l. rl_returnId l = i) (returnLines w)"

definition list_returns :: "ident \<Rightarrow> returnQuery \<Rightarrow> world \<Rightarrow> (returnRow \<times> returnLine list) page" where
  "list_returns tenantId q w =
    paginate (pageQuery.truncate q)
      (map (\<lambda>r. (r, linesOfReturn (rt_id r) w))
        (jsSort (\<lambda>a b. rt_createdAt b - rt_createdAt a) (filter (returnMatches tenantId q) (returnRows w))))"

section \<open>Raising an RMA\<close>

text \<open>The check of one line: it is a line of the order and within its quantity.\<close>

definition checkReturnLine :: "orderLine list \<Rightarrow> returnLineDto \<Rightarrow> (world, unit) op" where
  "checkReturnLine lines rl =
    (case find (\<lambda>l. ol_id l = td_orderLineId rl) lines of
       None \<Rightarrow> throw (BadRequest ''Order line not on order'')
     | Some line \<Rightarrow> throwIf (td_quantity rl < 1 \<or> ol_quantity line < td_quantity rl) (BadRequest ''Return qty invalid''))"

definition newReturn :: "ident \<Rightarrow> createReturnDto \<Rightarrow> ident \<Rightarrow> string \<Rightarrow> ident \<Rightarrow> int \<Rightarrow> returnRow" where
  "newReturn tenantId dto orderId rma i ts =
    \<lparr>rt_id = i, rt_tenantId = tenantId, rt_orderId = orderId, rt_status = REQUESTED, rt_reason = tr_reason dto,
     rt_rma = rma, rt_createdAt = ts\<rparr>"

definition newReturnLine :: "ident \<Rightarrow> ident \<Rightarrow> returnLineDto \<Rightarrow> ident \<Rightarrow> returnLine" where
  "newReturnLine returnId skuId rl i =
    \<lparr>rl_id = i, rl_returnId = returnId, rl_orderLineId = td_orderLineId rl, rl_skuId = skuId,
     rl_quantity = td_quantity rl, rl_restock = (case td_restock rl of Some b \<Rightarrow> b | None \<Rightarrow> True),
     rl_locationId = td_locationId rl\<rparr>"

definition createReturnLine :: "orderLine list \<Rightarrow> ident \<Rightarrow> returnLineDto \<Rightarrow> (world, unit) op" where
  "createReturnLine lines returnId rl =
    bind (orThrow (find (\<lambda>l. ol_id l = td_orderLineId rl) lines) (OtherError ''TypeError'')) (\<lambda>line.
    bind freshId (\<lambda>i.
    andThen (createRow returnLines returnLines_update (newReturnLine returnId (ol_skuId line) rl i)) (ret ())))"

text \<open>The insertion of the return with its lines; the code of the RMA is unique within the tenant.\<close>

definition createReturnTx :: "ident \<Rightarrow> createReturnDto \<Rightarrow> ident \<Rightarrow> orderLine list \<Rightarrow> string \<Rightarrow> (world, returnRow \<times> returnLine list) op" where
  "createReturnTx tenantId dto orderId lines rma =
    bind freshId (\<lambda>i. bind now (\<lambda>ts.
    bind (gets (\<lambda>w. list_ex (\<lambda>r. rt_tenantId r = tenantId \<and> rt_rma r = rma) (returnRows w))) (\<lambda>dup.
    andThen (throwIf dup (PrismaKnown ''P2002'' None))
    (bind (createRow returnRows returnRows_update (newReturn tenantId dto orderId rma i ts)) (\<lambda>created.
    andThen (forEach (tr_lines dto) (createReturnLine lines i))
    (bind (gets (linesOfReturn i)) (\<lambda>ls. ret (created, ls))))))))"

definition create_return :: "ident \<Rightarrow> createReturnDto \<Rightarrow> (world, returnRow \<times> returnLine list) op" where
  "create_return tenantId dto =
    bind (gets (findTenantOrder tenantId (tr_orderId dto))) (\<lambda>found.
    bind (orThrow found (BadRequest ''Order not found'')) (\<lambda>ord.
    andThen (throwIf (o_status ord \<noteq> OrderStatus.DELIVERED) (BadRequest ''Only DELIVERED orders can be returned''))
    (bind (gets (linesOf (o_id ord))) (\<lambda>lines.
    andThen (forEach (tr_lines dto) (checkReturnLine lines))
    (bind (upperRef ''RMA-'' 8) (\<lambda>rma.
    transaction (createReturnTx tenantId dto (o_id ord) lines rma)))))))"

section \<open>Receiving the goods\<close>

definition defaultRestockLocation :: "ident \<Rightarrow> ident \<Rightarrow> world \<Rightarrow> ident option" where
  "defaultRestockLocation tenantId orderId w =
    (case jsSort (\<lambda>a b. sh_createdAt a - sh_createdAt b) (filter (\<lambda>s. sh_orderId s = orderId) (shipments w)) of
       s # _ \<Rightarrow> Some (sh_locationId s)
     | [] \<Rightarrow>
         (case jsSort (\<lambda>a b. lo_fulfillmentPriority a - lo_fulfillmentPriority b)
             (filter (\<lambda>l. lo_tenantId l = tenantId \<and> lo_active l) (locations w)) of
            l # _ \<Rightarrow> Some (lo_id l) | [] \<Rightarrow> None))"

definition restockParams :: "ident \<Rightarrow> ident \<Rightarrow> returnLine \<Rightarrow> ident \<Rightarrow> movementParams" where
  "restockParams tenantId returnId l locationId =
    (baseMovement tenantId (rl_skuId l) locationId RETURN (noDeltas\<lparr>bd_onHand := Some (rl_quantity l)\<rparr>))
      \<lparr>mv_referenceType := Some ''return'', mv_referenceId := Some returnId, mv_reason := Some ''rma-restock''\<rparr>"

definition restockLine :: "ident \<Rightarrow> ident \<Rightarrow> ident option \<Rightarrow> returnLine \<Rightarrow> (world, unit) op" where
  "restockLine tenantId returnId fallback l =
    (if \<not> rl_restock l then ret ()
     else bind (orThrow (orElse (rl_locationId l) fallback) (BadRequest ''No restock location'')) (\<lambda>loc.
       andThen (applyWithin (restockParams tenantId returnId l loc)) (ret ())))"

text \<open>The units of a SKU that came back in completed returns of the order, and those ordered.\<close>

definition returnedUnits :: "ident \<Rightarrow> ident \<Rightarrow> world \<Rightarrow> int" where
  "returnedUnits orderId skuId w =
    sumWhere (\<lambda>l. rl_skuId l = skuId \<and>
      list_ex (\<lambda>r. rt_id r = rl_returnId l \<and> rt_orderId r = orderId \<and> rt_status r = COMPLETED) (returnRows w))
      rl_quantity (returnLines w)"

definition orderedUnits :: "ident \<Rightarrow> ident \<Rightarrow> world \<Rightarrow> int" where
  "orderedUnits orderId skuId w = sumWhere (\<lambda>l. ol_skuId l = skuId) ol_quantity (linesOf orderId w)"

definition fullyReturned :: "ident \<Rightarrow> world \<Rightarrow> bool" where
  "fullyReturned orderId w \<longleftrightarrow>
    list_all (\<lambda>l. orderedUnits orderId (ol_skuId l) w \<le> returnedUnits orderId (ol_skuId l) w) (linesOf orderId w)"

definition maybeMarkOrderReturned :: "ident \<Rightarrow> ident \<Rightarrow> (world, unit) op" where
  "maybeMarkOrderReturned tenantId orderId =
    bind (gets (findOrder orderId)) (\<lambda>found.
    bind (orThrow found (PrismaKnown ''P2025'' None)) (\<lambda>ord.
    if o_status ord \<noteq> OrderStatus.DELIVERED then ret ()
    else bind (gets (fullyReturned orderId)) (\<lambda>full.
      if full then andThen (transition tenantId orderId OrderStatus.RETURNED (Some ''all lines returned'')) (ret ())
      else ret ())))"

definition refundMinor :: "orderLine list \<Rightarrow> returnLine list \<Rightarrow> int" where
  "refundMinor lines rls = sum_list (map (\<lambda>l.
    (case find (\<lambda>k. ol_id k = rl_orderLineId l) (rev lines) of Some k \<Rightarrow> ol_unitPrice k | None \<Rightarrow> 0) * rl_quantity l) rls)"

definition refundReturn :: "paymentProvider \<Rightarrow> ident \<Rightarrow> returnRow \<Rightarrow> returnLine list \<Rightarrow> (world, unit) op" where
  "refundReturn gw tenantId rma rls =
    bind (gets (findTenantOrder tenantId (rt_orderId rma))) (\<lambda>found.
    case found of
      None \<Rightarrow> ret ()
    | Some ord \<Rightarrow>
        if o_paymentReference ord \<in> {None, Some []} \<or> o_paymentStatus ord \<noteq> PaymentStatus.CAPTURED then ret ()
        else bind (gets (linesOf (o_id ord))) (\<lambda>lines.
          if refundMinor lines rls \<le> 0 then ret ()
          else bind (refundPayment gw (ord, lines) (Some (refundMinor lines rls))) (\<lambda>res.
            if fst res \<noteq> RefundStatus.REFUNDED then ret ()
            else if o_status ord = OrderStatus.RETURNED then setPaymentStatus (o_id ord) PaymentStatus.REFUNDED
            else ret ())))"

definition receive_return :: "paymentProvider \<Rightarrow> ident \<Rightarrow> ident \<Rightarrow> (world, returnRow \<times> returnLine list) op" where
  "receive_return gw tenantId returnId =
    bind (gets (\<lambda>w. find (\<lambda>r. rt_id r = returnId \<and> rt_tenantId r = tenantId) (returnRows w))) (\<lambda>found.
    bind (orThrow found (BadRequest ''Return not found'')) (\<lambda>rma.
    andThen (throwIf (rt_status rma \<noteq> REQUESTED) (BadRequest ''Return must be REQUESTED to receive''))
    (bind (gets (linesOfReturn (rt_id rma))) (\<lambda>rls.
    bind (gets (defaultRestockLocation tenantId (rt_orderId rma))) (\<lambda>fallback.
    andThen (transaction
      (andThen (forEach rls (restockLine tenantId (rt_id rma) fallback))
      (andThen (updateRow returnRows returnRows_update (\<lambda>r. rt_id r = rt_id rma) (rt_status_update (\<lambda>_. COMPLETED))) (ret ()))))
    (andThen (forEach (uniq (map rl_skuId rls)) (invalidate tenantId))
    (andThen (maybeMarkOrderReturned tenantId (rt_orderId rma))
    (andThen (refundReturn gw tenantId rma rls)
    (bind (gets (\<lambda>w. find (\<lambda>r. rt_id r = rt_id rma) (returnRows w))) (\<lambda>found.
    bind (orThrow found (PrismaKnown ''P2025'' None)) (\<lambda>row.
    bind (gets (linesOfReturn (rt_id row))) (\<lambda>ls. ret (row, ls)))))))))))))"

section \<open>Invariant\<close>

text \<open>
  Identifiers of returns are distinct, the order of a return exists and belongs to its tenant, and
  return lines have positive quantities.
\<close>

definition retInv :: "world \<Rightarrow> bool" where
  "retInv w \<longleftrightarrow> distinct (map rt_id (returnRows w)) \<and>
    (\<forall>r \<in> set (returnRows w). rt_id r < nextId w \<and> (rt_orderId r, rt_tenantId r) \<in> set (orderIds w)) \<and>
    (\<forall>l \<in> set (returnLines w). 0 < rl_quantity l \<and> rl_returnId l < nextId w)"

lemma retInv_cong:
  assumes inv: "retInv w" and n: "nextId w \<le> nextId w'" and os: "orderIds w' = orderIds w"
    and rt: "map (\<lambda>r. (rt_id r, rt_orderId r, rt_tenantId r)) (returnRows w') = map (\<lambda>r. (rt_id r, rt_orderId r, rt_tenantId r)) (returnRows w)"
    and rl: "returnLines w' = returnLines w"
  shows "retInv w'"
proof -
  have ids: "map rt_id (returnRows w') = map rt_id (returnRows w)"
    using arg_cong [OF rt, of "map fst"] by (simp add: comp_def)
  have rows: "(\<lambda>r. (rt_id r, rt_orderId r, rt_tenantId r)) ` set (returnRows w') = (\<lambda>r. (rt_id r, rt_orderId r, rt_tenantId r)) ` set (returnRows w)"
    using arg_cong [OF rt, of set] by simp
  have "rt_id r < nextId w' \<and> (rt_orderId r, rt_tenantId r) \<in> set (orderIds w)" if r: "r \<in> set (returnRows w')" for r
  proof -
    obtain q where q: "q \<in> set (returnRows w)" "rt_id q = rt_id r" "rt_orderId q = rt_orderId r" "rt_tenantId q = rt_tenantId r"
      using imageI [OF r, of "\<lambda>r. (rt_id r, rt_orderId r, rt_tenantId r)"] unfolding rows by auto
    then show ?thesis using inv n unfolding retInv_def by (metis less_le_trans)
  qed
  moreover have "rl_returnId l < nextId w'" if "l \<in> set (returnLines w)" for l
    using that inv n unfolding retInv_def by (metis less_le_trans)
  ultimately show ?thesis using inv unfolding retInv_def ids os rl by simp
qed

section \<open>Restocking\<close>

definition restockAt :: "ident option \<Rightarrow> returnLine \<Rightarrow> ident option" where
  "restockAt fb l = orElse (rl_locationId l) fb"

definition restockKey :: "ident \<Rightarrow> ident option \<Rightarrow> returnLine \<Rightarrow> stockKey option" where
  "restockKey t fb l = (if rl_restock l then map_option (\<lambda>loc. (t, rl_skuId l, loc)) (restockAt fb l) else None)"

definition restockUnits :: "ident \<Rightarrow> ident option \<Rightarrow> returnLine list \<Rightarrow> stockKey \<Rightarrow> int" where
  "restockUnits t fb ls k = sumWhere (\<lambda>l. restockKey t fb l = Some k) rl_quantity ls"

text \<open>A line that cannot go back: no node for it, or a position that cannot be booked.\<close>

definition unplaceable :: "ident \<Rightarrow> ident \<Rightarrow> ident option \<Rightarrow> world \<Rightarrow> returnLine \<Rightarrow> bool" where
  "unplaceable t rid fb w l \<longleftrightarrow> rl_restock l \<and>
    (case restockAt fb l of None \<Rightarrow> True | Some loc \<Rightarrow> \<not> stockable (restockParams t rid l loc) w)"

lemma restockParams_simps [simp]:
  "mv_key (restockParams t i l loc) = (t, rl_skuId l, loc)"
  "deltaOf (mv_deltas (restockParams t i l loc)) = Buckets (rl_quantity l) 0 0 0 0"
  "\<not> mv_requireAvailable (restockParams t i l loc)"
  by (simp_all add: restockParams_def)

lemma keeps_commit_restock: "keeps commitInv (forEach ls (restockLine t rid fb))"
  unfolding restockLine_def
  by (intro keepsI keeps_commit_applyWithin) simp_all

lemma stockable_moved:
  assumes m: "moved p w w1" and p: "stockable p w"
  shows "stockable q w1 = stockable q w"
proof -
  have "refsExist a b c w1 = refsExist a b c w" for a b c
    using stockOnly_sel [of w w1] m by (simp add: refsExist_def moved_def)
  moreover have "sn_key ` set (snapshots w1) = insert (mv_key p) (sn_key ` set (snapshots w))" using m by (simp add: moved_def)
  ultimately show ?thesis using p unfolding stockable_def findSnapshot_iff by (auto simp: mv_key_def)
qed

lemma wp_restock:
  assumes "stockInv v" "\<forall>l \<in> set ls. 0 < rl_quantity l"
  shows "wp (forEach ls (restockLine t rid fb))
    (\<lambda>_ w'. (\<forall>l \<in> set ls. \<not> unplaceable t rid fb v l) \<and> stockInv w' \<and> stockOnly v w' \<and> safetyOf w' = safetyOf v \<and>
      (\<forall>k. balance w' k = balance v k + Buckets (restockUnits t fb ls k) 0 0 0 0))
    (\<lambda>e w'. \<exists>l \<in> set ls. unplaceable t rid fb v l) v"
  using assms
proof (induction ls arbitrary: v)
  case Nil
  then show ?case by (simp add: wp restockUnits_def buckets_eqI)
next
  case (Cons l ls)
  show ?case
  proof (cases "restockKey t fb l")
    case None
    show ?thesis
    proof (cases "rl_restock l")
      case True
      then have "restockAt fb l = None" using None by (simp add: restockKey_def)
      then have "unplaceable t rid fb v l" "orElse (rl_locationId l) fb = None" using True by (simp_all add: unplaceable_def restockAt_def)
      then show ?thesis using True by (simp add: restockLine_def wp)
    next
      case False
      then have no: "\<not> unplaceable t rid fb u l" for u by (simp add: unplaceable_def)
      have "restockUnits t fb (l # ls) = restockUnits t fb ls" by (simp add: restockUnits_def None fun_eq_iff)
      then show ?thesis using Cons.IH [OF Cons.prems(1)] Cons.prems(2) False no by (simp add: restockLine_def wp)
    qed
  next
    case (Some k)
    then obtain loc where loc: "rl_restock l" "restockAt fb l = Some loc" "k = (t, rl_skuId l, loc)"
      by (auto simp: restockKey_def split: if_splits)
    let ?p = "restockParams t rid l loc"
    have un: "unplaceable t rid fb u l = (\<not> stockable ?p u)" for u using loc by (simp add: unplaceable_def)
    have pos: "0 < rl_quantity l" using Cons.prems(2) by simp
    have units: "restockUnits t fb (l # ls) j = (if j = k then rl_quantity l else 0) + restockUnits t fb ls j" for j
      by (simp add: restockUnits_def Some)
    have rest: "wp (forEach ls (restockLine t rid fb))
      (\<lambda>_ w'. (\<forall>l \<in> set (l # ls). \<not> unplaceable t rid fb v l) \<and> stockInv w' \<and> stockOnly v w' \<and> safetyOf w' = safetyOf v \<and>
        (\<forall>k. balance w' k = balance v k + Buckets (restockUnits t fb (l # ls) k) 0 0 0 0))
      (\<lambda>e w'. \<exists>l \<in> set (l # ls). unplaceable t rid fb v l) v1"
      if m: "moved ?p v v1" "snapshotsOk v1" "nonneg (balance v1 k)" "stockable ?p v" for v1
    proof -
      have iv: "stockInv v1" by (rule moved_stockInv [OF Cons.prems(1) m(1,2)]) (use m(3) loc(3) in simp)
      have b: "balance v1 = (balance v)(k := balance v k + Buckets (rl_quantity l) 0 0 0 0)" "safetyOf v1 = safetyOf v" "stockOnly v v1"
        using m(1) loc(3) by (simp_all add: moved_def)
      have same: "unplaceable t rid fb v1 x = unplaceable t rid fb v x" for x
        using stockable_moved [OF m(1,4)] by (simp add: unplaceable_def split: option.split)
      show ?thesis
        by (rule wp_mono [OF Cons.IH [OF iv]])
          (use Cons.prems(2) b stockOnly_trans [of v v1] un m(4) units in \<open>auto simp: same intro!: buckets_eqI\<close>)
    qed
    have "orElse (rl_locationId l) fb = Some loc" using loc(2) by (simp add: restockAt_def)
    then have unfold: "restockLine t rid fb l = andThen (applyWithin ?p) (ret ())" using loc(1)
      by (simp add: restockLine_def op_defs)
    show ?thesis
      unfolding forEach.simps unfold wp
    proof (rule wp_mono [OF applyWithin_spec [OF stockInvD(1) [OF Cons.prems(1)]]], goal_cases)
      case (1 r v1)
      then show ?case using rest [of v1] loc(3) by (simp add: admissible_def)
    next
      case (2 e v1)
      have "admissible ?p (balance v k + Buckets (rl_quantity l) 0 0 0 0) (safetyOf v k)"
        using stockInvD(2) [OF Cons.prems(1), of k] pos by (simp add: admissible_def nonneg_def)
      then have "\<not> stockable ?p v" using 2 loc(3) by auto
      then show ?case using un by simp
    qed
  qed
qed

section \<open>After the goods are in\<close>

text \<open>What the steps after the transaction do not touch.\<close>

definition returnView :: "(world \<Rightarrow> bool) \<Rightarrow> bool" where
  "returnView P \<longleftrightarrow> (\<forall>v w. snapshots w = snapshots v \<longrightarrow> allocations w = allocations v \<longrightarrow> shipments w = shipments v \<longrightarrow>
    reservations w = reservations v \<longrightarrow> orderLines w = orderLines v \<longrightarrow> returnRows w = returnRows v \<longrightarrow>
    returnLines w = returnLines v \<longrightarrow> P v \<longrightarrow> P w)"

definition booksOk :: "world \<Rightarrow> bool" where
  "booksOk w \<longleftrightarrow> coreInv w \<and> shipInv w \<and> retInv w"

lemma booksOkD: "booksOk w \<Longrightarrow> coreInv w" "booksOk w \<Longrightarrow> shipInv w" "booksOk w \<Longrightarrow> retInv w"
  by (simp_all add: booksOk_def)

lemma booksOk_statusOnly:
  assumes "booksOk v" "coreInv w" "statusOnly v w"
  shows "booksOk w"
proof -
  note sel = statusOnly_sel [OF assms(3)]
  have "shipInv w" by (rule shipInv_cong [OF booksOkD(2) [OF assms(1)] sel(9) sel(13)]) (simp_all add: sel)
  moreover have "retInv w" by (rule retInv_cong [OF booksOkD(3) [OF assms(1)] sel(9) sel(13)]) (simp_all add: sel)
  ultimately show ?thesis using assms(2) by (simp add: booksOk_def)
qed

lemma retInv_invalidated: "retInv w \<Longrightarrow> retInv (invalidated t s w)"
  by (rule retInv_cong) (simp_all add: orderIds_def)

text \<open>Marking the order.\<close>

definition returnedStatus :: "ident \<Rightarrow> order \<Rightarrow> world \<Rightarrow> OrderStatus" where
  "returnedStatus i ord w =
    (if o_status ord = OrderStatus.DELIVERED \<and> fullyReturned i w then OrderStatus.RETURNED else o_status ord)"

lemma wp_maybeMark:
  assumes core: "coreInv v" and ord: "findTenantOrder t i v = Some ord"
  shows "wp (maybeMarkOrderReturned t i)
    (\<lambda>_ w'. coreInv w' \<and> statusOnly v w' \<and> gatewayLog w' = gatewayLog v \<and>
      findTenantOrder t i w' = Some (ord\<lparr>o_status := returnedStatus i ord v\<rparr>)) (\<lambda>_ _. False) v"
    (is "wp _ ?Q _ _")
proof -
  note o = findTenantOrderD [OF ord]
  have found: "findOrder i v = Some ord" using findOrder_row [OF coreInvD(3) [OF core] o(1)] o(2) by simp
  have stay: "?Q () v" if "returnedStatus i ord v = o_status ord" using that core ord statusOnly_refl by simp
  show ?thesis
  proof (cases "o_status ord = OrderStatus.DELIVERED \<and> fullyReturned i v")
    case False
    then show ?thesis using stay found by (auto simp: maybeMarkOrderReturned_def wp returnedStatus_def)
  next
    case True
    have "wp (andThen (transition t i OrderStatus.RETURNED (Some ''all lines returned'')) (ret ())) ?Q (\<lambda>_ _. False) v"
      unfolding wp_andThen wp_ret
    proof (rule wp_mono [OF wp_transition [OF coreInvD(3) [OF core]]], goal_cases)
      case (1 x w')
      then have w': "w' = (moveOrder ord OrderStatus.RETURNED (Some ''all lines returned'') v)
          \<lparr>published := published v @ [OrderStatusEvent t i OrderStatus.RETURNED]\<rparr>" and can: "canTransition (o_status ord) OrderStatus.RETURNED"
        using ord by auto
      have "findTenantOrder t i w' = findTenantOrder t i
          (v\<lparr>orders := mapWhere (\<lambda>x. o_id x = i) (o_status_update (\<lambda>_. OrderStatus.RETURNED)) (orders v)\<rparr>)"
        by (simp add: w' findTenantOrder_def o(2))
      then have "findTenantOrder t i w' = Some (ord\<lparr>o_status := OrderStatus.RETURNED\<rparr>)"
        using ord o(2) by (simp add: findTenantOrder_update)
      moreover have "coreInv w'" using coreInv_moveOrder [OF core o(1) can] by (simp add: w')
      moreover have "statusOnly v w'" unfolding w' by (rule statusOnly_moveOrder)
      ultimately show ?case using True by (simp add: returnedStatus_def) (simp add: w')
    next
      case (2 e w')
      then show ?case using True ord by (auto simp: canTransition_def)
    qed
    then show ?thesis using True found by (simp add: maybeMarkOrderReturned_def wp_bind wp_gets wp_orThrow)
  qed
qed

text \<open>The refund.\<close>

definition refundDue :: "order \<Rightarrow> int \<Rightarrow> bool" where
  "refundDue ord amount \<longleftrightarrow> o_paymentReference ord \<notin> {None, Some []} \<and> o_paymentStatus ord = PaymentStatus.CAPTURED \<and> 0 < amount"

definition refundCall :: "order \<Rightarrow> int \<Rightarrow> gatewayCall" where
  "refundCall ord amount = CreateRefund (the (o_paymentReference ord)) amount (''refund_'', o_id ord, Some amount)"

definition moneyBack :: "order \<Rightarrow> int \<Rightarrow> gatewayCall list \<Rightarrow> PaymentStatus \<Rightarrow> bool" where
  "moneyBack ord amount calls p \<longleftrightarrow>
    (if refundDue ord amount
     then calls \<in> {[], [refundCall ord amount]} \<and>
       p \<in> {PaymentStatus.CAPTURED} \<union> (if o_status ord = OrderStatus.RETURNED then {PaymentStatus.REFUNDED} else {})
     else calls = [] \<and> p = o_paymentStatus ord)"

definition refundOnly :: "order \<Rightarrow> int \<Rightarrow> world \<Rightarrow> world \<Rightarrow> bool" where
  "refundOnly ord n w w' \<longleftrightarrow> (\<exists>m calls. nextId w \<le> m \<and> w' = w\<lparr>nextId := m, gatewayLog := gatewayLog w @ calls\<rparr> \<and>
    calls \<in> {[], [refundCall ord n]})"

lemma refundOnlyI:
  assumes "nextId w \<le> m" "w' = w\<lparr>nextId := m, gatewayLog := gatewayLog w @ calls\<rparr>" "calls \<in> {[], [refundCall ord n]}"
  shows "refundOnly ord n w w'"
  using assms unfolding refundOnly_def by blast

lemma refundOnly_cases:
  "refundOnly ord n w w" "refundOnly ord n w (w\<lparr>nextId := Suc (nextId w)\<rparr>)"
  "refundOnly ord n w (w\<lparr>gatewayLog := gatewayLog w @ [refundCall ord n]\<rparr>)"
proof -
  show "refundOnly ord n w w" by (rule refundOnlyI [where m = "nextId w" and calls = "[]"]) simp_all
  show "refundOnly ord n w (w\<lparr>nextId := Suc (nextId w)\<rparr>)"
    by (rule refundOnlyI [where m = "Suc (nextId w)" and calls = "[]"]) simp_all
  show "refundOnly ord n w (w\<lparr>gatewayLog := gatewayLog w @ [refundCall ord n]\<rparr>)"
    by (rule refundOnlyI [where m = "nextId w" and calls = "[refundCall ord n]"]) simp_all
qed

lemma wp_stripeRefund:
  "wp (stripeRefund cfg api (ord, ls) n) (\<lambda>_. refundOnly ord n w) (\<lambda>_ _. False) w"
  using refundOnly_cases [of ord n w]
  by (cases "o_paymentReference ord")
    (simp_all add: stripeRefund_def Let_def wp randomRef_def callApi_def refundCall_def split: sum.split)

lemma wp_selected_refund:
  "wp (refundPayment (selectProvider pcfg api) (ord, ls) (Some n)) (\<lambda>_. refundOnly ord n w) (\<lambda>_ _. False) w"
  using wp_stripeRefund refundOnly_cases [of ord n w]
  by (simp add: refundPayment_def selectProvider_def mockProvider_def stripeProvider_def wp randomRef_def)

definition moneyReturned :: "ident \<Rightarrow> order \<Rightarrow> int \<Rightarrow> world \<Rightarrow> world \<Rightarrow> bool" where
  "moneyReturned i ord amount w w' \<longleftrightarrow> (\<exists>m calls st. nextId w \<le> m \<and>
    w' = w\<lparr>nextId := m, gatewayLog := gatewayLog w @ calls,
      orders := mapWhere (\<lambda>x. o_id x = i) (o_paymentStatus_update st) (orders w)\<rparr> \<and>
    moneyBack ord amount calls (st (o_paymentStatus ord)))"

lemma moneyReturnedI:
  assumes "nextId w \<le> m" "w' = w\<lparr>nextId := m, gatewayLog := gatewayLog w @ calls,
      orders := mapWhere (\<lambda>x. o_id x = i) (o_paymentStatus_update st) (orders w)\<rparr>"
    "moneyBack ord amount calls (st (o_paymentStatus ord))"
  shows "moneyReturned i ord amount w w'"
  using assms unfolding moneyReturned_def by blast

lemma wp_refundReturn:
  assumes ord: "findTenantOrder t (rt_orderId rma) w = Some ord"
  shows "wp (refundReturn (selectProvider pcfg api) t rma rls)
    (\<lambda>_. moneyReturned (o_id ord) ord (refundMinor (linesOf (o_id ord) w) rls) w) (\<lambda>_ _. False) w"
proof -
  let ?n = "refundMinor (linesOf (o_id ord) w) rls"
  let ?Q = "\<lambda>_. moneyReturned (o_id ord) ord ?n w"
  have stay: "?Q () (w\<lparr>nextId := m, gatewayLog := gatewayLog w @ calls\<rparr>)"
    if "nextId w \<le> m" "moneyBack ord ?n calls (o_paymentStatus ord)" for m calls
    by (rule moneyReturnedI [where st = "\<lambda>x. x", OF that(1) settled_keep]) (use that in simp)
  show ?thesis
  proof (cases "refundDue ord ?n")
    case False
    have "?Q () w" using stay [of "nextId w" "[]"] False by (simp add: moneyBack_def)
    then show ?thesis using False ord by (auto simp: refundReturn_def wp refundDue_def not_le split: option.split)
  next
    case True
    have "wp (bind (refundPayment (selectProvider pcfg api) (ord, linesOf (o_id ord) w) (Some ?n)) (\<lambda>res.
        if fst res \<noteq> RefundStatus.REFUNDED then ret ()
        else if o_status ord = OrderStatus.RETURNED then setPaymentStatus (o_id ord) PaymentStatus.REFUNDED
        else ret ())) ?Q (\<lambda>_ _. False) w"
      unfolding wp_bind
    proof (rule wp_mono [OF wp_selected_refund], goal_cases)
      case (1 res v)
      then obtain m calls where v: "nextId w \<le> m" "v = w\<lparr>nextId := m, gatewayLog := gatewayLog w @ calls\<rparr>"
        and calls: "calls \<in> {[], [refundCall ord ?n]}" unfolding refundOnly_def by blast
      have keep: "?Q () v" unfolding v(2) by (rule stay [OF v(1)]) (use True calls in \<open>auto simp: moneyBack_def refundDue_def\<close>)
      have paid: "wp (setPaymentStatus (o_id ord) PaymentStatus.REFUNDED) ?Q (\<lambda>_ _. False) v" if st: "o_status ord = OrderStatus.RETURNED"
      proof -
        have "moneyReturned (o_id ord) ord ?n w (w\<lparr>nextId := m, gatewayLog := gatewayLog w @ calls,
            orders := mapWhere (\<lambda>x. o_id x = o_id ord) (o_paymentStatus_update (\<lambda>_. PaymentStatus.REFUNDED)) (orders w)\<rparr>)"
          by (rule moneyReturnedI [OF v(1) refl]) (use True calls st in \<open>simp add: moneyBack_def\<close>)
        moreover have "find (\<lambda>x. o_id x = o_id ord) (orders w) \<noteq> None"
          using findTenantOrderD(1) [OF ord] by (auto simp: find_None_iff)
        ultimately show ?thesis by (auto simp: setPaymentStatus_def wp v(2))
      qed
      show ?case using keep paid by (simp add: wp_if wp_ret)
    qed simp
    then show ?thesis using True ord by (auto simp: refundReturn_def wp_bind [of "gets _"] wp_gets refundDue_def)
  qed
qed

section \<open>Receiving\<close>

definition restocked :: "ident \<Rightarrow> returnRow \<Rightarrow> world \<Rightarrow> world \<Rightarrow> bool" where
  "restocked t r w w' \<longleftrightarrow> safetyOf w' = safetyOf w \<and>
    (\<forall>k. balance w' k = balance w k +
      Buckets (restockUnits t (defaultRestockLocation t (rt_orderId r) w) (linesOfReturn (rt_id r) w) k) 0 0 0 0) \<and>
    returnRows w' = mapWhere (\<lambda>x. rt_id x = rt_id r) (rt_status_update (\<lambda>_. COMPLETED)) (returnRows w) \<and>
    returnLines w' = returnLines w \<and> orderLines w' = orderLines w \<and> reservations w' = reservations w \<and>
    allocations w' = allocations w \<and> shipments w' = shipments w"

lemma returnView_restocked: "returnView (restocked t r w)"
  unfolding returnView_def restocked_def by (metis view_cong(2,3))

text \<open>The order and the money after a receipt.\<close>

definition orderReturned :: "ident \<Rightarrow> returnRow \<Rightarrow> world \<Rightarrow> world \<Rightarrow> bool" where
  "orderReturned t r w w' \<longleftrightarrow> (\<exists>ord st p calls. findTenantOrder t (rt_orderId r) w = Some ord \<and>
    st = returnedStatus (rt_orderId r) ord w' \<and>
    findTenantOrder t (rt_orderId r) w' = Some (ord\<lparr>o_status := st, o_paymentStatus := p\<rparr>) \<and>
    gatewayLog w' = gatewayLog w @ calls \<and>
    moneyBack (ord\<lparr>o_status := st\<rparr>) (refundMinor (linesOf (o_id ord) w) (linesOfReturn (rt_id r) w)) calls p)"

definition receivable :: "ident \<Rightarrow> returnRow \<Rightarrow> world \<Rightarrow> bool" where
  "receivable t r w \<longleftrightarrow> rt_status r = REQUESTED \<and> (\<forall>l \<in> set (linesOfReturn (rt_id r) w).
    \<not> unplaceable t (rt_id r) (defaultRestockLocation t (rt_orderId r) w) w l)"

definition findReturn :: "ident \<Rightarrow> ident \<Rightarrow> world \<Rightarrow> returnRow option" where
  "findReturn t i w = find (\<lambda>r. rt_id r = i \<and> rt_tenantId r = t) (returnRows w)"

lemma findReturnD:
  assumes "findReturn t i w = Some r"
  shows "r \<in> set (returnRows w)" "rt_id r = i" "rt_tenantId r = t"
  using assms by (auto simp: findReturn_def find_Some_iff)

lemma findReturn_facts:
  assumes inv: "retInv w" and r: "findReturn t i w = Some r"
  shows "find (\<lambda>x. rt_id x = i) (returnRows w) = Some r" "\<exists>ord. findTenantOrder t (rt_orderId r) w = Some ord"
proof -
  note d = findReturnD [OF r]
  have "distinct (map rt_id (returnRows w))" using inv by (simp add: retInv_def)
  then show "find (\<lambda>x. rt_id x = i) (returnRows w) = Some r" using find_distinct [of rt_id _ r] d(1,2) by fastforce
  have "(rt_orderId r, t) \<in> set (orderIds w)" using inv d by (auto simp: retInv_def)
  then have "\<exists>x \<in> set (orders w). o_id x = rt_orderId r \<and> o_tenantId x = t" by (auto simp: orderIds_def)
  then show "\<exists>ord. findTenantOrder t (rt_orderId r) w = Some ord"
    unfolding findTenantOrder_def by (metis (mono_tags, lifting) find_None_iff not_None_eq)
qed

text \<open>The transaction.\<close>

definition receiveTx :: "ident \<Rightarrow> returnRow \<Rightarrow> returnLine list \<Rightarrow> ident option \<Rightarrow> (world, unit) op" where
  "receiveTx t r rls fb =
    andThen (forEach rls (restockLine t (rt_id r) fb))
      (andThen (updateRow returnRows returnRows_update (\<lambda>x. rt_id x = rt_id r) (rt_status_update (\<lambda>_. COMPLETED))) (ret ()))"

definition duringReceipt :: "ident \<Rightarrow> returnRow \<Rightarrow> world \<Rightarrow> world \<Rightarrow> bool" where
  "duringReceipt t r w v \<longleftrightarrow> booksOk v \<and> restocked t r w v \<and> gatewayLog v = gatewayLog w \<and>
    findTenantOrder t (rt_orderId r) v = findTenantOrder t (rt_orderId r) w"

lemma wp_receiveTx:
  assumes inv: "booksOk w" and r: "findReturn t i w = Some r"
  shows "wp (receiveTx t r (linesOfReturn (rt_id r) w) (defaultRestockLocation t (rt_orderId r) w))
    (\<lambda>_ v. (\<forall>l \<in> set (linesOfReturn (rt_id r) w). \<not> unplaceable t (rt_id r) (defaultRestockLocation t (rt_orderId r) w) w l) \<and>
      duringReceipt t r w v)
    (\<lambda>_ _. \<exists>l \<in> set (linesOfReturn (rt_id r) w). unplaceable t (rt_id r) (defaultRestockLocation t (rt_orderId r) w) w l) w"
proof -
  let ?ls = "linesOfReturn (rt_id r) w" and ?fb = "defaultRestockLocation t (rt_orderId r) w"
  note core = booksOkD(1) [OF inv]
  have pos: "\<forall>l \<in> set ?ls. 0 < rl_quantity l" using booksOkD(3) [OF inv] by (simp add: retInv_def linesOfReturn_def)
  note row = findReturn_facts(1) [OF booksOkD(3) [OF inv] r]
  show ?thesis
    unfolding receiveTx_def wp_andThen
  proof (rule wp_mono [OF wp_restock [OF coreInvD(1) [OF core] pos]], goal_cases)
    case (1 u v1)
    note so = stockOnly_sel [OF 1(2) [THEN conjunct2, THEN conjunct2, THEN conjunct1]]
    have cm: "commitInv v1" by (rule keepsD [OF keeps_commit_restock coreInvD(2) [OF core] 1(1)])
    have od: "orderInv v1" by (rule orderInv_frame [OF coreInvD(3) [OF core]]) (simp_all add: so)
    let ?v = "v1\<lparr>returnRows := mapWhere (\<lambda>x. rt_id x = rt_id r) (rt_status_update (\<lambda>_. COMPLETED)) (returnRows w)\<rparr>"
    have "coreInv v1" using 1(2) cm od by (simp add: coreInv_def)
    then have "coreInv ?v" by simp
    moreover have "shipInv ?v" by (rule shipInv_cong [OF booksOkD(2) [OF inv]]) (simp_all add: so orderIds_def)
    moreover have "retInv ?v"
      by (rule retInv_cong [OF booksOkD(3) [OF inv]]) (simp_all add: so orderIds_def map_mapWhere_frame)
    moreover have "restocked t r w ?v" using 1(2) by (simp add: restocked_def so)
    ultimately have d: "duringReceipt t r w ?v" by (simp add: duringReceipt_def booksOk_def so findTenantOrder_def)
    have rows: "returnRows v1 = returnRows w" by (simp add: so)
    show ?case unfolding wp_updateRow wp_ret rows using row findReturnD(2) [OF r] 1(2) d by simp
  qed simp
qed

lemma duringReceipt_invalidated: "duringReceipt t r w v \<Longrightarrow> duringReceipt t r w (invalidated t' s v)"
  using returnView_restocked [of t r w]
  by (auto simp: duringReceipt_def booksOk_def coreInv_invalidated shipInv_invalidated retInv_invalidated
      findTenantOrder_def returnView_def)

definition returnReceived :: "ident \<Rightarrow> returnRow \<Rightarrow> world \<Rightarrow> world \<Rightarrow> bool" where
  "returnReceived t r w w' \<longleftrightarrow> booksOk w' \<and> restocked t r w w' \<and> orderReturned t r w w'"

lemma wp_afterReceipt:
  assumes v: "duringReceipt t r w v" and ord: "findTenantOrder t (rt_orderId r) w = Some ord"
  shows "wp (andThen (maybeMarkOrderReturned t (rt_orderId r)) (refundReturn (selectProvider pcfg api) t r (linesOfReturn (rt_id r) w)))
    (\<lambda>_. returnReceived t r w) (\<lambda>_ _. False) v"
proof -
  let ?i = "rt_orderId r" and ?rls = "linesOfReturn (rt_id r) w"
  have vv: "booksOk v" "restocked t r w v" "gatewayLog v = gatewayLog w" "findTenantOrder t ?i v = Some ord"
    using v ord by (simp_all add: duringReceipt_def)
  note core = booksOkD(1) [OF vv(1)] and o = findTenantOrderD [OF ord]
  let ?st = "returnedStatus ?i ord v"
  let ?ord = "ord\<lparr>o_status := ?st\<rparr>"
  show ?thesis
    unfolding wp_andThen
  proof (rule wp_mono [OF wp_maybeMark [OF core vv(4)]], goal_cases)
    case (1 x u)
    then have u: "coreInv u" "statusOnly v u" "gatewayLog u = gatewayLog v" "findTenantOrder t ?i u = Some ?ord" by simp_all
    show ?case
    proof (rule wp_mono [OF wp_refundReturn [OF u(4)]], goal_cases)
      case (1 y w')
      have lines: "linesOf i u = linesOf i w" for i
        using statusOnly_sel(3) [OF u(2)] vv(2) by (simp add: linesOf_def restocked_def)
      obtain m calls st where w': "nextId u \<le> m" "w' = u\<lparr>nextId := m, gatewayLog := gatewayLog u @ calls,
          orders := mapWhere (\<lambda>x. o_id x = ?i) (o_paymentStatus_update st) (orders u)\<rparr>"
        and money: "moneyBack ?ord (refundMinor (linesOf ?i w) ?rls) calls (st (o_paymentStatus ord))"
        using 1(2) o(2) lines unfolding moneyReturned_def by auto
      have "coreInv w'" unfolding w'(2) by (rule coreInv_payment [OF u(1) w'(1)])
      moreover have only: "statusOnly v w'" unfolding w'(2) by (rule statusOnly_trans [OF u(2) statusOnly_payment [OF w'(1)]])
      ultimately have books: "booksOk w'" by (rule booksOk_statusOnly [OF vv(1)])
      note sel = statusOnly_sel [OF only]
      have stock: "restocked t r w w'"
        using returnView_restocked [of t r w] vv(2) sel unfolding returnView_def by blast
      have "findTenantOrder t ?i w' = findTenantOrder t ?i
          (u\<lparr>orders := mapWhere (\<lambda>x. o_id x = ?i) (o_paymentStatus_update st) (orders u)\<rparr>)"
        by (simp add: findTenantOrder_def w'(2))
      then have found: "findTenantOrder t ?i w' = Some (?ord\<lparr>o_paymentStatus := st (o_paymentStatus ord)\<rparr>)"
        using u(4) o(2) by (simp add: findTenantOrder_update)
      have full: "fullyReturned ?i w' = fullyReturned ?i v"
        by (simp add: fullyReturned_def orderedUnits_def returnedUnits_def linesOf_def sel)
      have st: "returnedStatus ?i ord w' = ?st" by (simp add: returnedStatus_def full)
      have log: "gatewayLog w' = gatewayLog w @ calls" by (simp add: w'(2) u(3) vv(3))
      have "orderReturned t r w w'"
        unfolding orderReturned_def
        by (rule exI [of _ ord], rule exI [of _ ?st], rule exI [of _ "st (o_paymentStatus ord)"], rule exI [of _ calls])
          (use ord found log money o(2) st in simp)
      then show ?case using books stock by (simp add: returnReceived_def)
    qed simp
  qed simp
qed

lemma wp_receive_return:
  assumes inv: "booksOk w"
  shows "wp (receive_return (selectProvider pcfg api) t i)
    (\<lambda>_ w'. \<exists>r. findReturn t i w = Some r \<and> receivable t r w \<and> returnReceived t r w w')
    (\<lambda>e w'. w' = w \<and> (\<forall>r. findReturn t i w = Some r \<longrightarrow> \<not> receivable t r w)) w"
    (is "wp _ ?Q ?E w")
proof (cases "findReturn t i w")
  case None
  then show ?thesis by (simp add: receive_return_def wp findReturn_def)
next
  case (Some r)
  note d = findReturnD [OF Some]
  let ?ls = "linesOfReturn (rt_id r) w" and ?fb = "defaultRestockLocation t (rt_orderId r) w"
  have found: "find (\<lambda>r. rt_id r = i \<and> rt_tenantId r = t) (returnRows w) = Some r" using Some by (simp add: findReturn_def)
  obtain ord where ord: "findTenantOrder t (rt_orderId r) w = Some ord" using findReturn_facts(2) [OF booksOkD(3) [OF inv] Some] by blast
  show ?thesis
  proof (cases "rt_status r = REQUESTED")
    case False
    then show ?thesis using found Some by (simp add: receive_return_def wp receivable_def)
  next
    case True
    have last: "wp (bind (gets (\<lambda>w. find (\<lambda>x. rt_id x = rt_id r) (returnRows w))) (\<lambda>found.
        bind (orThrow found (PrismaKnown ''P2025'' None)) (\<lambda>row.
        bind (gets (linesOfReturn (rt_id row))) (\<lambda>ls. ret (row, ls))))) ?Q ?E w'"
      if can: "receivable t r w" and rec: "returnReceived t r w w'" for w'
    proof -
      have "returnRows w' = mapWhere (\<lambda>x. rt_id x = rt_id r) (rt_status_update (\<lambda>_. COMPLETED)) (returnRows w)"
        using rec by (simp add: returnReceived_def restocked_def)
      then have "find (\<lambda>x. rt_id x = rt_id r) (returnRows w') \<noteq> None"
        using d(1) by (auto simp: find_None_iff set_mapWhere)
      then show ?thesis using Some can rec by (auto simp: wp)
    qed
    have body: "wp (andThen (transaction (receiveTx t r ?ls ?fb))
      (andThen (forEach xs (invalidate t))
      (andThen (maybeMarkOrderReturned t (rt_orderId r))
      (andThen (refundReturn (selectProvider pcfg api) t r ?ls)
      (bind (gets (\<lambda>w. find (\<lambda>x. rt_id x = rt_id r) (returnRows w))) (\<lambda>found.
        bind (orThrow found (PrismaKnown ''P2025'' None)) (\<lambda>row.
        bind (gets (linesOfReturn (rt_id row))) (\<lambda>ls. ret (row, ls))))))))) ?Q ?E w" for xs
      unfolding wp_andThen wp_transaction
    proof (rule wp_mono [OF wp_receiveTx [OF inv Some]], goal_cases)
      case (1 u v)
      then have can: "receivable t r w" using True by (simp add: receivable_def)
      have "wp (forEach xs (invalidate t)) (\<lambda>_. duringReceipt t r w) (\<lambda>_ _. False) v"
        by (rule wp_forEach) (use 1 duringReceipt_invalidated in \<open>simp_all add: wp\<close>)
      then show ?case
      proof (rule wp_mono, goal_cases)
        case (1 y v')
        from wp_afterReceipt [OF 1(2) ord, of pcfg api, unfolded wp_andThen] show ?case
          by (rule wp_mono) (erule wp_mono, rule last [OF can], simp_all)
      qed simp
    next
      case (2 e w')
      then show ?case using Some by (auto simp: receivable_def)
    qed
    show ?thesis
      using body True found
      by (simp add: receive_return_def wp_bind [of "gets _"] wp_gets wp_bind [of "orThrow _ _"] wp_orThrow
          wp_andThen [of "throwIf _ _"] wp_throwIf receiveTx_def)
  qed
qed

section \<open>Raising\<close>

definition returnLineOk :: "orderLine list \<Rightarrow> returnLineDto \<Rightarrow> bool" where
  "returnLineOk lines rl \<longleftrightarrow> (\<exists>line. find (\<lambda>l. ol_id l = td_orderLineId rl) lines = Some line \<and>
    1 \<le> td_quantity rl \<and> td_quantity rl \<le> ol_quantity line)"

lemma wp_checkReturnLine: "wp (checkReturnLine lines rl) Q E = (\<lambda>w. if returnLineOk lines rl then Q () w
    else E (case find (\<lambda>l. ol_id l = td_orderLineId rl) lines of None \<Rightarrow> BadRequest ''Order line not on order''
      | Some _ \<Rightarrow> BadRequest ''Return qty invalid'') w)"
  by (auto simp: fun_eq_iff checkReturnLine_def returnLineOk_def wp not_less split: option.split)

lemma wp_checkReturnLines:
  "wp (forEach rls (checkReturnLine lines)) (\<lambda>_ w'. w' = w \<and> list_all (returnLineOk lines) rls)
    (\<lambda>e w'. w' = w \<and> \<not> list_all (returnLineOk lines) rls) w"
  by (induction rls) (simp_all add: wp_ret wp_andThen wp_checkReturnLine)

definition raisedLine :: "orderLine list \<Rightarrow> ident \<Rightarrow> ident \<Rightarrow> returnLineDto \<Rightarrow> returnLine" where
  "raisedLine lines returnId i rl =
    newReturnLine returnId (case find (\<lambda>l. ol_id l = td_orderLineId rl) lines of Some line \<Rightarrow> ol_skuId line | None \<Rightarrow> 0) rl i"

fun raisedLines :: "orderLine list \<Rightarrow> ident \<Rightarrow> ident \<Rightarrow> returnLineDto list \<Rightarrow> returnLine list" where
  "raisedLines lines returnId n [] = []"
| "raisedLines lines returnId n (rl # rls) = raisedLine lines returnId n rl # raisedLines lines returnId (Suc n) rls"

lemma raisedLines_map:
  "map (\<lambda>l. (rl_returnId l, rl_orderLineId l, rl_quantity l)) (raisedLines lines i n rls) =
    map (\<lambda>rl. (i, td_orderLineId rl, td_quantity rl)) rls"
  by (induction rls arbitrary: n) (simp_all add: raisedLine_def newReturnLine_def)

lemma wp_createReturnLine:
  assumes "returnLineOk lines rl"
  shows "wp (createReturnLine lines i rl) Q E w = Q () (w\<lparr>nextId := Suc (nextId w),
    returnLines := returnLines w @ [raisedLine lines i (nextId w) rl]\<rparr>)"
  using assms by (auto simp: createReturnLine_def wp raisedLine_def returnLineOk_def)

lemma wp_raiseLines:
  assumes "list_all (returnLineOk lines) rls"
  shows "wp (forEach rls (createReturnLine lines i)) (\<lambda>_ w'. w' = w\<lparr>nextId := nextId w + length rls,
      returnLines := returnLines w @ raisedLines lines i (nextId w) rls\<rparr>) (\<lambda>_ _. False) w"
  using assms
proof (induction rls arbitrary: w)
  case Nil
  then show ?case by (simp add: wp_ret)
next
  case (Cons rl rls)
  let ?w = "w\<lparr>nextId := Suc (nextId w), returnLines := returnLines w @ [raisedLine lines i (nextId w) rl]\<rparr>"
  have "wp (forEach rls (createReturnLine lines i)) (\<lambda>_ w'. w' = w\<lparr>nextId := nextId w + length (rl # rls),
      returnLines := returnLines w @ raisedLines lines i (nextId w) (rl # rls)\<rparr>) (\<lambda>_ _. False) ?w"
    by (rule wp_mono [OF Cons.IH]) (use Cons.prems in simp_all)
  then show ?case using Cons.prems by (simp add: wp_andThen wp_createReturnLine)
qed

definition rmaOf :: "world \<Rightarrow> string" where
  "rmaOf w = ''RMA-'' @ toUpperCase (take 8 (uuidOf w (nextId w)))"

text \<open>The order can be returned by the request, and the code drawn is not in use.\<close>

definition raisable :: "ident \<Rightarrow> createReturnDto \<Rightarrow> world \<Rightarrow> bool" where
  "raisable t dto w \<longleftrightarrow> (\<exists>ord. findTenantOrder t (tr_orderId dto) w = Some ord \<and> o_status ord = OrderStatus.DELIVERED) \<and>
    list_all (returnLineOk (linesOf (tr_orderId dto) w)) (tr_lines dto) \<and>
    (\<forall>r \<in> set (returnRows w). rt_tenantId r = t \<longrightarrow> rt_rma r \<noteq> rmaOf w)"

definition raised :: "ident \<Rightarrow> createReturnDto \<Rightarrow> world \<Rightarrow> world" where
  "raised t dto w = (let i = Suc (nextId w) in
    w\<lparr>nextId := Suc i + length (tr_lines dto),
      returnRows := returnRows w @ [newReturn t dto (tr_orderId dto) (rmaOf w) i (clock w)],
      returnLines := returnLines w @ raisedLines (linesOf (tr_orderId dto) w) i (Suc i) (tr_lines dto)\<rparr>)"

lemma wp_create_return:
  "wp (create_return t dto) (\<lambda>_ w'. raisable t dto w \<and> w' = raised t dto w)
    (\<lambda>e w'. (\<exists>n. w' = w\<lparr>nextId := n\<rparr>) \<and> \<not> raisable t dto w) w"
    (is "wp _ ?Q ?E w")
proof -
  have same: "\<exists>n. w = w\<lparr>nextId := n\<rparr>" by (rule exI [of _ "nextId w"]) simp
  show ?thesis
  proof (cases "\<exists>ord. findTenantOrder t (tr_orderId dto) w = Some ord \<and> o_status ord = OrderStatus.DELIVERED")
    case False
    then show ?thesis using same by (auto simp: create_return_def wp raisable_def split: option.split)
  next
    case True
    then obtain ord where ord: "findTenantOrder t (tr_orderId dto) w = Some ord" "o_status ord = OrderStatus.DELIVERED" by blast
    note id = findTenantOrderD(2) [OF ord(1)]
    let ?lines = "linesOf (tr_orderId dto) w" and ?w = "w\<lparr>nextId := Suc (nextId w)\<rparr>"
    have fresh: "list_ex (\<lambda>r. rt_tenantId r = t \<and> rt_rma r = rmaOf w) (returnRows w) =
        (\<not> (\<forall>r \<in> set (returnRows w). rt_tenantId r = t \<longrightarrow> rt_rma r \<noteq> rmaOf w))"
      by (auto simp: list_ex_iff)
    have tx: "wp (createReturnTx t dto (tr_orderId dto) ?lines (rmaOf w)) ?Q (\<lambda>e _. ?E e ?w) ?w"
      if ok: "list_all (returnLineOk ?lines) (tr_lines dto)"
    proof -
      let ?i = "Suc (nextId w)"
      let ?v = "w\<lparr>nextId := Suc ?i, returnRows := returnRows w @ [newReturn t dto (tr_orderId dto) (rmaOf w) ?i (clock w)]\<rparr>"
      have can: "raisable t dto w = (\<not> list_ex (\<lambda>r. rt_tenantId r = t \<and> rt_rma r = rmaOf w) (returnRows w))"
        using ord ok by (simp add: raisable_def fresh)
      have "wp (forEach (tr_lines dto) (createReturnLine ?lines ?i)) (\<lambda>_. ?Q x) (\<lambda>e _. ?E e ?w) ?v" if "raisable t dto w" for x
        by (rule wp_mono [OF wp_raiseLines [OF ok]]) (simp_all add: raised_def that)
      then show ?thesis using can by (simp add: createReturnTx_def wp) blast
    qed
    have "wp (bind (upperRef ''RMA-'' 8) (\<lambda>rma. transaction (createReturnTx t dto (tr_orderId dto) ?lines rma))) ?Q ?E w"
      if "list_all (returnLineOk ?lines) (tr_lines dto)"
      using tx [OF that] by (simp add: upperRef_def wp rmaOf_def)
    then have "wp (forEach (tr_lines dto) (checkReturnLine ?lines)) (\<lambda>_. wp (bind (upperRef ''RMA-'' 8) (\<lambda>rma.
        transaction (createReturnTx t dto (tr_orderId dto) ?lines rma))) ?Q ?E) ?E w"
    proof (intro wp_mono [OF wp_checkReturnLines], goal_cases)
      case (1 x w')
      then show ?case by blast
    next
      case (2 e w')
      then have "\<not> raisable t dto w" by (simp add: raisable_def)
      then show ?case using 2 same by blast
    qed
    then show ?thesis
      unfolding create_return_def wp_bind [of "gets _"] wp_gets wp_bind [of "orThrow _ _"] wp_orThrow
        wp_andThen [of "throwIf _ _"] wp_throwIf wp_andThen [of "forEach _ _"]
      using ord id by simp
  qed
qed

lemma raisedLines_ok:
  assumes "list_all (returnLineOk lines) rls"
  shows "\<forall>l \<in> set (raisedLines lines i n rls). 0 < rl_quantity l \<and> rl_returnId l = i"
  using assms
proof (induction rls arbitrary: n)
  case (Cons rl rls)
  then have "1 \<le> td_quantity rl" by (auto simp: returnLineOk_def)
  then show ?case using Cons by (simp add: raisedLine_def newReturnLine_def)
qed simp

lemma booksOk_raised:
  assumes inv: "booksOk w" and can: "raisable t dto w"
  shows "booksOk (raised t dto w)"
proof -
  let ?w = "raised t dto w"
  obtain ord where ord: "findTenantOrder t (tr_orderId dto) w = Some ord" using can by (auto simp: raisable_def)
  note o = findTenantOrderD [OF ord]
  have mem: "(tr_orderId dto, t) \<in> set (orderIds w)" using o by (force simp: orderIds_def)
  have n: "nextId w \<le> nextId ?w" by (simp add: raised_def Let_def)
  have "coreInv ?w" using coreInv_nextId [OF booksOkD(1) [OF inv]] by (simp add: raised_def Let_def)
  moreover have "shipInv ?w"
    by (rule shipInv_cong [OF booksOkD(2) [OF inv] n]) (simp_all add: raised_def Let_def orderIds_def)
  moreover have "retInv ?w"
  proof -
    have rows: "\<forall>r \<in> set (returnRows w). rt_id r < nextId w \<and> (rt_orderId r, rt_tenantId r) \<in> set (orderIds w)"
      "distinct (map rt_id (returnRows w))" "\<forall>l \<in> set (returnLines w). 0 < rl_quantity l \<and> rl_returnId l < nextId w"
      using booksOkD(3) [OF inv] by (simp_all add: retInv_def)
    have "list_all (returnLineOk (linesOf (tr_orderId dto) w)) (tr_lines dto)" using can by (simp add: raisable_def)
    note ls = raisedLines_ok [OF this]
    show ?thesis
      using rows ls mem by (auto simp: retInv_def raised_def Let_def newReturn_def orderIds_def)
  qed
  ultimately show ?thesis by (simp add: booksOk_def)
qed

section \<open>Properties\<close>

text \<open>
  Raising a return works exactly when the order of the tenant is DELIVERED, every line of the
  request names a line of the order and asks between one unit and the ordered quantity, and the
  RMA code drawn is not in use.  It then adds one REQUESTED return and one return line per requested
  line, and nothing else; otherwise only identifiers have been drawn.
\<close>

lemma create_return_exact:
  "case create_return t dto w of
      (Inr res, w') \<Rightarrow> raisable t dto w \<and> w' = raised t dto w
    | (Inl e, w') \<Rightarrow> (\<exists>n. w' = w\<lparr>nextId := n\<rparr>) \<and> \<not> raisable t dto w"
  using wp_create_return [of t dto w] by (auto simp: wp_iff split: prod.split sum.split)


lemma returnedUnits_grow:
  assumes inv: "retInv w" and r: "findReturn t i w = Some r" "rt_status r = REQUESTED"
    and w': "returnRows w' = mapWhere (\<lambda>x. rt_id x = rt_id r) (rt_status_update (\<lambda>_. COMPLETED)) (returnRows w)" "returnLines w' = returnLines w"
    and l: "l \<in> set (linesOfReturn (rt_id r) w)"
  shows "returnedUnits (rt_orderId r) (rl_skuId l) w + rl_quantity l \<le> returnedUnits (rt_orderId r) (rl_skuId l) w'"
proof -
  note d = findReturnD [OF r(1)]
  let ?i = "rt_orderId r" and ?s = "rl_skuId l"
  let ?c = "\<lambda>rows x. list_ex (\<lambda>q. rt_id q = rl_returnId x \<and> rt_orderId q = ?i \<and> rt_status q = COMPLETED) rows"
  have row: "find (\<lambda>x. rt_id x = i) (returnRows w) = Some r" by (rule findReturn_facts(1) [OF inv r(1)])
  have dist: "distinct (map rt_id (returnRows w))" using inv by (simp add: retInv_def)
  have one: "q = r" if "q \<in> set (returnRows w)" "rt_id q = rt_id r" for q
    using that d(1) dist by (simp add: distinct_map inj_on_def)
  have done1: "rt_status_update (\<lambda>_. COMPLETED) r \<in> set (returnRows w')" unfolding w'(1) set_mapWhere using d(1) by auto
  have mine: "?c (returnRows w') x" "\<not> ?c (returnRows w) x" if x: "rl_returnId x = rt_id r" for x
  proof -
    show "?c (returnRows w') x" unfolding list_ex_iff x using done1 by (intro bexI [OF _ done1]) simp
    show "\<not> ?c (returnRows w) x"
    proof
      assume "?c (returnRows w) x"
      then obtain q where "q \<in> set (returnRows w)" "rt_id q = rt_id r" "rt_status q = COMPLETED" unfolding list_ex_iff x by blast
      then show False using one r(2) by fastforce
    qed
  qed
  have other: "?c (returnRows w') x = ?c (returnRows w) x" if "rl_returnId x \<noteq> rt_id r" for x
    unfolding w'(1) list_ex_iff mapWhere_def set_map bex_simps by (intro bex_cong refl) (use that in auto)
  have eq: "?c (returnRows w') x \<longleftrightarrow> rl_returnId x = rt_id r \<or> ?c (returnRows w) x" for x
    using mine(1) [of x] other [of x] by blast
  have "returnedUnits ?i ?s w' = sumWhere (\<lambda>x. \<not> rl_returnId x = rt_id r \<and> (rl_skuId x = ?s \<and> (rl_returnId x = rt_id r \<or> ?c (returnRows w) x))) rl_quantity (returnLines w)
      + sumWhere (\<lambda>x. rl_returnId x = rt_id r \<and> (rl_skuId x = ?s \<and> (rl_returnId x = rt_id r \<or> ?c (returnRows w) x))) rl_quantity (returnLines w)"
    unfolding returnedUnits_def w'(2) eq by (rule sumWhere_split)
  moreover have "sumWhere (\<lambda>x. \<not> rl_returnId x = rt_id r \<and> (rl_skuId x = ?s \<and> (rl_returnId x = rt_id r \<or> ?c (returnRows w) x))) rl_quantity (returnLines w) =
      returnedUnits ?i ?s w"
    unfolding returnedUnits_def by (rule sumWhere_cong) (use mine(2) in auto)
  moreover have "rl_quantity l \<le> sumWhere (\<lambda>x. rl_returnId x = rt_id r \<and> (rl_skuId x = ?s \<and> (rl_returnId x = rt_id r \<or> ?c (returnRows w) x))) rl_quantity (returnLines w)"
    by (rule sumWhere_member) (use l inv in \<open>auto simp: linesOfReturn_def retInv_def intro: less_imp_le\<close>)
  ultimately show ?thesis by linarith
qed

text \<open>
  Returns are not counted together: a return raised in time is received even when the order has
  already come back in full, so that more units of a SKU are returned, and restocked, than the
  order ever had.
\<close>

lemma over_return:
  assumes "booksOk w" "findReturn t i w = Some r" "receivable t r w" "fullyReturned (rt_orderId r) w"
    and "l \<in> set (linesOfReturn (rt_id r) w)" "k \<in> set (linesOf (rt_orderId r) w)" "ol_skuId k = rl_skuId l"
  shows "\<exists>res w'. receive_return (selectProvider pcfg api) t i w = (Inr res, w') \<and> returnReceived t r w w' \<and>
    orderedUnits (rt_orderId r) (rl_skuId l) w' < returnedUnits (rt_orderId r) (rl_skuId l) w'"
proof (cases "receive_return (selectProvider pcfg api) t i w")
  case (Pair x w')
  have run: "\<exists>res. x = Inr res" "returnReceived t r w w'"
    using wp_receive_return [OF assms(1), of pcfg api t i] assms(2,3) unfolding wp_iff Pair by (cases x; auto)+
  have rows: "returnRows w' = mapWhere (\<lambda>x. rt_id x = rt_id r) (rt_status_update (\<lambda>_. COMPLETED)) (returnRows w)"
    "returnLines w' = returnLines w" "orderLines w' = orderLines w"
    using run(2) by (simp_all add: returnReceived_def restocked_def)
  have req: "rt_status r = REQUESTED" using assms(3) by (simp add: receivable_def)
  have "orderedUnits (rt_orderId r) (rl_skuId l) w \<le> returnedUnits (rt_orderId r) (rl_skuId l) w"
    using assms(4,6,7) by (auto simp: fullyReturned_def list_all_iff)
  moreover have "orderedUnits (rt_orderId r) (rl_skuId l) w' = orderedUnits (rt_orderId r) (rl_skuId l) w"
    by (simp add: orderedUnits_def linesOf_def rows)
  moreover have "0 < rl_quantity l" using assms(5) booksOkD(3) [OF assms(1)] by (simp add: retInv_def linesOfReturn_def)
  ultimately have "orderedUnits (rt_orderId r) (rl_skuId l) w' < returnedUnits (rt_orderId r) (rl_skuId l) w'"
    using returnedUnits_grow [OF booksOkD(3) [OF assms(1)] assms(2) req rows(1,2) assms(5)] by linarith
  then show ?thesis using Pair run by blast
qed

text \<open>Witnesses: the demo order came back in full under one RMA, and a second RMA is still open.\<close>

definition demoRma :: "ident \<Rightarrow> ReturnStatus \<Rightarrow> returnRow" where
  "demoRma i st = \<lparr>rt_id = i, rt_tenantId = 7, rt_orderId = 5, rt_status = st, rt_reason = None, rt_rma = ''RMA'', rt_createdAt = 0\<rparr>"

definition demoRmaLine :: "ident \<Rightarrow> returnLine" where
  "demoRmaLine i = \<lparr>rl_id = 9, rl_returnId = i, rl_orderLineId = 6, rl_skuId = 2, rl_quantity = 4, rl_restock = True, rl_locationId = Some 3\<rparr>"

definition returnedPath :: "OrderStatus list" where
  "returnedPath = pickedPath @ [OrderStatus.SHIPPED, OrderStatus.DELIVERED, OrderStatus.RETURNED]"

definition demoTwice :: world where
  "demoTwice = (demoStage returnedPath ShipmentStatus.DELIVERED AllocationStatus.PICKED)
     \<lparr>returnRows := [demoRma 1 COMPLETED, demoRma 2 REQUESTED], returnLines := [demoRmaLine 1, demoRmaLine 2]\<rparr>"

lemma demoTwice_facts:
  "booksOk demoTwice" "findReturn 7 2 demoTwice = Some (demoRma 2 REQUESTED)" "receivable 7 (demoRma 2 REQUESTED) demoTwice"
  "fullyReturned 5 demoTwice" "linesOfReturn 2 demoTwice = [demoRmaLine 2]" "linesOf 5 demoTwice = [demoLine]"
proof -
  let ?v = "demoStage returnedPath ShipmentStatus.DELIVERED AllocationStatus.PICKED"
  have path: "legalPath OrderStatus.CREATED returnedPath"
    by (simp add: returnedPath_def pickedPath_def canTransition_def)
  note inv = demoStage_inv [OF path, of AllocationStatus.PICKED ShipmentStatus.DELIVERED]
  have core: "coreInv demoTwice" using inv(1) by (simp add: demoTwice_def)
  have sh: "shipInv demoTwice"
    by (rule shipInv_cong [OF inv(2)]) (simp_all add: demoTwice_def orderIds_def)
  have ids: "orderIds ?v = [(5, 7)]" "nextId ?v = 10"
    by (simp_all add: orderIds_def demoStage_def demoOrder_def demoShipped_def demoWorld_sel)
  then have "retInv demoTwice" by (simp add: retInv_def demoTwice_def demoRma_def demoRmaLine_def orderIds_def)
  with core sh show "booksOk demoTwice" by (simp add: booksOk_def)
  show "findReturn 7 2 demoTwice = Some (demoRma 2 REQUESTED)" by (simp add: findReturn_def demoTwice_def demoRma_def)
  show ls: "linesOfReturn 2 demoTwice = [demoRmaLine 2]" by (simp add: linesOfReturn_def demoTwice_def demoRmaLine_def)
  show lines: "linesOf 5 demoTwice = [demoLine]" by (simp add: linesOf_def demoTwice_def demoStage_def demoShipped_def demoLine_def)
  have "findSnapshot (7, 2, 3) demoTwice \<noteq> None"
    by (simp add: findSnapshot_def demoTwice_def demoStage_def demoShipped_def sn_key_def)
  then have "\<not> unplaceable 7 2 fb demoTwice (demoRmaLine 2)" for fb
    by (simp add: unplaceable_def restockAt_def orElse_def stockable_def demoRmaLine_def)
  then show "receivable 7 (demoRma 2 REQUESTED) demoTwice" by (simp add: receivable_def demoRma_def ls)
  have "orderedUnits 5 2 demoTwice = 4" by (simp add: orderedUnits_def lines demoLine_def)
  moreover have "returnedUnits 5 2 demoTwice = 4" by (simp add: returnedUnits_def demoTwice_def demoRma_def demoRmaLine_def)
  ultimately show "fullyReturned 5 demoTwice" by (simp add: fullyReturned_def lines demoLine_def)
qed


lemma over_return_witness:
  "\<exists>res w'. receive_return (selectProvider demoGateway demoApi) 7 2 demoTwice = (Inr res, w') \<and>
    orderedUnits 5 2 w' < returnedUnits 5 2 w'"
proof -
  have sel: "rt_orderId (demoRma 2 REQUESTED) = 5" "rt_id (demoRma 2 REQUESTED) = 2" "rl_skuId (demoRmaLine 2) = 2" "ol_skuId demoLine = 2"
    by (simp_all add: demoRma_def demoRmaLine_def demoLine_def)
  show ?thesis
    using over_return [OF demoTwice_facts(1-3), where pcfg = demoGateway and api = demoApi and l = "demoRmaLine 2" and k = demoLine,
        unfolded sel demoTwice_facts(5,6)] demoTwice_facts(4) by auto
qed

end
