(* ===== verification/Idempotency.thy ===== *)
theory Idempotency
  imports Orders
begin

text \<open>
  backend/src/common/idempotency/idempotency.service.ts: the stored responses that make a retried
  request a replay.  The SHA-256 of the JSON text of the request and the JSON normalisation of the
  response are parameters; \<open>env\<close> is what other requests commit while the function runs.
\<close>

record 'a idemRow =
  ik_tenantId :: ident
  ik_scope :: string
  ik_key :: string
  ik_requestHash :: string
  ik_response :: 'a

type_synonym ('s, 'a) idemState = "'a idemRow list \<times> 's"

definition findKey :: "ident \<Rightarrow> string \<Rightarrow> string \<Rightarrow> 'a idemRow list \<Rightarrow> 'a idemRow option" where
  "findKey tenantId scope key rows =
    find (\<lambda>r. ik_tenantId r = tenantId \<and> ik_scope r = scope \<and> ik_key r = key) rows"

text \<open>An operation on the rest of the database.\<close>

definition elsewhere :: "('s, 'a) op \<Rightarrow> (('s, 'b) idemState, 'a) op" where
  "elsewhere m = (\<lambda>(rows, s). let (r, s') = m s in (r, (rows, s')))"

definition createKey :: "'a idemRow \<Rightarrow> (('s, 'a) idemState, unit) op" where
  "createKey row =
    bind (gets (\<lambda>(rows, s). findKey (ik_tenantId row) (ik_scope row) (ik_key row) rows)) (\<lambda>dup.
    andThen (throwIf (dup \<noteq> None) (PrismaKnown ''P2002'' None))
    (modify (\<lambda>(rows, s). (rows @ [row], s))))"

record 'a idempotentResult =
  ir_body :: 'a
  ir_replayed :: bool

definition runIdempotent ::
  "('a \<Rightarrow> 'a) \<Rightarrow> (('s, 'a) idemState \<Rightarrow> ('s, 'a) idemState) \<Rightarrow> ident \<Rightarrow> string \<Rightarrow> string option \<Rightarrow> string \<Rightarrow>
    ('s, 'a) op \<Rightarrow> (('s, 'a) idemState, 'a idempotentResult) op" where
  "runIdempotent normalise env tenantId scope key requestHash fn =
    (if key \<in> {None, Some []} then bind (elsewhere fn) (\<lambda>body. ret \<lparr>ir_body = body, ir_replayed = False\<rparr>)
     else bind (gets (\<lambda>(rows, s). findKey tenantId scope (the key) rows)) (\<lambda>existing.
       case existing of
         Some row \<Rightarrow>
           andThen (throwIf (ik_requestHash row \<noteq> requestHash) (Conflict ''Idempotency key was already used with a different request body''))
           (ret \<lparr>ir_body = ik_response row, ir_replayed = True\<rparr>)
       | None \<Rightarrow>
           bind (elsewhere fn) (\<lambda>body.
           andThen (modify env)
           (catchErr
             (andThen (createKey \<lparr>ik_tenantId = tenantId, ik_scope = scope, ik_key = the key,
                ik_requestHash = requestHash, ik_response = normalise body\<rparr>)
              (ret \<lparr>ir_body = body, ir_replayed = False\<rparr>))
             (\<lambda>err. if err = PrismaKnown ''P2002'' None
               then bind (gets (\<lambda>(rows, s). findKey tenantId scope (the key) rows)) (\<lambda>winner.
                 case winner of
                   Some row \<Rightarrow> ret \<lparr>ir_body = ik_response row, ir_replayed = True\<rparr>
                 | None \<Rightarrow> throw err)
               else throw err)))))"

section \<open>Laws\<close>

lemma elsewhere_run: "elsewhere m (rows, s) = (fst (m s), (rows, snd (m s)))"
  by (simp add: elsewhere_def Let_def split: prod.split)

lemma wp_elsewhere [wp]: "wp (elsewhere m) Q E = (\<lambda>(rows, s). wp m (\<lambda>x s'. Q x (rows, s')) (\<lambda>e s'. E e (rows, s')) s)"
  by (simp add: fun_eq_iff wp_def post_def elsewhere_def Let_def split: prod.split sum.split)

lemma run_found:
  assumes "k \<noteq> []" "findKey t sc k rows = Some row"
  shows "runIdempotent nf env t sc (Some k) h fn (rows, s) =
    (if ik_requestHash row = h then Inr \<lparr>ir_body = ik_response row, ir_replayed = True\<rparr>
     else Inl (Conflict ''Idempotency key was already used with a different request body''), (rows, s))"
  using assms by (simp add: runIdempotent_def op_defs)

lemma findKey_append:
  "findKey t sc k (rows @ [row]) = (case findKey t sc k rows of Some r \<Rightarrow> Some r | None \<Rightarrow>
     if ik_tenantId row = t \<and> ik_scope row = sc \<and> ik_key row = k then Some row else None)"
  unfolding findKey_def by (induction rows) auto

definition storedRow :: "('a \<Rightarrow> 'a) \<Rightarrow> ident \<Rightarrow> string \<Rightarrow> string \<Rightarrow> string \<Rightarrow> 'a \<Rightarrow> 'a idemRow" where
  "storedRow nf t sc k h b = \<lparr>ik_tenantId = t, ik_scope = sc, ik_key = k, ik_requestHash = h, ik_response = nf b\<rparr>"

lemma storedRow_sel [simp]:
  "ik_requestHash (storedRow nf t sc k h b) = h" "ik_response (storedRow nf t sc k h b) = nf b"
  by (simp_all add: storedRow_def)

text \<open>The first run, undisturbed or overtaken.\<close>

lemma run_fresh:
  assumes "k \<noteq> []" "findKey t sc k rows = None" "fn s = (Inr b, s1)" "env (rows, s1) = (rows', s')"
  shows "runIdempotent nf env t sc (Some k) h fn (rows, s) =
    (case findKey t sc k rows' of
       None \<Rightarrow> (Inr \<lparr>ir_body = b, ir_replayed = False\<rparr>, (rows' @ [storedRow nf t sc k h b], s'))
     | Some row \<Rightarrow> (Inr \<lparr>ir_body = ik_response row, ir_replayed = True\<rparr>, (rows', s')))"
  using assms
  by (simp add: runIdempotent_def op_defs elsewhere_def createKey_def catchErr_def storedRow_def split: option.split)

section \<open>Properties\<close>

text \<open>
  Property C24.  After a first run that stored its response, the same request is a replay: whatever the function
  would do, it is not called, nothing changes, and the normalised response comes back; the same key
  with another body is a conflict.
\<close>

theorem idempotent_replay:
  assumes "k \<noteq> []" "findKey t sc k rows = None" "findKey t sc k (fst (env (rows, snd (fn s)))) = None"
    and "runIdempotent nf env t sc (Some k) h fn (rows, s) = (Inr res, st)"
  shows "\<not> ir_replayed res \<and> runIdempotent nf env' t sc (Some k) h' fn' st =
    (if h' = h then Inr \<lparr>ir_body = nf (ir_body res), ir_replayed = True\<rparr>
     else Inl (Conflict ''Idempotency key was already used with a different request body''), st)"
proof (cases "fn s")
  case (Pair r s1)
  obtain rows' s' where e: "env (rows, s1) = (rows', s')" by (cases "env (rows, s1)")
  have none: "findKey t sc k rows' = None" using assms(3) by (simp add: Pair e)
  show ?thesis
  proof (cases r)
    case (Inl err)
    then show ?thesis using assms(1,2,4) Pair by (simp add: runIdempotent_def op_defs elsewhere_def)
  next
    case (Inr b)
    have "runIdempotent nf env t sc (Some k) h fn (rows, s) =
        (Inr \<lparr>ir_body = b, ir_replayed = False\<rparr>, (rows' @ [storedRow nf t sc k h b], s'))"
      using run_fresh [where fn = fn and s = s and env = env, OF assms(1,2) Pair [unfolded Inr] e] none by simp
    then have res: "res = \<lparr>ir_body = b, ir_replayed = False\<rparr>" "st = (rows' @ [storedRow nf t sc k h b], s')" using assms(4) by simp_all
    have "findKey t sc k (rows' @ [storedRow nf t sc k h b]) = Some (storedRow nf t sc k h b)"
      by (simp add: findKey_append none storedRow_def)
    from run_found [OF assms(1) this, of nf env' h' fn' s'] show ?thesis by (auto simp: res storedRow_def)
  qed
qed

text \<open>
  The promise of at most one run per key does not hold for requests that overlap: when the same
  request is served from start to end while the function of the first one has run and its response
  is not yet stored, the function has run twice, although both answers are the stored one.
\<close>

lemma overlapping_requests_run_twice:
  assumes "k \<noteq> []" "findKey t sc k rows = None" "fn s = (Inr b1, s1)" "fn s1 = (Inr b2, s2)"
  shows "runIdempotent nf (\<lambda>st. snd (runIdempotent nf (\<lambda>st. st) t sc (Some k) h fn st)) t sc (Some k) h fn (rows, s) =
    (Inr \<lparr>ir_body = nf b2, ir_replayed = True\<rparr>, (rows @ [storedRow nf t sc k h b2], s2))"
proof -
  have inner: "runIdempotent nf (\<lambda>st. st) t sc (Some k) h fn (rows, s1) =
      (Inr \<lparr>ir_body = b2, ir_replayed = False\<rparr>, (rows @ [storedRow nf t sc k h b2], s2))"
    using run_fresh [where fn = fn and s = s1 and env = "\<lambda>st. st" and nf = nf and h = h, OF assms(1,2,4) refl] assms(2) by simp
  have "findKey t sc k (rows @ [storedRow nf t sc k h b2]) = Some (storedRow nf t sc k h b2)"
    by (simp add: findKey_append assms(2) storedRow_def)
  then show ?thesis
    using run_fresh [where fn = fn and s = s and nf = nf and h = h and env = "\<lambda>st. snd (runIdempotent nf (\<lambda>st. st) t sc (Some k) h fn st)", OF assms(1-3)] inner
    by (simp add: storedRow_def)
qed

section \<open>Capturing orders under a key\<close>

text \<open>orders.controller.ts, \<open>create\<close>; the hash stands for the one of the request body.\<close>

definition capture_order ::
  "(orderDetails \<Rightarrow> orderDetails) \<Rightarrow> (createOrderDto \<Rightarrow> string) \<Rightarrow> ((world, orderDetails) idemState \<Rightarrow> (world, orderDetails) idemState) \<Rightarrow>
    int \<Rightarrow> (nat \<Rightarrow> world \<Rightarrow> world) \<Rightarrow> ident \<Rightarrow> createOrderDto \<Rightarrow> string option \<Rightarrow> ((world, orderDetails) idemState, orderDetails) op" where
  "capture_order nf hash env ttl retryEnv tenantId dto key =
    bind (runIdempotent nf env tenantId ''orders.create'' key (hash dto) (create_order ttl retryEnv tenantId dto))
      (\<lambda>result. ret (ir_body result))"

text \<open>
  A client that repeats its capture request under the same key, the first having been answered
  with the order, gets that order again and leaves the database as it is: no second order, hold or
  event.
\<close>

lemma repeated_capture:
  assumes "k \<noteq> []" "findKey t ''orders.create'' k rows = None"
    and "capture_order nf hash (\<lambda>st. st) ttl retryEnv t dto (Some k) (rows, w) = (Inr od, st)"
  shows "capture_order nf hash (\<lambda>st. st) ttl retryEnv t dto (Some k) st = (Inr (nf od), st)"
proof (cases "create_order ttl retryEnv t dto w")
  case (Pair r w')
  show ?thesis
  proof (cases r)
    case (Inl e)
    then show ?thesis using assms Pair by (simp add: capture_order_def runIdempotent_def op_defs elsewhere_def)
  next
    case (Inr b)
    let ?row = "storedRow nf t ''orders.create'' k (hash dto) b"
    have "st = (rows @ [?row], w')" "od = b"
      using assms(3) run_fresh [where env = "\<lambda>st. st" and nf = nf and h = "hash dto" and s = w and fn = "create_order ttl retryEnv t dto", OF assms(1,2) Pair [unfolded Inr] refl] assms(2)
      by (auto simp: capture_order_def op_defs)
    moreover have "findKey t ''orders.create'' k (rows @ [?row]) = Some ?row"
      by (simp add: findKey_append assms(2) storedRow_def)
    ultimately show ?thesis
      using run_found [OF assms(1), where t = t and sc = "''orders.create''" and rows = "rows @ [?row]" and row = ?row and s = w']
      by (simp add: capture_order_def op_defs)
  qed
qed

text \<open>Witnesses: a counter, and the demo order.\<close>

definition tick :: "(nat, nat) op" where
  "tick = (\<lambda>n. (Inr n, Suc n))"

lemma idempotent_replay_witness:
  "runIdempotent (\<lambda>x. x) (\<lambda>st. st) 7 ''s'' (Some ''k'') ''h'' tick ([storedRow (\<lambda>x. x) 7 ''s'' ''k'' ''h'' 0], 1) =
    (Inr \<lparr>ir_body = 0, ir_replayed = True\<rparr>, ([storedRow (\<lambda>x. x) 7 ''s'' ''k'' ''h'' 0], 1))"
proof -
  have "runIdempotent (\<lambda>x. x) (\<lambda>st. st) 7 ''s'' (Some ''k'') ''h'' tick ([], 0) =
      (Inr \<lparr>ir_body = 0, ir_replayed = False\<rparr>, ([storedRow (\<lambda>x. x) 7 ''s'' ''k'' ''h'' 0], 1))"
    by (simp add: run_fresh findKey_def tick_def)
  from idempotent_replay [OF _ _ _ this, where env' = "\<lambda>st. st" and h' = "''h''" and fn' = tick] show ?thesis
    by (simp add: findKey_def)
qed

lemma overlapping_requests_run_twice_witness:
  "snd (runIdempotent (\<lambda>x. x) (\<lambda>st. snd (runIdempotent (\<lambda>x. x) (\<lambda>st. st) 7 ''s'' (Some ''k'') ''h'' tick st)) 7 ''s'' (Some ''k'') ''h'' tick ([], 0)) =
    ([storedRow (\<lambda>x. x) 7 ''s'' ''k'' ''h'' 1], 2)"
  using overlapping_requests_run_twice [where k = "''k''" and t = 7 and sc = "''s''" and rows = "[]" and fn = tick and s = 0
      and nf = "\<lambda>x. x" and h = "''h''"]
  by (simp add: findKey_def tick_def)

lemma repeated_capture_witness:
  "\<exists>od st. capture_order (\<lambda>x. x) (\<lambda>_. ''h'') (\<lambda>st. st) 900 (\<lambda>_ w. w) 7 demoDto (Some ''k'') ([], demoBook) = (Inr od, st) \<and>
    capture_order (\<lambda>x. x) (\<lambda>_. ''h'') (\<lambda>st. st) 900 (\<lambda>_ w. w) 7 demoDto (Some ''k'') st = (Inr od, st)"
proof -
  obtain d w' where run: "create_order 900 (\<lambda>_ w. w) 7 demoDto demoBook = (Inr d, w')"
  proof -
    have "capturable 7 demoDto demoBook"
      by (simp add: capturable_def duplicateRef_def demoDto_def demoBook_def demoReserving_def demoWorld_def demoOrder_def)
    moreover have "co_reserveOnCreate demoDto \<noteq> Some True" "dtoOk demoDto" by (simp_all add: demoDto_def dtoOk_def)
    ultimately show thesis
      using that create_order_spec [of demoDto demoBook, where ttl = 900 and env = "\<lambda>_ w. w" and t = 7] demoBook_core
      by (auto split: prod.splits sum.splits)
  qed
  have "capture_order (\<lambda>x. x) (\<lambda>_. ''h'') (\<lambda>st. st) 900 (\<lambda>_ w. w) 7 demoDto (Some ''k'') ([], demoBook) =
      (Inr d, ([storedRow (\<lambda>x. x) 7 ''orders.create'' ''k'' ''h'' d], w'))"
    using run_fresh [where env = "\<lambda>st. st" and nf = "\<lambda>x. x" and h = "''h''" and s = demoBook and rows = "[]" and k = "''k''" and t = 7 and sc = "''orders.create''"
        and fn = "create_order 900 (\<lambda>_ w. w) 7 demoDto", OF _ _ run refl]
    by (simp add: capture_order_def op_defs findKey_def)
  moreover from repeated_capture [OF _ _ this] have "capture_order (\<lambda>x. x) (\<lambda>_. ''h'') (\<lambda>st. st) 900 (\<lambda>_ w. w) 7 demoDto (Some ''k'')
      ([storedRow (\<lambda>x. x) 7 ''orders.create'' ''k'' ''h'' d], w') = (Inr d, ([storedRow (\<lambda>x. x) 7 ''orders.create'' ''k'' ''h'' d], w'))"
    by (simp add: findKey_def)
  ultimately show ?thesis by blast
qed

end
