(* ===== verification/Events.thy ===== *)
theory Events
  imports Orders
begin

text \<open>
  backend/src/events/events.service.ts: domain events, delivered to the subscribers of the same
  process at once and to those of other processes over a Redis channel, where each message names
  its origin so that a process can drop its own echo.  \<open>publish\<close> of the theory Orders is the
  same-process path as the order services see it.
\<close>

section \<open>One process\<close>

record procState =
  pr_instance :: string
  pr_redis :: bool
  pr_delivered :: "domainEvent list"

datatype payload = Malformed string | Wire domainEvent string

definition publishEvent :: "domainEvent \<Rightarrow> procState \<Rightarrow> procState \<times> payload list" where
  "publishEvent e p =
    (p\<lparr>pr_delivered := pr_delivered p @ [e]\<rparr>, if pr_redis p then [Wire e (pr_instance p)] else [])"

definition onRedisMessage :: "payload \<Rightarrow> procState \<Rightarrow> procState" where
  "onRedisMessage m p =
    (case m of
       Malformed _ \<Rightarrow> p
     | Wire e src \<Rightarrow> if src = pr_instance p then p else p\<lparr>pr_delivered := pr_delivered p @ [e]\<rparr>)"

section \<open>The stream of a client\<close>

definition eventType :: "domainEvent \<Rightarrow> string" where
  "eventType e = (case e of InventoryAtp _ _ \<Rightarrow> ''inventory.atp'' | OrderStatusEvent _ _ _ \<Rightarrow> ''order.status'')"

record sseMessage =
  sm_type :: string
  sm_subjectId :: "ident option"
  sm_at :: int
  sm_data :: "OrderStatus option"

definition sseMessageOf :: "int \<Rightarrow> domainEvent \<Rightarrow> sseMessage" where
  "sseMessageOf ts e = \<lparr>sm_type = eventType e, sm_subjectId = Some (de_subjectId e), sm_at = ts,
     sm_data = (case e of OrderStatusEvent _ _ st \<Rightarrow> Some st | InventoryAtp _ _ \<Rightarrow> None)\<rparr>"

definition heartbeat :: "int \<Rightarrow> sseMessage" where
  "heartbeat ts = \<lparr>sm_type = ''heartbeat'', sm_subjectId = None, sm_at = ts, sm_data = None\<rparr>"

text \<open>The stream merges the tenant's events with ticks of the clock (\<open>None\<close>).\<close>

definition streamFor :: "ident \<Rightarrow> (int \<times> domainEvent option) list \<Rightarrow> sseMessage list" where
  "streamFor tenantId feed = List.map_filter (\<lambda>(ts, x).
     case x of
       None \<Rightarrow> Some (heartbeat ts)
     | Some e \<Rightarrow> if de_tenantId e = tenantId then Some (sseMessageOf ts e) else None) feed"

section \<open>Processes on one channel\<close>

text \<open>
  Redis hands every message to every subscriber, in the order of publication, at some later time;
  other programs may put text on the channel that is no event.
\<close>

record bus =
  bu_procs :: "procState list"
  bu_inboxes :: "payload list list"
  bu_log :: "domainEvent list"

inductive busStep :: "bus \<Rightarrow> bus \<Rightarrow> bool" where
  publishing: "i < length (bu_procs b) \<Longrightarrow> publishEvent e (bu_procs b ! i) = (p, ms) \<Longrightarrow>
    busStep b (b\<lparr>bu_procs := (bu_procs b)[i := p], bu_inboxes := map (\<lambda>q. q @ ms) (bu_inboxes b), bu_log := bu_log b @ [e]\<rparr>)"
| receiving: "j < length (bu_procs b) \<Longrightarrow> bu_inboxes b ! j = m # rest \<Longrightarrow>
    busStep b (b\<lparr>bu_procs := (bu_procs b)[j := onRedisMessage m (bu_procs b ! j)], bu_inboxes := (bu_inboxes b)[j := rest]\<rparr>)"
| noise: "busStep b (b\<lparr>bu_inboxes := map (\<lambda>q. q @ [Malformed t]) (bu_inboxes b)\<rparr>)"

definition startBus :: "string list \<Rightarrow> bus" where
  "startBus ids = \<lparr>bu_procs = map (\<lambda>i. \<lparr>pr_instance = i, pr_redis = True, pr_delivered = []\<rparr>) ids,
     bu_inboxes = map (\<lambda>_. []) ids, bu_log = []\<rparr>"

text \<open>The events a process has still to deliver: those in its inbox that are not its own.\<close>

definition foreign :: "string \<Rightarrow> payload list \<Rightarrow> domainEvent list" where
  "foreign me q = List.map_filter (\<lambda>m. case m of Wire e src \<Rightarrow> if src = me then None else Some e | Malformed _ \<Rightarrow> None) q"

lemma foreign_simps [simp]:
  "foreign me [] = []" "foreign me (m # q) = (case m of Wire e src \<Rightarrow> if src = me then foreign me q else e # foreign me q | Malformed _ \<Rightarrow> foreign me q)"
  "foreign me (q @ q') = foreign me q @ foreign me q'"
proof -
  show "foreign me [] = []" by (simp add: foreign_def List.map_filter_simps)
  show "foreign me (m # q) = (case m of Wire e src \<Rightarrow> if src = me then foreign me q else e # foreign me q | Malformed _ \<Rightarrow> foreign me q)"
    by (simp add: foreign_def List.map_filter_simps split: payload.split)
  show "foreign me (q @ q') = foreign me q @ foreign me q'"
    by (simp add: foreign_def List.map_filter_def)
qed

definition busInv :: "string list \<Rightarrow> bus \<Rightarrow> bool" where
  "busInv ids b \<longleftrightarrow> map pr_instance (bu_procs b) = ids \<and> (\<forall>p \<in> set (bu_procs b). pr_redis p) \<and>
    length (bu_inboxes b) = length ids \<and>
    (\<forall>j < length ids. mset (pr_delivered (bu_procs b ! j)) + mset (foreign (ids ! j) (bu_inboxes b ! j)) = mset (bu_log b))"

lemma busInvD:
  assumes "busInv ids b" "j < length ids"
  shows "pr_instance (bu_procs b ! j) = ids ! j" "pr_redis (bu_procs b ! j)"
    "length (bu_procs b) = length ids" "length (bu_inboxes b) = length ids"
    "mset (pr_delivered (bu_procs b ! j)) + mset (foreign (ids ! j) (bu_inboxes b ! j)) = mset (bu_log b)"
proof -
  have inst: "map pr_instance (bu_procs b) = ids" using assms(1) by (simp add: busInv_def)
  then show len: "length (bu_procs b) = length ids" by (metis length_map)
  show "pr_instance (bu_procs b ! j) = ids ! j" using inst len assms(2) by (metis nth_map)
  show "pr_redis (bu_procs b ! j)" using assms len by (simp add: busInv_def)
  show "length (bu_inboxes b) = length ids" using assms(1) by (simp add: busInv_def)
  show "mset (pr_delivered (bu_procs b ! j)) + mset (foreign (ids ! j) (bu_inboxes b ! j)) = mset (bu_log b)"
    using assms by (simp add: busInv_def)
qed

lemma busInvI:
  assumes "length (bu_procs b) = length ids" "length (bu_inboxes b) = length ids"
    and "\<And>j. j < length ids \<Longrightarrow> pr_instance (bu_procs b ! j) = ids ! j \<and> pr_redis (bu_procs b ! j) \<and>
      mset (pr_delivered (bu_procs b ! j)) + mset (foreign (ids ! j) (bu_inboxes b ! j)) = mset (bu_log b)"
  shows "busInv ids b"
  unfolding busInv_def
proof (intro conjI)
  show "map pr_instance (bu_procs b) = ids" using assms(1,3) by (intro nth_equalityI) auto
  show "\<forall>p \<in> set (bu_procs b). pr_redis p" using assms(1,3) by (simp add: all_set_conv_all_nth)
qed (use assms(2,3) in auto)

lemma busInv_start: "busInv ids (startBus ids)"
  by (rule busInvI) (simp_all add: startBus_def)

lemma onRedisMessage_same [simp]:
  "pr_instance (onRedisMessage m q) = pr_instance q" "pr_redis (onRedisMessage m q) = pr_redis q"
  by (simp_all add: onRedisMessage_def split: payload.split)

lemma delivered_on_reception:
  "mset (pr_delivered (onRedisMessage m p)) + mset (foreign (pr_instance p) q) =
    mset (pr_delivered p) + mset (foreign (pr_instance p) (m # q))"
  by (simp add: onRedisMessage_def split: payload.split)

lemma busInv_length: "busInv ids b \<Longrightarrow> length (bu_procs b) = length ids"
  by (auto simp: busInv_def)

lemma busInv_step:
  assumes "busStep b b'" "busInv ids b" "distinct ids"
  shows "busInv ids b'"
  using assms(1)
proof cases
  case (publishing i e p ms)
  have i: "i < length ids" using publishing(2) busInv_length [OF assms(2)] by simp
  note D = busInvD [OF assms(2)]
  have p: "p = (bu_procs b ! i)\<lparr>pr_delivered := pr_delivered (bu_procs b ! i) @ [e]\<rparr>" "ms = [Wire e (ids ! i)]"
    using publishing(3) D(1,2) [OF i] by (auto simp: publishEvent_def)
  show ?thesis
  proof (rule busInvI)
    fix j assume j: "j < length ids"
    then have "ids ! i = ids ! j \<longleftrightarrow> i = j" using i assms(3) by (simp add: nth_eq_iff_index_eq)
    then show "pr_instance (bu_procs b' ! j) = ids ! j \<and> pr_redis (bu_procs b' ! j) \<and>
        mset (pr_delivered (bu_procs b' ! j)) + mset (foreign (ids ! j) (bu_inboxes b' ! j)) = mset (bu_log b')"
      using D(1,2,3,4) [OF j] D(5) [OF j, symmetric] i j by (simp add: publishing(1) p nth_list_update)
  qed (simp_all add: publishing(1) D(3,4) [OF i])
next
  case (receiving i m rest)
  have i: "i < length ids" using receiving(2) busInv_length [OF assms(2)] by simp
  note D = busInvD [OF assms(2)]
  show ?thesis
  proof (rule busInvI)
    fix j assume j: "j < length ids"
    have "mset (pr_delivered (onRedisMessage m (bu_procs b ! i))) + mset (foreign (ids ! i) rest) = mset (bu_log b)"
      using delivered_on_reception [of m "bu_procs b ! i" rest] D(1,5) [OF i] receiving(3) by simp
    then show "pr_instance (bu_procs b' ! j) = ids ! j \<and> pr_redis (bu_procs b' ! j) \<and>
        mset (pr_delivered (bu_procs b' ! j)) + mset (foreign (ids ! j) (bu_inboxes b' ! j)) = mset (bu_log b')"
      using D(1,2,3,4,5) [OF j] i j by (cases "i = j") (simp_all add: receiving(1))
  qed (simp_all add: receiving(1) D(3,4) [OF i])
next
  case (noise t)
  then show ?thesis using assms(2) by (simp add: busInv_def)
qed

definition reachableBus :: "string list \<Rightarrow> bus \<Rightarrow> bool" where
  "reachableBus ids b \<longleftrightarrow> busStep\<^sup>*\<^sup>* (startBus ids) b"

lemma busInv_reachable: "busStep\<^sup>*\<^sup>* (startBus ids) b \<Longrightarrow> distinct ids \<Longrightarrow> busInv ids b"
  by (induction rule: rtranclp_induct) (auto intro: busInv_start busInv_step)


text \<open>
  The stream of a tenant shows its own events and heartbeats, in order, and nothing of other
  tenants.
\<close>

lemma stream_isolated:
  "streamFor t feed = map (\<lambda>(ts, x). case x of None \<Rightarrow> heartbeat ts | Some e \<Rightarrow> sseMessageOf ts e)
    (filter (\<lambda>(ts, x). case x of None \<Rightarrow> True | Some e \<Rightarrow> de_tenantId e = t) feed)"
  unfolding streamFor_def by (induction feed) (auto simp: List.map_filter_simps split: option.splits if_splits)


end
