(* ===== verification/Text.thy ===== *)
theory Text
  imports Payments
begin

text \<open>
  The string functions of JavaScript and Node that the services use.  A string is the list of its
  UTF-8 bytes and so is a \<open>Buffer\<close>; \<open>utf8\<close> conversions are therefore the identity.
\<close>

section \<open>String methods\<close>

definition startsWith :: "string \<Rightarrow> string \<Rightarrow> bool" where
  "startsWith s p \<longleftrightarrow> take (length p) s = p"

lemma startsWith_append [simp]: "startsWith (p @ s) p"
  by (simp add: startsWith_def)

lemma startsWithD: "startsWith s p \<Longrightarrow> s = p @ drop (length p) s"
  by (metis append_take_drop_id startsWith_def)

fun splitOn :: "char \<Rightarrow> string \<Rightarrow> string list" where
  "splitOn c [] = [[]]"
| "splitOn c (x # xs) =
    (if x = c then [] # splitOn c xs
     else case splitOn c xs of y # ys \<Rightarrow> (x # y) # ys | [] \<Rightarrow> [[x]])"

lemma splitOn_nonempty [simp]: "splitOn c s \<noteq> []"
  by (induction s) (auto split: list.split)

lemma splitOn_none: "c \<notin> set s \<Longrightarrow> splitOn c s = [s]"
  by (induction s) auto

lemma splitOn_append: "c \<notin> set s \<Longrightarrow> splitOn c (s @ c # rest) = s # splitOn c rest"
  by (induction s) auto

fun joinWith :: "string \<Rightarrow> string list \<Rightarrow> string" where
  "joinWith sep [] = []"
| "joinWith sep [x] = x"
| "joinWith sep (x # y # ys) = x @ sep @ joinWith sep (y # ys)"

text \<open>Splitting undoes joining when no part holds the separator.\<close>

lemma splitOn_joinWith:
  "xs \<noteq> [] \<Longrightarrow> \<forall>x \<in> set xs. c \<notin> set x \<Longrightarrow> splitOn c (joinWith [c] xs) = xs"
proof (induction xs)
  case (Cons x xs)
  show ?case
  proof (cases xs)
    case Nil
    then show ?thesis using Cons.prems by (simp add: splitOn_none)
  next
    case (Cons y ys)
    then show ?thesis using Cons.IH Cons.prems by (simp add: splitOn_append)
  qed
qed simp

definition isBlank :: "char \<Rightarrow> bool" where
  "isBlank c \<longleftrightarrow> c \<in> {CHR '' '', CHR 0x09, CHR 0x0A, CHR 0x0B, CHR 0x0C, CHR 0x0D}"

definition trimStart :: "string \<Rightarrow> string" where
  "trimStart s = dropWhile isBlank s"

definition trim :: "string \<Rightarrow> string" where
  "trim s = rev (trimStart (rev (trimStart s)))"

section \<open>Hexadecimal\<close>

definition hexDigit :: "nat \<Rightarrow> char" where
  "hexDigit n = char_of (if n < 10 then n + 48 else n + 87)"

text \<open>\<open>Buffer.from(s, 'hex')\<close>: pairs of digits up to the first that is none.\<close>

definition hexValue :: "char \<Rightarrow> nat option" where
  "hexValue c = (let n = of_char c :: nat in
     if 48 \<le> n \<and> n \<le> 57 then Some (n - 48) else if 97 \<le> n \<and> n \<le> 102 then Some (n - 87)
     else if 65 \<le> n \<and> n \<le> 70 then Some (n - 55) else None)"

fun hexDecode :: "string \<Rightarrow> string" where
  "hexDecode (a # b # rest) =
    (case (hexValue a, hexValue b) of
       (Some x, Some y) \<Rightarrow> char_of (16 * x + y) # hexDecode rest
     | _ \<Rightarrow> [])"
| "hexDecode _ = []"

definition hexEncode :: "string \<Rightarrow> string" where
  "hexEncode s = concat (map (\<lambda>c. let n = of_char c :: nat in [hexDigit (n div 16), hexDigit (n mod 16)]) s)"

lemma hexValue_digit: "n < 16 \<Longrightarrow> hexValue (hexDigit n) = Some n"
  by (simp add: hexDigit_def hexValue_def)

lemma hexDecode_encode: "hexDecode (hexEncode s) = s"
proof (induction s)
  case (Cons c s)
  have n: "of_char c < (256 :: nat)" by simp
  have "hexValue (hexDigit (of_char c div 16)) = Some (of_char c div 16)"
    by (rule hexValue_digit) (simp add: less_mult_imp_div_less)
  moreover have "hexValue (hexDigit (of_char c mod 16)) = Some (of_char c mod 16)" by (rule hexValue_digit) simp
  ultimately show ?case using Cons by (simp add: hexEncode_def Let_def)
qed (simp add: hexEncode_def)

section \<open>Base64\<close>

text \<open>The digits are A to Z, a to z, 0 to 9, + and /.\<close>

definition base64Digit :: "nat \<Rightarrow> char" where
  "base64Digit n = char_of (if n < 26 then n + 65 else if n < 52 then n + 71 else if n < 62 then n - 4
     else if n = 62 then 43 else 47)"

definition base64Value :: "char \<Rightarrow> nat option" where
  "base64Value c = (let n = of_char c :: nat in
     if 65 \<le> n \<and> n \<le> 90 then Some (n - 65) else if 97 \<le> n \<and> n \<le> 122 then Some (n - 71)
     else if 48 \<le> n \<and> n \<le> 57 then Some (n + 4)
     else if n = 43 \<or> n = 45 then Some 62 else if n = 47 \<or> n = 95 then Some 63 else None)"

definition sextets :: "nat \<Rightarrow> nat list" where
  "sextets n = [n div 262144, n div 4096 mod 64, n div 64 mod 64, n mod 64]"

fun base64Encode :: "string \<Rightarrow> string" where
  "base64Encode [] = []"
| "base64Encode [a] = map base64Digit (take 2 (sextets (65536 * of_char a))) @ ''==''"
| "base64Encode [a, b] = map base64Digit (take 3 (sextets (65536 * of_char a + 256 * of_char b))) @ ''=''"
| "base64Encode (a # b # c # rest) =
    map base64Digit (sextets (65536 * of_char a + 256 * of_char b + of_char c)) @ base64Encode rest"

text \<open>
  \<open>Buffer.from(s, 'base64')\<close>: what is no digit is skipped (the two of the URL alphabet count), a \<open>=\<close>
  ends the text, and left-over bits are dropped.
\<close>

fun fromSextets :: "nat list \<Rightarrow> string" where
  "fromSextets (p # q # r # s # rest) =
    (let n = 262144 * p + 4096 * q + 64 * r + s in
     char_of (n div 65536) # char_of (n div 256) # char_of n # fromSextets rest)"
| "fromSextets [p, q, r] = (let n = 262144 * p + 4096 * q + 64 * r in [char_of (n div 65536), char_of (n div 256)])"
| "fromSextets [p, q] = [char_of ((262144 * p + 4096 * q) div 65536)]"
| "fromSextets _ = []"

definition base64Decode :: "string \<Rightarrow> string" where
  "base64Decode s = fromSextets (List.map_filter base64Value (takeWhile (\<lambda>c. c \<noteq> CHR ''='') s))"

lemma base64_digit:
  assumes "n < 64"
  shows "base64Value (base64Digit n) = Some n" "base64Digit n \<notin> {CHR ''='', CHR '':'', CHR ''.''}"
proof -
  consider "n < 26" | "26 \<le> n" "n < 52" | "52 \<le> n" "n < 62" | "n = 62" | "n = 63" using assms by linarith
  then have "base64Value (base64Digit n) = Some n \<and> of_char (base64Digit n) \<notin> {61, 58, 46 :: nat}"
  proof cases
    case 3
    obtain m where m: "n = m + 52" using 3(1) le_Suc_ex [of 52 n] by (auto simp: add.commute)
    moreover have "m < 10" using 3(2) m by simp
    ultimately show ?thesis by (simp add: base64Digit_def base64Value_def)
  qed (auto simp: base64Digit_def base64Value_def)
  then show "base64Value (base64Digit n) = Some n" "base64Digit n \<notin> {CHR ''='', CHR '':'', CHR ''.''}" by auto
qed

lemma sextets_bound: "n < 16777216 \<Longrightarrow> \<forall>m \<in> set (sextets n). m < 64"
  by (simp add: sextets_def less_mult_imp_div_less)

lemma digits64: "n = 64 * q + r \<Longrightarrow> q = 64 * q' + r' \<Longrightarrow> q' = 64 * q'' + r'' \<Longrightarrow>
    262144 * q'' + 4096 * r'' + 64 * r' + r = (n :: nat)"
  by simp

lemma sextets_sum: "262144 * (n div 262144) + 4096 * (n div 4096 mod 64) + 64 * (n div 64 mod 64) + n mod 64 = (n :: nat)"
proof -
  have d: "n div 4096 = n div 64 div 64" "n div 262144 = n div 64 div 64 div 64"
    using div_mult2_eq [of n 64 64] div_mult2_eq [of n 4096 64] by simp_all
  show ?thesis unfolding d by (rule digits64 [of n "n div 64" _ "n div 64 div 64"]) (rule mult_div_mod_eq [symmetric])+
qed

lemma byte_parts:
  fixes a b c :: nat
  assumes "a < 256" "b < 256" "c < 256"
  shows "(65536 * a + 256 * b + c) div 65536 = a" "(65536 * a + 256 * b + c) div 256 mod 256 = b" "(65536 * a + 256 * b + c) mod 256 = c"
    "65536 * a + 256 * b + c < 16777216"
proof -
  have low: "256 * b + c < 65536" using assms by linarith
  then show "(65536 * a + 256 * b + c) div 65536 = a" by (simp add: add.assoc)
  have "(65536 * a + 256 * b + c) div 256 = 256 * a + b"
  proof -
    have "65536 * a + 256 * b + c = 256 * (256 * a + b) + c" by simp
    then show ?thesis using assms(3) by (metis add.right_neutral div_less div_mult_self4 mult.commute zero_neq_numeral)
  qed
  then show "(65536 * a + 256 * b + c) div 256 mod 256 = b" using assms(2) by simp
  have "65536 * a + 256 * b + c = c + (256 * a + b) * 256" by simp
  then show "(65536 * a + 256 * b + c) mod 256 = c" using assms(3) by (metis mod_less mod_mult_self1)
  show "65536 * a + 256 * b + c < 16777216" using assms by linarith
qed

lemma char_of_div: "char_of (n div 256) = char_of (n div 256 mod (256 :: nat))"
  by simp

text \<open>Decoding undoes encoding.\<close>

lemma digits_decode:
  assumes "\<forall>n \<in> set ns. n < 64"
  shows "List.map_filter base64Value (map base64Digit ns) = ns"
    "takeWhile (\<lambda>c. c \<noteq> CHR ''='') (map base64Digit ns @ rest) = map base64Digit ns @ takeWhile (\<lambda>c. c \<noteq> CHR ''='') rest"
    "List.map_filter base64Value (map base64Digit ns @ cs) = ns @ List.map_filter base64Value cs"
  using assms base64_digit by (induction ns) (auto simp: List.map_filter_simps)

lemma base64Decode_encode: "base64Decode (base64Encode s) = s"
proof (induction s rule: base64Encode.induct)
  case 1
  then show ?case by (simp add: base64Decode_def List.map_filter_simps)
next
  case (2 a)
  let ?n = "65536 * of_char a :: nat"
  have ns: "take 2 (sextets ?n) = [?n div 262144, ?n div 4096 mod 64]" "?n div 64 mod 64 = 0" "?n mod 64 = 0"
    by (simp_all add: sextets_def)
  have p: "?n div 65536 = of_char a" "?n < 16777216" using byte_parts [of "of_char a" 0 0] by simp_all
  have "\<forall>m \<in> set (take 2 (sextets ?n)). m < 64" using sextets_bound [OF p(2)] by (meson in_set_takeD)
  from digits_decode [OF this] have "base64Decode (base64Encode [a]) = fromSextets (take 2 (sextets ?n))"
    by (simp add: base64Decode_def List.map_filter_simps)
  also have "262144 * (?n div 262144) + 4096 * (?n div 4096 mod 64) = ?n" using sextets_sum [of ?n] ns by linarith
  then have "fromSextets (take 2 (sextets ?n)) = [char_of (?n div 65536)]" unfolding ns(1) by simp
  also have "\<dots> = [a]" unfolding p(1) by simp
  finally show ?case .
next
  case (3 a b)
  let ?n = "65536 * of_char a + 256 * of_char b :: nat"
  have "?n = 64 * (1024 * of_char a + 4 * of_char b)" by simp
  then have ns: "take 3 (sextets ?n) = [?n div 262144, ?n div 4096 mod 64, ?n div 64 mod 64]" "?n mod 64 = 0"
    by (simp add: sextets_def, metis mod_mult_self1_is_0)
  have p: "?n div 65536 = of_char a" "?n div 256 mod 256 = of_char b" "?n < 16777216"
    using byte_parts [of "of_char a" "of_char b" 0] by simp_all
  have "\<forall>m \<in> set (take 3 (sextets ?n)). m < 64" using sextets_bound [OF p(3)] by (meson in_set_takeD)
  from digits_decode [OF this] have "base64Decode (base64Encode [a, b]) = fromSextets (take 3 (sextets ?n))"
    by (simp add: base64Decode_def List.map_filter_simps)
  also have "262144 * (?n div 262144) + 4096 * (?n div 4096 mod 64) + 64 * (?n div 64 mod 64) = ?n" using sextets_sum [of ?n] ns(2) by linarith
  then have "fromSextets (take 3 (sextets ?n)) = [char_of (?n div 65536), char_of (?n div 256)]" unfolding ns(1) by (simp only: fromSextets.simps Let_def)
  also have "\<dots> = [a, b]" unfolding p(1) char_of_div [of ?n] p(2) by simp
  finally show ?case .
next
  case (4 a b c rest)
  let ?n = "65536 * of_char a + 256 * of_char b + of_char c :: nat"
  have p: "?n div 65536 = of_char a" "?n div 256 mod 256 = of_char b" "?n mod 256 = of_char c" "?n < 16777216"
    using byte_parts [of "of_char a" "of_char b" "of_char c"] by simp_all
  have "\<forall>m \<in> set (sextets ?n). m < 64" by (rule sextets_bound [OF p(4)])
  from digits_decode [OF this]
  have "base64Decode (base64Encode (a # b # c # rest)) =
      fromSextets (sextets ?n @ List.map_filter base64Value (takeWhile (\<lambda>c. c \<noteq> CHR ''='') (base64Encode rest)))"
    by (simp add: base64Decode_def)
  also have "\<dots> = [char_of (?n div 65536), char_of (?n div 256), char_of ?n] @ base64Decode (base64Encode rest)"
    unfolding sextets_def base64Decode_def append.simps fromSextets.simps Let_def sextets_sum by simp
  also have "\<dots> = a # b # c # rest"
    unfolding p(1) char_of_div [of ?n] p(2) char_of_mod_256 [of ?n, symmetric] p(3) 4 by simp
  finally show ?case .
qed

lemma base64_no_separator: "CHR '':'' \<notin> set (base64Encode s)" "CHR ''.'' \<notin> set (base64Encode s)"
proof -
  have digits: "\<forall>d \<in> set (map base64Digit (take k (sextets n))). d \<notin> {CHR '':'', CHR ''.''}" if "n < 16777216" for k n
  proof
    fix d assume "d \<in> set (map base64Digit (take k (sextets n)))"
    then obtain m where m: "d = base64Digit m" "m \<in> set (sextets n)" by (auto dest: in_set_takeD)
    then have "m < 64" using sextets_bound [OF that] by blast
    then show "d \<notin> {CHR '':'', CHR ''.''}" using base64_digit(2) m(1) by auto
  qed
  have all: "\<forall>d \<in> set (base64Encode s). d \<notin> {CHR '':'', CHR ''.''}"
  proof (induction s rule: base64Encode.induct)
    case (2 a)
    have "65536 * of_char a < (16777216 :: nat)" using byte_parts(4) [of "of_char a" 0 0] by simp
    from digits [OF this, of 2] show ?case unfolding base64Encode.simps set_append by auto
  next
    case (3 a b)
    have "65536 * of_char a + 256 * of_char b < (16777216 :: nat)" using byte_parts(4) [of "of_char a" "of_char b" 0] by simp
    from digits [OF this, of 3] show ?case unfolding base64Encode.simps set_append by auto
  next
    case (4 a b c rest)
    have "65536 * of_char a + 256 * of_char b + of_char c < (16777216 :: nat)"
      using byte_parts(4) [of "of_char a" "of_char b" "of_char c"] by simp
    from digits [OF this, of 4] 4 show ?case unfolding base64Encode.simps set_append by (auto simp: sextets_def)
  qed simp
  then show "CHR '':'' \<notin> set (base64Encode s)" "CHR ''.'' \<notin> set (base64Encode s)" by auto
qed

end
