(* ===== verification/Auth.thy ===== *)
theory Auth
  imports Text
begin

text \<open>
  backend/src/auth: who a request comes from and what it may do.  API keys, end users with
  passwords, signed session tokens, the global guard with its role check, and the requests of the two
  controllers.  SHA-256, bcrypt and JSON Web Tokens are libraries: they are the parameter
  \<open>authLib\<close>, of which the code relies on \<open>jwtLaw\<close> and \<open>bcryptLaw\<close>.
\<close>

section \<open>Rows and state\<close>

datatype ApiRole = ADMIN | OPERATOR | READ_ONLY

record apiKeyRow =
  ky_id :: ident
  ky_tenantId :: ident
  ky_name :: string
  ky_keyHash :: string
  ky_prefix :: string
  ky_role :: ApiRole
  ky_active :: bool
  ky_lastUsedAt :: "int option"
  ky_createdAt :: int

record userRow =
  us_id :: ident
  us_tenantId :: ident
  us_email :: string
  us_passwordHash :: string
  us_name :: "string option"
  us_role :: ApiRole
  us_active :: bool
  us_lastLoginAt :: "int option"
  us_createdAt :: int

text \<open>\<open>randomOf\<close> is the generator of random bytes, here the hexadecimal text of a draw.\<close>

record authState =
  au_world :: world
  apiKeys :: "apiKeyRow list"
  users :: "userRow list"
  randomOf :: "nat \<Rightarrow> string"

record jwtClaims =
  cl_sub :: ident
  cl_tenantId :: ident
  cl_role :: ApiRole
  cl_email :: string

record authLib =
  ax_sha256 :: "string \<Rightarrow> string"
  ax_bcryptHash :: "nat \<Rightarrow> string \<Rightarrow> string"
  ax_bcryptCompare :: "string \<Rightarrow> string \<Rightarrow> bool"
  ax_jwtSign :: "string \<Rightarrow> string \<Rightarrow> int \<Rightarrow> jwtClaims \<Rightarrow> string"
  ax_jwtVerify :: "string \<Rightarrow> int \<Rightarrow> string \<Rightarrow> jwtClaims option"
  ax_lifetime :: "string \<Rightarrow> int"
  ax_idText :: "ident \<Rightarrow> string"

text \<open>The environment variables.\<close>

record authConfig =
  ac_AUTH_REQUIRED :: "string option"
  ac_JWT_SECRET :: "string option"
  ac_JWT_EXPIRES_IN :: "string option"

definition onWorld :: "(world, 'a) op \<Rightarrow> (authState, 'a) op" where
  "onWorld = zoom au_world au_world_update"

lemma wp_onWorld [wp]:
  "wp (onWorld m) Q E = (\<lambda>s. wp m (\<lambda>x w. Q x (s\<lparr>au_world := w\<rparr>)) (\<lambda>e w. E e (s\<lparr>au_world := w\<rparr>)) (au_world s))"
  by (simp add: onWorld_def wp_zoom)

section \<open>API keys\<close>

record authContext =
  ct_tenantId :: ident
  ct_role :: ApiRole
  ct_keyId :: ident

definition hashKey :: "authLib \<Rightarrow> string \<Rightarrow> string" where
  "hashKey lib raw = ax_sha256 lib raw"

definition randomHex :: "(authState, string) op" where
  "randomHex = bind (onWorld freshId) (\<lambda>i. gets (\<lambda>s. randomOf s i))"

definition newApiKey :: "authLib \<Rightarrow> ident \<Rightarrow> string \<Rightarrow> ApiRole \<Rightarrow> string \<Rightarrow> ident \<Rightarrow> int \<Rightarrow> apiKeyRow" where
  "newApiKey lib tenantId nam role secret i ts =
    \<lparr>ky_id = i, ky_tenantId = tenantId, ky_name = nam, ky_keyHash = hashKey lib secret,
     ky_prefix = take 12 secret, ky_role = role, ky_active = True, ky_lastUsedAt = None, ky_createdAt = ts\<rparr>"

text \<open>The column \<open>keyHash\<close> is unique.\<close>

definition create_key :: "authLib \<Rightarrow> ident \<Rightarrow> string \<Rightarrow> ApiRole \<Rightarrow> (authState, apiKeyRow \<times> string) op" where
  "create_key lib tenantId nam role =
    bind randomHex (\<lambda>r. let secret = ''oms_'' @ r in
    bind (gets (\<lambda>s. \<exists>k \<in> set (apiKeys s). ky_keyHash k = hashKey lib secret)) (\<lambda>taken.
    andThen (throwIf taken (PrismaKnown ''P2002'' None))
    (bind (onWorld freshId) (\<lambda>i.
     bind (onWorld now) (\<lambda>ts.
     bind (createRow apiKeys apiKeys_update (newApiKey lib tenantId nam role secret i ts)) (\<lambda>apiKey.
     ret (apiKey, secret)))))))"

record apiKeyView =
  kv_id :: ident
  kv_name :: string
  kv_prefix :: string
  kv_role :: ApiRole
  kv_active :: bool
  kv_lastUsedAt :: "int option"
  kv_createdAt :: int

definition keyView :: "apiKeyRow \<Rightarrow> apiKeyView" where
  "keyView k = \<lparr>kv_id = ky_id k, kv_name = ky_name k, kv_prefix = ky_prefix k, kv_role = ky_role k,
     kv_active = ky_active k, kv_lastUsedAt = ky_lastUsedAt k, kv_createdAt = ky_createdAt k\<rparr>"

definition list_keys :: "ident \<Rightarrow> (authState, apiKeyView list) op" where
  "list_keys tenantId = gets (\<lambda>s. map keyView (filter (\<lambda>k. ky_tenantId k = tenantId) (apiKeys s)))"

definition set_key_active :: "ident \<Rightarrow> ident \<Rightarrow> bool \<Rightarrow> (authState, apiKeyRow) op" where
  "set_key_active tenantId i active =
    bind (gets (\<lambda>s. find (\<lambda>k. ky_id k = i \<and> ky_tenantId k = tenantId) (apiKeys s))) (\<lambda>key.
    bind (orThrow key (NotFound ''API key not found'')) (\<lambda>_.
    updateRow apiKeys apiKeys_update (\<lambda>k. ky_id k = i) (\<lambda>k. k\<lparr>ky_active := active\<rparr>)))"

text \<open>The time of last use is written without waiting for it, and a failure to do so is ignored.\<close>

definition verify_key :: "authLib \<Rightarrow> string \<Rightarrow> (authState, authContext option) op" where
  "verify_key lib raw =
    bind (gets (\<lambda>s. find (\<lambda>k. ky_keyHash k = hashKey lib raw) (apiKeys s))) (\<lambda>key.
    case key of
      None \<Rightarrow> ret None
    | Some k \<Rightarrow>
        if \<not> ky_active k then ret None
        else bind (onWorld now) (\<lambda>ts.
             andThen (updateMany apiKeys apiKeys_update (\<lambda>q. ky_id q = ky_id k) (\<lambda>q. q\<lparr>ky_lastUsedAt := Some ts\<rparr>))
             (ret (Some \<lparr>ct_tenantId = ky_tenantId k, ct_role = ky_role k, ct_keyId = ky_id k\<rparr>))))"

record createdKey =
  ck_id :: ident
  ck_name :: string
  ck_role :: ApiRole
  ck_prefix :: string
  ck_secret :: string

definition post_key :: "authLib \<Rightarrow> ident \<Rightarrow> string \<Rightarrow> ApiRole option \<Rightarrow> (authState, createdKey) op" where
  "post_key lib tenantId nam role =
    bind (create_key lib tenantId nam (case role of Some r \<Rightarrow> r | None \<Rightarrow> OPERATOR)) (\<lambda>(apiKey, secret).
    ret \<lparr>ck_id = ky_id apiKey, ck_name = ky_name apiKey, ck_role = ky_role apiKey, ck_prefix = ky_prefix apiKey,
         ck_secret = secret\<rparr>)"

section \<open>Users\<close>

record createUserInput =
  cu_email :: string
  cu_password :: string
  cu_name :: "string option"
  cu_role :: "ApiRole option"

record safeUser =
  su_id :: ident
  su_tenantId :: ident
  su_email :: string
  su_name :: "string option"
  su_role :: ApiRole
  su_active :: bool
  su_lastLoginAt :: "int option"
  su_createdAt :: int

definition strip :: "userRow \<Rightarrow> safeUser" where
  "strip u = \<lparr>su_id = us_id u, su_tenantId = us_tenantId u, su_email = us_email u, su_name = us_name u,
     su_role = us_role u, su_active = us_active u, su_lastLoginAt = us_lastLoginAt u, su_createdAt = us_createdAt u\<rparr>"

definition emailOf :: "string \<Rightarrow> string" where
  "emailOf e = toLowerCase (trim e)"

definition findUser :: "ident \<Rightarrow> string \<Rightarrow> authState \<Rightarrow> userRow option" where
  "findUser tenantId email s = find (\<lambda>u. us_tenantId u = tenantId \<and> us_email u = email) (users s)"

definition newUser :: "authLib \<Rightarrow> ident \<Rightarrow> createUserInput \<Rightarrow> nat \<Rightarrow> ident \<Rightarrow> int \<Rightarrow> userRow" where
  "newUser lib tenantId inp salt i ts =
    \<lparr>us_id = i, us_tenantId = tenantId, us_email = emailOf (cu_email inp),
     us_passwordHash = ax_bcryptHash lib salt (cu_password inp), us_name = cu_name inp,
     us_role = (case cu_role inp of Some r \<Rightarrow> r | None \<Rightarrow> OPERATOR), us_active = True,
     us_lastLoginAt = None, us_createdAt = ts\<rparr>"

definition create_user :: "authLib \<Rightarrow> ident \<Rightarrow> createUserInput \<Rightarrow> (authState, safeUser) op" where
  "create_user lib tenantId inp =
    bind (gets (findUser tenantId (emailOf (cu_email inp)))) (\<lambda>existing.
    andThen (throwIf (existing \<noteq> None) (Conflict ''User already exists''))
    (bind (onWorld freshId) (\<lambda>salt.
     bind (onWorld freshId) (\<lambda>i.
     bind (onWorld now) (\<lambda>ts.
     bind (createRow users users_update (newUser lib tenantId inp salt i ts)) (\<lambda>u. ret (strip u)))))))"

definition verifyCredentials :: "authLib \<Rightarrow> ident \<Rightarrow> string \<Rightarrow> string \<Rightarrow> (authState, userRow option) op" where
  "verifyCredentials lib tenantId email password =
    bind (gets (findUser tenantId (emailOf email))) (\<lambda>user.
    case user of
      None \<Rightarrow> ret None
    | Some u \<Rightarrow>
        if \<not> us_active u then ret None
        else if \<not> ax_bcryptCompare lib password (us_passwordHash u) then ret None
        else bind (onWorld now) (\<lambda>ts.
             andThen (updateMany users users_update (\<lambda>q. us_id q = us_id u) (\<lambda>q. q\<lparr>us_lastLoginAt := Some ts\<rparr>))
             (ret (Some u))))"

text \<open>Users are listed by creation, the order of the table.\<close>

definition list_users :: "ident \<Rightarrow> (authState, safeUser list) op" where
  "list_users tenantId = gets (\<lambda>s. map strip
     (jsSort (\<lambda>a b. us_createdAt a - us_createdAt b) (filter (\<lambda>u. us_tenantId u = tenantId) (users s))))"

definition set_user_active :: "ident \<Rightarrow> ident \<Rightarrow> bool \<Rightarrow> (authState, safeUser) op" where
  "set_user_active tenantId i active =
    bind (gets (\<lambda>s. find (\<lambda>u. us_id u = i \<and> us_tenantId u = tenantId) (users s))) (\<lambda>user.
    bind (orThrow user (Conflict ''User not found'')) (\<lambda>_.
    bind (updateRow users users_update (\<lambda>u. us_id u = i) (\<lambda>u. u\<lparr>us_active := active\<rparr>)) (\<lambda>updated.
    ret (strip updated))))"

section \<open>Tokens\<close>

definition jwtSecret :: "authConfig \<Rightarrow> string" where
  "jwtSecret cfg = (case ac_JWT_SECRET cfg of Some s \<Rightarrow> s | None \<Rightarrow> [])"

definition ttl :: "authConfig \<Rightarrow> string" where
  "ttl cfg = (case ac_JWT_EXPIRES_IN cfg of Some s \<Rightarrow> s | None \<Rightarrow> ''12h'')"

definition tokensEnabled :: "authConfig \<Rightarrow> bool" where
  "tokensEnabled cfg \<longleftrightarrow> 0 < length (jwtSecret cfg)"

definition sign_token :: "authLib \<Rightarrow> authConfig \<Rightarrow> jwtClaims \<Rightarrow> (authState, string) op" where
  "sign_token lib cfg claims = bind (onWorld now) (\<lambda>ts. ret (ax_jwtSign lib (jwtSecret cfg) (ttl cfg) ts claims))"

definition verify_token :: "authLib \<Rightarrow> authConfig \<Rightarrow> string \<Rightarrow> (authState, jwtClaims) op" where
  "verify_token lib cfg token = bind (onWorld now) (\<lambda>ts.
     orThrow (ax_jwtVerify lib (jwtSecret cfg) ts token) (Unauthorized ''Invalid or expired token''))"

section \<open>The guard\<close>

record request =
  rq_method :: string
  rq_path :: string
  rq_header :: "string \<Rightarrow> string option"
  rq_query :: "string \<Rightarrow> string option"
  rq_tenantId :: "ident option"
  rq_apiRole :: "ApiRole option"

definition PUBLIC_PREFIXES :: "string list" where
  "PUBLIC_PREFIXES = [''/health'', ''/metrics'', ''/webhooks'', ''/oauth'', ''/auth/login'']"

definition isPublic :: "string \<Rightarrow> bool" where
  "isPublic path \<longleftrightarrow> (\<exists>p \<in> set PUBLIC_PREFIXES. path = p \<or> startsWith path (p @ ''/''))"

definition looksLikeJwt :: "string \<Rightarrow> bool" where
  "looksLikeJwt token \<longleftrightarrow> length (splitOn (CHR ''.'') token) = 3"

definition orElse :: "'a option \<Rightarrow> 'a option \<Rightarrow> 'a option" where
  "orElse a b = (case a of Some x \<Rightarrow> Some x | None \<Rightarrow> b)"

definition extractKey :: "request \<Rightarrow> string option" where
  "extractKey req =
    (case rq_header req ''authorization'' of
       Some header \<Rightarrow>
         if startsWith (toLowerCase header) ''bearer '' then Some (trim (drop 7 header))
         else orElse (rq_header req ''x-api-key'') (rq_query req ''apiKey'')
     | None \<Rightarrow> orElse (rq_header req ''x-api-key'') (rq_query req ''apiKey''))"

definition findTenant :: "authLib \<Rightarrow> string \<Rightarrow> authState \<Rightarrow> tenant option" where
  "findTenant lib raw s = find (\<lambda>t. ax_idText lib (tn_id t) = raw \<or> tn_slug t = raw) (tenants (au_world s))"

definition resolveTenantHeader :: "authLib \<Rightarrow> request \<Rightarrow> (authState, ident) op" where
  "resolveTenantHeader lib req =
    (case orElse (rq_header req ''x-tenant-id'') (rq_query req ''tenant'') of
       None \<Rightarrow> throw (Unauthorized ''Missing x-tenant-id header'')
     | Some raw \<Rightarrow>
         if raw = [] then throw (Unauthorized ''Missing x-tenant-id header'')
         else bind (gets (findTenant lib raw)) (\<lambda>tenant.
              bind (orThrow tenant (Unauthorized ''Unknown tenant'')) (\<lambda>t. ret (tn_id t))))"

definition enforceRbac :: "request \<Rightarrow> ApiRole \<Rightarrow> (authState, unit) op" where
  "enforceRbac req role =
    (let isGet = rq_method req = ''GET'';
         adminOnly = startsWith (rq_path req) ''/admin'' \<or> (startsWith (rq_path req) ''/channels'' \<and> \<not> isGet)
     in andThen (throwIf (role = READ_ONLY \<and> \<not> isGet) (Forbidden ''Read-only key cannot perform writes''))
        (throwIf (adminOnly \<and> role \<noteq> ADMIN) (Forbidden ''Admin role required'')))"

definition authRequired :: "authConfig \<Rightarrow> bool" where
  "authRequired cfg \<longleftrightarrow> (case ac_AUTH_REQUIRED cfg of Some v \<Rightarrow> v | None \<Rightarrow> ''false'') = ''true''"

text \<open>The tenant and role a request gets; the raw key is falsy when missing or empty.\<close>

definition authenticate :: "authLib \<Rightarrow> authConfig \<Rightarrow> request \<Rightarrow> (authState, ident \<times> ApiRole) op" where
  "authenticate lib cfg req =
    (let raw = (case extractKey req of Some r \<Rightarrow> r | None \<Rightarrow> []) in
     if raw \<noteq> [] \<and> looksLikeJwt raw then
       bind (verify_token lib cfg raw) (\<lambda>claims. ret (cl_tenantId claims, cl_role claims))
     else if raw \<noteq> [] then
       bind (verify_key lib raw) (\<lambda>auth.
       bind (orThrow auth (Unauthorized ''Invalid API key'')) (\<lambda>a. ret (ct_tenantId a, ct_role a)))
     else if \<not> authRequired cfg then
       bind (resolveTenantHeader lib req) (\<lambda>tenantId. ret (tenantId, ADMIN))
     else throw (Unauthorized ''Missing API key''))"

definition canActivate :: "authLib \<Rightarrow> authConfig \<Rightarrow> request \<Rightarrow> (authState, request) op" where
  "canActivate lib cfg req =
    (if isPublic (rq_path req) then ret req
     else bind (authenticate lib cfg req) (\<lambda>(tenantId, role).
          andThen (enforceRbac req role) (ret (req\<lparr>rq_tenantId := Some tenantId, rq_apiRole := Some role\<rparr>))))"

text \<open>What the decorators read of the request.\<close>

definition TenantId :: "request \<Rightarrow> (authState, ident) op" where
  "TenantId req = orThrow (rq_tenantId req) (OtherError ''Tenant not resolved'')"

definition CurrentRole :: "request \<Rightarrow> ApiRole" where
  "CurrentRole req = (case rq_apiRole req of Some r \<Rightarrow> r | None \<Rightarrow> READ_ONLY)"

section \<open>Requests of the auth controller\<close>

record loginDto =
  lo_tenant :: string
  lo_email :: string
  lo_password :: string

record session =
  se_accessToken :: string
  se_tokenType :: string
  se_expiresIn :: string
  se_role :: ApiRole
  se_userId :: ident
  se_email :: string
  se_name :: "string option"
  se_tenant :: tenant

definition login :: "authLib \<Rightarrow> authConfig \<Rightarrow> loginDto \<Rightarrow> (authState, session) op" where
  "login lib cfg dto =
    andThen (throwIf (\<not> tokensEnabled cfg) (ServiceUnavailable ''End-user login is not configured (set JWT_SECRET).''))
    (bind (gets (findTenant lib (lo_tenant dto))) (\<lambda>tenant.
     bind (orThrow tenant (Unauthorized ''Invalid credentials'')) (\<lambda>t.
     bind (verifyCredentials lib (tn_id t) (lo_email dto) (lo_password dto)) (\<lambda>user.
     bind (orThrow user (Unauthorized ''Invalid credentials'')) (\<lambda>u.
     bind (sign_token lib cfg \<lparr>cl_sub = us_id u, cl_tenantId = tn_id t, cl_role = us_role u, cl_email = us_email u\<rparr>) (\<lambda>accessToken.
     ret \<lparr>se_accessToken = accessToken, se_tokenType = ''Bearer'', se_expiresIn = ttl cfg, se_role = us_role u,
          se_userId = us_id u, se_email = us_email u, se_name = us_name u, se_tenant = t\<rparr>))))))"

definition register :: "authLib \<Rightarrow> ident \<Rightarrow> ApiRole \<Rightarrow> createUserInput \<Rightarrow> (authState, safeUser) op" where
  "register lib tenantId role dto =
    andThen (throwIf (role \<noteq> ADMIN) (Forbidden ''Admin role required to create users''))
    (create_user lib tenantId dto)"

definition listUsers :: "ident \<Rightarrow> ApiRole \<Rightarrow> (authState, safeUser list) op" where
  "listUsers tenantId role =
    andThen (throwIf (role \<noteq> ADMIN) (Forbidden ''Admin role required'')) (list_users tenantId)"

definition me :: "ident \<Rightarrow> ApiRole \<Rightarrow> (authState, tenant option \<times> ApiRole) op" where
  "me tenantId role = bind (gets (\<lambda>s. find (\<lambda>t. tn_id t = tenantId) (tenants (au_world s)))) (\<lambda>tenant. ret (tenant, role))"

section \<open>What the code relies on\<close>

text \<open>
  A token signed with a secret is accepted under it until its lifetime, counted in whole seconds, is over;
  it has three segments and no blanks.  A password matches its own hash.
\<close>

definition jwtLaw :: "authLib \<Rightarrow> bool" where
  "jwtLaw lib \<longleftrightarrow> (\<forall>secret e t claims. secret \<noteq> [] \<longrightarrow>
     (let tok = ax_jwtSign lib secret e t claims in
      trim tok = tok \<and> tok \<noteq> [] \<and> looksLikeJwt tok \<and>
      (\<forall>t'. t \<le> t' \<and> t' div 1000 < t div 1000 + ax_lifetime lib e \<longrightarrow> ax_jwtVerify lib secret t' tok = Some claims)))"

definition bcryptLaw :: "authLib \<Rightarrow> bool" where
  "bcryptLaw lib \<longleftrightarrow> (\<forall>salt p. ax_bcryptCompare lib p (ax_bcryptHash lib salt p))"

section \<open>The guard admits exactly who may pass\<close>

text \<open>
  The abstract policy: what a role may do, and for whom the credentials of a request speak.
\<close>

definition permitted :: "ApiRole \<Rightarrow> string \<Rightarrow> string \<Rightarrow> bool" where
  "permitted role verb path \<longleftrightarrow>
    (case role of
       ADMIN \<Rightarrow> True
     | OPERATOR \<Rightarrow> \<not> startsWith path ''/admin'' \<and> (verb = ''GET'' \<or> \<not> startsWith path ''/channels'')
     | READ_ONLY \<Rightarrow> verb = ''GET'' \<and> \<not> startsWith path ''/admin'')"

definition keysUnique :: "authState \<Rightarrow> bool" where
  "keysUnique s \<longleftrightarrow> distinct (map ky_keyHash (apiKeys s)) \<and> distinct (map ky_id (apiKeys s)) \<and>
    (\<forall>k \<in> set (apiKeys s). ky_id k < nextId (au_world s))"

inductive speaksFor :: "authLib \<Rightarrow> authConfig \<Rightarrow> authState \<Rightarrow> request \<Rightarrow> ident \<Rightarrow> ApiRole \<Rightarrow> bool"
  for lib cfg s req where
  token: "extractKey req = Some raw \<Longrightarrow> looksLikeJwt raw \<Longrightarrow>
    ax_jwtVerify lib (jwtSecret cfg) (clock (au_world s)) raw = Some claims \<Longrightarrow>
    speaksFor lib cfg s req (cl_tenantId claims) (cl_role claims)"
| key: "extractKey req = Some raw \<Longrightarrow> raw \<noteq> [] \<Longrightarrow> \<not> looksLikeJwt raw \<Longrightarrow> k \<in> set (apiKeys s) \<Longrightarrow>
    ky_keyHash k = ax_sha256 lib raw \<Longrightarrow> ky_active k \<Longrightarrow>
    speaksFor lib cfg s req (ky_tenantId k) (ky_role k)"
| header: "extractKey req \<in> {None, Some []} \<Longrightarrow> \<not> authRequired cfg \<Longrightarrow>
    orElse (rq_header req ''x-tenant-id'') (rq_query req ''tenant'') = Some raw \<Longrightarrow> raw \<noteq> [] \<Longrightarrow>
    findTenant lib raw s = Some t \<Longrightarrow> speaksFor lib cfg s req (tn_id t) ADMIN"

lemma looksLikeJwt_nonempty: "looksLikeJwt raw \<Longrightarrow> raw \<noteq> []"
  by (auto simp: looksLikeJwt_def)

lemma find_key:
  assumes "distinct (map ky_keyHash ks)" "k \<in> set ks" "ky_keyHash k = h"
  shows "find (\<lambda>k. ky_keyHash k = h) ks = Some k"
  using assms by (induction ks) (auto simp: image_iff)

lemma fst_bind: "fst (bind m f s) = (case m s of (Inl e, _) \<Rightarrow> Inl e | (Inr x, s') \<Rightarrow> fst (f x s'))"
  by (simp add: bind_def split: prod.split sum.split)

lemma fst_now: "onWorld now s = (Inr (clock (au_world s)), s)"
  by (simp add: onWorld_def zoom_def now_def gets_def)

lemma verify_key_spec:
  "fst (verify_key lib raw s) = Inr (case find (\<lambda>k. ky_keyHash k = ax_sha256 lib raw) (apiKeys s) of
      Some k \<Rightarrow> if ky_active k then Some \<lparr>ct_tenantId = ky_tenantId k, ct_role = ky_role k, ct_keyId = ky_id k\<rparr> else None
    | None \<Rightarrow> None)"
  by (simp add: verify_key_def hashKey_def fst_bind op_defs fst_now split: option.split)

lemma verify_token_spec:
  "verify_token lib cfg tok s = (case ax_jwtVerify lib (jwtSecret cfg) (clock (au_world s)) tok of
      Some c \<Rightarrow> (Inr c, s) | None \<Rightarrow> (Inl (Unauthorized ''Invalid or expired token''), s))"
  by (simp add: verify_token_def op_defs fst_now split: option.split)

lemma resolveTenantHeader_spec:
  "fst (resolveTenantHeader lib req s) = Inr t \<longleftrightarrow>
    (\<exists>raw tn. orElse (rq_header req ''x-tenant-id'') (rq_query req ''tenant'') = Some raw \<and> raw \<noteq> [] \<and>
      findTenant lib raw s = Some tn \<and> t = tn_id tn)"
  by (auto simp: resolveTenantHeader_def op_defs split: option.split)

lemma fst_authenticate:
  "fst (authenticate lib cfg req s) =
    (let raw = (case extractKey req of Some r \<Rightarrow> r | None \<Rightarrow> []) in
     if looksLikeJwt raw then
       (case ax_jwtVerify lib (jwtSecret cfg) (clock (au_world s)) raw of
          Some c \<Rightarrow> Inr (cl_tenantId c, cl_role c) | None \<Rightarrow> Inl (Unauthorized ''Invalid or expired token''))
     else if raw \<noteq> [] then
       (case find (\<lambda>k. ky_keyHash k = ax_sha256 lib raw) (apiKeys s) of
          Some k \<Rightarrow> if ky_active k then Inr (ky_tenantId k, ky_role k) else Inl (Unauthorized ''Invalid API key'')
        | None \<Rightarrow> Inl (Unauthorized ''Invalid API key''))
     else if authRequired cfg then Inl (Unauthorized ''Missing API key'')
     else (case fst (resolveTenantHeader lib req s) of Inr t \<Rightarrow> Inr (t, ADMIN) | Inl e \<Rightarrow> Inl e))"
proof -
  let ?raw = "case extractKey req of Some r \<Rightarrow> r | None \<Rightarrow> []"
  obtain x s1 where v: "verify_key lib ?raw s = (x, s1)" by fastforce
  obtain y s2 where h: "resolveTenantHeader lib req s = (y, s2)" by fastforce
  have x: "x = Inr (case find (\<lambda>k. ky_keyHash k = ax_sha256 lib ?raw) (apiKeys s) of
      Some k \<Rightarrow> if ky_active k then Some \<lparr>ct_tenantId = ky_tenantId k, ct_role = ky_role k, ct_keyId = ky_id k\<rparr> else None
    | None \<Rightarrow> None)"
    using verify_key_spec [of lib ?raw s] v by simp
  consider "looksLikeJwt ?raw" | "\<not> looksLikeJwt ?raw" "?raw \<noteq> []" | "\<not> looksLikeJwt ?raw" "?raw = []" by blast
  then show ?thesis
  proof cases
    case 1
    then show ?thesis
      unfolding authenticate_def Let_def
      by (simp add: looksLikeJwt_nonempty fst_bind verify_token_spec ret_def split: option.split)
  next
    case 2
    then show ?thesis
      unfolding authenticate_def Let_def
      by (simp add: fst_bind v x ret_def throw_def orThrow_def split: option.split)
  next
    case 3
    then show ?thesis
      unfolding authenticate_def Let_def
      by (simp add: fst_bind h ret_def throw_def split: sum.split)
  qed
qed

lemma authenticate_spec:
  assumes "keysUnique s"
  shows "fst (authenticate lib cfg req s) = Inr (t, r) \<longleftrightarrow> speaksFor lib cfg s req t r"
proof
  assume "fst (authenticate lib cfg req s) = Inr (t, r)"
  then show "speaksFor lib cfg s req t r"
    unfolding fst_authenticate Let_def
    by (auto split: if_splits option.splits sum.splits dest!: find_SomeD
        simp: resolveTenantHeader_spec intro: speaksFor.intros dest: looksLikeJwt_nonempty)
next
  assume "speaksFor lib cfg s req t r"
  then show "fst (authenticate lib cfg req s) = Inr (t, r)"
  proof (cases rule: speaksFor.cases)
    case (key raw k)
    then have "find (\<lambda>k. ky_keyHash k = ax_sha256 lib raw) (apiKeys s) = Some k"
      using assms by (intro find_key) (auto simp: keysUnique_def)
    then show ?thesis using key by (simp add: fst_authenticate)
  next
    case (header raw tn)
    then have "fst (resolveTenantHeader lib req s) = Inr (tn_id tn)" by (simp add: resolveTenantHeader_spec)
    moreover have "(case extractKey req of Some r \<Rightarrow> r | None \<Rightarrow> []) = []" using header(3) by auto
    moreover have "\<not> looksLikeJwt []" by (simp add: looksLikeJwt_def)
    ultimately show ?thesis using header by (simp add: fst_authenticate)
  qed (simp add: fst_authenticate)
qed

lemma enforceRbac_spec:
  "enforceRbac req role s =
    (if permitted role (rq_method req) (rq_path req) then (Inr (), s)
     else (Inl (Forbidden (if role = READ_ONLY \<and> rq_method req \<noteq> ''GET'' then ''Read-only key cannot perform writes''
       else ''Admin role required'')), s))"
  by (auto simp: enforceRbac_def permitted_def op_defs Let_def split: ApiRole.split)

lemma canActivate_spec:
  assumes "keysUnique s"
  shows "fst (canActivate lib cfg req s) = Inr req' \<longleftrightarrow>
    (if isPublic (rq_path req) then req' = req
     else \<exists>t r. speaksFor lib cfg s req t r \<and> permitted r (rq_method req) (rq_path req) \<and>
       req' = req\<lparr>rq_tenantId := Some t, rq_apiRole := Some r\<rparr>)"
proof (cases "isPublic (rq_path req)")
  case False
  obtain x s' where a: "authenticate lib cfg req s = (x, s')" by fastforce
  show ?thesis
  proof (cases x)
    case (Inl e)
    then have "\<not> speaksFor lib cfg s req t r" for t r using authenticate_spec [OF assms, of lib cfg req t r] a by simp
    then show ?thesis using False a Inl by (simp add: canActivate_def fst_bind)
  next
    case (Inr p)
    obtain t r where p: "p = (t, r)" by fastforce
    have "speaksFor lib cfg s req t' r' \<longleftrightarrow> t' = t \<and> r' = r" for t' r'
      using authenticate_spec [OF assms, of lib cfg req t' r'] a Inr p by auto
    then show ?thesis using False a Inr p
      by (auto simp: canActivate_def fst_bind andThen_def enforceRbac_spec ret_def)
  qed
qed (auto simp: canActivate_def ret_def)

text \<open>
  Property C17.  The guard lets a request that is not public through exactly when its credentials (a session
  token that verifies, an active API key, or in development the tenant header) speak for a tenant and
  a role that may use the method on the path, and then stamps it with just that tenant and role.
\<close>

theorem guard_exact:
  assumes "keysUnique s"
  shows "fst (canActivate lib cfg req s) = Inr req' \<longleftrightarrow>
    (if isPublic (rq_path req) then req' = req
     else \<exists>t r. speaksFor lib cfg s req t r \<and> permitted r (rq_method req) (rq_path req) \<and>
       req' = req\<lparr>rq_tenantId := Some t, rq_apiRole := Some r\<rparr>)"
  by (rule canActivate_spec [OF assms])

section \<open>A session\<close>

definition bearer :: "string \<Rightarrow> string \<Rightarrow> string \<Rightarrow> request" where
  "bearer token verb path = \<lparr>rq_method = verb, rq_path = path,
     rq_header = (\<lambda>h. if h = ''authorization'' then Some (''Bearer '' @ token) else None), rq_query = (\<lambda>_. None),
     rq_tenantId = None, rq_apiRole = None\<rparr>"

lemma extractKey_bearer [simp]: "extractKey (bearer token verb path) = Some (trim token)"
proof -
  have "map lowerChar ''Bearer '' = ''bearer ''" by code_simp
  then show ?thesis by (simp add: extractKey_def bearer_def startsWith_def toLowerCase_def)
qed

lemma bearer_simps [simp]: "rq_method (bearer token verb path) = verb" "rq_path (bearer token verb path) = path"
  by (simp_all add: bearer_def)

lemma wp_verifyCredentials:
  "wp (verifyCredentials lib t e p) (\<lambda>user s'. au_world s' = au_world s \<and> apiKeys s' = apiKeys s \<and>
     user = (case findUser t (emailOf e) s of
       Some u \<Rightarrow> if us_active u \<and> ax_bcryptCompare lib p (us_passwordHash u) then Some u else None | None \<Rightarrow> None)) (\<lambda>_ _. False) s"
  by (simp add: verifyCredentials_def wp wp_now split: option.split)

lemma login_spec:
  assumes "login lib cfg dto s = (Inr se, s')"
  shows "\<exists>u. tokensEnabled cfg \<and> findTenant lib (lo_tenant dto) s = Some (se_tenant se) \<and>
    findUser (tn_id (se_tenant se)) (emailOf (lo_email dto)) s = Some u \<and> us_active u \<and>
    ax_bcryptCompare lib (lo_password dto) (us_passwordHash u) \<and> se_role se = us_role u \<and> se_userId se = us_id u \<and>
    au_world s' = au_world s \<and> apiKeys s' = apiKeys s \<and>
    se_accessToken se = ax_jwtSign lib (jwtSecret cfg) (ttl cfg) (clock (au_world s))
      \<lparr>cl_sub = us_id u, cl_tenantId = tn_id (se_tenant se), cl_role = us_role u, cl_email = us_email u\<rparr>"
    (is "?P se s'")
proof -
  have "wp (login lib cfg dto) ?P (\<lambda>_ _. True) s"
  proof (cases "tokensEnabled cfg")
    case True
    show ?thesis
    proof (cases "findTenant lib (lo_tenant dto) s")
      case (Some t)
      show ?thesis
        by (simp add: login_def wp True Some,
            rule wp_mono [OF wp_verifyCredentials])
          (auto simp: sign_token_def wp split: option.splits if_splits)
    qed (simp add: login_def wp True)
  qed (simp add: login_def wp)
  then show ?thesis using assms by (rule wp_okD)
qed

lemma permitted_path: "permitted r m p \<Longrightarrow> permitted r (rq_method (bearer tok m p)) (rq_path (bearer tok m p))"
  by simp

lemma jwtLawD:
  assumes "jwtLaw lib" "secret \<noteq> []"
  shows "trim (ax_jwtSign lib secret e t c) = ax_jwtSign lib secret e t c" "looksLikeJwt (ax_jwtSign lib secret e t c)"
    "t \<le> t' \<Longrightarrow> t' div 1000 < t div 1000 + ax_lifetime lib e \<Longrightarrow> ax_jwtVerify lib secret t' (ax_jwtSign lib secret e t c) = Some c"
  using assms by (simp_all add: jwtLaw_def Let_def)

lemma login_admitted:
  assumes "jwtLaw lib" "login lib cfg dto s = (Inr se, s1)" "keysUnique s2"
    and "clock (au_world s) \<le> clock (au_world s2)"
    and "clock (au_world s2) div 1000 < clock (au_world s) div 1000 + ax_lifetime lib (ttl cfg)"
    and "\<not> isPublic path" "permitted (se_role se) verb path"
  shows "fst (canActivate lib cfg (bearer (se_accessToken se) verb path) s2) =
    Inr ((bearer (se_accessToken se) verb path)\<lparr>rq_tenantId := Some (tn_id (se_tenant se)), rq_apiRole := Some (se_role se)\<rparr>)"
proof -
  obtain u :: userRow where u: "tokensEnabled cfg" "se_role se = us_role u"
    "se_accessToken se = ax_jwtSign lib (jwtSecret cfg) (ttl cfg) (clock (au_world s))
      \<lparr>cl_sub = us_id u, cl_tenantId = tn_id (se_tenant se), cl_role = us_role u, cl_email = us_email u\<rparr>"
    using login_spec [OF assms(2)] by blast
  let ?c = "\<lparr>cl_sub = us_id u, cl_tenantId = tn_id (se_tenant se), cl_role = us_role u, cl_email = us_email u\<rparr>"
  have sec: "jwtSecret cfg \<noteq> []" using u(1) by (simp add: tokensEnabled_def)
  have tok: "trim (se_accessToken se) = se_accessToken se" "looksLikeJwt (se_accessToken se)"
    "ax_jwtVerify lib (jwtSecret cfg) (clock (au_world s2)) (se_accessToken se) = Some ?c"
    unfolding u(3) using jwtLawD [OF assms(1) sec] assms(4,5) by blast+
  have "speaksFor lib cfg s2 (bearer (se_accessToken se) verb path) (cl_tenantId ?c) (cl_role ?c)"
    by (rule speaksFor.token [where raw = "se_accessToken se"]) (use tok in simp_all)
  then show ?thesis
    unfolding canActivate_spec [OF assms(3)] using assms(6,7) u(2) by auto
qed

text \<open>
  Property C26.  Whoever logs in with the password of an active user is, for the lifetime of the token and in
  whatever state the system then is, let through as that user's tenant and role.
\<close>

theorem login_session:
  assumes "jwtLaw lib" "login lib cfg dto s = (Inr se, s1)" "keysUnique s2"
    and "clock (au_world s) \<le> clock (au_world s2)"
    and "clock (au_world s2) div 1000 < clock (au_world s) div 1000 + ax_lifetime lib (ttl cfg)"
    and "\<not> isPublic path" "permitted (se_role se) verb path"
  shows "\<exists>u. findUser (tn_id (se_tenant se)) (emailOf (lo_email dto)) s = Some u \<and> us_active u \<and>
    ax_bcryptCompare lib (lo_password dto) (us_passwordHash u) \<and>
    fst (canActivate lib cfg (bearer (se_accessToken se) verb path) s2) =
      Inr ((bearer (se_accessToken se) verb path)\<lparr>rq_tenantId := Some (tn_id (se_tenant se)), rq_apiRole := Some (us_role u)\<rparr>)"
  using login_spec [OF assms(2)] login_admitted [OF assms] by auto

section \<open>The life of an API key\<close>

lemma keysUnique_mapWhere:
  assumes "keysUnique s" "\<And>k. ky_id (f k) = ky_id k" "\<And>k. ky_keyHash (f k) = ky_keyHash k"
  shows "keysUnique (s\<lparr>apiKeys := mapWhere p f (apiKeys s)\<rparr>)"
proof -
  have "map ky_id (mapWhere p f (apiKeys s)) = map ky_id (apiKeys s)"
    "map ky_keyHash (mapWhere p f (apiKeys s)) = map ky_keyHash (apiKeys s)"
    using assms(2,3) by (simp_all add: map_mapWhere_frame)
  then show ?thesis
    using assms by (auto simp: keysUnique_def set_mapWhere)
qed

lemma keeps_verify_key: "keeps keysUnique (verify_key lib raw)"
  by (rule keeps_intro) (auto simp: verify_key_def wp keysUnique_mapWhere split: option.split)

lemma keeps_set_key_active: "keeps keysUnique (set_key_active t i b)"
  by (rule keeps_intro) (auto simp: set_key_active_def wp keysUnique_mapWhere split: option.split)

lemma keysUnique_add:
  assumes "keysUnique s" "nextId (au_world s) \<le> ky_id k" "ky_id k < nextId w'"
    and "\<forall>q \<in> set (apiKeys s). ky_keyHash q \<noteq> ky_keyHash k"
  shows "keysUnique (s\<lparr>au_world := w', apiKeys := apiKeys s @ [k]\<rparr>)"
  using assms by (fastforce simp: keysUnique_def image_iff)

lemma keysUnique_below: "keysUnique s \<Longrightarrow> k \<in> set (apiKeys s) \<Longrightarrow> ky_id k < nextId (au_world s)"
  by (simp add: keysUnique_def)

lemma wp_create_key:
  assumes "keysUnique s"
  shows "wp (create_key lib t n r) (\<lambda>(k, secret) s'. keysUnique s' \<and> apiKeys s' = apiKeys s @ [k] \<and>
      ky_keyHash k = ax_sha256 lib secret \<and> ky_tenantId k = t \<and> ky_role k = r \<and> ky_active k \<and>
      (\<forall>q \<in> set (apiKeys s). ky_keyHash q \<noteq> ky_keyHash k \<and> ky_id q \<noteq> ky_id k) \<and> users s' = users s)
    (\<lambda>_. keysUnique) s"
proof -
  have K: "keysUnique (s\<lparr>au_world := (au_world s)\<lparr>nextId := Suc (nextId (au_world s))\<rparr>\<rparr>)"
    using assms by (auto simp: keysUnique_def)
  show ?thesis
    using assms by (auto simp: create_key_def randomHex_def wp Let_def hashKey_def newApiKey_def K
        intro!: keysUnique_add dest: keysUnique_below)
qed

definition withKey :: "ident \<Rightarrow> apiKeyRow \<Rightarrow> string \<Rightarrow> authLib \<Rightarrow> bool \<Rightarrow> (authState, authContext option) op" where
  "withKey t k secret lib b = andThen (set_key_active t (ky_id k) b) (verify_key lib secret)"

lemma find_unique_and:
  "distinct (map g rs) \<Longrightarrow> r \<in> set rs \<Longrightarrow> find (\<lambda>q. g q = g r \<and> P q) rs = (if P r then Some r else None)"
  by (induction rs) (auto simp: image_iff find_None_iff)

lemma set_key_active_spec:
  assumes "k \<in> set (apiKeys s)" "keysUnique s"
  shows "set_key_active t (ky_id k) b s =
    (if ky_tenantId k = t then
       (Inr (k\<lparr>ky_active := b\<rparr>), s\<lparr>apiKeys := mapWhere (\<lambda>q. ky_id q = ky_id k) (\<lambda>q. q\<lparr>ky_active := b\<rparr>) (apiKeys s)\<rparr>)
     else (Inl (NotFound ''API key not found''), s))"
proof -
  have d: "distinct (map ky_id (apiKeys s))" using assms(2) by (simp add: keysUnique_def)
  have f: "find (\<lambda>q. ky_id q = ky_id k) (apiKeys s) = Some k" using d assms(1) by (rule find_unique)
  have "find (\<lambda>q. ky_id q = ky_id k \<and> ky_tenantId q = t) (apiKeys s) = (if ky_tenantId k = t then Some k else None)"
    by (rule find_unique_and [OF d assms(1)])
  then show ?thesis using f by (simp add: set_key_active_def op_defs)
qed

lemma verify_set:
  assumes "k \<in> set (apiKeys s)" "keysUnique s" "ky_keyHash k = ax_sha256 lib secret"
  shows "fst (withKey (ky_tenantId k) k secret lib b s) =
    Inr (if b then Some \<lparr>ct_tenantId = ky_tenantId k, ct_role = ky_role k, ct_keyId = ky_id k\<rparr> else None)"
proof -
  let ?s = "s\<lparr>apiKeys := mapWhere (\<lambda>q. ky_id q = ky_id k) (\<lambda>q. q\<lparr>ky_active := b\<rparr>) (apiKeys s)\<rparr>"
  have K: "keysUnique ?s" by (rule keysUnique_mapWhere [OF assms(2)]) simp_all
  have "k\<lparr>ky_active := b\<rparr> \<in> set (apiKeys ?s)" using assms(1) by (auto simp: set_mapWhere)
  then have "find (\<lambda>q. ky_keyHash q = ax_sha256 lib secret) (apiKeys ?s) = Some (k\<lparr>ky_active := b\<rparr>)"
    using K assms(3) by (intro find_key) (auto simp: keysUnique_def)
  then show ?thesis
    by (simp add: withKey_def andThen_def fst_bind set_key_active_spec [OF assms(1,2)] verify_key_spec)
qed

text \<open>
  A freshly minted key, whose secret is not kept, authenticates as the tenant and role it was
  made for; revoked it authenticates nobody, reactivated it does again, and another tenant cannot
  change it.
\<close>

lemma key_lifecycle:
  assumes "keysUnique s" "create_key lib t n r s = (Inr (k, secret), s1)" "t' \<noteq> t"
  shows "fst (verify_key lib secret s1) = Inr (Some \<lparr>ct_tenantId = t, ct_role = r, ct_keyId = ky_id k\<rparr>) \<and>
    fst (withKey t k secret lib False s1) = Inr None \<and>
    fst (withKey t k secret lib True s1) = Inr (Some \<lparr>ct_tenantId = t, ct_role = r, ct_keyId = ky_id k\<rparr>) \<and>
    set_key_active t' (ky_id k) b s1 = (Inl (NotFound ''API key not found''), s1)"
proof -
  have c: "keysUnique s1" "apiKeys s1 = apiKeys s @ [k]" "ky_keyHash k = ax_sha256 lib secret" "ky_tenantId k = t"
    "ky_role k = r" "ky_active k"
    using wp_okD [OF wp_create_key [OF assms(1)] assms(2)] by auto
  have m: "k \<in> set (apiKeys s1)" by (simp add: c(2))
  have "find (\<lambda>q. ky_keyHash q = ax_sha256 lib secret) (apiKeys s1) = Some k"
    using c(1,3) m by (intro find_key) (auto simp: keysUnique_def)
  then show ?thesis
    using verify_set [OF m c(1,3)] c(4,5,6) assms(3)
    by (simp add: verify_key_spec set_key_active_spec [OF m c(1)])
qed

section \<open>Paths in other case\<close>

definition withApiKey :: "string \<Rightarrow> string \<Rightarrow> string \<Rightarrow> request" where
  "withApiKey secret verb path = \<lparr>rq_method = verb, rq_path = path,
     rq_header = (\<lambda>h. if h = ''x-api-key'' then Some secret else None), rq_query = (\<lambda>_. None),
     rq_tenantId = None, rq_apiRole = None\<rparr>"

lemma withApiKey_simps [simp]:
  "extractKey (withApiKey secret verb path) = Some secret"
  "rq_method (withApiKey secret verb path) = verb" "rq_path (withApiKey secret verb path) = path"
  by (simp_all add: withApiKey_def extractKey_def orElse_def)

lemma admin_paths:
  "permitted OPERATOR ''POST'' ''/Admin/api-keys''" "\<not> permitted OPERATOR ''POST'' ''/admin/api-keys''"
  "\<not> isPublic ''/Admin/api-keys''" "\<not> isPublic ''/admin/api-keys''"
  by (simp_all add: permitted_def startsWith_def isPublic_def PUBLIC_PREFIXES_def)

text \<open>
  The guard compares paths case-sensitively: the key of an operator that is refused on the path
  of the key administration passes on the same path written with a capital, which the router of Express
  takes for the same route.
\<close>

lemma mixed_case_admin_path:
  assumes "keysUnique s" "k \<in> set (apiKeys s)" "ky_active k" "ky_role k = OPERATOR"
    and "ky_keyHash k = ax_sha256 lib secret" "secret \<noteq> []" "\<not> looksLikeJwt secret"
  shows "fst (canActivate lib cfg (withApiKey secret ''POST'' ''/admin/api-keys'') s) = Inl (Forbidden ''Admin role required'') \<and>
    fst (canActivate lib cfg (withApiKey secret ''POST'' ''/Admin/api-keys'') s) =
      Inr ((withApiKey secret ''POST'' ''/Admin/api-keys'')\<lparr>rq_tenantId := Some (ky_tenantId k), rq_apiRole := Some OPERATOR\<rparr>)"
proof -
  have f: "find (\<lambda>q. ky_keyHash q = ax_sha256 lib secret) (apiKeys s) = Some k"
    using assms by (intro find_key) (auto simp: keysUnique_def)
  have a: "fst (authenticate lib cfg (withApiKey secret ''POST'' path) s) = Inr (ky_tenantId k, OPERATOR)" for path
    using assms(3,4,6,7) f by (simp add: fst_authenticate)
  obtain s1 where A: "authenticate lib cfg (withApiKey secret ''POST'' ''/admin/api-keys'') s = (Inr (ky_tenantId k, OPERATOR), s1)"
    using a [of "''/admin/api-keys''"] by (metis prod.collapse)
  obtain s2 where B: "authenticate lib cfg (withApiKey secret ''POST'' ''/Admin/api-keys'') s = (Inr (ky_tenantId k, OPERATOR), s2)"
    using a [of "''/Admin/api-keys''"] by (metis prod.collapse)
  show ?thesis
    by (simp add: canActivate_def A B fst_bind andThen_def enforceRbac_spec admin_paths ret_def)
qed

section \<open>Witnesses\<close>

text \<open>A library with those laws: a token spells its claims in three segments.\<close>

definition demoToken :: "jwtClaims \<Rightarrow> string" where
  "demoToken c = joinWith ''.'' [CHR ''h'' # replicate (cl_sub c) (CHR ''x''),
     (case cl_role c of ADMIN \<Rightarrow> CHR ''a'' | OPERATOR \<Rightarrow> CHR ''o'' | READ_ONLY \<Rightarrow> CHR ''r'') # replicate (cl_tenantId c) (CHR ''x''),
     base64Encode (cl_email c) @ ''s'']"

definition demoClaims :: "string \<Rightarrow> jwtClaims option" where
  "demoClaims tok = (case splitOn (CHR ''.'') tok of
     [h, b, e] \<Rightarrow> Some \<lparr>cl_sub = length h - 1, cl_tenantId = length b - 1,
       cl_role = (if hd b = CHR ''a'' then ADMIN else if hd b = CHR ''o'' then OPERATOR else READ_ONLY),
       cl_email = base64Decode (butlast e)\<rparr>
   | _ \<Rightarrow> None)"

lemma split_demoToken:
  "splitOn (CHR ''.'') (demoToken c) = [CHR ''h'' # replicate (cl_sub c) (CHR ''x''),
     (case cl_role c of ADMIN \<Rightarrow> CHR ''a'' | OPERATOR \<Rightarrow> CHR ''o'' | READ_ONLY \<Rightarrow> CHR ''r'') # replicate (cl_tenantId c) (CHR ''x''),
     base64Encode (cl_email c) @ ''s'']"
  unfolding demoToken_def by (rule splitOn_joinWith) (auto simp: base64_no_separator split: ApiRole.split)

lemma trim_solid: "\<not> isBlank a \<Longrightarrow> \<not> isBlank z \<Longrightarrow> trim (a # m @ [z]) = a # m @ [z]"
  by (simp add: trim_def trimStart_def)

definition demoAuthLib :: authLib where
  "demoAuthLib = \<lparr>ax_sha256 = id, ax_bcryptHash = (\<lambda>_. id), ax_bcryptCompare = (=),
     ax_jwtSign = (\<lambda>secret e t c. demoToken c), ax_jwtVerify = (\<lambda>secret t tok. demoClaims tok),
     ax_lifetime = (\<lambda>_. 43200), ax_idText = (\<lambda>_. ''t'')\<rparr>"

lemma demoAuthLib_laws: "jwtLaw demoAuthLib" "bcryptLaw demoAuthLib"
proof -
  have "demoClaims (demoToken c) = Some c" for c
    by (simp add: demoClaims_def split_demoToken base64Decode_encode split: ApiRole.split)
  moreover have "looksLikeJwt (demoToken c)" for c by (simp add: looksLikeJwt_def split_demoToken)
  moreover have "trim (demoToken c) = demoToken c" for c
    using trim_solid [of "CHR ''h''" "CHR ''s''" "replicate (cl_sub c) (CHR ''x'') @ CHR ''.'' #
      (case cl_role c of ADMIN \<Rightarrow> CHR ''a'' | OPERATOR \<Rightarrow> CHR ''o'' | READ_ONLY \<Rightarrow> CHR ''r'') #
      replicate (cl_tenantId c) (CHR ''x'') @ CHR ''.'' # base64Encode (cl_email c)"]
    by (simp add: demoToken_def isBlank_def)
  moreover have "demoToken c \<noteq> []" for c by (simp add: demoToken_def)
  ultimately show "jwtLaw demoAuthLib" by (simp add: jwtLaw_def demoAuthLib_def)
  show "bcryptLaw demoAuthLib" by (simp add: bcryptLaw_def demoAuthLib_def)
qed

definition demoConfig :: authConfig where
  "demoConfig = \<lparr>ac_AUTH_REQUIRED = Some ''true'', ac_JWT_SECRET = Some ''s3cret'', ac_JWT_EXPIRES_IN = None\<rparr>"

definition demoUser :: userRow where
  "demoUser = \<lparr>us_id = 3, us_tenantId = 1, us_email = ''a@b.c'', us_passwordHash = ''pw'', us_name = None,
     us_role = OPERATOR, us_active = True, us_lastLoginAt = None, us_createdAt = 0\<rparr>"

definition demoKey :: apiKeyRow where
  "demoKey = \<lparr>ky_id = 4, ky_tenantId = 1, ky_name = ''wms'', ky_keyHash = ''oms_k'', ky_prefix = ''oms_k'',
     ky_role = OPERATOR, ky_active = True, ky_lastUsedAt = None, ky_createdAt = 0\<rparr>"

definition demoAuth :: authState where
  "demoAuth = \<lparr>au_world = \<lparr>tenants = [\<lparr>tn_id = 1, tn_slug = ''acme''\<rparr>], skus = [], locations = [], ledger = [], snapshots = [],
       orders = [], orderLines = [], orderEvents = [], reservations = [], allocations = [], shipments = [], sourcingRules = [],
       returnRows = [], returnLines = [], inbounds = [], outbox = [], outboxUp = True, nextSeq = 1, cache = (\<lambda>_. None),
       published = [], jobs = [], clock = 5, nextId = 9, uuidOf = (\<lambda>_. []), gatewayLog = []\<rparr>,
     apiKeys = [demoKey], users = [demoUser], randomOf = (\<lambda>_. ''abc'')\<rparr>"

lemma demoAuth_simps:
  "apiKeys demoAuth = [demoKey]" "users demoAuth = [demoUser]" "clock (au_world demoAuth) = 5"
  "tenants (au_world demoAuth) = [\<lparr>tn_id = 1, tn_slug = ''acme''\<rparr>]" "nextId (au_world demoAuth) = 9"
  "randomOf demoAuth = (\<lambda>_. ''abc'')"
  by (simp_all add: demoAuth_def)

lemma demoAuth_unique: "keysUnique demoAuth"
  by (simp add: keysUnique_def demoAuth_simps demoKey_def)

lemma mixed_case_admin_path_witness:
  "fst (canActivate demoAuthLib demoConfig (withApiKey ''oms_k'' ''POST'' ''/admin/api-keys'') demoAuth) = Inl (Forbidden ''Admin role required'') \<and>
   fst (canActivate demoAuthLib demoConfig (withApiKey ''oms_k'' ''POST'' ''/Admin/api-keys'') demoAuth) =
     Inr ((withApiKey ''oms_k'' ''POST'' ''/Admin/api-keys'')\<lparr>rq_tenantId := Some 1, rq_apiRole := Some OPERATOR\<rparr>)"
  using mixed_case_admin_path [OF demoAuth_unique, where k = demoKey and lib = demoAuthLib and secret = "''oms_k''" and cfg = demoConfig]
  by (simp add: demoAuth_simps demoKey_def demoAuthLib_def looksLikeJwt_def)

lemma key_lifecycle_witness:
  "\<exists>k s1. create_key demoAuthLib 1 ''ci'' READ_ONLY demoAuth = (Inr (k, ''oms_abc''), s1) \<and>
    fst (withKey 1 k ''oms_abc'' demoAuthLib False s1) = Inr None"
proof -
  obtain k s1 where c: "create_key demoAuthLib 1 ''ci'' READ_ONLY demoAuth = (Inr (k, ''oms_abc''), s1)"
    by (simp add: create_key_def randomHex_def op_defs onWorld_def zoom_def freshId_def now_def Let_def demoAuth_simps
        hashKey_def demoAuthLib_def demoKey_def)
  from key_lifecycle [OF demoAuth_unique c, of 2] c show ?thesis by auto
qed

lemma guard_exact_witness:
  "fst (canActivate demoAuthLib demoConfig (withApiKey ''oms_k'' ''GET'' ''/orders'') demoAuth) =
    Inr ((withApiKey ''oms_k'' ''GET'' ''/orders'')\<lparr>rq_tenantId := Some 1, rq_apiRole := Some OPERATOR\<rparr>)"
proof -
  have "speaksFor demoAuthLib demoConfig demoAuth (withApiKey ''oms_k'' ''GET'' ''/orders'') (ky_tenantId demoKey) (ky_role demoKey)"
    by (rule speaksFor.key [where raw = "''oms_k''"]) (simp_all add: demoAuth_simps demoKey_def demoAuthLib_def looksLikeJwt_def)
  then have "speaksFor demoAuthLib demoConfig demoAuth (withApiKey ''oms_k'' ''GET'' ''/orders'') 1 OPERATOR"
    by (simp add: demoKey_def)
  moreover have "permitted OPERATOR ''GET'' ''/orders''" "\<not> isPublic ''/orders''"
    by (simp_all add: permitted_def startsWith_def isPublic_def PUBLIC_PREFIXES_def)
  ultimately show ?thesis unfolding guard_exact [OF demoAuth_unique] by (simp, blast)
qed

definition demoLogin :: loginDto where
  "demoLogin = \<lparr>lo_tenant = ''acme'', lo_email = ''a@b.c'', lo_password = ''pw''\<rparr>"

lemma login_session_witness:
  "\<exists>se s1. login demoAuthLib demoConfig demoLogin demoAuth = (Inr se, s1) \<and>
    fst (canActivate demoAuthLib demoConfig (bearer (se_accessToken se) ''POST'' ''/orders'') demoAuth) =
      Inr ((bearer (se_accessToken se) ''POST'' ''/orders'')\<lparr>rq_tenantId := Some 1, rq_apiRole := Some OPERATOR\<rparr>)"
proof -
  have e: "emailOf ''a@b.c'' = ''a@b.c''" by code_simp
  obtain se s1 where l: "login demoAuthLib demoConfig demoLogin demoAuth = (Inr se, s1)" "se_role se = OPERATOR"
      "se_tenant se = \<lparr>tn_id = 1, tn_slug = ''acme''\<rparr>"
    by (simp add: login_def op_defs sign_token_def verifyCredentials_def findUser_def findTenant_def onWorld_def zoom_def now_def
        tokensEnabled_def jwtSecret_def demoConfig_def demoAuthLib_def demoLogin_def demoUser_def demoAuth_simps e)
  have p: "\<not> isPublic ''/orders''" "permitted OPERATOR ''POST'' ''/orders''"
    by (simp_all add: permitted_def startsWith_def isPublic_def PUBLIC_PREFIXES_def)
  have t: "clock (au_world demoAuth) div 1000 < clock (au_world demoAuth) div 1000 + ax_lifetime demoAuthLib (ttl demoConfig)"
    by (simp add: demoAuthLib_def)
  have u: "findUser (tn_id (se_tenant se)) (emailOf (lo_email demoLogin)) demoAuth = Some demoUser"
    by (simp add: l(3) demoLogin_def e findUser_def demoAuth_simps demoUser_def)
  show ?thesis
    using login_session [OF demoAuthLib_laws(1) l(1) demoAuth_unique order_refl t p(1), where verb = "''POST''"] p(2) l u
    by (auto simp: demoUser_def)
qed

end
