(* ===== verification/Crypto.thy ===== *)
theory Crypto
  imports Text
begin

text \<open>
  backend/src/common/crypto/crypto.service.ts: secrets at rest.  AES-256-GCM and SHA-256 are Node's;
  they are a parameter (\<open>cryptoLib\<close>) of which the service relies on decryption undoing encryption and
  on digests of 32 bytes.
\<close>

record cryptoLib =
  cl_seal :: "string \<Rightarrow> string \<Rightarrow> string \<Rightarrow> string \<times> string"
  cl_open :: "string \<Rightarrow> string \<Rightarrow> string \<Rightarrow> string \<Rightarrow> string option"
  cl_sha256 :: "string \<Rightarrow> string"

definition sealPrefix :: string where
  "sealPrefix = ''enc:v1:''"

definition deriveKey :: "cryptoLib \<Rightarrow> string \<Rightarrow> string" where
  "deriveKey lib raw =
    (if length (hexDecode raw) = 32 then hexDecode raw
     else if length (base64Decode raw) = 32 then base64Decode raw
     else cl_sha256 lib raw)"

text \<open>An empty setting counts as none.\<close>

definition cryptoKey :: "cryptoLib \<Rightarrow> string option \<Rightarrow> string option" where
  "cryptoKey lib raw = (case raw of None \<Rightarrow> None | Some r \<Rightarrow> if r = [] then None else Some (deriveKey lib r))"

definition encrypt :: "cryptoLib \<Rightarrow> string option \<Rightarrow> string \<Rightarrow> string \<Rightarrow> string" where
  "encrypt lib key iv plaintext =
    (case key of
       None \<Rightarrow> plaintext
     | Some k \<Rightarrow>
         if plaintext = [] \<or> startsWith plaintext sealPrefix then plaintext
         else let (ct, tag) = cl_seal lib k iv plaintext
           in sealPrefix @ joinWith '':'' (map base64Encode [iv, tag, ct]))"

definition decrypt :: "cryptoLib \<Rightarrow> string option \<Rightarrow> string \<Rightarrow> err + string" where
  "decrypt lib key v =
    (if \<not> startsWith v sealPrefix then Inr v
     else case key of
       None \<Rightarrow> Inl (OtherError ''Found encrypted secret but SECRET_ENCRYPTION_KEY is not set'')
     | Some k \<Rightarrow>
         (case splitOn (CHR '':'') (drop (length sealPrefix) v) of
            ivB64 # tagB64 # ctB64 # _ \<Rightarrow>
              (case cl_open lib k (base64Decode ivB64) (base64Decode tagB64) (base64Decode ctB64) of
                 Some p \<Rightarrow> Inr p
               | None \<Rightarrow> Inl (OtherError ''Unsupported state or unable to authenticate data''))
          | _ \<Rightarrow> Inl (OtherError ''TypeError'')))"

section \<open>What the service relies on\<close>

definition aeadLaw :: "cryptoLib \<Rightarrow> bool" where
  "aeadLaw lib \<longleftrightarrow> (\<forall>k iv p ct tag. length k = 32 \<longrightarrow> cl_seal lib k iv p = (ct, tag) \<longrightarrow> cl_open lib k iv tag ct = Some p)"

definition digestLaw :: "cryptoLib \<Rightarrow> bool" where
  "digestLaw lib \<longleftrightarrow> (\<forall>s. length (cl_sha256 lib s) = 32)"

lemma cryptoKey_length: "digestLaw lib \<Longrightarrow> cryptoKey lib raw = Some k \<Longrightarrow> length k = 32"
  by (auto simp: cryptoKey_def deriveKey_def digestLaw_def split: option.splits if_splits)

section \<open>Round trip\<close>

lemma decrypt_sealed:
  assumes "aeadLaw lib" "length k = 32" "cl_seal lib k iv p = (ct, tag)"
  shows "decrypt lib (Some k) (sealPrefix @ joinWith '':'' (map base64Encode [iv, tag, ct])) = Inr p"
proof -
  have "splitOn (CHR '':'') (joinWith '':'' (map base64Encode [iv, tag, ct])) = map base64Encode [iv, tag, ct]"
    by (rule splitOn_joinWith) (auto simp: base64_no_separator)
  then show ?thesis using assms by (auto simp: decrypt_def base64Decode_encode aeadLaw_def simp del: joinWith.simps)
qed

text \<open>
  Whatever setting the key is derived from (hex, base64, a passphrase, none), a secret that
  does not itself begin with the marker is read back as it was stored.
\<close>

lemma decrypt_encrypt:
  assumes "aeadLaw lib" "digestLaw lib" "\<not> startsWith p sealPrefix" "key = cryptoKey lib raw"
  shows "decrypt lib key (encrypt lib key iv p) = Inr p"
proof (cases key)
  case None
  then show ?thesis using assms(3) by (simp add: encrypt_def decrypt_def)
next
  case (Some k)
  have len: "length k = 32" using cryptoKey_length [OF assms(2)] assms(4) Some by simp
  obtain ct tag where ct: "cl_seal lib k iv p = (ct, tag)" by (cases "cl_seal lib k iv p")
  show ?thesis
  proof (cases "p = []")
    case True
    then show ?thesis using assms(3) by (simp add: encrypt_def decrypt_def Some)
  next
    case False
    then show ?thesis using decrypt_sealed [OF assms(1) len ct] assms(3) ct by (simp add: encrypt_def Some del: joinWith.simps)
  qed
qed

text \<open>
  Sealing is idempotent: what carries the marker is left alone, so that a row can be written
  again without being sealed twice.
\<close>

lemma encrypt_idempotent:
  "encrypt lib key iv' (encrypt lib key iv p) = encrypt lib key iv p"
  by (simp add: encrypt_def split: option.split prod.split)

definition demoLib :: cryptoLib where
  "demoLib = \<lparr>cl_seal = (\<lambda>k iv p. (rev p, k)), cl_open = (\<lambda>k iv tag ct. if tag = k then Some (rev ct) else None),
    cl_sha256 = (\<lambda>s. replicate 32 (CHR ''x''))\<rparr>"

lemma demoLib_laws: "aeadLaw demoLib" "digestLaw demoLib"
  by (simp_all add: aeadLaw_def digestLaw_def demoLib_def)

lemma encrypt_marks: "key \<noteq> None \<Longrightarrow> p \<noteq> [] \<Longrightarrow> startsWith (encrypt lib key iv p) sealPrefix"
  by (auto simp: encrypt_def split: prod.split simp del: joinWith.simps)

end
