(* ===== verification/Channels.thy ===== *)
theory Channels
  imports Crypto
begin

text \<open>
  Sales channels: backend/src/sync/connectors (the Shopify Admin client and the connectors that push
  stock levels), backend/src/sync/connector.registry.ts, and the channel administration of
  backend/src/sync/sync.service.ts.  Shopify answers over the network: its API is the parameter
  \<open>shopifyApi\<close>, a function of the requests sent before and of the request.
\<close>

section \<open>Shopify's interface\<close>

record shopifyCreds =
  sp_shopDomain :: string
  sp_accessToken :: string
  sp_apiVersion :: string

record levelNode =
  ln_locationId :: string
  ln_locationName :: string
  ln_quantities :: "(string \<times> int) list"

record variantNode =
  vn_id :: string
  vn_sku :: "string option"
  vn_title :: string
  vn_productTitle :: string
  vn_inventoryItemId :: string
  vn_levels :: "levelNode list"

record stockLevel =
  le_locationId :: string
  le_locationName :: string
  le_available :: int

record shopifyVariant =
  sv_variantId :: string
  sv_sku :: string
  sv_title :: string
  sv_productTitle :: string
  sv_inventoryItemId :: string
  sv_levels :: "stockLevel list"

text \<open>
  The requests the client makes; the GraphQL documents are constant per request.  An answer is an HTTP
  status that is no success, or a body with optional data and error messages, or the token endpoint's
  token and scope.  The data is one of what the three documents ask for.
\<close>

datatype shopifyCall =
    FindVariantBySku shopifyCreds string
  | InventoryVariants shopifyCreds nat "string option"
  | SetAvailable shopifyCreds string string int
  | ExchangeCode string string string string

datatype shopifyData =
    Matches "(string \<times> string option) list"
  | VariantPage "variantNode list" bool "string option"
  | UserErrors "string list"

datatype shopifyAnswer =
    Refused nat
  | Answer "shopifyData option" "string list"
  | Token string string

type_synonym shopifyApi = "shopifyCall list \<Rightarrow> shopifyCall \<Rightarrow> shopifyAnswer"

section \<open>State\<close>

text \<open>
  A channel's configuration is a JSON object; the code looks only into values that are strings or null.
\<close>

datatype jsonVal = JStr string | JNull | JOther nat

type_synonym jsonObject = "string \<Rightarrow> jsonVal option"

record channelRow =
  ch_id :: ident
  ch_tenantId :: ident
  ch_type :: ChannelType
  ch_name :: string
  ch_active :: bool
  ch_externalRef :: "string option"
  ch_config :: "jsonObject option"

record skuMapping =
  sm_id :: ident
  sm_channelId :: ident
  sm_skuId :: ident
  sm_inventoryItemId :: string
  sm_variantId :: "string option"

record nonceRow =
  nc_state :: string
  nc_shop :: string
  nc_tenantId :: ident
  nc_expiresAt :: int

record syncState =
  sy_world :: world
  salesChannels :: "channelRow list"
  skuMappings :: "skuMapping list"
  shopifyLog :: "shopifyCall list"
  oauthNonces :: "nonceRow list"
  randomBytesOf :: "nat \<Rightarrow> string"

abbreviation inWorld :: "(world, 'a) op \<Rightarrow> (syncState, 'a) op" where
  "inWorld m \<equiv> zoom sy_world sy_world_update m"

text \<open>What the services are configured with.\<close>

record syncEnv =
  ev_api :: shopifyApi
  ev_crypto :: cryptoLib
  ev_key :: "string option"
  ev_apiVersion :: "string option"
  ev_idText :: "ident \<Rightarrow> string"

definition SHOPIFY_API_VERSION :: string where
  "SHOPIFY_API_VERSION = ''2026-04''"

section \<open>The Admin client\<close>

definition sendCall :: "shopifyApi \<Rightarrow> shopifyCall \<Rightarrow> (syncState, shopifyAnswer) op" where
  "sendCall api c = bind (gets (\<lambda>s. api (shopifyLog s) c)) (\<lambda>r.
     andThen (modify (\<lambda>s. s\<lparr>shopifyLog := shopifyLog s @ [c]\<rparr>)) (ret r))"

definition graphql :: "shopifyApi \<Rightarrow> shopifyCall \<Rightarrow> (syncState, shopifyData) op" where
  "graphql api c = bind (sendCall api c) (\<lambda>res.
     case res of
       Refused status \<Rightarrow> throw (OtherError ''Shopify request failed'')
     | Token t sc \<Rightarrow> throw (OtherError ''Shopify GraphQL: empty data'')
     | Answer d errs \<Rightarrow>
         andThen (throwIf (errs \<noteq> []) (OtherError ''Shopify GraphQL errors''))
         (orThrow d (OtherError ''Shopify GraphQL: empty data'')))"

definition findInventoryItemBySku :: "shopifyApi \<Rightarrow> shopifyCreds \<Rightarrow> string \<Rightarrow> (syncState, (string \<times> string) option) op" where
  "findInventoryItemBySku api creds code =
    bind (graphql api (FindVariantBySku creds code)) (\<lambda>d.
    case d of
      Matches ((variantId, Some item) # _) \<Rightarrow> ret (if item = [] then None else Some (item, variantId))
    | Matches _ \<Rightarrow> ret None
    | _ \<Rightarrow> throw (OtherError ''TypeError''))"

definition levelOf :: "levelNode \<Rightarrow> stockLevel" where
  "levelOf n = \<lparr>le_locationId = ln_locationId n, le_locationName = ln_locationName n,
     le_available = (case find (\<lambda>q. fst q = ''available'') (ln_quantities n) of Some q \<Rightarrow> snd q | None \<Rightarrow> 0)\<rparr>"

definition variantOf :: "variantNode \<Rightarrow> shopifyVariant option" where
  "variantOf n =
    (let code = (case vn_sku n of Some c \<Rightarrow> trim c | None \<Rightarrow> []) in
     if code = [] then None
     else Some \<lparr>sv_variantId = vn_id n, sv_sku = code, sv_title = vn_title n, sv_productTitle = vn_productTitle n,
       sv_inventoryItemId = vn_inventoryItemId n, sv_levels = map levelOf (vn_levels n)\<rparr>)"

text \<open>
  The loop over the pages asks on for as long as the server names a next page; \<open>None\<close> is a loop that has
  not ended after \<open>n\<close> pages.
\<close>

fun listPages :: "nat \<Rightarrow> shopifyApi \<Rightarrow> shopifyCreds \<Rightarrow> nat \<Rightarrow> string option \<Rightarrow> shopifyVariant list \<Rightarrow>
    (syncState, shopifyVariant list option) op" where
  "listPages 0 api creds pageSize after out = ret None"
| "listPages (Suc n) api creds pageSize after out =
    bind (graphql api (InventoryVariants creds pageSize after)) (\<lambda>d.
    case d of
      VariantPage nodes hasNextPage endCursor \<Rightarrow>
        (let out' = out @ List.map_filter variantOf nodes;
             after' = (if hasNextPage then endCursor else None)
         in if after' \<notin> {None, Some []} then listPages n api creds pageSize after' out'
            else ret (Some out'))
    | _ \<Rightarrow> throw (OtherError ''TypeError''))"

definition listInventoryVariants :: "nat \<Rightarrow> shopifyApi \<Rightarrow> shopifyCreds \<Rightarrow> nat \<Rightarrow> (syncState, shopifyVariant list option) op" where
  "listInventoryVariants n api creds pageSize = listPages n api creds pageSize None []"

definition setAvailable :: "shopifyApi \<Rightarrow> shopifyCreds \<Rightarrow> string \<Rightarrow> string \<Rightarrow> int \<Rightarrow> (syncState, unit) op" where
  "setAvailable api creds inventoryItemId locationGid quantity =
    bind (graphql api (SetAvailable creds inventoryItemId locationGid quantity)) (\<lambda>d.
    case d of
      UserErrors errs \<Rightarrow> throwIf (errs \<noteq> []) (OtherError ''inventorySetQuantities userErrors'')
    | _ \<Rightarrow> throw (OtherError ''TypeError''))"

definition exchangeCodeForToken :: "shopifyApi \<Rightarrow> string \<Rightarrow> string \<Rightarrow> string \<Rightarrow> string \<Rightarrow> (syncState, string \<times> string) op" where
  "exchangeCodeForToken api shopDomain apiKey apiSecret code =
    bind (sendCall api (ExchangeCode shopDomain apiKey apiSecret code)) (\<lambda>res.
    case res of
      Token t sc \<Rightarrow> ret (t, sc)
    | _ \<Rightarrow> throw (OtherError ''OAuth token exchange failed''))"

section \<open>Connectors\<close>

record inventoryPush =
  ip_skuId :: ident
  ip_skuCode :: string
  ip_availableToPromise :: int

datatype connector = ShopifyConnector | GenericConnector ChannelType

definition connectorMap :: "ChannelType \<Rightarrow> connector option" where
  "connectorMap = [SHOPIFY \<mapsto> ShopifyConnector, MARKETPLACE \<mapsto> GenericConnector MARKETPLACE,
     ChannelType.POS \<mapsto> GenericConnector ChannelType.POS, OTHER \<mapsto> GenericConnector OTHER]"

definition getConnector :: "ChannelType \<Rightarrow> (syncState, connector) op" where
  "getConnector ty = orThrow (connectorMap ty) (OtherError ''No connector for channel type'')"

text \<open>A configured string; the empty one is falsy.\<close>

definition configText :: "jsonObject option \<Rightarrow> string \<Rightarrow> string option" where
  "configText cfg k = (case cfg of None \<Rightarrow> None | Some c \<Rightarrow>
     (case c k of Some (JStr v) \<Rightarrow> if v = [] then None else Some v | _ \<Rightarrow> None))"

definition configVersion :: "jsonObject option \<Rightarrow> string \<Rightarrow> string" where
  "configVersion cfg dflt = (case cfg of None \<Rightarrow> dflt | Some c \<Rightarrow>
     (case c ''apiVersion'' of Some (JStr v) \<Rightarrow> v | _ \<Rightarrow> dflt))"

definition decryptOp :: "syncEnv \<Rightarrow> string \<Rightarrow> (syncState, string) op" where
  "decryptOp env v = (case decrypt (ev_crypto env) (ev_key env) v of Inl e \<Rightarrow> throw e | Inr p \<Rightarrow> ret p)"

definition credsOf :: "syncEnv \<Rightarrow> string \<Rightarrow> channelRow \<Rightarrow> (syncState, shopifyCreds option) op" where
  "credsOf env dflt channel =
    (case (configText (ch_config channel) ''shopDomain'', configText (ch_config channel) ''accessToken'') of
       (Some shop, Some tok) \<Rightarrow> bind (decryptOp env tok) (\<lambda>t.
          ret (Some \<lparr>sp_shopDomain = shop, sp_accessToken = t, sp_apiVersion = configVersion (ch_config channel) dflt\<rparr>))
     | _ \<Rightarrow> ret None)"

definition findMapping :: "ident \<Rightarrow> ident \<Rightarrow> syncState \<Rightarrow> skuMapping option" where
  "findMapping channelId skuId s = find (\<lambda>m. sm_channelId m = channelId \<and> sm_skuId m = skuId) (skuMappings s)"

definition upsertMapping :: "ident \<Rightarrow> ident \<Rightarrow> string \<Rightarrow> string \<Rightarrow> (syncState, unit) op" where
  "upsertMapping channelId skuId item variant =
    bind (gets (findMapping channelId skuId)) (\<lambda>existing.
    case existing of
      Some _ \<Rightarrow> updateMany skuMappings skuMappings_update (\<lambda>m. sm_channelId m = channelId \<and> sm_skuId m = skuId)
        (\<lambda>m. m\<lparr>sm_inventoryItemId := item, sm_variantId := Some variant\<rparr>)
    | None \<Rightarrow> bind (inWorld freshId) (\<lambda>i.
        andThen (createRow skuMappings skuMappings_update
          \<lparr>sm_id = i, sm_channelId = channelId, sm_skuId = skuId, sm_inventoryItemId = item, sm_variantId = Some variant\<rparr>)
        (ret ())))"

definition resolveInventoryItem :: "syncEnv \<Rightarrow> channelRow \<Rightarrow> shopifyCreds \<Rightarrow> inventoryPush \<Rightarrow> (syncState, string option) op" where
  "resolveInventoryItem env channel creds item =
    bind (gets (findMapping (ch_id channel) (ip_skuId item))) (\<lambda>existing.
    case existing of
      Some m \<Rightarrow> ret (Some (sm_inventoryItemId m))
    | None \<Rightarrow>
        bind (findInventoryItemBySku (ev_api env) creds (ip_skuCode item)) (\<lambda>found.
        case found of
          None \<Rightarrow> ret None
        | Some (inventoryItemId, variantId) \<Rightarrow>
            andThen (upsertMapping (ch_id channel) (ip_skuId item) inventoryItemId variantId)
            (ret (Some inventoryItemId))))"

text \<open>An item without a variant is skipped; an inventory item id that is empty is falsy.\<close>

definition pushItem :: "syncEnv \<Rightarrow> channelRow \<Rightarrow> shopifyCreds \<Rightarrow> string \<Rightarrow> inventoryPush \<Rightarrow> (syncState, unit) op" where
  "pushItem env channel creds locationGid item =
    bind (resolveInventoryItem env channel creds item) (\<lambda>inventoryItemId.
    case inventoryItemId of
      None \<Rightarrow> ret ()
    | Some i \<Rightarrow> if i = [] then ret ()
        else setAvailable (ev_api env) creds i locationGid (ip_availableToPromise item))"

definition pushShopify :: "syncEnv \<Rightarrow> channelRow \<Rightarrow> inventoryPush list \<Rightarrow> (syncState, unit) op" where
  "pushShopify env channel items =
    bind (credsOf env (case ev_apiVersion env of Some v \<Rightarrow> v | None \<Rightarrow> SHOPIFY_API_VERSION) channel) (\<lambda>creds.
    case (creds, configText (ch_config channel) ''inventoryLocationGid'') of
      (Some cr, Some gid) \<Rightarrow> forEach items (pushItem env channel cr gid)
    | _ \<Rightarrow> ret ())"

definition pushInventory :: "syncEnv \<Rightarrow> connector \<Rightarrow> channelRow \<Rightarrow> inventoryPush list \<Rightarrow> (syncState, unit) op" where
  "pushInventory env cn channel items =
    (case cn of ShopifyConnector \<Rightarrow> pushShopify env channel items | GenericConnector _ \<Rightarrow> ret ())"

section \<open>Channel administration\<close>

text \<open>Each sealing draws its own initialisation vector.\<close>

definition encryptOp :: "syncEnv \<Rightarrow> string \<Rightarrow> (syncState, string) op" where
  "encryptOp env p = bind (inWorld freshId) (\<lambda>i. bind (gets (\<lambda>s. randomBytesOf s i)) (\<lambda>iv.
     ret (encrypt (ev_crypto env) (ev_key env) iv p)))"

definition sealField :: "syncEnv \<Rightarrow> string \<Rightarrow> jsonObject \<Rightarrow> (syncState, jsonObject) op" where
  "sealField env k c =
    (case c k of
       Some (JStr v) \<Rightarrow> if v = [] then ret c else bind (encryptOp env v) (\<lambda>e. ret (c(k \<mapsto> JStr e)))
     | _ \<Rightarrow> ret c)"

definition sealConfig :: "syncEnv \<Rightarrow> jsonObject option \<Rightarrow> (syncState, jsonObject option) op" where
  "sealConfig env config =
    (case config of
       None \<Rightarrow> ret None
     | Some c \<Rightarrow> bind (sealField env ''accessToken'' c) (\<lambda>c1. bind (sealField env ''webhookSecret'' c1) (\<lambda>c2. ret (Some c2))))"

record createChannelDto =
  cc_type :: ChannelType
  cc_name :: string
  cc_config :: "jsonObject option"

definition insertChannel :: "channelRow \<Rightarrow> (syncState, channelRow) op" where
  "insertChannel row =
    bind (gets (\<lambda>s. \<exists>c \<in> set (salesChannels s). ch_tenantId c = ch_tenantId row \<and> ch_name c = ch_name row)) (\<lambda>dup.
    andThen (throwIf dup (PrismaKnown ''P2002'' None))
    (createRow salesChannels salesChannels_update row))"

definition createChannel :: "syncEnv \<Rightarrow> ident \<Rightarrow> createChannelDto \<Rightarrow> (syncState, channelRow) op" where
  "createChannel env tenantId dto =
    bind (sealConfig env (cc_config dto)) (\<lambda>config.
    bind (inWorld freshId) (\<lambda>i.
    insertChannel \<lparr>ch_id = i, ch_tenantId = tenantId, ch_type = cc_type dto, ch_name = cc_name dto, ch_active = True,
      ch_externalRef = None, ch_config = config\<rparr>))"

definition listChannels :: "ident \<Rightarrow> (syncState, channelRow list) op" where
  "listChannels tenantId = gets (\<lambda>s. filter (\<lambda>c. ch_tenantId c = tenantId) (salesChannels s))"

section \<open>The listing of variants is complete\<close>

text \<open>What a server answers that serves the list \<open>nodes\<close> in pages of \<open>k\<close>, with a cursor for each offset.\<close>

definition pageAt :: "variantNode list \<Rightarrow> nat \<Rightarrow> (nat \<Rightarrow> string) \<Rightarrow> nat \<Rightarrow> shopifyData" where
  "pageAt nodes k cur i = VariantPage (take k (drop i nodes)) (i + k < length nodes) (Some (cur (i + k)))"

definition servesListing :: "shopifyApi \<Rightarrow> shopifyCreds \<Rightarrow> nat \<Rightarrow> (nat \<Rightarrow> string) \<Rightarrow> variantNode list \<Rightarrow> bool" where
  "servesListing api creds k cur nodes \<longleftrightarrow> 0 < k \<and> (\<forall>i. cur i \<noteq> []) \<and>
    (\<forall>log. api log (InventoryVariants creds k None) = Answer (Some (pageAt nodes k cur 0)) []) \<and>
    (\<forall>log i. api log (InventoryVariants creds k (Some (cur i))) = Answer (Some (pageAt nodes k cur i)) [])"

lemma graphql_answer:
  "api (shopifyLog s) c = Answer (Some d) [] \<Longrightarrow>
    graphql api c s = (Inr d, s\<lparr>shopifyLog := shopifyLog s @ [c]\<rparr>)"
  by (simp add: graphql_def sendCall_def op_defs)

lemma map_filter_append: "List.map_filter f (xs @ ys) = List.map_filter f xs @ List.map_filter f ys"
  by (simp add: List.map_filter_def)

lemma listPages_from:
  assumes "servesListing api creds k cur nodes" "(length nodes - i) div k < n"
    and "after = (if i = 0 then None else Some (cur i))"
  shows "\<exists>calls. listPages n api creds k after out s =
      (Inr (Some (out @ List.map_filter variantOf (drop i nodes))), s\<lparr>shopifyLog := shopifyLog s @ calls\<rparr>) \<and>
    length calls \<le> (length nodes - i) div k + 1"
  using assms(2,3)
proof (induction n arbitrary: i after out s)
  case (Suc n)
  have k: "0 < k" "cur j \<noteq> []" for j using assms(1) by (simp_all add: servesListing_def)
  have a: "api (shopifyLog s) (InventoryVariants creds k after) = Answer (Some (pageAt nodes k cur i)) []"
    using assms(1) Suc.prems(2) by (simp add: servesListing_def)
  let ?s = "s\<lparr>shopifyLog := shopifyLog s @ [InventoryVariants creds k after]\<rparr>"
  have g: "graphql api (InventoryVariants creds k after) s = (Inr (pageAt nodes k cur i), ?s)" by (rule graphql_answer) (rule a)
  let ?out = "out @ List.map_filter variantOf (take k (drop i nodes))"
  show ?case
  proof (cases "i + k < length nodes")
    case True
    have d: "(length nodes - i) div k = Suc ((length nodes - (i + k)) div k)"
      using True k(1) le_div_geq [of k "length nodes - i"] by simp
    then have "(length nodes - (i + k)) div k < n" using Suc.prems(1) by simp
    moreover have "Some (cur (i + k)) = (if i + k = 0 then None else Some (cur (i + k)))" using k(1) by simp
    ultimately obtain calls where c: "listPages n api creds k (Some (cur (i + k))) ?out ?s =
        (Inr (Some (?out @ List.map_filter variantOf (drop (i + k) nodes))), ?s\<lparr>shopifyLog := shopifyLog ?s @ calls\<rparr>)"
        "length calls \<le> (length nodes - (i + k)) div k + 1"
      using Suc.IH by blast
    have "drop i nodes = take k (drop i nodes) @ drop (i + k) nodes"
      by (metis append_take_drop_id drop_drop add.commute)
    then have e: "out @ List.map_filter variantOf (drop i nodes) = ?out @ List.map_filter variantOf (drop (i + k) nodes)"
      by (metis map_filter_append append.assoc)
    show ?thesis
      using c d True k(2) unfolding e
      by (intro exI [of _ "InventoryVariants creds k after # calls"])
        (simp add: bind_def g pageAt_def)
  next
    case False
    then show ?thesis
      by (intro exI [of _ "[InventoryVariants creds k after]"])
        (simp add: bind_def g pageAt_def ret_def)
  qed
qed simp

text \<open>
  Property C29.  Against a server that serves a finite list in pages, the loop ends, after at most one request
  more than there are full pages, with every variant that has a SKU code, in the server's order, and
  nothing else changes.
\<close>

theorem listing_complete:
  assumes "servesListing api creds k cur nodes" "length nodes div k < n"
  shows "\<exists>calls. listInventoryVariants n api creds k s =
      (Inr (Some (List.map_filter variantOf nodes)), s\<lparr>shopifyLog := shopifyLog s @ calls\<rparr>) \<and>
    length calls \<le> length nodes div k + 1"
  using listPages_from [OF assms(1), of 0 n None "[]" s] assms(2) by (simp add: listInventoryVariants_def)

text \<open>A server that always names a next page keeps the loop going: no number of pages is enough.\<close>

lemma listing_unbounded:
  assumes "\<forall>log after. api log (InventoryVariants creds k after) = Answer (Some (VariantPage nodes True (Some c))) []" "c \<noteq> []"
  shows "fst (listInventoryVariants n api creds k s) = Inr None"
proof -
  have "fst (listPages n api creds k after out s) = Inr None" for after out
  proof (induction n arbitrary: after out s)
    case (Suc n)
    then show ?case
      using assms graphql_answer [of api s "InventoryVariants creds k after"] by (simp add: bind_def)
  qed (simp add: ret_def)
  then show ?thesis by (simp add: listInventoryVariants_def)
qed

section \<open>Sealed configurations\<close>

definition isSecret :: "string \<Rightarrow> bool" where
  "isSecret k \<longleftrightarrow> k \<in> {''accessToken'', ''webhookSecret''}"

text \<open>
  A stored value for a given one: a secret is sealed and decrypts to what was given, anything else
  is as given.
\<close>

definition storedAs :: "syncEnv \<Rightarrow> string \<Rightarrow> jsonVal option \<Rightarrow> jsonVal option \<Rightarrow> bool" where
  "storedAs env k v v' \<longleftrightarrow>
    (if isSecret k then
       (case v of
          Some (JStr p) \<Rightarrow> (\<exists>e. v' = Some (JStr e) \<and> decrypt (ev_crypto env) (ev_key env) e = Inr p \<and>
            (startsWith e sealPrefix \<or> ev_key env = None \<or> p = []))
        | _ \<Rightarrow> v' = v)
     else v' = v)"

definition unmarked :: "jsonObject \<Rightarrow> bool" where
  "unmarked c \<longleftrightarrow> (\<forall>k p. c k = Some (JStr p) \<longrightarrow> \<not> startsWith p sealPrefix)"

lemma wp_sealField:
  assumes "aeadLaw (ev_crypto env)" "digestLaw (ev_crypto env)" "ev_key env = cryptoKey (ev_crypto env) raw"
    and "\<And>p. c k = Some (JStr p) \<Longrightarrow> \<not> startsWith p sealPrefix" "isSecret k"
  shows "wp (sealField env k c) (\<lambda>c' _. storedAs env k (c k) (c' k) \<and> (\<forall>j. j \<noteq> k \<longrightarrow> c' j = c j)) (\<lambda>_ _. False) s"
proof -
  have empty: "decrypt lib key [] = Inr []" for lib key by (simp add: decrypt_def startsWith_def sealPrefix_def)
  show ?thesis
    using decrypt_encrypt [OF assms(1,2) assms(4) assms(3)] encrypt_marks [of "ev_key env" _ "ev_crypto env"] assms(5)
    by (auto simp: sealField_def encryptOp_def wp storedAs_def empty split: option.split jsonVal.split)
qed

lemma wp_sealConfig_frame:
  "wp (sealConfig env c) (\<lambda>_ s'. salesChannels s' = salesChannels s) (\<lambda>_ s'. salesChannels s' = salesChannels s) s"
  by (auto simp: sealConfig_def sealField_def encryptOp_def wp split: option.split jsonVal.split)

lemma wp_sealConfig:
  assumes "aeadLaw (ev_crypto env)" "digestLaw (ev_crypto env)" "ev_key env = cryptoKey (ev_crypto env) raw" "unmarked c"
  shows "wp (sealConfig env (Some c)) (\<lambda>r _. \<exists>c'. r = Some c' \<and> (\<forall>k. storedAs env k (c k) (c' k))) (\<lambda>_ _. False) s"
proof -
  have second: "wp (sealField env ''webhookSecret'' c1) (\<lambda>c2 _. \<forall>k. storedAs env k (c k) (c2 k)) (\<lambda>_ _. False) t"
    if c1: "storedAs env ''accessToken'' (c ''accessToken'') (c1 ''accessToken'')" "\<forall>j. j \<noteq> ''accessToken'' \<longrightarrow> c1 j = c j" for c1 t
  proof -
    have u: "\<not> startsWith p sealPrefix" if "c1 ''webhookSecret'' = Some (JStr p)" for p
      using assms(4) c1(2) that by (auto simp: unmarked_def)
    show ?thesis
    proof (rule wp_mono [OF wp_sealField [where k = "''webhookSecret''", OF assms(1-3) u]], goal_cases)
      case (3 c2 s')
      have "storedAs env k (c k) (c2 k)" for k
      proof (cases "isSecret k")
        case True
        then show ?thesis using 3 c1 by (auto simp: isSecret_def)
      next
        case False
        then have "c2 k = c k" using 3 c1(2) by (auto simp: isSecret_def)
        then show ?thesis using False by (simp add: storedAs_def)
      qed
      then show ?case by blast
    qed (simp_all add: isSecret_def)
  qed
  have u: "\<not> startsWith p sealPrefix" if "c ''accessToken'' = Some (JStr p)" for p
    using assms(4) that by (auto simp: unmarked_def)
  show ?thesis
    by (simp add: sealConfig_def wp,
        rule wp_mono [OF wp_sealField [where k = "''accessToken''", OF assms(1-3) u]])
      (auto simp: isSecret_def intro!: second)
qed


section \<open>Witnesses\<close>

definition demoCreds :: shopifyCreds where
  "demoCreds = \<lparr>sp_shopDomain = ''demo.myshopify.com'', sp_accessToken = ''shpat_1'', sp_apiVersion = SHOPIFY_API_VERSION\<rparr>"

definition demoNode :: "string \<Rightarrow> string option \<Rightarrow> variantNode" where
  "demoNode i code = \<lparr>vn_id = i, vn_sku = code, vn_title = ''Default Title'', vn_productTitle = ''Mug'',
     vn_inventoryItemId = i, vn_levels = []\<rparr>"

definition demoNodes :: "variantNode list" where
  "demoNodes = [demoNode ''1'' (Some ''A-1''), demoNode ''2'' None, demoNode ''3'' (Some ''B-1'')]"

definition demoCursor :: "nat \<Rightarrow> string" where
  "demoCursor i = replicate (i + 1) (CHR ''c'')"

definition demoShop :: shopifyApi where
  "demoShop history c = (case c of
     InventoryVariants cr k None \<Rightarrow> Answer (Some (pageAt demoNodes k demoCursor 0)) []
   | InventoryVariants cr k (Some x) \<Rightarrow> Answer (Some (pageAt demoNodes k demoCursor (length x - 1))) []
   | _ \<Rightarrow> Refused 404)"

lemma demoShop_serves: "servesListing demoShop demoCreds 2 demoCursor demoNodes"
  by (simp add: servesListing_def demoShop_def demoCursor_def)

lemma listing_complete_witness:
  "\<forall>s. \<exists>vs s'. listInventoryVariants 2 demoShop demoCreds 2 s = (Inr (Some vs), s') \<and> map sv_sku vs = [''A-1'', ''B-1'']"
proof
  fix s
  have "map sv_sku (List.map_filter variantOf demoNodes) = [''A-1'', ''B-1'']" by code_simp
  then show "\<exists>vs s'. listInventoryVariants 2 demoShop demoCreds 2 s = (Inr (Some vs), s') \<and> map sv_sku vs = [''A-1'', ''B-1'']"
    using listing_complete [OF demoShop_serves, of 2 s] by (auto simp: demoNodes_def)
qed

definition demoSecrets :: jsonObject where
  "demoSecrets = (\<lambda>k. if k = ''webhookSecret'' then Some (JStr ''hush'') else None)"

definition demoEnv :: syncEnv where
  "demoEnv = \<lparr>ev_api = demoShop, ev_crypto = demoLib, ev_key = cryptoKey demoLib (Some ''key''), ev_apiVersion = None,
     ev_idText = (\<lambda>_. ''id'')\<rparr>"


end
