(* ===== verification/Catalog.thy ===== *)
theory Catalog
  imports Atp Payments Pagination
begin

text \<open>
  backend/src/catalog/catalog.service.ts: the SKUs and locations of a tenant.  The order of text in the
  database (its collation) is a parameter of the listing.
\<close>

section \<open>Requests\<close>

record listQuery = pageQuery +
  lq_search :: "string option"

record createSkuDto =
  cs_code :: string
  cs_name :: string
  cs_active :: "bool option"

record updateSkuDto =
  ks_name :: "string option"
  ks_active :: "bool option"

record createLocationDto =
  cl_code :: string
  cl_name :: string
  cl_type :: LocationType
  cl_latitude :: "real option"
  cl_longitude :: "real option"
  cl_fulfillmentPriority :: "int option"
  cl_shipFromEnabled :: "bool option"
  cl_pickupEnabled :: "bool option"
  cl_dailyOrderCapacity :: "int option"
  cl_active :: "bool option"

text \<open>A nullable column may be set to null, which is the value \<open>Some None\<close>.\<close>

record updateLocationDto =
  ul_name :: "string option"
  ul_latitude :: "real option option"
  ul_longitude :: "real option option"
  ul_fulfillmentPriority :: "int option"
  ul_shipFromEnabled :: "bool option"
  ul_pickupEnabled :: "bool option"
  ul_dailyOrderCapacity :: "int option option"
  ul_active :: "bool option"

definition orKeep :: "'a option \<Rightarrow> 'a \<Rightarrow> 'a" where
  "orKeep v old = (case v of Some x \<Rightarrow> x | None \<Rightarrow> old)"

section \<open>Listing\<close>

definition containsInsensitive :: "string \<Rightarrow> string \<Rightarrow> bool" where
  "containsInsensitive s q \<longleftrightarrow> sublist (toLowerCase q) (toLowerCase s)"

definition searchMatches :: "string option \<Rightarrow> string \<Rightarrow> string \<Rightarrow> bool" where
  "searchMatches search code nam \<longleftrightarrow>
    (case search of
       None \<Rightarrow> True
     | Some q \<Rightarrow> q = [] \<or> containsInsensitive code q \<or> containsInsensitive nam q)"

definition listSkus :: "(string \<Rightarrow> string \<Rightarrow> int) \<Rightarrow> ident \<Rightarrow> listQuery \<Rightarrow> (world, sku page) op" where
  "listSkus collate tenantId q = gets (\<lambda>w. paginate (pageQuery.truncate q)
     (jsSort (\<lambda>a b. collate (sk_code a) (sk_code b))
       (filter (\<lambda>k. sk_tenantId k = tenantId \<and> searchMatches (lq_search q) (sk_code k) (sk_name k)) (skus w))))"

definition listLocations :: "ident \<Rightarrow> listQuery \<Rightarrow> (world, location page) op" where
  "listLocations tenantId q = gets (\<lambda>w. paginate (pageQuery.truncate q)
     (jsSort (\<lambda>a b. lo_fulfillmentPriority a - lo_fulfillmentPriority b)
       (filter (\<lambda>l. lo_tenantId l = tenantId \<and> searchMatches (lq_search q) (lo_code l) (lo_name l)) (locations w))))"

section \<open>SKUs\<close>

definition requireSku :: "ident \<Rightarrow> ident \<Rightarrow> (world, sku) op" where
  "requireSku tenantId i =
    bind (gets (\<lambda>w. find (\<lambda>k. sk_id k = i \<and> sk_tenantId k = tenantId) (skus w))) (\<lambda>k.
    orThrow k (NotFound ''SKU not found''))"

definition getSku :: "ident \<Rightarrow> ident \<Rightarrow> (world, sku) op" where
  "getSku tenantId i = requireSku tenantId i"

definition findSkuByCode :: "ident \<Rightarrow> string \<Rightarrow> world \<Rightarrow> sku option" where
  "findSkuByCode tenantId code w = find (\<lambda>k. sk_tenantId k = tenantId \<and> sk_code k = code) (skus w)"

text \<open>The pair of tenant and code is unique.\<close>

definition insertSku :: "ident \<Rightarrow> string \<Rightarrow> string \<Rightarrow> bool \<Rightarrow> (world, sku) op" where
  "insertSku tenantId code nam active =
    bind (gets (findSkuByCode tenantId code)) (\<lambda>dup.
    andThen (throwIf (dup \<noteq> None) (PrismaKnown ''P2002'' None))
    (bind freshId (\<lambda>i. createRow skus skus_update
      \<lparr>sk_id = i, sk_tenantId = tenantId, sk_code = code, sk_name = nam, sk_active = active\<rparr>)))"

definition createSku :: "ident \<Rightarrow> createSkuDto \<Rightarrow> (world, sku) op" where
  "createSku tenantId dto = insertSku tenantId (cs_code dto) (cs_name dto) (orKeep (cs_active dto) True)"

definition changedSku :: "updateSkuDto \<Rightarrow> sku \<Rightarrow> sku" where
  "changedSku dto k = k\<lparr>sk_name := orKeep (ks_name dto) (sk_name k), sk_active := orKeep (ks_active dto) (sk_active k)\<rparr>"

definition updateSku :: "ident \<Rightarrow> ident \<Rightarrow> updateSkuDto \<Rightarrow> (world, sku) op" where
  "updateSku tenantId i dto =
    bind (requireSku tenantId i) (\<lambda>_. updateRow skus skus_update (\<lambda>k. sk_id k = i) (changedSku dto))"

section \<open>Locations\<close>

definition requireLocation :: "ident \<Rightarrow> ident \<Rightarrow> (world, location) op" where
  "requireLocation tenantId i =
    bind (gets (\<lambda>w. find (\<lambda>l. lo_id l = i \<and> lo_tenantId l = tenantId) (locations w))) (\<lambda>l.
    orThrow l (NotFound ''Location not found''))"

definition getLocation :: "ident \<Rightarrow> ident \<Rightarrow> (world, location) op" where
  "getLocation tenantId i = requireLocation tenantId i"

definition findLocationByCode :: "ident \<Rightarrow> string \<Rightarrow> world \<Rightarrow> location option" where
  "findLocationByCode tenantId code w = find (\<lambda>l. lo_tenantId l = tenantId \<and> lo_code l = code) (locations w)"

definition insertLocation :: "(ident \<Rightarrow> location) \<Rightarrow> (world, location) op" where
  "insertLocation row =
    bind (gets (\<lambda>w. findLocationByCode (lo_tenantId (row 0)) (lo_code (row 0)) w)) (\<lambda>dup.
    andThen (throwIf (dup \<noteq> None) (PrismaKnown ''P2002'' None))
    (bind freshId (\<lambda>i. createRow locations locations_update (row i))))"

text \<open>The columns' defaults: priority 100, ships, no pickup, unlimited, active.\<close>

definition newLocation :: "ident \<Rightarrow> createLocationDto \<Rightarrow> ident \<Rightarrow> location" where
  "newLocation tenantId dto i =
    \<lparr>lo_id = i, lo_tenantId = tenantId, lo_code = cl_code dto, lo_name = cl_name dto, lo_type = cl_type dto,
     lo_active = orKeep (cl_active dto) True, lo_latitude = cl_latitude dto, lo_longitude = cl_longitude dto,
     lo_fulfillmentPriority = orKeep (cl_fulfillmentPriority dto) 100,
     lo_shipFromEnabled = orKeep (cl_shipFromEnabled dto) True, lo_pickupEnabled = orKeep (cl_pickupEnabled dto) False,
     lo_dailyOrderCapacity = cl_dailyOrderCapacity dto\<rparr>"

definition createLocation :: "ident \<Rightarrow> createLocationDto \<Rightarrow> (world, location) op" where
  "createLocation tenantId dto = insertLocation (newLocation tenantId dto)"

definition changedLocation :: "updateLocationDto \<Rightarrow> location \<Rightarrow> location" where
  "changedLocation dto l =
    l\<lparr>lo_name := orKeep (ul_name dto) (lo_name l), lo_active := orKeep (ul_active dto) (lo_active l),
      lo_latitude := orKeep (ul_latitude dto) (lo_latitude l), lo_longitude := orKeep (ul_longitude dto) (lo_longitude l),
      lo_fulfillmentPriority := orKeep (ul_fulfillmentPriority dto) (lo_fulfillmentPriority l),
      lo_shipFromEnabled := orKeep (ul_shipFromEnabled dto) (lo_shipFromEnabled l),
      lo_pickupEnabled := orKeep (ul_pickupEnabled dto) (lo_pickupEnabled l),
      lo_dailyOrderCapacity := orKeep (ul_dailyOrderCapacity dto) (lo_dailyOrderCapacity l)\<rparr>"

definition updateLocation :: "ident \<Rightarrow> ident \<Rightarrow> updateLocationDto \<Rightarrow> (world, location) op" where
  "updateLocation tenantId i dto =
    bind (requireLocation tenantId i) (\<lambda>_.
    updateRow locations locations_update (\<lambda>l. lo_id l = i) (changedLocation dto))"

section \<open>Invariant of the catalog\<close>

text \<open>Identifiers and codes are unique, and identifiers below the counter.\<close>

definition catalogOk :: "world \<Rightarrow> bool" where
  "catalogOk w \<longleftrightarrow> distinct (map sk_id (skus w)) \<and> distinct (map (\<lambda>k. (sk_tenantId k, sk_code k)) (skus w)) \<and>
    distinct (map lo_id (locations w)) \<and> distinct (map (\<lambda>l. (lo_tenantId l, lo_code l)) (locations w)) \<and>
    (\<forall>k \<in> set (skus w). sk_id k < nextId w) \<and> (\<forall>l \<in> set (locations w). lo_id l < nextId w)"

lemma keeps_requireSku: "keeps I (requireSku t i)"
  by (simp add: requireSku_def keepsI)

lemma keeps_requireLocation: "keeps I (requireLocation t i)"
  by (simp add: requireLocation_def keepsI)

lemma catalogOk_skus:
  assumes "catalogOk w" "\<And>k. sk_id (f k) = sk_id k" "\<And>k. sk_tenantId (f k) = sk_tenantId k" "\<And>k. sk_code (f k) = sk_code k"
  shows "catalogOk (w\<lparr>skus := mapWhere p f (skus w)\<rparr>)"
proof -
  have "map sk_id (mapWhere p f (skus w)) = map sk_id (skus w)"
    "map (\<lambda>k. (sk_tenantId k, sk_code k)) (mapWhere p f (skus w)) = map (\<lambda>k. (sk_tenantId k, sk_code k)) (skus w)"
    using assms(2-4) by (simp_all add: map_mapWhere_frame)
  then show ?thesis using assms(1,2) by (auto simp: catalogOk_def set_mapWhere)
qed

lemma catalogOk_locations:
  assumes "catalogOk w" "\<And>k. lo_id (f k) = lo_id k" "\<And>k. lo_tenantId (f k) = lo_tenantId k" "\<And>k. lo_code (f k) = lo_code k"
  shows "catalogOk (w\<lparr>locations := mapWhere p f (locations w)\<rparr>)"
proof -
  have "map lo_id (mapWhere p f (locations w)) = map lo_id (locations w)"
    "map (\<lambda>k. (lo_tenantId k, lo_code k)) (mapWhere p f (locations w)) = map (\<lambda>k. (lo_tenantId k, lo_code k)) (locations w)"
    using assms(2-4) by (simp_all add: map_mapWhere_frame)
  then show ?thesis using assms(1,2) by (auto simp: catalogOk_def set_mapWhere)
qed

lemma keeps_updateSku [keepsI]: "keeps catalogOk (updateSku t i dto)"
  unfolding updateSku_def
  by (rule keeps_bind [OF keeps_requireSku], rule keeps_intro)
    (auto simp: wp_updateRow changedSku_def intro!: catalogOk_skus split: option.split)

lemma keeps_updateLocation [keepsI]: "keeps catalogOk (updateLocation t i dto)"
  unfolding updateLocation_def
  by (rule keeps_bind [OF keeps_requireLocation], rule keeps_intro)
    (auto simp: wp_updateRow changedLocation_def intro!: catalogOk_locations split: option.split)

lemma catalogOk_insertSku: "keeps catalogOk (insertSku t c n a)"
proof (rule keeps_intro)
  fix w assume ok: "catalogOk w"
  show "wp (insertSku t c n a) (\<lambda>_. catalogOk) (\<lambda>_. catalogOk) w"
  proof (cases "findSkuByCode t c w")
    case None
    then have "\<forall>k \<in> set (skus w). \<not> (sk_tenantId k = t \<and> sk_code k = c)"
      by (auto simp: findSkuByCode_def find_None_iff)
    then show ?thesis using ok
      by (auto simp: insertSku_def wp None catalogOk_def image_iff less_Suc_eq)
  qed (use ok in \<open>simp add: insertSku_def wp\<close>)
qed

lemma keeps_createSku [keepsI]: "keeps catalogOk (createSku t dto)"
  by (simp add: createSku_def catalogOk_insertSku)

lemma catalogOk_insertLocation:
  assumes "\<And>i. lo_id (row i) = i" "\<And>i. lo_tenantId (row i) = t" "\<And>i. lo_code (row i) = c"
  shows "keeps catalogOk (insertLocation row)"
proof (rule keeps_intro)
  fix w assume ok: "catalogOk w"
  show "wp (insertLocation row) (\<lambda>_. catalogOk) (\<lambda>_. catalogOk) w"
  proof (cases "findLocationByCode t c w")
    case None
    then have "\<forall>l \<in> set (locations w). \<not> (lo_tenantId l = t \<and> lo_code l = c)"
      by (auto simp: findLocationByCode_def find_None_iff)
    then show ?thesis using ok
      by (auto simp: insertLocation_def wp None assms catalogOk_def image_iff less_Suc_eq)
  qed (use ok in \<open>simp add: insertLocation_def wp assms\<close>)
qed

lemma keeps_createLocation [keepsI]: "keeps catalogOk (createLocation t dto)"
  unfolding createLocation_def by (rule catalogOk_insertLocation) (simp_all add: newLocation_def)

section \<open>Properties\<close>

datatype catalogRequest =
    CreateSku ident createSkuDto
  | UpdateSku ident ident updateSkuDto
  | CreateLocation ident createLocationDto
  | UpdateLocation ident ident updateLocationDto

text \<open>The requests that write, as operations that answer nothing.\<close>

definition serve :: "catalogRequest \<Rightarrow> (world, unit) op" where
  "serve r =
    (case r of
       CreateSku t dto \<Rightarrow> bind (createSku t dto) (\<lambda>_. ret ())
     | UpdateSku t i dto \<Rightarrow> bind (updateSku t i dto) (\<lambda>_. ret ())
     | CreateLocation t dto \<Rightarrow> bind (createLocation t dto) (\<lambda>_. ret ())
     | UpdateLocation t i dto \<Rightarrow> bind (updateLocation t i dto) (\<lambda>_. ret ()))"

definition afterRequests :: "catalogRequest list \<Rightarrow> world \<Rightarrow> world" where
  "afterRequests rs w = fold (\<lambda>r w. snd (serve r w)) rs w"

lemma keeps_serve: "keeps catalogOk (serve r)"
  by (cases r) (simp_all add: serve_def keepsI)

lemma catalogOk_after: "catalogOk w \<Longrightarrow> catalogOk (afterRequests rs w)"
proof (induction rs arbitrary: w)
  case (Cons r rs)
  have "catalogOk (snd (serve r w))"
    by (rule keepsD [OF keeps_serve Cons.prems, of r "fst (serve r w)"]) simp
  then show ?case using Cons.IH by (simp add: afterRequests_def)
qed (simp add: afterRequests_def)

text \<open>
  Property C27.  Whatever requests came before, a code names one SKU and one location of a tenant: looking up
  the code of a row finds that row.
\<close>

theorem codes_identify:
  assumes "catalogOk w" "k \<in> set (skus (afterRequests rs w))" "l \<in> set (locations (afterRequests rs w))"
  shows "findSkuByCode (sk_tenantId k) (sk_code k) (afterRequests rs w) = Some k \<and>
    findLocationByCode (lo_tenantId l) (lo_code l) (afterRequests rs w) = Some l"
proof -
  have ok: "catalogOk (afterRequests rs w)" by (rule catalogOk_after [OF assms(1)])
  have "find (\<lambda>q. (sk_tenantId q, sk_code q) = (sk_tenantId k, sk_code k)) (skus (afterRequests rs w)) = Some k"
    "find (\<lambda>q. (lo_tenantId q, lo_code q) = (lo_tenantId l, lo_code l)) (locations (afterRequests rs w)) = Some l"
    by (rule find_unique; use ok assms(2,3) in \<open>simp add: catalogOk_def\<close>)+
  then show ?thesis by (simp add: findSkuByCode_def findLocationByCode_def)
qed

text \<open>
  Switching a location off does not drop the cached answers: the network promise keeps showing its stock,
  until the entry expires or stock of the SKU moves.
\<close>

definition switchedOff :: updateLocationDto where
  "switchedOff = \<lparr>ul_name = None, ul_latitude = None, ul_longitude = None, ul_fulfillmentPriority = None,
     ul_shipFromEnabled = None, ul_pickupEnabled = None, ul_dailyOrderCapacity = None, ul_active = Some False\<rparr>"

lemma location_switch_leaves_cache:
  "cache (snd (updateLocation t i dto w)) = cache w"
proof -
  have "wp (updateLocation t i dto) (\<lambda>_ w'. cache w' = cache w) (\<lambda>_ w'. cache w' = cache w) w"
    by (auto simp: updateLocation_def requireLocation_def wp split: option.split)
  then show ?thesis
    by (cases "updateLocation t i dto w"; cases "fst (updateLocation t i dto w)") (auto simp: wp_iff)
qed

lemma demo_switched_off:
  "av_available (freshNetwork 0 7 2 (snd (updateLocation 7 3 switchedOff (demoWorld\<lparr>cache := c\<rparr>)))) = 0"
  by (simp add: updateLocation_def requireLocation_def op_defs demoWorld_def switchedOff_def changedLocation_def orKeep_def
      freshNetwork_def networkRows_def locationActive_def compose_def Let_def zeroBuckets_def availableOf_def mapWhere_def)

lemma switched_off_still_promised:
  "\<exists>w v w' v'. snapshotsOk w \<and> cacheCoherent w \<and> network 0 7 2 w = (Inr v, w') \<and> av_available v = 8 \<and>
    fst (network 0 7 2 (snd (updateLocation 7 3 switchedOff w'))) = Inr v \<and>
    av_available (freshNetwork 0 7 2 (snd (updateLocation 7 3 switchedOff w'))) = 0"
proof -
  let ?v = "freshNetwork 0 7 2 demoWorld"
  let ?w = "demoWorld\<lparr>cache := (cache demoWorld)((7, 2, None) := Some ?v)\<rparr>"
  let ?u = "snd (updateLocation 7 3 switchedOff ?w)"
  have n: "network 0 7 2 demoWorld = (Inr ?v, ?w)"
    by (simp add: network_def cached_def op_defs demoWorld_def)
  have c: "cache ?u = cache ?w" by (rule location_switch_leaves_cache)
  have hit: "fst (network 0 7 2 ?u) = Inr ?v"
    by (simp add: network_def cached_def op_defs c)
  have a: "av_available ?v = 8" by code_simp
  have z: "av_available (freshNetwork 0 7 2 ?u) = 0" by (rule demo_switched_off)
  show ?thesis using n a hit z demoWorld_cache by blast
qed

lemma codes_identify_witness:
  "\<exists>k l. findSkuByCode 7 ''B-2'' (afterRequests [CreateSku 7 \<lparr>cs_code = ''B-2'', cs_name = ''B'', cs_active = None\<rparr>] (demoWorld\<lparr>locations := take 1 (locations demoWorld)\<rparr>)) = Some k \<and>
     sk_id k = 10 \<and> findLocationByCode 7 ''L'' (afterRequests [CreateSku 7 \<lparr>cs_code = ''B-2'', cs_name = ''B'', cs_active = None\<rparr>] (demoWorld\<lparr>locations := take 1 (locations demoWorld)\<rparr>)) = Some l"
proof -
  let ?w = "demoWorld\<lparr>locations := take 1 (locations demoWorld)\<rparr>"
  let ?rs = "[CreateSku 7 \<lparr>cs_code = ''B-2'', cs_name = ''B'', cs_active = None\<rparr>]"
  let ?k = "\<lparr>sk_id = 10, sk_tenantId = 7, sk_code = ''B-2'', sk_name = ''B'', sk_active = True\<rparr>"
  have ok: "catalogOk ?w" by (simp add: catalogOk_def demoWorld_def)
  have k: "?k \<in> set (skus (afterRequests ?rs ?w))"
    by (simp add: afterRequests_def serve_def createSku_def insertSku_def op_defs findSkuByCode_def freshId_def demoWorld_def orKeep_def)
  have ll: "hd (locations demoWorld) \<in> set (locations (afterRequests ?rs ?w))"
    by (simp add: afterRequests_def serve_def createSku_def insertSku_def op_defs findSkuByCode_def freshId_def demoWorld_def orKeep_def)
  have "lo_tenantId (hd (locations demoWorld)) = 7" "lo_code (hd (locations demoWorld)) = ''L''" by (simp_all add: demoWorld_def)
  then show ?thesis using codes_identify [OF ok k ll] by auto
qed

end
