(* ===== verification/Sync.thy ===== *)
theory Sync
  imports Channels Catalog
begin

text \<open>
  backend/src/sync/sync.service.ts and sync.processor.ts: the import of a Shopify shop's variants and
  stock, the drain of the outbox to the sales channels, and the feeds other systems read.
  \<open>horizonDays\<close> is the planning horizon of the availability service.
\<close>

section \<open>Current availability\<close>

definition atpItem :: "syncEnv \<Rightarrow> int \<Rightarrow> ident \<Rightarrow> sku list \<Rightarrow> ident \<Rightarrow> (syncState, inventoryPush list) op" where
  "atpItem env horizonDays tenantId rows skuId =
    bind (inWorld (network horizonDays tenantId skuId)) (\<lambda>view.
    ret [\<lparr>ip_skuId = skuId,
      ip_skuCode = (case find (\<lambda>k. sk_id k = skuId) rows of Some k \<Rightarrow> sk_code k | None \<Rightarrow> ev_idText env skuId),
      ip_availableToPromise = av_availableToPromise view\<rparr>])"

definition atpFor :: "syncEnv \<Rightarrow> int \<Rightarrow> ident \<Rightarrow> ident list \<Rightarrow> (syncState, inventoryPush list) op" where
  "atpFor env horizonDays tenantId skuIds =
    (if skuIds = [] then ret []
     else bind (gets (\<lambda>s. filter (\<lambda>k. sk_tenantId k = tenantId \<and> sk_id k \<in> set skuIds) (skus (sy_world s)))) (\<lambda>rows.
          collect skuIds (atpItem env horizonDays tenantId rows)))"

section \<open>Draining the outbox\<close>

definition publishToChannel :: "syncEnv \<Rightarrow> channelRow \<Rightarrow> inventoryPush list \<Rightarrow> (syncState, unit) op" where
  "publishToChannel env channel items =
    bind (getConnector (ch_type channel)) (\<lambda>cn. pushInventory env cn channel items)"

definition pendingBatch :: "nat \<Rightarrow> world \<Rightarrow> outboxEvent list" where
  "pendingBatch batch w = take batch (jsSort (\<lambda>a b. ob_seq a - ob_seq b)
     (filter (\<lambda>e. ob_status e = OutboxStatus.PENDING) (outbox w)))"

definition changedSkus :: "outboxEvent list \<Rightarrow> ident list" where
  "changedSkus es = uniq (map ob_subjectId (filter (\<lambda>e. ob_type e = INVENTORY_ATP_CHANGED) es))"

definition activeChannels :: "ident \<Rightarrow> syncState \<Rightarrow> channelRow list" where
  "activeChannels tenantId s = filter (\<lambda>c. ch_tenantId c = tenantId \<and> ch_active c) (salesChannels s)"

definition markPublished :: "outboxEvent list \<Rightarrow> (syncState, unit) op" where
  "markPublished es = bind (inWorld now) (\<lambda>ts.
     inWorld (updateMany outbox outbox_update (\<lambda>e. ob_id e \<in> ob_id ` set es)
       (\<lambda>e. e\<lparr>ob_status := OutboxStatus.PUBLISHED, ob_publishedAt := Some ts, ob_attempts := ob_attempts e + 1\<rparr>)))"

text \<open>One tenant's events.\<close>

definition drainTenant :: "syncEnv \<Rightarrow> int \<Rightarrow> outboxEvent list \<Rightarrow> ident \<Rightarrow> (syncState, unit) op" where
  "drainTenant env horizonDays pending tenantId =
    (let events = filter (\<lambda>e. ob_tenantId e = tenantId) pending; skuIds = changedSkus events in
     bind (gets (activeChannels tenantId)) (\<lambda>channels.
     andThen
       (if channels \<noteq> [] \<and> skuIds \<noteq> []
        then bind (atpFor env horizonDays tenantId skuIds) (\<lambda>items.
             forEach channels (\<lambda>channel. publishToChannel env channel items))
        else ret ())
       (markPublished events)))"

definition drainOutbox :: "syncEnv \<Rightarrow> int \<Rightarrow> nat \<Rightarrow> (syncState, nat) op" where
  "drainOutbox env horizonDays batch =
    bind (gets (\<lambda>s. pendingBatch batch (sy_world s))) (\<lambda>pending.
    andThen (forEach (uniq (map ob_tenantId pending)) (drainTenant env horizonDays pending))
    (ret (length pending)))"

text \<open>The worker of the sync queue.\<close>

definition DRAIN_OUTBOX :: string where
  "DRAIN_OUTBOX = ''drain-outbox''"

definition processJob :: "syncEnv \<Rightarrow> int \<Rightarrow> string \<Rightarrow> (syncState, nat option) op" where
  "processJob env horizonDays jobName =
    (if jobName = DRAIN_OUTBOX then bind (drainOutbox env horizonDays 500) (\<lambda>published. ret (Some published)) else ret None)"

section \<open>Feeds\<close>

definition inventoryFeed :: "syncEnv \<Rightarrow> int \<Rightarrow> ident \<Rightarrow> (syncState, inventoryPush list) op" where
  "inventoryFeed env horizonDays tenantId =
    bind (gets (\<lambda>s. filter (\<lambda>k. sk_tenantId k = tenantId \<and> sk_active k) (skus (sy_world s)))) (\<lambda>ks.
    atpFor env horizonDays tenantId (map sk_id ks))"

record changesFeed =
  cf_cursor :: int
  cf_items :: "inventoryPush list"

definition eventsAfter :: "ident \<Rightarrow> int \<Rightarrow> world \<Rightarrow> outboxEvent list" where
  "eventsAfter tenantId since w = jsSort (\<lambda>a b. ob_seq a - ob_seq b)
     (filter (\<lambda>e. ob_tenantId e = tenantId \<and> ob_type e = INVENTORY_ATP_CHANGED \<and> since < ob_seq e) (outbox w))"

definition changesSince :: "syncEnv \<Rightarrow> int \<Rightarrow> ident \<Rightarrow> int option \<Rightarrow> nat option \<Rightarrow> (syncState, changesFeed) op" where
  "changesSince env horizonDays tenantId q_since q_limit =
    (let since = (case q_since of Some n \<Rightarrow> n | None \<Rightarrow> 0); limit = (case q_limit of Some n \<Rightarrow> n | None \<Rightarrow> 200) in
     bind (gets (\<lambda>s. take limit (eventsAfter tenantId since (sy_world s)))) (\<lambda>events.
     let cursor = (if events = [] then since else ob_seq (last events)); skuIds = uniq (map ob_subjectId events) in
     bind (atpFor env horizonDays tenantId skuIds) (\<lambda>items.
     ret \<lparr>cf_cursor = cursor, cf_items = items\<rparr>)))"

record outboxQuery = pageQuery +
  oq_status :: "OutboxStatus option"

text \<open>Newest first.\<close>

definition listOutbox :: "ident \<Rightarrow> outboxQuery \<Rightarrow> (syncState, outboxEvent page) op" where
  "listOutbox tenantId q = gets (\<lambda>s. paginate (pageQuery.truncate q)
     (jsSort (\<lambda>a b. ob_seq b - ob_seq a)
       (filter (\<lambda>e. ob_tenantId e = tenantId \<and> (case oq_status q of None \<Rightarrow> True | Some st \<Rightarrow> ob_status e = st))
         (outbox (sy_world s)))))"

section \<open>Importing a shop\<close>

definition variantName :: "shopifyVariant \<Rightarrow> string" where
  "variantName v =
    (if sv_title v \<noteq> [] \<and> sv_title v \<noteq> ''Default Title'' then sv_productTitle v @ '' - '' @ sv_title v
     else sv_productTitle v)"

definition upsertSku :: "ident \<Rightarrow> string \<Rightarrow> string \<Rightarrow> (world, sku) op" where
  "upsertSku tenantId code nam =
    bind (gets (findSkuByCode tenantId code)) (\<lambda>existing.
    case existing of
      Some k \<Rightarrow> updateRow skus skus_update (\<lambda>q. sk_id q = sk_id k) (\<lambda>q. q\<lparr>sk_name := nam, sk_active := True\<rparr>)
    | None \<Rightarrow> insertSku tenantId code nam True)"

definition locationCode :: "string \<Rightarrow> string" where
  "locationCode locationGid = ''SHOPIFY-'' @ last (splitOn (CHR ''/'') locationGid)"

definition importedLocation :: "ident \<Rightarrow> string \<Rightarrow> string \<Rightarrow> ident \<Rightarrow> location" where
  "importedLocation tenantId code nam i =
    \<lparr>lo_id = i, lo_tenantId = tenantId, lo_code = code, lo_name = nam, lo_type = WAREHOUSE, lo_active = True,
     lo_latitude = None, lo_longitude = None, lo_fulfillmentPriority = 100, lo_shipFromEnabled = True,
     lo_pickupEnabled = False, lo_dailyOrderCapacity = None\<rparr>"

definition upsertLocation :: "ident \<Rightarrow> string \<Rightarrow> string \<Rightarrow> (world, location) op" where
  "upsertLocation tenantId code nam =
    bind (gets (findLocationByCode tenantId code)) (\<lambda>existing.
    case existing of
      Some l \<Rightarrow> updateRow locations locations_update (\<lambda>q. lo_id q = lo_id l) (\<lambda>q. q\<lparr>lo_name := nam, lo_active := True\<rparr>)
    | None \<Rightarrow> insertLocation (importedLocation tenantId code nam))"

definition mirrorLevel :: "ident \<Rightarrow> ident \<Rightarrow> ident \<Rightarrow> string \<Rightarrow> int \<Rightarrow> (world, unit) op" where
  "mirrorLevel tenantId skuId locationId channelName available =
    bind (gets (findSnapshot (tenantId, skuId, locationId))) (\<lambda>current.
    let delta = available - (case current of Some c \<Rightarrow> bk_onHand (sn_bal c) | None \<Rightarrow> 0) in
    if delta \<noteq> 0
    then bind (adjust tenantId skuId locationId delta (Some (''Shopify import '' @ channelName))) (\<lambda>_. ret ())
    else ret ())"

text \<open>What the loops carry: the default location and the counters of the answer.\<close>

record importTally =
  it_defaultLocationGid :: "string option"
  it_skus :: nat
  it_locationIds :: "ident list"
  it_levels :: nat
  it_skipped :: nat

definition importLevel :: "ident \<Rightarrow> channelRow \<Rightarrow> ident \<Rightarrow> stockLevel \<Rightarrow> importTally \<Rightarrow> (syncState, importTally) op" where
  "importLevel tenantId channel skuId level acc =
    bind (inWorld (upsertLocation tenantId (locationCode (le_locationId level)) (le_locationName level))) (\<lambda>loc.
    andThen (inWorld (mirrorLevel tenantId skuId (lo_id loc) (ch_name channel) (le_available level)))
    (ret (acc\<lparr>it_defaultLocationGid := (if it_defaultLocationGid acc \<in> {None, Some []} then Some (le_locationId level)
                else it_defaultLocationGid acc),
              it_locationIds := List.insert (lo_id loc) (it_locationIds acc),
              it_levels := it_levels acc + 1\<rparr>)))"

fun foldOp :: "('b \<Rightarrow> 'acc \<Rightarrow> ('s, 'acc) op) \<Rightarrow> 'b list \<Rightarrow> 'acc \<Rightarrow> ('s, 'acc) op" where
  "foldOp f [] acc = ret acc"
| "foldOp f (x # xs) acc = bind (f x acc) (foldOp f xs)"

definition importVariant :: "ident \<Rightarrow> channelRow \<Rightarrow> shopifyVariant \<Rightarrow> importTally \<Rightarrow> (syncState, importTally) op" where
  "importVariant tenantId channel v acc =
    (if sv_levels v = [] then ret (acc\<lparr>it_skipped := it_skipped acc + 1\<rparr>)
     else bind (inWorld (upsertSku tenantId (sv_sku v) (variantName v))) (\<lambda>k.
          andThen (upsertMapping (ch_id channel) (sk_id k) (sv_inventoryItemId v) (sv_variantId v))
          (foldOp (importLevel tenantId channel (sk_id k)) (sv_levels v) (acc\<lparr>it_skus := it_skus acc + 1\<rparr>))))"

record importResult =
  ir_skusImported :: nat
  ir_locationsImported :: nat
  ir_inventoryLevelsImported :: nat
  ir_skippedVariants :: nat

definition keepDefaultLocation :: "channelRow \<Rightarrow> string option \<Rightarrow> (syncState, unit) op" where
  "keepDefaultLocation channel gid =
    (case gid of
       None \<Rightarrow> ret ()
     | Some g \<Rightarrow>
         if g = [] \<or> configText (ch_config channel) ''inventoryLocationGid'' = Some g then ret ()
         else bind (updateRow salesChannels salesChannels_update (\<lambda>c. ch_id c = ch_id channel)
                (\<lambda>c. c\<lparr>ch_config := Some ((case ch_config channel of Some cfg \<Rightarrow> cfg | None \<Rightarrow> (\<lambda>_. None))(''inventoryLocationGid'' \<mapsto> JStr g))\<rparr>))
              (\<lambda>_. ret ()))"

text \<open>\<open>n\<close> bounds the pages of the listing; \<open>None\<close> is a listing that has not ended.\<close>

definition importShopify :: "syncEnv \<Rightarrow> nat \<Rightarrow> ident \<Rightarrow> ident \<Rightarrow> (syncState, importResult option) op" where
  "importShopify env n tenantId channelId =
    bind (gets (\<lambda>s. find (\<lambda>c. ch_id c = channelId \<and> ch_tenantId c = tenantId \<and> ch_type c = SHOPIFY \<and> ch_active c)
      (salesChannels s))) (\<lambda>found.
    bind (orThrow found (NotFound ''Active Shopify channel not found'')) (\<lambda>channel.
    bind (credsOf env SHOPIFY_API_VERSION channel) (\<lambda>cr.
    bind (orThrow cr (BadRequest ''Shopify channel is missing OAuth credentials'')) (\<lambda>creds.
    bind (listInventoryVariants n (ev_api env) creds 100) (\<lambda>listing.
    case listing of
      None \<Rightarrow> ret None
    | Some variants \<Rightarrow>
        bind (foldOp (importVariant tenantId channel) variants
          \<lparr>it_defaultLocationGid = configText (ch_config channel) ''inventoryLocationGid'', it_skus = 0, it_locationIds = [],
           it_levels = 0, it_skipped = 0\<rparr>) (\<lambda>acc.
        andThen (keepDefaultLocation channel (it_defaultLocationGid acc))
        (ret (Some \<lparr>ir_skusImported = it_skus acc, ir_locationsImported = length (it_locationIds acc),
          ir_inventoryLevelsImported = it_levels acc, ir_skippedVariants = it_skipped acc\<rparr>))))))))"

section \<open>What the feeds answer\<close>

text \<open>A figure is current when some answer with the totals of the tables shows it.\<close>

definition currentAtp :: "world \<Rightarrow> ident \<Rightarrow> ident \<Rightarrow> int \<Rightarrow> bool" where
  "currentAtp w t skuId a \<longleftrightarrow> (\<exists>v. shows_figures v (stockTotals w (t, skuId, None)) \<and> a = av_availableToPromise v)"

text \<open>Only the cache changes.\<close>

definition onlyCache :: "syncState \<Rightarrow> syncState \<Rightarrow> bool" where
  "onlyCache s s' \<longleftrightarrow> (\<exists>c. s' = s\<lparr>sy_world := (sy_world s)\<lparr>cache := c\<rparr>\<rparr>)"

lemma onlyCache_refl [simp]: "onlyCache s s"
  unfolding onlyCache_def by (rule exI [of _ "cache (sy_world s)"]) simp

lemma onlyCache_trans: "onlyCache s s' \<Longrightarrow> onlyCache s' s'' \<Longrightarrow> onlyCache s s''"
  by (auto simp: onlyCache_def)

lemma onlyCache_sel:
  assumes "onlyCache s s'"
  shows "outbox (sy_world s') = outbox (sy_world s)" "snapshots (sy_world s') = snapshots (sy_world s)"
    "locations (sy_world s') = locations (sy_world s)" "skus (sy_world s') = skus (sy_world s)"
    "clock (sy_world s') = clock (sy_world s)" "salesChannels s' = salesChannels s" "skuMappings s' = skuMappings s"
    "shopifyLog s' = shopifyLog s" "stockTotals (sy_world s') = stockTotals (sy_world s)"
    "snapshotsOk (sy_world s') = snapshotsOk (sy_world s)"
proof -
  obtain c where c: "s' = s\<lparr>sy_world := (sy_world s)\<lparr>cache := c\<rparr>\<rparr>" using assms by (auto simp: onlyCache_def)
  show "stockTotals (sy_world s') = stockTotals (sy_world s)" by (rule stockTotals_cong) (simp_all add: c)
  show "snapshotsOk (sy_world s') = snapshotsOk (sy_world s)" by (simp add: c snapshotsOk_def)
qed (use assms in \<open>auto simp: onlyCache_def\<close>)

lemma wp_atpItem:
  assumes "snapshotsOk (sy_world s)" "cacheCoherent (sy_world s)"
  shows "wp (atpItem env h t rows skuId) (\<lambda>items s'. onlyCache s s' \<and> cacheCoherent (sy_world s') \<and>
    (\<exists>i. items = [i] \<and> ip_skuId i = skuId \<and> currentAtp (sy_world s) t skuId (ip_availableToPromise i))) (\<lambda>_ _. False) s"
  unfolding atpItem_def wp network_def
proof (rule wp_mono [OF networkRead.wp_cached [OF assms, of t skuId h]], goal_cases)
  case (1 v w')
  then have "onlyCache s (s\<lparr>sy_world := w'\<rparr>)" unfolding onlyCache_def by metis
  then show ?case using 1 by (auto simp: currentAtp_def)
qed simp

lemma wp_atpFor:
  assumes "snapshotsOk (sy_world s)" "cacheCoherent (sy_world s)"
  shows "wp (atpFor env h t skuIds) (\<lambda>items s'. onlyCache s s' \<and> cacheCoherent (sy_world s') \<and> map ip_skuId items = skuIds \<and>
    (\<forall>i \<in> set items. currentAtp (sy_world s) t (ip_skuId i) (ip_availableToPromise i))) (\<lambda>_ _. False) s"
proof -
  let ?I = "\<lambda>rest (items :: inventoryPush list) s'. onlyCache s s' \<and> cacheCoherent (sy_world s') \<and> map ip_skuId items @ rest = skuIds \<and>
    (\<forall>i \<in> set items. currentAtp (sy_world s) t (ip_skuId i) (ip_availableToPromise i))"
  have "wp (collect skuIds (atpItem env h t rows)) (?I []) (\<lambda>_ _. False) s" for rows
  proof (rule wp_collect_rest)
    fix x xs acc s'
    assume I: "?I (x # xs) acc s'"
    have ok: "snapshotsOk (sy_world s')" "cacheCoherent (sy_world s')" using I assms(1) onlyCache_sel(10) [of s s'] by auto
    show "wp (atpItem env h t rows x) (\<lambda>ys. ?I xs (acc @ ys)) (\<lambda>_ _. False) s'"
    proof (rule wp_mono [OF wp_atpItem [OF ok]], goal_cases)
      case (1 items s'')
      then show ?case
        using I onlyCache_trans [of s s' s''] onlyCache_sel(9) [of s s'] by (auto simp: currentAtp_def)
    qed simp
  qed (use assms in simp)
  then show ?thesis using assms by (simp add: atpFor_def wp)
qed

interpretation seqOrder: js_comparator "\<lambda>a b :: outboxEvent. ob_seq a - ob_seq b"
  by (rule js_comparator_diff)

text \<open>A prefix of the sorted events is what lies up to its last sequence number.\<close>

lemma take_by_seq:
  fixes es :: "outboxEvent list"
  assumes "distinct (map ob_seq es)" "ys = take n (jsSort (\<lambda>a b. ob_seq a - ob_seq b) es)" "ys \<noteq> []"
  shows "set ys = {e \<in> set es. ob_seq e \<le> ob_seq (last ys)}"
proof -
  let ?L = "jsSort (\<lambda>a b. ob_seq a - ob_seq b) es"
  have srt: "sorted_wrt (\<lambda>a b. ob_seq a < ob_seq b) ?L"
  proof -
    have "sorted_wrt (\<lambda>a b. ob_seq a \<le> ob_seq b) ?L" using seqOrder.sorted_jsSort [of es] by simp
    then have "sorted (map ob_seq ?L)" by (simp add: sorted_map)
    moreover have "distinct (map ob_seq ?L)" using assms(1) by simp
    ultimately have "sorted_wrt (<) (map ob_seq ?L)" by (simp add: strict_sorted_iff)
    then show ?thesis by (simp add: sorted_wrt_map)
  qed
  have split: "?L = butlast ys @ last ys # drop n ?L"
    using assms(2,3) append_take_drop_id [of n ?L] append_butlast_last_id [of ys]
    by (metis append.assoc append_Cons append_Nil)
  have below: "ob_seq e < ob_seq (last ys)" if "e \<in> set (butlast ys)" for e
    using srt that by (subst (asm) split) (simp add: sorted_wrt_append)
  have above: "ob_seq (last ys) < ob_seq e" if "e \<in> set (drop n ?L)" for e
    using srt that by (subst (asm) split) (simp add: sorted_wrt_append)
  have "set es = set ?L" by simp
  also have "\<dots> = set (butlast ys) \<union> {last ys} \<union> set (drop n ?L)" by (subst split) auto
  finally have all: "set es = set (butlast ys) \<union> {last ys} \<union> set (drop n ?L)" .
  have ys: "set ys = set (butlast ys) \<union> {last ys}"
    using append_butlast_last_id [OF assms(3)] by (metis Un_insert_right list.simps(15) set_append sup_bot.right_neutral list.set(1))
  show ?thesis unfolding all ys using below above by fastforce
qed

definition subjectsBetween :: "ident \<Rightarrow> int \<Rightarrow> int \<Rightarrow> world \<Rightarrow> ident set" where
  "subjectsBetween t since upTo w = ob_subjectId ` {e \<in> set (outbox w). ob_tenantId e = t \<and>
     ob_type e = INVENTORY_ATP_CHANGED \<and> since < ob_seq e \<and> ob_seq e \<le> upTo}"


text \<open>
  The cursor is a sequence number drawn when a row is inserted, before its transaction commits.  A row that
  becomes visible with a number at or below a cursor already handed out is in no later answer.
\<close>

lemma late_commit_missed: "ob_seq e \<le> since \<Longrightarrow> e \<notin> set (eventsAfter t since w)"
  by (simp add: eventsAfter_def)

section \<open>Mirroring a level\<close>

definition withOnHand :: "int \<Rightarrow> buckets \<Rightarrow> buckets" where
  "withOnHand n b = Buckets n (bk_reserved b) (bk_allocated b) (bk_inTransit b) (bk_damaged b)"

lemma current_onHand:
  "(case findSnapshot k w of Some c \<Rightarrow> bk_onHand (sn_bal c) | None \<Rightarrow> 0) = bk_onHand (balance w k)"
  by (simp add: balance_def split: option.split)

lemma mirrorLevel_spec:
  assumes "snapshotsOk w" "mirrorLevel t sk l nam available w = (Inr (), w')"
  shows "balance w' = (balance w)((t, sk, l) := withOnHand available (balance w (t, sk, l)))" "safetyOf w' = safetyOf w"
proof -
  let ?k = "(t, sk, l)"
  let ?d = "available - bk_onHand (balance w ?k)"
  have "balance w' = (balance w)(?k := withOnHand available (balance w ?k)) \<and> safetyOf w' = safetyOf w"
  proof (cases "?d = 0")
    case True
    then have "w' = w" using assms(2) by (simp add: mirrorLevel_def op_defs current_onHand)
    moreover have "withOnHand available (balance w ?k) = balance w ?k" using True by (simp add: withOnHand_def)
    ultimately show ?thesis by simp
  next
    case False
    then obtain r where "adjust t sk l ?d (Some (''Shopify import '' @ nam)) w = (Inr r, w')"
      using assms(2) by (auto simp: mirrorLevel_def op_defs current_onHand split: prod.splits sum.splits)
    then obtain w1 where m: "moved ((baseMovement t sk l ADJUSTMENT (noDeltas\<lparr>bd_onHand := Some ?d\<rparr>))\<lparr>mv_reason := Some (''Shopify import '' @ nam)\<rparr>) w w1"
        "w' = invalidated t sk w1"
      unfolding adjust_def by (rule applyMovement_ok [OF assms(1)]) simp
    have "deltaOf (noDeltas\<lparr>bd_onHand := Some ?d\<rparr>) = Buckets ?d 0 0 0 0" by (simp add: deltaOf_simps)
    then have "balance w ?k + deltaOf (noDeltas\<lparr>bd_onHand := Some ?d\<rparr>) = withOnHand available (balance w ?k)"
      by (intro buckets_eqI) (simp_all add: withOnHand_def)
    then show ?thesis using m by (simp add: moved_def invalidated_view)
  qed
  then show "balance w' = (balance w)(?k := withOnHand available (balance w ?k))" "safetyOf w' = safetyOf w" by simp_all
qed

text \<open>
  The import writes what the shop calls available into the on-hand balance, but what the drain sends the shop is
  already net of holds, allocations and the safety stock: importing back what was pushed takes these off
  a second time.
\<close>

lemma import_feeds_back:
  assumes "snapshotsOk w" "a = availableOf (balance w (t, sk, l)) (safetyOf w (t, sk, l))"
    and "mirrorLevel t sk l nam a w = (Inr (), w')"
  shows "availableOf (balance w' (t, sk, l)) (safetyOf w' (t, sk, l)) =
    a - bk_reserved (balance w (t, sk, l)) - bk_allocated (balance w (t, sk, l)) - safetyOf w (t, sk, l)"
  using mirrorLevel_spec [OF assms(1,3)] by (simp add: availableOf_def withOnHand_def)

text \<open>The world of the witnesses: two changes of one SKU wait in the outbox.\<close>

definition changeRow :: "ident \<Rightarrow> int \<Rightarrow> outboxEvent" where
  "changeRow i n = \<lparr>ob_id = i, ob_seq = n, ob_tenantId = 7, ob_type = INVENTORY_ATP_CHANGED, ob_subjectId = 2,
     ob_status = OutboxStatus.PENDING, ob_publishedAt = None, ob_attempts = 0\<rparr>"

lemma changeRow_simps [simp]:
  "ob_seq (changeRow i n) = n" "ob_tenantId (changeRow i n) = 7" "ob_type (changeRow i n) = INVENTORY_ATP_CHANGED"
  "ob_subjectId (changeRow i n) = 2" "ob_status (changeRow i n) = OutboxStatus.PENDING" "ob_id (changeRow i n) = i"
  by (simp_all add: changeRow_def)

definition demoSync :: syncState where
  "demoSync = \<lparr>sy_world = demoWorld\<lparr>outbox := [changeRow 20 3, changeRow 21 4]\<rparr>, salesChannels = [], skuMappings = [],
     shopifyLog = [], oauthNonces = [], randomBytesOf = (\<lambda>_. ''r'')\<rparr>"

lemma demoSync_ok: "snapshotsOk (sy_world demoSync)" "cacheCoherent (sy_world demoSync)"
  "distinct (map ob_seq (outbox (sy_world demoSync)))"
proof -
  have w: "snapshots (sy_world demoSync) = snapshots demoWorld" "cache (sy_world demoSync) = (\<lambda>_. None)" "nextId (sy_world demoSync) = nextId demoWorld"
    by (simp_all add: demoSync_def demoWorld_def)
  show "snapshotsOk (sy_world demoSync)" using demoWorld_cache(1) w(1,3) by (simp add: snapshotsOk_def)
  show "cacheCoherent (sy_world demoSync)" by (simp add: cacheCoherent_def w(2))
qed (simp add: demoSync_def)


end
