(* ===== verification/Drain.thy ===== *)
theory Drain
  imports Sync
begin

text \<open>
  The drain of the outbox (\<open>drainOutbox\<close> of backend/src/sync/sync.service.ts) against the
  connectors of the channels: what has been pushed to the shops when an event is marked published, and
  what one failing shop holds up.
\<close>

section \<open>Pushing to the shops\<close>

text \<open>
  What a push does to the state: it sends requests, may learn inventory items of SKUs it had none for, and
  leaves the rest alone.
\<close>

definition pushedOn :: "syncState \<Rightarrow> syncState \<Rightarrow> bool" where
  "pushedOn s s' \<longleftrightarrow> (\<exists>n ms calls. nextId (sy_world s) \<le> n \<and> s' = s\<lparr>sy_world := (sy_world s)\<lparr>nextId := n\<rparr>,
     skuMappings := skuMappings s @ ms, shopifyLog := shopifyLog s @ calls\<rparr>)"

lemma pushedOnI:
  "nextId (sy_world s) \<le> n \<Longrightarrow> pushedOn s (s\<lparr>sy_world := (sy_world s)\<lparr>nextId := n\<rparr>,
     skuMappings := skuMappings s @ ms, shopifyLog := shopifyLog s @ calls\<rparr>)"
  unfolding pushedOn_def by blast

lemma pushedOn_refl [simp]: "pushedOn s s"
  using pushedOnI [where s = s and n = "nextId (sy_world s)" and ms = "[]" and calls = "[]"] by simp

text \<open>The drain as a whole also writes the cache and the outbox.\<close>

definition workedOn :: "syncState \<Rightarrow> syncState \<Rightarrow> bool" where
  "workedOn s s' \<longleftrightarrow> (\<exists>n ch ob ms calls. nextId (sy_world s) \<le> n \<and> s' = s\<lparr>sy_world := (sy_world s)\<lparr>nextId := n, cache := ch, outbox := ob\<rparr>,
     skuMappings := skuMappings s @ ms, shopifyLog := shopifyLog s @ calls\<rparr>)"

lemma workedOnI:
  "nextId (sy_world s) \<le> n \<Longrightarrow> workedOn s (s\<lparr>sy_world := (sy_world s)\<lparr>nextId := n, cache := ch, outbox := ob\<rparr>,
     skuMappings := skuMappings s @ ms, shopifyLog := shopifyLog s @ calls\<rparr>)"
  unfolding workedOn_def by blast

lemma workedOn_trans:
  assumes "workedOn s s'" "workedOn s' s''"
  shows "workedOn s s''"
proof -
  obtain n ch ob ms calls where a: "nextId (sy_world s) \<le> n" "s' = s\<lparr>sy_world := (sy_world s)\<lparr>nextId := n, cache := ch, outbox := ob\<rparr>,
     skuMappings := skuMappings s @ ms, shopifyLog := shopifyLog s @ calls\<rparr>" using assms(1) unfolding workedOn_def by blast
  obtain n' ch' ob' ms' calls' where b: "nextId (sy_world s') \<le> n'" "s'' = s'\<lparr>sy_world := (sy_world s')\<lparr>nextId := n', cache := ch', outbox := ob'\<rparr>,
     skuMappings := skuMappings s' @ ms', shopifyLog := shopifyLog s' @ calls'\<rparr>" using assms(2) unfolding workedOn_def by blast
  have le: "nextId (sy_world s) \<le> n'" using a(1) b(1) by (simp add: a(2))
  show ?thesis using workedOnI [where s = s and n = n' and ch = ch' and ob = ob' and ms = "ms @ ms'" and calls = "calls @ calls'"] le by (simp add: a(2) b(2))
qed

lemma pushedOn_workedOn: "pushedOn s s' \<Longrightarrow> workedOn s s'"
proof -
  assume "pushedOn s s'"
  then obtain n ms calls where a: "nextId (sy_world s) \<le> n" "s' = s\<lparr>sy_world := (sy_world s)\<lparr>nextId := n\<rparr>, skuMappings := skuMappings s @ ms,
     shopifyLog := shopifyLog s @ calls\<rparr>" unfolding pushedOn_def by blast
  show ?thesis using workedOnI [where s = s and n = n and ch = "cache (sy_world s)" and ob = "outbox (sy_world s)" and ms = ms and calls = calls] a(1) by (simp add: a(2))
qed

lemma onlyCache_workedOn: "onlyCache s s' \<Longrightarrow> workedOn s s'"
proof -
  assume "onlyCache s s'"
  then obtain c where a: "s' = s\<lparr>sy_world := (sy_world s)\<lparr>cache := c\<rparr>\<rparr>" unfolding onlyCache_def by blast
  show ?thesis using workedOnI [where s = s and n = "nextId (sy_world s)" and ch = c and ob = "outbox (sy_world s)" and ms = "[]" and calls = "[]"] by (simp add: a)
qed

lemma workedOn_sel:
  assumes "workedOn s s'"
  shows "salesChannels s' = salesChannels s" "set (shopifyLog s) \<subseteq> set (shopifyLog s')"
    "findMapping c k s = Some m \<Longrightarrow> findMapping c k s' = Some m" "clock (sy_world s') = clock (sy_world s)"
    "stockTotals (sy_world s') = stockTotals (sy_world s)" "snapshotsOk (sy_world s) \<Longrightarrow> snapshotsOk (sy_world s')"
proof -
  obtain n ch ob ms calls where a: "nextId (sy_world s) \<le> n" "s' = s\<lparr>sy_world := (sy_world s)\<lparr>nextId := n, cache := ch, outbox := ob\<rparr>,
     skuMappings := skuMappings s @ ms, shopifyLog := shopifyLog s @ calls\<rparr>" using assms unfolding workedOn_def by blast
  show "salesChannels s' = salesChannels s" "set (shopifyLog s) \<subseteq> set (shopifyLog s')" "clock (sy_world s') = clock (sy_world s)"
    by (simp_all add: a(2))
  show "findMapping c k s = Some m \<Longrightarrow> findMapping c k s' = Some m"
    by (simp add: a(2) findMapping_def find_append)
  show "stockTotals (sy_world s') = stockTotals (sy_world s)" by (rule stockTotals_cong) (simp_all add: a(2))
  show "snapshotsOk (sy_world s) \<Longrightarrow> snapshotsOk (sy_world s')"
    using a(1) by (fastforce simp: a(2) snapshotsOk_def)
qed

lemma pushedOn_trans:
  assumes "pushedOn s s'" "pushedOn s' s''"
  shows "pushedOn s s''"
proof -
  obtain n ms calls where a: "nextId (sy_world s) \<le> n" "s' = s\<lparr>sy_world := (sy_world s)\<lparr>nextId := n\<rparr>, skuMappings := skuMappings s @ ms,
     shopifyLog := shopifyLog s @ calls\<rparr>" using assms(1) unfolding pushedOn_def by blast
  obtain n' ms' calls' where b: "nextId (sy_world s') \<le> n'" "s'' = s'\<lparr>sy_world := (sy_world s')\<lparr>nextId := n'\<rparr>, skuMappings := skuMappings s' @ ms',
     shopifyLog := shopifyLog s' @ calls'\<rparr>" using assms(2) unfolding pushedOn_def by blast
  have le: "nextId (sy_world s) \<le> n'" using a(1) b(1) by (simp add: a(2))
  show ?thesis using pushedOnI [where s = s and n = n' and ms = "ms @ ms'" and calls = "calls @ calls'"] le by (simp add: a(2) b(2))
qed

lemma pushedOn_sel:
  assumes "pushedOn s s'"
  shows "set (shopifyLog s) \<subseteq> set (shopifyLog s')" "findMapping c k s = Some m \<Longrightarrow> findMapping c k s' = Some m"
    "outbox (sy_world s') = outbox (sy_world s)" "cache (sy_world s') = cache (sy_world s)"
  using workedOn_sel(2,3) [OF pushedOn_workedOn [OF assms]] assms by (auto simp: pushedOn_def)

lemma pushedOn_call: "pushedOn s (s\<lparr>shopifyLog := shopifyLog s @ [c]\<rparr>)"
  using pushedOnI [where s = s and n = "nextId (sy_world s)" and ms = "[]" and calls = "[c]"] by simp

lemma wp_graphql:
  "wp (graphql api c) (\<lambda>_ s'. s' = s\<lparr>shopifyLog := shopifyLog s @ [c]\<rparr>) (\<lambda>_ s'. s' = s\<lparr>shopifyLog := shopifyLog s @ [c]\<rparr>) s"
  by (simp add: graphql_def sendCall_def wp split: shopifyAnswer.split option.split)

lemma wp_setAvailable:
  "wp (setAvailable api cr i g q) (\<lambda>_ s'. pushedOn s s' \<and> SetAvailable cr i g q \<in> set (shopifyLog s')) (\<lambda>_. pushedOn s) s"
  unfolding setAvailable_def wp_bind
  by (rule wp_mono [OF wp_graphql]) (auto simp: wp pushedOn_call split: shopifyData.split)

lemma wp_findInventoryItem:
  "wp (findInventoryItemBySku api cr code) (\<lambda>_ s'. pushedOn s s' \<and> skuMappings s' = skuMappings s) (\<lambda>_. pushedOn s) s"
  unfolding findInventoryItemBySku_def wp_bind
  by (rule wp_mono [OF wp_graphql]) (auto simp: wp pushedOn_call split: shopifyData.split list.split option.split)

lemma wp_learnMapping:
  assumes "findMapping ch k s = None"
  shows "wp (upsertMapping ch k i v) (\<lambda>_. pushedOn s) (\<lambda>_. pushedOn s) s"
proof -
  have "pushedOn s (s\<lparr>sy_world := (sy_world s)\<lparr>nextId := Suc (nextId (sy_world s))\<rparr>, skuMappings := skuMappings s @ [m]\<rparr>)" for m
    using pushedOnI [where s = s and n = "Suc (nextId (sy_world s))" and ms = "[m]" and calls = "[]"] by simp
  then show ?thesis using assms by (simp add: upsertMapping_def wp)
qed

lemma wp_resolve:
  "wp (resolveInventoryItem env ch cr item) (\<lambda>r s'. pushedOn s s' \<and>
     (\<forall>m. findMapping (ch_id ch) (ip_skuId item) s = Some m \<longrightarrow> r = Some (sm_inventoryItemId m))) (\<lambda>_. pushedOn s) s"
proof (cases "findMapping (ch_id ch) (ip_skuId item) s")
  case None
  show ?thesis
    unfolding resolveInventoryItem_def wp None option.case
  proof (rule wp_mono [OF wp_findInventoryItem], goal_cases)
    case (1 found s1)
    then have n: "findMapping (ch_id ch) (ip_skuId item) s1 = None" using None by (simp add: findMapping_def)
    have "wp (upsertMapping (ch_id ch) (ip_skuId item) i v) (\<lambda>_. pushedOn s) (\<lambda>_. pushedOn s) s1" for i v
      by (rule wp_mono [OF wp_learnMapping [OF n]]) (use 1 pushedOn_trans in blast)+
    then show ?case using 1 by (cases found) (auto simp: wp)
  qed simp
qed (simp add: resolveInventoryItem_def wp)

lemma wp_pushItem:
  "wp (pushItem env ch cr gid item) (\<lambda>_ s'. pushedOn s s' \<and>
     (\<forall>m. findMapping (ch_id ch) (ip_skuId item) s = Some m \<longrightarrow> sm_inventoryItemId m \<noteq> [] \<longrightarrow>
       SetAvailable cr (sm_inventoryItemId m) gid (ip_availableToPromise item) \<in> set (shopifyLog s'))) (\<lambda>_. pushedOn s) s"
  unfolding pushItem_def wp_bind
proof (rule wp_mono [OF wp_resolve], goal_cases)
  case (1 r s1)
  then show ?case
    by (cases r) (auto simp: wp intro!: wp_mono [OF wp_setAvailable] intro: pushedOn_trans)
qed

text \<open>Where a Shopify channel that is connected pushes to.\<close>

definition shopifyTarget :: "syncEnv \<Rightarrow> channelRow \<Rightarrow> (shopifyCreds \<times> string) option" where
  "shopifyTarget env c =
    (case (configText (ch_config c) ''shopDomain'', configText (ch_config c) ''accessToken'', configText (ch_config c) ''inventoryLocationGid'') of
       (Some shop, Some tok, Some gid) \<Rightarrow>
         (case decrypt (ev_crypto env) (ev_key env) tok of
            Inr t \<Rightarrow> Some (\<lparr>sp_shopDomain = shop, sp_accessToken = t,
              sp_apiVersion = configVersion (ch_config c) (case ev_apiVersion env of Some v \<Rightarrow> v | None \<Rightarrow> SHOPIFY_API_VERSION)\<rparr>, gid)
          | Inl _ \<Rightarrow> None)
     | _ \<Rightarrow> None)"

lemma pushShopify_target:
  "shopifyTarget env c = Some (cr, gid) \<Longrightarrow> pushShopify env c items = forEach items (pushItem env c cr gid)"
  by (auto simp: shopifyTarget_def pushShopify_def credsOf_def decryptOp_def op_defs fun_eq_iff
      split: option.splits sum.splits)

definition sentFor :: "syncState \<Rightarrow> shopifyCreds \<Rightarrow> string \<Rightarrow> ident \<Rightarrow> inventoryPush \<Rightarrow> syncState \<Rightarrow> bool" where
  "sentFor s cr gid chId item s' \<longleftrightarrow> (\<forall>m. findMapping chId (ip_skuId item) s = Some m \<longrightarrow> sm_inventoryItemId m \<noteq> [] \<longrightarrow>
     SetAvailable cr (sm_inventoryItemId m) gid (ip_availableToPromise item) \<in> set (shopifyLog s'))"

lemma sentFor_mono: "pushedOn s1 s2 \<Longrightarrow> sentFor s cr gid c item s1 \<Longrightarrow> sentFor s cr gid c item s2"
  using pushedOn_sel(1) by (fastforce simp: sentFor_def)

lemma sentFor_later: "pushedOn s s1 \<Longrightarrow> sentFor s1 cr gid c item s2 \<Longrightarrow> sentFor s cr gid c item s2"
  using pushedOn_sel(2) by (fastforce simp: sentFor_def)

lemma wp_pushItems:
  "wp (forEach items (pushItem env ch cr gid)) (\<lambda>_ s'. pushedOn s s' \<and> (\<forall>i \<in> set items. sentFor s cr gid (ch_id ch) i s')) (\<lambda>_. pushedOn s) s"
proof (induction items arbitrary: s)
  case (Cons i items)
  have first: "wp (pushItem env ch cr gid i) (\<lambda>_ s'. pushedOn s s' \<and> sentFor s cr gid (ch_id ch) i s') (\<lambda>_. pushedOn s) s"
    unfolding sentFor_def by (rule wp_pushItem)
  show ?case
    unfolding forEach.simps wp_andThen
  proof (rule wp_mono [OF first], goal_cases)
    case (1 u s1)
    show ?case
    proof (rule wp_mono [OF Cons.IH [of s1]], goal_cases)
      case (1 v s2)
      then show ?case
        using \<open>pushedOn s s1 \<and> _\<close> pushedOn_trans [of s s1 s2] sentFor_mono [of s1 s2] sentFor_later [of s s1] by auto
    qed (use 1 pushedOn_trans in blast)
  qed
qed (simp add: wp)

lemma wp_pushShopify:
  "wp (pushShopify env ch items) (\<lambda>_ s'. pushedOn s s' \<and>
     (\<forall>cr gid. shopifyTarget env ch = Some (cr, gid) \<longrightarrow> (\<forall>i \<in> set items. sentFor s cr gid (ch_id ch) i s'))) (\<lambda>_. pushedOn s) s"
proof (cases "shopifyTarget env ch")
  case None
  then show ?thesis
    by (auto simp: pushShopify_def credsOf_def decryptOp_def wp shopifyTarget_def split: option.splits sum.splits
        intro!: wp_mono [OF wp_pushItems])
next
  case (Some t)
  obtain cr gid where t: "t = (cr, gid)" by fastforce
  show ?thesis unfolding pushShopify_target [OF Some [unfolded t]] using Some t
    by (auto intro!: wp_mono [OF wp_pushItems])
qed

lemma wp_publishToChannel:
  "wp (publishToChannel env ch items) (\<lambda>_ s'. pushedOn s s' \<and>
     (\<forall>cr gid. ch_type ch = SHOPIFY \<longrightarrow> shopifyTarget env ch = Some (cr, gid) \<longrightarrow> (\<forall>i \<in> set items. sentFor s cr gid (ch_id ch) i s')))
   (\<lambda>_. pushedOn s) s"
  by (cases "ch_type ch")
    (auto simp: publishToChannel_def getConnector_def connectorMap_def pushInventory_def wp intro!: wp_mono [OF wp_pushShopify])

section \<open>Draining\<close>

text \<open>What a SKU's push to the connected shops of a tenant amounts to.\<close>

definition offered :: "syncEnv \<Rightarrow> syncState \<Rightarrow> syncState \<Rightarrow> ident \<Rightarrow> ident \<Rightarrow> bool" where
  "offered env s s' t skuId \<longleftrightarrow> (\<forall>ch cr gid m. ch \<in> set (activeChannels t s) \<longrightarrow> ch_type ch = SHOPIFY \<longrightarrow>
     shopifyTarget env ch = Some (cr, gid) \<longrightarrow> findMapping (ch_id ch) skuId s = Some m \<longrightarrow> sm_inventoryItemId m \<noteq> [] \<longrightarrow>
     (\<exists>a. SetAvailable cr (sm_inventoryItemId m) gid a \<in> set (shopifyLog s') \<and> currentAtp (sy_world s) t skuId a))"

lemma wp_publishAll:
  "wp (forEach chs (\<lambda>ch. publishToChannel env ch items)) (\<lambda>_ s'. pushedOn s s' \<and>
     (\<forall>ch \<in> set chs. \<forall>cr gid. ch_type ch = SHOPIFY \<longrightarrow> shopifyTarget env ch = Some (cr, gid) \<longrightarrow>
       (\<forall>i \<in> set items. sentFor s cr gid (ch_id ch) i s'))) (\<lambda>_. pushedOn s) s"
proof (induction chs arbitrary: s)
  case (Cons c chs)
  show ?case
    unfolding forEach.simps wp_andThen
  proof (rule wp_mono [OF wp_publishToChannel], goal_cases)
    case (1 u s1)
    show ?case
    proof (rule wp_mono [OF Cons.IH [of s1]], goal_cases)
      case (1 v s2)
      then show ?case
        using \<open>pushedOn s s1 \<and> _\<close> pushedOn_trans [of s s1 s2] sentFor_mono [of s1 s2] sentFor_later [of s s1] by auto
    qed (use 1 pushedOn_trans in blast)
  qed
qed (simp add: wp)

definition markOf :: "int \<Rightarrow> outboxEvent \<Rightarrow> outboxEvent" where
  "markOf ts e = e\<lparr>ob_status := OutboxStatus.PUBLISHED, ob_publishedAt := Some ts, ob_attempts := ob_attempts e + 1\<rparr>"

definition marked :: "ident set \<Rightarrow> world \<Rightarrow> outboxEvent list" where
  "marked ids w = mapWhere (\<lambda>e. ob_id e \<in> ids) (markOf (clock w)) (outbox w)"

lemma marked_none: "marked {} w = outbox w"
  by (simp add: marked_def mapWhere_def)

lemma marked_again:
  assumes "A \<inter> B = {}" "outbox w' = marked A w" "clock w' = clock w"
  shows "marked B w' = marked (A \<union> B) w"
proof -
  have "ob_id (markOf ts e) = ob_id e" for ts e by (simp add: markOf_def)
  then show ?thesis using assms by (auto simp: marked_def mapWhere_def)
qed

lemma wp_markPublished:
  "wp (markPublished es) (\<lambda>_ s'. workedOn s s' \<and> outbox (sy_world s') = marked (ob_id ` set es) (sy_world s) \<and>
     cache (sy_world s') = cache (sy_world s) \<and> shopifyLog s' = shopifyLog s) (\<lambda>_ _. False) s"
proof -
  have "workedOn s (s\<lparr>sy_world := (sy_world s)\<lparr>outbox := ob\<rparr>\<rparr>)" for ob
    using workedOnI [where s = s and n = "nextId (sy_world s)" and ch = "cache (sy_world s)" and ob = ob and ms = "[]" and calls = "[]"] by simp
  then show ?thesis by (simp add: markPublished_def wp marked_def markOf_def [abs_def])
qed

lemma cacheCoherent_worked:
  "workedOn s s' \<Longrightarrow> cache (sy_world s') = cache (sy_world s) \<Longrightarrow> cacheCoherent (sy_world s) \<Longrightarrow> cacheCoherent (sy_world s')"
  using workedOn_sel(5) [of s s'] by (simp add: cacheCoherent_def)

lemma currentAtp_worked: "workedOn s s' \<Longrightarrow> currentAtp (sy_world s') = currentAtp (sy_world s)"
  using workedOn_sel(5) [of s s'] by (simp add: currentAtp_def fun_eq_iff)

lemma activeChannels_worked: "workedOn s s' \<Longrightarrow> activeChannels t s' = activeChannels t s"
  using workedOn_sel(1) [of s s'] by (simp add: activeChannels_def)

lemma offered_mono: "workedOn s1 s2 \<Longrightarrow> offered env s s1 t k \<Longrightarrow> offered env s s2 t k"
  using workedOn_sel(2) [of s1 s2] unfolding offered_def by blast

lemma offered_later: "workedOn s s1 \<Longrightarrow> offered env s1 s2 t k \<Longrightarrow> offered env s s2 t k"
  using workedOn_sel(3) [of s s1] activeChannels_worked [of s s1] currentAtp_worked [of s s1]
  unfolding offered_def by metis

lemma workedOn_refl [simp]: "workedOn s s"
  by (rule pushedOn_workedOn) simp

lemma wp_drainTenant:
  assumes "snapshotsOk (sy_world s)" "cacheCoherent (sy_world s)"
  shows "wp (drainTenant env h pending t) (\<lambda>_ s'. workedOn s s' \<and> cacheCoherent (sy_world s') \<and>
      outbox (sy_world s') = marked {ob_id e |e. e \<in> set pending \<and> ob_tenantId e = t} (sy_world s) \<and>
      (\<forall>e \<in> set pending. ob_tenantId e = t \<longrightarrow> ob_type e = INVENTORY_ATP_CHANGED \<longrightarrow> offered env s s' t (ob_subjectId e)))
    (\<lambda>_ _. True) s"
proof -
  let ?events = "filter (\<lambda>e. ob_tenantId e = t) pending"
  let ?skus = "changedSkus ?events"
  let ?chs = "activeChannels t s"
  let ?sent = "\<lambda>s1. workedOn s s1 \<and> cacheCoherent (sy_world s1) \<and> outbox (sy_world s1) = outbox (sy_world s) \<and>
    (\<forall>k \<in> set ?skus. offered env s s1 t k)"
  have push: "wp (if ?chs \<noteq> [] \<and> ?skus \<noteq> [] then bind (atpFor env h t ?skus) (\<lambda>items.
      forEach ?chs (\<lambda>channel. publishToChannel env channel items)) else ret ()) (\<lambda>_. ?sent) (\<lambda>_ _. True) s"
  proof (cases "?chs \<noteq> [] \<and> ?skus \<noteq> []")
    case True
    show ?thesis
      unfolding if_P [OF True] wp_bind
    proof (rule wp_mono [OF wp_atpFor [OF assms]], goal_cases)
      case (1 items s1)
      then have oc: "onlyCache s s1" "cacheCoherent (sy_world s1)" "map ip_skuId items = ?skus"
        "\<forall>i \<in> set items. currentAtp (sy_world s) t (ip_skuId i) (ip_availableToPromise i)" by auto
      have w1: "workedOn s s1" and ob1: "outbox (sy_world s1) = outbox (sy_world s)"
        using onlyCache_workedOn [OF oc(1)] onlyCache_sel(1) [OF oc(1)] by blast+
      show ?case
      proof (rule wp_mono [OF wp_publishAll], goal_cases)
        case (1 u s2)
        have w2: "workedOn s s2" using 1 w1 pushedOn_workedOn workedOn_trans by blast
        have off: "offered env s1 s2 t k" if "k \<in> set ?skus" for k
        proof -
          have "k \<in> set (map ip_skuId items)" unfolding oc(3) by (rule that)
          then obtain i where i: "i \<in> set items" "ip_skuId i = k" by (auto simp: image_iff)
          have cur: "currentAtp (sy_world s1) t k (ip_availableToPromise i)"
            using oc(4) i unfolding currentAtp_worked [OF w1] by blast
          have act: "activeChannels t s1 = ?chs" by (rule activeChannels_worked [OF w1])
          show ?thesis
            unfolding offered_def act
          proof (intro allI impI)
            fix ch cr gid m
            assume ch: "ch \<in> set ?chs" "ch_type ch = SHOPIFY" "shopifyTarget env ch = Some (cr, gid)"
              "findMapping (ch_id ch) k s1 = Some m" "sm_inventoryItemId m \<noteq> []"
            have "sentFor s1 cr gid (ch_id ch) i s2" using 1 ch(1-3) i(1) by blast
            then have "SetAvailable cr (sm_inventoryItemId m) gid (ip_availableToPromise i) \<in> set (shopifyLog s2)"
              using ch(4,5) i(2) by (simp add: sentFor_def)
            then show "\<exists>a. SetAvailable cr (sm_inventoryItemId m) gid a \<in> set (shopifyLog s2) \<and> currentAtp (sy_world s1) t k a"
              using cur by blast
          qed
        qed
        have "cacheCoherent (sy_world s2)"
          by (rule cacheCoherent_worked [OF pushedOn_workedOn pushedOn_sel(4) oc(2)]) (use 1 in blast)+
        moreover have "outbox (sy_world s2) = outbox (sy_world s)" using 1 pushedOn_sel(3) [of s1 s2] ob1 by simp
        ultimately show ?case using w2 off offered_later [OF w1] by blast
      qed simp
    qed simp
  next
    case False
    then have "offered env s s t k" if "k \<in> set ?skus" for k
      using that by (auto simp: offered_def)
    then show ?thesis using False assms(2) by (auto simp: wp)
  qed
  have ids: "ob_id ` set ?events = {ob_id e |e. e \<in> set pending \<and> ob_tenantId e = t}" by auto
  have ks: "ob_subjectId e \<in> set ?skus" if "e \<in> set pending" "ob_tenantId e = t" "ob_type e = INVENTORY_ATP_CHANGED" for e
    using that by (auto simp: changedSkus_def)
  show ?thesis
    unfolding drainTenant_def Let_def wp_bind wp_gets wp_andThen
  proof (rule wp_mono [OF push], goal_cases)
    case (1 u s1)
    show ?case
    proof (rule wp_mono [OF wp_markPublished], goal_cases)
      case (1 v s2)
      have cl: "clock (sy_world s1) = clock (sy_world s)" using \<open>?sent s1\<close> workedOn_sel(4) by blast
      have "outbox (sy_world s2) = marked {ob_id e |e. e \<in> set pending \<and> ob_tenantId e = t} (sy_world s)"
        using 1 \<open>?sent s1\<close> cl unfolding ids by (simp add: marked_def)
      moreover have "workedOn s s2" using 1 \<open>?sent s1\<close> workedOn_trans by blast
      moreover have "cacheCoherent (sy_world s2)" using 1 \<open>?sent s1\<close> cacheCoherent_worked by blast
      moreover have "offered env s s2 t k" if "k \<in> set ?skus" for k
        using that 1 \<open>?sent s1\<close> offered_mono by blast
      ultimately show ?case using ks by blast
    qed simp
  qed simp
qed

text \<open>Rows of different tenants are different rows.\<close>

lemma ids_apart:
  assumes "distinct (map ob_id (outbox w))" "set pending \<subseteq> set (outbox w)" "t \<notin> T"
  shows "{ob_id e |e. e \<in> set pending \<and> ob_tenantId e \<in> T} \<inter> {ob_id e |e. e \<in> set pending \<and> ob_tenantId e = t} = {}"
proof -
  have "e = e'" if "e \<in> set pending" "e' \<in> set pending" "ob_id e = ob_id e'" for e e'
    using assms(1,2) that by (meson distinct_map inj_onD subsetD)
  then show ?thesis using assms(3) by blast
qed

lemma wp_drainOutbox:
  fixes s :: syncState and batch :: nat
  assumes "snapshotsOk (sy_world s)" "cacheCoherent (sy_world s)" "distinct (map ob_id (outbox (sy_world s)))"
  defines "pending \<equiv> pendingBatch batch (sy_world s)"
  shows "wp (drainOutbox env h batch) (\<lambda>n s'. n = length pending \<and> workedOn s s' \<and> cacheCoherent (sy_world s') \<and>
      outbox (sy_world s') = marked (ob_id ` set pending) (sy_world s) \<and>
      (\<forall>e \<in> set pending. ob_type e = INVENTORY_ATP_CHANGED \<longrightarrow> offered env s s' (ob_tenantId e) (ob_subjectId e)))
    (\<lambda>_ _. True) s"
proof -
  let ?ts = "uniq (map ob_tenantId pending)"
  let ?of = "\<lambda>T. {ob_id e |e. e \<in> set pending \<and> ob_tenantId e \<in> T}"
  let ?I = "\<lambda>rest s'. workedOn s s' \<and> cacheCoherent (sy_world s') \<and> distinct rest \<and>
    outbox (sy_world s') = marked (?of (- set rest)) (sy_world s) \<and>
    (\<forall>e \<in> set pending. ob_tenantId e \<notin> set rest \<longrightarrow> ob_type e = INVENTORY_ATP_CHANGED \<longrightarrow>
      offered env s s' (ob_tenantId e) (ob_subjectId e))"
  have sub: "set pending \<subseteq> set (outbox (sy_world s))"
    unfolding pending_def pendingBatch_def by (rule subset_trans [OF set_take_subset]) auto
  have "wp (forEach ?ts (drainTenant env h pending)) (\<lambda>_. ?I []) (\<lambda>_ _. True) s"
  proof (rule wp_forEach_rest)
    have none: "?of (- set ?ts) = {}" by auto
    show "?I ?ts s" unfolding none marked_none using assms(2) by auto
  next
    fix t rest s1
    assume I: "?I (t # rest) s1"
    have ok: "snapshotsOk (sy_world s1)" using I assms(1) workedOn_sel(6) by blast
    show "wp (drainTenant env h pending t) (\<lambda>_. ?I rest) (\<lambda>_ _. True) s1"
    proof (rule wp_mono [OF wp_drainTenant [OF ok]], goal_cases)
      case (2 u s2)
      have w: "workedOn s s2" using I 2 workedOn_trans by blast
      have cl: "clock (sy_world s1) = clock (sy_world s)" using I workedOn_sel(4) by blast
      have un: "?of (- set (t # rest)) \<union> {ob_id e |e. e \<in> set pending \<and> ob_tenantId e = t} = ?of (- set rest)"
        using I by auto
      have "outbox (sy_world s2) = marked (?of (- set rest)) (sy_world s)"
        using 2 I marked_again [OF ids_apart [OF assms(3) sub, of t "- set (t # rest)"] _ cl] unfolding un by auto
      moreover have "offered env s s2 (ob_tenantId e) (ob_subjectId e)"
        if "e \<in> set pending" "ob_tenantId e \<notin> set rest" "ob_type e = INVENTORY_ATP_CHANGED" for e
        using that 2 I offered_mono [of s1 s2] offered_later [of s s1] by (cases "ob_tenantId e = t") auto
      ultimately show ?case using w 2 I by auto
    qed (use I in simp_all)
  qed
  moreover have "?of (- set []) = ob_id ` set pending" by auto
  ultimately show ?thesis
    unfolding drainOutbox_def wp_bind wp_gets wp_andThen wp_ret pending_def [symmetric]
    by (auto elim!: wp_mono)
qed


section \<open>One shop that refuses\<close>

definition refusing :: "shopifyApi \<Rightarrow> shopifyCreds \<Rightarrow> bool" where
  "refusing api cr \<longleftrightarrow> (\<forall>h code. \<exists>st. api h (FindVariantBySku cr code) = Refused st) \<and>
     (\<forall>h i g q. \<exists>st. api h (SetAvailable cr i g q) = Refused st)"

lemma refused_call:
  "api (shopifyLog s) c = Refused st \<Longrightarrow>
    graphql api c s = (Inl (OtherError ''Shopify request failed''), s\<lparr>shopifyLog := shopifyLog s @ [c]\<rparr>)"
  by (simp add: graphql_def sendCall_def op_defs)

lemma refused_find:
  assumes "refusing api cr"
  shows "findInventoryItemBySku api cr code s = (Inl (OtherError ''Shopify request failed''),
    s\<lparr>shopifyLog := shopifyLog s @ [FindVariantBySku cr code]\<rparr>)"
proof -
  obtain st where "api (shopifyLog s) (FindVariantBySku cr code) = Refused st" using assms unfolding refusing_def by blast
  from refused_call [where api = api and s = s, OF this] show ?thesis by (simp add: findInventoryItemBySku_def bind_def)
qed

lemma refused_set:
  assumes "refusing api cr"
  shows "setAvailable api cr i g q s = (Inl (OtherError ''Shopify request failed''),
    s\<lparr>shopifyLog := shopifyLog s @ [SetAvailable cr i g q]\<rparr>)"
proof -
  obtain st where "api (shopifyLog s) (SetAvailable cr i g q) = Refused st" using assms unfolding refusing_def by blast
  from refused_call [where api = api and s = s, OF this] show ?thesis by (simp add: setAvailable_def bind_def)
qed

text \<open>No inventory item on record is the empty string.\<close>

definition itemsNamed :: "syncState \<Rightarrow> bool" where
  "itemsNamed s \<longleftrightarrow> (\<forall>m \<in> set (skuMappings s). sm_inventoryItemId m \<noteq> [])"

lemma refused_push:
  assumes "refusing (ev_api env) cr" "itemsNamed s" "shopifyTarget env ch = Some (cr, gid)" "items \<noteq> []"
  shows "\<exists>calls. pushShopify env ch items s = (Inl (OtherError ''Shopify request failed''), s\<lparr>shopifyLog := shopifyLog s @ calls\<rparr>)"
proof -
  obtain i is' where items: "items = i # is'" using assms(4) by (cases items) auto
  have named: "sm_inventoryItemId m \<noteq> []" if "findMapping (ch_id ch) (ip_skuId i) s = Some m" for m
    using assms(2) find_SomeD that unfolding itemsNamed_def findMapping_def by metis
  have "\<exists>calls. pushItem env ch cr gid i s = (Inl (OtherError ''Shopify request failed''), s\<lparr>shopifyLog := shopifyLog s @ calls\<rparr>)"
    by (cases "findMapping (ch_id ch) (ip_skuId i) s")
      (auto simp: pushItem_def resolveInventoryItem_def bind_def gets_def ret_def refused_find [OF assms(1)] refused_set [OF assms(1)] named)
  then show ?thesis
    unfolding pushShopify_target [OF assms(3)] items by (auto simp: andThen_def bind_def)
qed

text \<open>The oldest pending change belongs to a tenant whose first channel is that shop.\<close>

definition stuck :: "syncEnv \<Rightarrow> nat \<Rightarrow> channelRow \<Rightarrow> shopifyCreds \<Rightarrow> syncState \<Rightarrow> bool" where
  "stuck env batch ch cr s \<longleftrightarrow> refusing (ev_api env) cr \<and> ch_type ch = SHOPIFY \<and> (\<exists>gid. shopifyTarget env ch = Some (cr, gid)) \<and>
     itemsNamed s \<and> snapshotsOk (sy_world s) \<and> cacheCoherent (sy_world s) \<and>
     (\<exists>e es chs. pendingBatch batch (sy_world s) = e # es \<and> ob_type e = INVENTORY_ATP_CHANGED \<and>
       activeChannels (ob_tenantId e) s = ch # chs)"

lemma remdups_snoc: "remdups (ys @ [x]) = filter (\<lambda>y. y \<noteq> x) (remdups ys) @ [x]"
  by (induction ys) auto

lemma uniq_Cons: "\<exists>xs'. uniq (x # xs) = x # xs'"
  by (simp add: uniq_def remdups_snoc)

lemma stuck_step:
  assumes "stuck env batch ch cr s"
  shows "\<exists>s'. drainOutbox env h batch s = (Inl (OtherError ''Shopify request failed''), s') \<and>
    outbox (sy_world s') = outbox (sy_world s) \<and> stuck env batch ch cr s'"
proof -
  obtain gid e es chs where st: "refusing (ev_api env) cr" "ch_type ch = SHOPIFY" "shopifyTarget env ch = Some (cr, gid)"
    "itemsNamed s" "snapshotsOk (sy_world s)" "cacheCoherent (sy_world s)" "pendingBatch batch (sy_world s) = e # es"
    "ob_type e = INVENTORY_ATP_CHANGED" "activeChannels (ob_tenantId e) s = ch # chs"
    using assms unfolding stuck_def by blast
  let ?p = "pendingBatch batch (sy_world s)"
  let ?skus = "changedSkus (filter (\<lambda>x. ob_tenantId x = ob_tenantId e) ?p)"
  have skus: "?skus \<noteq> []"
  proof -
    have "ob_subjectId e \<in> set ?skus" using st(7,8) by (simp add: changedSkus_def)
    then show ?thesis by auto
  qed
  obtain items s1 where it: "atpFor env h (ob_tenantId e) ?skus s = (Inr items, s1)" "onlyCache s s1" "cacheCoherent (sy_world s1)"
    "map ip_skuId items = ?skus"
    by (rule wp_obtain [OF wp_atpFor [OF st(5,6), of env h "ob_tenantId e" ?skus]]) blast
  have ne: "items \<noteq> []" using it(4) skus by auto
  have named: "itemsNamed s1" using st(4) onlyCache_sel(7) [OF it(2)] by (simp add: itemsNamed_def)
  obtain calls where push: "pushShopify env ch items s1 =
      (Inl (OtherError ''Shopify request failed''), s1\<lparr>shopifyLog := shopifyLog s1 @ calls\<rparr>)"
    using refused_push [OF st(1) named st(3) ne] by blast
  let ?s2 = "s1\<lparr>shopifyLog := shopifyLog s1 @ calls\<rparr>"
  have "publishToChannel env ch items s1 = (Inl (OtherError ''Shopify request failed''), ?s2)"
    using push by (simp add: publishToChannel_def getConnector_def connectorMap_def st(2) op_defs pushInventory_def)
  then have "drainTenant env h ?p (ob_tenantId e) s = (Inl (OtherError ''Shopify request failed''), ?s2)"
    using it(1) skus st(9) by (simp add: drainTenant_def Let_def bind_def gets_def andThen_def)
  moreover obtain ts where "uniq (map ob_tenantId ?p) = ob_tenantId e # ts" using uniq_Cons st(7) by fastforce
  ultimately have run: "drainOutbox env h batch s = (Inl (OtherError ''Shopify request failed''), ?s2)"
    by (simp add: drainOutbox_def bind_def gets_def andThen_def)
  have same: "outbox (sy_world ?s2) = outbox (sy_world s)" "salesChannels ?s2 = salesChannels s"
    using onlyCache_sel(1,6) [OF it(2)] by simp_all
  have "pendingBatch batch (sy_world ?s2) = ?p" "activeChannels t ?s2 = activeChannels t s" for t
    using same by (simp_all add: pendingBatch_def activeChannels_def)
  moreover have "itemsNamed ?s2" using named by (simp add: itemsNamed_def)
  moreover have "snapshotsOk (sy_world ?s2)" using st(5) onlyCache_sel(10) [OF it(2)] by simp
  ultimately have "stuck env batch ch cr ?s2" using st it(3) unfolding stuck_def by auto
  then show ?thesis using run same(1) by blast
qed

definition drainAgain :: "syncEnv \<Rightarrow> int \<Rightarrow> nat \<Rightarrow> nat \<Rightarrow> syncState \<Rightarrow> syncState" where
  "drainAgain env h batch k = ((\<lambda>s. snd (drainOutbox env h batch s)) ^^ k)"


section \<open>Witnesses\<close>

definition demoChannel :: channelRow where
  "demoChannel = \<lparr>ch_id = 30, ch_tenantId = 7, ch_type = SHOPIFY, ch_name = ''shop'', ch_active = True, ch_externalRef = None,
     ch_config = Some [''shopDomain'' \<mapsto> JStr ''demo.myshopify.com'', ''accessToken'' \<mapsto> JStr ''shpat_1'',
       ''inventoryLocationGid'' \<mapsto> JStr ''gid://1'']\<rparr>"

definition demoConnected :: syncState where
  "demoConnected = demoSync\<lparr>salesChannels := [demoChannel],
     skuMappings := [\<lparr>sm_id = 31, sm_channelId = 30, sm_skuId = 2, sm_inventoryItemId = ''item'', sm_variantId = None\<rparr>]\<rparr>"

definition acceptingEnv :: syncEnv where
  "acceptingEnv = demoEnv\<lparr>ev_api := (\<lambda>h c. Answer (Some (UserErrors [])) [])\<rparr>"

definition refusingEnv :: syncEnv where
  "refusingEnv = demoEnv\<lparr>ev_api := (\<lambda>h c. Refused 401)\<rparr>"

lemma demoConnected_sel:
  "sy_world demoConnected = sy_world demoSync" "salesChannels demoConnected = [demoChannel]"
  "outbox (sy_world demoSync) = [changeRow 20 3, changeRow 21 4]"
  by (simp_all add: demoConnected_def demoSync_def)

lemma demoTarget:
  "shopifyTarget acceptingEnv demoChannel = Some (demoCreds, ''gid://1'')"
  "shopifyTarget refusingEnv demoChannel = Some (demoCreds, ''gid://1'')"
  by (simp_all add: shopifyTarget_def configText_def configVersion_def demoChannel_def demoCreds_def acceptingEnv_def
      refusingEnv_def demoEnv_def decrypt_def startsWith_def sealPrefix_def)

lemma demoPending: "pendingBatch 10 (sy_world demoConnected) = [changeRow 20 3, changeRow 21 4]"
  by (simp add: pendingBatch_def demoConnected_sel)



end
