(* ===== verification/Signatures.thy ===== *)
theory Signatures
  imports Text "HOL-Library.Char_ord" "HOL-Library.List_Lexorder"
begin

text \<open>
  backend/src/integrations/shopify-hmac.util.ts: the signatures of inbound requests.  HMAC-SHA256 is
  Node's, a parameter \<open>hmac\<close> of key and message; nothing is assumed of it.
\<close>

section \<open>Definitions\<close>

text \<open>A header that is missing or empty, or a secret that is empty, is falsy.\<close>

definition verifyWebhookHmac :: "(string \<Rightarrow> string \<Rightarrow> string) \<Rightarrow> string \<Rightarrow> string option \<Rightarrow> string \<Rightarrow> bool" where
  "verifyWebhookHmac hmac rawBody hmacHeader secret =
    (if hmacHeader \<in> {None, Some []} \<or> secret = [] then False
     else let computed = base64Encode (hmac secret rawBody); b = the hmacHeader in
       if length computed \<noteq> length b then False else computed = b)"

definition verifyGenericHmac :: "(string \<Rightarrow> string \<Rightarrow> string) \<Rightarrow> string \<Rightarrow> string option \<Rightarrow> string \<Rightarrow> bool" where
  "verifyGenericHmac hmac rawBody signature secret = verifyWebhookHmac hmac rawBody signature secret"

text \<open>A parsed query: its keys in order, each once; a key given several times has a list of values.\<close>

datatype queryValue = Single string | Several "string list" | Undefined

type_synonym query = "(string \<times> queryValue) list"

definition queryText :: "queryValue \<Rightarrow> string" where
  "queryText v = (case v of Single s \<Rightarrow> s | Several vs \<Rightarrow> joinWith '','' vs | Undefined \<Rightarrow> [])"

definition compareText :: "string \<Rightarrow> string \<Rightarrow> int" where
  "compareText a b = (if a < b then -1 else if a = b then 0 else 1)"

definition signedKeys :: "query \<Rightarrow> string list" where
  "signedKeys q = jsSort compareText (filter (\<lambda>k. k \<noteq> ''hmac'' \<and> k \<noteq> ''signature'') (map fst q))"

definition signedPart :: "query \<Rightarrow> string \<Rightarrow> string" where
  "signedPart q k = k @ ''='' @ (case map_of q k of Some v \<Rightarrow> queryText v | None \<Rightarrow> [])"

definition queryMessage :: "query \<Rightarrow> string" where
  "queryMessage q = joinWith ''&'' (map (signedPart q) (signedKeys q))"

definition verifyQueryHmac :: "(string \<Rightarrow> string \<Rightarrow> string) \<Rightarrow> query \<Rightarrow> string \<Rightarrow> bool" where
  "verifyQueryHmac hmac q secret =
    (case map_of q ''hmac'' of
       Some (Single provided) \<Rightarrow>
         if secret = [] then False
         else let computed = hexEncode (hmac secret (queryMessage q)) in
           if length computed \<noteq> length provided then False else computed = provided
     | _ \<Rightarrow> False)"

section \<open>What a signature fixes\<close>

lemma verifyWebhookHmac_iff:
  "verifyWebhookHmac hmac body hdr secret \<longleftrightarrow> hdr \<noteq> Some [] \<and> secret \<noteq> [] \<and> hdr = Some (base64Encode (hmac secret body))"
  by (cases hdr) (auto simp: verifyWebhookHmac_def Let_def)

lemma verifyQueryHmac_iff:
  "verifyQueryHmac hmac q secret \<longleftrightarrow>
    secret \<noteq> [] \<and> map_of q ''hmac'' = Some (Single (hexEncode (hmac secret (queryMessage q))))"
  by (auto simp: verifyQueryHmac_def Let_def split: option.split queryValue.split)

interpretation byText: js_comparator compareText
  by unfold_locales (auto simp: compareText_def split: if_splits)

text \<open>The parameters the message is made of, by key.\<close>

definition signedParams :: "query \<Rightarrow> string \<Rightarrow> string option" where
  "signedParams q k = (if k \<in> {''hmac'', ''signature''} then None else map_option queryText (map_of q k))"

definition separatorFree :: "string \<Rightarrow> bool" where
  "separatorFree s \<longleftrightarrow> CHR ''&'' \<notin> set s \<and> CHR ''='' \<notin> set s"

definition plainQuery :: "query \<Rightarrow> bool" where
  "plainQuery q \<longleftrightarrow> (\<forall>(k, v) \<in> set q. separatorFree k \<and> separatorFree (queryText v))"

lemma set_signedKeys: "set (signedKeys q) = {k. signedParams q k \<noteq> None}"
proof -
  have "fst ` set q = dom (map_of q)" by (simp add: dom_map_of_conv_image_fst)
  then show ?thesis by (auto simp: signedKeys_def signedParams_def domIff)
qed

lemma signedPart_params: "k \<in> set (signedKeys q) \<Longrightarrow> signedPart q k = k @ ''='' @ the (signedParams q k)"
  by (auto simp: set_signedKeys signedPart_def signedParams_def split: option.splits if_splits)

lemma plain_params:
  assumes "plainQuery q" "signedParams q k = Some v"
  shows "separatorFree k" "separatorFree v"
  using assms by (fastforce simp: plainQuery_def signedParams_def dest: map_of_SomeD split: if_splits)+

text \<open>A message without separators in its parts is read back: its parts, and from a part its key and value.\<close>

definition parsePart :: "string \<Rightarrow> string \<times> string" where
  "parsePart p = (takeWhile (\<lambda>c. c \<noteq> CHR ''='') p, drop 1 (dropWhile (\<lambda>c. c \<noteq> CHR ''='') p))"

lemma parsePart_join: "CHR ''='' \<notin> set k \<Longrightarrow> parsePart (k @ ''='' @ v) = (k, v)"
proof -
  assume "CHR ''='' \<notin> set k"
  then have "\<forall>c \<in> set k. c \<noteq> CHR ''=''" by blast
  then show ?thesis by (simp add: parsePart_def takeWhile_append2 dropWhile_append2)
qed

lemma message_parts:
  assumes "plainQuery q" "signedKeys q \<noteq> []"
  shows "splitOn (CHR ''&'') (queryMessage q) = map (signedPart q) (signedKeys q)"
  unfolding queryMessage_def
proof (rule splitOn_joinWith)
  show "map (signedPart q) (signedKeys q) \<noteq> []" using assms(2) by simp
  show "\<forall>x \<in> set (map (signedPart q) (signedKeys q)). CHR ''&'' \<notin> set x"
  proof
    fix x assume "x \<in> set (map (signedPart q) (signedKeys q))"
    then obtain k where k: "k \<in> set (signedKeys q)" "x = signedPart q k" by auto
    obtain v where v: "signedParams q k = Some v" using k(1) by (auto simp: set_signedKeys)
    show "CHR ''&'' \<notin> set x"
      using plain_params [OF assms(1) v] by (simp add: k(2) signedPart_params [OF k(1)] v separatorFree_def)
  qed
qed

lemma message_empty_iff: "queryMessage q = [] \<longleftrightarrow> signedKeys q = []"
proof (cases "signedKeys q")
  case (Cons k ks)
  then show ?thesis by (cases ks) (simp_all add: queryMessage_def signedPart_def)
qed (simp add: queryMessage_def)

lemma message_params:
  assumes "plainQuery q" "signedKeys q \<noteq> []"
  shows "signedParams q = map_of (map parsePart (splitOn (CHR ''&'') (queryMessage q)))"
proof -
  have "map (parsePart \<circ> signedPart q) (signedKeys q) = map (\<lambda>k. (k, the (signedParams q k))) (signedKeys q)"
  proof (rule map_cong [OF refl])
    fix k assume k: "k \<in> set (signedKeys q)"
    then obtain v where v: "signedParams q k = Some v" by (auto simp: set_signedKeys)
    show "(parsePart \<circ> signedPart q) k = (k, the (signedParams q k))"
      using plain_params(1) [OF assms(1) v] by (simp add: signedPart_params [OF k] separatorFree_def parsePart_join del: append_Cons append_Nil)
  qed
  moreover have "map_of (map (\<lambda>k. (k, the (signedParams q k))) (signedKeys q)) = signedParams q"
  proof
    fix k
    show "map_of (map (\<lambda>k. (k, the (signedParams q k))) (signedKeys q)) k = signedParams q k"
      by (cases "k \<in> set (signedKeys q)") (auto simp: map_of_map_restrict restrict_map_def set_signedKeys)
  qed
  ultimately have "map_of (map (parsePart \<circ> signedPart q) (signedKeys q)) = signedParams q" by (simp only:)
  then show ?thesis by (simp add: message_parts [OF assms] del: map_eq_conv)
qed

text \<open>The message determines the parameters of a query without separators.\<close>

lemma message_injective:
  assumes "plainQuery q" "plainQuery q'" "queryMessage q = queryMessage q'"
  shows "signedParams q = signedParams q'"
proof (cases "signedKeys q = []")
  case True
  then have "signedKeys q' = []" using assms(3) message_empty_iff by metis
  then have "signedParams q = (\<lambda>_. None)" "signedParams q' = (\<lambda>_. None)"
    using True set_signedKeys [of q] set_signedKeys [of q'] by (auto simp: fun_eq_iff)
  then show ?thesis by simp
next
  case False
  then have "signedKeys q' \<noteq> []" using assms(3) message_empty_iff by metis
  then show ?thesis using message_params [OF assms(1) False] message_params [OF assms(2)] assms(3) by simp
qed


lemma separator_codes: "of_char (CHR ''&'') = (38 :: nat)" "of_char (CHR ''='') = (61 :: nat)"
  by simp_all

lemma hexEncode_plain: "separatorFree (hexEncode s)"
proof -
  have digit: "CHR ''&'' \<noteq> hexDigit n" "CHR ''='' \<noteq> hexDigit n" if "n < 16" for n
  proof -
    have code: "of_char (hexDigit n) \<noteq> (38 :: nat)" "of_char (hexDigit n) \<noteq> (61 :: nat)" using that by (simp_all add: hexDigit_def)
    show "CHR ''&'' \<noteq> hexDigit n" using code(1) by (metis (no_types) separator_codes(1))
    show "CHR ''='' \<noteq> hexDigit n" using code(2) by (metis (no_types) separator_codes(2))
  qed
  have "of_char c div 16 < (16 :: nat)" for c :: char by (simp add: less_mult_imp_div_less)
  then show ?thesis by (auto simp: separatorFree_def hexEncode_def Let_def digit)
qed

lemma smallKeys:
  "signedKeys [(''code'', v), (''shop'', v'), (''hmac'', v'')] = [''code'', ''shop'']"
  "signedKeys [(''shop'', v'), (''code'', v), (''hmac'', v'')] = [''code'', ''shop'']"
  "signedKeys [(''code'', v), (''hmac'', v''), (''shop'', v')] = [''code'', ''shop'']"
  "signedKeys [(''code'', v), (''hmac'', v'')] = [''code'']"
proof -
  have "jsSort compareText [''code'', ''shop''] = [''code'', ''shop'']" "jsSort compareText [''shop'', ''code''] = [''code'', ''shop'']"
    "jsSort compareText [''code''] = [''code'']"
    by code_simp+
  then show "signedKeys [(''code'', v), (''shop'', v'), (''hmac'', v'')] = [''code'', ''shop'']"
    "signedKeys [(''shop'', v'), (''code'', v), (''hmac'', v'')] = [''code'', ''shop'']"
    "signedKeys [(''code'', v), (''hmac'', v''), (''shop'', v')] = [''code'', ''shop'']"
    "signedKeys [(''code'', v), (''hmac'', v'')] = [''code'']"
    by (simp_all add: signedKeys_def del: jsSort.simps)
qed


text \<open>
  Without that proviso it does not: the parts are joined unescaped, so a value that holds the separators
  stands for further parameters.  The signature of one query is then accepted for another.
\<close>

lemma separators_splice:
  assumes "verifyQueryHmac hmac [(''code'', Single ''c''), (''shop'', Single ''s''), (''hmac'', Single h)] secret"
  shows "verifyQueryHmac hmac [(''code'', Single ''c&shop=s''), (''hmac'', Single h)] secret"
proof -
  have "queryMessage [(''code'', Single ''c''), (''shop'', Single ''s''), (''hmac'', Single h)] =
      queryMessage [(''code'', Single ''c&shop=s''), (''hmac'', Single h)]"
    by (simp add: queryMessage_def smallKeys signedPart_def queryText_def)
  then show ?thesis using assms by (simp add: verifyQueryHmac_iff)
qed

end
