(* ===== verification/OAuth.thy ===== *)
theory OAuth
  imports Channels Signatures
begin

text \<open>
  backend/src/integrations/shopify-oauth.service.ts and oauth.controller.ts: a merchant connects a
  Shopify shop by the authorization-code grant.  The nonces kept in Redis are the rows
  \<open>oauthNonces\<close> of the state; a row counts until it expires.
\<close>

section \<open>Definitions\<close>

record oauthEnv =
  oe_sync :: syncEnv
  oe_hmac :: "string \<Rightarrow> string \<Rightarrow> string"
  oe_apiKey :: "string option"
  oe_apiSecret :: "string option"
  oe_scopes :: "string option"
  oe_baseUrl :: "string option"

definition STATE_TTL_SECONDS :: int where
  "STATE_TTL_SECONDS = 600"

definition isAlnum :: "char \<Rightarrow> bool" where
  "isAlnum c = (let n = of_char c :: nat in 48 \<le> n \<and> n \<le> 57 \<or> 65 \<le> n \<and> n \<le> 90 \<or> 97 \<le> n \<and> n \<le> 122)"

definition shopSuffix :: string where
  "shopSuffix = ''.myshopify.com''"

text \<open>A letter or digit, then letters, digits and hyphens, then the suffix, and no more.\<close>

definition isShopDomain :: "string \<Rightarrow> bool" where
  "isShopDomain s =
    (let n = length s - length shopSuffix in
     drop n s = shopSuffix \<and> 0 < n \<and> isAlnum (hd s) \<and> list_all (\<lambda>c. isAlnum c \<or> c = CHR ''-'') (take n s))"

definition assertShop :: "string \<Rightarrow> ('s, unit) op" where
  "assertShop shop = throwIf (\<not> isShopDomain shop) (BadRequest ''Invalid shop domain'')"

definition requireConfig :: "string option \<Rightarrow> ('s, string) op" where
  "requireConfig v = (case v of
     Some x \<Rightarrow> if x = [] then throw (BadRequest ''not configured'') else ret x
   | None \<Rightarrow> throw (BadRequest ''not configured''))"

text \<open>\<open>URLSearchParams.toString\<close>.\<close>

definition upperHex :: "nat \<Rightarrow> char" where
  "upperHex n = char_of (if n < 10 then n + 48 else n + 55)"

definition formChar :: "char \<Rightarrow> string" where
  "formChar c =
    (if isAlnum c \<or> c \<in> set ''*-._'' then [c]
     else if c = CHR '' '' then ''+''
     else let n = of_char c :: nat in [CHR ''%'', upperHex (n div 16), upperHex (n mod 16)])"

definition formEncode :: "string \<Rightarrow> string" where
  "formEncode s = concat (map formChar s)"

definition searchParams :: "(string \<times> string) list \<Rightarrow> string" where
  "searchParams ps = joinWith ''&'' (map (\<lambda>(k, v). formEncode k @ ''='' @ formEncode v) ps)"

text \<open>The nonces in Redis: a set with an expiry replaces, a get sees what has not expired.\<close>

definition setNonce :: "string \<Rightarrow> string \<Rightarrow> ident \<Rightarrow> (syncState, unit) op" where
  "setNonce state shop tenantId =
    bind (inWorld now) (\<lambda>ts. modify (oauthNonces_update (\<lambda>ns. filter (\<lambda>n. nc_state n \<noteq> state) ns @
      [\<lparr>nc_state = state, nc_shop = shop, nc_tenantId = tenantId, nc_expiresAt = ts + STATE_TTL_SECONDS * 1000\<rparr>])))"

definition liveNonce :: "string \<Rightarrow> syncState \<Rightarrow> nonceRow option" where
  "liveNonce state s = find (\<lambda>n. nc_state n = state \<and> clock (sy_world s) < nc_expiresAt n) (oauthNonces s)"

definition delNonce :: "string \<Rightarrow> (syncState, unit) op" where
  "delNonce state = modify (oauthNonces_update (filter (\<lambda>n. nc_state n \<noteq> state)))"

definition buildInstallUrl :: "oauthEnv \<Rightarrow> string \<Rightarrow> string \<Rightarrow> (syncState, string) op" where
  "buildInstallUrl env shop tenantSlug =
    andThen (assertShop shop)
    (bind (requireConfig (oe_apiKey env)) (\<lambda>apiKey.
     let scopes = (case oe_scopes env of Some x \<Rightarrow> x | None \<Rightarrow> []);
         baseUrl = (case oe_baseUrl env of Some x \<Rightarrow> x | None \<Rightarrow> ''http://localhost:3000'') in
     bind (gets (\<lambda>s. find (\<lambda>t. tn_slug t = tenantSlug \<or> ev_idText (oe_sync env) (tn_id t) = tenantSlug) (tenants (sy_world s)))) (\<lambda>found.
     bind (orThrow found (BadRequest ''Unknown tenant'')) (\<lambda>tenant.
     bind (inWorld freshId) (\<lambda>i.
     bind (gets (\<lambda>s. uuidOf (sy_world s) i)) (\<lambda>state.
     andThen (setNonce state shop (tn_id tenant))
     (ret (''https://'' @ shop @ ''/admin/oauth/authorize?'' @ searchParams
        [(''client_id'', apiKey), (''scope'', scopes), (''redirect_uri'', baseUrl @ ''/oauth/shopify/callback''),
         (''state'', state)]))))))))"

text \<open>A parameter that is given: not missing, not the empty string.\<close>

definition givenParam :: "query \<Rightarrow> string \<Rightarrow> queryValue option" where
  "givenParam q k = (case map_of q k of
     Some (Single v) \<Rightarrow> if v = [] then None else Some (Single v)
   | Some (Several vs) \<Rightarrow> Some (Several vs)
   | _ \<Rightarrow> None)"

definition channelConfig :: "string \<Rightarrow> string \<Rightarrow> string \<Rightarrow> string \<Rightarrow> jsonObject" where
  "channelConfig shop accessToken apiVersion scopes = [''shopDomain'' \<mapsto> JStr shop, ''accessToken'' \<mapsto> JStr accessToken,
     ''apiVersion'' \<mapsto> JStr apiVersion, ''scopes'' \<mapsto> JStr scopes]"

definition connectChannel :: "ident \<Rightarrow> string \<Rightarrow> jsonObject \<Rightarrow> (syncState, channelRow) op" where
  "connectChannel tenantId shop config =
    bind (gets (\<lambda>s. find (\<lambda>c. ch_tenantId c = tenantId \<and> ch_externalRef c = Some shop) (salesChannels s))) (\<lambda>existing.
    case existing of
      Some e \<Rightarrow> updateRow salesChannels salesChannels_update (\<lambda>c. ch_id c = ch_id e)
        (\<lambda>c. c\<lparr>ch_config := Some config, ch_active := True\<rparr>)
    | None \<Rightarrow> bind (inWorld freshId) (\<lambda>i.
        insertChannel \<lparr>ch_id = i, ch_tenantId = tenantId, ch_type = SHOPIFY, ch_name = shop, ch_active = True,
          ch_externalRef = Some shop, ch_config = Some config\<rparr>))"

definition handleCallback :: "oauthEnv \<Rightarrow> query \<Rightarrow> (syncState, ident \<times> string) op" where
  "handleCallback env q =
    (case (givenParam q ''shop'', givenParam q ''code'', givenParam q ''state'') of
       (Some shopV, Some codeV, Some stateV) \<Rightarrow>
         (let shop = queryText shopV; code = queryText codeV; state = queryText stateV in
          andThen (assertShop shop)
          (bind (requireConfig (oe_apiKey env)) (\<lambda>apiKey.
           bind (requireConfig (oe_apiSecret env)) (\<lambda>apiSecret.
           andThen (throwIf (\<not> verifyQueryHmac (oe_hmac env) q apiSecret) (Unauthorized ''Invalid OAuth HMAC''))
           (bind (gets (liveNonce state)) (\<lambda>stored.
            bind (orThrow stored (Unauthorized ''Invalid or expired state'')) (\<lambda>n.
            andThen (throwIf (shopV \<noteq> Single (nc_shop n)) (Unauthorized ''State/shop mismatch''))
            (andThen (delNonce state)
            (bind (exchangeCodeForToken (ev_api (oe_sync env)) shop apiKey apiSecret code) (\<lambda>(tok, scopes).
             bind (encryptOp (oe_sync env) tok) (\<lambda>accessToken.
             bind (connectChannel (nc_tenantId n) shop (channelConfig shop accessToken
                 (case ev_apiVersion (oe_sync env) of Some v \<Rightarrow> v | None \<Rightarrow> SHOPIFY_API_VERSION) scopes)) (\<lambda>channel.
             ret (ch_id channel, shop)))))))))))))
     | _ \<Rightarrow> throw (BadRequest ''Missing shop/code/state''))"

section \<open>The steps of the grant\<close>

lemma wp_connectChannel:
  assumes "distinct (map ch_id (salesChannels s))"
  shows "wp (connectChannel t shop cfg)
    (\<lambda>row s'. oauthNonces s' = oauthNonces s \<and> shopifyLog s' = shopifyLog s \<and>
      ch_tenantId row = t \<and> ch_externalRef row = Some shop \<and> ch_active row \<and>
      ch_config row = Some cfg \<and> row \<in> set (salesChannels s') \<and>
      (\<forall>c \<in> set (salesChannels s). ch_id c \<noteq> ch_id row \<longrightarrow> c \<in> set (salesChannels s')))
    (\<lambda>_ s'. salesChannels s' = salesChannels s) s"
proof (cases "find (\<lambda>c. ch_tenantId c = t \<and> ch_externalRef c = Some shop) (salesChannels s)")
  case None
  then show ?thesis by (auto simp: connectChannel_def insertChannel_def wp)
next
  case (Some e)
  have e: "e \<in> set (salesChannels s)" "ch_tenantId e = t" "ch_externalRef e = Some shop" using find_SomeD [OF Some] by auto
  have "find (\<lambda>c. ch_id c = ch_id e) (salesChannels s) = Some e" by (rule find_unique [OF assms e(1)])
  then show ?thesis
    using e by (auto simp: connectChannel_def wp Some set_mapWhere)
qed

lemma wp_encryptOp: "wp (encryptOp env p) Q E = (\<lambda>s. Q (encrypt (ev_crypto env) (ev_key env) (randomBytesOf s (nextId (sy_world s))) p)
    (s\<lparr>sy_world := (sy_world s)\<lparr>nextId := Suc (nextId (sy_world s))\<rparr>\<rparr>))"
  by (simp add: encryptOp_def wp fun_eq_iff)

lemma wp_exchange: "wp (exchangeCodeForToken api shop key secret code) Q E =
    (\<lambda>s. let c = ExchangeCode shop key secret code; s' = s\<lparr>shopifyLog := shopifyLog s @ [c]\<rparr> in
      case api (shopifyLog s) c of Token t sc \<Rightarrow> Q (t, sc) s' | _ \<Rightarrow> E (OtherError ''OAuth token exchange failed'') s')"
  by (simp add: exchangeCodeForToken_def sendCall_def wp fun_eq_iff Let_def split: shopifyAnswer.split)

lemma wp_assertShop [wp]: "wp (assertShop shop) Q E = (if isShopDomain shop then Q () else E (BadRequest ''Invalid shop domain''))"
  by (simp add: assertShop_def wp)

lemma wp_requireConfig [wp]: "wp (requireConfig v) Q E =
    (case v of Some x \<Rightarrow> if x = [] then E (BadRequest ''not configured'') else Q x | None \<Rightarrow> E (BadRequest ''not configured''))"
  by (simp add: requireConfig_def wp split: option.split)

lemma decrypt_sealed_token:
  assumes "aeadLaw (ev_crypto env)" "digestLaw (ev_crypto env)" "ev_key env = cryptoKey (ev_crypto env) raw" "\<not> startsWith p sealPrefix"
  shows "decrypt (ev_crypto env) (ev_key env) (encrypt (ev_crypto env) (ev_key env) iv p) = Inr p"
  by (rule decrypt_encrypt [OF assms(1,2,4,3)])

text \<open>A state that is not live is refused, whatever is signed.\<close>

lemma callback_needs_nonce:
  assumes "givenParam q ''state'' = Some v" "liveNonce (queryText v) s = None"
  shows "\<exists>e. handleCallback env q s = (Inl e, s)"
proof -
  have "wp (handleCallback env q) (\<lambda>_ _. False) (\<lambda>_ s'. s' = s) s"
    using assms by (simp add: handleCallback_def wp Let_def split: option.split)
  then show ?thesis by (cases "handleCallback env q s"; cases "fst (handleCallback env q s)") (auto simp: wp_iff)
qed

section \<open>Connecting a shop\<close>

definition tokensUnmarked :: "shopifyApi \<Rightarrow> bool" where
  "tokensUnmarked api \<longleftrightarrow> (\<forall>h c t sc. api h c = Token t sc \<longrightarrow> \<not> startsWith t sealPrefix)"

text \<open>The nonce that a callback answers to: issued for the shop, not expired.\<close>

definition answersNonce :: "query \<Rightarrow> syncState \<Rightarrow> nonceRow \<Rightarrow> bool" where
  "answersNonce q s n \<longleftrightarrow> n \<in> set (oauthNonces s) \<and> clock (sy_world s) < nc_expiresAt n \<and>
    map_option queryText (givenParam q ''state'') = Some (nc_state n) \<and> givenParam q ''shop'' = Some (Single (nc_shop n))"

text \<open>The channel that holds the token Shopify gave for the code.\<close>

definition holdsToken :: "oauthEnv \<Rightarrow> query \<Rightarrow> syncState \<Rightarrow> nonceRow \<Rightarrow> channelRow \<Rightarrow> bool" where
  "holdsToken env q s n row \<longleftrightarrow> ch_tenantId row = nc_tenantId n \<and> ch_externalRef row = Some (nc_shop n) \<and> ch_active row \<and>
    (\<exists>k secret code tok scopes sealed ver. oe_apiKey env = Some k \<and> oe_apiSecret env = Some secret \<and>
      map_option queryText (givenParam q ''code'') = Some code \<and>
      ev_api (oe_sync env) (shopifyLog s) (ExchangeCode (nc_shop n) k secret code) = Token tok scopes \<and>
      ch_config row = Some (channelConfig (nc_shop n) sealed ver scopes) \<and>
      decrypt (ev_crypto (oe_sync env)) (ev_key (oe_sync env)) sealed = Inr tok)"


definition demoGrantShop :: shopifyApi where
  "demoGrantShop h c = (case c of ExchangeCode _ _ _ _ \<Rightarrow> Token ''shpat_1'' ''read_products'' | _ \<Rightarrow> Refused 404)"

definition demoOauth :: oauthEnv where
  "demoOauth = \<lparr>oe_sync = demoEnv\<lparr>ev_api := demoGrantShop\<rparr>, oe_hmac = (\<lambda>k m. ''x''), oe_apiKey = Some ''app'',
    oe_apiSecret = Some ''s'', oe_scopes = None, oe_baseUrl = None\<rparr>"

definition demoGrant :: query where
  "demoGrant = [(''shop'', Single ''a.myshopify.com''), (''code'', Single ''c''), (''state'', Single ''n1''),
    (''hmac'', Single (hexEncode ''x''))]"

definition demoNonce :: nonceRow where
  "demoNonce = \<lparr>nc_state = ''n1'', nc_shop = ''a.myshopify.com'', nc_tenantId = 7, nc_expiresAt = 600000\<rparr>"

definition awaiting :: "syncState \<Rightarrow> syncState" where
  "awaiting s = s\<lparr>sy_world := (sy_world s)\<lparr>clock := 0\<rparr>, salesChannels := [], oauthNonces := [demoNonce]\<rparr>"


text \<open>
  A connection writes a configuration of its own over what the channel had: its location and its webhook
  secret are gone, and until the location is set again no level is pushed to the shop.
\<close>

lemma connection_forgets_location:
  assumes "ch_config ch = Some (channelConfig shop tok ver scopes)"
  shows "wp (pushShopify env ch items) (\<lambda>_ s'. s' = s) (\<lambda>_ s'. s' = s) s"
    "configText (ch_config ch) ''webhookSecret'' = None"
proof -
  have "configText (ch_config ch) ''inventoryLocationGid'' = None" "configText (ch_config ch) ''webhookSecret'' = None"
    by (simp_all add: assms configText_def channelConfig_def)
  then show "wp (pushShopify env ch items) (\<lambda>_ s'. s' = s) (\<lambda>_ s'. s' = s) s" "configText (ch_config ch) ''webhookSecret'' = None"
    by (auto simp: pushShopify_def credsOf_def decryptOp_def wp split: option.split sum.split)
qed

end
