(* ===== verification/Webhooks.thy ===== *)
theory Webhooks
  imports Channels Signatures Idempotency
begin

text \<open>
  backend/src/integrations/webhook.service.ts and webhooks.controller.ts: orders that sales channels
  send in, signed.  \<open>JSON.parse\<close> of a body is a parameter (a body that is no JSON parses to
  nothing), as are the hash and the normalisation of the idempotency service; \<open>we_others\<close> is what other
  requests commit while one of its functions runs.  Numbers of a payload other than prices are integers.
\<close>

section \<open>Prices\<close>

text \<open>
  \<open>parseFloat\<close>: the longest decimal literal at the start, exactly; JavaScript has the nearest double of it.
  In hundredths, rounded, both agree for prices of at most two decimals below $2^{46}$.
\<close>

datatype jsNumber = NotANumber | Infinite | Finite rat

definition isDigit :: "char \<Rightarrow> bool" where
  "isDigit c = (let n = of_char c :: nat in 48 \<le> n \<and> n \<le> 57)"

definition decimalNat :: "string \<Rightarrow> nat" where
  "decimalNat ds = foldl (\<lambda>n c. 10 * n + (of_char c - 48)) 0 ds"

definition signOf :: "string \<Rightarrow> int \<times> string" where
  "signOf s = (case s of [] \<Rightarrow> (1, []) | c # r \<Rightarrow> if c = CHR ''-'' then (-1, r) else if c = CHR ''+'' then (1, r) else (1, s))"

definition exponentOf :: "string \<Rightarrow> int" where
  "exponentOf s = (case s of [] \<Rightarrow> 0 | c # r \<Rightarrow>
     if c = CHR ''e'' \<or> c = CHR ''E''
     then let (sg, r') = signOf r in sg * int (decimalNat (takeWhile isDigit r')) else 0)"

definition scaled :: "int \<Rightarrow> int \<Rightarrow> rat" where
  "scaled n e = (if 0 \<le> e then of_int n * 10 ^ nat e else of_int n / 10 ^ nat (- e))"

definition parseFloat :: "string \<Rightarrow> jsNumber" where
  "parseFloat s =
    (let (sg, u) = signOf (trimStart s) in
     if startsWith u ''Infinity'' then Infinite
     else let ip = takeWhile isDigit u; r = drop (length ip) u;
              pointed = (r \<noteq> [] \<and> hd r = CHR ''.'');
              fp = (if pointed then takeWhile isDigit (tl r) else []);
              rest = (if pointed then drop (length fp) (tl r) else r)
       in if ip = [] \<and> fp = [] then NotANumber
          else Finite (scaled (sg * int (decimalNat (ip @ fp))) (exponentOf rest - int (length fp))))"

text \<open>\<open>Math.round\<close> of a hundredfold; nothing for what is no number.\<close>

definition inCents :: "jsNumber \<Rightarrow> int option" where
  "inCents x = (case x of Finite q \<Rightarrow> Some \<lfloor>q * 100 + 1 / 2\<rfloor> | _ \<Rightarrow> None)"

text \<open>A price written with two decimals is read as its hundredths.\<close>

lemma digit_facts: "isDigit c \<Longrightarrow> \<not> isBlank c" "isDigit c \<Longrightarrow> c \<noteq> CHR ''-''" "isDigit c \<Longrightarrow> c \<noteq> CHR ''+''"
  "isDigit c \<Longrightarrow> c \<noteq> CHR ''I''" "\<not> isDigit (CHR ''.'')"
  by (auto simp: isDigit_def isBlank_def)

lemma two_decimals:
  assumes "ip \<noteq> []" "list_all isDigit ip" "length fp = 2" "list_all isDigit fp"
  shows "inCents (parseFloat (ip @ ''.'' @ fp)) = Some (int (decimalNat (ip @ fp)))"
proof -
  obtain c ip' where ip: "ip = c # ip'" "isDigit c" using assms(1,2) by (cases ip) auto
  have t: "trimStart (ip @ ''.'' @ fp) = ip @ ''.'' @ fp" "signOf (ip @ ''.'' @ fp) = (1, ip @ ''.'' @ fp)"
    "\<not> startsWith (ip @ ''.'' @ fp) ''Infinity''"
    using ip digit_facts(1-4) by (simp_all add: trimStart_def signOf_def startsWith_def)
  have digits: "takeWhile isDigit (ip @ ''.'' @ fp) = ip" "takeWhile isDigit fp = fp"
    using assms(2,4) digit_facts(5) by (simp_all add: list_all_iff takeWhile_append2 takeWhile_eq_all_conv [THEN iffD2])
  have "parseFloat (ip @ ''.'' @ fp) = Finite (scaled (int (decimalNat (ip @ fp))) (- 2))"
    using assms(1,3) by (simp only: parseFloat_def t Let_def prod.case digits if_False) (simp add: exponentOf_def digits)
  moreover have "\<lfloor>(of_int n / 100) * 100 + 1 / 2 :: rat\<rfloor> = n" for n :: int by (simp add: floor_eq_iff)
  ultimately show ?thesis by (simp add: inCents_def scaled_def)
qed

section \<open>Payloads\<close>

record shopifyLineItem =
  li_sku :: "string option"
  li_quantity :: "int option"
  li_price :: "string option"

text \<open>\<open>id\<close> is the text of the order's identifier; a customer's is there when it is given and truthy.\<close>

record shopifyOrderPayload =
  sop_id :: string
  sop_customerId :: "string option"
  sop_lineItems :: "shopifyLineItem list option"

record genericLine =
  gl_sku :: string
  gl_quantity :: int
  gl_unitPrice :: "int option"

record genericOrderPayload =
  gop_externalRef :: "string option"
  gop_customerRef :: "string option"
  gop_lines :: "genericLine list option"

record webhookHeaders =
  wh_hmac :: "string option"
  wh_topic :: "string option"
  wh_shop :: "string option"
  wh_webhookId :: "string option"

text \<open>What a stored response is: the status of a webhook or a captured order.\<close>

datatype webhookBody = Status string | OrderBody orderDetails

record webhookEnv =
  we_sync :: syncEnv
  we_hmac :: "string \<Rightarrow> string \<Rightarrow> string"
  we_apiSecret :: "string option"
  we_parseShopify :: "string \<Rightarrow> shopifyOrderPayload option"
  we_parseGeneric :: "string \<Rightarrow> genericOrderPayload option"
  we_requestHash :: "string \<Rightarrow> string"
  we_normalise :: "webhookBody \<Rightarrow> webhookBody"
  we_others :: "(syncState, webhookBody) idemState \<Rightarrow> (syncState, webhookBody) idemState"
  we_ttlSeconds :: int
  we_retryEnv :: "nat \<Rightarrow> world \<Rightarrow> world"
  we_gateway :: paymentProvider

section \<open>Mapping lines\<close>

text \<open>A price is nothing (which counts as 0), or a number, possibly none an order can hold.\<close>

record rawLine =
  rw_sku :: string
  rw_quantity :: int
  rw_unitPrice :: "int option option"

record mappedLine =
  ml_skuId :: ident
  ml_quantity :: int
  ml_unitPrice :: "int option"

definition idByCode :: "ident \<Rightarrow> rawLine list \<Rightarrow> world \<Rightarrow> string \<Rightarrow> ident option" where
  "idByCode tenantId raw w =
    (let codes = uniq (filter (\<lambda>c. c \<noteq> []) (map rw_sku raw));
         rows = filter (\<lambda>k. sk_tenantId k = tenantId \<and> sk_code k \<in> set codes) (skus w)
     in map_of (rev (map (\<lambda>k. (sk_code k, sk_id k)) rows)))"

definition mapLine :: "(string \<Rightarrow> ident option) \<Rightarrow> rawLine \<Rightarrow> mappedLine option" where
  "mapLine ids l = (case ids (rw_sku l) of
     None \<Rightarrow> None
   | Some skuId \<Rightarrow> if rw_quantity l < 1 then None
       else Some \<lparr>ml_skuId = skuId, ml_quantity = rw_quantity l,
         ml_unitPrice = (case rw_unitPrice l of None \<Rightarrow> Some 0 | Some p \<Rightarrow> p)\<rparr>)"

definition mapLines :: "ident \<Rightarrow> rawLine list \<Rightarrow> (syncState, mappedLine list) op" where
  "mapLines tenantId raw = gets (\<lambda>s. List.map_filter (mapLine (idByCode tenantId raw (sy_world s))) raw)"

definition shopifyRaw :: "shopifyLineItem \<Rightarrow> rawLine" where
  "shopifyRaw li = \<lparr>rw_sku = (case li_sku li of Some c \<Rightarrow> c | None \<Rightarrow> []),
     rw_quantity = (case li_quantity li of Some n \<Rightarrow> n | None \<Rightarrow> 0),
     rw_unitPrice = (if li_price li \<in> {None, Some []} then Some (Some 0) else Some (inCents (parseFloat (the (li_price li)))))\<rparr>"

definition genericRaw :: "genericLine \<Rightarrow> rawLine" where
  "genericRaw l = \<lparr>rw_sku = gl_sku l, rw_quantity = gl_quantity l, rw_unitPrice = map_option Some (gl_unitPrice l)\<rparr>"

text \<open>Prisma refuses a unit price that is no integer before it queries.\<close>

definition orderLinesOf :: "mappedLine list \<Rightarrow> orderLineDto list option" where
  "orderLinesOf ls =
    (if \<exists>l \<in> set ls. ml_unitPrice l = None then None
     else Some (map (\<lambda>l. \<lparr>dl_skuId = ml_skuId l, dl_quantity = ml_quantity l, dl_unitPrice = ml_unitPrice l\<rparr>) ls))"

definition externalOrder :: "OrderChannel \<Rightarrow> string option \<Rightarrow> string option \<Rightarrow> orderLineDto list \<Rightarrow> createOrderDto" where
  "externalOrder channel externalRef customerRef lines =
    \<lparr>co_channel = channel, co_externalRef = externalRef, co_customerRef = customerRef, co_currency = None,
     co_shipToLatitude = None, co_shipToLongitude = None, co_shipToRegion = None, co_allowSplit = None,
     co_allowBackorder = None, co_reserveOnCreate = None, co_lines = lines\<rparr>"

definition createExternal :: "webhookEnv \<Rightarrow> ident \<Rightarrow> OrderChannel \<Rightarrow> string option \<Rightarrow> string option \<Rightarrow> mappedLine list \<Rightarrow>
    (syncState, orderDetails) op" where
  "createExternal env tenantId channel externalRef customerRef lines =
    bind (orThrow (orderLinesOf lines) (OtherError ''PrismaClientValidationError'')) (\<lambda>ls.
    inWorld (create_order (we_ttlSeconds env) (we_retryEnv env) tenantId (externalOrder channel externalRef customerRef ls)))"

section \<open>Shopify\<close>

definition ingestOrder :: "webhookEnv \<Rightarrow> channelRow \<Rightarrow> shopifyOrderPayload \<Rightarrow> OrderChannel \<Rightarrow> (syncState, webhookBody) op" where
  "ingestOrder env channel payload orderChannel =
    bind (mapLines (ch_tenantId channel) (map shopifyRaw (case sop_lineItems payload of Some xs \<Rightarrow> xs | None \<Rightarrow> []))) (\<lambda>lines.
    if lines = [] then ret (Status ''skipped-no-known-skus'')
    else bind (createExternal env (ch_tenantId channel) orderChannel (Some (sop_id payload)) (sop_customerId payload) lines) (\<lambda>_.
         ret (Status ''order-created'')))"

definition cancelByExternalRef :: "webhookEnv \<Rightarrow> channelRow \<Rightarrow> string \<Rightarrow> (syncState, webhookBody) op" where
  "cancelByExternalRef env channel externalRef =
    bind (gets (\<lambda>s. find (\<lambda>ord. o_tenantId ord = ch_tenantId channel \<and> o_externalRef ord = Some externalRef) (orders (sy_world s)))) (\<lambda>found.
    case found of
      None \<Rightarrow> ret (Status ''cancel-no-such-order'')
    | Some ord \<Rightarrow>
        if o_status ord = OrderStatus.CANCELLED \<or> o_status ord = OrderStatus.RETURNED then ret (Status ''already-terminal'')
        else bind (inWorld (cancel (we_gateway env) (ch_tenantId channel) (o_id ord) (Some ''shopify cancellation''))) (\<lambda>_.
             ret (Status ''order-cancelled'')))"

definition routeShopify :: "webhookEnv \<Rightarrow> string \<Rightarrow> channelRow \<Rightarrow> shopifyOrderPayload \<Rightarrow> (syncState, webhookBody) op" where
  "routeShopify env topic channel payload =
    (if topic = ''orders/create'' then ingestOrder env channel payload WEB
     else if topic = ''orders/cancelled'' then cancelByExternalRef env channel (sop_id payload)
     else ret (Status (''ignored-'' @ topic)))"

definition handleShopify :: "webhookEnv \<Rightarrow> string \<Rightarrow> webhookHeaders \<Rightarrow> ((syncState, webhookBody) idemState, webhookBody) op" where
  "handleShopify env rawBody headers =
    (let secret = (case we_apiSecret env of Some x \<Rightarrow> x | None \<Rightarrow> []) in
     andThen (throwIf (\<not> verifyWebhookHmac (we_hmac env) rawBody (wh_hmac headers) secret) (Unauthorized ''Invalid webhook HMAC''))
     (let topic = (case wh_topic headers of Some x \<Rightarrow> x | None \<Rightarrow> []);
          shop = (case wh_shop headers of Some x \<Rightarrow> x | None \<Rightarrow> []);
          webhookId = (case wh_webhookId headers of Some x \<Rightarrow> x | None \<Rightarrow> []) in
      bind (elsewhere (gets (\<lambda>s. find (\<lambda>c. ch_externalRef c = Some shop \<and> ch_type c = SHOPIFY) (salesChannels s)))) (\<lambda>found.
      case found of
        None \<Rightarrow> ret (Status ''ignored-unknown-shop'')
      | Some channel \<Rightarrow>
          bind (orThrow (we_parseShopify env rawBody) (OtherError ''SyntaxError'')) (\<lambda>payload.
          bind (runIdempotent (we_normalise env) (we_others env) (ch_tenantId channel) (''webhook.shopify.'' @ topic)
                 (if webhookId = [] then None else Some webhookId) (we_requestHash env rawBody)
                 (routeShopify env topic channel payload)) (\<lambda>result.
          ret (ir_body result))))))"

section \<open>Other marketplaces\<close>

definition handleGeneric :: "webhookEnv \<Rightarrow> ident \<Rightarrow> string \<Rightarrow> string option \<Rightarrow> ((syncState, webhookBody) idemState, webhookBody) op" where
  "handleGeneric env channelId rawBody signature =
    bind (elsewhere (gets (\<lambda>s. find (\<lambda>c. ch_id c = channelId) (salesChannels s)))) (\<lambda>found.
    bind (orThrow found (BadRequest ''Unknown channel'')) (\<lambda>channel.
    bind (orThrow (configText (ch_config channel) ''webhookSecret'') (BadRequest ''Channel has no webhookSecret'')) (\<lambda>storedSecret.
    bind (elsewhere (decryptOp (we_sync env) storedSecret)) (\<lambda>secret.
    andThen (throwIf (\<not> verifyGenericHmac (we_hmac env) rawBody signature secret) (Unauthorized ''Invalid signature''))
    (bind (orThrow (we_parseGeneric env rawBody) (OtherError ''SyntaxError'')) (\<lambda>payload.
    bind (elsewhere (mapLines (ch_tenantId channel) (map genericRaw (case gop_lines payload of Some xs \<Rightarrow> xs | None \<Rightarrow> [])))) (\<lambda>lines.
    if lines = [] then ret (Status ''skipped-no-known-skus'')
    else bind (runIdempotent (we_normalise env) (we_others env) (ch_tenantId channel) ''webhook.generic'' (gop_externalRef payload)
                 (we_requestHash env rawBody)
                 (bind (createExternal env (ch_tenantId channel) OrderChannel.MARKETPLACE (gop_externalRef payload) (gop_customerRef payload) lines)
                   (\<lambda>d. ret (OrderBody d)))) (\<lambda>_.
         ret (Status ''order-created'')))))))))"

section \<open>The order of a payload\<close>

definition payloadLines :: "ident \<Rightarrow> shopifyOrderPayload \<Rightarrow> world \<Rightarrow> mappedLine list" where
  "payloadLines t payload w =
    (let raws = map shopifyRaw (case sop_lineItems payload of Some xs \<Rightarrow> xs | None \<Rightarrow> [])
     in List.map_filter (mapLine (idByCode t raws w)) raws)"

definition payloadOrder :: "shopifyOrderPayload \<Rightarrow> orderLineDto list \<Rightarrow> createOrderDto" where
  "payloadOrder payload ls = externalOrder WEB (Some (sop_id payload)) (sop_customerId payload) ls"

lemma payloadLines_cong: "skus w' = skus w \<Longrightarrow> payloadLines t payload w' = payloadLines t payload w"
  by (simp add: payloadLines_def idByCode_def)

lemma map_filter_memE:
  assumes "y \<in> set (List.map_filter f xs)"
  obtains x where "x \<in> set xs" "f x = Some y"
  using assms by (auto simp: List.map_filter_def)

lemma payloadLines_positive: "l \<in> set (payloadLines t payload w) \<Longrightarrow> 0 < ml_quantity l"
  unfolding payloadLines_def Let_def by (erule map_filter_memE) (auto simp: mapLine_def split: option.splits if_splits)

lemma orderLinesOf_rows: "orderLinesOf ms = Some ls \<Longrightarrow> map dl_quantity ls = map ml_quantity ms \<and> map dl_skuId ls = map ml_skuId ms"
  by (auto simp: orderLinesOf_def split: if_splits)

lemma dtoOk_payload:
  assumes "orderLinesOf (payloadLines t payload w) = Some ls"
  shows "dtoOk (payloadOrder payload ls)"
proof -
  have "dl_quantity ` set ls = ml_quantity ` set (payloadLines t payload w)"
    using orderLinesOf_rows [OF assms] by (metis list.set_map)
  then have "\<forall>n \<in> dl_quantity ` set ls. 0 < n" using payloadLines_positive by auto
  then show ?thesis by (simp add: dtoOk_def payloadOrder_def externalOrder_def)
qed

lemma payloadOrder_sel [simp]:
  "co_reserveOnCreate (payloadOrder payload ls) = None" "co_externalRef (payloadOrder payload ls) = Some (sop_id payload)"
  "co_channel (payloadOrder payload ls) = WEB" "co_lines (payloadOrder payload ls) = ls"
  by (simp_all add: payloadOrder_def externalOrder_def)

text \<open>A second order of the same channel and reference is refused by the constraint.\<close>

lemma create_duplicate:
  "duplicateRef t dto w \<Longrightarrow> create_order ttl env t dto w = (Inl (PrismaKnown ''P2002'' None), w)"
  by (simp add: create_order_def createOrderTx_def op_defs freshId_def now_def duplicateRef_def)

lemma duplicate_captured: "co_externalRef dto \<noteq> None \<Longrightarrow> duplicateRef t dto (captured t dto w)"
  by (simp add: duplicateRef_def captured_def newOrder_def)

lemma ingest_run:
  assumes "payloadLines (ch_tenantId channel) payload (sy_world s) \<noteq> []"
    and "orderLinesOf (payloadLines (ch_tenantId channel) payload (sy_world s)) = Some ls"
  shows "ingestOrder env channel payload WEB s =
    (case create_order (we_ttlSeconds env) (we_retryEnv env) (ch_tenantId channel) (payloadOrder payload ls) (sy_world s) of
       (Inl e, w') \<Rightarrow> (Inl e, s\<lparr>sy_world := w'\<rparr>) | (Inr _, w') \<Rightarrow> (Inr (Status ''order-created''), s\<lparr>sy_world := w'\<rparr>))"
  using assms
  by (simp add: ingestOrder_def createExternal_def mapLines_def op_defs payloadLines_def payloadOrder_def zoom_def Let_def
      split: prod.split sum.split)

lemma ingest_captures:
  assumes "coreInv (sy_world s)" "payloadLines (ch_tenantId channel) payload (sy_world s) \<noteq> []"
    and "orderLinesOf (payloadLines (ch_tenantId channel) payload (sy_world s)) = Some ls"
    and "capturable (ch_tenantId channel) (payloadOrder payload ls) (sy_world s)"
  shows "ingestOrder env channel payload WEB s =
    (Inr (Status ''order-created''), s\<lparr>sy_world := captured (ch_tenantId channel) (payloadOrder payload ls) (sy_world s)\<rparr>)"
  using create_order_spec [where dto = "payloadOrder payload ls" and w = "sy_world s" and t = "ch_tenantId channel"
      and ttl = "we_ttlSeconds env" and env = "we_retryEnv env"] assms(1,4) dtoOk_payload [OF assms(3)]
  by (auto simp: ingest_run [OF assms(2,3)] split: prod.splits sum.splits)

section \<open>Deliveries\<close>

text \<open>A signed delivery of an order that can be captured, from a shop on record.\<close>

definition delivery :: "webhookEnv \<Rightarrow> string \<Rightarrow> webhookHeaders \<Rightarrow> syncState \<Rightarrow> channelRow \<Rightarrow> shopifyOrderPayload \<Rightarrow> bool" where
  "delivery env raw hdr s channel payload \<longleftrightarrow>
    (\<exists>secret shop. we_apiSecret env = Some secret \<and> verifyWebhookHmac (we_hmac env) raw (wh_hmac hdr) secret \<and>
      wh_shop hdr = Some shop \<and> find (\<lambda>c. ch_externalRef c = Some shop \<and> ch_type c = SHOPIFY) (salesChannels s) = Some channel) \<and>
    wh_topic hdr = Some ''orders/create'' \<and> we_parseShopify env raw = Some payload"

definition webhookKey :: "webhookHeaders \<Rightarrow> string option" where
  "webhookKey hdr = (if wh_webhookId hdr = Some [] then None else wh_webhookId hdr)"

abbreviation createScope :: string where
  "createScope \<equiv> ''webhook.shopify.orders/create''"

lemma delivery_run:
  assumes "delivery env raw hdr s channel payload"
  shows "handleShopify env raw hdr (rows, s) =
    bind (runIdempotent (we_normalise env) (we_others env) (ch_tenantId channel) createScope (webhookKey hdr)
      (we_requestHash env raw) (ingestOrder env channel payload WEB)) (\<lambda>result. ret (ir_body result)) (rows, s)"
proof -
  obtain secret shop where d: "we_apiSecret env = Some secret" "verifyWebhookHmac (we_hmac env) raw (wh_hmac hdr) secret"
      "wh_shop hdr = Some shop" "find (\<lambda>c. ch_externalRef c = Some shop \<and> ch_type c = SHOPIFY) (salesChannels s) = Some channel"
    and topic: "wh_topic hdr = Some ''orders/create''" and payload: "we_parseShopify env raw = Some payload"
    using assms by (auto simp: delivery_def)
  have key: "(if (case wh_webhookId hdr of Some x \<Rightarrow> x | None \<Rightarrow> []) = [] then None else Some (case wh_webhookId hdr of Some x \<Rightarrow> x | None \<Rightarrow> [])) =
      webhookKey hdr"
    by (auto simp: webhookKey_def split: option.split)
  have found: "elsewhere (gets (\<lambda>s. find (\<lambda>c. ch_externalRef c = Some shop \<and> ch_type c = SHOPIFY) (salesChannels s))) (rows, s) =
      (Inr (Some channel), (rows, s))"
    using d(4) by (simp add: elsewhere_run gets_def)
  have route: "routeShopify env ''orders/create'' channel payload = ingestOrder env channel payload WEB" by (simp add: routeShopify_def)
  have signed: "throwIf (\<not> verifyWebhookHmac (we_hmac env) raw (wh_hmac hdr) secret) e (rows, s) = (Inr (), (rows, s))" for e
    using d(2) by (simp add: throwIf_def ret_def)
  show ?thesis
    unfolding handleShopify_def Let_def d(1,3) topic payload option.case key
    by (simp add: andThen_def bind_def signed found orThrow_def ret_def route)
qed

text \<open>
  Property C15.  An order that a shop sends is captured once, however often the webhook arrives.  The first delivery
  captures the payload's order: its known SKUs with a positive quantity, in the payload's order.  The
  same delivery again is answered from the stored response and changes nothing; the order sent again
  under another webhook id, or none, is refused by the unique reference and changes nothing.
\<close>

theorem webhook_order_once:
  assumes "coreInv (sy_world s)" "delivery env raw hdr s channel payload" "we_others env = (\<lambda>st. st)"
    and "payloadLines (ch_tenantId channel) payload (sy_world s) \<noteq> []"
    and "orderLinesOf (payloadLines (ch_tenantId channel) payload (sy_world s)) = Some ls"
    and "capturable (ch_tenantId channel) (payloadOrder payload ls) (sy_world s)"
    and "webhookKey hdr = Some k" "findKey (ch_tenantId channel) createScope k rows = None"
  shows "\<exists>st. handleShopify env raw hdr (rows, s) = (Inr (Status ''order-created''), st) \<and>
    sy_world (snd st) = captured (ch_tenantId channel) (payloadOrder payload ls) (sy_world s) \<and> coreInv (sy_world (snd st)) \<and>
    handleShopify env raw hdr st = (Inr (we_normalise env (Status ''order-created'')), st) \<and>
    (\<forall>hdr'. delivery env raw hdr' s channel payload \<longrightarrow>
      (webhookKey hdr' = None \<or> findKey (ch_tenantId channel) createScope (the (webhookKey hdr')) (fst st) = None) \<longrightarrow>
      handleShopify env raw hdr' st = (Inl (PrismaKnown ''P2002'' None), st))"
proof -
  let ?t = "ch_tenantId channel" and ?dto = "payloadOrder payload ls" and ?h = "we_requestHash env raw" and ?b = "Status ''order-created''"
  let ?s = "s\<lparr>sy_world := captured ?t ?dto (sy_world s)\<rparr>" and ?row = "storedRow (we_normalise env) ?t createScope k ?h (Status ''order-created'')"
  let ?fn = "ingestOrder env channel payload WEB"
  have k: "k \<noteq> []" using assms(7) by (auto simp: webhookKey_def split: if_splits)
  have ing: "?fn s = (Inr ?b, ?s)" by (rule ingest_captures [OF assms(1,4-6)])
  have first: "handleShopify env raw hdr (rows, s) = (Inr ?b, (rows @ [?row], ?s))"
    using run_fresh [where fn = ?fn and s = s and env = "\<lambda>st. st" and nf = "we_normalise env" and h = ?h, OF k assms(8) ing refl] assms(8)
    by (simp add: delivery_run [OF assms(2)] assms(3,7) bind_def ret_def)
  have same: "delivery env raw h' ?s channel payload" if "delivery env raw h' s channel payload" for h'
    using that by (simp add: delivery_def)
  have found: "findKey ?t createScope k (rows @ [?row]) = Some ?row" by (simp add: findKey_append assms(8) storedRow_def)
  have again: "handleShopify env raw hdr (rows @ [?row], ?s) = (Inr (we_normalise env ?b), (rows @ [?row], ?s))"
    using run_found [OF k found, of "we_normalise env" "\<lambda>st. st" ?h ?fn ?s]
    by (simp add: delivery_run [OF same [OF assms(2)]] assms(3,7) bind_def ret_def)
  have ls: "payloadLines ?t payload (sy_world ?s) = payloadLines ?t payload (sy_world s)"
    by (rule payloadLines_cong) (simp add: captured_def)
  note ls' = ls [simplified]
  have dup: "?fn ?s = (Inl (PrismaKnown ''P2002'' None), ?s)"
    by (subst ingest_run [where ls = ls]) (simp_all add: ls' assms(4,5) create_duplicate duplicate_captured)
  have refused: "handleShopify env raw hdr' (rows @ [?row], ?s) = (Inl (PrismaKnown ''P2002'' None), (rows @ [?row], ?s))"
    if d: "delivery env raw hdr' s channel payload"
      and n: "webhookKey hdr' = None \<or> findKey ?t createScope (the (webhookKey hdr')) (rows @ [?row]) = None" for hdr'
  proof (cases "webhookKey hdr'")
    case None
    then show ?thesis using dup by (simp add: delivery_run [OF same [OF d]] runIdempotent_def bind_def elsewhere_run)
  next
    case (Some k')
    moreover from this have "k' \<noteq> []" by (auto simp: webhookKey_def split: if_splits)
    ultimately show ?thesis
      using dup n by (simp add: delivery_run [OF same [OF d]] runIdempotent_def bind_def elsewhere_run gets_def)
  qed
  have "coreInv (captured ?t ?dto (sy_world s))" by (rule coreInv_captured [OF assms(1) dtoOk_payload [OF assms(5)]])
  then show ?thesis using first again refused by (intro exI [of _ "(rows @ [?row], ?s)"]) simp
qed

text \<open>What is not signed changes nothing.\<close>

lemma unsigned_webhook:
  assumes "\<not> verifyWebhookHmac (we_hmac env) raw (wh_hmac hdr) (case we_apiSecret env of Some x \<Rightarrow> x | None \<Rightarrow> [])"
  shows "handleShopify env raw hdr st = (Inl (Unauthorized ''Invalid webhook HMAC''), st)"
  using assms by (simp add: handleShopify_def Let_def op_defs)

lemma shopify_needs_secret: "we_apiSecret env \<in> {None, Some []} \<Longrightarrow> handleShopify env raw hdr st = (Inl (Unauthorized ''Invalid webhook HMAC''), st)"
  by (rule unsigned_webhook) (auto simp: verifyWebhookHmac_iff)

text \<open>
  A marketplace order without an external reference has no key: each delivery of the body creates one
  more order, the constraint does not see it either.
\<close>

lemma keyless_runs: "runIdempotent nf env t sc None h fn (rows, s) =
    (case fn s of (Inl e, s') \<Rightarrow> (Inl e, (rows, s')) | (Inr b, s') \<Rightarrow> (Inr \<lparr>ir_body = b, ir_replayed = False\<rparr>, (rows, s')))"
  by (simp add: runIdempotent_def bind_def elsewhere_run ret_def split: prod.split sum.split)

lemma unreferenced_never_duplicate: "co_externalRef dto = None \<Longrightarrow> capturable t dto w \<Longrightarrow> capturable t dto (captured t dto w)"
  by (auto simp: capturable_def duplicateRef_def captured_def)

text \<open>
  A cancellation from a shop looks its order up by reference among all orders of the tenant: the order of
  another channel that happens to carry the same reference is cancelled.
\<close>

lemma cancels_other_channel:
  assumes "find (\<lambda>ord. o_tenantId ord = ch_tenantId channel \<and> o_externalRef ord = Some ref) (orders (sy_world s)) = Some ord"
    and "o_channel ord \<noteq> WEB" "o_status ord \<notin> {OrderStatus.CANCELLED, OrderStatus.RETURNED}"
  shows "cancelByExternalRef env channel ref s =
    bind (inWorld (cancel (we_gateway env) (ch_tenantId channel) (o_id ord) (Some ''shopify cancellation''))) (\<lambda>_. ret (Status ''order-cancelled'')) s"
  using assms by (simp add: cancelByExternalRef_def op_defs)

section \<open>Witness\<close>

definition demoPayload :: shopifyOrderPayload where
  "demoPayload = \<lparr>sop_id = ''4711'', sop_customerId = None,
     sop_lineItems = Some [\<lparr>li_sku = Some ''A-1'', li_quantity = Some 2, li_price = None\<rparr>,
       \<lparr>li_sku = Some ''unknown'', li_quantity = Some 1, li_price = None\<rparr>]\<rparr>"

definition demoHeaders :: webhookHeaders where
  "demoHeaders = \<lparr>wh_hmac = Some (base64Encode ''x''), wh_topic = Some ''orders/create'', wh_shop = Some ''a.myshopify.com'',
     wh_webhookId = Some ''w1''\<rparr>"

definition demoHooks :: webhookEnv where
  "demoHooks = \<lparr>we_sync = demoEnv, we_hmac = (\<lambda>k m. ''x''), we_apiSecret = Some ''s'', we_parseShopify = (\<lambda>_. Some demoPayload),
     we_parseGeneric = (\<lambda>_. None), we_requestHash = (\<lambda>_. ''h''), we_normalise = (\<lambda>b. b), we_others = (\<lambda>st. st),
     we_ttlSeconds = 900, we_retryEnv = (\<lambda>_ w. w), we_gateway = selectProvider demoGateway demoApi\<rparr>"

definition demoShopRow :: channelRow where
  "demoShopRow = \<lparr>ch_id = 60, ch_tenantId = 7, ch_type = SHOPIFY, ch_name = ''shop'', ch_active = True,
     ch_externalRef = Some ''a.myshopify.com'', ch_config = None\<rparr>"

lemma webhook_order_once_witness:
  "\<forall>s. \<exists>st. handleShopify demoHooks ''{}'' demoHeaders ([], s\<lparr>sy_world := demoBook, salesChannels := [demoShopRow]\<rparr>) = (Inr (Status ''order-created''), st) \<and>
    length (orders (sy_world (snd st))) = 2 \<and> handleShopify demoHooks ''{}'' demoHeaders st = (Inr (Status ''order-created''), st)"
proof
  fix s :: syncState
  let ?s = "s\<lparr>sy_world := demoBook, salesChannels := [demoShopRow]\<rparr>"
  let ?ls = "[\<lparr>dl_skuId = 2, dl_quantity = 2, dl_unitPrice = Some 0\<rparr>]"
  have d: "delivery demoHooks ''{}'' demoHeaders ?s demoShopRow demoPayload"
    by (simp add: delivery_def demoHooks_def demoHeaders_def demoShopRow_def verifyWebhookHmac_iff)
  have w: "skus demoBook = [\<lparr>sk_id = 2, sk_tenantId = 7, sk_code = ''A-1'', sk_name = ''A'', sk_active = True\<rparr>]"
    "tenants demoBook = [\<lparr>tn_id = 7, tn_slug = ''acme''\<rparr>]" "orders demoBook = [demoOrder]"
    by (simp_all add: demoBook_def demoReserving_def demoWorld_def)
  have lines: "payloadLines 7 demoPayload demoBook = [\<lparr>ml_skuId = 2, ml_quantity = 2, ml_unitPrice = Some 0\<rparr>]"
    by (simp add: payloadLines_def demoPayload_def shopifyRaw_def idByCode_def mapLine_def w List.map_filter_simps)
  have t: "ch_tenantId demoShopRow = 7" by (simp add: demoShopRow_def)
  have c: "capturable 7 (payloadOrder demoPayload ?ls) demoBook"
    by (simp add: capturable_def duplicateRef_def w demoOrder_def demoPayload_def)
  have "\<exists>st. handleShopify demoHooks ''{}'' demoHeaders ([], ?s) = (Inr (Status ''order-created''), st) \<and>
      sy_world (snd st) = captured 7 (payloadOrder demoPayload ?ls) demoBook \<and>
      handleShopify demoHooks ''{}'' demoHeaders st = (Inr (we_normalise demoHooks (Status ''order-created'')), st)"
    using webhook_order_once [OF _ d, where ls = ?ls and k = "''w1''" and rows = "[]"]
    by (simp add: demoBook_core t lines c orderLinesOf_def findKey_def) (simp add: demoHooks_def webhookKey_def demoHeaders_def, blast)
  then obtain st where "handleShopify demoHooks ''{}'' demoHeaders ([], ?s) = (Inr (Status ''order-created''), st)"
    "sy_world (snd st) = captured 7 (payloadOrder demoPayload ?ls) demoBook"
    "handleShopify demoHooks ''{}'' demoHeaders st = (Inr (we_normalise demoHooks (Status ''order-created'')), st)" by blast
  then show "\<exists>st. handleShopify demoHooks ''{}'' demoHeaders ([], ?s) = (Inr (Status ''order-created''), st) \<and>
      length (orders (sy_world (snd st))) = 2 \<and> handleShopify demoHooks ''{}'' demoHeaders st = (Inr (Status ''order-created''), st)"
    by (intro exI [of _ st]) (simp add: captured_def w, simp add: demoHooks_def)
qed

end
