(* ===== verification/Integrity.thy ===== *)
theory Integrity
  imports Returns Inbound Reconciliation Catalog
begin

text \<open>
  What every service operation does to the rows of the database, said once.  The locale
  \<open>row_keeping\<close> asks of a condition that it survives each kind of write (a row changed in fields that
  identify nothing, a row appended with an owner that exists); its lemmas say that the condition then
  survives every operation.  It is interpreted for the references between rows (\<open>linksOk\<close>) and for the
  records that are only ever appended to (\<open>extends\<close>).
\<close>

lemma create_return_draws: "keeps (\<lambda>w. n \<le> nextId w) (create_return t dto)"
proof -
  have "keeps (\<lambda>w. n \<le> nextId w) freshId" "keeps (\<lambda>w. n \<le> nextId w) now" by (simp_all add: keeps_def wp)
  then show ?thesis
    unfolding create_return_def checkReturnLine_def upperRef_def createReturnTx_def createReturnLine_def by (intro keepsI) simp_all
qed

section \<open>The interface\<close>

text \<open>\<open>K\<close> holds pairs of an order and its tenant that are known to exist.\<close>

locale row_keeping =
  fixes I :: "(ident \<times> ident) set \<Rightarrow> world \<Rightarrow> bool"
  assumes weaken: "I K w \<Longrightarrow> K' \<subseteq> K \<Longrightarrow> I K' w"
    and learn: "I K w \<Longrightarrow> ord \<in> set (orders w) \<Longrightarrow> I (insert (o_id ord, o_tenantId ord) K) w"
    and ids: "I K w \<Longrightarrow> nextId w \<le> n \<Longrightarrow> I K (w\<lparr>nextId := n\<rparr>)"
    and stock: "I K w \<Longrightarrow> I K (w\<lparr>snapshots := ss\<rparr>)"
    and entry: "I K w \<Longrightarrow> I K (w\<lparr>ledger := ledger w @ [lg]\<rparr>)"
    and outside: "I K w \<Longrightarrow> I K (w\<lparr>cache := c\<rparr>)" "I K w \<Longrightarrow> I K (w\<lparr>outbox := ob\<rparr>)" "I K w \<Longrightarrow> I K (w\<lparr>nextSeq := sq\<rparr>)"
      "I K w \<Longrightarrow> I K (w\<lparr>published := ev\<rparr>)" "I K w \<Longrightarrow> I K (w\<lparr>jobs := js\<rparr>)" "I K w \<Longrightarrow> I K (w\<lparr>clock := ts\<rparr>)"
      "I K w \<Longrightarrow> I K (w\<lparr>gatewayLog := gs\<rparr>)" "I K w \<Longrightarrow> I K (w\<lparr>skus := ks\<rparr>)" "I K w \<Longrightarrow> I K (w\<lparr>locations := los\<rparr>)"
      "I K w \<Longrightarrow> I K (w\<lparr>sourcingRules := rs\<rparr>)" "I K w \<Longrightarrow> I K (w\<lparr>inbounds := ibs\<rparr>)"
    and order_event: "I K w \<Longrightarrow> I K (w\<lparr>orderEvents := orderEvents w @ [e]\<rparr>)"
    and order_change: "I K w \<Longrightarrow> (\<And>x. o_id (fo x) = o_id x) \<Longrightarrow> (\<And>x. o_tenantId (fo x) = o_tenantId x) \<Longrightarrow>
      I K (w\<lparr>orders := mapWhere po fo (orders w)\<rparr>)"
    and hold_change: "I K w \<Longrightarrow> (\<And>x. rv_orderId (fr x) = rv_orderId x) \<Longrightarrow> (\<And>x. rv_tenantId (fr x) = rv_tenantId x) \<Longrightarrow>
      I K (w\<lparr>reservations := mapWhere pr fr (reservations w)\<rparr>)"
    and allocation_change: "I K w \<Longrightarrow> (\<And>x. al_shipmentId (fa x) = al_shipmentId x) \<Longrightarrow> (\<And>x. al_orderId (fa x) = al_orderId x) \<Longrightarrow>
      (\<And>x. al_tenantId (fa x) = al_tenantId x) \<Longrightarrow> I K (w\<lparr>allocations := mapWhere pa fa (allocations w)\<rparr>)"
    and shipment_change: "I K w \<Longrightarrow> (\<And>x. sh_id (fs x) = sh_id x) \<Longrightarrow> (\<And>x. sh_orderId (fs x) = sh_orderId x) \<Longrightarrow>
      (\<And>x. sh_tenantId (fs x) = sh_tenantId x) \<Longrightarrow> I K (w\<lparr>shipments := mapWhere ps fs (shipments w)\<rparr>)"
    and return_change: "I K w \<Longrightarrow> (\<And>x. rt_id (ft x) = rt_id x) \<Longrightarrow> (\<And>x. rt_orderId (ft x) = rt_orderId x) \<Longrightarrow>
      (\<And>x. rt_tenantId (ft x) = rt_tenantId x) \<Longrightarrow> I K (w\<lparr>returnRows := mapWhere pt ft (returnRows w)\<rparr>)"
    and order_new: "I K w \<Longrightarrow> I K (captured t dto w)"
    and hold_new: "I K w \<Longrightarrow> (i, t) \<in> K \<Longrightarrow> rv_orderId r = Some i \<Longrightarrow> rv_tenantId r = t \<Longrightarrow>
      I K (w\<lparr>reservations := reservations w @ [r]\<rparr>)"
    and allocation_new: "I K w \<Longrightarrow> (i, t) \<in> K \<Longrightarrow> al_orderId a = i \<Longrightarrow> al_tenantId a = t \<Longrightarrow> al_shipmentId a = None \<Longrightarrow>
      I K (w\<lparr>allocations := allocations w @ [a]\<rparr>)"
    and shipment_new: "I K w \<Longrightarrow> (o_id ord, t) \<in> K \<Longrightarrow> n = nextId w \<Longrightarrow>
      I K (w\<lparr>nextId := Suc n, shipments := shipments w @ [newShipment t ord lo n ts],
        allocations := mapWhere (\<lambda>a. al_orderId a = o_id ord \<and> al_locationId a = l \<and> al_shipmentId a = None)
          (al_shipmentId_update (\<lambda>_. Some n)) (allocations w)\<rparr>)"
    and return_new: "I K w \<Longrightarrow> raisable t dto' w \<Longrightarrow> I K (raised t dto' w)"
begin

section \<open>Stock\<close>

lemma freshId: "keeps (I K) freshId"
  by (rule keeps_intro) (simp add: wp ids)

lemma setNextId: "I K w \<Longrightarrow> I K (w\<lparr>nextId := Suc (nextId w)\<rparr>)"
  by (simp add: ids)

lemma ensureSnapshot: "keeps (I K) (ensureSnapshot t s l)"
  unfolding ensureSnapshot_def by (intro keepsI freshId keeps_modify stock)

lemma appendLedger: "keeps (I K) (appendLedger p)"
  unfolding appendLedger_def by (intro keepsI freshId keeps_modify entry)

lemma validateMovement: "keeps J (validateMovement r p)"
  unfolding validateMovement_def by (intro keepsI)

lemma applyWithin: "keeps (I K) (applyWithin p)"
  unfolding applyWithin_def applyLocked_def Let_def
  by (intro keepsI ensureSnapshot appendLedger validateMovement stock)

lemma invalidate: "keeps (I K) (invalidate t s)"
  unfolding invalidate_def by (intro keepsI freshId keeps_modify outside) (auto intro: outside)

lemma applyMovement: "keeps (I K) (applyMovement p)"
  unfolding applyMovement_def by (intro keepsI applyWithin invalidate)

lemma transfer: "keeps (I K) (transfer t s a b n r)"
  unfolding transfer_def by (intro keepsI applyWithin invalidate)

lemma setSafetyStock: "keeps (I K) (setSafetyStock t s l n)"
  unfolding setSafetyStock_def by (intro keepsI freshId keeps_modify stock invalidate)

lemma create_inbound: "keeps (I K) (create_inbound t s l n d rf)"
  unfolding create_inbound_def Let_def by (intro keepsI freshId keeps_now applyWithin invalidate outside)

lemma receive_inbound: "keeps (I K) (receive_inbound t i q)"
  unfolding receive_inbound_def Let_def by (intro keepsI applyWithin invalidate outside)

lemma reconcileTenant: "keeps (I K) (reconcileTenant t rep)"
  unfolding reconcileTenant_def run_def checkRow_def repairRow_def Let_def
  by (intro keepsI keeps_modify stock outside)

lemma network: "keeps (I K) (network d t s)"
  unfolding network_def cached_def by (intro keepsI keeps_modify outside)

lemmas stock_ops = applyWithin invalidate applyMovement transfer setSafetyStock create_inbound receive_inbound
  reconcileTenant network

section \<open>Holds\<close>

lemma holdChange: "keeps (I K) (updateRow reservations reservations_update p (rv_status_update (\<lambda>_. st)))"
  by (rule keeps_intro) (auto simp: wp intro: hold_change split: option.split)

lemma release: "keeps (I K) (release i st)"
  unfolding release_def releaseTx_def by (intro keepsI applyWithin invalidate holdChange)

lemma releaseForOrder: "keeps (I K) (releaseForOrder i)"
  unfolding releaseForOrder_def by (intro keepsI release)

lemma sweepExpired: "keeps (I K) (sweepExpired ts)"
  unfolding sweepExpired_def by (intro keepsI release)

lemma holdLeg: "(o_id ord, o_tenantId ord) \<in> K \<Longrightarrow> keeps (I K) (holdLeg ord line e leg)"
proof -
  assume K: "(o_id ord, o_tenantId ord) \<in> K"
  have row: "keeps (I K) (createRow reservations reservations_update (holdRow ord line leg e i))" for i
    by (rule keeps_intro) (auto simp: wp holdRow_def intro: hold_new [OF _ K])
  then show ?thesis unfolding holdLeg_def by (intro keeps_andThen keeps_bind keeps_ret applyWithin freshId row)
qed

lemma reserveLine: "(o_id ord, o_tenantId ord) \<in> K \<Longrightarrow> keeps (I K) (reserveLine ttl ord line)"
  unfolding reserveLine_def by (intro keepsI keeps_now holdLeg)

lemma scheduleExpiry: "keeps (I K) (scheduleExpiry r)"
  unfolding scheduleExpiry_def by (intro keepsI keeps_now keeps_modify) (auto intro: outside)

text \<open>An operation that starts by reading an order knows that it exists.\<close>

lemma withOrder:
  assumes "\<And>ord. keeps (I (insert (o_id ord, o_tenantId ord) K)) (m ord)" and found: "\<And>w ord. g w = Some ord \<Longrightarrow> ord \<in> set (orders w)"
  shows "keeps (I K) (bind (gets g) (\<lambda>found. bind (orThrow found e) m))"
proof (rule keeps_intro)
  fix w assume w: "I K w"
  show "wp (bind (gets g) (\<lambda>found. bind (orThrow found e) m)) (\<lambda>_. I K) (\<lambda>_. I K) w"
  proof (cases "g w")
    case (Some ord)
    have "wp (m ord) (\<lambda>_. I (insert (o_id ord, o_tenantId ord) K)) (\<lambda>_. I (insert (o_id ord, o_tenantId ord) K)) w"
      by (rule keeps_wp [OF assms(1) learn [OF w found [OF Some]]])
    then show ?thesis by (simp add: wp Some) (erule wp_mono, (rule weaken, assumption, blast)+)
  qed (simp add: wp w)
qed

lemma found_order: "findOrder i w = Some ord \<Longrightarrow> ord \<in> set (orders w)"
  by (auto simp: findOrder_def dest: find_SomeD)

lemma found_tenantOrder: "findTenantOrder t i w = Some ord \<Longrightarrow> ord \<in> set (orders w)"
  by (auto simp: findTenantOrder_def dest: find_SomeD)

lemma reserveForOrder:
  assumes "\<And>K n w. I K w \<Longrightarrow> I K (env n w)"
  shows "keeps (I K) (reserveForOrder ttl env i)"
proof -
  have "keeps (I J) (retryOnConflict defaultAttempts env (transaction (collect ls (reserveLine ttl ord))))"
    if "(o_id ord, o_tenantId ord) \<in> J" for J ls ord
    by (rule keeps_retryOnConflict) (use that assms in \<open>auto intro!: keepsI reserveLine simp: defaultAttempts_def\<close>)
  then show ?thesis
    unfolding reserveForOrder_def
    by (intro withOrder [OF _ found_order] keepsI invalidate scheduleExpiry) auto
qed

section \<open>Orders\<close>

lemma orderChange:
  assumes "\<And>x. o_id (f x) = o_id x" "\<And>x. o_tenantId (f x) = o_tenantId x"
  shows "keeps (I K) (updateRow orders orders_update p f)"
  by (rule keeps_intro) (auto simp: wp intro: order_change assms split: option.split)

lemma recordEvent: "keeps (I K) (recordEvent i a b n)"
  by (rule keeps_intro) (simp add: recordEvent_def wp order_event)

lemma publish: "keeps (I K) (publish ev)"
  unfolding publish_def by (intro keeps_modify outside)

lemma transition: "keeps (I K) (transition t i to n)"
  unfolding transition_def transitionTx_def assertTransition_def
  by (intro keeps_bind keeps_transaction keeps_andThen keeps_gets keeps_orThrow keeps_throwIf keeps_ret orderChange recordEvent publish)
    simp_all

lemma get_order: "keeps J (get_order t i)"
  by (rule keeps_get_order)

lemma create_order:
  assumes "\<And>K n w. I K w \<Longrightarrow> I K (env n w)"
  shows "keeps (I K) (create_order ttl env t dto)"
proof -
  have "keeps (I K) (transaction (createOrderTx t dto))"
    by (rule keeps_intro, unfold wp_transaction, rule wp_mono [OF wp_createOrderTx]) (auto intro: order_new)
  then show ?thesis unfolding create_order_def by (intro keeps_bind keeps_andThen keeps_if keeps_ret get_order reserveForOrder assms)
qed

lemma gateway: "gatewayOnly m \<Longrightarrow> keeps (I K) m"
  by (erule keeps_gatewayOnly) (auto dest: ids outside(7))

lemma setPaymentStatus: "keeps (I K) (setPaymentStatus i st)"
  unfolding setPaymentStatus_def by (intro keeps_andThen keeps_ret orderChange) simp_all

lemma reversePayment: "payment_gateway gw \<Longrightarrow> keeps (I K) (reversePayment gw ord)"
  unfolding reversePayment_def
  by (intro keeps_case_option keeps_if keeps_bind keeps_gets keeps_orThrow keeps_ret setPaymentStatus gateway)
    (auto intro: payment_gateway.refundPayment_only payment_gateway.void_only)

lemma allocationChange: "keeps (I K) (updateRow allocations allocations_update p (al_status_update f))"
  "keeps (I K) (updateMany allocations allocations_update p (al_status_update f))"
  by (rule keeps_intro; auto simp: wp intro: allocation_change split: option.split)+

lemma cancelAllocation: "keeps (I K) (cancelAllocation t a)"
  unfolding cancelAllocation_def
  by (intro keeps_andThen keeps_transaction applyWithin allocationChange invalidate)

lemma cancelShipments: "keeps (I K) (cancelShipments i)"
  by (rule keeps_intro) (auto simp: cancelShipments_def wp intro: shipment_change)

lemma cancel: "payment_gateway gw \<Longrightarrow> keeps (I K) (cancel gw t i n)"
  unfolding cancel_def
  by (intro keeps_bind keeps_andThen keeps_gets keeps_orThrow keeps_ret keeps_forEach releaseForOrder cancelAllocation cancelShipments
      transition reversePayment)

lemma recordOutcome: "keeps (I K) (recordOutcome i out)"
  unfolding recordOutcome_def by (intro keeps_andThen keeps_ret orderChange) simp_all

lemma validate_order: "payment_gateway gw \<Longrightarrow> keeps (I K) (validate_order cfg gw t i)"
  unfolding validate_order_def
  by (intro keeps_bind keeps_andThen keeps_gets keeps_orThrow keeps_ret keeps_throw keeps_if keeps_case_option recordOutcome transition cancel
      gateway payment_gateway.evaluate_only)

section \<open>Sourcing\<close>

lemma consumeHold: "keeps (I K) (consumeHold ord r)"
  unfolding consumeHold_def by (intro keeps_andThen keeps_ret applyWithin holdChange)

lemma createAllocation: "(o_id ord, t) \<in> K \<Longrightarrow> keeps (I K) (createAllocation t ord line leg)"
proof -
  assume K: "(o_id ord, t) \<in> K"
  have row: "keeps (I K) (createRow allocations allocations_update (allocationRow t ord line leg i))" for i
    by (rule keeps_intro) (auto simp: wp allocationRow_def intro: allocation_new [OF _ K])
  then show ?thesis unfolding createAllocation_def by (intro keeps_bind keeps_andThen keeps_ret freshId row)
qed

lemma sourceLine: "(o_id ord, t) \<in> K \<Longrightarrow> keeps (I K) (sourceLine st t ord line)"
  unfolding sourceLine_def Let_def by (intro keepsI applyWithin createAllocation)

lemma shipmentFor: "(o_id ord, t) \<in> K \<Longrightarrow> keeps (I K) (shipmentFor t ord l)"
proof (rule keeps_intro)
  fix w assume "(o_id ord, t) \<in> K" "I K w"
  from shipment_new [OF this(2,1) refl]
  show "wp (shipmentFor t ord l) (\<lambda>_. I K) (\<lambda>_. I K) w"
    using \<open>I K w\<close> by (simp add: shipmentFor_def wp newShipment_def split: option.split)
qed

lemma sourceTx: "(o_id ord, t) \<in> K \<Longrightarrow> keeps (I K) (sourceTx st t ord ls)"
  unfolding sourceTx_def releaseOwnReservations_def Let_def
  by (intro keeps_bind keeps_andThen keeps_ret keeps_gets keeps_forEach keeps_collect consumeHold sourceLine shipmentFor orderChange recordEvent)
    simp_all

lemma source_order:
  assumes "\<And>K n w. I K w \<Longrightarrow> I K (env n w)"
  shows "keeps (I K) (source_order env t i)"
proof (rule keeps_intro)
  fix w assume w: "I K w"
  have commit: "keeps (I J) (sourceCommit env st t ord ls)" if "(o_id ord, t) \<in> J" for J st ord ls
    unfolding sourceCommit_def
    by (intro keeps_bind keeps_andThen keeps_ret keeps_forEach invalidate keeps_retryOnConflict keeps_transaction sourceTx that assms)
      (auto simp: defaultAttempts_def)
  show "wp (source_order env t i) (\<lambda>_. I K) (\<lambda>_. I K) w"
  proof (cases "findTenantOrder t i w")
    case (Some ord)
    note o = findTenantOrderD [OF Some]
    let ?J = "insert (o_id ord, o_tenantId ord) K"
    have "wp (sourceCommit env (resolveStrategy ord w) t ord (linesOf i w)) (\<lambda>_. I ?J) (\<lambda>_. I ?J) w"
      by (rule keeps_wp [OF commit learn [OF w o(1)]]) (simp add: o)
    from wp_mono [OF this, of "\<lambda>_. I K" "\<lambda>_. I K"] show ?thesis
      using w weaken by (auto simp: source_order_def wp Some)
  qed (simp add: source_order_def wp w)
qed

lemma create_rule: "keeps (I K) (create_rule t nm st rdto)"
  unfolding create_rule_def by (intro keepsI freshId outside)

lemma update_rule: "keeps (I K) (update_rule t i rdto)"
  unfolding update_rule_def by (intro keepsI outside)

section \<open>Fulfillment\<close>

lemma upperRef: "keeps (I K) (upperRef pre n)"
  unfolding upperRef_def by (intro keepsI freshId)

lemma shipmentChange:
  assumes "\<And>x. sh_id (f x) = sh_id x" "\<And>x. sh_orderId (f x) = sh_orderId x" "\<And>x. sh_tenantId (f x) = sh_tenantId x"
  shows "keeps (I K) (updateShipment i f)"
  by (rule keeps_intro) (auto simp: updateShipment_def wp intro!: shipment_change assms split: option.split)

lemma wmsDispatch: "keeps (I K) (wmsDispatch cfg sh ls)"
proof -
  have "keeps (I K) (wp_dispatch mockWms sh ls)" "keeps (I K) (wp_dispatch shipBobWms sh ls)"
    unfolding mockWms_def shipBobWms_def wmsProvider.select_convs by (intro keepsI upperRef)+
  moreover have "providerFor cfg \<in> {mockWms, shipBobWms}"
    by (auto simp: providerFor_def wmsRegistry_def split: option.split if_splits)
  ultimately show ?thesis unfolding wmsDispatch_def by auto
qed

lemma captureOrderPayment: "payment_gateway gw \<Longrightarrow> keeps (I K) (captureOrderPayment gw i)"
  unfolding captureOrderPayment_def capturePayment_def
  by (intro keeps_case_option keeps_if keeps_bind keeps_gets keeps_ret setPaymentStatus gateway payment_gateway.capture_only)

lemma rollupOrder: "payment_gateway gw \<Longrightarrow> keeps (I K) (rollupOrder gw t i)"
  unfolding rollupOrder_def Let_def
  by (intro keeps_case_option keeps_if keeps_bind keeps_andThen keeps_gets keeps_orThrow keeps_ret keeps_forEach transition captureOrderPayment)

lemma requireShipment: "keeps J (requireShipment t i)"
  unfolding requireShipment_def by (intro keepsI)

lemma depleteTx:
  assumes "\<And>x. sh_id (f x) = sh_id x" "\<And>x. sh_orderId (f x) = sh_orderId x" "\<And>x. sh_tenantId (f x) = sh_tenantId x"
  shows "keeps (I K) (depleteTx t i as f)"
  unfolding depleteTx_def by (intro keeps_andThen keeps_forEach keeps_ret applyWithin allocationChange shipmentChange assms)

lemmas fulfilment_steps = keeps_bind keeps_andThen keeps_gets keeps_orThrow keeps_throwIf keeps_ret keeps_transaction keeps_forEach
  requireShipment depleteTx shipmentChange allocationChange upperRef invalidate rollupOrder wmsDispatch

lemma dispatch: "keeps (I K) (dispatch cfg t i)"
  unfolding dispatch_def by (intro fulfilment_steps) simp_all

lemma pick: "payment_gateway gw \<Longrightarrow> keeps (I K) (pick gw t i)"
  unfolding pick_def by (intro fulfilment_steps) simp_all

lemma markReadyForPickup: "payment_gateway gw \<Longrightarrow> keeps (I K) (markReadyForPickup gw t i)"
  unfolding markReadyForPickup_def by (intro fulfilment_steps) simp_all

lemma pickUp: "payment_gateway gw \<Longrightarrow> keeps (I K) (pickUp gw t i)"
  unfolding pickUp_def by (intro fulfilment_steps) simp_all

lemma ship: "payment_gateway gw \<Longrightarrow> keeps (I K) (ship gw t i c)"
  unfolding ship_def by (intro fulfilment_steps) simp_all

lemma deliver: "payment_gateway gw \<Longrightarrow> keeps (I K) (deliver gw t i)"
  unfolding deliver_def by (intro fulfilment_steps) simp_all

section \<open>Returns and the catalog\<close>

lemma create_return: "keeps (I K) (create_return t dto')"
proof (rule keeps_intro)
  fix w assume w: "I K w"
  have "wp (create_return t dto') (\<lambda>_ w'. nextId w \<le> nextId w') (\<lambda>_ w'. nextId w \<le> nextId w') w"
    by (rule keeps_wp [OF create_return_draws]) simp
  from wp_conj [OF wp_create_return this] show "wp (create_return t dto') (\<lambda>_. I K) (\<lambda>_. I K) w"
    by (rule wp_mono) (auto intro: return_new ids w)
qed

lemma restockLine: "keeps (I K) (restockLine t i fb l)"
  unfolding restockLine_def by (intro keepsI applyWithin)

lemma returnChange: "keeps (I K) (updateRow returnRows returnRows_update p (rt_status_update st))"
  by (rule keeps_intro) (auto simp: wp intro: return_change split: option.split)

lemma maybeMarkOrderReturned: "keeps (I K) (maybeMarkOrderReturned t i)"
  unfolding maybeMarkOrderReturned_def by (intro keepsI transition)

lemma refundReturn: "payment_gateway gw \<Longrightarrow> keeps (I K) (refundReturn gw t r ls)"
  unfolding refundReturn_def
  by (intro keeps_case_option keeps_if keeps_bind keeps_gets keeps_ret setPaymentStatus gateway payment_gateway.refundPayment_only)

lemma receive_return: "payment_gateway gw \<Longrightarrow> keeps (I K) (receive_return gw t i)"
  unfolding receive_return_def
  by (intro keeps_bind keeps_andThen keeps_gets keeps_orThrow keeps_throwIf keeps_ret keeps_transaction keeps_forEach
      restockLine returnChange invalidate maybeMarkOrderReturned refundReturn)

lemma serve: "keeps (I K) (serve r)"
  unfolding serve_def createSku_def insertSku_def updateSku_def requireSku_def createLocation_def insertLocation_def updateLocation_def
    requireLocation_def
  by (cases r; simp only: catalogRequest.case; intro keepsI freshId outside)

end

section \<open>References between rows\<close>

text \<open>
  Shipments and returns refer to orders of their tenant (\<open>shipInv\<close>, \<open>retInv\<close>), and so do holds and
  allocations; identifiers of orders are distinct and below the counter.
\<close>

definition linksOk :: "(ident \<times> ident) set \<Rightarrow> world \<Rightarrow> bool" where
  "linksOk K w \<longleftrightarrow> shipInv w \<and> retInv w \<and> K \<subseteq> set (orderIds w) \<and>
    distinct (map fst (orderIds w)) \<and> (\<forall>p \<in> set (orderIds w). fst p < nextId w) \<and>
    (\<forall>r \<in> set (reservations w). \<forall>i. rv_orderId r = Some i \<longrightarrow> (i, rv_tenantId r) \<in> set (orderIds w)) \<and>
    (\<forall>a \<in> set (allocations w). (al_orderId a, al_tenantId a) \<in> set (orderIds w) \<and>
      (\<forall>s. al_shipmentId a = Some s \<longrightarrow> s < nextId w))"

lemma linksOk_frame:
  assumes "linksOk K w" "orders w' = orders w" "reservations w' = reservations w" "allocations w' = allocations w"
    "shipments w' = shipments w" "returnRows w' = returnRows w" "returnLines w' = returnLines w" "nextId w \<le> nextId w'"
  shows "linksOk K w'"
proof -
  have o: "orderIds w' = orderIds w" unfolding orderIds_def assms(2) ..
  have "shipInv w'" by (rule shipInv_cong [of w]) (use assms(1) in \<open>simp_all add: linksOk_def o assms(2-8)\<close>)
  moreover have "retInv w'" by (rule retInv_cong [of w]) (use assms(1) in \<open>simp_all add: linksOk_def o assms(2-8)\<close>)
  moreover have "x < nextId w'" if "x < nextId w" for x using that assms(8) by simp
  ultimately show ?thesis using assms(1) unfolding linksOk_def o assms(3,4) by metis
qed

text \<open>Rows changed in columns that identify nothing.\<close>

lemma linksOk_change:
  assumes w: "linksOk K w" and n: "nextId w' = nextId w" and os: "orderIds w' = orderIds w"
    and rv: "map (\<lambda>r. (rv_orderId r, rv_tenantId r)) (reservations w') = map (\<lambda>r. (rv_orderId r, rv_tenantId r)) (reservations w)"
    and al: "map (\<lambda>a. (al_shipmentId a, al_orderId a, al_tenantId a)) (allocations w') =
      map (\<lambda>a. (al_shipmentId a, al_orderId a, al_tenantId a)) (allocations w)"
    and sh: "map (\<lambda>s. (sh_id s, sh_orderId s, sh_tenantId s)) (shipments w') = map (\<lambda>s. (sh_id s, sh_orderId s, sh_tenantId s)) (shipments w)"
    and rt: "map (\<lambda>r. (rt_id r, rt_orderId r, rt_tenantId r)) (returnRows w') = map (\<lambda>r. (rt_id r, rt_orderId r, rt_tenantId r)) (returnRows w)"
    and rl: "returnLines w' = returnLines w"
  shows "linksOk K w'"
proof -
  have "shipInv w'" by (rule shipInv_cong [of w]) (use w in \<open>simp_all add: linksOk_def n os sh al\<close>)
  moreover have "retInv w'" by (rule retInv_cong [of w]) (use w in \<open>simp_all add: linksOk_def n os rt rl\<close>)
  moreover have "\<forall>r \<in> set (reservations w'). \<forall>i. rv_orderId r = Some i \<longrightarrow> (i, rv_tenantId r) \<in> set (orderIds w)"
  proof -
    have "(\<lambda>r. (rv_orderId r, rv_tenantId r)) ` set (reservations w') = (\<lambda>r. (rv_orderId r, rv_tenantId r)) ` set (reservations w)"
      using arg_cong [OF rv, of set] by simp
    moreover have "\<forall>p \<in> (\<lambda>r. (rv_orderId r, rv_tenantId r)) ` set (reservations w). \<forall>i. fst p = Some i \<longrightarrow> (i, snd p) \<in> set (orderIds w)"
      using w by (auto simp: linksOk_def)
    ultimately have "\<forall>p \<in> (\<lambda>r. (rv_orderId r, rv_tenantId r)) ` set (reservations w'). \<forall>i. fst p = Some i \<longrightarrow> (i, snd p) \<in> set (orderIds w)"
      by simp
    then show ?thesis by auto
  qed
  moreover have "\<forall>a \<in> set (allocations w'). (al_orderId a, al_tenantId a) \<in> set (orderIds w) \<and> (\<forall>s. al_shipmentId a = Some s \<longrightarrow> s < nextId w)"
  proof -
    have "(\<lambda>a. (al_shipmentId a, al_orderId a, al_tenantId a)) ` set (allocations w') =
        (\<lambda>a. (al_shipmentId a, al_orderId a, al_tenantId a)) ` set (allocations w)"
      using arg_cong [OF al, of set] by simp
    moreover have "\<forall>p \<in> (\<lambda>a. (al_shipmentId a, al_orderId a, al_tenantId a)) ` set (allocations w).
        snd p \<in> set (orderIds w) \<and> (\<forall>s. fst p = Some s \<longrightarrow> s < nextId w)"
      using w by (auto simp: linksOk_def)
    ultimately have "\<forall>p \<in> (\<lambda>a. (al_shipmentId a, al_orderId a, al_tenantId a)) ` set (allocations w').
        snd p \<in> set (orderIds w) \<and> (\<forall>s. fst p = Some s \<longrightarrow> s < nextId w)"
      by simp
    then show ?thesis by auto
  qed
  ultimately show ?thesis using w by (simp add: linksOk_def n os)
qed

lemma linksOk_captured: "linksOk K w \<Longrightarrow> linksOk K (captured t dto w)"
proof -
  assume w: "linksOk K w"
  let ?w = "captured t dto w"
  have o: "orderIds ?w = orderIds w @ [(nextId w, t)]" by (simp add: orderIds_def captured_def newOrder_def)
  have same: "reservations ?w = reservations w" "allocations ?w = allocations w" "shipments ?w = shipments w"
    "returnRows ?w = returnRows w" "returnLines ?w = returnLines w" and n: "nextId w < nextId ?w"
    by (simp_all add: captured_def)
  have "nextId w \<notin> fst ` set (orderIds w)" using w by (force simp: linksOk_def)
  then show ?thesis
    using w n unfolding linksOk_def shipInv_def retInv_def o same
    by (auto intro: less_trans less_imp_le dest: less_trans)
qed

lemma linksOk_shipment:
  assumes w: "linksOk K w" and K: "(o_id ord, t) \<in> K"
  shows "linksOk K (w\<lparr>nextId := Suc (nextId w), shipments := shipments w @ [newShipment t ord lo (nextId w) ts],
    allocations := mapWhere (\<lambda>a. al_orderId a = o_id ord \<and> al_locationId a = l \<and> al_shipmentId a = None)
      (al_shipmentId_update (\<lambda>_. Some (nextId w))) (allocations w)\<rparr>)" (is "linksOk K ?w")
proof -
  let ?n = "nextId w" and ?p = "\<lambda>a. al_orderId a = o_id ord \<and> al_locationId a = l \<and> al_shipmentId a = None"
  have o: "orderIds ?w = orderIds w" by (simp add: orderIds_def)
  have own: "(o_id ord, t) \<in> set (orderIds w)" using w K by (auto simp: linksOk_def)
  have one: "u = t" if "(o_id ord, u) \<in> set (orderIds w)" for u
    using that own w eq_key_imp_eq_value [of "orderIds w"] by (auto simp: linksOk_def)
  have fresh: "sh_id s < ?n" if "s \<in> set (shipments w)" for s using that w by (simp add: linksOk_def shipInv_def)
  have al: "(al_orderId a, al_tenantId a) \<in> set (orderIds w)" "\<And>s. al_shipmentId a = Some s \<Longrightarrow> s < ?n" if "a \<in> set (allocations w)" for a
    using that w by (auto simp: linksOk_def)
  have sh: "al_orderId a = sh_orderId s \<and> al_tenantId a = sh_tenantId s"
    if "a \<in> set (allocations w)" "s \<in> set (shipments w)" "al_shipmentId a = Some (sh_id s)" for a s
    using that w by (simp add: linksOk_def shipInv_def)
  have match: "al_orderId a = sh_orderId s \<and> al_tenantId a = sh_tenantId s"
    if a: "a \<in> set (allocations ?w)" and s: "s \<in> set (shipments ?w)" and eq: "al_shipmentId a = Some (sh_id s)" for a s
  proof -
    from a have "a \<in> set (mapWhere ?p (al_shipmentId_update (\<lambda>_. Some ?n)) (allocations w))" by simp
    then show ?thesis
    proof (cases rule: mapWhereE)
      case (updated q)
      then have "sh_id s = ?n" using eq by simp
      then have "s = newShipment t ord lo ?n ts" using s fresh [of s] by auto
      then show ?thesis using updated al(1) [OF updated(1)] one [of "al_tenantId q"] by (simp add: newShipment_def)
    next
      case kept
      then have "sh_id s < ?n" using al(2) eq by blast
      then have "s \<in> set (shipments w)" using s by (auto simp: newShipment_def)
      then show ?thesis using sh kept(1) eq by blast
    qed
  qed
  have "shipInv ?w"
    unfolding shipInv_def o
  proof (intro conjI ballI impI)
    have "?n \<notin> sh_id ` set (shipments w)" using fresh by fastforce
    then show "distinct (map sh_id (shipments ?w))" using w by (simp add: linksOk_def shipInv_def newShipment_def)
  next
    fix s assume "s \<in> set (shipments ?w)"
    then show "sh_id s < nextId ?w" "(sh_orderId s, sh_tenantId s) \<in> set (orderIds w)"
      using fresh [of s] w own by (auto simp: linksOk_def shipInv_def newShipment_def)
  qed (use match in blast)+
  moreover have "retInv ?w"
    by (rule retInv_cong [of w]) (use w in \<open>simp_all add: linksOk_def o\<close>)
  moreover have "\<forall>a \<in> set (allocations ?w). (al_orderId a, al_tenantId a) \<in> set (orderIds w) \<and> (\<forall>s. al_shipmentId a = Some s \<longrightarrow> s < nextId ?w)"
  proof
    fix a assume "a \<in> set (allocations ?w)"
    then have "a \<in> set (mapWhere ?p (al_shipmentId_update (\<lambda>_. Some ?n)) (allocations w))" by simp
    then show "(al_orderId a, al_tenantId a) \<in> set (orderIds w) \<and> (\<forall>s. al_shipmentId a = Some s \<longrightarrow> s < nextId ?w)"
    proof (cases rule: mapWhereE)
      case (updated q)
      then show ?thesis using al(1) [OF updated(1)] by simp
    next
      case kept
      then show ?thesis using al(1) [OF kept(1)] al(2) [OF kept(1)] by (simp add: less_SucI)
    qed
  qed
  ultimately show ?thesis using w by (auto simp: linksOk_def o intro: less_SucI)
qed

lemma linksOk_raised:
  assumes w: "linksOk K w" and can: "raisable t dto w"
  shows "linksOk K (raised t dto w)"
proof -
  let ?w = "raised t dto w"
  obtain ord where ord: "findTenantOrder t (tr_orderId dto) w = Some ord" using can by (auto simp: raisable_def)
  have mem: "(tr_orderId dto, t) \<in> set (orderIds w)" using findTenantOrderD [OF ord] by (force simp: orderIds_def)
  have o: "orderIds ?w = orderIds w" and n: "nextId w \<le> nextId ?w" by (simp_all add: raised_def Let_def orderIds_def)
  have same: "reservations ?w = reservations w" "allocations ?w = allocations w" "shipments ?w = shipments w"
    by (simp_all add: raised_def Let_def)
  have "shipInv ?w" by (rule shipInv_cong [of w]) (use w n in \<open>simp_all add: linksOk_def o same\<close>)
  moreover have "retInv ?w"
  proof -
    have rows: "\<forall>r \<in> set (returnRows w). rt_id r < nextId w \<and> (rt_orderId r, rt_tenantId r) \<in> set (orderIds w)"
      "distinct (map rt_id (returnRows w))" "\<forall>l \<in> set (returnLines w). 0 < rl_quantity l \<and> rl_returnId l < nextId w"
      using w by (simp_all add: linksOk_def retInv_def)
    have "list_all (returnLineOk (linesOf (tr_orderId dto) w)) (tr_lines dto)" using can by (simp add: raisable_def)
    from rows raisedLines_ok [OF this] mem show ?thesis by (auto simp: retInv_def raised_def Let_def newReturn_def orderIds_def)
  qed
  moreover have "x < nextId ?w" if "x < nextId w" for x using that n by simp
  ultimately show ?thesis using w unfolding linksOk_def o same by metis
qed

interpretation links: row_keeping linksOk
proof (unfold_locales, goal_cases)
  case (2 K w ord)
  then show ?case by (force simp: linksOk_def orderIds_def)
next
  case (1 K w K')
  then show ?case by (auto simp: linksOk_def)
next
  case (18 K w fo po)
  then show ?case by (intro linksOk_change [OF 18(1)]) (simp_all add: orderIds_def map_mapWhere_frame)
next
  case (19 K w fr pr)
  then show ?case by (intro linksOk_change [OF 19(1)]) (simp_all add: orderIds_def map_mapWhere_frame)
next
  case (20 K w fa pa)
  then show ?case by (intro linksOk_change [OF 20(1)]) (simp_all add: orderIds_def map_mapWhere_frame)
next
  case (21 K w fs ps)
  then show ?case by (intro linksOk_change [OF 21(1)]) (simp_all add: orderIds_def map_mapWhere_frame)
next
  case (22 K w ft pt)
  then show ?case by (intro linksOk_change [OF 22(1)]) (simp_all add: orderIds_def map_mapWhere_frame)
next
  case (23 K w t dto)
  then show ?case by (rule linksOk_captured)
next
  case (26 K w ord t n lo ts l)
  then show ?case using linksOk_shipment [OF 26(1,2)] by simp
next
  case (27 K w t dto)
  then show ?case by (rule linksOk_raised)
next
  case (24 K w i t r)
  then have "(i, t) \<in> set (orderIds w)" by (auto simp: linksOk_def)
  moreover have "shipInv (w\<lparr>reservations := reservations w @ [r]\<rparr>)" "retInv (w\<lparr>reservations := reservations w @ [r]\<rparr>)"
    using 24(1) by (simp_all add: linksOk_def shipInv_def retInv_def orderIds_def)
  ultimately show ?case using 24 by (auto simp: linksOk_def orderIds_def)
next
  case (25 K w i t a)
  then have "(i, t) \<in> set (orderIds w)" by (auto simp: linksOk_def)
  moreover have "shipInv (w\<lparr>allocations := allocations w @ [a]\<rparr>)" "retInv (w\<lparr>allocations := allocations w @ [a]\<rparr>)"
    using 25(1,5) by (auto simp: linksOk_def shipInv_def retInv_def orderIds_def)
  ultimately show ?case using 25 by (auto simp: linksOk_def orderIds_def)
qed (rule linksOk_frame, assumption, simp_all)+

end
