(* ===== verification/Insight.thy ===== *)
theory Insight
  imports Atp Validation Catalog
begin

text \<open>
  backend/src/admin/reporting.service.ts and backend/src/ai/demand-forecast.service.ts: the operational
  reports and the demand forecast.  Numbers the code computes in doubles are rationals here; a number
  that is \<open>NaN\<close> is None.
\<close>

section \<open>Reports\<close>

text \<open>\<open>groupBy\<close> with a count: one row per value that occurs.\<close>

definition groupCount :: "('a \<Rightarrow> 'k) \<Rightarrow> 'a list \<Rightarrow> ('k \<times> nat) list" where
  "groupCount key xs = map (\<lambda>k. (k, length (filter (\<lambda>x. key x = k) xs))) (uniq (map key xs))"

definition toCountMap :: "('k \<times> nat) list \<Rightarrow> 'k \<rightharpoonup> nat" where
  "toCountMap rows = fold (\<lambda>(k, n) out. out(k \<mapsto> n)) rows Map.empty"

record orderReport =
  or_total :: nat
  or_byStatus :: "OrderStatus \<rightharpoonup> nat"
  or_byChannel :: "OrderChannel \<rightharpoonup> nat"

definition report_orders :: "ident \<Rightarrow> world \<Rightarrow> orderReport" where
  "report_orders tenantId w =
    (let rows = filter (\<lambda>ord. o_tenantId ord = tenantId) (orders w)
     in \<lparr>or_total = length rows, or_byStatus = toCountMap (groupCount o_status rows),
         or_byChannel = toCountMap (groupCount o_channel rows)\<rparr>)"

record lowStockRow =
  ls_sku :: string
  ls_location :: string
  ls_available :: int

record stockTotal =
  tt_onHand :: int
  tt_reserved :: int
  tt_allocated :: int
  tt_available :: int

record inventoryReport =
  vr_totals :: stockTotal
  vr_threshold :: "rat option"
  vr_lowStockCount :: nat
  vr_lowStock :: "lowStockRow list"

text \<open>The foreign keys of a snapshot; both rows exist.\<close>

definition skuCode :: "world \<Rightarrow> ident \<Rightarrow> string" where
  "skuCode w i = (case find (\<lambda>k. sk_id k = i) (skus w) of Some k \<Rightarrow> sk_code k | None \<Rightarrow> [])"

definition locationCodeOf :: "world \<Rightarrow> ident \<Rightarrow> string" where
  "locationCodeOf w i = (case find (\<lambda>l. lo_id l = i) (locations w) of Some l \<Rightarrow> lo_code l | None \<Rightarrow> [])"

definition shownAvailable :: "snapshotRow \<Rightarrow> int" where
  "shownAvailable s = max 0 (bk_onHand (sn_bal s) - bk_reserved (sn_bal s) - bk_allocated (sn_bal s) - sn_safetyStock s)"

definition addTotals :: "snapshotRow \<Rightarrow> stockTotal \<Rightarrow> stockTotal" where
  "addTotals s t = \<lparr>tt_onHand = tt_onHand t + bk_onHand (sn_bal s), tt_reserved = tt_reserved t + bk_reserved (sn_bal s),
     tt_allocated = tt_allocated t + bk_allocated (sn_bal s), tt_available = tt_available t + shownAvailable s\<rparr>"

definition isLow :: "rat option \<Rightarrow> snapshotRow \<Rightarrow> bool" where
  "isLow threshold s \<longleftrightarrow> (case threshold of Some q \<Rightarrow> of_int (shownAvailable s) \<le> q | None \<Rightarrow> False)"

definition lowRow :: "world \<Rightarrow> snapshotRow \<Rightarrow> lowStockRow" where
  "lowRow w s = \<lparr>ls_sku = skuCode w (sn_skuId s), ls_location = locationCodeOf w (sn_locationId s), ls_available = shownAvailable s\<rparr>"

definition report_inventory :: "ident \<Rightarrow> rat option \<Rightarrow> world \<Rightarrow> inventoryReport" where
  "report_inventory tenantId threshold w =
    (let snaps = filter (\<lambda>s. sn_tenantId s = tenantId) (snapshots w);
         totals = fold addTotals snaps \<lparr>tt_onHand = 0, tt_reserved = 0, tt_allocated = 0, tt_available = 0\<rparr>;
         lowStock = jsSort (\<lambda>a b. ls_available a - ls_available b) (map (lowRow w) (filter (isLow threshold) snaps))
     in \<lparr>vr_totals = totals, vr_threshold = threshold, vr_lowStockCount = length lowStock, vr_lowStock = lowStock\<rparr>)"

text \<open>\<open>Number(x.toFixed(d))\<close>: to the nearest, halves away from zero.\<close>

definition toFixed :: "nat \<Rightarrow> rat \<Rightarrow> rat" where
  "toFixed d x = (if x < 0 then - of_int (mathRound (- x * 10 ^ d)) else of_int (mathRound (x * 10 ^ d))) / 10 ^ d"

record fulfillmentReport =
  fr_byStatus :: "ShipmentStatus \<rightharpoonup> nat"
  fr_fulfilledCount :: nat
  fr_avgFulfillmentHours :: rat

definition hoursOf :: "shipment \<Rightarrow> rat" where
  "hoursOf s = of_int (sh_updatedAt s - sh_createdAt s) / 3600000"

definition report_fulfillment :: "ident \<Rightarrow> world \<Rightarrow> fulfillmentReport" where
  "report_fulfillment tenantId w =
    (let rows = filter (\<lambda>s. sh_tenantId s = tenantId) (shipments w);
         fulfilled = filter (\<lambda>s. sh_status s \<in> {ShipmentStatus.SHIPPED, ShipmentStatus.DELIVERED, ShipmentStatus.PICKED_UP}) rows
     in \<lparr>fr_byStatus = toCountMap (groupCount sh_status rows), fr_fulfilledCount = length fulfilled,
         fr_avgFulfillmentHours = (if fulfilled = [] then 0
           else toFixed 2 (sum_list (map hoursOf fulfilled) / of_nat (length fulfilled)))\<rparr>)"

record sourcingReport =
  gr_byFulfillmentType :: "FulfillmentType \<rightharpoonup> nat"
  gr_sourcedOrders :: nat
  gr_splitOrders :: nat
  gr_splitRate :: rat

definition report_sourcing :: "ident \<Rightarrow> world \<Rightarrow> sourcingReport" where
  "report_sourcing tenantId w =
    (let rows = filter (\<lambda>s. sh_tenantId s = tenantId) (shipments w);
         perOrder = groupCount sh_orderId rows;
         sourced = length perOrder;
         split = length (filter (\<lambda>(i, n). 1 < n) perOrder)
     in \<lparr>gr_byFulfillmentType = toCountMap (groupCount sh_fulfillmentType rows), gr_sourcedOrders = sourced,
         gr_splitOrders = split, gr_splitRate = (if sourced = 0 then 0 else toFixed 3 (of_nat split / of_nat sourced))\<rparr>)"

text \<open>The threshold of the request is the number its text reads as.\<close>

definition thresholdOf :: "(string \<Rightarrow> rat option) \<Rightarrow> string option \<Rightarrow> rat option" where
  "thresholdOf number t = (case t of None \<Rightarrow> Some 5 | Some s \<Rightarrow> if s = [] then Some 5 else number s)"

section \<open>The forecast\<close>

record forecast =
  fc_skuId :: ident
  fc_skuCode :: string
  fc_lookbackDays :: int
  fc_horizonDays :: "rat option"
  fc_totalShipped :: int
  fc_avgDailyDemand :: rat
  fc_available :: int
  fc_daysOfCover :: "rat option"
  fc_forecastDemand :: "int option"
  fc_reorderSuggested :: bool
  fc_suggestedReorderQty :: int

definition leadTimeDays :: int where
  "leadTimeDays = 7"

definition round2 :: "rat \<Rightarrow> rat" where
  "round2 n = of_int (mathRound (n * 100)) / 100"

definition shippedSince :: "ident \<Rightarrow> ident \<Rightarrow> int \<Rightarrow> world \<Rightarrow> int" where
  "shippedSince tenantId skuId since w = - sumWhere
    (\<lambda>l. lg_tenantId l = tenantId \<and> lg_skuId l = skuId \<and> lg_eventType l = SHIP \<and> since \<le> lg_createdAt l)
    (\<lambda>l. bk_onHand (lg_delta l)) (ledger w)"

text \<open>The figures from the units shipped and the units available.\<close>

definition forecastOf :: "sku \<Rightarrow> rat option \<Rightarrow> int \<Rightarrow> int \<Rightarrow> int \<Rightarrow> forecast" where
  "forecastOf k horizonDays lookbackDays totalShipped available =
    (let avg = round2 (of_int totalShipped / of_int lookbackDays);
         cover = (if 0 < avg then Some (round2 (of_int available / avg)) else None);
         reorder = (case cover of Some d \<Rightarrow> d < of_int leadTimeDays | None \<Rightarrow> False);
         target = \<lceil>avg * of_int leadTimeDays\<rceil>
     in \<lparr>fc_skuId = sk_id k, fc_skuCode = sk_code k, fc_lookbackDays = lookbackDays, fc_horizonDays = horizonDays,
         fc_totalShipped = totalShipped, fc_avgDailyDemand = avg, fc_available = available, fc_daysOfCover = cover,
         fc_forecastDemand = map_option (\<lambda>h. mathRound (avg * h)) horizonDays, fc_reorderSuggested = reorder,
         fc_suggestedReorderQty = (if reorder then max 0 (target - available) else 0)\<rparr>)"

definition forecast_compute :: "int \<Rightarrow> ident \<Rightarrow> sku \<Rightarrow> rat option \<Rightarrow> int \<Rightarrow> (world, forecast) op" where
  "forecast_compute atpDays tenantId k horizonDays lookbackDays =
    bind now (\<lambda>ts.
    bind (gets (shippedSince tenantId (sk_id k) (ts - lookbackDays * 24 * 60 * 60 * 1000))) (\<lambda>totalShipped.
    bind (network atpDays tenantId (sk_id k)) (\<lambda>view.
    ret (forecastOf k horizonDays lookbackDays totalShipped (av_available view)))))"

definition forecastBySkuId :: "int \<Rightarrow> ident \<Rightarrow> ident \<Rightarrow> rat option \<Rightarrow> int \<Rightarrow> (world, forecast) op" where
  "forecastBySkuId atpDays tenantId skuId horizonDays lookbackDays =
    bind (gets (\<lambda>w. find (\<lambda>k. sk_id k = skuId \<and> sk_tenantId k = tenantId) (skus w))) (\<lambda>found.
    bind (orThrow found (NotFound ''SKU not found'')) (\<lambda>k.
    forecast_compute atpDays tenantId k horizonDays lookbackDays))"

definition forecastBySkuCode :: "int \<Rightarrow> ident \<Rightarrow> string \<Rightarrow> rat option \<Rightarrow> int \<Rightarrow> (world, forecast) op" where
  "forecastBySkuCode atpDays tenantId code horizonDays lookbackDays =
    bind (gets (findSkuByCode tenantId code)) (\<lambda>found.
    bind (orThrow found (NotFound ''SKU not found'')) (\<lambda>k.
    forecast_compute atpDays tenantId k horizonDays lookbackDays))"

section \<open>Reads that write nothing but the cache\<close>

definition cacheOnly :: "world \<Rightarrow> world \<Rightarrow> bool" where
  "cacheOnly w w' \<longleftrightarrow> (\<exists>c. w' = w\<lparr>cache := c\<rparr>)"

lemma cacheOnly_refl [simp]: "cacheOnly w w"
  unfolding cacheOnly_def by (rule exI [of _ "cache w"]) simp

lemma cacheOnly_cache: "cacheOnly w v \<Longrightarrow> cacheOnly w (v\<lparr>cache := c\<rparr>)"
  by (auto simp: cacheOnly_def)

lemma keeps_cached: "keeps (cacheOnly w) (cached key f)"
  unfolding cached_def by (intro keepsI keeps_modify cacheOnly_cache)

section \<open>Lemmas\<close>

lemma round2_near: "\<bar>round2 x - x\<bar> \<le> 1 / 200"
proof -
  have eq: "round2 x - x = (of_int (mathRound (x * 100)) - x * 100) / 100" by (simp add: round2_def field_simps)
  show ?thesis using mathRound_bounds [of "x * 100"] unfolding eq abs_divide by simp
qed

text \<open>Cover counts as short below 6.995 days: it is rounded before it is compared.\<close>

lemma cover_short:
  assumes "0 < avg"
  shows "round2 (of_int n / avg) < 7 \<longleftrightarrow> of_int n < 6995 / 1000 * avg"
proof -
  have "round2 (of_int n / avg) < 7 \<longleftrightarrow> mathRound (of_int n / avg * 100) < 700" by (simp add: round2_def)
  also have "\<dots> \<longleftrightarrow> of_int n / avg * 100 + 1 / 2 < 700" by (simp add: mathRound_def floor_less_iff)
  also have "\<dots> \<longleftrightarrow> of_int n < 6995 / 1000 * avg" using assms by (simp add: field_simps)
  finally show ?thesis .
qed

lemma forecastOf_bounds:
  assumes "forecastOf k h days sold n = f"
  shows "\<bar>fc_avgDailyDemand f - of_int sold / of_int days\<bar> \<le> 1 / 200"
    and "fc_reorderSuggested f \<longleftrightarrow> 0 < fc_avgDailyDemand f \<and> of_int n < 6995 / 1000 * fc_avgDailyDemand f"
    and "fc_reorderSuggested f \<Longrightarrow> 1 \<le> fc_suggestedReorderQty f \<and>
      7 * fc_avgDailyDemand f \<le> of_int (n + fc_suggestedReorderQty f) \<and> of_int (n + fc_suggestedReorderQty f) < 7 * fc_avgDailyDemand f + 1"
    and "\<not> fc_reorderSuggested f \<Longrightarrow> fc_suggestedReorderQty f = 0"
    and "h = Some q \<Longrightarrow> \<exists>d. fc_forecastDemand f = Some d \<and> \<bar>of_int d - fc_avgDailyDemand f * q\<bar> \<le> 1 / 2"
proof -
  note f = assms [symmetric, unfolded forecastOf_def Let_def]
  show "\<bar>fc_avgDailyDemand f - of_int sold / of_int days\<bar> \<le> 1 / 200"
    using round2_near by (simp add: f)
  show short: "fc_reorderSuggested f \<longleftrightarrow> 0 < fc_avgDailyDemand f \<and> of_int n < 6995 / 1000 * fc_avgDailyDemand f"
    using cover_short [of "fc_avgDailyDemand f" n] by (auto simp: f leadTimeDays_def)
  show "1 \<le> fc_suggestedReorderQty f \<and> 7 * fc_avgDailyDemand f \<le> of_int (n + fc_suggestedReorderQty f) \<and>
      of_int (n + fc_suggestedReorderQty f) < 7 * fc_avgDailyDemand f + 1" if r: "fc_reorderSuggested f"
  proof -
    let ?t = "\<lceil>fc_avgDailyDemand f * 7\<rceil>"
    have t: "fc_avgDailyDemand f * 7 \<le> of_int ?t" "of_int ?t < fc_avgDailyDemand f * 7 + 1" by linarith+
    have "of_int n < (of_int ?t :: rat)" using short r t(1) by linarith
    then have "n < ?t" by simp
    moreover have "fc_suggestedReorderQty f = max 0 (?t - n)" using r by (simp add: f leadTimeDays_def split: if_splits)
    ultimately show ?thesis using t by (simp add: mult.commute)
  qed
  show "fc_suggestedReorderQty f = 0" if "\<not> fc_reorderSuggested f" using that by (simp add: f split: if_splits)
  show "\<exists>d. fc_forecastDemand f = Some d \<and> \<bar>of_int d - fc_avgDailyDemand f * q\<bar> \<le> 1 / 2" if "h = Some q"
    using that mathRound_bounds [of "fc_avgDailyDemand f * q"] by (simp add: f)
qed

text \<open>The counts of a report add up.\<close>

lemma toCountMap_groupCount:
  fixes key :: "'a \<Rightarrow> 'k"
  shows "toCountMap (groupCount key xs) k = (if k \<in> key ` set xs then Some (length (filter (\<lambda>x. key x = k) xs)) else None)"
proof -
  have "fold (\<lambda>(k, n) out. out(k \<mapsto> n)) (map (\<lambda>k. (k, c k)) ks) m k = (if k \<in> set ks then Some (c k) else m k)"
    for ks m and c :: "'k \<Rightarrow> nat"
    by (induction ks arbitrary: m) auto
  then show ?thesis by (simp add: toCountMap_def groupCount_def)
qed

lemma groupCount_sum: "sum_list (map snd (groupCount key xs)) = length xs"
proof -
  have "(\<Sum>k\<in>key ` set xs. length (filter (\<lambda>x. key x = k) xs)) = length xs"
  proof (induction xs)
    case (Cons a xs)
    have split: "length (filter (\<lambda>x. key x = k) (a # xs)) = (if key a = k then 1 else 0) + length (filter (\<lambda>x. key x = k) xs)" for k
      by simp
    have "(\<Sum>k\<in>insert (key a) (key ` set xs). length (filter (\<lambda>x. key x = k) xs)) = (\<Sum>k\<in>key ` set xs. length (filter (\<lambda>x. key x = k) xs))"
      by (rule sum.mono_neutral_right) (auto simp: filter_empty_conv)
    then show ?case unfolding split list.set image_insert by (simp add: sum.distrib Cons.IH del: filter.simps)
  qed simp
  then show ?thesis by (simp add: groupCount_def comp_def sum_list_distinct_conv_sum_set)
qed

interpretation scarcity: js_comparator "\<lambda>a b. ls_available a - ls_available b"
  by (rule js_comparator_diff)

lemma report_low_stock:
  "sorted_wrt (\<lambda>a b. ls_available a \<le> ls_available b) (vr_lowStock (report_inventory t (Some q) w))"
  "mset (vr_lowStock (report_inventory t (Some q) w)) =
    mset (map (lowRow w) (filter (\<lambda>s. sn_tenantId s = t \<and> of_int (shownAvailable s) \<le> q) (snapshots w)))"
proof -
  show "sorted_wrt (\<lambda>a b. ls_available a \<le> ls_available b) (vr_lowStock (report_inventory t (Some q) w))"
    using scarcity.sorted_jsSort [of "map (lowRow w) (filter (isLow (Some q)) (filter (\<lambda>s. sn_tenantId s = t) (snapshots w)))"]
    by (simp add: report_inventory_def Let_def)
  show "mset (vr_lowStock (report_inventory t (Some q) w)) =
    mset (map (lowRow w) (filter (\<lambda>s. sn_tenantId s = t \<and> of_int (shownAvailable s) \<le> q) (snapshots w)))"
    by (simp add: report_inventory_def Let_def isLow_def [abs_def] conj_commute)
qed

lemma keeps_forecastBySkuCode: "keeps (cacheOnly w) (forecastBySkuCode d t code h days)"
  unfolding forecastBySkuCode_def forecast_compute_def network_def by (intro keepsI keeps_cached keeps_now)

lemma keeps_forecastBySkuId: "keeps (cacheOnly w) (forecastBySkuId d t i h days)"
  unfolding forecastBySkuId_def forecast_compute_def network_def by (intro keepsI keeps_cached keeps_now)

lemma wp_forecast:
  "wp (forecastBySkuId d t i h days) (\<lambda>f w'. (\<exists>k v. find (\<lambda>k. sk_id k = i \<and> sk_tenantId k = t) (skus w) = Some k \<and>
      f = forecastOf k h days (shippedSince t i (clock w - days * 24 * 60 * 60 * 1000) w) v \<and> cacheOnly w w'))
    (\<lambda>_ w'. w' = w) w"
proof (cases "find (\<lambda>k. sk_id k = i \<and> sk_tenantId k = t) (skus w)")
  case (Some k)
  then have "sk_id k = i" by (auto dest: find_SomeD)
  then show ?thesis
    using Some by (auto simp: forecastBySkuId_def forecast_compute_def network_def cached_def wp cacheOnly_cache split: option.split)
qed (simp add: forecastBySkuId_def wp)

section \<open>Properties\<close>

text \<open>
  Property C34.  The figures of a forecast keep to the journal: the daily demand is the shipped units of the
  period per day up to half a cent of a unit, a reorder is suggested exactly when the units available
  last less than 6.995 days of that demand, the suggested quantity is then the least that lifts the
  stock to seven days of it, and the expected demand is rounded by at most half a unit.
\<close>

theorem forecast_bounds:
  assumes "forecastBySkuId d t i (Some q) days w = (Inr f, w')"
  shows "fc_totalShipped f = shippedSince t i (clock w - days * 24 * 60 * 60 * 1000) w \<and>
    \<bar>fc_avgDailyDemand f - of_int (fc_totalShipped f) / of_int days\<bar> \<le> 1 / 200 \<and>
    (fc_reorderSuggested f \<longleftrightarrow> 0 < fc_avgDailyDemand f \<and> of_int (fc_available f) < 6995 / 1000 * fc_avgDailyDemand f) \<and>
    (if fc_reorderSuggested f
     then 1 \<le> fc_suggestedReorderQty f \<and> 7 * fc_avgDailyDemand f \<le> of_int (fc_available f + fc_suggestedReorderQty f) \<and>
       of_int (fc_available f + fc_suggestedReorderQty f) < 7 * fc_avgDailyDemand f + 1
     else fc_suggestedReorderQty f = 0) \<and>
    (\<exists>n. fc_forecastDemand f = Some n \<and> \<bar>of_int n - fc_avgDailyDemand f * q\<bar> \<le> 1 / 2)"
proof -
  obtain k v where f: "forecastOf k (Some q) days (shippedSince t i (clock w - days * 24 * 60 * 60 * 1000) w) v = f"
    using wp_okD [OF wp_forecast assms] by blast
  have "fc_available f = v" "fc_totalShipped f = shippedSince t i (clock w - days * 24 * 60 * 60 * 1000) w"
    using f by (auto simp: forecastOf_def Let_def)
  then show ?thesis using forecastOf_bounds [OF f] by simp
qed

text \<open>Seven days of 12 units shipped, 10 available: a reorder of 2.\<close>

definition demoSales :: world where
  "demoSales = demoWorld\<lparr>ledger := [\<lparr>lg_id = 6, lg_tenantId = 7, lg_skuId = 2, lg_locationId = 3, lg_eventType = SHIP,
      lg_delta = Buckets (- 12) 0 0 0 0, lg_referenceType = None, lg_referenceId = None, lg_reason = None,
      lg_createdAt = 0\<rparr>], snapshots := [\<lparr>sn_id = 5, sn_tenantId = 7, sn_skuId = 2, sn_locationId = 3,
      sn_bal = Buckets 10 0 0 0 0, sn_safetyStock = 0, sn_version = 1\<rparr>]\<rparr>"

lemma forecast_bounds_witness:
  "\<exists>f w'. forecastBySkuId 14 7 2 (Some 14) 7 demoSales = (Inr f, w') \<and> fc_reorderSuggested f \<and> fc_suggestedReorderQty f = 2"
proof -
  obtain f w' where f: "forecastBySkuId 14 7 2 (Some 14) 7 demoSales = (Inr f, w')" "fc_avgDailyDemand f = 171 / 100" "fc_available f = 10"
  proof -
    have "case fst (network 14 7 2 demoSales) of Inr v \<Rightarrow> av_available v = 10 | Inl _ \<Rightarrow> False" by code_simp
    then obtain v u where net: "network 14 7 2 demoSales = (Inr v, u)" "av_available v = 10"
      by (cases "network 14 7 2 demoSales") (auto split: sum.splits)
    obtain k where k: "find (\<lambda>k. sk_id k = 2 \<and> sk_tenantId k = 7) (skus demoSales) = Some k" "sk_id k = 2"
      by (simp add: demoSales_def demoWorld_def)
    have sold: "shippedSince 7 2 (clock demoSales - 7 * 24 * 60 * 60 * 1000) demoSales = 12" by code_simp
    have "mathRound (12 / 7 * 100) = 171" by (simp add: mathRound_def floor_eq_iff)
    then have "fc_avgDailyDemand (forecastOf k (Some 14) 7 12 10) = 171 / 100 \<and> fc_available (forecastOf k (Some 14) 7 12 10) = 10"
      by (simp add: forecastOf_def Let_def round2_def)
    then show thesis
      using that k net sold by (simp add: forecastBySkuId_def forecast_compute_def op_defs now_def)
  qed
  note law = forecast_bounds [OF f(1), unfolded f(2,3)]
  have reorder: "fc_reorderSuggested f" using law by simp
  then have "rat_of_int (10 + fc_suggestedReorderQty f) < 1297 / 100 \<and> 1197 / 100 \<le> rat_of_int (10 + fc_suggestedReorderQty f)"
    using law unfolding if_P [OF reorder] by simp
  then show ?thesis using f(1) reorder by auto
qed

end
