(* ===== verification/Controllers.thy ===== *)
theory Controllers
  imports Integrity Idempotency Insight
begin

text \<open>
  The HTTP layer over the services: what the validation pipe asks of a body or query (the DTO classes
  under backend/src/*/dto), and the handlers of the inventory, orders, sourcing, fulfillment, catalog,
  admin, reports and forecast controllers with the service call each makes; and the reconciliation
  worker.  A body that fails validation is refused before the handler runs; fields of the wrong type
  are not representable.
\<close>

section \<open>The validation pipe\<close>

definition validated :: "bool \<Rightarrow> (world, 'a) op \<Rightarrow> (world, 'a) op" where
  "validated ok m = andThen (throwIf (\<not> ok) (BadRequest ''Validation failed'')) m"

definition optionally :: "('a \<Rightarrow> bool) \<Rightarrow> 'a option \<Rightarrow> bool" where
  "optionally p v = (case v of None \<Rightarrow> True | Some x \<Rightarrow> p x)"

definition pageQueryOk :: "pageQuery \<Rightarrow> bool" where
  "pageQueryOk q \<longleftrightarrow> optionally (\<lambda>p. 1 \<le> p) (pq_page q) \<and> optionally (\<lambda>n. 1 \<le> n \<and> n \<le> 200) (pq_pageSize q)"

record systemEnv =
  sx_ttlSeconds :: int
  sx_others :: "nat \<Rightarrow> world \<Rightarrow> world"
  sx_validation :: validationConfig
  sx_payments :: paymentConfig
  sx_stripe :: stripeApi
  sx_wms :: "string option"
  sx_horizonDays :: int
  sx_contains :: "string \<Rightarrow> string \<Rightarrow> bool"
  sx_collate :: "string \<Rightarrow> string \<Rightarrow> int"
  sx_number :: "string \<Rightarrow> rat option"

definition gatewayOf :: "systemEnv \<Rightarrow> paymentProvider" where
  "gatewayOf env = selectProvider (sx_payments env) (sx_stripe env)"

text \<open>What a handler answers with.\<close>

datatype reply =
    OkReply
  | SnapshotReply snapshotRow
  | SnapshotPage "(snapshotRow \<times> int) page"
  | InboundReply inbound
  | InboundPage "inbound page"
  | AvailabilityReply availabilityView
  | BreakdownReply "availabilityView list"
  | OrderReply order
  | OrderDetailsReply orderDetails
  | OrderPage "(order \<times> orderLine list \<times> nat) page"
  | HoldsReply "reservation list"
  | SourcingReply sourcingResult
  | RuleReply sourcingRule
  | RulePage "sourcingRule page"
  | ShipmentReply shipment
  | ShipmentPage "(shipment \<times> (ident \<times> int) list \<times> (string \<times> string) option) page"
  | ReturnReply "returnRow \<times> returnLine list"
  | ReturnPage "(returnRow \<times> returnLine list) page"
  | SkuReply sku
  | SkuPage "sku page"
  | LocationReply location
  | LocationPage "location page"
  | ReportReply reconciliationReport
  | OrdersReport orderReport
  | InventoryReport inventoryReport
  | FulfillmentReport fulfillmentReport
  | SourcingReport sourcingReport
  | ForecastReply forecast

definition answer :: "('a \<Rightarrow> reply) \<Rightarrow> (world, 'a) op \<Rightarrow> (world, reply) op" where
  "answer f m = bind m (\<lambda>x. ret (f x))"

section \<open>Inventory\<close>

record receiveStockDto =
  rs_skuId :: ident
  rs_locationId :: ident
  rs_quantity :: int
  rs_reason :: "string option"

definition receiveStockOk :: "receiveStockDto \<Rightarrow> bool" where
  "receiveStockOk dto \<longleftrightarrow> 1 \<le> rs_quantity dto"

record adjustStockDto =
  as_skuId :: ident
  as_locationId :: ident
  as_delta :: int
  as_reason :: "string option"

definition adjustStockOk :: "adjustStockDto \<Rightarrow> bool" where
  "adjustStockOk dto \<longleftrightarrow> as_delta dto \<noteq> 0"

record safetyStockDto =
  ss_skuId :: ident
  ss_locationId :: ident
  ss_safetyStock :: int

definition safetyStockOk :: "safetyStockDto \<Rightarrow> bool" where
  "safetyStockOk dto \<longleftrightarrow> 0 \<le> ss_safetyStock dto"

record transferStockDto =
  ts_skuId :: ident
  ts_fromLocationId :: ident
  ts_toLocationId :: ident
  ts_quantity :: int
  ts_reason :: "string option"

definition transferStockOk :: "transferStockDto \<Rightarrow> bool" where
  "transferStockOk dto \<longleftrightarrow> 1 \<le> ts_quantity dto"

record inboundDto =
  id_skuId :: ident
  id_locationId :: ident
  id_quantity :: int
  id_expectedAt :: "int option"
  id_reference :: "string option"

definition inboundDtoOk :: "inboundDto \<Rightarrow> bool" where
  "inboundDtoOk dto \<longleftrightarrow> 1 \<le> id_quantity dto"

record receiveInboundDto =
  ri_inboundId :: ident
  ri_quantity :: "int option"

definition receiveInboundOk :: "receiveInboundDto \<Rightarrow> bool" where
  "receiveInboundOk dto \<longleftrightarrow> optionally (\<lambda>n. 1 \<le> n) (ri_quantity dto)"

text \<open>The flag comes as text and is made a boolean by \<open>Boolean\<close>, which is true of every text but the empty one.\<close>

record availabilityQuery =
  aq_skuId :: ident
  aq_locationId :: "ident option"
  aq_breakdown :: "string option"

definition toBoolean :: "string option \<Rightarrow> bool" where
  "toBoolean v = (case v of None \<Rightarrow> False | Some s \<Rightarrow> s \<noteq> [])"

datatype inventoryRequest =
    PostReceipt receiveStockDto
  | PostAdjustment adjustStockDto
  | PostInbound inboundDto
  | PostInboundReceive receiveInboundDto
  | PostSafetyStock safetyStockDto
  | PostTransfer transferStockDto
  | GetSnapshots snapshotQuery
  | GetInbound inboundQuery
  | GetAvailability availabilityQuery

definition availability :: "int \<Rightarrow> ident \<Rightarrow> availabilityQuery \<Rightarrow> (world, reply) op" where
  "availability horizonDays tenantId q =
    (if toBoolean (aq_breakdown q) then answer BreakdownReply (gets (breakdown horizonDays tenantId (aq_skuId q)))
     else case aq_locationId q of
       Some l \<Rightarrow> answer AvailabilityReply (atLocation horizonDays tenantId (aq_skuId q) l)
     | None \<Rightarrow> answer AvailabilityReply (network horizonDays tenantId (aq_skuId q)))"

definition serveInventory :: "systemEnv \<Rightarrow> ident \<Rightarrow> inventoryRequest \<Rightarrow> (world, reply) op" where
  "serveInventory env tenantId r =
    (case r of
       PostReceipt dto \<Rightarrow> validated (receiveStockOk dto)
         (answer SnapshotReply (receive tenantId (rs_skuId dto) (rs_locationId dto) (rs_quantity dto) (rs_reason dto)))
     | PostAdjustment dto \<Rightarrow> validated (adjustStockOk dto)
         (answer SnapshotReply (adjust tenantId (as_skuId dto) (as_locationId dto) (as_delta dto) (as_reason dto)))
     | PostInbound dto \<Rightarrow> validated (inboundDtoOk dto)
         (answer InboundReply (create_inbound tenantId (id_skuId dto) (id_locationId dto) (id_quantity dto) (id_expectedAt dto) (id_reference dto)))
     | PostInboundReceive dto \<Rightarrow> validated (receiveInboundOk dto)
         (answer InboundReply (receive_inbound tenantId (ri_inboundId dto) (ri_quantity dto)))
     | PostSafetyStock dto \<Rightarrow> validated (safetyStockOk dto)
         (answer (\<lambda>_. OkReply) (setSafetyStock tenantId (ss_skuId dto) (ss_locationId dto) (ss_safetyStock dto)))
     | PostTransfer dto \<Rightarrow> validated (transferStockOk dto)
         (answer (\<lambda>_. OkReply) (transfer tenantId (ts_skuId dto) (ts_fromLocationId dto) (ts_toLocationId dto) (ts_quantity dto) (ts_reason dto)))
     | GetSnapshots q \<Rightarrow> validated (pageQueryOk (pageQuery.truncate q))
         (answer SnapshotPage (gets (listSnapshots (sx_contains env) tenantId q)))
     | GetInbound q \<Rightarrow> validated (pageQueryOk (pageQuery.truncate q)) (answer InboundPage (gets (list_inbound tenantId q)))
     | GetAvailability q \<Rightarrow> availability (sx_horizonDays env) tenantId q)"

section \<open>Orders and sourcing\<close>

definition orderLineDtoOk :: "orderLineDto \<Rightarrow> bool" where
  "orderLineDtoOk dl \<longleftrightarrow> 1 \<le> dl_quantity dl \<and> optionally (\<lambda>p. 0 \<le> p) (dl_unitPrice dl)"

definition createOrderOk :: "createOrderDto \<Rightarrow> bool" where
  "createOrderOk dto \<longleftrightarrow> 1 \<le> length (co_lines dto) \<and> list_all orderLineDtoOk (co_lines dto)"

text \<open>The handler of a capture, with the stored responses of earlier ones beside the database.\<close>

definition post_order ::
  "systemEnv \<Rightarrow> (orderDetails \<Rightarrow> orderDetails) \<Rightarrow>
    ((world, orderDetails) idemState \<Rightarrow> (world, orderDetails) idemState) \<Rightarrow> (createOrderDto \<Rightarrow> string) \<Rightarrow>
    ident \<Rightarrow> createOrderDto \<Rightarrow> string option \<Rightarrow> ((world, orderDetails) idemState, orderDetails) op" where
  "post_order env normalise others hash tenantId dto idempotencyKey =
    andThen (throwIf (\<not> createOrderOk dto) (BadRequest ''Validation failed''))
    (capture_order normalise hash others (sx_ttlSeconds env) (sx_others env) tenantId dto idempotencyKey)"

datatype orderRequest =
    PostOrder createOrderDto
  | GetOrders orderQuery
  | GetOrder ident
  | PostValidate ident
  | PostReserve ident
  | PostRelease ident
  | PostCancel ident "string option"
  | PostSource ident

text \<open>Here the capture has no idempotency key.\<close>

definition serveOrders :: "systemEnv \<Rightarrow> ident \<Rightarrow> orderRequest \<Rightarrow> (world, reply) op" where
  "serveOrders env tenantId r =
    (case r of
       PostOrder dto \<Rightarrow> validated (createOrderOk dto)
         (answer OrderDetailsReply (create_order (sx_ttlSeconds env) (sx_others env) tenantId dto))
     | GetOrders q \<Rightarrow> validated (pageQueryOk (pageQuery.truncate q)) (answer OrderPage (gets (list_orders (sx_contains env) tenantId q)))
     | GetOrder i \<Rightarrow> answer OrderDetailsReply (get_order tenantId i)
     | PostValidate i \<Rightarrow> answer OrderReply (validate_order (sx_validation env) (gatewayOf env) tenantId i)
     | PostReserve i \<Rightarrow> answer HoldsReply (reserve_order (sx_ttlSeconds env) (sx_others env) tenantId i)
     | PostRelease i \<Rightarrow> answer OrderReply (release_order tenantId i)
     | PostCancel i msg \<Rightarrow> answer OrderReply (cancel (gatewayOf env) tenantId i msg)
     | PostSource i \<Rightarrow> answer SourcingReply (source_order (sx_others env) tenantId i))"

section \<open>Sourcing rules\<close>

definition ruleDtoOk :: "ruleDto \<Rightarrow> bool" where
  "ruleDtoOk dto \<longleftrightarrow> optionally (\<lambda>p. 0 \<le> p) (ru_priority dto)"

datatype ruleRequest =
    GetRules pageQuery
  | PostRule string SourcingStrategy ruleDto
  | PatchRule ident ruleDto

definition serveRules :: "ident \<Rightarrow> ruleRequest \<Rightarrow> (world, reply) op" where
  "serveRules tenantId r =
    (case r of
       GetRules q \<Rightarrow> validated (pageQueryOk q) (answer RulePage (gets (list_rules tenantId q)))
     | PostRule nam st dto \<Rightarrow> validated (ruleDtoOk dto) (answer RuleReply (create_rule tenantId nam st dto))
     | PatchRule i dto \<Rightarrow> validated (ruleDtoOk dto) (answer RuleReply (update_rule tenantId i dto)))"

section \<open>Fulfillment and returns\<close>

definition returnLineDtoOk :: "returnLineDto \<Rightarrow> bool" where
  "returnLineDtoOk rl \<longleftrightarrow> 1 \<le> td_quantity rl"

definition createReturnOk :: "createReturnDto \<Rightarrow> bool" where
  "createReturnOk dto \<longleftrightarrow> 1 \<le> length (tr_lines dto) \<and> list_all returnLineDtoOk (tr_lines dto)"

datatype fulfillmentRequest =
    GetShipments shipmentQuery
  | PostPick ident
  | PostShip ident "string option"
  | PostDeliver ident
  | PostDispatch ident
  | PostReady ident
  | PostPickup ident
  | GetReturns returnQuery
  | PostReturn createReturnDto
  | PostReturnReceive ident

definition serveFulfillment :: "systemEnv \<Rightarrow> ident \<Rightarrow> fulfillmentRequest \<Rightarrow> (world, reply) op" where
  "serveFulfillment env tenantId r =
    (case r of
       GetShipments q \<Rightarrow> validated (pageQueryOk (pageQuery.truncate q)) (answer ShipmentPage (gets (listShipments tenantId q)))
     | PostPick i \<Rightarrow> answer ShipmentReply (pick (gatewayOf env) tenantId i)
     | PostShip i carrier \<Rightarrow> answer ShipmentReply (ship (gatewayOf env) tenantId i carrier)
     | PostDeliver i \<Rightarrow> answer ShipmentReply (deliver (gatewayOf env) tenantId i)
     | PostDispatch i \<Rightarrow> answer ShipmentReply (dispatch (sx_wms env) tenantId i)
     | PostReady i \<Rightarrow> answer ShipmentReply (markReadyForPickup (gatewayOf env) tenantId i)
     | PostPickup i \<Rightarrow> answer ShipmentReply (pickUp (gatewayOf env) tenantId i)
     | GetReturns q \<Rightarrow> validated (pageQueryOk (pageQuery.truncate q)) (answer ReturnPage (gets (list_returns tenantId q)))
     | PostReturn dto \<Rightarrow> validated (createReturnOk dto) (answer ReturnReply (create_return tenantId dto))
     | PostReturnReceive i \<Rightarrow> answer ReturnReply (receive_return (gatewayOf env) tenantId i))"

section \<open>Catalog\<close>

definition createLocationOk :: "createLocationDto \<Rightarrow> bool" where
  "createLocationOk dto \<longleftrightarrow> optionally (\<lambda>p. 0 \<le> p) (cl_fulfillmentPriority dto) \<and> optionally (\<lambda>n. 0 \<le> n) (cl_dailyOrderCapacity dto)"

definition updateLocationOk :: "updateLocationDto \<Rightarrow> bool" where
  "updateLocationOk dto \<longleftrightarrow> optionally (\<lambda>p. 0 \<le> p) (ul_fulfillmentPriority dto) \<and>
    optionally (optionally (\<lambda>n. 0 \<le> n)) (ul_dailyOrderCapacity dto)"

datatype catalogCall =
    GetSkus listQuery
  | GetSku ident
  | PostSku createSkuDto
  | PatchSku ident updateSkuDto
  | GetLocations listQuery
  | GetLocation ident
  | PostLocation createLocationDto
  | PatchLocation ident updateLocationDto

definition serveCatalog :: "systemEnv \<Rightarrow> ident \<Rightarrow> catalogCall \<Rightarrow> (world, reply) op" where
  "serveCatalog env tenantId r =
    (case r of
       GetSkus q \<Rightarrow> validated (pageQueryOk (pageQuery.truncate q)) (answer SkuPage (listSkus (sx_collate env) tenantId q))
     | GetSku i \<Rightarrow> answer SkuReply (getSku tenantId i)
     | PostSku dto \<Rightarrow> answer SkuReply (createSku tenantId dto)
     | PatchSku i dto \<Rightarrow> answer SkuReply (updateSku tenantId i dto)
     | GetLocations q \<Rightarrow> validated (pageQueryOk (pageQuery.truncate q)) (answer LocationPage (listLocations tenantId q))
     | GetLocation i \<Rightarrow> answer LocationReply (getLocation tenantId i)
     | PostLocation dto \<Rightarrow> validated (createLocationOk dto) (answer LocationReply (createLocation tenantId dto))
     | PatchLocation i dto \<Rightarrow> validated (updateLocationOk dto) (answer LocationReply (updateLocation tenantId i dto)))"

section \<open>Administration\<close>

datatype adminRequest = GetReconciliation | PostRepair

definition serveAdmin :: "ident \<Rightarrow> adminRequest \<Rightarrow> (world, reply) op" where
  "serveAdmin tenantId r =
    (case r of
       GetReconciliation \<Rightarrow> answer ReportReply (reconcileTenant tenantId False)
     | PostRepair \<Rightarrow> answer ReportReply (reconcileTenant tenantId True))"

section \<open>Reports and the forecast\<close>

datatype insightRequest =
    GetOrdersReport
  | GetInventoryReport "string option"
  | GetFulfillmentReport
  | GetSourcingReport
  | GetForecast ident "int option" "int option"

text \<open>Periods of the forecast are 1 to 365 days, 14 ahead and 30 back unless given.\<close>

definition forecastQueryOk :: "int option \<Rightarrow> int option \<Rightarrow> bool" where
  "forecastQueryOk horizonDays lookbackDays \<longleftrightarrow>
    optionally (\<lambda>d. 1 \<le> d \<and> d \<le> 365) horizonDays \<and> optionally (\<lambda>d. 1 \<le> d \<and> d \<le> 365) lookbackDays"

definition serveReports :: "systemEnv \<Rightarrow> ident \<Rightarrow> insightRequest \<Rightarrow> (world, reply) op" where
  "serveReports env tenantId r =
    (case r of
       GetOrdersReport \<Rightarrow> answer OrdersReport (gets (report_orders tenantId))
     | GetInventoryReport threshold \<Rightarrow> answer InventoryReport (gets (report_inventory tenantId (thresholdOf (sx_number env) threshold)))
     | GetFulfillmentReport \<Rightarrow> answer FulfillmentReport (gets (report_fulfillment tenantId))
     | GetSourcingReport \<Rightarrow> answer SourcingReport (gets (report_sourcing tenantId))
     | GetForecast skuId horizonDays lookbackDays \<Rightarrow> validated (forecastQueryOk horizonDays lookbackDays)
         (answer ForecastReply (forecastBySkuId (sx_horizonDays env) tenantId skuId
           (Some (of_int (case horizonDays of Some d \<Rightarrow> d | None \<Rightarrow> 14))) (case lookbackDays of Some d \<Rightarrow> d | None \<Rightarrow> 30))))"

section \<open>The reconciliation worker\<close>

definition RECONCILE :: string where
  "RECONCILE = ''reconcile''"

definition processReconciliation :: "string \<Rightarrow> (world, (nat \<times> nat) option) op" where
  "processReconciliation job =
    (if job = RECONCILE then bind (reconcileAll False) (\<lambda>report. ret (Some (rr_checked report, rr_drifted report)))
     else ret None)"

section \<open>All of them\<close>

datatype apiRequest =
    Inventory inventoryRequest
  | Orders orderRequest
  | Rules ruleRequest
  | Fulfillment fulfillmentRequest
  | Catalog catalogCall
  | Admin adminRequest
  | Insight insightRequest

definition handle :: "systemEnv \<Rightarrow> ident \<Rightarrow> apiRequest \<Rightarrow> (world, reply) op" where
  "handle env tenantId r =
    (case r of
       Inventory q \<Rightarrow> serveInventory env tenantId q
     | Orders q \<Rightarrow> serveOrders env tenantId q
     | Rules q \<Rightarrow> serveRules tenantId q
     | Fulfillment q \<Rightarrow> serveFulfillment env tenantId q
     | Catalog q \<Rightarrow> serveCatalog env tenantId q
     | Admin q \<Rightarrow> serveAdmin tenantId q
     | Insight q \<Rightarrow> serveReports env tenantId q)"

section \<open>Lemmas\<close>

lemma snd_answer [simp]: "snd (answer f m w) = snd (m w)"
  by (cases "m w"; cases "fst (m w)") (simp_all add: answer_def bind_def ret_def)

lemma snd_validated: "snd (validated ok m w) = (if ok then snd (m w) else w)"
  by (simp add: validated_def andThen_def bind_def throwIf_def ret_def throw_def)

lemma snd_gets [simp]: "snd (gets f w) = w"
  by (simp add: gets_def)

lemmas handle_defs = handle_def serveInventory_def serveOrders_def serveRules_def serveFulfillment_def serveCatalog_def serveAdmin_def
  serveReports_def availability_def snd_validated

text \<open>A reconciliation that only reports writes nothing.\<close>

lemma keeps_report: "keeps J (reconcileTenant t False)" "keeps J (reconcileAll False)"
proof -
  have "keeps J (run f False)" for f
    unfolding run_def checkRow_def Let_def if_False by (intro keepsI)
  then show "keeps J (reconcileTenant t False)" "keeps J (reconcileAll False)" by (simp_all add: reconcileTenant_def reconcileAll_def)
qed

lemma keeps_processReconciliation: "keeps J (processReconciliation job)"
  unfolding processReconciliation_def by (intro keepsI keeps_report)

text \<open>The flag of the availability query cannot be turned off.\<close>

lemma breakdown_not_disabled:
  "availability d t \<lparr>aq_skuId = s, aq_locationId = lo, aq_breakdown = Some ''false''\<rparr> w =
    (Inr (BreakdownReply (breakdown d t s w)), w)"
  by (simp add: availability_def toBoolean_def answer_def bind_def gets_def ret_def)

text \<open>
  What an idempotency key does to a capture: the database ends as the handler without a key leaves it, or
  as it was.
\<close>

lemma post_order_served:
  fixes w :: world
  assumes "post_order env normalise (\<lambda>s. s) hash t dto key (rows, w) = (r, (rows', w'))"
  shows "w' = snd (handle env t (Orders (PostOrder dto)) w) \<or> w' = w"
proof -
  let ?after = "snd (handle env t (Orders (PostOrder dto)) w)"
  have served: "?after = (if createOrderOk dto then snd (create_order (sx_ttlSeconds env) (sx_others env) t dto w) else w)"
    by (simp add: handle_defs)
  obtain x v where run: "create_order (sx_ttlSeconds env) (sx_others env) t dto w = (x, v)" by fastforce
  show ?thesis
    using assms unfolding served
    by (cases x)
      (auto simp: post_order_def capture_order_def runIdempotent_def createKey_def catchErr_def elsewhere_def op_defs run
        split: option.splits if_splits sum.splits)
qed

section \<open>An environment\<close>

definition demoSystem :: systemEnv where
  "demoSystem = \<lparr>sx_ttlSeconds = 900, sx_others = (\<lambda>_ w. w), sx_validation = \<lparr>vc_taxRate = 0, vc_promoPct = 0\<rparr>,
    sx_payments = demoGateway, sx_stripe = demoApi, sx_wms = None, sx_horizonDays = 14,
    sx_contains = (\<lambda>s q. sublist q s), sx_collate = (\<lambda>_ _. 0), sx_number = (\<lambda>_. None)\<rparr>"

end
