(* ===== verification/Access.thy ===== *)
theory Access
  imports Controllers Auth
begin

text \<open>
  The way of a request to its handler: the routes the controllers declare, the global guard in front of
  them (backend/src/auth/auth.guard.ts), and what a role can make the service do.
\<close>

section \<open>Routes\<close>

definition itemPath :: "string \<Rightarrow> string \<Rightarrow> string \<Rightarrow> string" where
  "itemPath base i action = base @ ''/'' @ i @ (if action = [] then [] else ''/'' @ action)"

definition inventoryRoute :: "inventoryRequest \<Rightarrow> string \<times> string" where
  "inventoryRoute r =
    (case r of
       PostReceipt _ \<Rightarrow> (''POST'', ''/inventory/receipts'')
     | PostAdjustment _ \<Rightarrow> (''POST'', ''/inventory/adjustments'')
     | PostInbound _ \<Rightarrow> (''POST'', ''/inventory/inbound'')
     | PostInboundReceive _ \<Rightarrow> (''POST'', ''/inventory/inbound/receive'')
     | PostSafetyStock _ \<Rightarrow> (''POST'', ''/inventory/safety-stock'')
     | PostTransfer _ \<Rightarrow> (''POST'', ''/inventory/transfers'')
     | GetSnapshots _ \<Rightarrow> (''GET'', ''/inventory/snapshots'')
     | GetInbound _ \<Rightarrow> (''GET'', ''/inventory/inbound'')
     | GetAvailability _ \<Rightarrow> (''GET'', ''/inventory/availability''))"

definition orderRoute :: "(ident \<Rightarrow> string) \<Rightarrow> orderRequest \<Rightarrow> string \<times> string" where
  "orderRoute idText r =
    (case r of
       PostOrder _ \<Rightarrow> (''POST'', ''/orders'')
     | GetOrders _ \<Rightarrow> (''GET'', ''/orders'')
     | GetOrder i \<Rightarrow> (''GET'', itemPath ''/orders'' (idText i) [])
     | PostValidate i \<Rightarrow> (''POST'', itemPath ''/orders'' (idText i) ''validate'')
     | PostReserve i \<Rightarrow> (''POST'', itemPath ''/orders'' (idText i) ''reserve'')
     | PostRelease i \<Rightarrow> (''POST'', itemPath ''/orders'' (idText i) ''release'')
     | PostCancel i _ \<Rightarrow> (''POST'', itemPath ''/orders'' (idText i) ''cancel'')
     | PostSource i \<Rightarrow> (''POST'', itemPath ''/orders'' (idText i) ''source''))"

definition ruleRoute :: "(ident \<Rightarrow> string) \<Rightarrow> ruleRequest \<Rightarrow> string \<times> string" where
  "ruleRoute idText r =
    (case r of
       GetRules _ \<Rightarrow> (''GET'', ''/sourcing-rules'')
     | PostRule _ _ _ \<Rightarrow> (''POST'', ''/sourcing-rules'')
     | PatchRule i _ \<Rightarrow> (''PATCH'', itemPath ''/sourcing-rules'' (idText i) []))"

definition fulfillmentRoute :: "(ident \<Rightarrow> string) \<Rightarrow> fulfillmentRequest \<Rightarrow> string \<times> string" where
  "fulfillmentRoute idText r =
    (case r of
       GetShipments _ \<Rightarrow> (''GET'', ''/shipments'')
     | PostPick i \<Rightarrow> (''POST'', itemPath ''/shipments'' (idText i) ''pick'')
     | PostShip i _ \<Rightarrow> (''POST'', itemPath ''/shipments'' (idText i) ''ship'')
     | PostDeliver i \<Rightarrow> (''POST'', itemPath ''/shipments'' (idText i) ''deliver'')
     | PostDispatch i \<Rightarrow> (''POST'', itemPath ''/shipments'' (idText i) ''dispatch'')
     | PostReady i \<Rightarrow> (''POST'', itemPath ''/shipments'' (idText i) ''ready'')
     | PostPickup i \<Rightarrow> (''POST'', itemPath ''/shipments'' (idText i) ''pickup'')
     | GetReturns _ \<Rightarrow> (''GET'', ''/returns'')
     | PostReturn _ \<Rightarrow> (''POST'', ''/returns'')
     | PostReturnReceive i \<Rightarrow> (''POST'', itemPath ''/returns'' (idText i) ''receive''))"

definition catalogRoute :: "(ident \<Rightarrow> string) \<Rightarrow> catalogCall \<Rightarrow> string \<times> string" where
  "catalogRoute idText r =
    (case r of
       GetSkus _ \<Rightarrow> (''GET'', ''/skus'')
     | GetSku i \<Rightarrow> (''GET'', itemPath ''/skus'' (idText i) [])
     | PostSku _ \<Rightarrow> (''POST'', ''/skus'')
     | PatchSku i _ \<Rightarrow> (''PATCH'', itemPath ''/skus'' (idText i) [])
     | GetLocations _ \<Rightarrow> (''GET'', ''/locations'')
     | GetLocation i \<Rightarrow> (''GET'', itemPath ''/locations'' (idText i) [])
     | PostLocation _ \<Rightarrow> (''POST'', ''/locations'')
     | PatchLocation i _ \<Rightarrow> (''PATCH'', itemPath ''/locations'' (idText i) []))"

definition adminRoute :: "adminRequest \<Rightarrow> string \<times> string" where
  "adminRoute r =
    (case r of
       GetReconciliation \<Rightarrow> (''GET'', ''/admin/reconciliation'')
     | PostRepair \<Rightarrow> (''POST'', ''/admin/reconciliation/repair''))"

definition insightRoute :: "insightRequest \<Rightarrow> string \<times> string" where
  "insightRoute r =
    (case r of
       GetOrdersReport \<Rightarrow> (''GET'', ''/reports/orders'')
     | GetInventoryReport _ \<Rightarrow> (''GET'', ''/reports/inventory'')
     | GetFulfillmentReport \<Rightarrow> (''GET'', ''/reports/fulfillment'')
     | GetSourcingReport \<Rightarrow> (''GET'', ''/reports/sourcing'')
     | GetForecast _ _ _ \<Rightarrow> (''GET'', ''/ai/forecast''))"

definition routeOf :: "(ident \<Rightarrow> string) \<Rightarrow> apiRequest \<Rightarrow> string \<times> string" where
  "routeOf idText r =
    (case r of
       Inventory q \<Rightarrow> inventoryRoute q
     | Orders q \<Rightarrow> orderRoute idText q
     | Rules q \<Rightarrow> ruleRoute idText q
     | Fulfillment q \<Rightarrow> fulfillmentRoute idText q
     | Catalog q \<Rightarrow> catalogRoute idText q
     | Admin q \<Rightarrow> adminRoute q
     | Insight q \<Rightarrow> insightRoute q)"

definition isRead :: "apiRequest \<Rightarrow> bool" where
  "isRead r \<longleftrightarrow> fst (routeOf (\<lambda>_. []) r) = ''GET''"

text \<open>The router compares paths without regard to case and ignores a trailing slash.\<close>

definition reaches :: "(ident \<Rightarrow> string) \<Rightarrow> Auth.request \<Rightarrow> apiRequest \<Rightarrow> bool" where
  "reaches idText req r \<longleftrightarrow> rq_method req = fst (routeOf idText r) \<and>
    (toLowerCase (rq_path req) = toLowerCase (snd (routeOf idText r)) \<or>
     toLowerCase (rq_path req) = toLowerCase (snd (routeOf idText r)) @ ''/'')"

text \<open>A request on its way: the guard, the tenant decorator, then pipe and handler.\<close>

definition apiCall :: "authLib \<Rightarrow> authConfig \<Rightarrow> systemEnv \<Rightarrow> apiRequest \<Rightarrow> Auth.request \<Rightarrow> (authState, reply) op" where
  "apiCall lib cfg env r req =
    bind (canActivate lib cfg req) (\<lambda>req.
    bind (TenantId req) (\<lambda>tenantId.
    onWorld (handle env tenantId r)))"

section \<open>Reads\<close>

lemma read_writes_nothing:
  assumes "isRead r"
  shows "keeps (cacheOnly w) (handle env t r)"
proof -
  have two: "keeps (cacheOnly w) (atLocation d t s l)" "keeps (cacheOnly w) (network d t s)" for d s l
    unfolding atLocation_def network_def by (rule keeps_cached)+
  have catalog: "keeps (cacheOnly w) (getSku t i)" "keeps (cacheOnly w) (getLocation t i)" "keeps (cacheOnly w) (listSkus col t q)"
    "keeps (cacheOnly w) (listLocations t q)" for i col q
    unfolding getSku_def requireSku_def getLocation_def requireLocation_def listSkus_def listLocations_def by (intro keepsI)+
  note reads = keeps_report [where J = "cacheOnly w"] keeps_get_order [where I = "cacheOnly w"] two catalog
  note defs = handle_def isRead_def routeOf_def answer_def validated_def
  show ?thesis
  proof (cases r)
    case (Inventory q)
    then show ?thesis using assms
      by (cases q) (auto simp: defs serveInventory_def inventoryRoute_def availability_def intro!: keepsI two split: option.split)
  next
    case (Orders q)
    then show ?thesis using assms
      by (cases q) (auto simp: defs serveOrders_def orderRoute_def intro!: keepsI keeps_get_order)
  next
    case (Rules q)
    then show ?thesis using assms by (cases q) (auto simp: defs serveRules_def ruleRoute_def intro!: keepsI)
  next
    case (Fulfillment q)
    then show ?thesis using assms by (cases q) (auto simp: defs serveFulfillment_def fulfillmentRoute_def intro!: keepsI)
  next
    case (Catalog q)
    then show ?thesis using assms by (cases q) (auto simp: defs serveCatalog_def catalogRoute_def intro!: keepsI catalog)
  next
    case (Admin q)
    then show ?thesis using assms by (cases q) (auto simp: defs serveAdmin_def adminRoute_def intro!: keepsI keeps_report)
  next
    case (Insight q)
    then show ?thesis
      by (cases q) (auto simp: defs serveReports_def intro!: keepsI keeps_forecastBySkuId)
  qed
qed

section \<open>Who gets through\<close>

lemma startsWith_lower: "startsWith path p \<Longrightarrow> startsWith (toLowerCase path) (toLowerCase p)"
  by (simp add: startsWith_def toLowerCase_def take_map)

lemma isPublic_lower: "isPublic path \<Longrightarrow> isPublic (toLowerCase path)"
proof -
  have "list_all (\<lambda>p. map lowerChar p = p) PUBLIC_PREFIXES" by code_simp
  then have low: "map lowerChar p = p" if "p \<in> set PUBLIC_PREFIXES" for p using that by (simp add: list_all_iff)
  have slash: "map lowerChar ''/'' = ''/''" by code_simp
  assume "isPublic path"
  then obtain p where p: "p \<in> set PUBLIC_PREFIXES" "path = p \<or> startsWith path (p @ ''/'')" by (auto simp: isPublic_def)
  then have "toLowerCase path = p \<or> startsWith (toLowerCase path) (p @ ''/'')"
    using startsWith_lower [of path "p @ ''/''"] low [OF p(1)] slash by (auto simp: toLowerCase_def)
  then show ?thesis using p(1) by (auto simp: isPublic_def)
qed

lemma isPublic_head:
  assumes "isPublic path"
  shows "take 3 path \<in> {''/he'', ''/me'', ''/we'', ''/oa'', ''/au''}"
proof -
  obtain p where p: "p \<in> set PUBLIC_PREFIXES" "path = p \<or> startsWith path (p @ ''/'')" using assms by (auto simp: isPublic_def)
  then obtain rest where "path = p @ rest" using startsWithD [of path "p @ ''/''"] by fastforce
  then show ?thesis using p(1) by (auto simp: PUBLIC_PREFIXES_def)
qed

lemma route_head: "take 3 (snd (routeOf idText r)) \<in> {''/in'', ''/or'', ''/so'', ''/sh'', ''/re'', ''/sk'', ''/lo'', ''/ad'', ''/ai''}"
  by (cases r) (auto simp: routeOf_def inventoryRoute_def orderRoute_def ruleRoute_def fulfillmentRoute_def catalogRoute_def
      adminRoute_def insightRoute_def itemPath_def split: inventoryRequest.split orderRequest.split ruleRequest.split fulfillmentRequest.split
      catalogCall.split adminRequest.split insightRequest.split)

lemma reaches_private:
  assumes "reaches idText req r"
  shows "\<not> isPublic (rq_path req)"
proof
  let ?low = "map lowerChar" and ?route = "snd (routeOf idText r)"
  assume "isPublic (rq_path req)"
  from isPublic_head [OF isPublic_lower [OF this]]
  have "?low (take 3 (rq_path req)) \<in> {''/he'', ''/me'', ''/we'', ''/oa'', ''/au''}"
    by (simp only: toLowerCase_def take_map)
  moreover have "?low (take 3 (rq_path req)) = ?low (take 3 ?route)"
  proof -
    have "\<forall>h \<in> {''/in'', ''/or'', ''/so'', ''/sh'', ''/re'', ''/sk'', ''/lo'', ''/ad'', ''/ai''}. length h = 3" by simp
    then have "length (take 3 ?route) = 3" using route_head [of idText r] by metis
    then have long: "3 \<le> length ?route" by simp
    have "take 3 (?low (rq_path req)) = take 3 (?low ?route)" using assms long by (auto simp: reaches_def toLowerCase_def)
    then show ?thesis by (simp add: take_map)
  qed
  moreover have "list_all (\<lambda>h. ?low h = h \<and> h \<notin> {''/he'', ''/me'', ''/we'', ''/oa'', ''/au''})
      [''/in'', ''/or'', ''/so'', ''/sh'', ''/re'', ''/sk'', ''/lo'', ''/ad'', ''/ai'']" by code_simp
  then have "?low h \<notin> {''/he'', ''/me'', ''/we'', ''/oa'', ''/au''}" if "h \<in> {''/in'', ''/or'', ''/so'', ''/sh'', ''/re'', ''/sk'', ''/lo'', ''/ad'', ''/ai''}" for h
    using that by (auto simp: list_all_iff)
  ultimately show False using route_head [of idText r] by metis
qed

lemma isRead_route: "isRead r \<longleftrightarrow> fst (routeOf idText r) = ''GET''"
  by (cases r) (auto simp: isRead_def routeOf_def inventoryRoute_def orderRoute_def ruleRoute_def fulfillmentRoute_def catalogRoute_def
      adminRoute_def insightRoute_def split: inventoryRequest.split orderRequest.split ruleRequest.split fulfillmentRequest.split
      catalogCall.split adminRequest.split insightRequest.split)

lemma authenticate_world: "keeps (\<lambda>s. au_world s = w \<and> users s = us) (authenticate lib cfg req)"
proof (rule keeps_intro)
  fix s :: authState assume "au_world s = w \<and> users s = us"
  then show "wp (authenticate lib cfg req) (\<lambda>_ s. au_world s = w \<and> users s = us) (\<lambda>_ s. au_world s = w \<and> users s = us) s"
    by (simp add: authenticate_def verify_token_def verify_key_def resolveTenantHeader_def wp wp_now Let_def split: option.split)
qed

lemma canActivate_run:
  assumes "keysUnique s" "speaksFor lib cfg s req t role" "\<not> isPublic (rq_path req)"
  shows "\<exists>s1. au_world s1 = au_world s \<and> users s1 = users s \<and> canActivate lib cfg req s =
    (if permitted role (rq_method req) (rq_path req) then (Inr (req\<lparr>rq_tenantId := Some t, rq_apiRole := Some role\<rparr>), s1)
     else (Inl (Forbidden (if role = READ_ONLY \<and> rq_method req \<noteq> ''GET'' then ''Read-only key cannot perform writes''
       else ''Admin role required'')), s1))"
proof -
  obtain x s1 where a: "authenticate lib cfg req s = (x, s1)" by fastforce
  have "fst (authenticate lib cfg req s) = Inr (t, role)" using authenticate_spec [OF assms(1)] assms(2) by blast
  then have x: "x = Inr (t, role)" using a by simp
  have "au_world s1 = au_world s \<and> users s1 = users s"
    by (rule keepsD [OF authenticate_world [of "au_world s" "users s"] _ a]) simp
  then show ?thesis
    using a x assms(3) by (auto simp: canActivate_def bind_def andThen_def enforceRbac_spec ret_def)
qed

section \<open>Properties\<close>


definition demoReader :: authState where
  "demoReader = demoAuth\<lparr>apiKeys := [demoKey\<lparr>ky_role := READ_ONLY\<rparr>]\<rparr>"


end
