(* ===== verification/System.thy ===== *)
theory System
  imports Controllers
begin

text \<open>
  The service as a whole: requests of the controllers and jobs of the reservation worker in any order, as
  a transition relation; its invariant, the abstract machine it refines, and what every run does to
  stock and orders.
\<close>

section \<open>The running system\<close>

text \<open>
  A request of some tenant is handled from start to end, a job of the reservation or the reconciliation
  queue is processed, time passes, or an answer in the availability cache expires.
\<close>

inductive system_step :: "systemEnv \<Rightarrow> world \<Rightarrow> world \<Rightarrow> bool" for env where
  handled: "system_step env w (snd (handle env t r w))"
| processed: "system_step env w (snd (process job w))"
| reconciled: "system_step env w (snd (processReconciliation name w))"
| elapsed: "clock w \<le> ts \<Longrightarrow> system_step env w (w\<lparr>clock := ts\<rparr>)"
| expired: "system_step env w (snd (expireCache key w))"

inductive_cases system_stepE: "system_step env w w'"

section \<open>Every operation keeps the books\<close>

lemma keeps_coreI: "keeps stockInv m \<Longrightarrow> keeps commitInv m \<Longrightarrow> keeps orderInv m \<Longrightarrow> keeps coreInv m"
proof (rule keeps_intro)
  fix w assume m: "keeps stockInv m" "keeps commitInv m" "keeps orderInv m" and w: "coreInv w"
  have "wp m (\<lambda>_ w. stockInv w \<and> commitInv w \<and> orderInv w) (\<lambda>_ w. stockInv w \<and> commitInv w \<and> orderInv w) w"
    using wp_conj [OF keeps_wp [OF m(1)] wp_conj [OF keeps_wp [OF m(2)] keeps_wp [OF m(3)]]] w by (simp add: coreInv_def)
  then show "wp m (\<lambda>_. coreInv) (\<lambda>_. coreInv) w" by (rule wp_mono) (simp_all add: coreInv_def)
qed

lemma keeps_order_applyWithin [keepsI]: "keeps orderInv (applyWithin p)"
  unfolding applyWithin_def applyLocked_def ensureSnapshot_def appendLedger_def validateMovement_def Let_def
  by (intro keepsI keeps_modify) simp_all

lemma keeps_order_invalidate [keepsI]: "keeps orderInv (invalidate t s)"
  by (rule keeps_intro) (simp add: wp orderInv_invalidated)

lemma keeps_core_neutral:
  assumes "bk_reserved (deltaOf (mv_deltas p)) = 0" "bk_allocated (deltaOf (mv_deltas p)) = 0"
  shows "keeps coreInv (applyWithin p)"
  by (rule keeps_coreI) (intro keepsI keeps_commit_applyWithin assms)+

lemma keeps_core_invalidate [keepsI]: "keeps coreInv (invalidate t s)"
  by (rule keeps_intro) (simp add: wp coreInv_invalidated)

lemma keeps_core_freshId [keepsI]: "keeps coreInv freshId"
  by (rule keeps_intro) (simp add: wp coreInv_nextId)

lemma keeps_core_movement:
  assumes "bk_reserved (deltaOf (mv_deltas p)) = 0" "bk_allocated (deltaOf (mv_deltas p)) = 0"
  shows "keeps coreInv (applyMovement p)"
  unfolding applyMovement_def by (intro keepsI keeps_core_neutral assms)

lemma keeps_core_stock:
  "keeps coreInv (receive t s l n why)" "keeps coreInv (adjust t s l n why)"
  by (auto simp: receive_def adjust_def deltaOf_def noDeltas_def orZero_def intro!: keeps_core_movement)

lemma keeps_core_transfer: "keeps coreInv (transfer t s a b n why)"
  unfolding transfer_def transferOut_def transferIn_def
  by (intro keepsI keeps_core_neutral) (simp_all add: deltaOf_def noDeltas_def orZero_def)

lemma coreInv_catalog [simp]:
  "coreInv (skus_update f1 w) = coreInv w" "coreInv (locations_update f2 w) = coreInv w"
  "coreInv (sourcingRules_update f3 w) = coreInv w"
  by (simp_all add: coreInv_def stockInv_def commitInv_def orderInv_def orderRows_def history_def snapshotsOk_def ledgerSum_def
      commitRows_def held_def committed_def balance_def findSnapshot_def fun_eq_iff)

lemma keeps_core_catalog:
  "keeps coreInv (createSku t d1)" "keeps coreInv (updateSku t i d2)" "keeps coreInv (createLocation t d3)" "keeps coreInv (updateLocation t i d4)"
  unfolding createSku_def insertSku_def updateSku_def requireSku_def createLocation_def insertLocation_def updateLocation_def
    requireLocation_def
  by (intro keepsI; simp)+

lemma keeps_core_rules: "keeps coreInv (create_rule t nm st dto)" "keeps coreInv (update_rule t i dto)"
  by (simp_all add: create_rule_def update_rule_def keepsI)

lemma commitInv_same:
  assumes "commitInv w" "nextId w \<le> nextId w' \<and> reservations w' = reservations w \<and> allocations w' = allocations w"
    "snapshotsOk w'" "balance w' = balance w"
  shows "commitInv w'"
  using assms held_cong [of w' w] committed_cong [of w' w] commitRows_cong [of w w'] by (simp add: commitInv_def)

lemma keeps_core_safety: "keeps coreInv (setSafetyStock t s l n)"
proof (rule keeps_coreI)
  show "keeps commitInv (setSafetyStock t s l n)"
  proof (rule keeps_intro)
    fix w assume w: "commitInv w"
    let ?same = "\<lambda>w'. nextId w \<le> nextId w' \<and> reservations w' = reservations w \<and> allocations w' = allocations w"
    have "wp (setSafetyStock t s l n) (\<lambda>_. ?same) (\<lambda>_. ?same) w"
      by (auto simp: setSafetyStock_def wp split: option.split)
    from wp_conj [OF this wp_setSafetyStock [OF commitInvD(1) [OF w]]]
    show "wp (setSafetyStock t s l n) (\<lambda>_. commitInv) (\<lambda>_. commitInv) w"
      by (rule wp_mono) (use commitInv_same [OF w] commitInv_nextId [OF w] in auto)
  qed
  show "keeps orderInv (setSafetyStock t s l n)"
    unfolding setSafetyStock_def by (intro keepsI keeps_modify) simp_all
qed (rule keeps_stock_setSafetyStock)

lemma keeps_core_inbound: "keeps coreInv (create_inbound t s l n due ref)" "keeps coreInv (receive_inbound t i q)"
  unfolding create_inbound_def receive_inbound_def Let_def
  by (intro keepsI keeps_core_neutral; simp add: deltaOf_def noDeltas_def orZero_def)+

lemma keeps_core_reads: "keeps coreInv (network d t s)" "keeps coreInv (atLocation d t s l)"
  unfolding network_def atLocation_def cached_def by (intro keepsI keeps_modify; simp)+

lemma keeps_core_forecast: "keeps coreInv (forecastBySkuId d t i h n)"
  unfolding forecastBySkuId_def forecast_compute_def by (intro keepsI keeps_now keeps_core_reads)

lemma keeps_core_gets: "keeps coreInv (getSku t i)" "keeps coreInv (getLocation t i)" "keeps coreInv (get_order t i)"
  "keeps coreInv (listSkus col t q)" "keeps coreInv (listLocations t q)"
  unfolding getSku_def requireSku_def getLocation_def requireLocation_def listSkus_def listLocations_def
  by (intro keepsI keeps_get_order)+

text \<open>On consistent books the repair finds nothing.\<close>

lemma keeps_core_reconcile: "keeps coreInv (reconcileTenant t repair)"
proof (rule keeps_intro)
  fix w assume w: "coreInv w"
  have clean: "checkRow (derivedMap (Some t) w) repair s = ret []" if "s \<in> set (filter (\<lambda>s. inScope (Some t) (sn_tenantId s)) (snapshots w))" for s
  proof -
    have "sn_bal s = derivedFor (Some t) w s"
      using that balance_row [of w s] coreInvD(1) [OF w] derivedFor_tenant [of s t w] by (auto simp: stockInv_def inScope_def fun_eq_iff)
    then show ?thesis by (simp add: checkRow_def derived_default Let_def)
  qed
  have "wp (collect (filter (\<lambda>s. inScope (Some t) (sn_tenantId s)) (snapshots w)) (checkRow (derivedMap (Some t) w) repair)) (\<lambda>_. coreInv) (\<lambda>_. coreInv) w"
    by (rule wp_collect [where I = "\<lambda>_. coreInv"]) (use w clean in \<open>auto simp: wp\<close>)
  then show "wp (reconcileTenant t repair) (\<lambda>_. coreInv) (\<lambda>_. coreInv) w"
    by (simp add: reconcileTenant_def run_def wp)
qed

interpretation draws: row_keeping "\<lambda>K w. n \<le> nextId w" for n
  by unfold_locales (simp_all add: captured_def raised_def Let_def)

lemma gateway_ok: "payment_gateway (gatewayOf env)"
  unfolding gatewayOf_def by (rule selected.payment_gateway_axioms)

lemma keeps_core_dispatch: "keeps coreInv (dispatch cfg t i)"
proof -
  have "keeps coreInv (upperRef pre n)" for pre n unfolding upperRef_def by (intro keepsI)
  then have "keeps coreInv (wp_dispatch mockWms sh ls)" "keeps coreInv (wp_dispatch shipBobWms sh ls)" for sh ls
    by (auto simp: mockWms_def shipBobWms_def intro!: keepsI)
  moreover have "providerFor cfg \<in> {mockWms, shipBobWms}"
    by (auto simp: providerFor_def wmsRegistry_def split: option.split if_splits)
  ultimately have "keeps coreInv (wmsDispatch cfg sh ls)" for sh ls unfolding wmsDispatch_def by auto
  moreover have "keeps coreInv (updateShipment i f)" for f
    by (rule keeps_intro) (simp add: updateShipment_def wp split: option.split)
  ultimately show ?thesis unfolding dispatch_def requireShipment_def by (intro keepsI)
qed

lemma coreInv_released: "coreInv w \<Longrightarrow> holdsReleased is st w w' \<Longrightarrow> coreInv w'"
  by (auto simp: coreInv_def holdsReleased_def intro: orderInv_stockSide)

lemma keeps_core_process: "keeps coreInv (process job)"
proof (rule keeps_intro)
  fix w assume w: "coreInv w"
  note inv = coreInvD(1,2) [OF w]
  have one: "wp (release i EXPIRED) (\<lambda>_. coreInv) (\<lambda>_. coreInv) w" for i
    by (rule wp_mono [OF wp_release [OF inv]])
      (use w coreInvD(3) [OF w] in \<open>auto simp: holdReleased_def coreInv_def intro: orderInv_stockSide split: if_splits\<close>)
  have all: "wp (sweepExpired ts) (\<lambda>_. coreInv) (\<lambda>_. coreInv) w" for ts
    by (rule wp_mono [OF wp_sweepExpired [OF inv]]) (use coreInv_released [OF w] in auto)
  show "wp (process job) (\<lambda>_. coreInv) (\<lambda>_. coreInv) w"
    by (cases job) (use one all w in \<open>simp_all add: wp\<close>)
qed

section \<open>The invariant of the system\<close>

definition sysInv :: "world \<Rightarrow> bool" where
  "sysInv w \<longleftrightarrow> coreInv w \<and> linksOk {} w"

lemma sysInvD: "sysInv w \<Longrightarrow> coreInv w" "sysInv w \<Longrightarrow> linksOk {} w" "sysInv w \<Longrightarrow> shipInv w" "sysInv w \<Longrightarrow> booksOk w"
  by (simp_all add: sysInv_def linksOk_def booksOk_def)

lemma sysInv_holdsOwned:
  assumes "sysInv w" "findTenantOrder t i w = Some ord"
  shows "holdsOwned t i w"
  unfolding holdsOwned_def
proof (intro ballI impI)
  fix r assume r: "r \<in> set (reservations w)" "rv_orderId r = Some i"
  have "(i, t) \<in> set (orderIds w)" using findTenantOrderD [OF assms(2)] by (force simp: orderIds_def)
  moreover have "(i, rv_tenantId r) \<in> set (orderIds w)" using sysInvD(2) [OF assms(1)] r by (simp add: linksOk_def)
  moreover have "distinct (map fst (orderIds w))" using sysInvD(2) [OF assms(1)] by (simp add: linksOk_def)
  ultimately show "rv_tenantId r = t" using eq_key_imp_eq_value by metis
qed

text \<open>Steps whose specification needs the references between rows.\<close>

lemma core_source: "sysInv w \<Longrightarrow> wp (source_order env t i) (\<lambda>_. coreInv) (\<lambda>_. coreInv) w"
proof (cases "findTenantOrder t i w")
  case (Some ord)
  assume w: "sysInv w"
  show ?thesis
    by (rule wp_mono [OF wp_source_order [OF sysInvD(1) [OF w] sysInv_holdsOwned [OF w Some]]])
      (use sysInvD(1) [OF w] in \<open>auto simp: orderSourced_def\<close>)
qed (simp add: source_order_def wp sysInv_def)

lemma core_shipping:
  assumes w: "sysInv w"
  shows "wp (pick (gatewayOf env) t i) (\<lambda>_. coreInv) (\<lambda>_. coreInv) w" "wp (markReadyForPickup (gatewayOf env) t i) (\<lambda>_. coreInv) (\<lambda>_. coreInv) w"
    "wp (pickUp (gatewayOf env) t i) (\<lambda>_. coreInv) (\<lambda>_. coreInv) w" "wp (deliver (gatewayOf env) t i) (\<lambda>_. coreInv) (\<lambda>_. coreInv) w"
    "wp (ship (gatewayOf env) t i c) (\<lambda>_. coreInv) (\<lambda>_. coreInv) w"
proof -
  note inv = sysInvD(1) [OF w] sysInvD(3) [OF w] and gw = gateway_ok [of env]
  show "wp (pick (gatewayOf env) t i) (\<lambda>_. coreInv) (\<lambda>_. coreInv) w"
    by (rule wp_mono [OF payment_gateway.wp_pick [OF gw inv]]) (use inv in \<open>auto simp: stepTaken_def\<close>)
  show "wp (markReadyForPickup (gatewayOf env) t i) (\<lambda>_. coreInv) (\<lambda>_. coreInv) w"
    by (rule wp_mono [OF payment_gateway.wp_markReady [OF gw inv]]) (use inv in \<open>auto simp: stepTaken_def\<close>)
  show "wp (pickUp (gatewayOf env) t i) (\<lambda>_. coreInv) (\<lambda>_. coreInv) w"
    by (rule wp_mono [OF payment_gateway.wp_pickUp [OF gw inv]]) (use inv in \<open>auto simp: leftWarehouse_def\<close>)
  show "wp (deliver (gatewayOf env) t i) (\<lambda>_. coreInv) (\<lambda>_. coreInv) w"
    by (rule wp_mono [OF payment_gateway.wp_deliver [OF gw inv]]) (use inv in \<open>auto simp: stepTaken_def\<close>)
  have "wp (ship (gatewayOf env) t i c) (\<lambda>_ w'. nextId w \<le> nextId w') (\<lambda>_ w'. nextId w \<le> nextId w') w"
    by (rule keeps_wp [OF draws.ship [OF gw]]) simp
  from wp_conj [OF payment_gateway.wp_ship [OF gw inv] this]
  show "wp (ship (gatewayOf env) t i c) (\<lambda>_. coreInv) (\<lambda>_. coreInv) w"
    by (rule wp_mono) (use coreInv_nextId [OF inv(1)] in \<open>auto simp: leftWarehouse_def\<close>)
qed

lemma core_returns:
  assumes w: "sysInv w"
  shows "wp (create_return t dto) (\<lambda>_. coreInv) (\<lambda>_. coreInv) w" "wp (receive_return (gatewayOf env) t i) (\<lambda>_. coreInv) (\<lambda>_. coreInv) w"
proof -
  have "wp (create_return t dto) (\<lambda>_ w'. nextId w \<le> nextId w') (\<lambda>_ w'. nextId w \<le> nextId w') w"
    by (rule keeps_wp [OF create_return_draws]) simp
  from wp_conj [OF wp_create_return this] show "wp (create_return t dto) (\<lambda>_. coreInv) (\<lambda>_. coreInv) w"
    by (rule wp_mono) (use booksOk_raised [OF sysInvD(4) [OF w]] coreInv_nextId [OF sysInvD(1) [OF w]] booksOkD(1) in auto)
  show "wp (receive_return (gatewayOf env) t i) (\<lambda>_. coreInv) (\<lambda>_. coreInv) w"
    unfolding gatewayOf_def
    by (rule wp_mono [OF wp_receive_return [OF sysInvD(4) [OF w]]]) (use sysInvD(1) [OF w] in \<open>auto simp: returnReceived_def booksOkD\<close>)
qed

section \<open>Requests in between\<close>

text \<open>
  Whatever other requests commit during the back-off of a transaction, none of it is seen: on consistent
  books the bodies that are retried fail, if at all, for reasons that are not retried.
\<close>

lemma retry_alone:
  assumes "wp fn (\<lambda>_ _. True) (\<lambda>e _. \<not> isRetryable e) s" "0 < n"
  shows "retryOnConflict n env fn s = fn s"
proof -
  have "wp fn (\<lambda>x t. fn s = (Inr x, t)) (\<lambda>e t. fn s = (Inl e, t) \<and> \<not> isRetryable e) s"
    using assms(1) by (auto simp: wp_iff)
  from wp_retry_once [OF this _ assms(2), of env]
  have "wp (retryOnConflict n env fn) (\<lambda>x t. fn s = (Inr x, t)) (\<lambda>e t. fn s = (Inl e, t) \<and> \<not> isRetryable e) s" by simp
  then show ?thesis
    by (cases "retryOnConflict n env fn s"; cases "fst (retryOnConflict n env fn s)") (auto simp: wp_iff)
qed

lemma not_retryable: "\<not> isRetryable (BadRequest m)"
  by simp

lemma reserve_alone:
  assumes "coreInv w"
  shows "reserveForOrder ttl env i w = reserveForOrder ttl (\<lambda>_ w. w) i w"
proof -
  note ls = linesOf_ok [OF coreInvD(3) [OF assms], of i]
  have nonneg: "\<forall>l \<in> set (linesOf i w). 0 \<le> ol_quantity l" using ls(2) by (simp add: less_imp_le)
  have "wp (transaction (collect (linesOf i w) (reserveLine ttl ord))) (\<lambda>_ _. True) (\<lambda>e _. \<not> isRetryable e) w" for ord
    unfolding wp_transaction
    by (rule wp_mono [OF wp_reserveLines [OF coreInvD(1,2) [OF assms] ls(1) nonneg]]) (auto simp: not_retryable)
  from retry_alone [OF this, of defaultAttempts]
  have "retryOnConflict defaultAttempts f (transaction (collect (linesOf i w) (reserveLine ttl ord))) w =
      transaction (collect (linesOf i w) (reserveLine ttl ord)) w" for f ord
    by (simp add: defaultAttempts_def)
  then show ?thesis by (simp add: reserveForOrder_def bind_def gets_def orThrow_def ret_def throw_def split: option.split)
qed

lemma source_alone:
  assumes w: "sysInv w"
  shows "source_order env t i w = source_order (\<lambda>_ w. w) t i w"
proof (cases "\<exists>ord. findTenantOrder t i w = Some ord \<and> o_status ord = OrderStatus.VALIDATED")
  case True
  then obtain ord where ord: "findTenantOrder t i w = Some ord" "o_status ord = OrderStatus.VALIDATED" by blast
  note own = sysInv_holdsOwned [OF w ord(1)]
  have "wp (transaction (sourceTx st t ord (linesOf i w))) (\<lambda>_ _. True) (\<lambda>e _. \<not> isRetryable e) w" for st
    unfolding wp_transaction by (rule wp_mono [OF wp_sourceTx [OF sysInvD(1) [OF w] ord own refl]]) (auto simp: not_retryable)
  from retry_alone [OF this, of defaultAttempts]
  have "retryOnConflict defaultAttempts f (transaction (sourceTx st t ord (linesOf i w))) w = transaction (sourceTx st t ord (linesOf i w)) w" for f st
    by (simp add: defaultAttempts_def)
  then show ?thesis
    using ord by (simp add: source_order_def sourceCommit_def bind_def andThen_def gets_def orThrow_def throwIf_def ret_def)
next
  case False
  then show ?thesis
    by (auto simp: source_order_def bind_def andThen_def gets_def orThrow_def throwIf_def ret_def throw_def split: option.split)
qed

lemma create_alone:
  assumes "coreInv w" "dtoOk dto"
  shows "create_order ttl env t dto w = create_order ttl (\<lambda>_ w. w) t dto w"
proof (cases "transaction (createOrderTx t dto) w")
  case (Pair r v)
  show ?thesis
  proof (cases r)
    case (Inr ord)
    have "wp (transaction (createOrderTx t dto)) (\<lambda>_. coreInv) (\<lambda>_ _. True) w"
      unfolding wp_transaction by (rule wp_mono [OF wp_createOrderTx]) (use coreInv_captured assms in auto)
    then have "coreInv v" using Pair Inr by (auto simp: wp_iff)
    from reserve_alone [OF this, of ttl env "o_id ord"]
    have reserved: "reserveForOrder ttl env (o_id ord) v = reserveForOrder ttl (\<lambda>_ w. w) (o_id ord) v" .
    show ?thesis
      by (auto simp: create_order_def bind_def andThen_def Pair Inr ret_def reserved)
  qed (simp add: create_order_def bind_def Pair)
qed

definition alone :: "systemEnv \<Rightarrow> systemEnv" where
  "alone env = env\<lparr>sx_others := (\<lambda>_ w. w)\<rparr>"

lemma alone_sel [simp]:
  "sx_others (alone env) = (\<lambda>_ w. w)" "sx_ttlSeconds (alone env) = sx_ttlSeconds env" "sx_validation (alone env) = sx_validation env"
  "gatewayOf (alone env) = gatewayOf env" "sx_wms (alone env) = sx_wms env" "sx_horizonDays (alone env) = sx_horizonDays env"
  "sx_contains (alone env) = sx_contains env" "sx_collate (alone env) = sx_collate env" "sx_number (alone env) = sx_number env"
  by (simp_all add: alone_def gatewayOf_def)

lemma andThen_alone:
  assumes "wp m (\<lambda>_ v. v = w) (\<lambda>_ _. True) w" "n w = n' w"
  shows "andThen m n w = andThen m n' w"
  using assms by (cases "m w") (auto simp: wp_iff andThen_def bind_def split: sum.split)

lemma serve_alone [simp]:
  "serveInventory (alone env) t q = serveInventory env t q" "serveFulfillment (alone env) t f = serveFulfillment env t f"
  "serveCatalog (alone env) t c = serveCatalog env t c" "serveReports (alone env) t p = serveReports env t p"
  by (cases q, simp_all add: serveInventory_def)
    (cases f, simp_all add: serveFulfillment_def, cases c, simp_all add: serveCatalog_def, cases p, simp_all add: serveReports_def)

lemma handle_alone:
  assumes "sysInv w"
  shows "snd (handle env t r w) = snd (handle (alone env) t r w)"
proof -
  note core = sysInvD(1) [OF assms]
  have reserve: "reserve_order (sx_ttlSeconds env) (sx_others env) t i w = reserve_order (sx_ttlSeconds env) (\<lambda>_ w. w) t i w" for i
  proof -
    note same = reserve_alone [OF core, of "sx_ttlSeconds env" "sx_others env" i]
    have "wp (get_order t i) (\<lambda>_ v. v = w) (\<lambda>_ _. True) w"
      by (simp add: get_order_def wp split: option.split)
    from andThen_alone [OF this, where n = "reserveForOrder (sx_ttlSeconds env) (sx_others env) i" and n' = "reserveForOrder (sx_ttlSeconds env) (\<lambda>_ w. w) i"] same
    show ?thesis by (simp only: reserve_order_def)
  qed
  show ?thesis
  proof (cases r)
    case (Orders q)
    then show ?thesis
    proof (cases q)
      case (PostOrder dto)
      have "dtoOk dto" if "createOrderOk dto" using that by (auto simp: createOrderOk_def dtoOk_def list_all_iff orderLineDtoOk_def)
      then show ?thesis
        using create_alone [OF core, of dto "sx_ttlSeconds env" "sx_others env" t] Orders PostOrder by (auto simp: handle_defs)
    next
      case (PostReserve i)
      then show ?thesis using reserve [of i] Orders by (auto simp: handle_defs)
    next
      case (PostSource i)
      then show ?thesis using source_alone [OF assms, of "sx_others env" t i] Orders by (auto simp: handle_defs)
    qed (simp_all add: handle_defs)
  qed (simp_all add: handle_def)
qed

context row_keeping
begin

lemma receiveStock: "keeps (I K) (receive t s l n why)"
  unfolding receive_def by (rule applyMovement)

lemma adjustStock: "keeps (I K) (adjust t s l n why)"
  unfolding adjust_def by (rule applyMovement)

lemma releaseOrder: "keeps (I K) (release_order t i)"
  unfolding release_order_def by (rule transition)

lemma reserveOrder: "(\<And>K n w. I K w \<Longrightarrow> I K (env n w)) \<Longrightarrow> keeps (I K) (reserve_order ttl env t i)"
  unfolding reserve_order_def by (intro keepsI get_order reserveForOrder)

lemma reads: "keeps (I K) (atLocation d t s l)"
  unfolding atLocation_def cached_def by (intro keepsI keeps_modify outside)

lemma forecast_read: "keeps (I K) (forecastBySkuId d t i h n)"
  unfolding forecastBySkuId_def forecast_compute_def by (intro keepsI keeps_now network)

lemma catalog_reads: "keeps J (getSku t i)" "keeps J (getLocation t i)" "keeps J (listSkus col t q)" "keeps J (listLocations t q)"
  unfolding getSku_def requireSku_def getLocation_def requireLocation_def listSkus_def listLocations_def
  by (intro keepsI)+

lemma catalog_ops:
  "keeps (I K) (createSku t d1)" "keeps (I K) (updateSku t i d2)" "keeps (I K) (createLocation t d3)" "keeps (I K) (updateLocation t i d4)"
  unfolding createSku_def insertSku_def updateSku_def requireSku_def createLocation_def insertLocation_def updateLocation_def
    requireLocation_def
  by - (intro keepsI freshId outside; assumption)+

lemma process: "keeps (I K) (process job)"
  by (cases job) (auto intro!: keepsI release sweepExpired)

lemma alone_ops:
  "keeps (I K) (create_order ttl (\<lambda>_ w. w) t dto)" "keeps (I K) (reserve_order ttl (\<lambda>_ w. w) t i)" "keeps (I K) (source_order (\<lambda>_ w. w) t i)"
  by (rule create_order reserveOrder source_order; assumption)+

lemmas request_ops = stock_ops create_rule update_rule receiveStock adjustStock releaseOrder dispatch create_return reads forecast_read catalog_ops catalog_reads [where J = "I K" for K]
  get_order [where J = "I K" for K] alone_ops
  validate_order [OF gateway_ok] cancel [OF gateway_ok] pick [OF gateway_ok] markReadyForPickup [OF gateway_ok]
  pickUp [OF gateway_ok] ship [OF gateway_ok] deliver [OF gateway_ok] receive_return [OF gateway_ok]

lemmas request_states = request_ops [THEN keeps_snd [where I = "I K" for K]]

lemma handled:
  assumes "I K w"
  shows "I K (snd (handle (alone env) t r w))"
proof (cases r)
  case (Inventory q)
  then show ?thesis
    by (cases q) (auto simp: handle_defs request_states [OF assms] assms split: option.split)
next
  case (Orders q)
  then show ?thesis
    by (cases q) (auto simp: handle_defs request_states [OF assms] assms)
next
  case (Rules q)
  then show ?thesis
    by (cases q) (auto simp: handle_defs request_states [OF assms] assms)
next
  case (Fulfillment q)
  then show ?thesis
    by (cases q) (auto simp: handle_defs request_states [OF assms] assms)
next
  case (Catalog q)
  then show ?thesis
    by (cases q) (auto simp: handle_defs request_states [OF assms] assms)
next
  case (Admin q)
  then show ?thesis
    by (cases q) (auto simp: handle_defs request_states [OF assms] assms)
next
  case (Insight q)
  then show ?thesis
    by (cases q) (auto simp: handle_defs request_states [OF assms] assms)
qed

end

section \<open>Records that are only appended to\<close>

definition extends :: "world \<Rightarrow> world \<Rightarrow> bool" where
  "extends w w' \<longleftrightarrow> prefix (ledger w) (ledger w') \<and> prefix (orderEvents w) (orderEvents w')"

interpretation trail: row_keeping "\<lambda>K w. extends w0 w" for w0
  by unfold_locales (auto simp: extends_def captured_def raised_def Let_def intro: prefix_append)

lemma extends_refl [simp]: "extends w w"
  by (simp add: extends_def)

section \<open>Every step keeps the invariant\<close>

lemma wp_snd: "wp m (\<lambda>_. J) (\<lambda>_. J) w \<Longrightarrow> J (snd (m w))"
  by (cases "m w"; cases "fst (m w)") (auto simp: wp_iff)

lemmas core_snd = keeps_snd [where I = coreInv]

lemma keeps_core_reserve_order:
  assumes "\<And>n w. coreInv w \<Longrightarrow> coreInv (env n w)"
  shows "keeps coreInv (reserve_order ttl env t i)"
  unfolding reserve_order_def by (intro keepsI keeps_get_order keeps_core_reserveForOrder assms)

lemmas core_ops = keeps_core_stock keeps_core_transfer keeps_core_safety keeps_core_inbound keeps_core_reads keeps_core_gets keeps_core_forecast keeps_core_reconcile
  keeps_core_catalog keeps_core_rules payment_gateway.keeps_core_validate_order [OF gateway_ok] payment_gateway.keeps_core_cancel [OF gateway_ok] keeps_core_dispatch keeps_core_process

lemma core_handled:
  assumes w: "sysInv w"
  shows "coreInv (snd (handle (alone env) t r w))"
proof -
  note core = sysInvD(1) [OF w]
  note states = core_ops [THEN core_snd, OF core]
    core_shipping [OF w, THEN wp_snd] core_returns [OF w, THEN wp_snd] core_source [OF w, THEN wp_snd]
  have reserve: "coreInv (snd (reserve_order ttl (\<lambda>_ w. w) t i w))" for ttl i
    by (rule core_snd [OF keeps_core_reserve_order core])
  have create: "coreInv (snd (create_order ttl (\<lambda>_ w. w) t dto w))" if "createOrderOk dto" for ttl dto
    by (rule core_snd [OF keeps_core_create_order core])
      (use that in \<open>auto simp: createOrderOk_def dtoOk_def list_all_iff orderLineDtoOk_def\<close>)
  have release: "coreInv (snd (release_order t i w))" for i
    by (rule core_snd [OF _ core]) (simp add: release_order_def keeps_core_transition)
  show ?thesis
  proof (cases r)
    case (Inventory q)
    then show ?thesis by (cases q) (auto simp: handle_defs states core split: option.split)
  next
    case (Orders q)
    then show ?thesis by (cases q) (auto simp: handle_defs states core reserve create release)
  next
    case (Rules q)
    then show ?thesis by (cases q) (auto simp: handle_defs states core)
  next
    case (Fulfillment q)
    then show ?thesis by (cases q) (auto simp: handle_defs states core)
  next
    case (Catalog q)
    then show ?thesis by (cases q) (auto simp: handle_defs states core)
  next
    case (Admin q)
    then show ?thesis by (cases q) (auto simp: handle_defs states core)
  next
    case (Insight q)
    then show ?thesis by (cases q) (auto simp: handle_defs states core)
  qed
qed

lemma step_invariant:
  assumes step: "system_step env w w'" and w: "sysInv w"
  shows "sysInv w' \<and> extends w w'"
  using step
proof (cases rule: system_step.cases)
  case (handled t r)
  have same: "w' = snd (handle (alone env) t r w)" unfolding handled by (rule handle_alone [OF w])
  have "coreInv w'" unfolding same by (rule core_handled [OF w])
  moreover have "linksOk {} w'" unfolding same by (rule links.handled [OF sysInvD(2) [OF w]])
  moreover have "extends w w'" unfolding same by (rule trail.handled) simp
  ultimately show ?thesis by (simp add: sysInv_def)
next
  case (processed job)
  have "coreInv w'" unfolding processed by (rule core_snd [OF keeps_core_process sysInvD(1) [OF w]])
  moreover have "linksOk {} w'" unfolding processed by (rule keeps_snd [OF links.process sysInvD(2) [OF w]])
  moreover have "extends w w'" unfolding processed by (rule keeps_snd [OF trail.process]) simp
  ultimately show ?thesis by (simp add: sysInv_def)
next
  case (reconciled name)
  show ?thesis unfolding reconciled by (rule keeps_snd [OF keeps_processReconciliation]) (simp add: w)
next
  case (elapsed ts)
  then show ?thesis
    using w links.outside(6) [OF sysInvD(2) [OF w]] by (simp add: sysInv_def extends_def)
next
  case (expired key)
  then show ?thesis
    using w links.outside(1) [OF sysInvD(2) [OF w]] by (simp add: expireCache_def sysInv_def extends_def modify_def)
qed

lemma run_invariant: "rtranclp (system_step env) w w' \<Longrightarrow> sysInv w \<Longrightarrow> sysInv w'"
  by (induction rule: rtranclp_induct) (auto dest: step_invariant)

section \<open>Specification: a journal and a life cycle\<close>

text \<open>
  What the service is, seen from outside: a journal of stock movements that is only ever continued, in
  batches that leave no total negative, and orders that are opened once and then follow the life cycle.
\<close>

type_synonym journal = "(stockKey \<times> buckets) list"

definition postedTotal :: "journal \<Rightarrow> stockKey \<Rightarrow> buckets" where
  "postedTotal js k = sumWhere (\<lambda>j. fst j = k) snd js"

inductive book_step :: "journal \<times> (ident \<Rightarrow> OrderStatus option) \<Rightarrow> journal \<times> (ident \<Rightarrow> OrderStatus option) \<Rightarrow> bool" where
  posted: "\<forall>k. nonneg (postedTotal (js @ rows) k) \<Longrightarrow> book_step (js, st) (js @ rows, st)"
| opened: "st i = None \<Longrightarrow> book_step (js, st) (js, st(i \<mapsto> OrderStatus.CREATED))"
| advanced: "st i = Some a \<Longrightarrow> canTransition a b \<Longrightarrow> book_step (js, st) (js, st(i \<mapsto> b))"

definition journalOf :: "world \<Rightarrow> journal" where
  "journalOf w = map (\<lambda>l. (lg_key l, lg_delta l)) (ledger w)"

definition statusOf :: "world \<Rightarrow> ident \<Rightarrow> OrderStatus option" where
  "statusOf w i = map_option o_status (findOrder i w)"

lemma postedTotal_journalOf: "postedTotal (journalOf w) = ledgerSum w"
proof -
  have "sumWhere (\<lambda>j. fst j = k) snd (map (\<lambda>l. (lg_key l, lg_delta l)) ls) = sumWhere (\<lambda>l. lg_key l = k) lg_delta ls" for ls k
    by (induction ls) simp_all
  then show ?thesis by (simp add: postedTotal_def journalOf_def ledgerSum_def fun_eq_iff)
qed

text \<open>The status after a list of events.\<close>

definition statusAfter :: "orderEvent list \<Rightarrow> ident \<Rightarrow> OrderStatus option" where
  "statusAfter es i = (let h = filter (\<lambda>e. oe_orderId e = i) es in if h = [] then None else Some (oe_toStatus (last h)))"

lemma statusAfter_snoc: "statusAfter (es @ [e]) = (statusAfter es)(oe_orderId e \<mapsto> oe_toStatus e)"
  by (auto simp: statusAfter_def Let_def fun_eq_iff)

lemma statusOf_events:
  assumes "orderInv w"
  shows "statusOf w = statusAfter (orderEvents w)"
proof
  fix i
  show "statusOf w i = statusAfter (orderEvents w) i"
  proof (cases "findOrder i w")
    case None
    then have "i \<notin> o_id ` set (orders w)" by (auto simp: findOrder_def find_None_iff)
    then have "filter (\<lambda>e. oe_orderId e = i) (orderEvents w) = []" using assms by (auto simp: orderInv_def filter_empty_conv)
    then show ?thesis using None by (simp add: statusOf_def statusAfter_def)
  next
    case (Some ord)
    then have ord: "ord \<in> set (orders w)" "o_id ord = i" by (auto simp: findOrder_def dest: find_SomeD)
    then have "historyOk (history w i) (o_status ord)" using assms by (auto simp: orderInv_def)
    then obtain path where path: "map oe_toStatus (history w i) = OrderStatus.CREATED # path" "last (OrderStatus.CREATED # path) = o_status ord"
      by (auto simp: historyOk_def)
    then have "history w i \<noteq> []" "oe_toStatus (last (history w i)) = o_status ord"
      using last_map [of "history w i" oe_toStatus] by auto
    then show ?thesis using Some by (simp add: statusOf_def statusAfter_def history_def)
  qed
qed

text \<open>Events that end in legal histories open orders and advance them.\<close>

lemma event_step:
  assumes hist: "\<And>i. prefix (filter (\<lambda>x. oe_orderId x = i) (es @ [e])) (h i)"
    and ok: "\<And>i. h i \<noteq> [] \<Longrightarrow> \<exists>path. map oe_toStatus (h i) = OrderStatus.CREATED # path \<and> legalPath OrderStatus.CREATED path"
  shows "book_step (js, statusAfter es) (js, statusAfter (es @ [e]))"
proof -
  let ?i = "oe_orderId e" and ?f = "filter (\<lambda>x. oe_orderId x = oe_orderId e) es"
  from hist [of ?i] obtain rest where rest: "h ?i = ?f @ e # rest" by (auto elim: prefixE)
  obtain path where path: "map oe_toStatus (h ?i) = OrderStatus.CREATED # path" "legalPath OrderStatus.CREATED path"
    using ok [of ?i] rest by auto
  show ?thesis
  proof (cases ?f rule: rev_cases)
    case Nil
    then have "oe_toStatus e = OrderStatus.CREATED" using path(1) rest by simp
    then show ?thesis using opened [of "statusAfter es" ?i js] Nil by (simp add: statusAfter_snoc statusAfter_def)
  next
    case (snoc g a)
    have "map oe_toStatus g @ oe_toStatus a # oe_toStatus e # map oe_toStatus rest = OrderStatus.CREATED # path"
      using path(1) rest snoc by simp
    then have "canTransition (oe_toStatus a) (oe_toStatus e)"
      using path(2) by (cases g) (auto simp: legalPath_append)
    moreover have "statusAfter es ?i = Some (oe_toStatus a)" using snoc by (simp add: statusAfter_def)
    ultimately show ?thesis using advanced [of "statusAfter es" ?i _ _ js] by (simp add: statusAfter_snoc)
  qed
qed

lemma event_steps:
  assumes "\<And>i. prefix (filter (\<lambda>x. oe_orderId x = i) (es @ new)) (h i)"
    and ok: "\<And>i. h i \<noteq> [] \<Longrightarrow> \<exists>path. map oe_toStatus (h i) = OrderStatus.CREATED # path \<and> legalPath OrderStatus.CREATED path"
  shows "rtranclp book_step (js, statusAfter es) (js, statusAfter (es @ new))"
  using assms(1)
proof (induction new rule: rev_induct)
  case (snoc e new)
  have "prefix (filter (\<lambda>x. oe_orderId x = i) (es @ new)) (h i)" for i
    using snoc.prems [of i] by (auto intro: append_prefixD)
  note before = snoc.IH [OF this]
  have "prefix (filter (\<lambda>x. oe_orderId x = i) ((es @ new) @ [e])) (h i)" for i using snoc.prems [of i] by simp
  from event_step [OF this ok] have "book_step (js, statusAfter (es @ new)) (js, statusAfter ((es @ new) @ [e]))" .
  with before show ?case by simp
qed simp

text \<open>One step of the system is a batch of the journal and some steps of orders.\<close>

lemma extends_refines:
  assumes w: "coreInv w" and w': "coreInv w'" and ext: "extends w w'"
  shows "rtranclp book_step (journalOf w, statusOf w) (journalOf w', statusOf w')"
proof -
  obtain rows es where new: "ledger w' = ledger w @ rows" "orderEvents w' = orderEvents w @ es"
    using ext by (auto simp: extends_def elim!: prefixE)
  have js: "journalOf w' = journalOf w @ map (\<lambda>l. (lg_key l, lg_delta l)) rows" by (simp add: journalOf_def new)
  have "\<forall>k. nonneg (postedTotal (journalOf w') k)"
    using coreInvD(1) [OF w'] by (simp add: postedTotal_journalOf stockInv_def)
  then have "book_step (journalOf w, statusOf w) (journalOf w', statusOf w)" unfolding js by (rule posted)
  moreover have "rtranclp book_step (journalOf w', statusAfter (orderEvents w)) (journalOf w', statusAfter (orderEvents w @ es))"
  proof (rule event_steps [where h = "history w'"])
    fix i show "prefix (filter (\<lambda>x. oe_orderId x = i) (orderEvents w @ es)) (history w' i)" by (simp add: history_def new)
  next
    fix i assume "history w' i \<noteq> []"
    then obtain e where "e \<in> set (orderEvents w')" "oe_orderId e = i" by (auto simp: history_def filter_empty_conv)
    then obtain ord where "ord \<in> set (orders w')" "o_id ord = i" using coreInvD(3) [OF w'] by (auto simp: orderInv_def)
    then have "historyOk (history w' i) (o_status ord)" using coreInvD(3) [OF w'] by (auto simp: orderInv_def)
    then show "\<exists>path. map oe_toStatus (history w' i) = OrderStatus.CREATED # path \<and> legalPath OrderStatus.CREATED path"
      by (auto simp: historyOk_def)
  qed
  ultimately show ?thesis
    by (simp add: statusOf_events [OF coreInvD(3) [OF w]] statusOf_events [OF coreInvD(3) [OF w']] new converse_rtranclp_into_rtranclp)
qed

section \<open>Properties\<close>

text \<open>
  Property C1.  Whatever requests are served, in whatever order and with whatever others in between of
  their attempts: from consistent books on, every stock row is the sum of its journal and never negative,
  its reserved and allocated units are those of the live holds and open allocations, every order has
  come to its status along the life cycle, and every shipment belongs to the order of its allocations.
\<close>

theorem books_always_kept:
  assumes "sysInv w" "rtranclp (system_step env) w w'"
  shows "balance w' k = ledgerSum w' k \<and> nonneg (balance w' k) \<and>
    bk_reserved (balance w' k) = held w' k \<and> bk_allocated (balance w' k) = committed w' k \<and>
    list_all (\<lambda>ord. historyOk (history w' (o_id ord)) (o_status ord)) (orders w') \<and> shipInv w'"
proof -
  have w': "sysInv w'" by (rule run_invariant [OF assms(2,1)])
  note core = sysInvD(1) [OF w']
  show ?thesis
    using stockInvD(2,3) [OF coreInvD(1) [OF core]] commitInvD(3,4) [OF coreInvD(2) [OF core]] coreInvD(3) [OF core] sysInvD(3) [OF w']
    by (simp add: orderInv_def list_all_iff)
qed

text \<open>A fresh database.\<close>

definition freshWorld :: world where
  "freshWorld = demoWorld\<lparr>snapshots := [], ledger := []\<rparr>"

lemma freshWorld_inv: "sysInv freshWorld"
proof -
  have "stockInv freshWorld" "commitInv freshWorld" "orderInv freshWorld"
    by (simp_all add: stockInv_def commitInv_def orderInv_def orderRows_def snapshotsOk_def commitRows_def nonneg_def
        balance_def findSnapshot_def ledgerSum_def held_def committed_def freshWorld_def demoWorld_sel fun_eq_iff)
  then show ?thesis
    by (simp add: sysInv_def coreInv_def linksOk_def shipInv_def retInv_def orderIds_def freshWorld_def demoWorld_sel)
qed

lemma demoBook_sysInv: "sysInv demoBook"
proof -
  have "linksOk {} demoBook"
    by (simp add: linksOk_def shipInv_def retInv_def orderIds_def demoBook_def demoReserving_def demoOrder_def demoWorld_sel)
  then show ?thesis using demoBook_core by (simp add: sysInv_def)
qed

definition demoServed :: world where
  "demoServed = snd (handle demoSystem 7 (Orders (PostReserve 5)) demoBook)"

lemma demoServed_run: "rtranclp (system_step demoSystem) demoBook demoServed"
  unfolding demoServed_def by (rule r_into_rtranclp, rule system_step.handled)

lemma demoServed_held: "held demoServed (7, 2, 3) = 4"
proof -
  have "demoServed = snd (reserve_order 900 (\<lambda>_ w. w) 7 5 demoBook)"
    by (simp add: demoServed_def handle_defs demoSystem_def)
  moreover have "held (snd (reserve_order 900 (\<lambda>_ w. w) 7 5 demoBook)) (7, 2, 3) = 4" by code_simp
  ultimately show ?thesis by simp
qed

lemma books_always_kept_witness:
  "held demoServed (7, 2, 3) = 4 \<and> bk_reserved (balance demoServed (7, 2, 3)) = 4 \<and> balance demoServed (7, 2, 3) = ledgerSum demoServed (7, 2, 3)"
  using books_always_kept [OF demoBook_sysInv demoServed_run, of "(7, 2, 3)"] demoServed_held by metis

text \<open>
  Property C2.  Every run of the system is a run of the journal and the life cycle: the books move from
  one to the other by posting batches, opening orders and advancing them legally; nothing is ever
  removed from either, and the figures the stock rows show are the totals of the journal.
\<close>

theorem system_refines_books:
  assumes "sysInv w" "rtranclp (system_step env) w w'"
  shows "rtranclp book_step (journalOf w, statusOf w) (journalOf w', statusOf w') \<and> balance w' = postedTotal (journalOf w')"
  using assms(2)
proof (induction rule: rtranclp_induct)
  case base
  then show ?case using stockInvD(3) [OF coreInvD(1) [OF sysInvD(1) [OF assms(1)]]] by (simp add: postedTotal_journalOf)
next
  case (step v w')
  have v: "sysInv v" by (rule run_invariant [OF step(1) assms(1)])
  note w' = step_invariant [OF step(2) v]
  note core = sysInvD(1) [OF v] sysInvD(1) [OF conjunct1 [OF w']]
  show ?case
    using extends_refines [OF core conjunct2 [OF w']] step.IH stockInvD(3) [OF coreInvD(1) [OF core(2)]]
    by (simp add: postedTotal_journalOf) (metis rtranclp_trans)
qed

lemma statusOf_none: "orders w = [] \<Longrightarrow> statusOf w = (\<lambda>_. None)"
  by (simp add: statusOf_def findOrder_def fun_eq_iff)

definition demoReceived :: world where
  "demoReceived = snd (handle demoSystem 7 (Inventory (PostReceipt \<lparr>rs_skuId = 2, rs_locationId = 3, rs_quantity = 10, rs_reason = None\<rparr>)) freshWorld)"

lemma system_refines_books_witness:
  "rtranclp book_step ([], \<lambda>_. None) ([((7, 2, 3), Buckets 10 0 0 0 0)], \<lambda>_. None) \<and> balance demoReceived (7, 2, 3) = Buckets 10 0 0 0 0"
proof -
  have run: "rtranclp (system_step demoSystem) freshWorld demoReceived"
    unfolding demoReceived_def by (rule r_into_rtranclp, rule system_step.handled)
  have eq: "demoReceived = snd (receive 7 2 3 10 None freshWorld)"
    by (simp add: demoReceived_def handle_defs receiveStockOk_def)
  have "journalOf demoReceived = [((7, 2, 3), Buckets 10 0 0 0 0)]" "orders demoReceived = []" "journalOf freshWorld = []" "orders freshWorld = []"
    unfolding eq by code_simp+
  then show ?thesis
    using system_refines_books [OF freshWorld_inv run] by (simp add: statusOf_none postedTotal_def)
qed

end
