(* ===== verification/Assistant.thy ===== *)
theory Assistant
  imports Insight Text
begin

text \<open>
  backend/src/ai/ai.service.ts: the assistant that answers a question by letting a language model call
  read-only tools.  The model behind the HTTP endpoint is a parameter, a function of the requests sent
  before and the one sent now.  A value of a tool call is what JavaScript's \<open>String\<close> and \<open>Number\<close> make of
  it; the texts of the prompt and the tool descriptions are not modelled.
\<close>

section \<open>Messages\<close>

record toolArg =
  ta_text :: string
  ta_number :: "rat option"
  ta_nullish :: bool

datatype toolOutput =
    AvailabilityOutput string availabilityView "availabilityView list"
  | LowStockOutput inventoryReport
  | SummaryOutput orderReport
  | ForecastOutput forecast
  | ErrorOutput string

record functionCall =
  fn_name :: string
  fn_args :: "string \<Rightarrow> toolArg option"

record geminiPart =
  gp_text :: "string option"
  gp_functionCall :: "functionCall option"
  gp_functionResponse :: "(string \<times> toolOutput) option"
  gp_thoughtSignature :: "string option"

datatype geminiRole = UserTurn | ModelTurn

record geminiContent =
  gc_role :: geminiRole
  gc_parts :: "geminiPart list"

record geminiResponse =
  gr_status :: nat
  gr_error :: "string option option"
  gr_candidates :: "geminiPart list option list"

text \<open>A fetch fails, or yields a status and a body.\<close>

datatype fetched = FetchFailed string | Fetched geminiResponse

type_synonym geminiApi = "geminiContent list list \<Rightarrow> geminiContent list \<Rightarrow> fetched"

record aiState =
  ai_world :: world
  ai_requests :: "geminiContent list list"

record aiEnv =
  ae_apiKey :: "string option"
  ae_gemini :: geminiApi
  ae_horizonDays :: int

record askResult =
  ar_answer :: string
  ar_toolsUsed :: "string list"
  ar_steps :: nat

definition onData :: "(world, 'a) op \<Rightarrow> (aiState, 'a) op" where
  "onData = zoom ai_world ai_world_update"

lemma wp_onData [wp]:
  "wp (onData m) Q E = (\<lambda>s. wp m (\<lambda>x w. Q x (s\<lparr>ai_world := w\<rparr>)) (\<lambda>e w. E e (s\<lparr>ai_world := w\<rparr>)) (ai_world s))"
  by (simp add: onData_def wp_zoom)

section \<open>Tools\<close>

fun errText :: "err \<Rightarrow> string" where
  "errText (BadRequest m) = m"
| "errText (NotFound m) = m"
| "errText (Conflict m) = m"
| "errText (Unauthorized m) = m"
| "errText (Forbidden m) = m"
| "errText (ServiceUnavailable m) = m"
| "errText (PrismaKnown code pg) = code"
| "errText (OtherError m) = m"

definition argText :: "(string \<Rightarrow> toolArg option) \<Rightarrow> string \<Rightarrow> string" where
  "argText args name = (case args name of Some a \<Rightarrow> ta_text a | None \<Rightarrow> ''undefined'')"

definition argNumber :: "(string \<Rightarrow> toolArg option) \<Rightarrow> string \<Rightarrow> rat \<Rightarrow> rat option" where
  "argNumber args name fallback =
    (case args name of Some a \<Rightarrow> if ta_nullish a then Some fallback else ta_number a | None \<Rightarrow> Some fallback)"

definition getAvailability :: "int \<Rightarrow> ident \<Rightarrow> (string \<Rightarrow> toolArg option) \<Rightarrow> (world, toolOutput) op" where
  "getAvailability horizonDays tenantId input =
    bind (gets (findSkuByCode tenantId (argText input ''skuCode''))) (\<lambda>found.
    case found of
      None \<Rightarrow> ret (ErrorOutput ''Unknown SKU'')
    | Some k \<Rightarrow>
        bind (network horizonDays tenantId (sk_id k)) (\<lambda>view.
        bind (gets (breakdown horizonDays tenantId (sk_id k))) (\<lambda>byLocation.
        ret (AvailabilityOutput (sk_code k) view byLocation))))"

text \<open>
  Only what is awaited inside the \<open>try\<close> is caught there: the reports and the forecast are returned as
  promises, so their errors pass by the handler.
\<close>

definition runTool :: "int \<Rightarrow> ident \<Rightarrow> string \<Rightarrow> (string \<Rightarrow> toolArg option) \<Rightarrow> (world, toolOutput) op" where
  "runTool horizonDays tenantId name input =
    (if name = ''get_availability'' then
       catchErr (getAvailability horizonDays tenantId input) (\<lambda>e. ret (ErrorOutput (errText e)))
     else if name = ''list_low_stock'' then
       bind (gets (report_inventory tenantId (argNumber input ''threshold'' 5))) (\<lambda>r. ret (LowStockOutput r))
     else if name = ''order_summary'' then bind (gets (report_orders tenantId)) (\<lambda>r. ret (SummaryOutput r))
     else if name = ''forecast_demand'' then
       bind (forecastBySkuCode horizonDays tenantId (argText input ''skuCode'') (argNumber input ''horizonDays'' 14) 30)
         (\<lambda>r. ret (ForecastOutput r))
     else ret (ErrorOutput ''Unknown tool''))"

section \<open>One round trip\<close>

definition sendGemini :: "geminiApi \<Rightarrow> geminiContent list \<Rightarrow> (aiState, fetched) op" where
  "sendGemini api contents =
    bind (gets (\<lambda>s. api (ai_requests s) contents)) (\<lambda>r.
    andThen (modify (\<lambda>s. s\<lparr>ai_requests := ai_requests s @ [contents]\<rparr>)) (ret r))"

definition responseOk :: "geminiResponse \<Rightarrow> bool" where
  "responseOk r \<longleftrightarrow> 200 \<le> gr_status r \<and> gr_status r < 300"

definition firstCandidate :: "geminiResponse \<Rightarrow> geminiPart list option option" where
  "firstCandidate r = (if responseOk r \<and> gr_error r = None then
     (case gr_candidates r of [] \<Rightarrow> None | c # _ \<Rightarrow> Some c) else None)"

definition failureText :: "geminiResponse \<Rightarrow> string" where
  "failureText r =
    (if responseOk r \<and> gr_error r = None then ''Gemini returned no candidates''
     else case gr_error r of Some (Some m) \<Rightarrow> m | _ \<Rightarrow> ''HTTP'')"

definition isTransient :: "geminiResponse \<Rightarrow> bool" where
  "isTransient r \<longleftrightarrow> gr_status r = 503 \<or> gr_status r = 429 \<or>
    list_ex (containsInsensitive (failureText r)) [''high demand'', ''overloaded'', ''temporar'', ''try again'']"

text \<open>The attempts that are left; the first of four is made with four.\<close>

fun generateFrom :: "nat \<Rightarrow> geminiApi \<Rightarrow> geminiContent list \<Rightarrow> (aiState, geminiPart list option) op" where
  "generateFrom 0 api contents = throw (BadRequest ''Gemini request failed: unknown error'')"
| "generateFrom (Suc n) api contents =
    bind (sendGemini api contents) (\<lambda>res.
    case res of
      FetchFailed m \<Rightarrow> throw (OtherError m)
    | Fetched r \<Rightarrow>
        (case firstCandidate r of
           Some c \<Rightarrow> ret c
         | None \<Rightarrow>
             if isTransient r \<and> n \<noteq> 0 then generateFrom n api contents
             else throw (BadRequest (''Gemini request failed: '' @ failureText r))))"

definition maxAttempts :: nat where
  "maxAttempts = 4"

definition generate :: "geminiApi \<Rightarrow> geminiContent list \<Rightarrow> (aiState, geminiPart list option) op" where
  "generate api contents = generateFrom maxAttempts api contents"

section \<open>The conversation\<close>

definition responsePart :: "functionCall \<Rightarrow> toolOutput \<Rightarrow> geminiPart" where
  "responsePart call out = \<lparr>gp_text = None, gp_functionCall = None, gp_functionResponse = Some (fn_name call, out),
     gp_thoughtSignature = None\<rparr>"

definition runCall :: "int \<Rightarrow> ident \<Rightarrow> functionCall \<Rightarrow> (aiState, geminiPart list) op" where
  "runCall horizonDays tenantId call =
    bind (onData (runTool horizonDays tenantId (fn_name call) (fn_args call))) (\<lambda>out. ret [responsePart call out])"

definition answerText :: "geminiPart list \<Rightarrow> string" where
  "answerText parts = trim (joinWith [CHR 0x0A] (map (\<lambda>p. case gp_text p of Some t \<Rightarrow> t | None \<Rightarrow> []) parts))"

definition maxSteps :: nat where
  "maxSteps = 6"

text \<open>The steps that are left, the conversation and the names of the tools used so far.\<close>

fun askFrom :: "nat \<Rightarrow> aiEnv \<Rightarrow> ident \<Rightarrow> geminiContent list \<Rightarrow> string list \<Rightarrow> (aiState, askResult) op" where
  "askFrom 0 env tenantId contents toolsUsed =
    ret \<lparr>ar_answer = ''Stopped after too many tool calls without a final answer.'', ar_toolsUsed = toolsUsed, ar_steps = maxSteps\<rparr>"
| "askFrom (Suc n) env tenantId contents toolsUsed =
    bind (generate (ae_gemini env) contents) (\<lambda>candidate.
    let parts = (case candidate of Some ps \<Rightarrow> ps | None \<Rightarrow> []);
        calls = List.map_filter gp_functionCall parts
    in if calls \<noteq> [] then
         bind (collect calls (runCall (ae_horizonDays env) tenantId)) (\<lambda>responses.
         askFrom n env tenantId
           (contents @ [\<lparr>gc_role = ModelTurn, gc_parts = parts\<rparr>, \<lparr>gc_role = UserTurn, gc_parts = responses\<rparr>])
           (toolsUsed @ map fn_name calls))
       else ret \<lparr>ar_answer = answerText parts, ar_toolsUsed = toolsUsed, ar_steps = maxSteps - n\<rparr>)"

definition question :: "string \<Rightarrow> geminiContent" where
  "question q = \<lparr>gc_role = UserTurn, gc_parts =
     [\<lparr>gp_text = Some q, gp_functionCall = None, gp_functionResponse = None, gp_thoughtSignature = None\<rparr>]\<rparr>"

definition assistantEnabled :: "aiEnv \<Rightarrow> bool" where
  "assistantEnabled env \<longleftrightarrow> ae_apiKey env \<notin> {None, Some []}"

definition ask :: "aiEnv \<Rightarrow> ident \<Rightarrow> string \<Rightarrow> (aiState, askResult) op" where
  "ask env tenantId q =
    andThen (throwIf (\<not> assistantEnabled env) (BadRequest ''AI assistant is not configured''))
    (askFrom maxSteps env tenantId [question q] [])"

section \<open>Lemmas\<close>

text \<open>What a conversation leaves behind: cached answers, and at most so many requests more.\<close>

definition spoke :: "nat \<Rightarrow> aiState \<Rightarrow> aiState \<Rightarrow> bool" where
  "spoke n s s' \<longleftrightarrow> cacheOnly (ai_world s) (ai_world s') \<and> prefix (ai_requests s) (ai_requests s') \<and>
    length (ai_requests s') \<le> length (ai_requests s) + n"

lemma cacheOnly_trans: "cacheOnly u v \<Longrightarrow> cacheOnly v w \<Longrightarrow> cacheOnly u w"
  by (auto simp: cacheOnly_def)

lemma spoke_refl [simp]: "spoke n s s"
  by (simp add: spoke_def)

lemma spoke_trans: "spoke m s t \<Longrightarrow> spoke n t u \<Longrightarrow> spoke (m + n) s u"
  by (auto simp: spoke_def intro: cacheOnly_trans prefix_order.trans)

lemma spoke_weaken: "spoke m s t \<Longrightarrow> m \<le> n \<Longrightarrow> spoke n s t"
  by (simp add: spoke_def)

lemma keeps_catchErr: "keeps J m \<Longrightarrow> (\<And>e. keeps J (h e)) \<Longrightarrow> keeps J (catchErr m h)"
proof (rule keeps_intro)
  fix s assume m: "keeps J m" and h: "\<And>e. keeps J (h e)" and J: "J s"
  obtain x v where run: "m s = (x, v)" by fastforce
  then have "J v" by (rule keepsD [OF m J])
  then show "wp (catchErr m h) (\<lambda>_. J) (\<lambda>_. J) s"
    using keeps_wp [OF h] by (cases x) (simp_all add: wp_def catchErr_def run)
qed

lemma keeps_runTool: "keeps (cacheOnly w) (runTool d t name input)"
proof -
  have avail: "keeps (cacheOnly w) (getAvailability d t input)"
    unfolding getAvailability_def network_def by (intro keepsI keeps_cached)
  show ?thesis
    unfolding runTool_def by (intro keepsI keeps_catchErr keeps_forecastBySkuCode avail)
qed

lemma wp_runCall: "wp (runCall d t call) (\<lambda>_. spoke 0 s) (\<lambda>_. spoke 0 s) s"
proof -
  have "wp (runTool d t (fn_name call) (fn_args call)) (\<lambda>_ w. spoke 0 s (s\<lparr>ai_world := w\<rparr>)) (\<lambda>_ w. spoke 0 s (s\<lparr>ai_world := w\<rparr>)) (ai_world s)"
    by (rule wp_mono [OF keeps_wp [OF keeps_runTool cacheOnly_refl]]) (simp_all add: spoke_def)
  then show ?thesis by (simp add: runCall_def wp)
qed

lemma wp_runCalls: "wp (collect calls (runCall d t)) (\<lambda>_. spoke 0 s) (\<lambda>_. spoke 0 s) s"
proof (rule wp_collect [where I = "\<lambda>_. spoke 0 s"])
  fix call u assume "spoke 0 s u"
  from spoke_trans [OF this, of 0] show "wp (runCall d t call) (\<lambda>_. spoke 0 s) (\<lambda>_. spoke 0 s) u"
    by (intro wp_mono [OF wp_runCall]) simp_all
qed simp

lemma wp_generateFrom: "wp (generateFrom n api contents) (\<lambda>_. spoke n s) (\<lambda>_. spoke n s) s"
proof (induction n arbitrary: s)
  case (Suc n)
  let ?s = "s\<lparr>ai_requests := ai_requests s @ [contents]\<rparr>"
  have one: "spoke 1 s ?s" by (simp add: spoke_def)
  have "wp (generateFrom n api contents) (\<lambda>_. spoke (Suc n) s) (\<lambda>_. spoke (Suc n) s) ?s"
    by (rule wp_mono [OF Suc]) (use spoke_trans [OF one] in auto)
  moreover have "spoke (Suc n) s ?s" by (rule spoke_weaken [OF one]) simp
  ultimately show ?case by (simp add: sendGemini_def wp split: fetched.split option.split)
qed (simp add: wp)

lemma wp_askFrom:
  assumes "n \<le> maxSteps"
  shows "wp (askFrom n env t contents used) (\<lambda>a s'. spoke (4 * n) s s' \<and> ar_steps a \<le> maxSteps \<and> prefix used (ar_toolsUsed a))
    (\<lambda>_. spoke (4 * n) s) s"
  using assms
proof (induction n arbitrary: contents used s)
  case (Suc n)
  let ?Q = "\<lambda>a s'. spoke (4 * Suc n) s s' \<and> ar_steps a \<le> maxSteps \<and> prefix used (ar_toolsUsed a)"
  have rest: "wp (askFrom n env t cs (used @ more)) ?Q (\<lambda>_. spoke (4 * Suc n) s) u" if "spoke 4 s u" for cs more u
    by (rule wp_mono [OF Suc.IH]) (use Suc.prems spoke_trans [OF that] in \<open>auto intro: append_prefixD\<close>)
  have weaker: "spoke (4 * Suc n) s u" if "spoke 4 s u" for u
    by (rule spoke_weaken [OF that]) simp
  have calls: "wp (bind (collect calls (runCall (ae_horizonDays env) t)) (\<lambda>rs. askFrom n env t (cs rs) (used @ more))) ?Q (\<lambda>_. spoke (4 * Suc n) s) u"
    if "spoke 4 s u" for calls cs more u
    unfolding wp_bind
    by (rule wp_mono [OF wp_runCalls]) (use spoke_trans [OF that, of 0] rest weaker in auto)
  have "wp (generate (ae_gemini env) contents) (\<lambda>_. spoke 4 s) (\<lambda>_. spoke 4 s) s"
    unfolding generate_def using wp_generateFrom [of maxAttempts] by (simp add: maxAttempts_def)
  then show ?case
    unfolding askFrom.simps wp_bind Let_def
    by (rule wp_mono) (use calls weaker in \<open>auto simp: wp_if wp_ret Let_def\<close>)
qed (simp add: wp)

lemma wp_ask: "wp (ask env t q) (\<lambda>a s'. spoke 24 s s' \<and> ar_steps a \<le> 6) (\<lambda>_. spoke 24 s) s"
proof -
  have "wp (askFrom maxSteps env t [question q] []) (\<lambda>a s'. spoke 24 s s' \<and> ar_steps a \<le> 6) (\<lambda>_. spoke 24 s) s"
    by (rule wp_mono [OF wp_askFrom]) (simp_all add: maxSteps_def)
  then show ?thesis by (simp add: ask_def wp)
qed

text \<open>A forecast the model asks for under an unknown code ends the whole question.\<close>

lemma forecast_tool_escapes:
  assumes "findSkuByCode t (argText (fn_args call) ''skuCode'') (ai_world s) = None" "fn_name call = ''forecast_demand''"
  shows "fst (runCall d t call s) = Inl (NotFound ''SKU not found'')"
  using assms
  by (simp add: runCall_def runTool_def forecastBySkuCode_def onData_def zoom_def op_defs)

lemma availability_tool_tells:
  assumes "findSkuByCode t (argText (fn_args call) ''skuCode'') (ai_world s) = None" "fn_name call = ''get_availability''"
  shows "fst (runCall d t call s) = Inr [responsePart call (ErrorOutput ''Unknown SKU'')]"
  using assms
  by (simp add: runCall_def runTool_def getAvailability_def catchErr_def onData_def zoom_def op_defs)

section \<open>Properties\<close>

text \<open>
  Property C35.  Asking ends: after at most six turns of the model and 24 requests to it, with an answer or an
  error; and whatever tools the model calls with whatever arguments, nothing is written but cached
  availability.
\<close>

theorem ask_bounded:
  assumes "ask env t q s = (res, s')"
  shows "length (ai_requests s') \<le> length (ai_requests s) + 24 \<and> prefix (ai_requests s) (ai_requests s') \<and>
    cacheOnly (ai_world s) (ai_world s') \<and> (\<forall>a. res = Inr a \<longrightarrow> ar_steps a \<le> 6)"
  using wp_ask [of env t q s] assms by (cases res) (auto simp: wp_iff spoke_def)

text \<open>A model that only ever calls a tool, and is overloaded at first.\<close>

definition stubborn :: geminiApi where
  "stubborn sent contents =
    (if length sent < 2 then Fetched \<lparr>gr_status = 503, gr_error = Some (Some ''overloaded''), gr_candidates = []\<rparr>
     else Fetched \<lparr>gr_status = 200, gr_error = None, gr_candidates = [Some [\<lparr>gp_text = None,
       gp_functionCall = Some \<lparr>fn_name = ''order_summary'', fn_args = (\<lambda>_. None)\<rparr>, gp_functionResponse = None,
       gp_thoughtSignature = None\<rparr>]]\<rparr>)"

lemma ask_bounded_witness:
  "\<exists>a s'. ask \<lparr>ae_apiKey = Some ''k'', ae_gemini = stubborn, ae_horizonDays = 14\<rparr> 7 ''orders?'' \<lparr>ai_world = demoWorld, ai_requests = []\<rparr> = (Inr a, s') \<and>
    length (ar_toolsUsed a) = 6 \<and> length (ai_requests s') = 8 \<and> ar_steps a \<le> 6"
proof -
  let ?run = "ask \<lparr>ae_apiKey = Some ''k'', ae_gemini = stubborn, ae_horizonDays = 14\<rparr> 7 ''orders?'' \<lparr>ai_world = demoWorld, ai_requests = []\<rparr>"
  have "case ?run of (Inr a, s') \<Rightarrow> length (ar_toolsUsed a) = 6 \<and> length (ai_requests s') = 8 | (Inl _, _) \<Rightarrow> False"
    by code_simp
  then obtain a s' where run: "?run = (Inr a, s')" "length (ar_toolsUsed a) = 6" "length (ai_requests s') = 8"
    by (cases ?run) (auto split: sum.splits)
  with ask_bounded [OF run(1)] show ?thesis by blast
qed

end
