(* ===== verification/Observability.thy ===== *)
theory Observability
  imports Signatures
begin

text \<open>
  backend/src/observability, the exception filter (common/filters) and the scheduler: the metrics
  registry and its text rendering, what the interceptor records of a request, the response an error
  becomes, the health check, and the repeatable jobs registered at start.  How a number is written is a
  parameter; log lines are not modelled.
\<close>

section \<open>Metrics\<close>

text \<open>A JavaScript map: entries in the order of their first insertion.\<close>

fun assocSet :: "'k \<Rightarrow> 'v \<Rightarrow> ('k \<times> 'v) list \<Rightarrow> ('k \<times> 'v) list" where
  "assocSet k v [] = [(k, v)]"
| "assocSet k v ((k', v') # xs) = (if k' = k then (k, v) # xs else (k', v') # assocSet k v xs)"

datatype seriesType = Counter | Gauge

record metricSeries =
  ms_help :: string
  ms_type :: seriesType
  ms_values :: "(string \<times> int) list"

type_synonym metrics = "(string \<times> metricSeries) list"

definition ensure :: "string \<Rightarrow> seriesType \<Rightarrow> string \<Rightarrow> metrics \<Rightarrow> metricSeries \<times> metrics" where
  "ensure name ty help ms = (case map_of ms name of
     Some s \<Rightarrow> (s, ms)
   | None \<Rightarrow> (let s = \<lparr>ms_help = help, ms_type = ty, ms_values = []\<rparr> in (s, assocSet name s ms)))"

text \<open>The labels of a series as one key; the labels are given with their names.\<close>

definition labelKey :: "(string \<times> string) list \<Rightarrow> string" where
  "labelKey labels =
    (let keys = jsSort compareText (map fst labels)
     in if keys = [] then []
        else ''{'' @ joinWith '','' (map (\<lambda>k. k @ ''='' @ [CHR 0x22] @ (case map_of labels k of Some v \<Rightarrow> v | None \<Rightarrow> []) @ [CHR 0x22]) keys) @ ''}'')"

definition setValue :: "string \<Rightarrow> string \<Rightarrow> int \<Rightarrow> metricSeries \<Rightarrow> metrics \<Rightarrow> metrics" where
  "setValue name key v s ms = assocSet name (s\<lparr>ms_values := assocSet key v (ms_values s)\<rparr>) ms"

definition valueIn :: "metricSeries \<Rightarrow> string \<Rightarrow> int" where
  "valueIn s key = (case map_of (ms_values s) key of Some v \<Rightarrow> v | None \<Rightarrow> 0)"

definition inc :: "string \<Rightarrow> (string \<times> string) list \<Rightarrow> int \<Rightarrow> metrics \<Rightarrow> metrics" where
  "inc name labels amount ms =
    (let (s, ms') = ensure name Counter name ms; key = labelKey labels
     in setValue name key (valueIn s key + amount) s ms')"

definition setGauge :: "string \<Rightarrow> int \<Rightarrow> (string \<times> string) list \<Rightarrow> metrics \<Rightarrow> metrics" where
  "setGauge name v labels ms =
    (let (s, ms') = ensure name Gauge name ms in setValue name (labelKey labels) v s ms')"

definition typeText :: "seriesType \<Rightarrow> string" where
  "typeText ty = (case ty of Counter \<Rightarrow> ''counter'' | Gauge \<Rightarrow> ''gauge'')"

definition seriesLines :: "(int \<Rightarrow> string) \<Rightarrow> string \<times> metricSeries \<Rightarrow> string list" where
  "seriesLines numText = (\<lambda>(name, s).
     (''# HELP '' @ name @ '' '' @ ms_help s) # (''# TYPE '' @ name @ '' '' @ typeText (ms_type s)) #
     map (\<lambda>(labels, v). name @ labels @ '' '' @ numText v) (ms_values s))"

definition render :: "(int \<Rightarrow> string) \<Rightarrow> metrics \<Rightarrow> string" where
  "render numText ms = joinWith [CHR 0x0A] (concat (map (seriesLines numText) ms)) @ [CHR 0x0A]"

section \<open>Responses\<close>

text \<open>The status of the exceptions of the framework; other errors carry none.\<close>

fun ownStatus :: "err \<Rightarrow> nat option" where
  "ownStatus (BadRequest m) = Some 400"
| "ownStatus (Unauthorized m) = Some 401"
| "ownStatus (Forbidden m) = Some 403"
| "ownStatus (NotFound m) = Some 404"
| "ownStatus (Conflict m) = Some 409"
| "ownStatus (ServiceUnavailable m) = Some 503"
| "ownStatus (PrismaKnown code pg) = None"
| "ownStatus (OtherError m) = None"

text \<open>The filter for the known errors of the database client.\<close>

definition prismaResponse :: "string \<Rightarrow> nat \<times> string" where
  "prismaResponse code =
    (if code = ''P2002'' then (409, ''Duplicate value violates unique constraint'')
     else if code = ''P2025'' then (404, ''Record not found'')
     else (500, ''Database error''))"

text \<open>The status a caller gets for an error.\<close>

definition answeredStatus :: "err \<Rightarrow> nat" where
  "answeredStatus e = (case e of
     PrismaKnown code pg \<Rightarrow> fst (prismaResponse code)
   | _ \<Rightarrow> (case ownStatus e of Some n \<Rightarrow> n | None \<Rightarrow> 500))"

section \<open>The interceptor\<close>

text \<open>It sees the outcome of the handler before the filters do.\<close>

definition recordedStatus :: "nat \<Rightarrow> err + 'a \<Rightarrow> nat" where
  "recordedStatus okStatus out = (case out of
     Inr _ \<Rightarrow> okStatus
   | Inl e \<Rightarrow> (case ownStatus e of Some n \<Rightarrow> n | None \<Rightarrow> 500))"

definition recordRequest :: "(nat \<Rightarrow> string) \<Rightarrow> string \<Rightarrow> nat \<Rightarrow> int \<Rightarrow> metrics \<Rightarrow> metrics" where
  "recordRequest natText verb status ms registry =
    inc ''http_request_duration_ms_sum'' [(''method'', verb)] ms
      (inc ''http_requests_total'' [(''method'', verb), (''status'', natText status)] 1 registry)"

definition intercept :: "(nat \<Rightarrow> string) \<Rightarrow> string \<Rightarrow> nat \<Rightarrow> err + 'a \<Rightarrow> int \<Rightarrow> int \<Rightarrow> metrics \<Rightarrow> metrics" where
  "intercept natText verb okStatus out start finish registry =
    recordRequest natText verb (recordedStatus okStatus out) (finish - start) registry"

section \<open>Health and the scheduler\<close>

text \<open>A probe fails, or gives an answer.\<close>

record healthChecks =
  hc_database :: bool
  hc_redis :: bool

definition health :: "'a option \<Rightarrow> string option \<Rightarrow> err + healthChecks" where
  "health database ping =
    (let checks = \<lparr>hc_database = (database \<noteq> None), hc_redis = (ping = Some ''PONG'')\<rparr>
     in if hc_database checks \<and> hc_redis checks then Inr checks else Inl (ServiceUnavailable ''down''))"

record repeatableJob =
  rj_scheduler :: string
  rj_every :: int
  rj_name :: string

record schedulerConfig =
  sg_sweepEvery :: "int option"
  sg_drainEvery :: "int option"
  sg_reconEvery :: "int option"

definition orDefault :: "int option \<Rightarrow> int \<Rightarrow> int" where
  "orDefault v d = (case v of Some x \<Rightarrow> x | None \<Rightarrow> d)"

text \<open>One job per queue, in the order of their registration: reservations, synchronisation, reconciliation.\<close>

definition scheduledJobs :: "schedulerConfig \<Rightarrow> repeatableJob list" where
  "scheduledJobs cfg =
    [\<lparr>rj_scheduler = ''reservation-sweep'', rj_every = orDefault (sg_sweepEvery cfg) 60000, rj_name = ''sweep-expired''\<rparr>,
     \<lparr>rj_scheduler = ''sync-drain'', rj_every = orDefault (sg_drainEvery cfg) 10000, rj_name = ''drain-outbox''\<rparr>,
     \<lparr>rj_scheduler = ''reconcile'', rj_every = orDefault (sg_reconEvery cfg) 300000, rj_name = ''reconcile''\<rparr>]"

section \<open>Lemmas\<close>

lemma map_of_assocSet [simp]: "map_of (assocSet k v xs) = (map_of xs)(k \<mapsto> v)"
  by (induction k v xs rule: assocSet.induct) auto

definition counterValue :: "metrics \<Rightarrow> string \<Rightarrow> string \<Rightarrow> int" where
  "counterValue ms name key = (case map_of ms name of Some s \<Rightarrow> valueIn s key | None \<Rightarrow> 0)"

text \<open>An increment adds to the series of its name and labels and to no other.\<close>

lemma inc_counts:
  "counterValue (inc name labels n ms) name' key' =
    counterValue ms name' key' + (if name' = name \<and> key' = labelKey labels then n else 0)"
  by (auto simp: inc_def counterValue_def ensure_def setValue_def valueIn_def Let_def split: option.splits)

lemma intercept_counts:
  "counterValue (intercept natText verb st out a b ms) ''http_requests_total''
      (labelKey [(''method'', verb), (''status'', natText (recordedStatus st out))]) =
    counterValue ms ''http_requests_total'' (labelKey [(''method'', verb), (''status'', natText (recordedStatus st out))]) + 1"
  by (simp add: intercept_def recordRequest_def inc_counts)

text \<open>A violated unique constraint is answered as a conflict and counted as a server error.\<close>

lemma conflict_counted_as_failure:
  "answeredStatus (PrismaKnown ''P2002'' pg) = 409" "recordedStatus st (Inl (PrismaKnown ''P2002'' pg) :: err + 'a) = 500"
  by (simp_all add: answeredStatus_def prismaResponse_def recordedStatus_def)

text \<open>Otherwise what is counted is what is answered.\<close>

lemma recorded_as_answered:
  "recordedStatus st (Inl e :: err + 'a) = answeredStatus e \<longleftrightarrow> \<not> (\<exists>code pg. e = PrismaKnown code pg \<and> code \<in> {''P2002'', ''P2025''})"
  by (cases e) (auto simp: recordedStatus_def answeredStatus_def prismaResponse_def)

lemma health_exact: "health db ping = Inr c \<longleftrightarrow> db \<noteq> None \<and> ping = Some ''PONG'' \<and> c = \<lparr>hc_database = True, hc_redis = True\<rparr>"
  by (auto simp: health_def Let_def)

end
