(* ===== verification/Tenancy.thy ===== *)
theory Tenancy
  imports System
begin

text \<open>
  Tenant isolation: the rows of one tenant, and what a request of another tenant can do to them.  Every
  query of the services is scoped by the tenant of the token; a row is then written by its identifier alone.
  What is shown is that no request writes a row of a tenant other than its own, and that nothing in the
  queues and the cache that belongs to another tenant changes.
\<close>

section \<open>The share of a tenant\<close>

text \<open>
  The part of the state that belongs to a tenant: its rows, the lines and events of its orders and returns,
  its cached answers, its events and its delayed jobs.  The counters, the clock and the log of the gateway
  are common to all and left out.
\<close>

definition ordersOf :: "ident \<Rightarrow> world \<Rightarrow> ident list" where
  "ordersOf u w = map o_id (filter (\<lambda>x. o_tenantId x = u) (orders w))"

definition returnsOf :: "ident \<Rightarrow> world \<Rightarrow> ident list" where
  "returnsOf u w = map rt_id (filter (\<lambda>x. rt_tenantId x = u) (returnRows w))"

definition shareOf :: "ident \<Rightarrow> world \<Rightarrow> world" where
  "shareOf u w = \<lparr>tenants = [],
     skus = filter (\<lambda>x. sk_tenantId x = u) (skus w),
     locations = filter (\<lambda>x. lo_tenantId x = u) (locations w),
     ledger = filter (\<lambda>x. lg_tenantId x = u) (ledger w),
     snapshots = filter (\<lambda>x. sn_tenantId x = u) (snapshots w),
     orders = filter (\<lambda>x. o_tenantId x = u) (orders w),
     orderLines = filter (\<lambda>x. ol_orderId x \<in> set (ordersOf u w)) (orderLines w),
     orderEvents = filter (\<lambda>x. oe_orderId x \<in> set (ordersOf u w)) (orderEvents w),
     reservations = filter (\<lambda>x. rv_tenantId x = u) (reservations w),
     allocations = filter (\<lambda>x. al_tenantId x = u) (allocations w),
     shipments = filter (\<lambda>x. sh_tenantId x = u) (shipments w),
     sourcingRules = filter (\<lambda>x. sr_tenantId x = u) (sourcingRules w),
     returnRows = filter (\<lambda>x. rt_tenantId x = u) (returnRows w),
     returnLines = filter (\<lambda>x. rl_returnId x \<in> set (returnsOf u w)) (returnLines w),
     inbounds = filter (\<lambda>x. ib_tenantId x = u) (inbounds w),
     outbox = filter (\<lambda>x. ob_tenantId x = u) (outbox w),
     outboxUp = True, nextSeq = 0,
     cache = (\<lambda>k. if fst k = u then cache w k else None),
     published = filter (\<lambda>x. de_tenantId x = u) (published w),
     jobs = filter (\<lambda>x. ej_tenantId x = u) (jobs w),
     clock = 0, nextId = 0, uuidOf = (\<lambda>_. []), gatewayLog = []\<rparr>"

text \<open>Primary keys: rows with the same identifier are rows of the same tenant, and the counter is ahead.\<close>

definition keyed :: "('r \<Rightarrow> ident) \<Rightarrow> ('r \<Rightarrow> ident) \<Rightarrow> ident \<Rightarrow> 'r list \<Rightarrow> bool" where
  "keyed idf tn n xs \<longleftrightarrow> list_all (\<lambda>x. idf x < n \<and> list_all (\<lambda>y. idf x = idf y \<longrightarrow> tn x = tn y) xs) xs"

definition keysOk :: "world \<Rightarrow> bool" where
  "keysOk w \<longleftrightarrow> keyed sk_id sk_tenantId (nextId w) (skus w) \<and> keyed lo_id lo_tenantId (nextId w) (locations w) \<and>
    keyed sr_id sr_tenantId (nextId w) (sourcingRules w) \<and> keyed ib_id ib_tenantId (nextId w) (inbounds w)"

section \<open>A table seen by a bystander\<close>

text \<open>
  The rows of \<open>u\<close> in a table are \<open>vs\<close>; the rows of the others have other identifiers than those in \<open>F\<close>,
  and no identifier is ahead of the counter.
\<close>

definition tableOk :: "('r \<Rightarrow> ident) \<Rightarrow> ('r \<Rightarrow> ident) \<Rightarrow> ident \<Rightarrow> ident set \<Rightarrow> ident \<Rightarrow> 'r list \<Rightarrow> 'r list \<Rightarrow> bool" where
  "tableOk idf tn u F n vs xs \<longleftrightarrow> filter (\<lambda>x. tn x = u) xs = vs \<and> (\<forall>x \<in> set xs. tn x \<noteq> u \<longrightarrow> idf x \<notin> F \<and> idf x < n) \<and>
    (\<forall>i \<in> F. i < n)"

lemma tableOk_grow: "tableOk idf tn u F n vs xs \<Longrightarrow> n \<le> n' \<Longrightarrow> tableOk idf tn u F n' vs xs"
  by (force simp: tableOk_def)

lemma tableOk_Suc [simp]: "tableOk idf tn u F n vs xs \<Longrightarrow> tableOk idf tn u F (Suc n) vs xs"
  by (erule tableOk_grow) simp

lemma tableOk_snoc: "tableOk idf tn u F n vs xs \<Longrightarrow> tn x \<noteq> u \<Longrightarrow> idf x \<notin> F \<Longrightarrow> idf x < n \<Longrightarrow> tableOk idf tn u F n vs (xs @ [x])"
  by (auto simp: tableOk_def)

lemma tableOk_change:
  assumes "tableOk idf tn u F n vs xs" "\<And>x. idf (f x) = idf x" "\<And>x. tn (f x) = tn x" "\<And>x. x \<in> set vs \<Longrightarrow> \<not> p x"
  shows "tableOk idf tn u F n vs (mapWhere p f xs)"
proof -
  have "filter (\<lambda>x. tn x = u) (mapWhere p f xs) = mapWhere p f (filter (\<lambda>x. tn x = u) xs)"
    by (induction xs) (auto simp: assms(3))
  also have "filter (\<lambda>x. tn x = u) xs = vs" using assms(1) by (simp add: tableOk_def)
  also have "mapWhere p f vs = vs" by (rule mapWhere_id) (rule assms(4))
  finally have rows: "filter (\<lambda>x. tn x = u) (mapWhere p f xs) = vs" .
  have same: "tn (if p q then f q else q) = tn q" "idf (if p q then f q else q) = idf q" for q by (simp_all add: assms(2,3))
  have "tn x \<noteq> u \<longrightarrow> idf x \<notin> F \<and> idf x < n" if "x \<in> set (mapWhere p f xs)" for x
  proof -
    obtain q where "q \<in> set xs" "x = (if p q then f q else q)" using \<open>x \<in> set (mapWhere p f xs)\<close> unfolding set_mapWhere by blast
    then show ?thesis using assms(1) by (simp add: tableOk_def same del: if_split)
  qed
  then show ?thesis using rows assms(1) by (simp add: tableOk_def)
qed

lemma tableOk_rows: "tableOk idf tn u F n vs xs \<Longrightarrow> y \<in> set vs \<Longrightarrow> y \<in> set xs \<and> tn y = u"
  by (auto simp: tableOk_def)

lemma tableOk_other: "tableOk idf tn u F n vs xs \<Longrightarrow> x \<in> set xs \<Longrightarrow> tn x \<noteq> u \<Longrightarrow> idf x \<notin> F"
  by (simp add: tableOk_def)

lemma tableOk_outside: "tableOk idf tn u F n vs xs \<Longrightarrow> x \<in> set xs \<Longrightarrow> x \<notin> set vs \<Longrightarrow> tn x \<noteq> u"
  by (auto simp: tableOk_def)

lemma tableOk_init: "keyed idf tn n xs \<Longrightarrow> tableOk idf tn u (idf ` set (filter (\<lambda>x. tn x = u) xs)) n (filter (\<lambda>x. tn x = u) xs) xs"
proof -
  assume k: "keyed idf tn n xs"
  have bound: "idf x < n" if "x \<in> set xs" for x using k that by (simp add: keyed_def list_all_iff)
  have one: "tn x = tn y" if "x \<in> set xs" "y \<in> set xs" "idf x = idf y" for x y
    using k that unfolding keyed_def list_all_iff by blast
  have "idf x \<notin> idf ` set (filter (\<lambda>x. tn x = u) xs)" if "x \<in> set xs" "tn x \<noteq> u" for x using one [OF that(1)] that(2) by force
  then show ?thesis using bound by (auto simp: tableOk_def)
qed

section \<open>The state seen by a bystander\<close>

text \<open>Orders that rows of the share are about.\<close>

definition aboutOrders :: "world \<Rightarrow> ident set" where
  "aboutOrders v = o_id ` set (orders v) \<union> {i. Some i \<in> rv_orderId ` set (reservations v)} \<union> al_orderId ` set (allocations v) \<union>
    sh_orderId ` set (shipments v)"

definition aboutShipments :: "world \<Rightarrow> ident set" where
  "aboutShipments v = sh_id ` set (shipments v) \<union> {i. Some i \<in> al_shipmentId ` set (allocations v)}"

definition apart :: "ident \<Rightarrow> world \<Rightarrow> world \<Rightarrow> bool" where
  "apart u v w \<longleftrightarrow>
    tableOk sk_id sk_tenantId u (sk_id ` set (skus v)) (nextId w) (skus v) (skus w) \<and>
    tableOk lo_id lo_tenantId u (lo_id ` set (locations v)) (nextId w) (locations v) (locations w) \<and>
    tableOk sn_id sn_tenantId u (sn_id ` set (snapshots v)) (nextId w) (snapshots v) (snapshots w) \<and>
    tableOk o_id o_tenantId u (aboutOrders v) (nextId w) (orders v) (orders w) \<and>
    tableOk rv_id rv_tenantId u (rv_id ` set (reservations v)) (nextId w) (reservations v) (reservations w) \<and>
    tableOk al_id al_tenantId u (al_id ` set (allocations v)) (nextId w) (allocations v) (allocations w) \<and>
    tableOk sh_id sh_tenantId u (aboutShipments v) (nextId w) (shipments v) (shipments w) \<and>
    tableOk sr_id sr_tenantId u (sr_id ` set (sourcingRules v)) (nextId w) (sourcingRules v) (sourcingRules w) \<and>
    tableOk rt_id rt_tenantId u (rt_id ` set (returnRows v)) (nextId w) (returnRows v) (returnRows w) \<and>
    tableOk ib_id ib_tenantId u (ib_id ` set (inbounds v)) (nextId w) (inbounds v) (inbounds w) \<and>
    filter (\<lambda>x. lg_tenantId x = u) (ledger w) = ledger v \<and>
    filter (\<lambda>x. ol_orderId x \<in> o_id ` set (orders v)) (orderLines w) = orderLines v \<and>
    filter (\<lambda>x. oe_orderId x \<in> o_id ` set (orders v)) (orderEvents w) = orderEvents v \<and>
    filter (\<lambda>x. rl_returnId x \<in> rt_id ` set (returnRows v)) (returnLines w) = returnLines v \<and>
    filter (\<lambda>x. ob_tenantId x = u) (outbox w) = outbox v \<and>
    filter (\<lambda>x. de_tenantId x = u) (published w) = published v \<and>
    filter (\<lambda>x. ej_tenantId x = u) (jobs w) = jobs v \<and>
    (\<forall>k. fst k = u \<longrightarrow> cache w k = cache v k) \<and>
    (\<forall>s \<in> set (shipments w). sh_tenantId s \<noteq> u \<longrightarrow> sh_orderId s \<notin> aboutOrders v)"

lemma apart_share: "apart u (shareOf u w) w' \<Longrightarrow> shareOf u w' = shareOf u w"
  by (auto simp: apart_def tableOk_def shareOf_def ordersOf_def returnsOf_def fun_eq_iff)

lemma apart_tables:
  assumes "apart u v w"
  shows "tableOk sk_id sk_tenantId u (sk_id ` set (skus v)) (nextId w) (skus v) (skus w)"
    "tableOk lo_id lo_tenantId u (lo_id ` set (locations v)) (nextId w) (locations v) (locations w)"
    "tableOk sn_id sn_tenantId u (sn_id ` set (snapshots v)) (nextId w) (snapshots v) (snapshots w)"
    "tableOk o_id o_tenantId u (aboutOrders v) (nextId w) (orders v) (orders w)"
    "tableOk rv_id rv_tenantId u (rv_id ` set (reservations v)) (nextId w) (reservations v) (reservations w)"
    "tableOk al_id al_tenantId u (al_id ` set (allocations v)) (nextId w) (allocations v) (allocations w)"
    "tableOk sh_id sh_tenantId u (aboutShipments v) (nextId w) (shipments v) (shipments w)"
    "tableOk sr_id sr_tenantId u (sr_id ` set (sourcingRules v)) (nextId w) (sourcingRules v) (sourcingRules w)"
    "tableOk rt_id rt_tenantId u (rt_id ` set (returnRows v)) (nextId w) (returnRows v) (returnRows w)"
    "tableOk ib_id ib_tenantId u (ib_id ` set (inbounds v)) (nextId w) (inbounds v) (inbounds w)"
  using assms by (simp_all only: apart_def)

text \<open>What a request learns from a row it has found.\<close>

lemma apartD:
  assumes "apart u v w"
  shows "k \<in> set (skus w) \<Longrightarrow> sk_tenantId k \<noteq> u \<Longrightarrow> sk_id k \<notin> sk_id ` set (skus v)"
    "l \<in> set (locations w) \<Longrightarrow> lo_tenantId l \<noteq> u \<Longrightarrow> lo_id l \<notin> lo_id ` set (locations v)"
    "s \<in> set (snapshots w) \<Longrightarrow> sn_tenantId s \<noteq> u \<Longrightarrow> sn_id s \<notin> sn_id ` set (snapshots v)"
    "ord \<in> set (orders w) \<Longrightarrow> o_tenantId ord \<noteq> u \<Longrightarrow> o_id ord \<notin> aboutOrders v"
    "r \<in> set (reservations w) \<Longrightarrow> rv_tenantId r \<noteq> u \<Longrightarrow> rv_id r \<notin> rv_id ` set (reservations v)"
    "a \<in> set (allocations w) \<Longrightarrow> al_tenantId a \<noteq> u \<Longrightarrow> al_id a \<notin> al_id ` set (allocations v)"
    "sh \<in> set (shipments w) \<Longrightarrow> sh_tenantId sh \<noteq> u \<Longrightarrow> sh_id sh \<notin> aboutShipments v"
    "sh \<in> set (shipments w) \<Longrightarrow> sh_tenantId sh \<noteq> u \<Longrightarrow> sh_orderId sh \<notin> aboutOrders v"
    "rule \<in> set (sourcingRules w) \<Longrightarrow> sr_tenantId rule \<noteq> u \<Longrightarrow> sr_id rule \<notin> sr_id ` set (sourcingRules v)"
    "rma \<in> set (returnRows w) \<Longrightarrow> rt_tenantId rma \<noteq> u \<Longrightarrow> rt_id rma \<notin> rt_id ` set (returnRows v)"
    "ib \<in> set (inbounds w) \<Longrightarrow> ib_tenantId ib \<noteq> u \<Longrightarrow> ib_id ib \<notin> ib_id ` set (inbounds v)"
  using apart_tables [OF assms, THEN tableOk_other] assms by (simp_all add: apart_def)

lemma apart_mine:
  assumes "apart u v w"
  shows "ord \<in> set (orders w) \<Longrightarrow> o_id ord \<notin> aboutOrders v \<Longrightarrow> o_tenantId ord \<noteq> u"
    "r \<in> set (reservations w) \<Longrightarrow> rv_orderId r = Some i \<Longrightarrow> i \<notin> aboutOrders v \<Longrightarrow> rv_tenantId r \<noteq> u"
    "r \<in> set (reservations w) \<Longrightarrow> rv_id r \<notin> rv_id ` set (reservations v) \<Longrightarrow> rv_tenantId r \<noteq> u"
    "a \<in> set (allocations w) \<Longrightarrow> al_orderId a \<notin> aboutOrders v \<Longrightarrow> al_tenantId a \<noteq> u"
proof -
  note t = apart_tables(4-6) [OF assms]
  show "ord \<in> set (orders w) \<Longrightarrow> o_id ord \<notin> aboutOrders v \<Longrightarrow> o_tenantId ord \<noteq> u"
    by (rule tableOk_outside [OF t(1)]) (auto simp: aboutOrders_def)
  show "r \<in> set (reservations w) \<Longrightarrow> rv_orderId r = Some i \<Longrightarrow> i \<notin> aboutOrders v \<Longrightarrow> rv_tenantId r \<noteq> u"
    by (rule tableOk_outside [OF t(2)]) (force simp: aboutOrders_def)+
  show "r \<in> set (reservations w) \<Longrightarrow> rv_id r \<notin> rv_id ` set (reservations v) \<Longrightarrow> rv_tenantId r \<noteq> u"
    by (rule tableOk_outside [OF t(2)]) auto
  show "a \<in> set (allocations w) \<Longrightarrow> al_orderId a \<notin> aboutOrders v \<Longrightarrow> al_tenantId a \<noteq> u"
    by (rule tableOk_outside [OF t(3)]) (auto simp: aboutOrders_def)
qed

end
