(* ===== verification/Bystander.thy ===== *)
theory Bystander
  imports Tenancy
begin

text \<open>
  Rules for operations beside a bystander: drawing an identifier, finding a row of one's own and writing
  one leave the share of another tenant alone; and so, built from them, do the operations on stock,
  inbound shipments and holds.
\<close>

section \<open>Reading, drawing and writing beside a bystander\<close>

text \<open>An identifier no row of the share has or mentions.\<close>

definition strange :: "world \<Rightarrow> ident \<Rightarrow> bool" where
  "strange v i \<longleftrightarrow> i \<notin> sk_id ` set (skus v) \<and> i \<notin> lo_id ` set (locations v) \<and> i \<notin> sn_id ` set (snapshots v) \<and>
    i \<notin> aboutOrders v \<and> i \<notin> rv_id ` set (reservations v) \<and> i \<notin> al_id ` set (allocations v) \<and> i \<notin> aboutShipments v \<and>
    i \<notin> sr_id ` set (sourcingRules v) \<and> i \<notin> rt_id ` set (returnRows v) \<and> i \<notin> ib_id ` set (inbounds v)"

lemma not_in_image: "i \<notin> f ` A \<Longrightarrow> x \<in> A \<Longrightarrow> f x \<noteq> i"
  by auto

text \<open>\<open>K\<close> holds the identifiers drawn so far.\<close>

definition bystander :: "ident \<Rightarrow> world \<Rightarrow> ident set \<Rightarrow> world \<Rightarrow> bool" where
  "bystander u v K w \<longleftrightarrow> apart u v w \<and> (\<forall>i \<in> K. i < nextId w \<and> strange v i)"

named_theorems beside

lemmas flow = keeps_ret keeps_throw keeps_gets keeps_throwIf keeps_orThrow keeps_bind keeps_andThen keeps_transaction keeps_if
  keeps_case_option keeps_forEach keeps_collect

lemma bystander_apart: "bystander u v K w \<Longrightarrow> apart u v w"
  by (simp add: bystander_def)

lemma keeps_read: "(\<And>x w. I w \<Longrightarrow> g w = x \<Longrightarrow> keeps I (f x)) \<Longrightarrow> keeps I (bind (gets g) f)"
  by (auto simp: keeps_def wp)

lemma keeps_found: "(\<And>x w. I w \<Longrightarrow> g w = Some x \<Longrightarrow> keeps I (f x)) \<Longrightarrow> keeps I (bind (gets g) (\<lambda>found. bind (orThrow found e) f))"
  by (auto simp: keeps_def wp split: option.split)

lemma apart_strange:
  assumes "apart u v w"
  shows "strange v (nextId w)"
proof -
  have "nextId w \<notin> F" if "tableOk idf tn u F (nextId w) vs xs" for idf tn F vs and xs :: "'r list"
    using that by (auto simp: tableOk_def)
  from apart_tables [OF assms, THEN this] show ?thesis by (simp add: strange_def)
qed

lemma apart_ids: "apart u v w \<Longrightarrow> nextId w \<le> n \<Longrightarrow> apart u v (w\<lparr>nextId := n\<rparr>)"
  by (simp add: apart_def tableOk_grow [where n = "nextId w"])

lemma bystander_ids: "bystander u v K w \<Longrightarrow> nextId w \<le> n \<Longrightarrow> bystander u v K (w\<lparr>nextId := n\<rparr>)"
  by (auto simp: bystander_def apart_ids)

lemma beside_draw:
  assumes "\<And>i. keeps (bystander u v (insert i K)) (f i)"
  shows "keeps (bystander u v K) (bind freshId f)"
proof (rule keeps_intro)
  fix w assume w: "bystander u v K w"
  let ?w = "w\<lparr>nextId := Suc (nextId w)\<rparr>" and ?K = "insert (nextId w) K"
  have "bystander u v ?K ?w" using w by (auto simp: bystander_def apart_ids apart_strange)
  then have "wp (f (nextId w)) (\<lambda>_. bystander u v ?K) (\<lambda>_. bystander u v ?K) ?w" by (rule keeps_wp [OF assms])
  then show "wp (bind freshId f) (\<lambda>_. bystander u v K) (\<lambda>_. bystander u v K) w"
    unfolding wp_bind wp_freshId by (rule wp_mono) (simp_all add: bystander_def)
qed

lemma beside_freshId [beside]: "keeps (bystander u v K) freshId"
  by (rule keeps_intro) (simp add: wp bystander_ids)

text \<open>Writes that leave the counter alone.\<close>

lemma bystander_same: "bystander u v K w \<Longrightarrow> nextId w' = nextId w \<Longrightarrow> apart u v w' \<Longrightarrow> bystander u v K w'"
  by (simp add: bystander_def)

lemma apart_change:
  assumes "apart u v w"
  shows "(\<And>x. sk_id (fk x) = sk_id x) \<Longrightarrow> (\<And>x. sk_tenantId (fk x) = sk_tenantId x) \<Longrightarrow> (\<And>x. x \<in> set (skus v) \<Longrightarrow> \<not> pk x) \<Longrightarrow>
      apart u v (w\<lparr>skus := mapWhere pk fk (skus w)\<rparr>)"
    "(\<And>x. lo_id (fl x) = lo_id x) \<Longrightarrow> (\<And>x. lo_tenantId (fl x) = lo_tenantId x) \<Longrightarrow> (\<And>x. x \<in> set (locations v) \<Longrightarrow> \<not> pl x) \<Longrightarrow>
      apart u v (w\<lparr>locations := mapWhere pl fl (locations w)\<rparr>)"
    "(\<And>x. sn_id (fn x) = sn_id x) \<Longrightarrow> (\<And>x. sn_tenantId (fn x) = sn_tenantId x) \<Longrightarrow> (\<And>x. x \<in> set (snapshots v) \<Longrightarrow> \<not> pn x) \<Longrightarrow>
      apart u v (w\<lparr>snapshots := mapWhere pn fn (snapshots w)\<rparr>)"
    "(\<And>x. o_id (fo x) = o_id x) \<Longrightarrow> (\<And>x. o_tenantId (fo x) = o_tenantId x) \<Longrightarrow> (\<And>x. x \<in> set (orders v) \<Longrightarrow> \<not> po x) \<Longrightarrow>
      apart u v (w\<lparr>orders := mapWhere po fo (orders w)\<rparr>)"
    "(\<And>x. rv_id (fr x) = rv_id x) \<Longrightarrow> (\<And>x. rv_tenantId (fr x) = rv_tenantId x) \<Longrightarrow> (\<And>x. x \<in> set (reservations v) \<Longrightarrow> \<not> pr x) \<Longrightarrow>
      apart u v (w\<lparr>reservations := mapWhere pr fr (reservations w)\<rparr>)"
    "(\<And>x. al_id (fa x) = al_id x) \<Longrightarrow> (\<And>x. al_tenantId (fa x) = al_tenantId x) \<Longrightarrow> (\<And>x. x \<in> set (allocations v) \<Longrightarrow> \<not> pa x) \<Longrightarrow>
      apart u v (w\<lparr>allocations := mapWhere pa fa (allocations w)\<rparr>)"
    "(\<And>x. sr_id (fu x) = sr_id x) \<Longrightarrow> (\<And>x. sr_tenantId (fu x) = sr_tenantId x) \<Longrightarrow> (\<And>x. x \<in> set (sourcingRules v) \<Longrightarrow> \<not> pu x) \<Longrightarrow>
      apart u v (w\<lparr>sourcingRules := mapWhere pu fu (sourcingRules w)\<rparr>)"
    "(\<And>x. rt_id (ft x) = rt_id x) \<Longrightarrow> (\<And>x. rt_tenantId (ft x) = rt_tenantId x) \<Longrightarrow> (\<And>x. x \<in> set (returnRows v) \<Longrightarrow> \<not> pt x) \<Longrightarrow>
      apart u v (w\<lparr>returnRows := mapWhere pt ft (returnRows w)\<rparr>)"
    "(\<And>x. ib_id (fi x) = ib_id x) \<Longrightarrow> (\<And>x. ib_tenantId (fi x) = ib_tenantId x) \<Longrightarrow> (\<And>x. x \<in> set (inbounds v) \<Longrightarrow> \<not> pi' x) \<Longrightarrow>
      apart u v (w\<lparr>inbounds := mapWhere pi' fi (inbounds w)\<rparr>)"
  using assms by (simp_all add: apart_def tableOk_change)

lemma apart_shipments:
  assumes w: "apart u v w" and f: "\<And>x. sh_id (f x) = sh_id x" "\<And>x. sh_tenantId (f x) = sh_tenantId x" "\<And>x. sh_orderId (f x) = sh_orderId x"
    and p: "\<And>x. x \<in> set (shipments v) \<Longrightarrow> \<not> p x"
  shows "apart u v (w\<lparr>shipments := mapWhere p f (shipments w)\<rparr>)"
proof -
  have "\<forall>s \<in> set (mapWhere p f (shipments w)). sh_tenantId s \<noteq> u \<longrightarrow> sh_orderId s \<notin> aboutOrders v"
    using w by (auto simp: apart_def set_mapWhere f split: if_splits)
  then show ?thesis using w by (simp add: apart_def tableOk_change f p)
qed

lemma apart_new:
  assumes "apart u v w"
  shows "sk_tenantId k \<noteq> u \<Longrightarrow> sk_id k \<notin> sk_id ` set (skus v) \<Longrightarrow> sk_id k < nextId w \<Longrightarrow> apart u v (w\<lparr>skus := skus w @ [k]\<rparr>)"
    "lo_tenantId l \<noteq> u \<Longrightarrow> lo_id l \<notin> lo_id ` set (locations v) \<Longrightarrow> lo_id l < nextId w \<Longrightarrow> apart u v (w\<lparr>locations := locations w @ [l]\<rparr>)"
    "sn_tenantId s \<noteq> u \<Longrightarrow> sn_id s \<notin> sn_id ` set (snapshots v) \<Longrightarrow> sn_id s < nextId w \<Longrightarrow> apart u v (w\<lparr>snapshots := snapshots w @ [s]\<rparr>)"
    "o_tenantId ord \<noteq> u \<Longrightarrow> o_id ord \<notin> aboutOrders v \<Longrightarrow> o_id ord < nextId w \<Longrightarrow> apart u v (w\<lparr>orders := orders w @ [ord]\<rparr>)"
    "rv_tenantId r \<noteq> u \<Longrightarrow> rv_id r \<notin> rv_id ` set (reservations v) \<Longrightarrow> rv_id r < nextId w \<Longrightarrow> apart u v (w\<lparr>reservations := reservations w @ [r]\<rparr>)"
    "al_tenantId a \<noteq> u \<Longrightarrow> al_id a \<notin> al_id ` set (allocations v) \<Longrightarrow> al_id a < nextId w \<Longrightarrow> apart u v (w\<lparr>allocations := allocations w @ [a]\<rparr>)"
    "sh_tenantId sh \<noteq> u \<Longrightarrow> sh_id sh \<notin> aboutShipments v \<Longrightarrow> sh_id sh < nextId w \<Longrightarrow> sh_orderId sh \<notin> aboutOrders v \<Longrightarrow>
      apart u v (w\<lparr>shipments := shipments w @ [sh]\<rparr>)"
    "sr_tenantId rule \<noteq> u \<Longrightarrow> sr_id rule \<notin> sr_id ` set (sourcingRules v) \<Longrightarrow> sr_id rule < nextId w \<Longrightarrow>
      apart u v (w\<lparr>sourcingRules := sourcingRules w @ [rule]\<rparr>)"
    "rt_tenantId rma \<noteq> u \<Longrightarrow> rt_id rma \<notin> rt_id ` set (returnRows v) \<Longrightarrow> rt_id rma < nextId w \<Longrightarrow> apart u v (w\<lparr>returnRows := returnRows w @ [rma]\<rparr>)"
    "ib_tenantId ib \<noteq> u \<Longrightarrow> ib_id ib \<notin> ib_id ` set (inbounds v) \<Longrightarrow> ib_id ib < nextId w \<Longrightarrow> apart u v (w\<lparr>inbounds := inbounds w @ [ib]\<rparr>)"
    "lg_tenantId lg \<noteq> u \<Longrightarrow> apart u v (w\<lparr>ledger := ledger w @ [lg]\<rparr>)"
    "ol_orderId ol \<notin> aboutOrders v \<Longrightarrow> apart u v (w\<lparr>orderLines := orderLines w @ [ol]\<rparr>)"
    "oe_orderId oe \<notin> aboutOrders v \<Longrightarrow> apart u v (w\<lparr>orderEvents := orderEvents w @ [oe]\<rparr>)"
    "rl_returnId rl \<notin> rt_id ` set (returnRows v) \<Longrightarrow> apart u v (w\<lparr>returnLines := returnLines w @ [rl]\<rparr>)"
    "de_tenantId ev \<noteq> u \<Longrightarrow> apart u v (w\<lparr>published := published w @ [ev]\<rparr>)"
    "ej_tenantId j \<noteq> u \<Longrightarrow> apart u v (w\<lparr>jobs := jobs w @ [j]\<rparr>)"
    "ob_tenantId ob \<noteq> u \<Longrightarrow> apart u v (w\<lparr>outbox := outbox w @ [ob], nextSeq := n\<rparr>)"
    "(\<And>k. fst k = u \<Longrightarrow> c k = cache w k) \<Longrightarrow> apart u v (w\<lparr>cache := c\<rparr>)"
    "apart u v (w\<lparr>gatewayLog := gs\<rparr>)"
  using assms by (simp_all add: apart_def tableOk_snoc aboutOrders_def cong: if_cong)


section \<open>Stock\<close>

lemma beside_modify:
  assumes "\<And>w. apart u v w \<Longrightarrow> \<forall>i \<in> K. i < nextId w \<and> strange v i \<Longrightarrow> nextId (f w) = nextId w \<and> apart u v (f w)"
  shows "keeps (bystander u v K) (modify f)"
  by (rule keeps_modify) (use assms in \<open>auto simp: bystander_def\<close>)

lemma beside_updateRow:
  assumes "\<And>w. apart u v w \<Longrightarrow> apart u v (upd (\<lambda>_. mapWhere p f (tab w)) w)" "\<And>w x. nextId (upd (\<lambda>_. x) w) = nextId w"
  shows "keeps (bystander u v K) (updateRow tab upd p f)" "keeps (bystander u v K) (updateMany tab upd p f)"
  by (rule keeps_intro; use assms in \<open>auto simp: wp bystander_def split: option.split\<close>)+

lemma beside_createRow:
  assumes "\<And>w. apart u v w \<Longrightarrow> \<forall>i \<in> K. i < nextId w \<and> strange v i \<Longrightarrow> apart u v (upd (\<lambda>_. tab w @ [r]) w)"
    "\<And>w x. nextId (upd (\<lambda>_. x) w) = nextId w"
  shows "keeps (bystander u v K) (createRow tab upd r)"
  by (rule keeps_intro) (use assms in \<open>auto simp: wp bystander_def\<close>)

lemma beside_snapshot:
  assumes "i \<in> K" "t \<noteq> u"
  shows "keeps (bystander u v K) (modify (\<lambda>w. w\<lparr>snapshots := snapshots w @ [freshSnapshot i t s l]\<rparr>))"
    "keeps (bystander u v K) (modify (\<lambda>w. w\<lparr>snapshots := snapshots w @ [(freshSnapshot i t s l)\<lparr>sn_safetyStock := n\<rparr>]\<rparr>))"
  by (rule beside_modify; use assms in \<open>auto simp: freshSnapshot_def strange_def intro!: apart_new\<close>)+

lemma beside_ensureSnapshot: "t \<noteq> u \<Longrightarrow> keeps (bystander u v K) (ensureSnapshot t s l)"
  unfolding ensureSnapshot_def by (intro beside_draw keepsI beside_snapshot) simp_all

lemma beside_appendLedger: "mv_tenantId p \<noteq> u \<Longrightarrow> keeps (bystander u v K) (appendLedger p)"
  unfolding appendLedger_def
  by (intro keepsI beside_freshId keeps_now beside_modify) (simp add: apart_new)

lemma found_snapshot: "bystander u v K w \<Longrightarrow> findSnapshot (mv_key p) w = Some s \<Longrightarrow> mv_tenantId p \<noteq> u \<Longrightarrow> sn_id s \<notin> sn_id ` set (snapshots v)"
  by (rule apartD(3) [OF bystander_apart]) (auto simp: findSnapshot_def mv_key_def sn_key_def dest!: find_SomeD)

lemma beside_snapshotChange:
  assumes "sn_id s \<notin> sn_id ` set (snapshots v)" "\<And>x. sn_id (f x) = sn_id x" "\<And>x. sn_tenantId (f x) = sn_tenantId x"
  shows "keeps (bystander u v K) (updateMany snapshots snapshots_update (\<lambda>x. sn_id x = sn_id s) f)"
    "keeps (bystander u v K) (updateRow snapshots snapshots_update (\<lambda>x. sn_id x = sn_id s) f)"
  by (rule beside_updateRow; use assms in \<open>force intro!: apart_change\<close>)+

lemma beside_applyWithin [beside]:
  assumes "mv_tenantId p \<noteq> u"
  shows "keeps (bystander u v K) (applyWithin p)"
proof -
  have "keeps (bystander u v K) (validateMovement nx p)" for nx unfolding validateMovement_def by (intro keepsI)
  then show ?thesis
    unfolding applyWithin_def applyLocked_def Let_def
    by (intro keeps_andThen beside_ensureSnapshot keeps_found keeps_ret beside_appendLedger beside_snapshotChange)
      (simp_all add: assms found_snapshot)
qed

lemma beside_invalidate [beside]:
  assumes "t \<noteq> u"
  shows "keeps (bystander u v K) (invalidate t s)"
  unfolding invalidate_def
  by (intro keeps_andThen keeps_bind beside_freshId beside_modify) (use assms in \<open>auto intro!: apart_new\<close>)

lemma beside_applyMovement: "mv_tenantId p \<noteq> u \<Longrightarrow> keeps (bystander u v K) (applyMovement p)"
  unfolding applyMovement_def by (intro keepsI beside)

lemma beside_stock [beside]:
  assumes "t \<noteq> u"
  shows "keeps (bystander u v K) (receive t s l n why)" "keeps (bystander u v K) (adjust t s l n why)"
    "keeps (bystander u v K) (transfer t s l l' n why)"
  unfolding receive_def adjust_def transfer_def transferOut_def transferIn_def
  by (intro beside_applyMovement keepsI beside; use assms in \<open>simp add: baseMovement_def\<close>)+

lemma beside_setSafetyStock [beside]:
  assumes "t \<noteq> u"
  shows "keeps (bystander u v K) (setSafetyStock t s l n)"
proof -
  have own: "sn_tenantId x = u" if "apart u v w" "x \<in> set (snapshots v)" for w x
    using apart_tables(3) [OF that(1)] that(2) by (auto dest: tableOk_rows)
  have row: "keeps (bystander u v K) (updateMany snapshots snapshots_update (\<lambda>r. sn_key r = (t, s, l)) (\<lambda>r. r\<lparr>sn_safetyStock := n\<rparr>))"
    by (rule beside_updateRow) (use assms in \<open>auto simp: sn_key_def intro!: apart_change dest: own\<close>)
  then show ?thesis
    unfolding setSafetyStock_def by (intro row beside_draw flow beside beside_snapshot) (simp_all add: assms)
qed

section \<open>Inbound shipments, reconciliation and availability\<close>

lemma mv_tenantId_params [simp]:
  "mv_tenantId (baseMovement t s l ev d) = t" "mv_tenantId (inboundMovement t s l ev d i) = t"
  "mv_tenantId (releaseParams r) = rv_tenantId r" "mv_tenantId (holdParams ord line leg) = o_tenantId ord"
  "mv_tenantId (consumeParams ord r) = o_tenantId ord" "mv_tenantId (allocateParams t ord line leg) = t"
  "mv_tenantId (deallocateParams t a) = t" "mv_tenantId (shipParams t i a) = t" "mv_tenantId (restockParams t i rl loc) = t"
  by (simp_all add: baseMovement_def inboundMovement_def releaseParams_def holdParams_def consumeParams_def allocateParams_def
      deallocateParams_def shipParams_def restockParams_def)

lemma beside_inboundChange:
  assumes "ib_id i \<notin> ib_id ` set (inbounds v)"
  shows "keeps (bystander u v K) (updateRow inbounds inbounds_update (\<lambda>r. ib_id r = ib_id i) (receivedRow i q))"
proof (rule beside_updateRow)
  fix w assume w: "apart u v w"
  show "apart u v (inbounds_update (\<lambda>_. mapWhere (\<lambda>r. ib_id r = ib_id i) (receivedRow i q) (inbounds w)) w)"
    by (rule apart_change(9) [OF w]) (simp_all add: receivedRow_def not_in_image [OF assms])
qed simp

lemma beside_create_inbound [beside]:
  assumes "t \<noteq> u"
  shows "keeps (bystander u v K) (create_inbound t s l n due rf)"
proof -
  have row: "i \<in> K \<Longrightarrow> ib_id r = i \<Longrightarrow> ib_tenantId r \<noteq> u \<Longrightarrow> keeps (bystander u v K) (createRow inbounds inbounds_update r)" for K i r
    by (rule beside_createRow) (auto simp: strange_def intro!: apart_new)
  show ?thesis
    unfolding create_inbound_def by (intro keeps_bind [OF keeps_now] beside_draw flow row beside) (simp_all add: assms)
qed

lemma beside_receive_inbound [beside]:
  assumes "t \<noteq> u"
  shows "keeps (bystander u v K) (receive_inbound t i q)"
proof -
  have own: "ib_id r \<notin> ib_id ` set (inbounds v)" if "bystander u v K w" "findInbound t i w = Some r" for w r
    using apartD(11) [OF bystander_apart [OF that(1)]] find_SomeD [OF that(2) [unfolded findInbound_def]] assms by auto
  show ?thesis
    unfolding receive_inbound_def Let_def
    by (rule keeps_bind, rule keeps_transaction, rule keeps_found) (intro flow beside beside_inboundChange; simp add: assms own)+
qed

lemma beside_network [beside]:
  assumes "t \<noteq> u"
  shows "keeps (bystander u v K) (network d t s)" "keeps (bystander u v K) (atLocation d t s l)"
  unfolding network_def atLocation_def cached_def
  by (intro flow beside_modify; use assms in \<open>auto intro!: apart_new\<close>)+

lemma beside_forecast [beside]: "t \<noteq> u \<Longrightarrow> keeps (bystander u v K) (forecastBySkuId d t i h n)"
  unfolding forecastBySkuId_def forecast_compute_def by (intro flow keeps_now beside)

lemma beside_reconcile [beside]:
  assumes "t \<noteq> u"
  shows "keeps (bystander u v K) (reconcileTenant t rep)"
proof -
  have check: "keeps (bystander u v K) (checkRow dm rep s)" if "sn_id s \<notin> sn_id ` set (snapshots v)" "sn_tenantId s \<noteq> u" for dm s
    unfolding checkRow_def repairRow_def Let_def
    by (intro flow beside_snapshotChange beside_modify; use that in \<open>auto intro!: apart_new\<close>)
  show ?thesis
    unfolding reconcileTenant_def run_def
  proof (rule keeps_bind [OF keeps_gets], rule keeps_read, rule keeps_bind [OF _ keeps_ret])
    fix dm ss w assume w: "bystander u v K w" "filter (\<lambda>s. inScope (Some t) (sn_tenantId s)) (snapshots w) = ss"
    have "s \<in> set (snapshots w)" "sn_tenantId s \<noteq> u" if "s \<in> set ss" for s
      using that w(2) assms by (auto simp: inScope_def)
    then have "sn_id s \<notin> sn_id ` set (snapshots v)" "sn_tenantId s \<noteq> u" if "s \<in> set ss" for s
      using that apartD(3) [OF bystander_apart [OF w(1)]] by blast+
    then show "keeps (bystander u v K) (collect ss (checkRow dm rep))"
      by (intro keeps_intro wp_collect [where I = "\<lambda>_. bystander u v K"]) (simp_all add: keeps_wp [OF check])
  qed
qed

section \<open>Holds\<close>

lemma beside_holdChange:
  assumes "rv_id r \<notin> rv_id ` set (reservations v)"
  shows "keeps (bystander u v K) (updateRow reservations reservations_update (\<lambda>x. rv_id x = rv_id r) (rv_status_update (\<lambda>_. st)))"
proof (rule beside_updateRow)
  fix w assume w: "apart u v w"
  show "apart u v (reservations_update (\<lambda>_. mapWhere (\<lambda>x. rv_id x = rv_id r) (rv_status_update (\<lambda>_. st)) (reservations w)) w)"
    by (rule apart_change(5) [OF w]) (simp_all add: not_in_image [OF assms])
qed simp

text \<open>What an operation returns, beside what it keeps.\<close>

lemma keeps_gives:
  assumes "\<And>w. I w \<Longrightarrow> wp m (\<lambda>x w. I w \<and> P x) (\<lambda>_. I) w" "\<And>x. P x \<Longrightarrow> keeps I (f x)"
  shows "keeps I (bind m f)"
proof (rule keeps_intro)
  fix w assume "I w"
  show "wp (bind m f) (\<lambda>_. I) (\<lambda>_. I) w"
    unfolding wp_bind by (rule wp_mono [OF assms(1) [OF \<open>I w\<close>]]) (auto intro: keeps_wp [OF assms(2)])
qed

lemma beside_release [beside]:
  assumes i: "i \<notin> rv_id ` set (reservations v)"
  shows "keeps (bystander u v K) (release i st)"
proof -
  have tx: "wp (releaseTx i st) (\<lambda>x w. bystander u v K w \<and> (\<forall>r. x = Some r \<longrightarrow> rv_tenantId r \<noteq> u)) (\<lambda>_. bystander u v K) w"
    if w: "bystander u v K w" for w
  proof (cases "findReservation i w")
    case (Some r)
    then have r: "r \<in> set (reservations w)" "rv_id r = i" by (auto simp: findReservation_def dest: find_SomeD)
    then have t: "rv_tenantId r \<noteq> u" using apart_mine(3) [OF bystander_apart [OF w]] i by simp
    have "keeps (bystander u v K) (andThen (applyWithin (releaseParams r))
        (andThen (updateRow reservations reservations_update (\<lambda>x. rv_id x = rv_id r) (rv_status_update (\<lambda>_. st))) (ret (Some r))))"
      by (intro flow beside beside_holdChange) (use t r(2) i in simp_all)
    from keeps_wp [OF this w] show ?thesis
      using w t by (auto simp: releaseTx_def wp Some elim!: wp_mono)
  qed (use w in \<open>simp add: releaseTx_def wp\<close>)
  show ?thesis
    unfolding release_def
  proof (rule keeps_gives)
    fix w assume w: "bystander u v K w"
    show "wp (transaction (releaseTx i st)) (\<lambda>x w. bystander u v K w \<and> (\<forall>r. x = Some r \<longrightarrow> rv_tenantId r \<noteq> u)) (\<lambda>_. bystander u v K) w"
      unfolding wp_transaction by (rule wp_mono [OF tx [OF w]]) (simp_all add: w)
  qed (auto intro!: flow beside split: option.split)
qed

lemma beside_releaseForOrder [beside]:
  assumes "i \<notin> aboutOrders v"
  shows "keeps (bystander u v K) (releaseForOrder i)"
  unfolding releaseForOrder_def
proof (rule keeps_read)
  fix hs w assume w: "bystander u v K w"
    and ids: "map rv_id (filter (\<lambda>r. rv_orderId r = Some i \<and> rv_status r = ACTIVE) (reservations w)) = hs"
  have "j \<notin> rv_id ` set (reservations v)" if "j \<in> set hs" for j
  proof -
    obtain r where r: "r \<in> set (reservations w)" "rv_orderId r = Some i" "j = rv_id r" using \<open>j \<in> set hs\<close> ids by auto
    note a = bystander_apart [OF w]
    show ?thesis unfolding r(3) by (rule apartD(5) [OF a r(1) apart_mine(2) [OF a r(1,2) assms]])
  qed
  then have "keeps (bystander u v K) (andThen (release j ReservationStatus.RELEASED) (ret ()))" if "j \<in> set hs" for j
    using that by (intro flow beside) simp
  then show "keeps (bystander u v K) (forEach hs (\<lambda>i. andThen (release i ReservationStatus.RELEASED) (ret ())))"
    by (intro keeps_intro wp_forEach) (auto intro: keeps_wp)
qed

lemma beside_newHold: "i \<in> K \<Longrightarrow> rv_id r = i \<Longrightarrow> rv_tenantId r \<noteq> u \<Longrightarrow> keeps (bystander u v K) (createRow reservations reservations_update r)"
  by (rule beside_createRow) (auto simp: strange_def intro!: apart_new)

lemma beside_holdLeg: "o_tenantId ord \<noteq> u \<Longrightarrow> keeps (bystander u v K) (holdLeg ord line e leg)"
  unfolding holdLeg_def by (intro keeps_andThen beside beside_draw flow beside_newHold) (simp_all add: holdRow_def)

text \<open>Holds carry the tenant of their order.\<close>

lemma holds_tenant:
  "wp (collect ls (reserveLine ttl ord)) (\<lambda>rs _. \<forall>r \<in> set rs. rv_tenantId r = o_tenantId ord) (\<lambda>_ _. True) w"
proof -
  let ?I = "\<lambda>rs (_ :: world). \<forall>r \<in> set rs. rv_tenantId r = o_tenantId ord"
  have leg: "wp (holdLeg ord line e leg) (\<lambda>ys. ?I (acc @ ys)) (\<lambda>_ _. True) s" if "?I acc s" for line e leg acc s
    unfolding holdLeg_def by (simp add: wp, rule wp_mono [OF wp_trueI]) (use that in \<open>auto simp: holdRow_def\<close>)
  have line: "wp (reserveLine ttl ord line) (\<lambda>ys. ?I (acc @ ys)) (\<lambda>_ _. True) s" if acc: "?I acc s" for line acc s
  proof -
    have "wp (collect plan (holdLeg ord line e)) (\<lambda>ys. ?I (acc @ ys)) (\<lambda>_ _. True) s" for plan e s
    proof (rule wp_collect [where I = "\<lambda>ys. ?I (acc @ ys)"])
      fix leg ys t assume "?I (acc @ ys) t"
      from leg [OF this] show "wp (holdLeg ord line e leg) (\<lambda>zs. ?I (acc @ ys @ zs)) (\<lambda>_ _. True) t" by simp
    qed (use acc in simp)
    then show ?thesis unfolding reserveLine_def by (simp add: wp)
  qed
  show ?thesis
  proof (rule wp_collect [where I = ?I])
    fix l and acc :: "reservation list" and t assume "?I acc t"
    from line [OF this] show "wp (reserveLine ttl ord l) (\<lambda>ys. ?I (acc @ ys)) (\<lambda>_ _. True) t" .
  qed simp
qed

end
