(* ===== verification/Isolation.thy ===== *)
theory Isolation
  imports Bystander
begin

text \<open>
  No operation a tenant may call touches the share of another: the operations on orders, shipments, returns,
  rules and the catalog, and so every request of the controllers.
\<close>

section \<open>Orders\<close>

lemma beside_retry: "keeps (bystander u v K) m \<Longrightarrow> keeps (bystander u v K) (retryOnConflict defaultAttempts (\<lambda>_ w. w) m)"
  by (rule keeps_retryOnConflict) (simp_all add: defaultAttempts_def)

lemma wp_retry_always:
  assumes "\<And>s. wp m Q E s" "0 < n"
  shows "wp (retryOnConflict n env m) Q E s"
proof -
  have last: "\<exists>k. m (attemptState env m k s) = (r, s')" if "retryOnConflict n env m s = (r, s')" for r s'
    using that unfolding retryOnConflict_iff [OF assms(2)] by (elim exE conjE) (rule exI)
  show ?thesis
    unfolding wp_iff
  proof (intro conjI allI impI)
    fix x s' assume "retryOnConflict n env m s = (Inr x, s')"
    from last [OF this] show "Q x s'" by (elim exE) (rule wp_okD [OF assms(1)])
  next
    fix e s' assume "retryOnConflict n env m s = (Inl e, s')"
    from last [OF this] show "E e s'" by (elim exE) (rule wp_errD [OF assms(1)])
  qed
qed

lemma beside_reserveForOrder [beside]:
  assumes i: "i \<notin> aboutOrders v"
  shows "keeps (bystander u v K) (reserveForOrder ttl (\<lambda>_ w. w) i)"
  unfolding reserveForOrder_def
proof (rule keeps_found)
  fix ord w assume w: "bystander u v K w" "findOrder i w = Some ord"
  then have t: "o_tenantId ord \<noteq> u"
    using apart_mine(1) [OF bystander_apart [OF w(1)], of ord] i by (auto simp: findOrder_def dest: find_SomeD)
  let ?tx = "\<lambda>ls. transaction (collect ls (reserveLine ttl ord))"
  have tx: "keeps (bystander u v K) (?tx ls)" for ls
    unfolding reserveLine_def by (intro flow keeps_now beside_holdLeg t)
  have mine: "wp (retryOnConflict defaultAttempts (\<lambda>_ w. w) (?tx ls)) (\<lambda>rs w. bystander u v K w \<and> (\<forall>r \<in> set rs. rv_tenantId r \<noteq> u)) (\<lambda>_. bystander u v K) w"
    if w: "bystander u v K w" for ls w
  proof -
    have "wp (?tx ls) (\<lambda>rs _. \<forall>r \<in> set rs. rv_tenantId r \<noteq> u) (\<lambda>_ _. True) w" for w
      unfolding wp_transaction by (rule wp_mono [OF holds_tenant]) (simp_all add: t)
    then have "wp (retryOnConflict defaultAttempts (\<lambda>_ w. w) (?tx ls)) (\<lambda>rs _. \<forall>r \<in> set rs. rv_tenantId r \<noteq> u) (\<lambda>_ _. True) w"
      by (rule wp_retry_always) (simp add: defaultAttempts_def)
    from wp_conj [OF keeps_wp [OF beside_retry [OF tx] w] this] show ?thesis by simp
  qed
  have jobs: "keeps (bystander u v K) (scheduleExpiry r)" if "rv_tenantId r \<noteq> u" for r
    unfolding scheduleExpiry_def by (intro flow keeps_now beside_modify) (use that in \<open>auto intro!: apart_new\<close>)
  have after: "keeps (bystander u v K) (andThen (forEach (uniq (map rv_skuId rs)) (invalidate (o_tenantId ord)))
      (andThen (forEach rs scheduleExpiry) (ret rs)))" if "\<forall>r \<in> set rs. rv_tenantId r \<noteq> u" for rs
  proof -
    have loop: "keeps (bystander u v K) (forEach rs scheduleExpiry)"
      by (intro keeps_intro wp_forEach) (use that in \<open>auto intro: keeps_wp [OF jobs]\<close>)
    show ?thesis by (intro keeps_andThen loop keeps_ret keeps_forEach beside t)
  qed
  show "keeps (bystander u v K) (bind (gets (linesOf i)) (\<lambda>lines.
      bind (retryOnConflict defaultAttempts (\<lambda>_ w. w) (transaction (collect lines (reserveLine ttl ord)))) (\<lambda>created.
      andThen (forEach (uniq (map rv_skuId created)) (invalidate (o_tenantId ord))) (andThen (forEach created scheduleExpiry) (ret created)))))"
    by (intro keeps_bind [OF keeps_gets] keeps_gives [OF mine after])
qed

lemma beside_orderChange:
  assumes "i \<notin> aboutOrders v" "\<And>x. o_id (f x) = o_id x" "\<And>x. o_tenantId (f x) = o_tenantId x"
  shows "keeps (bystander u v K) (updateRow orders orders_update (\<lambda>x. o_id x = i) f)"
proof (rule beside_updateRow)
  fix w assume w: "apart u v w"
  show "apart u v (orders_update (\<lambda>_. mapWhere (\<lambda>x. o_id x = i) f (orders w)) w)"
    by (rule apart_change(4) [OF w]) (use assms in \<open>auto simp: aboutOrders_def\<close>)
qed simp

lemma beside_recordEvent [beside]: "i \<notin> aboutOrders v \<Longrightarrow> keeps (bystander u v K) (recordEvent i a b n)"
  unfolding recordEvent_def by (intro flow keeps_now beside_createRow) (simp_all add: apart_new)

lemma beside_publish [beside]: "de_tenantId ev \<noteq> u \<Longrightarrow> keeps (bystander u v K) (publish ev)"
  unfolding publish_def by (intro beside_modify) (simp add: apart_new)

text \<open>An order found under a tenant is none of another.\<close>

lemma found_own:
  assumes "bystander u v K w" "findTenantOrder t i w = Some ord" "t \<noteq> u"
  shows "i \<notin> aboutOrders v" "o_id ord = i" "o_tenantId ord = t"
  using apartD(4) [OF bystander_apart [OF assms(1)], of ord] findTenantOrderD [OF assms(2)] assms(3) by auto

lemma beside_transition [beside]:
  assumes "t \<noteq> u"
  shows "keeps (bystander u v K) (transition t i to n)"
  unfolding transition_def transitionTx_def assertTransition_def
  by (rule keeps_bind, rule keeps_transaction, rule keeps_found)
    (intro flow beside_orderChange beside; simp add: assms found_own(1) [OF _ _ assms])+

lemma beside_get_order: "keeps J (get_order t i)"
  by (rule keeps_get_order)

lemma beside_strange: "(strange v i \<Longrightarrow> keeps (bystander u v K) m) \<Longrightarrow> i \<in> K \<Longrightarrow> keeps (bystander u v K) m"
  by (rule keeps_intro) (auto simp: bystander_def intro: keeps_wp)

lemma beside_createOrderTx:
  assumes "t \<noteq> u" "bystander u v K w"
  shows "wp (transaction (createOrderTx t dto)) (\<lambda>ord w. bystander u v K w \<and> o_id ord \<notin> aboutOrders v) (\<lambda>_. bystander u v K) w"
proof -
  have line: "keeps (bystander u v K) (createLine i dl)" if "i \<notin> aboutOrders v" for K i dl
    unfolding createLine_def by (intro flow beside_freshId beside_createRow) (use that in \<open>simp_all add: apart_new newLine_def\<close>)
  have row: "keeps (bystander u v K) (createRow orders orders_update (newOrder t dto i ts))" if "i \<in> K" for K i ts
    by (rule beside_createRow) (use that assms(1) in \<open>auto simp: strange_def newOrder_def intro!: apart_new\<close>)
  have "keeps (bystander u v K) (createOrderTx t dto)"
    unfolding createOrderTx_def
    by (intro beside_draw, rule beside_strange [OF _ insertI1], intro flow keeps_now row line beside) (auto simp: strange_def)
  then have "wp (transaction (createOrderTx t dto)) (\<lambda>_. bystander u v K) (\<lambda>_. bystander u v K) w"
    by (intro keeps_wp keeps_transaction assms(2))
  moreover have "wp (transaction (createOrderTx t dto)) (\<lambda>ord _. o_id ord = nextId w) (\<lambda>_ _. True) w"
    unfolding wp_transaction by (rule wp_mono [OF wp_createOrderTx]) (simp_all add: newOrder_def)
  ultimately show ?thesis
    by (rule wp_mono [OF wp_conj]) (use apart_strange [OF bystander_apart [OF assms(2)]] in \<open>auto simp: strange_def\<close>)
qed

lemma beside_create_order [beside]:
  assumes "t \<noteq> u"
  shows "keeps (bystander u v K) (create_order ttl (\<lambda>_ w. w) t dto)"
  unfolding create_order_def
  by (rule keeps_gives [OF beside_createOrderTx [OF assms]], assumption) (intro flow beside beside_get_order; simp)+

lemma beside_reserve_order [beside]:
  assumes "t \<noteq> u"
  shows "keeps (bystander u v K) (reserve_order ttl (\<lambda>_ w. w) t i)"
proof (rule keeps_intro)
  fix w assume w: "bystander u v K w"
  show "wp (reserve_order ttl (\<lambda>_ w. w) t i) (\<lambda>_. bystander u v K) (\<lambda>_. bystander u v K) w"
  proof (cases "findTenantOrder t i w")
    case (Some ord)
    have "keeps (bystander u v K) (reserve_order ttl (\<lambda>_ w. w) t i)"
      unfolding reserve_order_def by (intro keeps_andThen beside_get_order beside found_own [OF w Some assms])
    then show ?thesis using w by (rule keeps_wp)
  qed (simp add: reserve_order_def get_order_def wp w)
qed

lemma beside_gateway: "gatewayOnly m \<Longrightarrow> keeps (bystander u v K) m"
proof (erule keeps_gatewayOnly)
  fix w n g assume w: "bystander u v K w" "nextId w \<le> n"
  from bystander_ids [OF this] have "bystander u v K (w\<lparr>nextId := n\<rparr>)" .
  then have "bystander u v K (w\<lparr>nextId := n, gatewayLog := g\<rparr>)" by (auto simp: bystander_def intro: apart_new(19))
  then show "bystander u v K (w\<lparr>nextId := n, gatewayLog := g\<rparr>)" .
qed

lemma beside_setPaymentStatus [beside]: "i \<notin> aboutOrders v \<Longrightarrow> keeps (bystander u v K) (setPaymentStatus i st)"
  unfolding setPaymentStatus_def by (intro flow beside_orderChange) simp_all

lemma beside_reversePayment [beside]:
  assumes "payment_gateway gw" "o_id ord \<notin> aboutOrders v"
  shows "keeps (bystander u v K) (reversePayment gw ord)"
  unfolding reversePayment_def
  by (intro flow beside beside_gateway payment_gateway.refundPayment_only [OF assms(1)] payment_gateway.void_only [OF assms(1)] assms(2))

lemma beside_allocationChange:
  assumes "al_id a \<notin> al_id ` set (allocations v)"
  shows "keeps (bystander u v K) (updateRow allocations allocations_update (\<lambda>x. al_id x = al_id a) (al_status_update f))"
proof (rule beside_updateRow)
  fix w assume w: "apart u v w"
  show "apart u v (allocations_update (\<lambda>_. mapWhere (\<lambda>x. al_id x = al_id a) (al_status_update f) (allocations w)) w)"
    by (rule apart_change(6) [OF w]) (simp_all add: not_in_image [OF assms])
qed simp

lemma beside_cancelAllocation: "t \<noteq> u \<Longrightarrow> al_id a \<notin> al_id ` set (allocations v) \<Longrightarrow> keeps (bystander u v K) (cancelAllocation t a)"
  unfolding cancelAllocation_def by (intro flow beside beside_allocationChange) simp_all

lemma beside_cancelShipments:
  assumes "i \<notin> aboutOrders v"
  shows "keeps (bystander u v K) (cancelShipments i)"
  unfolding cancelShipments_def
proof (intro keeps_bind keeps_now beside_updateRow(2))
  fix ts w assume w: "apart u v w"
  show "apart u v (shipments_update (\<lambda>_. mapWhere (\<lambda>s. sh_orderId s = i \<and> sh_status s \<in> {ShipmentStatus.PENDING, ShipmentStatus.PICKED})
      (\<lambda>s. s\<lparr>sh_status := ShipmentStatus.CANCELLED, sh_updatedAt := ts\<rparr>) (shipments w)) w)"
    by (rule apart_shipments [OF w]) (use assms in \<open>auto simp: aboutOrders_def\<close>)
qed simp

lemma beside_cancel [beside]:
  assumes gw: "payment_gateway gw" and t: "t \<noteq> u"
  shows "keeps (bystander u v K) (cancel gw t i n)"
  unfolding cancel_def
proof (rule keeps_found)
  fix ord w assume "bystander u v K w" "findTenantOrder t i w = Some ord"
  note own = found_own [OF this t]
  have each: "keeps (bystander u v K) (forEach as (cancelAllocation t))"
    if "bystander u v K w" "filter (\<lambda>a. al_orderId a = o_id ord \<and> openAllocation a) (allocations w) = as" for as w
  proof -
    note a = bystander_apart [OF that(1)]
    have "al_id x \<notin> al_id ` set (allocations v)" if "x \<in> set as" for x
    proof -
      have x: "x \<in> set (allocations w)" "al_orderId x = i" using that \<open>_ = as\<close> own(2) by auto
      show ?thesis by (rule apartD(6) [OF a x(1) apart_mine(4) [OF a x(1)]]) (simp add: x(2) own(1))
    qed
    then show ?thesis by (intro keeps_intro wp_forEach) (auto intro: keeps_wp beside_cancelAllocation [OF t])
  qed
  show "keeps (bystander u v K) (andThen (releaseForOrder (o_id ord))
      (bind (gets (\<lambda>w. filter (\<lambda>a. al_orderId a = o_id ord \<and> openAllocation a) (allocations w))) (\<lambda>opened.
      andThen (forEach opened (cancelAllocation t)) (andThen (cancelShipments (o_id ord))
      (bind (transition t i OrderStatus.CANCELLED n) (\<lambda>cancelled. andThen (reversePayment gw ord) (ret cancelled)))))))"
    by (rule keeps_andThen, rule beside_releaseForOrder, simp add: own, rule keeps_read)
      (intro keeps_andThen each keeps_bind keeps_ret beside_cancelShipments beside gw; (assumption | simp add: own t))
qed

lemma beside_recordOutcome: "i \<notin> aboutOrders v \<Longrightarrow> keeps (bystander u v K) (recordOutcome i out)"
  unfolding recordOutcome_def by (intro flow beside_orderChange) simp_all

lemma beside_validate_order [beside]:
  assumes gw: "payment_gateway gw" and t: "t \<noteq> u"
  shows "keeps (bystander u v K) (validate_order cfg gw t i)"
  unfolding validate_order_def
  by (rule keeps_found) (intro flow beside_recordOutcome beside beside_gateway payment_gateway.evaluate_only gw; simp add: t found_own(1) [OF _ _ t])

lemma beside_release_order [beside]: "t \<noteq> u \<Longrightarrow> keeps (bystander u v K) (release_order t i)"
  unfolding release_order_def by (intro beside)

section \<open>Sourcing\<close>

lemma beside_consumeHold:
  assumes "o_tenantId ord \<noteq> u" "rv_id r \<notin> rv_id ` set (reservations v)"
  shows "keeps (bystander u v K) (consumeHold ord r)"
  unfolding consumeHold_def by (intro flow beside beside_holdChange) (simp_all add: assms)

lemma beside_releaseOwn:
  assumes t: "o_tenantId ord \<noteq> u" and i: "o_id ord \<notin> aboutOrders v"
  shows "keeps (bystander u v K) (releaseOwnReservations ord)"
  unfolding releaseOwnReservations_def
proof (rule keeps_read)
  fix hs w assume w: "bystander u v K w" and hs: "filter (\<lambda>r. rv_orderId r = Some (o_id ord) \<and> rv_status r = ACTIVE) (reservations w) = hs"
  have "rv_id r \<notin> rv_id ` set (reservations v)" if "r \<in> set hs" for r
  proof -
    have r: "r \<in> set (reservations w)" "rv_orderId r = Some (o_id ord)" using that hs by auto
    note a = bystander_apart [OF w]
    show ?thesis by (rule apartD(5) [OF a r(1) apart_mine(2) [OF a r i]])
  qed
  then show "keeps (bystander u v K) (forEach hs (consumeHold ord))"
    by (intro keeps_intro wp_forEach) (auto intro: keeps_wp beside_consumeHold [OF t])
qed

lemma beside_newAllocation: "i \<in> K \<Longrightarrow> al_id r = i \<Longrightarrow> al_tenantId r \<noteq> u \<Longrightarrow> keeps (bystander u v K) (createRow allocations allocations_update r)"
  by (rule beside_createRow) (auto simp: strange_def intro!: apart_new)

lemma beside_sourceLine:
  assumes "t \<noteq> u"
  shows "keeps (bystander u v K) (sourceLine st t ord line)"
  unfolding sourceLine_def createAllocation_def Let_def
  by (intro keeps_andThen keeps_bind [OF keeps_gets] keeps_throwIf keeps_forEach beside beside_draw keeps_ret beside_newAllocation)
    (simp_all add: assms allocationRow_def)

lemma beside_shipmentFor:
  assumes t: "t \<noteq> u" and i: "o_id ord \<notin> aboutOrders v"
  shows "keeps (bystander u v K) (shipmentFor t ord l)"
proof -
  have row: "keeps (bystander u v K) (createRow shipments shipments_update (newShipment t ord lo n ts))" if "n \<in> K" for K lo n ts
    by (rule beside_createRow) (use that t i in \<open>auto simp: strange_def newShipment_def intro!: apart_new\<close>)
  have mine: "keeps (bystander u v K) (updateMany allocations allocations_update
      (\<lambda>a. al_orderId a = o_id ord \<and> al_locationId a = l \<and> al_shipmentId a = None) (al_shipmentId_update (\<lambda>_. s)))" for K s
  proof (rule beside_updateRow(2))
    fix w assume w: "apart u v w"
    show "apart u v (allocations_update (\<lambda>_. mapWhere (\<lambda>a. al_orderId a = o_id ord \<and> al_locationId a = l \<and> al_shipmentId a = None)
        (al_shipmentId_update (\<lambda>_. s)) (allocations w)) w)"
    proof (rule apart_change(6) [OF w])
      fix x assume "x \<in> set (allocations v)"
      moreover have "o_id ord \<notin> al_orderId ` set (allocations v)" using i by (simp add: aboutOrders_def)
      ultimately have "al_orderId x \<noteq> o_id ord" by (intro not_in_image)
      then show "\<not> (al_orderId x = o_id ord \<and> al_locationId x = l \<and> al_shipmentId x = None)" by simp
    qed simp_all
  qed simp
  show ?thesis
    unfolding shipmentFor_def
    by (intro keeps_bind [OF keeps_gets] keeps_bind [OF keeps_orThrow] beside_draw keeps_bind [OF keeps_now] keeps_bind [OF row] keeps_andThen [OF mine] keeps_ret)
      simp
qed

lemma beside_source_order [beside]:
  assumes t: "t \<noteq> u"
  shows "keeps (bystander u v K) (source_order (\<lambda>_ w. w) t i)"
  unfolding source_order_def
proof (rule keeps_found)
  fix ord w assume "bystander u v K w" "findTenantOrder t i w = Some ord"
  note own = found_own [OF this t]
  have tx: "keeps (bystander u v K) (sourceTx st t ord ls)" for st ls
    unfolding sourceTx_def Let_def
    by (intro keeps_andThen keeps_bind keeps_collect keeps_ret beside_releaseOwn beside_sourceLine beside_shipmentFor beside_orderChange beside_recordEvent)
      (simp_all add: own t)
  show "keeps (bystander u v K) (bind (gets (linesOf i)) (\<lambda>lines.
      andThen (throwIf (o_status ord \<noteq> OrderStatus.VALIDATED) (BadRequest ''Order must be VALIDATED to source''))
      (bind (gets (resolveStrategy ord)) (\<lambda>strategy. sourceCommit (\<lambda>_ w. w) strategy t ord lines))))"
    unfolding sourceCommit_def by (intro flow beside_retry tx beside) (rule t)
qed

section \<open>Fulfillment\<close>

lemma beside_upperRef: "keeps (bystander u v K) (upperRef pre n)"
  unfolding upperRef_def by (intro flow beside)

lemma beside_updateShipment:
  assumes "i \<notin> aboutShipments v" "\<And>x. sh_id (f x) = sh_id x" "\<And>x. sh_orderId (f x) = sh_orderId x" "\<And>x. sh_tenantId (f x) = sh_tenantId x"
  shows "keeps (bystander u v K) (updateShipment i f)"
  unfolding updateShipment_def
proof (intro keeps_bind keeps_now beside_updateRow(1))
  fix ts w assume w: "apart u v w"
  show "apart u v (shipments_update (\<lambda>_. mapWhere (\<lambda>s. sh_id s = i) (\<lambda>s. (f s)\<lparr>sh_updatedAt := ts\<rparr>) (shipments w)) w)"
    by (rule apart_shipments [OF w]) (use assms in \<open>auto simp: aboutShipments_def\<close>)
qed simp

lemma beside_shipped:
  assumes "i \<notin> aboutShipments v"
  shows "keeps (bystander u v K) (updateMany allocations allocations_update (\<lambda>a. al_shipmentId a = Some i \<and> P a) (al_status_update f))"
proof (rule beside_updateRow(2))
  fix w assume w: "apart u v w"
  show "apart u v (allocations_update (\<lambda>_. mapWhere (\<lambda>a. al_shipmentId a = Some i \<and> P a) (al_status_update f) (allocations w)) w)"
    by (rule apart_change(6) [OF w]) (use assms in \<open>force simp: aboutShipments_def\<close>)+
qed simp

lemma beside_wmsDispatch: "keeps (bystander u v K) (wmsDispatch cfg sh ls)"
proof -
  have "keeps (bystander u v K) (wp_dispatch mockWms sh ls)" "keeps (bystander u v K) (wp_dispatch shipBobWms sh ls)"
    unfolding mockWms_def shipBobWms_def wmsProvider.select_convs by (intro flow beside_upperRef)+
  moreover have "providerFor cfg \<in> {mockWms, shipBobWms}"
    by (auto simp: providerFor_def wmsRegistry_def split: option.split if_splits)
  ultimately show ?thesis unfolding wmsDispatch_def by auto
qed

text \<open>A shipment found under a tenant is none of another, and neither is its order.\<close>

lemma beside_requireShipment:
  assumes t: "t \<noteq> u" and rest: "\<And>sh. sh_id sh = i \<Longrightarrow> i \<notin> aboutShipments v \<Longrightarrow> sh_orderId sh \<notin> aboutOrders v \<Longrightarrow> keeps (bystander u v K) (f sh)"
  shows "keeps (bystander u v K) (bind (requireShipment t i) f)"
proof (rule keeps_intro)
  fix w assume w: "bystander u v K w"
  show "wp (bind (requireShipment t i) f) (\<lambda>_. bystander u v K) (\<lambda>_. bystander u v K) w"
  proof (cases "find (\<lambda>s. sh_id s = i \<and> sh_tenantId s = t) (shipments w)")
    case (Some sh)
    then have "sh \<in> set (shipments w)" "sh_id sh = i" "sh_tenantId sh \<noteq> u" using t by (auto dest: find_SomeD)
    then have "keeps (bystander u v K) (f sh)" using rest apartD(7,8) [OF bystander_apart [OF w]] by metis
    then show ?thesis using w by (simp add: requireShipment_def wp Some keeps_wp)
  qed (simp add: requireShipment_def wp w)
qed

lemma beside_rollupOrder:
  assumes gw: "payment_gateway gw" and "t \<noteq> u" "i \<notin> aboutOrders v"
  shows "keeps (bystander u v K) (rollupOrder gw t i)"
proof -
  have "keeps (bystander u v K) (captureOrderPayment gw i)"
    unfolding captureOrderPayment_def capturePayment_def
    by (intro flow beside beside_gateway payment_gateway.capture_only [OF gw] assms)
  then show ?thesis unfolding rollupOrder_def Let_def by (intro flow beside assms)
qed

lemma beside_depleteTx:
  assumes "t \<noteq> u" "i \<notin> aboutShipments v" "\<And>x. sh_id (f x) = sh_id x" "\<And>x. sh_orderId (f x) = sh_orderId x" "\<And>x. sh_tenantId (f x) = sh_tenantId x"
  shows "keeps (bystander u v K) (depleteTx t i as f)"
  unfolding depleteTx_def by (intro flow beside beside_shipped beside_updateShipment) (simp_all add: assms)

lemmas beside_steps = flow beside_rollupOrder beside_depleteTx beside_shipped beside_updateShipment beside_upperRef beside_wmsDispatch beside

lemma beside_fulfilment [beside]:
  assumes gw: "payment_gateway gw" and t: "t \<noteq> u"
  shows "keeps (bystander u v K) (dispatch cfg t i)" "keeps (bystander u v K) (pick gw t i)" "keeps (bystander u v K) (markReadyForPickup gw t i)"
    "keeps (bystander u v K) (pickUp gw t i)" "keeps (bystander u v K) (ship gw t i c)" "keeps (bystander u v K) (deliver gw t i)"
  unfolding dispatch_def pick_def markReadyForPickup_def pickUp_def ship_def deliver_def
  by (rule beside_requireShipment [OF t]; intro beside_steps gw t; simp)+

section \<open>Returns\<close>

lemma beside_create_return [beside]:
  assumes t: "t \<noteq> u"
  shows "keeps (bystander u v K) (create_return t dto)"
proof -
  have check: "keeps (bystander u v K) (checkReturnLine ls rl)" for ls rl
    unfolding checkReturnLine_def by (intro flow)
  have line: "keeps (bystander u v K) (createReturnLine ls i rl)" if "i \<notin> rt_id ` set (returnRows v)" for K ls i rl
    unfolding createReturnLine_def by (intro flow beside_freshId beside_createRow) (use that in \<open>simp_all add: apart_new newReturnLine_def\<close>)
  have row: "keeps (bystander u v K) (createRow returnRows returnRows_update (newReturn t dto oi rma i ts))" if "i \<in> K" for K oi rma i ts
    by (rule beside_createRow) (use that t in \<open>auto simp: strange_def newReturn_def intro!: apart_new\<close>)
  have tx: "keeps (bystander u v K) (createReturnTx t dto oi ls rma)" for oi ls rma
    unfolding createReturnTx_def
    by (intro beside_draw, rule beside_strange [OF _ insertI1], intro flow keeps_now row line) (simp_all add: strange_def)
  show ?thesis
    unfolding create_return_def by (intro flow check beside_upperRef tx)
qed

lemma beside_receive_return [beside]:
  assumes gw: "payment_gateway gw" and t: "t \<noteq> u"
  shows "keeps (bystander u v K) (receive_return gw t i)"
proof -
  have status: "keeps (bystander u v K) (updateRow returnRows returnRows_update (\<lambda>r. rt_id r = j) (rt_status_update (\<lambda>_. st)))"
    if "j \<notin> rt_id ` set (returnRows v)" for j st
  proof (rule beside_updateRow)
    fix w assume w: "apart u v w"
    show "apart u v (returnRows_update (\<lambda>_. mapWhere (\<lambda>r. rt_id r = j) (rt_status_update (\<lambda>_. st)) (returnRows w)) w)"
      by (rule apart_change(8) [OF w]) (simp_all add: not_in_image [OF that])
  qed simp
  have restock: "keeps (bystander u v K) (restockLine t j fb l)" for j fb l
    unfolding restockLine_def by (intro flow beside) (simp add: t)
  have mark: "keeps (bystander u v K) (maybeMarkOrderReturned t j)" for j
    unfolding maybeMarkOrderReturned_def by (intro flow beside t)
  have refund: "keeps (bystander u v K) (refundReturn gw t rma ls)" for rma ls
    unfolding refundReturn_def
  proof (rule keeps_read)
    fix found w assume w: "bystander u v K w" "findTenantOrder t (rt_orderId rma) w = found"
    show "keeps (bystander u v K) (case found of None \<Rightarrow> ret () | Some ord \<Rightarrow>
        if o_paymentReference ord \<in> {None, Some []} \<or> o_paymentStatus ord \<noteq> PaymentStatus.CAPTURED then ret ()
        else bind (gets (linesOf (o_id ord))) (\<lambda>lines.
          if refundMinor lines ls \<le> 0 then ret ()
          else bind (refundPayment gw (ord, lines) (Some (refundMinor lines ls))) (\<lambda>res.
            if fst res \<noteq> RefundStatus.REFUNDED then ret ()
            else if o_status ord = OrderStatus.RETURNED then setPaymentStatus (o_id ord) PaymentStatus.REFUNDED else ret ())))"
    proof (cases found)
      case (Some ord)
      note own = found_own [OF w(1) w(2) [unfolded Some] t]
      show ?thesis unfolding Some option.case
        by (intro flow beside beside_gateway payment_gateway.refundPayment_only [OF gw]) (simp add: own)
    qed (simp add: keeps_ret)
  qed
  show ?thesis
    unfolding receive_return_def
  proof (rule keeps_found, goal_cases)
    case (1 rma w)
    then have own: "rt_id rma \<notin> rt_id ` set (returnRows v)"
      using t by (intro apartD(10) [OF bystander_apart [OF 1(1)]]) (auto dest: find_SomeD)
    show ?case by (intro flow status restock mark refund own beside) (rule t)
  qed
qed

section \<open>Rules and the catalog\<close>

lemma beside_rules [beside]:
  assumes t: "t \<noteq> u"
  shows "keeps (bystander u v K) (create_rule t nm st dto)" "keeps (bystander u v K) (update_rule t i dto)"
proof -
  have row: "keeps (bystander u v K) (createRow sourcingRules sourcingRules_update r)" if "i \<in> K" "sr_id r = i" "sr_tenantId r = t" for K i r
    by (rule beside_createRow) (use that t in \<open>auto simp: strange_def intro!: apart_new\<close>)
  show "keeps (bystander u v K) (create_rule t nm st dto)"
    unfolding create_rule_def by (intro beside_draw row) simp_all
  show "keeps (bystander u v K) (update_rule t i dto)"
    unfolding update_rule_def
  proof (rule keeps_found, rule beside_updateRow(1))
    fix r w w' assume w: "bystander u v K w" and found: "find (\<lambda>r. sr_id r = i \<and> sr_tenantId r = t) (sourcingRules w) = Some r" and w': "apart u v w'"
    have own: "i \<notin> sr_id ` set (sourcingRules v)"
      using find_SomeD [OF found] t apartD(9) [OF bystander_apart [OF w]] by blast
    show "apart u v (sourcingRules_update (\<lambda>_. mapWhere (\<lambda>r. sr_id r = i) (updatedRule dto) (sourcingRules w')) w')"
      by (rule apart_change(7) [OF w']) (simp_all add: updatedRule_def not_in_image [OF own])
  qed simp
qed

lemma beside_skus [beside]:
  assumes t: "t \<noteq> u"
  shows "keeps (bystander u v K) (createSku t d1)" "keeps (bystander u v K) (updateSku t i d2)"
proof -
  have row: "keeps (bystander u v K) (createRow skus skus_update r)" if "i \<in> K" "sk_id r = i" "sk_tenantId r = t" for K i r
    by (rule beside_createRow) (use that t in \<open>auto simp: strange_def intro!: apart_new\<close>)
  show "keeps (bystander u v K) (createSku t d1)"
    unfolding createSku_def insertSku_def by (intro flow beside_draw row) simp_all
  show "keeps (bystander u v K) (updateSku t i d2)"
  proof (rule keeps_intro)
    fix w assume w: "bystander u v K w"
    show "wp (updateSku t i d2) (\<lambda>_. bystander u v K) (\<lambda>_. bystander u v K) w"
    proof (cases "find (\<lambda>k. sk_id k = i \<and> sk_tenantId k = t) (skus w)")
      case (Some k)
      have own: "i \<notin> sk_id ` set (skus v)" using find_SomeD [OF Some] t apartD(1) [OF bystander_apart [OF w]] by blast
      have "apart u v (w'\<lparr>skus := mapWhere (\<lambda>k. sk_id k = i) (changedSku d2) (skus w')\<rparr>)" if "apart u v w'" for w'
        by (rule apart_change(1) [OF that]) (simp_all add: changedSku_def not_in_image [OF own])
      then show ?thesis using w by (auto simp: updateSku_def requireSku_def wp Some bystander_def split: option.split)
    qed (simp add: updateSku_def requireSku_def wp w)
  qed
qed

lemma beside_locations [beside]:
  assumes t: "t \<noteq> u"
  shows "keeps (bystander u v K) (createLocation t d1)" "keeps (bystander u v K) (updateLocation t i d2)"
proof -
  have row: "keeps (bystander u v K) (createRow locations locations_update (newLocation t d1 i))" if "i \<in> K" for K i
    by (rule beside_createRow) (use that t in \<open>auto simp: strange_def newLocation_def intro!: apart_new\<close>)
  show "keeps (bystander u v K) (createLocation t d1)"
    unfolding createLocation_def insertLocation_def by (intro flow beside_draw row) simp_all
  show "keeps (bystander u v K) (updateLocation t i d2)"
  proof (rule keeps_intro)
    fix w assume w: "bystander u v K w"
    show "wp (updateLocation t i d2) (\<lambda>_. bystander u v K) (\<lambda>_. bystander u v K) w"
    proof (cases "find (\<lambda>l. lo_id l = i \<and> lo_tenantId l = t) (locations w)")
      case (Some l)
      have own: "i \<notin> lo_id ` set (locations v)" using find_SomeD [OF Some] t apartD(2) [OF bystander_apart [OF w]] by blast
      have "apart u v (w'\<lparr>locations := mapWhere (\<lambda>l. lo_id l = i) (changedLocation d2) (locations w')\<rparr>)" if "apart u v w'" for w'
        by (rule apart_change(2) [OF that]) (simp_all add: changedLocation_def not_in_image [OF own])
      then show ?thesis using w by (auto simp: updateLocation_def requireLocation_def wp Some bystander_def split: option.split)
    qed (simp add: updateLocation_def requireLocation_def wp w)
  qed
qed

lemma beside_reads: "keeps J (getSku t i)" "keeps J (getLocation t i)" "keeps J (listSkus col t q)" "keeps J (listLocations t q)"
  unfolding getSku_def requireSku_def getLocation_def requireLocation_def listSkus_def listLocations_def
  by (intro flow)+

section \<open>Every request\<close>

lemmas beside_ops = beside_stock beside_setSafetyStock beside_create_inbound beside_receive_inbound beside_network beside_forecast beside_reconcile
  beside_create_order beside_reserve_order beside_source_order beside_release_order beside_create_return beside_rules beside_skus beside_locations
  beside_cancel [OF gateway_ok] beside_validate_order [OF gateway_ok] beside_fulfilment [OF gateway_ok] beside_receive_return [OF gateway_ok]

lemmas beside_states = beside_ops [THEN keeps_snd [where I = "bystander u v K" for u v K]]

lemmas beside_read_states = beside_reads [where J = "bystander u v K" for u v K, THEN keeps_snd [where I = "bystander u v K" for u v K]]
  keeps_get_order [where I = "bystander u v K" for u v K, THEN keeps_snd [where I = "bystander u v K" for u v K]]

lemma beside_handled:
  assumes t: "t \<noteq> u" and w: "bystander u v K w"
  shows "bystander u v K (snd (handle (alone env) t r w))"
proof (cases r)
  case (Inventory q)
  then show ?thesis by (cases q) (auto simp: handle_defs beside_states [OF t w] w split: option.split)
next
  case (Orders q)
  then show ?thesis by (cases q) (auto simp: handle_defs beside_states [OF t w] beside_read_states w)
next
  case (Rules q)
  then show ?thesis by (cases q) (auto simp: handle_defs beside_states [OF t w] beside_read_states w)
next
  case (Fulfillment q)
  then show ?thesis by (cases q) (auto simp: handle_defs beside_states [OF t w] beside_read_states w)
next
  case (Catalog q)
  then show ?thesis by (cases q) (auto simp: handle_defs beside_states [OF t w] beside_read_states w)
next
  case (Admin q)
  then show ?thesis by (cases q) (auto simp: handle_defs beside_states [OF t w] beside_read_states w)
next
  case (Insight q)
  then show ?thesis by (cases q) (auto simp: handle_defs beside_states [OF t w] beside_read_states w)
qed

section \<open>Runs of other tenants\<close>

text \<open>
  What happens without \<open>u\<close>: requests of other tenants, the expiry of a hold that is not its own,
  reconciliation reports and time.
\<close>

inductive others_step :: "systemEnv \<Rightarrow> ident \<Rightarrow> world \<Rightarrow> world \<Rightarrow> bool" for env u where
  served: "t \<noteq> u \<Longrightarrow> others_step env u w (snd (handle env t r w))"
| lapsed: "i \<notin> rv_id ` set (reservations (shareOf u w)) \<Longrightarrow> others_step env u w (snd (process (ExpireOne i) w))"
| reported: "others_step env u w (snd (processReconciliation name w))"
| waited: "clock w \<le> ts \<Longrightarrow> others_step env u w (w\<lparr>clock := ts\<rparr>)"

lemma others_system: "others_step env u w w' \<Longrightarrow> system_step env w w'"
  by (auto elim!: others_step.cases intro: system_step.intros)

text \<open>Orders the share is about are orders of its tenant.\<close>

lemma about_own:
  assumes "linksOk {} w" "i \<in> aboutOrders (shareOf u w)"
  shows "(i, u) \<in> set (orderIds w)"
  using assms by (auto simp: aboutOrders_def shareOf_def linksOk_def shipInv_def orderIds_def)

lemma about_others:
  assumes w: "linksOk {} w" and "(i, t) \<in> set (orderIds w)" "t \<noteq> u"
  shows "i \<notin> aboutOrders (shareOf u w)"
proof
  assume "i \<in> aboutOrders (shareOf u w)"
  from about_own [OF w this] have "(i, u) \<in> set (orderIds w)" .
  moreover have "distinct (map fst (orderIds w))" using w by (simp add: linksOk_def)
  ultimately show False using assms(2,3) eq_key_imp_eq_value by metis
qed

lemma keyed_distinct: "distinct (map idf xs) \<Longrightarrow> (\<And>x. x \<in> set xs \<Longrightarrow> idf x < n) \<Longrightarrow> keyed idf tn n xs"
  unfolding keyed_def list_all_iff distinct_map by (auto dest: inj_onD)

lemma tableOk_direct:
  assumes "\<And>x. x \<in> set xs \<Longrightarrow> tn x \<noteq> u \<Longrightarrow> idf x \<notin> F" "\<And>x. x \<in> set xs \<Longrightarrow> idf x < n" "\<And>i. i \<in> F \<Longrightarrow> i < n"
  shows "tableOk idf tn u F n (filter (\<lambda>x. tn x = u) xs) xs"
  using assms by (simp add: tableOk_def)

lemma share_sel:
  "skus (shareOf u w) = filter (\<lambda>x. sk_tenantId x = u) (skus w)" "locations (shareOf u w) = filter (\<lambda>x. lo_tenantId x = u) (locations w)"
  "ledger (shareOf u w) = filter (\<lambda>x. lg_tenantId x = u) (ledger w)" "snapshots (shareOf u w) = filter (\<lambda>x. sn_tenantId x = u) (snapshots w)"
  "orders (shareOf u w) = filter (\<lambda>x. o_tenantId x = u) (orders w)"
  "orderLines (shareOf u w) = filter (\<lambda>x. ol_orderId x \<in> o_id ` set (orders (shareOf u w))) (orderLines w)"
  "orderEvents (shareOf u w) = filter (\<lambda>x. oe_orderId x \<in> o_id ` set (orders (shareOf u w))) (orderEvents w)"
  "reservations (shareOf u w) = filter (\<lambda>x. rv_tenantId x = u) (reservations w)"
  "allocations (shareOf u w) = filter (\<lambda>x. al_tenantId x = u) (allocations w)"
  "shipments (shareOf u w) = filter (\<lambda>x. sh_tenantId x = u) (shipments w)"
  "sourcingRules (shareOf u w) = filter (\<lambda>x. sr_tenantId x = u) (sourcingRules w)"
  "returnRows (shareOf u w) = filter (\<lambda>x. rt_tenantId x = u) (returnRows w)"
  "returnLines (shareOf u w) = filter (\<lambda>x. rl_returnId x \<in> rt_id ` set (returnRows (shareOf u w))) (returnLines w)"
  "inbounds (shareOf u w) = filter (\<lambda>x. ib_tenantId x = u) (inbounds w)" "outbox (shareOf u w) = filter (\<lambda>x. ob_tenantId x = u) (outbox w)"
  "published (shareOf u w) = filter (\<lambda>x. de_tenantId x = u) (published w)" "jobs (shareOf u w) = filter (\<lambda>x. ej_tenantId x = u) (jobs w)"
  "cache (shareOf u w) k = (if fst k = u then cache w k else None)"
  by (simp_all add: shareOf_def ordersOf_def returnsOf_def)

lemma apart_init:
  assumes w: "sysInv w" and keys: "keysOk w"
  shows "apart u (shareOf u w) w"
proof -
  let ?v = "shareOf u w"
  note links = sysInvD(2) [OF w]
  have ship: "distinct (map sh_id (shipments w))" "\<And>s. s \<in> set (shipments w) \<Longrightarrow> sh_id s < nextId w"
    "\<And>s. s \<in> set (shipments w) \<Longrightarrow> (sh_orderId s, sh_tenantId s) \<in> set (orderIds w)"
    "\<And>a s. a \<in> set (allocations w) \<Longrightarrow> s \<in> set (shipments w) \<Longrightarrow> al_shipmentId a = Some (sh_id s) \<Longrightarrow> al_tenantId a = sh_tenantId s"
    using sysInvD(3) [OF w] by (simp_all add: shipInv_def)
  have al: "s < nextId w" if "a \<in> set (allocations w)" "al_shipmentId a = Some s" for a s using links that by (auto simp: linksOk_def)
  have rows: "snapshotsOk w" "commitRows w" "retInv w"
    using coreInvD(1,2) [OF sysInvD(1) [OF w]] links by (simp_all add: stockInv_def commitInv_def linksOk_def)
  have ords: "tableOk o_id o_tenantId u (aboutOrders ?v) (nextId w) (orders ?v) (orders w)"
  proof -
    have ids: "(o_id x, o_tenantId x) \<in> set (orderIds w)" if "x \<in> set (orders w)" for x using that by (auto simp: orderIds_def)
    have below: "i < nextId w" if "(i, t) \<in> set (orderIds w)" for i t using that links by (force simp: linksOk_def)
    show ?thesis
      unfolding shareOf_def world.select_convs
      by (rule tableOk_direct)
        (use about_others [OF links ids] below [OF ids] below [OF about_own [OF links]] in \<open>auto simp: shareOf_def\<close>)
  qed
  moreover have "tableOk sh_id sh_tenantId u (aboutShipments ?v) (nextId w) (shipments ?v) (shipments w)"
  proof -
    have other: "sh_id x \<notin> aboutShipments ?v" if x: "x \<in> set (shipments w)" "sh_tenantId x \<noteq> u" for x
    proof
      assume "sh_id x \<in> aboutShipments ?v"
      then consider y where "y \<in> set (shipments w)" "sh_tenantId y = u" "sh_id x = sh_id y"
        | a where "a \<in> set (allocations w)" "al_tenantId a = u" "al_shipmentId a = Some (sh_id x)"
        by (auto simp: aboutShipments_def shareOf_def)
      then show False using x ship(4) ship(1) by cases (auto simp: distinct_map dest: inj_onD)
    qed
    have "i < nextId w" if "i \<in> aboutShipments ?v" for i
      using that ship(2) al by (auto simp: aboutShipments_def shareOf_def)
    moreover have "shipments ?v = filter (\<lambda>x. sh_tenantId x = u) (shipments w)" by (simp add: shareOf_def)
    ultimately show ?thesis using other ship(2) by (simp only: ) (rule tableOk_direct)
  qed
  moreover have "sh_orderId s \<notin> aboutOrders ?v" if "s \<in> set (shipments w)" "sh_tenantId s \<noteq> u" for s
    by (rule about_others [OF links ship(3)]) (rule that)+
  moreover have "keyed sn_id sn_tenantId (nextId w) (snapshots w)" "keyed rv_id rv_tenantId (nextId w) (reservations w)"
    "keyed al_id al_tenantId (nextId w) (allocations w)" "keyed rt_id rt_tenantId (nextId w) (returnRows w)"
    by (rule keyed_distinct; use rows in \<open>simp add: snapshotsOk_def commitRows_def retInv_def\<close>)+
  note keyed = this keys [unfolded keysOk_def]
  ultimately show ?thesis
    using keyed by (simp add: apart_def share_sel tableOk_init [simplified set_filter])
qed

lemma others_kept:
  assumes step: "others_step env u w w'" and w: "sysInv w" and b: "bystander u v {} w"
  shows "bystander u v {} w'"
  using step
proof (cases rule: others_step.cases)
  case (served t r)
  have "snd (handle env t r w) = snd (handle (alone env) t r w)" by (rule handle_alone [OF w])
  then show ?thesis using beside_handled [OF served(2) b] served(1) by simp
next
  case (lapsed i)
  have "reservations (shareOf u w) = reservations v"
    using apart_tables(5) [OF bystander_apart [OF b]] by (simp add: tableOk_def shareOf_def)
  then have "keeps (bystander u v {}) (process (ExpireOne i))" using lapsed(2) by (auto intro!: flow beside)
  then show ?thesis unfolding lapsed(1) by (rule keeps_snd) (rule b)
next
  case (reported name)
  show ?thesis unfolding reported by (rule keeps_snd [OF keeps_processReconciliation]) (rule b)
next
  case (waited ts)
  then show ?thesis using b by (simp add: bystander_def apart_def)
qed

section \<open>Property\<close>


text \<open>Two tenants: the order of tenant 7 is reserved, and the SKU of tenant 9 stays its only row.\<close>

definition demoTwo :: world where
  "demoTwo = demoBook\<lparr>skus := skus demoBook @ [\<lparr>sk_id = 8, sk_tenantId = 9, sk_code = ''A-1'', sk_name = ''B'', sk_active = True\<rparr>]\<rparr>"

lemma demoTwo_inv: "sysInv demoTwo" "keysOk demoTwo"
proof -
  show "sysInv demoTwo"
    using demoBook_sysInv links.outside(8) by (simp add: demoTwo_def sysInv_def)
  show "keysOk demoTwo" by code_simp
qed


text \<open>
  The other direction is weaker: an SKU of another tenant is not found, but the stock service does not ask
  whose it is.  Tenant 7 receives units of the SKU of tenant 9, as a position of its own.
\<close>

lemma foreign_sku_accepted:
  "(case receive 7 8 3 5 None demoTwo of (r, w) \<Rightarrow>
      (case r of Inr _ \<Rightarrow> True | Inl _ \<Rightarrow> False) \<and> map (\<lambda>s. (sn_tenantId s, sn_skuId s, bk_onHand (sn_bal s))) (filter (\<lambda>s. sn_skuId s = 8) (snapshots w)) = [(7, 8, 5)])"
  by code_simp

end
