(* ===== verification/Console.thy ===== *)
theory Console
  imports Access Observability
begin

text \<open>
  The session of the operations console (frontend/src/lib/auth-store.ts, lib/api.ts, lib/realtime.ts,
  auth/): which credentials a browser tab keeps, what it sends to the API, how it takes an answer, and
  who it shows as signed in.  A tab talks to the guard of the theory Auth.
\<close>

section \<open>The credential store\<close>

record credentials =
  cd_tenant :: string
  cd_apiKey :: "string option"
  cd_token :: "string option"
  cd_email :: "string option"
  cd_role :: ApiRole

text \<open>
  The entry of localStorage: nothing, credentials as written by \<open>JSON.stringify\<close>, or a text that does not
  parse.  Every tab of the browser writes it.
\<close>

datatype storage = Absent | Saved credentials | Unreadable

text \<open>
  A tab: the entry, the variable \<open>current\<close> of the store, the state \<open>creds\<close> that the console shows, and the
  requests on their way whose answers change any of them.
\<close>

datatype pending =
    Refreshing credentials
  | SigningIn string "string option"
  | LoggingIn
  | Querying

record tab =
  saved :: storage
  current :: "credentials option"
  shown :: "credentials option"
  pendings :: "pending list"

definition loadStored :: "storage \<Rightarrow> credentials option" where
  "loadStored st = (case st of Saved c \<Rightarrow> Some c | _ \<Rightarrow> None)"

definition setCredentials :: "credentials \<Rightarrow> tab \<Rightarrow> tab" where
  "setCredentials c t = t\<lparr>current := Some c, saved := Saved c\<rparr>"

definition clearCredentials :: "tab \<Rightarrow> tab" where
  "clearCredentials t = t\<lparr>current := None, saved := Absent\<rparr>"

section \<open>The API client\<close>

text \<open>\<open>a ?? b\<close> is \<open>orElse\<close>; an empty text is falsy.\<close>

definition truthy :: "string option \<Rightarrow> string option" where
  "truthy v = (case v of Some x \<Rightarrow> if x = [] then None else Some x | None \<Rightarrow> None)"

definition bearerOf :: "credentials option \<Rightarrow> string option" where
  "bearerOf creds = truthy (case creds of Some c \<Rightarrow> orElse (cd_token c) (cd_apiKey c) | None \<Rightarrow> None)"

definition tenantOf :: "credentials option \<Rightarrow> string option" where
  "tenantOf creds = truthy (map_option cd_tenant creds)"

definition headersOf :: "credentials option \<Rightarrow> string option \<Rightarrow> (string \<times> string) list" where
  "headersOf creds idempotencyKey =
    [(''content-type'', ''application/json'')]
    @ (case tenantOf creds of Some t \<Rightarrow> [(''x-tenant-id'', t)] | None \<Rightarrow> [])
    @ (case bearerOf creds of Some b \<Rightarrow> [(''authorization'', ''Bearer '' @ b)] | None \<Rightarrow> [])
    @ (case truthy idempotencyKey of Some k \<Rightarrow> [(''idempotency-key'', k)] | None \<Rightarrow> [])"

definition queryParams :: "(string \<times> string option) list \<Rightarrow> (string \<times> string) list" where
  "queryParams query = List.map_filter (\<lambda>(k, v). map_option (\<lambda>x. (k, x)) (truthy v)) query"

text \<open>The request as the API receives it.\<close>

definition wireRequest ::
  "credentials option \<Rightarrow> string \<Rightarrow> string \<Rightarrow> (string \<times> string option) list \<Rightarrow> string option \<Rightarrow> Auth.request" where
  "wireRequest creds verb path query idempotencyKey =
    \<lparr>rq_method = verb, rq_path = path, rq_header = map_of (headersOf creds idempotencyKey),
     rq_query = map_of (queryParams query), rq_tenantId = None, rq_apiRole = None\<rparr>"

text \<open>
  What comes back: a value, no content, a failure whose JSON body has one message, a list of messages or none
  (or is not JSON), or no answer.
\<close>

datatype failureBody = OneMessage string | Messages "string list" | NoMessage

datatype 'a httpAnswer =
    Succeeded 'a
  | NoContent
  | Failed nat failureBody
  | Unreachable

datatype clientError = ApiError nat string | NetworkError

definition apiFailureText :: "(nat \<Rightarrow> string) \<Rightarrow> nat \<Rightarrow> failureBody \<Rightarrow> string" where
  "apiFailureText natText status body =
    (case body of
       Messages ms \<Rightarrow> joinWith '', '' ms
     | OneMessage m \<Rightarrow> m
     | NoMessage \<Rightarrow> ''Request failed ('' @ natText status @ '')'')"

definition UNAUTHORIZED :: string where
  "UNAUTHORIZED = ''Unauthorized '' @ [CHR 0xE2, CHR 0x80, CHR 0x94] @ '' please sign in again''"

definition receiveAnswer :: "(nat \<Rightarrow> string) \<Rightarrow> 'a httpAnswer \<Rightarrow> tab \<Rightarrow> (clientError + 'a option) \<times> tab" where
  "receiveAnswer natText ans t =
    (case ans of
       Succeeded x \<Rightarrow> (Inr (Some x), t)
     | NoContent \<Rightarrow> (Inr None, t)
     | Failed status body \<Rightarrow>
         if status = 401 then (Inl (ApiError 401 UNAUTHORIZED), clearCredentials t)
         else (Inl (ApiError status (apiFailureText natText status body)), t)
     | Unreachable \<Rightarrow> (Inl NetworkError, t))"

section \<open>Signing in and out\<close>

definition setCreds :: "credentials option \<Rightarrow> tab \<Rightarrow> tab" where
  "setCreds c t = t\<lparr>shown := c\<rparr>"

definition adopt :: "credentials \<Rightarrow> tab \<Rightarrow> tab" where
  "adopt c t = setCreds (Some c) (setCredentials c t)"

definition forget :: "tab \<Rightarrow> tab" where
  "forget t = setCreds None (clearCredentials t)"

definition awaiting :: "pending \<Rightarrow> tab \<Rightarrow> tab" where
  "awaiting p t = t\<lparr>pendings := pendings t @ [p]\<rparr>"

definition answered :: "pending \<Rightarrow> tab \<Rightarrow> tab" where
  "answered p t = t\<lparr>pendings := remove1 p (pendings t)\<rparr>"

text \<open>Opening the page reads the store; the provider refreshes the role of a session it finds.\<close>

definition openPage :: "storage \<Rightarrow> tab" where
  "openPage st = (let c = loadStored st in
    \<lparr>saved = st, current = c, shown = c, pendings = (case c of Some x \<Rightarrow> [Refreshing x] | None \<Rightarrow> [])\<rparr>)"

definition refreshed :: "(nat \<Rightarrow> string) \<Rightarrow> credentials \<Rightarrow> ApiRole httpAnswer \<Rightarrow> tab \<Rightarrow> tab" where
  "refreshed natText c ans t =
    (case receiveAnswer natText ans t of
       (Inr (Some role), t') \<Rightarrow> if role \<noteq> cd_role c then adopt (c\<lparr>cd_role := role\<rparr>) t' else t'
     | (_, t') \<Rightarrow> forget t')"

text \<open>Signing in with a key, or with a tenant alone: the credentials are staged, then the API says the role.\<close>

definition staged :: "string \<Rightarrow> string option \<Rightarrow> credentials" where
  "staged tenant apiKey = \<lparr>cd_tenant = tenant, cd_apiKey = apiKey, cd_token = None, cd_email = None, cd_role = READ_ONLY\<rparr>"

definition signInStart :: "string \<Rightarrow> string option \<Rightarrow> tab \<Rightarrow> tab" where
  "signInStart tenant apiKey t = awaiting (SigningIn tenant apiKey) (setCredentials (staged tenant apiKey) t)"

definition signedIn :: "(nat \<Rightarrow> string) \<Rightarrow> string \<Rightarrow> string option \<Rightarrow> ApiRole httpAnswer \<Rightarrow> tab \<Rightarrow> tab" where
  "signedIn natText tenant apiKey ans t =
    (case receiveAnswer natText ans t of
       (Inr (Some role), t') \<Rightarrow> adopt ((staged tenant apiKey)\<lparr>cd_role := role\<rparr>) t'
     | (_, t') \<Rightarrow> forget t')"

definition sessionCredentials :: "session \<Rightarrow> credentials" where
  "sessionCredentials se = \<lparr>cd_tenant = tn_slug (se_tenant se), cd_apiKey = None, cd_token = Some (se_accessToken se),
     cd_email = Some (se_email se), cd_role = se_role se\<rparr>"

definition loggedIn :: "(nat \<Rightarrow> string) \<Rightarrow> session httpAnswer \<Rightarrow> tab \<Rightarrow> tab" where
  "loggedIn natText ans t =
    (case receiveAnswer natText ans t of
       (Inr (Some se), t') \<Rightarrow> adopt (sessionCredentials se) t'
     | (_, t') \<Rightarrow> t')"

definition logout :: "tab \<Rightarrow> tab" where
  "logout t = forget t"

text \<open>What one role may see of the console.\<close>

fun RANK :: "ApiRole \<Rightarrow> nat" where
  "RANK READ_ONLY = 0"
| "RANK OPERATOR = 1"
| "RANK ADMIN = 2"

definition useCan :: "ApiRole \<Rightarrow> tab \<Rightarrow> bool" where
  "useCan least t \<longleftrightarrow> RANK least \<le> RANK (case shown t of Some c \<Rightarrow> cd_role c | None \<Rightarrow> READ_ONLY)"

section \<open>Live updates\<close>

text \<open>An event source cannot set headers; the credentials go into the query.\<close>

definition streamParams :: "credentials option \<Rightarrow> (string \<times> string) list" where
  "streamParams creds =
    (case tenantOf creds of Some t \<Rightarrow> [(''tenant'', t)] | None \<Rightarrow> [])
    @ (case bearerOf creds of Some b \<Rightarrow> [(''apiKey'', b)] | None \<Rightarrow> [])"

definition streamRequest :: "credentials option \<Rightarrow> Auth.request option" where
  "streamRequest creds =
    (if tenantOf creds = None \<and> bearerOf creds = None then None
     else Some \<lparr>rq_method = ''GET'', rq_path = ''/events/stream'', rq_header = (\<lambda>_. None),
       rq_query = map_of (streamParams creds), rq_tenantId = None, rq_apiRole = None\<rparr>)"

section \<open>The life of a tab\<close>

text \<open>
  Answers come in any order and the user acts between them; other tabs write the store.  The sign-in form is
  on the page only while nobody is shown as signed in.
\<close>

inductive tab_step :: "(nat \<Rightarrow> string) \<Rightarrow> tab \<Rightarrow> tab \<Rightarrow> bool" for natText where
  reload: "tab_step natText t (openPage (saved t))"
| otherTab: "tab_step natText t (t\<lparr>saved := st\<rparr>)"
| refresh: "Refreshing c \<in> set (pendings t) \<Longrightarrow>
    tab_step natText t (refreshed natText c ans (answered (Refreshing c) t))"
| submitKey: "shown t = None \<Longrightarrow> tab_step natText t (signInStart tenant apiKey t)"
| keyAnswer: "SigningIn tenant apiKey \<in> set (pendings t) \<Longrightarrow>
    tab_step natText t (signedIn natText tenant apiKey ans (answered (SigningIn tenant apiKey) t))"
| submitPassword: "shown t = None \<Longrightarrow> tab_step natText t (awaiting LoggingIn t)"
| passwordAnswer: "LoggingIn \<in> set (pendings t) \<Longrightarrow>
    tab_step natText t (loggedIn natText ans (answered LoggingIn t))"
| signOut: "shown t \<noteq> None \<Longrightarrow> tab_step natText t (logout t)"
| call: "shown t \<noteq> None \<Longrightarrow> tab_step natText t (awaiting Querying t)"
| callAnswer: "Querying \<in> set (pendings t) \<Longrightarrow>
    tab_step natText t (snd (receiveAnswer natText (ans :: unit httpAnswer) (answered Querying t)))"

text \<open>
  What the tab sends is what it shows; or nothing, after a refusal; or the credentials of a sign-in that
  waits for its answer while nobody is shown.
\<close>

definition sendsWhatItShows :: "tab \<Rightarrow> bool" where
  "sendsWhatItShows t \<longleftrightarrow> current t = shown t \<or> current t = None \<or>
    (shown t = None \<and> (\<exists>tenant apiKey. current t = Some (staged tenant apiKey) \<and> SigningIn tenant apiKey \<in> set (pendings t)))"

lemma receiveAnswer_cases:
  obtains x where "receiveAnswer natText ans t = (Inr x, t)"
  | e where "receiveAnswer natText ans t = (Inl e, t)"
  | e where "receiveAnswer natText ans t = (Inl e, clearCredentials t)"
proof -
  have "(\<exists>x. receiveAnswer natText ans t = (Inr x, t)) \<or> (\<exists>e. receiveAnswer natText ans t = (Inl e, t)) \<or>
    (\<exists>e. receiveAnswer natText ans t = (Inl e, clearCredentials t))"
    by (cases ans) (auto simp: receiveAnswer_def)
  then show thesis using that by blast
qed

lemmas tab_defs = adopt_def forget_def setCreds_def setCredentials_def clearCredentials_def answered_def awaiting_def

lemma sends_adopted [simp]: "sendsWhatItShows (adopt c t)" "sendsWhatItShows (forget t)"
  by (simp_all add: sendsWhatItShows_def tab_defs)

lemma sends_cleared [simp]: "sendsWhatItShows (clearCredentials t)"
  by (simp add: sendsWhatItShows_def tab_defs)

lemma sends_answered:
  "sendsWhatItShows t \<Longrightarrow> \<not> (\<exists>tenant apiKey. p = SigningIn tenant apiKey) \<Longrightarrow> sendsWhatItShows (answered p t)"
  by (auto simp: sendsWhatItShows_def answered_def) (metis in_set_remove1)

lemma sends_step:
  assumes "tab_step natText t t'" "sendsWhatItShows t"
  shows "sendsWhatItShows t'"
  using assms(1)
proof (cases rule: tab_step.cases)
  case (refresh c ans)
  have "sendsWhatItShows (answered (Refreshing c) t)" by (rule sends_answered [OF assms(2)]) simp
  then show ?thesis
    unfolding refresh(1) refreshed_def
    by (cases rule: receiveAnswer_cases [of natText ans "answered (Refreshing c) t"]) (auto split: option.split)
next
  case (keyAnswer tenant apiKey ans)
  show ?thesis
    unfolding keyAnswer(1) signedIn_def
    by (cases rule: receiveAnswer_cases [of natText ans "answered (SigningIn tenant apiKey) t"]) (auto split: option.split)
next
  case (passwordAnswer ans)
  have "sendsWhatItShows (answered LoggingIn t)" by (rule sends_answered [OF assms(2)]) simp
  then show ?thesis
    unfolding passwordAnswer(1) loggedIn_def
    by (cases rule: receiveAnswer_cases [of natText ans "answered LoggingIn t"]) (auto split: option.split)
next
  case (callAnswer ans)
  have "sendsWhatItShows (answered Querying t)" by (rule sends_answered [OF assms(2)]) simp
  then show ?thesis
    unfolding callAnswer(1) by (cases rule: receiveAnswer_cases [of natText ans "answered Querying t"]) auto
qed (use assms(2) in \<open>auto simp: sendsWhatItShows_def openPage_def signInStart_def logout_def tab_defs Let_def\<close>)

section \<open>At the guard\<close>

text \<open>Who the API takes a request for depends on the credentials it carries only.\<close>

definition quiet :: "(string \<times> string option) list \<Rightarrow> bool" where
  "quiet query \<longleftrightarrow> ''apiKey'' \<notin> fst ` set query \<and> ''tenant'' \<notin> fst ` set query"

lemma map_of_queryParams: "k \<notin> fst ` set query \<Longrightarrow> map_of (queryParams query) k = None"
  unfolding queryParams_def
  by (induction query) (auto simp: List.map_filter_simps split: option.split)

lemma wire_headers:
  "rq_header (wireRequest creds verb path query key) ''authorization'' = map_option (\<lambda>b. ''Bearer '' @ b) (bearerOf creds)"
  "rq_header (wireRequest creds verb path query key) ''x-tenant-id'' = tenantOf creds"
  "rq_header (wireRequest creds verb path query key) ''x-api-key'' = None"
  by (auto simp: wireRequest_def headersOf_def split: option.split)

lemma extractKey_wire:
  assumes "quiet query"
  shows "extractKey (wireRequest creds verb path query key) = map_option trim (bearerOf creds)"
proof -
  have "map lowerChar ''Bearer '' = ''bearer ''" by code_simp
  then have low: "toLowerCase (''Bearer '' @ b) = ''bearer '' @ toLowerCase b" for b by (simp only: toLowerCase_def map_append)
  have "map_of (queryParams query) ''apiKey'' = None" using assms by (intro map_of_queryParams) (simp add: quiet_def)
  then have q: "rq_query (wireRequest creds verb path query key) ''apiKey'' = None" by (simp add: wireRequest_def)
  show ?thesis
    unfolding extractKey_def wire_headers q
    by (cases "bearerOf creds") (simp_all add: orElse_def low del: append_Cons)
qed

lemma header_wire:
  assumes "quiet query"
  shows "orElse (rq_header (wireRequest creds verb path query key) ''x-tenant-id'')
    (rq_query (wireRequest creds verb path query key) ''tenant'') = tenantOf creds"
proof -
  have "map_of (queryParams query) ''tenant'' = None" using assms by (intro map_of_queryParams) (simp add: quiet_def)
  then show ?thesis unfolding wire_headers by (simp add: wireRequest_def orElse_def split: option.split)
qed

lemma speaksFor_same:
  assumes "speaksFor lib cfg s req t r" "extractKey req' = extractKey req"
    "orElse (rq_header req' ''x-tenant-id'') (rq_query req' ''tenant'') = orElse (rq_header req ''x-tenant-id'') (rq_query req ''tenant'')"
  shows "speaksFor lib cfg s req' t r"
  using assms(1) by (cases rule: speaksFor.cases) (auto intro: speaksFor.intros simp: assms(2,3))

lemma speaksFor_wire:
  "speaksFor lib cfg s (wireRequest creds verb path query key) t r \<Longrightarrow> quiet query \<Longrightarrow> quiet query' \<Longrightarrow>
    speaksFor lib cfg s (wireRequest creds verb' path' query' key') t r"
  by (erule speaksFor_same) (simp_all only: extractKey_wire header_wire)

section \<open>Signing in at the API\<close>

text \<open>The body of an error response.\<close>

fun responseText :: "err \<Rightarrow> string" where
  "responseText (BadRequest m) = m"
| "responseText (NotFound m) = m"
| "responseText (Conflict m) = m"
| "responseText (Unauthorized m) = m"
| "responseText (Forbidden m) = m"
| "responseText (ServiceUnavailable m) = m"
| "responseText (PrismaKnown code pg) = snd (prismaResponse code)"
| "responseText (OtherError m) = ''Internal server error''"

definition answerOf :: "err + 'a \<Rightarrow> 'a httpAnswer" where
  "answerOf r = (case r of Inl e \<Rightarrow> Failed (answeredStatus e) (OneMessage (responseText e)) | Inr x \<Rightarrow> Succeeded x)"

text \<open>\<open>GET /auth/me\<close>, of whose answer the console reads the role.\<close>

definition whoAmI :: "authLib \<Rightarrow> authConfig \<Rightarrow> Auth.request \<Rightarrow> (authState, ApiRole) op" where
  "whoAmI lib cfg req =
    bind (canActivate lib cfg req) (\<lambda>req.
    bind (TenantId req) (\<lambda>tenantId.
    bind (me tenantId (CurrentRole req)) (\<lambda>(_, role). ret role)))"

definition signIn ::
  "(nat \<Rightarrow> string) \<Rightarrow> authLib \<Rightarrow> authConfig \<Rightarrow> string \<Rightarrow> string option \<Rightarrow> tab \<times> authState \<Rightarrow> tab \<times> authState" where
  "signIn natText lib cfg tenant apiKey = (\<lambda>(t, s).
    let t1 = signInStart tenant apiKey t;
        (r, s') = whoAmI lib cfg (wireRequest (current t1) ''GET'' ''/auth/me'' [] None) s
    in (signedIn natText tenant apiKey (answerOf r) (answered (SigningIn tenant apiKey) t1), s'))"

definition signInWithPassword ::
  "(nat \<Rightarrow> string) \<Rightarrow> authLib \<Rightarrow> authConfig \<Rightarrow> string \<Rightarrow> string \<Rightarrow> string \<Rightarrow> tab \<times> authState \<Rightarrow> tab \<times> authState" where
  "signInWithPassword natText lib cfg tenant email password = (\<lambda>(t, s).
    let (r, s') = login lib cfg \<lparr>lo_tenant = tenant, lo_email = email, lo_password = password\<rparr> s
    in (loggedIn natText (answerOf r) t, s'))"

text \<open>The form of the sign-in screen with its two tabs.\<close>

datatype loginForm =
    PasswordForm string string string
  | KeyForm string string

definition submitLogin :: "(nat \<Rightarrow> string) \<Rightarrow> authLib \<Rightarrow> authConfig \<Rightarrow> loginForm \<Rightarrow> tab \<times> authState \<Rightarrow> tab \<times> authState" where
  "submitLogin natText lib cfg form =
    (case form of
       PasswordForm tenant email password \<Rightarrow> signInWithPassword natText lib cfg tenant email password
     | KeyForm tenant apiKey \<Rightarrow> signIn natText lib cfg tenant (truthy (Some apiKey)))"

section \<open>The role shown is the role enforced\<close>

text \<open>What the guard leaves of the keys: all but the time of last use.\<close>

definition unstamped :: "apiKeyRow \<Rightarrow> apiKeyRow" where
  "unstamped k = k\<lparr>ky_lastUsedAt := None\<rparr>"

definition stampsOnly :: "authState \<Rightarrow> authState \<Rightarrow> bool" where
  "stampsOnly s s' \<longleftrightarrow> au_world s' = au_world s \<and> map unstamped (apiKeys s') = map unstamped (apiKeys s)"

lemma unstamped_sel [simp]:
  "ky_keyHash (unstamped k) = ky_keyHash k" "ky_id (unstamped k) = ky_id k" "ky_active (unstamped k) = ky_active k"
  "ky_tenantId (unstamped k) = ky_tenantId k" "ky_role (unstamped k) = ky_role k"
  by (simp_all add: unstamped_def)

lemma stamps_authenticate: "keeps (stampsOnly s) (authenticate lib cfg req)"
proof (rule keeps_intro)
  fix v assume v: "stampsOnly s v"
  have "stampsOnly s (v\<lparr>apiKeys := mapWhere p (\<lambda>q. q\<lparr>ky_lastUsedAt := x\<rparr>) (apiKeys v)\<rparr>)" for p x
  proof -
    have "map unstamped (mapWhere p (\<lambda>q. q\<lparr>ky_lastUsedAt := x\<rparr>) ks) = map unstamped ks" for ks
      by (induction ks) (simp_all add: mapWhere_def unstamped_def)
    then show ?thesis using v by (simp add: stampsOnly_def)
  qed
  then show "wp (authenticate lib cfg req) (\<lambda>_. stampsOnly s) (\<lambda>_. stampsOnly s) v"
    using v by (simp add: authenticate_def verify_token_def verify_key_def resolveTenantHeader_def wp wp_now Let_def split: option.split)
qed

lemma stamps_canActivate: "keeps (stampsOnly s) (canActivate lib cfg req)"
  unfolding canActivate_def enforceRbac_def Let_def
  by (auto intro!: keepsI stamps_authenticate split: prod.split)

lemma stamped_key:
  assumes "stampsOnly s s'" "k \<in> set (apiKeys s)"
  shows "\<exists>k' \<in> set (apiKeys s'). unstamped k' = unstamped k"
proof -
  have "unstamped k \<in> unstamped ` set (apiKeys s')" using assms by (metis image_eqI list.set_map stampsOnly_def)
  then show ?thesis by force
qed

lemma stamped_unique:
  assumes "stampsOnly s s'" "keysUnique s"
  shows "keysUnique s'"
proof -
  have f: "map f (apiKeys s') = map f (apiKeys s)" if "\<And>k. f (unstamped k) = f k" for f :: "apiKeyRow \<Rightarrow> 'a"
  proof -
    have "map f (apiKeys v) = map f (map unstamped (apiKeys v))" for v using that by simp
    then show ?thesis using assms(1) by (metis stampsOnly_def)
  qed
  have "map ky_keyHash (apiKeys s') = map ky_keyHash (apiKeys s)" "map ky_id (apiKeys s') = map ky_id (apiKeys s)"
    by (simp_all add: f)
  moreover from this(2) have "ky_id ` set (apiKeys s') = ky_id ` set (apiKeys s)" by (metis list.set_map)
  ultimately show ?thesis using assms by (force simp: keysUnique_def stampsOnly_def)
qed

lemma stamped_speaks:
  assumes "speaksFor lib cfg s req t r" "stampsOnly s s'"
  shows "speaksFor lib cfg s' req t r"
  using assms(1)
proof (cases rule: speaksFor.cases)
  case (key raw k)
  obtain k' where k': "k' \<in> set (apiKeys s')" "unstamped k' = unstamped k" using stamped_key [OF assms(2) key(6)] by blast
  have "ky_keyHash k' = ky_keyHash k" "ky_active k' = ky_active k" "ky_tenantId k' = ky_tenantId k" "ky_role k' = ky_role k"
    using k'(2) by (metis unstamped_sel)+
  then show ?thesis using speaksFor.key [OF key(3-5) k'(1)] key by simp
qed (use assms(2) in \<open>auto intro: speaksFor.intros simp: stampsOnly_def findTenant_def\<close>)

lemma me_private: "\<not> isPublic ''/auth/me''"
  by (simp add: isPublic_def PUBLIC_PREFIXES_def startsWith_def)

lemma whoAmI_spec:
  assumes "keysUnique s" "\<not> isPublic (rq_path req)" "whoAmI lib cfg req s = (Inr role, s')"
  shows "\<exists>t. speaksFor lib cfg s' req t role" "keysUnique s'"
proof -
  obtain x s1 where g: "canActivate lib cfg req s = (x, s1)" by fastforce
  have st: "stampsOnly s s1" by (rule keepsD [OF stamps_canActivate _ g]) (simp add: stampsOnly_def)
  obtain req' where x: "x = Inr req'" using assms(3) g by (cases x) (auto simp: whoAmI_def bind_def)
  then have "fst (canActivate lib cfg req s) = Inr req'" using g by simp
  then obtain t r where r: "speaksFor lib cfg s req t r" "req' = req\<lparr>rq_tenantId := Some t, rq_apiRole := Some r\<rparr>"
    using canActivate_spec [OF assms(1), of lib cfg req req'] assms(2) by auto
  have end_: "role = r" "s' = s1"
    using assms(3) g x r(2)
    by (simp_all add: whoAmI_def bind_def TenantId_def orThrow_def ret_def me_def gets_def CurrentRole_def)
  show "\<exists>t. speaksFor lib cfg s' req t role" using stamped_speaks [OF r(1) st] unfolding end_ by blast
  show "keysUnique s'" using stamped_unique [OF st assms(1)] unfolding end_ by simp
qed

lemma guard_role:
  assumes "keysUnique s" "speaksFor lib cfg s req t r" "\<not> isPublic (rq_path req)"
  shows "(\<exists>req'. fst (canActivate lib cfg req s) = Inr req') \<longleftrightarrow> permitted r (rq_method req) (rq_path req)"
proof -
  have "fst (authenticate lib cfg req s) = Inr (t, r)" using authenticate_spec [OF assms(1)] assms(2) by blast
  then have one: "t' = t \<and> r' = r" if "speaksFor lib cfg s req t' r'" for t' r'
    using authenticate_spec [OF assms(1), of lib cfg req t' r'] that by simp
  show ?thesis
    unfolding canActivate_spec [OF assms(1)] if_not_P [OF assms(3)] using one assms(2) by blast
qed

lemma signedIn_spec:
  assumes "signedIn natText tenant apiKey ans t = t'" "shown t' = Some c"
  shows "\<exists>role. ans = Succeeded role \<and> c = (staged tenant apiKey)\<lparr>cd_role := role\<rparr> \<and> current t' = Some c"
  using assms by (auto simp: signedIn_def receiveAnswer_def tab_defs split: httpAnswer.splits if_splits)

lemma loggedIn_spec:
  assumes "loggedIn natText ans t = t'" "shown t = None" "shown t' = Some c"
  shows "\<exists>se. ans = Succeeded se \<and> c = sessionCredentials se \<and> current t' = Some c"
  using assms by (auto simp: loggedIn_def receiveAnswer_def tab_defs split: httpAnswer.splits if_splits)

lemma answerOf_ok: "answerOf r = Succeeded x \<Longrightarrow> r = Inr x"
  by (simp add: answerOf_def split: sum.splits)

lemma bearer_staged: "bearerOf (Some ((staged tenant apiKey)\<lparr>cd_role := role\<rparr>)) = bearerOf (Some (staged tenant apiKey))"
  "tenantOf (Some ((staged tenant apiKey)\<lparr>cd_role := role\<rparr>)) = tenantOf (Some (staged tenant apiKey))"
  by (simp_all add: bearerOf_def tenantOf_def staged_def)

lemma submitted:
  assumes "keysUnique s" "jwtLaw lib" "0 < ax_lifetime lib (ttl cfg)" "shown t = None"
    and "submitLogin natText lib cfg form (t, s) = (t', s')" "shown t' = Some c"
  shows "current t' = Some c \<and> keysUnique s' \<and>
    (\<exists>tn. \<forall>verb path query key. quiet query \<longrightarrow> speaksFor lib cfg s' (wireRequest (Some c) verb path query key) tn (cd_role c))"
proof (cases form)
  case (KeyForm tenant apiKey)
  let ?k = "truthy (Some apiKey)" and ?st = "staged tenant (truthy (Some apiKey))"
  let ?req = "wireRequest (Some ?st) ''GET'' ''/auth/me'' [] None"
  have staged: "current (signInStart tenant ?k t) = Some ?st" by (simp add: signInStart_def tab_defs)
  obtain r s1 where r: "whoAmI lib cfg ?req s = (r, s1)" by fastforce
  have "submitLogin natText lib cfg (KeyForm tenant apiKey) (t, s) =
      (signedIn natText tenant ?k (answerOf r) (answered (SigningIn tenant ?k) (signInStart tenant ?k t)), s1)"
    by (simp add: submitLogin_def signIn_def staged r)
  from trans [OF this [symmetric] assms(5) [unfolded KeyForm]]
  have fin: "t' = signedIn natText tenant ?k (answerOf r) (answered (SigningIn tenant ?k) (signInStart tenant ?k t))" "s' = s1"
    by blast+
  from signedIn_spec [OF fin(1) [symmetric] assms(6)]
  obtain role where role: "answerOf r = Succeeded role" "c = ?st\<lparr>cd_role := role\<rparr>" "current t' = Some c"
    by (elim exE conjE)
  have hidden: "\<not> isPublic (rq_path ?req)" using me_private by (simp add: wireRequest_def)
  note who = whoAmI_spec [OF assms(1) hidden r [unfolded answerOf_ok [OF role(1)]]]
  obtain tn where tn: "speaksFor lib cfg s1 ?req tn role" using who(1) by blast
  have "speaksFor lib cfg s1 (wireRequest (Some c) verb path query key) tn role" if q: "quiet query" for verb path query key
  proof -
    have q0: "quiet []" by (simp add: quiet_def)
    have "bearerOf (Some c) = bearerOf (Some ?st)" "tenantOf (Some c) = tenantOf (Some ?st)"
      unfolding role(2) by (rule bearer_staged)+
    then show ?thesis
      by (intro speaksFor_same [OF tn]) (simp_all only: extractKey_wire [OF q] header_wire [OF q] extractKey_wire [OF q0] header_wire [OF q0])
  qed
  then have "\<forall>verb path query key. quiet query \<longrightarrow> speaksFor lib cfg s1 (wireRequest (Some c) verb path query key) tn (cd_role c)"
    by (simp add: role(2))
  then show ?thesis using role(3) who(2) unfolding fin(2) by blast
next
  case (PasswordForm tenant email password)
  obtain r s1 where r: "login lib cfg \<lparr>lo_tenant = tenant, lo_email = email, lo_password = password\<rparr> s = (r, s1)" by fastforce
  have "submitLogin natText lib cfg (PasswordForm tenant email password) (t, s) = (loggedIn natText (answerOf r) t, s1)"
    by (simp add: submitLogin_def signInWithPassword_def r)
  from trans [OF this [symmetric] assms(5) [unfolded PasswordForm]]
  have fin: "t' = loggedIn natText (answerOf r) t" "s' = s1" by blast+
  from loggedIn_spec [OF fin(1) [symmetric] assms(4,6)]
  obtain se where se: "answerOf r = Succeeded se" "c = sessionCredentials se" "current t' = Some c"
    by (elim exE conjE)
  obtain u :: userRow where u: "tokensEnabled cfg" "se_role se = us_role u" "au_world s1 = au_world s" "apiKeys s1 = apiKeys s"
    "se_accessToken se = ax_jwtSign lib (jwtSecret cfg) (ttl cfg) (clock (au_world s))
      \<lparr>cl_sub = us_id u, cl_tenantId = tn_id (se_tenant se), cl_role = us_role u, cl_email = us_email u\<rparr>"
    using login_spec [OF r [unfolded answerOf_ok [OF se(1)]]] by blast
  have secret: "jwtSecret cfg \<noteq> []" using u(1) by (simp add: tokensEnabled_def)
  have tok: "trim (se_accessToken se) = se_accessToken se" "looksLikeJwt (se_accessToken se)"
    unfolding u(5) by (rule jwtLawD [OF assms(2) secret])+
  have verified: "ax_jwtVerify lib (jwtSecret cfg) (clock (au_world s1)) (se_accessToken se) =
      Some \<lparr>cl_sub = us_id u, cl_tenantId = tn_id (se_tenant se), cl_role = us_role u, cl_email = us_email u\<rparr>"
    unfolding u(3,5) using assms(3) by (intro jwtLawD(3) [OF assms(2) secret]) simp_all
  have b: "bearerOf (Some c) = Some (se_accessToken se)"
    using looksLikeJwt_nonempty [OF tok(2)] by (simp add: bearerOf_def se(2) sessionCredentials_def orElse_def truthy_def)
  have "speaksFor lib cfg s1 (wireRequest (Some c) verb path query key) (tn_id (se_tenant se)) (us_role u)"
    if q: "quiet query" for verb path query key
    using speaksFor.token [OF _ tok(2) verified, where req = "wireRequest (Some c) verb path query key"]
    by (simp add: extractKey_wire [OF q] b tok(1))
  then have "\<forall>verb path query key. quiet query \<longrightarrow>
      speaksFor lib cfg s1 (wireRequest (Some c) verb path query key) (tn_id (se_tenant se)) (cd_role c)"
    using u(2) by (simp add: se(2) sessionCredentials_def)
  moreover have "keysUnique s1" using assms(1) u(3,4) by (simp add: keysUnique_def)
  ultimately show ?thesis using se(3) unfolding fin(2) by blast
qed

text \<open>The live updates are asked for with the same credentials, unless the key has blanks around it.\<close>

lemma extractKey_stream:
  assumes "streamRequest creds = Some req"
  shows "extractKey req = bearerOf creds"
    "orElse (rq_header req ''x-tenant-id'') (rq_query req ''tenant'') = tenantOf creds"
  using assms
  by (auto simp: streamRequest_def extractKey_def streamParams_def orElse_def split: if_splits option.splits)

lemma stream_same:
  assumes "speaksFor lib cfg s (wireRequest creds verb path query key) t r" "quiet query"
    and "streamRequest creds = Some req" "map_option trim (bearerOf creds) = bearerOf creds"
  shows "speaksFor lib cfg s req t r"
  using assms(1)
  by (rule speaksFor_same)
    (simp_all only: extractKey_stream [OF assms(3)] extractKey_wire [OF assms(2)] header_wire [OF assms(2)] assms(4))

section \<open>Properties\<close>

text \<open>
  Property C36.  Whatever answers come in whatever order, whatever other tabs write, from the opening of the
  page on: the credentials a tab sends are those of the user it shows, or none, or those of a sign-in
  that waits for its answer while nobody is shown.
\<close>

theorem console_sends_what_it_shows:
  assumes "rtranclp (tab_step natText) (openPage st) t"
  shows "current t = shown t \<or> current t = None \<or>
    (shown t = None \<and> (\<exists>tenant apiKey. current t = Some (staged tenant apiKey) \<and> SigningIn tenant apiKey \<in> set (pendings t)))"
proof -
  have "sendsWhatItShows t"
    using assms
  proof (induction rule: rtranclp_induct)
    case base
    then show ?case by (simp add: sendsWhatItShows_def openPage_def Let_def)
  next
    case (step t t')
    then show ?case using sends_step by blast
  qed
  then show ?thesis by (simp add: sendsWhatItShows_def)
qed

text \<open>
  The role the console shows is the role the API enforces: when a sign-in has succeeded, every
  call the console then makes passes the guard exactly when that role may use the route.
\<close>

lemma shown_role_enforced:
  assumes "keysUnique s" "jwtLaw lib" "0 < ax_lifetime lib (ttl cfg)" "shown t = None"
    and "submitLogin natText lib cfg form (t, s) = (t', s')" "shown t' = Some c"
    and "quiet query" "\<not> isPublic path"
  shows "current t' = Some c \<and>
    ((\<exists>req'. fst (canActivate lib cfg (wireRequest (current t') verb path query key) s') = Inr req') \<longleftrightarrow>
      permitted (cd_role c) verb path)"
proof -
  from submitted [OF assms(1-6)] obtain tn where t: "current t' = Some c" "keysUnique s'"
    "speaksFor lib cfg s' (wireRequest (Some c) verb path query key) tn (cd_role c)" using assms(7) by blast
  from guard_role [OF t(2,3)] assms(8) show ?thesis by (simp add: t(1) wireRequest_def)
qed

text \<open>Three things the session does not do well.\<close>

text \<open>After a refusal the console goes on showing the user, and sends nothing any more.\<close>

lemma refusal_leaves_shown:
  assumes "shown t = Some c"
  shows "snd (receiveAnswer natText (Failed 401 body) t) = t\<lparr>current := None, saved := Absent\<rparr>"
    "shown (snd (receiveAnswer natText (Failed 401 body) t)) = Some c"
  using assms by (simp_all add: receiveAnswer_def tab_defs)

text \<open>A refresh that was on its way when the user signed out signs them in again if the role has changed.\<close>

lemma late_refresh_signs_in:
  "shown (refreshed natText c (Succeeded role) (answered (Refreshing c) (logout (openPage (Saved c))))) =
    (if role = cd_role c then None else Some (c\<lparr>cd_role := role\<rparr>))"
  by (simp add: refreshed_def receiveAnswer_def openPage_def loadStored_def logout_def tab_defs Let_def)

text \<open>A key signs in to its own tenant whatever tenant was typed, and the typed one is shown.\<close>

definition demoTyped :: "tab \<times> authState" where
  "demoTyped = submitLogin (\<lambda>_. []) demoAuthLib demoConfig (KeyForm ''other'' ''oms_k'') (openPage Absent, demoAuth)"

lemma typed_tenant_shown:
  "map_option cd_tenant (shown (fst demoTyped)) = Some ''other''"
  "map_option cd_role (shown (fst demoTyped)) = Some OPERATOR"
  "findTenant demoAuthLib ''other'' demoAuth = None"
  by code_simp+

section \<open>Witnesses\<close>

lemma console_sends_what_it_shows_witness:
  "let c = (staged ''acme'' (Some ''oms_k''))\<lparr>cd_role := OPERATOR\<rparr>;
      t = signedIn (\<lambda>_. []) ''acme'' (Some ''oms_k'') (Succeeded OPERATOR)
        (answered (SigningIn ''acme'' (Some ''oms_k'')) (signInStart ''acme'' (Some ''oms_k'') (openPage Absent)))
   in shown t = Some c \<and> current t = Some c"
proof -
  let ?p = "SigningIn ''acme'' (Some ''oms_k'')"
  let ?t1 = "signInStart ''acme'' (Some ''oms_k'') (openPage Absent)"
  let ?t2 = "signedIn (\<lambda>_. []) ''acme'' (Some ''oms_k'') (Succeeded OPERATOR) (answered ?p ?t1)"
  have "tab_step (\<lambda>_. []) (openPage Absent) ?t1" by (rule tab_step.submitKey) (simp add: openPage_def loadStored_def)
  moreover have "tab_step (\<lambda>_. []) ?t1 ?t2" by (rule tab_step.keyAnswer) (simp add: signInStart_def tab_defs)
  ultimately have "rtranclp (tab_step (\<lambda>_. [])) (openPage Absent) ?t2" by (meson rtranclp.rtrancl_into_rtrancl rtranclp.rtrancl_refl)
  from console_sends_what_it_shows [OF this] show ?thesis
    by (simp add: signedIn_def receiveAnswer_def tab_defs)
qed

lemma shown_role_enforced_witness:
  "let (t, s) = submitLogin (\<lambda>_. []) demoAuthLib demoConfig (KeyForm ''acme'' ''oms_k'') (openPage Absent, demoAuth)
   in \<not> (\<exists>req'. fst (canActivate demoAuthLib demoConfig (wireRequest (current t) ''POST'' ''/channels'' [] None) s) = Inr req') \<and>
     (\<exists>req'. fst (canActivate demoAuthLib demoConfig (wireRequest (current t) ''POST'' ''/orders'' [] None) s) = Inr req')"
proof -
  let ?run = "submitLogin (\<lambda>_. []) demoAuthLib demoConfig (KeyForm ''acme'' ''oms_k'') (openPage Absent, demoAuth)"
  let ?c = "(staged ''acme'' (Some ''oms_k''))\<lparr>cd_role := OPERATOR\<rparr>"
  obtain t s where run: "?run = (t, s)" by fastforce
  have "shown (fst ?run) = Some ?c" by code_simp
  then have t: "shown t = Some ?c" by (simp add: run)
  have "\<not> isPublic ''/channels''" "\<not> isPublic ''/orders''" "quiet []"
    by (simp_all add: isPublic_def PUBLIC_PREFIXES_def startsWith_def quiet_def)
  moreover have "0 < ax_lifetime demoAuthLib (ttl demoConfig)" by (simp add: demoAuthLib_def)
  moreover have "shown (openPage Absent) = None" by (simp add: openPage_def loadStored_def)
  ultimately have
    "(\<exists>req'. fst (canActivate demoAuthLib demoConfig (wireRequest (current t) ''POST'' ''/channels'' [] None) s) = Inr req') \<longleftrightarrow>
      permitted (cd_role ?c) ''POST'' ''/channels''"
    "(\<exists>req'. fst (canActivate demoAuthLib demoConfig (wireRequest (current t) ''POST'' ''/orders'' [] None) s) = Inr req') \<longleftrightarrow>
      permitted (cd_role ?c) ''POST'' ''/orders''"
    using shown_role_enforced [OF demoAuth_unique demoAuthLib_laws(1) _ _ run t] by blast+
  then show ?thesis unfolding run by (simp add: permitted_def startsWith_def)
qed

end
