(* ===== verification/Screens.thy ===== *)
theory Screens
  imports Console Events System
begin

text \<open>
  What the pages of the operations console offer (frontend/src/pages, components/ui/pagination.tsx,
  auth/RoleGate.tsx, lib/realtime.ts): the buttons of an order and of a shipment, the controls of every
  page with the role they ask for, the paging of lists, and which queries an event makes stale.
  Each is set against the API it calls.
\<close>

section \<open>Buttons\<close>

text \<open>A label and the path that is posted to; \<open>i\<close> is the identifier as text.\<close>

type_synonym button = "string \<times> string"

fun orderActions :: "string \<Rightarrow> OrderStatus \<Rightarrow> button list" where
  "orderActions i OrderStatus.CREATED =
    [(''Validate'', ''/orders/'' @ i @ ''/validate''),
     (''Reserve'', ''/orders/'' @ i @ ''/reserve''),
     (''Cancel'', ''/orders/'' @ i @ ''/cancel'')]"
| "orderActions i OrderStatus.VALIDATED =
    [(''Source'', ''/orders/'' @ i @ ''/source''),
     (''Cancel'', ''/orders/'' @ i @ ''/cancel'')]"
| "orderActions i OrderStatus.ALLOCATED =
    [(''Release'', ''/orders/'' @ i @ ''/release''),
     (''Cancel'', ''/orders/'' @ i @ ''/cancel'')]"
| "orderActions i OrderStatus.RELEASED = [(''Cancel'', ''/orders/'' @ i @ ''/cancel'')]"
| "orderActions i OrderStatus.PICKED = [(''Cancel'', ''/orders/'' @ i @ ''/cancel'')]"
| "orderActions i _ = []"

fun shipmentActions :: "string \<Rightarrow> ShipmentStatus \<Rightarrow> button list" where
  "shipmentActions i ShipmentStatus.PENDING = [(''Pick'', ''/shipments/'' @ i @ ''/pick'')]"
| "shipmentActions i ShipmentStatus.PICKED =
    [(''Dispatch'', ''/shipments/'' @ i @ ''/dispatch''),
     (''Ship'', ''/shipments/'' @ i @ ''/ship''),
     (''Ready (pickup)'', ''/shipments/'' @ i @ ''/ready'')]"
| "shipmentActions i READY_FOR_PICKUP = [(''Picked up'', ''/shipments/'' @ i @ ''/pickup'')]"
| "shipmentActions i ShipmentStatus.SHIPPED = [(''Deliver'', ''/shipments/'' @ i @ ''/deliver'')]"
| "shipmentActions i _ = []"

text \<open>The fulfilment page has the same list of its own, with one shorter label.\<close>

fun pageActions :: "string \<Rightarrow> ShipmentStatus \<Rightarrow> button list" where
  "pageActions i ShipmentStatus.PENDING = [(''Pick'', ''/shipments/'' @ i @ ''/pick'')]"
| "pageActions i ShipmentStatus.PICKED =
    [(''Dispatch'', ''/shipments/'' @ i @ ''/dispatch''),
     (''Ship'', ''/shipments/'' @ i @ ''/ship''),
     (''Ready'', ''/shipments/'' @ i @ ''/ready'')]"
| "pageActions i READY_FOR_PICKUP = [(''Picked up'', ''/shipments/'' @ i @ ''/pickup'')]"
| "pageActions i ShipmentStatus.SHIPPED = [(''Deliver'', ''/shipments/'' @ i @ ''/deliver'')]"
| "pageActions i _ = []"

definition offersReturn :: "OrderStatus \<Rightarrow> bool" where
  "offersReturn st \<longleftrightarrow> st = OrderStatus.DELIVERED"

definition offersReceive :: "ReturnStatus \<Rightarrow> bool" where
  "offersReceive st \<longleftrightarrow> st = REQUESTED"

lemma pageActions_same: "map snd (pageActions i st) = map snd (shipmentActions i st)"
  by (cases st) simp_all

section \<open>What the buttons do\<close>

text \<open>The status a button is meant to bring, and the reasons for which the API may still refuse.\<close>

definition orderAim :: "string \<Rightarrow> OrderStatus" where
  "orderAim label =
    (if label = ''Validate'' then OrderStatus.VALIDATED
     else if label = ''Source'' then OrderStatus.ALLOCATED
     else if label = ''Release'' then OrderStatus.RELEASED
     else if label = ''Cancel'' then OrderStatus.CANCELLED
     else OrderStatus.CREATED)"

definition orderRefusal :: "string \<Rightarrow> err \<Rightarrow> bool" where
  "orderRefusal label e \<longleftrightarrow>
    label = ''Validate'' \<and> (\<exists>why. e = BadRequest (''Order validation failed: '' @ why)) \<or>
    label = ''Source'' \<and> e = BadRequest ''Cannot source'' \<or>
    label = ''Reserve'' \<and> e = BadRequest ''Cannot reserve''"

definition orderCall :: "ident \<Rightarrow> string \<Rightarrow> orderRequest" where
  "orderCall i label =
    (if label = ''Validate'' then PostValidate i
     else if label = ''Source'' then PostSource i
     else if label = ''Release'' then PostRelease i
     else if label = ''Cancel'' then PostCancel i None
     else PostReserve i)"

lemma orderCall_route:
  "(label, path) \<in> set (orderActions (idText i) st) \<Longrightarrow> routeOf idText (Orders (orderCall i label)) = (''POST'', path)"
  by (cases st) (auto simp: routeOf_def orderRoute_def orderCall_def itemPath_def)

definition bringsOrder :: "ident \<Rightarrow> ident \<Rightarrow> string \<Rightarrow> (world, 'a) op \<Rightarrow> world \<Rightarrow> bool" where
  "bringsOrder t i label m w \<longleftrightarrow>
    wp m (\<lambda>_ w'. \<exists>ord'. findTenantOrder t i w' = Some ord' \<and> o_status ord' = orderAim label) (\<lambda>e _. orderRefusal label e) w"

lemma wp_answer: "wp (answer f m) Q E = wp m (\<lambda>x. Q (f x)) E"
  by (simp add: answer_def wp)

lemma brings_answer: "bringsOrder t i label (answer f m) w = bringsOrder t i label m w"
  by (simp add: bringsOrder_def wp_answer)

lemma brings_validate:
  assumes "sysInv w" "findTenantOrder t i w = Some ord" "o_status ord = OrderStatus.CREATED"
  shows "bringsOrder t i ''Validate'' (validate_order cfg (gatewayOf env) t i) w"
  unfolding bringsOrder_def
  by (rule wp_mono [OF payment_gateway.wp_validate_order [OF gateway_ok sysInvD(1) [OF assms(1)] assms(2,3)]])
    (auto simp: orderAim_def orderRefusal_def)

lemma brings_source:
  assumes "sysInv w" "findTenantOrder t i w = Some ord" "o_status ord = OrderStatus.VALIDATED"
  shows "bringsOrder t i ''Source'' (source_order env t i) w"
proof -
  have i: "o_id ord = i" using findTenantOrderD [OF assms(2)] by simp
  show ?thesis
    unfolding bringsOrder_def
  proof (rule wp_mono [OF wp_source_order [OF sysInvD(1) [OF assms(1)] sysInv_holdsOwned [OF assms(1,2)]]], goal_cases)
    case (1 x w')
    then have "findTenantOrder t i w' = Some (ord\<lparr>o_status := OrderStatus.ALLOCATED\<rparr>)"
      using assms(2) i by (auto simp: orderSourced_def)
    then show ?case by (simp add: orderAim_def)
  next
    case (2 e w')
    then show ?case using assms(2,3) by (auto simp: orderRefusal_def)
  qed
qed

lemma brings_release:
  assumes "sysInv w" "findTenantOrder t i w = Some ord" "o_status ord = OrderStatus.ALLOCATED"
  shows "bringsOrder t i ''Release'' (release_order t i) w"
proof -
  note o = findTenantOrderD [OF assms(2)]
  have can: "canTransition OrderStatus.ALLOCATED OrderStatus.RELEASED" by (simp add: canTransition_def)
  show ?thesis
    unfolding bringsOrder_def release_order_def
  proof (rule wp_mono [OF wp_transition [OF coreInvD(3) [OF sysInvD(1) [OF assms(1)]]]], goal_cases)
    case (1 x w')
    then have "orders w' = mapWhere (\<lambda>x. o_id x = i) (o_status_update (\<lambda>_. OrderStatus.RELEASED)) (orders w)"
      using assms(2) o(2) by auto
    then have "findTenantOrder t i w' = Some (ord\<lparr>o_status := OrderStatus.RELEASED\<rparr>)"
      using assms(2) o(2) unfolding findTenantOrder_def by (simp add: find_mapWhere_frame)
    then show ?case by (simp add: orderAim_def)
  next
    case (2 e w')
    then show ?case using assms(2,3) can by auto
  qed
qed

lemma brings_cancel:
  assumes "sysInv w" "findTenantOrder t i w = Some ord" "o_status ord \<in> set HOLDS_INVENTORY"
  shows "bringsOrder t i ''Cancel'' (cancel (gatewayOf env) t i msg) w"
  unfolding bringsOrder_def
  by (rule wp_mono [OF payment_gateway.wp_cancel [OF gateway_ok sysInvD(1) [OF assms(1)]]])
    (use assms(2,3) in \<open>auto simp: orderAim_def cancelled_def\<close>)

lemma brings_reserve:
  assumes "sysInv w" "findTenantOrder t i w = Some ord" "o_status ord = OrderStatus.CREATED"
  shows "bringsOrder t i ''Reserve'' (reserve_order secs env t i) w"
proof -
  note inv = coreInvD [OF sysInvD(1) [OF assms(1)]] and o = findTenantOrderD [OF assms(2)]
  have row: "findOrder i w = Some ord" using findOrder_row [OF inv(3) o(1)] o(2) by simp
  have nonneg: "\<forall>l \<in> set (linesOf i w). 0 \<le> ol_quantity l" using linesOf_ok(2) [OF inv(3)] by (simp add: less_imp_le)
  have "wp (reserveForOrder secs env i)
    (\<lambda>_ w'. \<exists>ord'. findTenantOrder t i w' = Some ord' \<and> o_status ord' = orderAim ''Reserve'') (\<lambda>e _. orderRefusal ''Reserve'' e) w"
    by (rule wp_mono [OF wp_reserveForOrder [OF inv(1,2) row linesOf_ok(1) [OF inv(3)] nonneg]])
      (use assms(2,3) in \<open>auto simp: orderAim_def orderRefusal_def findTenantOrder_def\<close>)
  then show ?thesis by (simp add: bringsOrder_def reserve_order_def wp_andThen wp_get_order assms(2))
qed

lemma button_works:
  assumes "sysInv w" "findTenantOrder t i w = Some ord" "(label, path) \<in> set (orderActions it (o_status ord))"
  shows "bringsOrder t i label (handle env t (Orders (orderCall i label))) w"
proof -
  have "label = ''Validate'' \<and> o_status ord = OrderStatus.CREATED \<or> label = ''Reserve'' \<and> o_status ord = OrderStatus.CREATED \<or>
    label = ''Source'' \<and> o_status ord = OrderStatus.VALIDATED \<or> label = ''Release'' \<and> o_status ord = OrderStatus.ALLOCATED \<or>
    label = ''Cancel'' \<and> o_status ord \<in> set HOLDS_INVENTORY"
    using assms(3) by (cases "o_status ord") (auto simp: HOLDS_INVENTORY_def)
  then show ?thesis
    using brings_validate [OF assms(1,2)] brings_reserve [OF assms(1,2)] brings_source [OF assms(1,2)]
      brings_release [OF assms(1,2)] brings_cancel [OF assms(1,2)]
    by (elim disjE conjE) (simp_all add: handle_defs orderCall_def brings_answer)
qed

text \<open>Shipments, in the same way.\<close>

definition shipmentAim :: "string \<Rightarrow> ShipmentStatus" where
  "shipmentAim label =
    (if label = ''Pick'' \<or> label = ''Dispatch'' then ShipmentStatus.PICKED
     else if label = ''Ship'' then ShipmentStatus.SHIPPED
     else if label = ''Ready (pickup)'' then READY_FOR_PICKUP
     else if label = ''Picked up'' then PICKED_UP
     else ShipmentStatus.DELIVERED)"

definition shipmentCall :: "ident \<Rightarrow> string \<Rightarrow> fulfillmentRequest" where
  "shipmentCall i label =
    (if label = ''Pick'' then PostPick i
     else if label = ''Dispatch'' then PostDispatch i
     else if label = ''Ship'' then PostShip i None
     else if label = ''Ready (pickup)'' then PostReady i
     else if label = ''Picked up'' then PostPickup i
     else PostDeliver i)"

lemma shipmentCall_route:
  "(label, path) \<in> set (shipmentActions (idText i) st) \<Longrightarrow> routeOf idText (Fulfillment (shipmentCall i label)) = (''POST'', path)"
  by (cases st) (auto simp: routeOf_def fulfillmentRoute_def shipmentCall_def itemPath_def)

text \<open>
  Goods leave only as far as they are on hand, and picking waits for the release of the order, which the list
  of shipments does not show.
\<close>

definition shipmentRefusal :: "ident \<Rightarrow> ident \<Rightarrow> string \<Rightarrow> world \<Rightarrow> bool" where
  "shipmentRefusal t i label w \<longleftrightarrow>
    label = ''Pick'' \<and> \<not> (\<exists>ord. findTenantOrder t (orderOf t i w) w = Some ord \<and> o_status ord \<in> {OrderStatus.RELEASED, OrderStatus.PICKED}) \<or>
    (label = ''Ship'' \<or> label = ''Picked up'') \<and> \<not> depletable i w"

definition bringsShipment :: "ident \<Rightarrow> ident \<Rightarrow> string \<Rightarrow> (world, 'a) op \<Rightarrow> world \<Rightarrow> bool" where
  "bringsShipment t i label m w \<longleftrightarrow>
    wp m (\<lambda>_ w'. shipmentIs t i (shipmentAim label) w' \<and> \<not> shipmentRefusal t i label w) (\<lambda>_ _. shipmentRefusal t i label w) w"

lemma brings_answer_shipment: "bringsShipment t i label (answer f m) w = bringsShipment t i label m w"
  by (simp add: bringsShipment_def wp_answer)

lemma shipmentIs_after:
  assumes "findShipment t i w = Some sh" "\<And>s. sh_id (f s) = sh_id s \<and> sh_tenantId (f s) = sh_tenantId s \<and> sh_status (f s) = st"
    and "shipments w' = mapWhere (\<lambda>s. sh_id s = i) f (shipments w)"
  shows "shipmentIs t i st w'"
proof -
  have "sh_id sh = i" using findShipmentD [OF assms(1)] by simp
  then have "findShipment t i w' = Some (f sh)"
    using assms by (simp add: findShipment_def find_mapWhere_frame)
  then show ?thesis using assms(2) by (simp add: shipmentIs_def)
qed

lemma brings_left:
  assumes "findShipment t i w = Some sh" "stockLeft i f w w'"
    and "\<And>s. sh_id (f s) = sh_id s \<and> sh_tenantId (f s) = sh_tenantId s \<and> sh_status (f s) = st"
  shows "shipmentIs t i st w'"
  by (rule shipmentIs_after [OF assms(1), where f = "\<lambda>s. (f s)\<lparr>sh_updatedAt := clock w\<rparr>"])
    (use assms(2,3) in \<open>auto simp: stockLeft_def\<close>)

lemma brings_moved:
  assumes "findShipment t i w = Some sh" "stepTaken t oid i st p w w'"
  shows "shipmentIs t i st w'"
  by (rule shipmentIs_after [OF assms(1), where f = "\<lambda>s. s\<lparr>sh_status := st, sh_updatedAt := clock w\<rparr>"])
    (use assms(2) in \<open>auto simp: stepTaken_def shipmentMoved_def\<close>)

lemma wms_frame: "wp (wmsDispatch cfg sh ls) (\<lambda>_ w'. shipments w' = shipments w) (\<lambda>_ _. False) w"
proof -
  have "providerFor cfg \<in> {mockWms, shipBobWms}"
    by (auto simp: providerFor_def wmsRegistry_def split: option.split if_splits)
  then show ?thesis
    by (auto simp: wmsDispatch_def mockWms_def shipBobWms_def upperRef_def wp)
qed

lemma brings_dispatch:
  assumes sh: "findShipment t i w = Some sh" "sh_status sh = ShipmentStatus.PICKED"
  shows "bringsShipment t i ''Dispatch'' (dispatch cfg t i) w"
proof -
  have "wp (bind (wmsDispatch cfg sh ls) (\<lambda>res. updateShipment i (\<lambda>s. s\<lparr>sh_fulfillmentProvider := Some (wr_provider res),
      sh_externalJobId := Some (wr_jobId res)\<rparr>))) (\<lambda>_ w'. shipmentIs t i ShipmentStatus.PICKED w') (\<lambda>_ _. False) w" for ls
    unfolding wp_bind
  proof (rule wp_mono [OF wms_frame], goal_cases)
    case (1 res v)
    let ?f = "\<lambda>s. s\<lparr>sh_fulfillmentProvider := Some (wr_provider res), sh_externalJobId := Some (wr_jobId res), sh_updatedAt := clock v\<rparr>"
    have found: "find (\<lambda>s. sh_id s = i) (shipments v) \<noteq> None"
      using findShipmentD [OF sh(1)] 1 by (auto simp: find_None_iff)
    have row: "findShipment t i v = Some sh" using sh(1) 1 by (simp add: findShipment_def)
    then have "findShipment t i (v\<lparr>shipments := mapWhere (\<lambda>s. sh_id s = i) ?f (shipments v)\<rparr>) = Some (?f sh)"
      using findShipmentD(2) [OF sh(1)] by (simp add: findShipment_def find_mapWhere_frame)
    then have "shipmentIs t i ShipmentStatus.PICKED (v\<lparr>shipments := mapWhere (\<lambda>s. sh_id s = i) ?f (shipments v)\<rparr>)"
      using sh(2) by (simp add: shipmentIs_def)
    then show ?case using found by (auto simp: wp_updateShipment)
  qed simp
  then show ?thesis
    by (simp add: bringsShipment_def dispatch_def wp sh shipmentAim_def shipmentRefusal_def)
qed

lemma shipment_button_works:
  assumes "sysInv w" "findShipment t i w = Some sh" "(label, path) \<in> set (shipmentActions it (sh_status sh))"
  shows "bringsShipment t i label (handle env t (Fulfillment (shipmentCall i label))) w"
proof -
  note inv = sysInvD(1) [OF assms(1)] sysInvD(3) [OF assms(1)] and sh = assms(2)
  have here: "shipmentIs t i st w \<longleftrightarrow> sh_status sh = st" for st using sh by (simp add: shipmentIs_def)
  note gw = gateway_ok [of env]
  have pick: "bringsShipment t i ''Pick'' (pick (gatewayOf env) t i) w" if "sh_status sh = ShipmentStatus.PENDING"
    unfolding bringsShipment_def
    by (rule wp_mono [OF payment_gateway.wp_pick [OF gw inv]])
      (use that here in \<open>auto simp: shipmentAim_def shipmentRefusal_def pickable_def intro: brings_moved [OF sh]\<close>)
  have deliver: "bringsShipment t i ''Deliver'' (deliver (gatewayOf env) t i) w" if "sh_status sh = ShipmentStatus.SHIPPED"
    unfolding bringsShipment_def
    by (rule wp_mono [OF payment_gateway.wp_deliver [OF gw inv]])
      (use that here in \<open>auto simp: shipmentAim_def shipmentRefusal_def intro: brings_moved [OF sh]\<close>)
  have ready: "bringsShipment t i ''Ready (pickup)'' (markReadyForPickup (gatewayOf env) t i) w" if "sh_status sh = ShipmentStatus.PICKED"
    unfolding bringsShipment_def
    by (rule wp_mono [OF payment_gateway.wp_markReady [OF gw inv]])
      (use that here in \<open>auto simp: shipmentAim_def shipmentRefusal_def intro: brings_moved [OF sh]\<close>)
  have ship: "bringsShipment t i ''Ship'' (ship (gatewayOf env) t i None) w" if "sh_status sh = ShipmentStatus.PICKED"
    unfolding bringsShipment_def
  proof (rule wp_mono [OF payment_gateway.wp_ship [OF gw inv]], goal_cases)
    case (1 x w')
    then obtain trk where trk: "stockLeft i (sentOut None trk) w w'" "depletable i w" by (auto simp: leftWarehouse_def)
    have "shipmentIs t i ShipmentStatus.SHIPPED w'" by (rule brings_left [OF sh trk(1)]) (simp add: sentOut_def)
    then show ?case using trk(2) by (simp add: shipmentAim_def shipmentRefusal_def)
  qed (use that here in \<open>auto simp: shipmentRefusal_def\<close>)
  have pickup: "bringsShipment t i ''Picked up'' (pickUp (gatewayOf env) t i) w" if "sh_status sh = READY_FOR_PICKUP"
    unfolding bringsShipment_def
  proof (rule wp_mono [OF payment_gateway.wp_pickUp [OF gw inv]], goal_cases)
    case (1 x w')
    then have left: "stockLeft i (sh_status_update (\<lambda>_. PICKED_UP)) w w'" "depletable i w" by (auto simp: leftWarehouse_def)
    have "shipmentIs t i PICKED_UP w'" by (rule brings_left [OF sh left(1)]) simp
    then show ?case using left(2) by (simp add: shipmentAim_def shipmentRefusal_def)
  qed (use that here in \<open>auto simp: shipmentRefusal_def\<close>)
  have "label = ''Pick'' \<and> sh_status sh = ShipmentStatus.PENDING \<or> label = ''Dispatch'' \<and> sh_status sh = ShipmentStatus.PICKED \<or>
    label = ''Ship'' \<and> sh_status sh = ShipmentStatus.PICKED \<or> label = ''Ready (pickup)'' \<and> sh_status sh = ShipmentStatus.PICKED \<or>
    label = ''Picked up'' \<and> sh_status sh = READY_FOR_PICKUP \<or> label = ''Deliver'' \<and> sh_status sh = ShipmentStatus.SHIPPED"
    using assms(3) by (cases "sh_status sh") auto
  then show ?thesis
    using pick deliver ready ship pickup brings_dispatch [OF sh]
    by (elim disjE conjE) (simp_all add: handle_defs shipmentCall_def brings_answer_shipment)
qed

section \<open>Paging\<close>

text \<open>Previous and next, with whether each can be clicked; nothing is shown for a single page.\<close>

definition pager :: "int \<Rightarrow> int \<Rightarrow> (bool \<times> bool) option" where
  "pager page pageCount = (if pageCount \<le> 1 then None else Some (\<not> page \<le> 1, \<not> pageCount \<le> page))"

definition LIST_SIZE :: int where
  "LIST_SIZE = 25"

text \<open>A list page asks for its page of 25 rows and hands the answer's page numbers to the pager.\<close>

definition listed :: "'a list \<Rightarrow> int \<Rightarrow> 'a page" where
  "listed rows page = paginate \<lparr>pq_page = Some page, pq_pageSize = Some LIST_SIZE\<rparr> rows"

definition clicks :: "'a list \<Rightarrow> int \<Rightarrow> int list" where
  "clicks rows page =
    (let ans = listed rows page in
     case pager (pg_page ans) (pg_pageCount ans) of
       None \<Rightarrow> []
     | Some (prev, next) \<Rightarrow> (if prev then [pg_page ans - 1] else []) @ (if next then [pg_page ans + 1] else []))"

inductive turned :: "'a list \<Rightarrow> int \<Rightarrow> bool" for rows where
  opened: "turned rows 1"
| clicked: "turned rows page \<Longrightarrow> page' \<in> set (clicks rows page) \<Longrightarrow> turned rows page'"

definition pagesOf :: "'a list \<Rightarrow> int" where
  "pagesOf rows = pg_pageCount (makePage rows (int (length rows)) 1 (int 25))"

lemma listed_sel:
  assumes "1 \<le> page"
  shows "pg_page (listed rows page) = page" "pg_items (listed rows page) = take 25 (drop (nat ((page - 1) * 25)) rows)"
    "pg_pageCount (listed rows page) = pagesOf rows"
  using assms by (simp_all add: pagesOf_def listed_def paginate_def toSkipTake_def makePage_def pageOf_def LIST_SIZE_def Let_def)

lemma turned_pages: "turned rows page \<Longrightarrow> 1 \<le> page \<and> page \<le> pagesOf rows"
proof (induction rule: turned.induct)
  case opened
  show ?case by (simp add: pagesOf_def makePage_def)
next
  case (clicked page page')
  then show ?case
    by (auto simp: clicks_def listed_sel pager_def Let_def split: if_splits)
qed

lemma turned_reach: "int n < pagesOf rows \<Longrightarrow> turned rows (int n + 1)"
proof (induction n)
  case 0
  then show ?case by (simp add: turned.opened)
next
  case (Suc n)
  then have "turned rows (int n + 1)" by simp
  moreover have "int n + 1 + 1 \<in> set (clicks rows (int n + 1))"
    using Suc.prems by (simp add: clicks_def listed_sel pager_def Let_def)
  ultimately have "turned rows (int n + 1 + 1)" by (rule turned.clicked)
  then show ?case by (simp add: algebra_simps)
qed

text \<open>A page that the list no longer reaches is empty and, when one page is left, offers no way back.\<close>

lemma stranded:
  assumes "length rows \<le> 25"
  shows "pg_items (listed rows 2) = []" "clicks rows 2 = []"
proof -
  have "pagesOf rows = 1"
  proof -
    have "\<lceil>(of_int (int (length rows)) :: rat) / of_int 25\<rceil> = - ((- int (length rows)) div 25)" by (rule ceiling_div_int) simp
    moreover have "- ((- int (length rows)) div 25) \<le> 1" using assms by linarith
    ultimately show ?thesis by (simp add: pagesOf_def makePage_def)
  qed
  then show "clicks rows 2 = []" by (simp add: clicks_def listed_sel pager_def Let_def)
  show "pg_items (listed rows 2) = []" using assms by (simp add: listed_sel)
qed

text \<open>The pickers of SKUs and locations show the first 200 and have no pager.\<close>

definition pickerOptions :: "'a list \<Rightarrow> 'a list" where
  "pickerOptions rows = pg_items (paginate \<lparr>pq_page = None, pq_pageSize = Some 200\<rparr> rows)"

lemma picker_truncates: "pickerOptions rows = take 200 rows"
  by (simp add: pickerOptions_def paginate_def toSkipTake_def makePage_def pageOf_def Let_def)

section \<open>Live updates\<close>

text \<open>The prefixes of query keys that an event makes stale.\<close>

definition INVALIDATIONS :: "string \<Rightarrow> string list list" where
  "INVALIDATIONS type =
    (if type = ''order.status'' then [[''orders''], [''order''], [''shipments''], [''report'']]
     else if type = ''inventory.atp'' then [[''snapshots''], [''inbound''], [''outbox''], [''report'']]
     else if type = ''shipment.status'' then [[''shipments''], [''orders''], [''order''], [''report'']]
     else [])"

definition refetched :: "sseMessage \<Rightarrow> string list \<Rightarrow> bool" where
  "refetched m queryKey \<longleftrightarrow> (\<exists>p \<in> set (INVALIDATIONS (sm_type m)). prefix p queryKey)"

text \<open>The stream never says that a shipment has changed, and no event refreshes the list of returns.\<close>

lemma shipments_not_live: "m \<in> set (streamFor t feed) \<Longrightarrow> sm_type m \<noteq> ''shipment.status''"
  unfolding stream_isolated
  by (auto simp: sseMessageOf_def heartbeat_def eventType_def split: option.splits domainEvent.splits)

lemma returns_not_live: "\<not> refetched m (''returns'' # params)"
  by (auto simp: refetched_def INVALIDATIONS_def)

section \<open>Properties\<close>


text \<open>
  A button of a shipment does what it says, and is refused exactly when goods would leave
  that are not on hand, or when a shipment is to be picked whose order is not released.
\<close>

lemma shipment_buttons_work:
  assumes "sysInv w" "findShipment t i w = Some sh" "(label, path) \<in> set (shipmentActions (idText i) (sh_status sh))"
  shows "routeOf idText (Fulfillment (shipmentCall i label)) = (''POST'', path) \<and>
    (case handle env t (Fulfillment (shipmentCall i label)) w of
       (Inr _, w') \<Rightarrow> shipmentIs t i (shipmentAim label) w' \<and> \<not> shipmentRefusal t i label w
     | (Inl e, w') \<Rightarrow> shipmentRefusal t i label w)"
  using shipmentCall_route [where idText = idText and i = i, OF assms(3)] shipment_button_works [OF assms, of env]
  by (auto simp: bringsShipment_def wp_iff split: prod.split sum.split)

text \<open>
  Property C40.  By clicking previous and next from the first page on, the pages of a list that are
  reached are exactly those it has, and together they show every row.
\<close>

theorem browsing_shows_all:
  "turned rows page = (1 \<le> page \<and> page \<le> pagesOf rows) \<and>
    (\<Union>p \<in> {p. turned rows p}. set (pg_items (listed rows p))) = set rows"
proof
  have reach: "turned rows p" if "1 \<le> p" "p \<le> pagesOf rows" for p
    using turned_reach [of "nat (p - 1)" rows] that by simp
  then show "turned rows page = (1 \<le> page \<and> page \<le> pagesOf rows)" using turned_pages by blast
  show "(\<Union>p \<in> {p. turned rows p}. set (pg_items (listed rows p))) = set rows"
  proof (intro equalityI subsetI)
    fix x assume "x \<in> (\<Union>p \<in> {p. turned rows p}. set (pg_items (listed rows p)))"
    then obtain p where "turned rows p" "x \<in> set (pg_items (listed rows p))" by blast
    then show "x \<in> set rows" using turned_pages by (fastforce simp: listed_sel dest: in_set_takeD in_set_dropD)
  next
    fix x assume "x \<in> set rows"
    then obtain j where j: "j < length rows" "x = rows ! j" by (metis in_set_conv_nth)
    let ?q = "j div 25"
    have "length rows \<le> nat (pagesOf rows) * 25" unfolding pagesOf_def by (rule pageCount_enough) simp
    then have "?q < nat (pagesOf rows)" using j(1) by (simp add: less_mult_imp_div_less)
    then have "turned rows (int ?q + 1)" by (intro reach) simp_all
    moreover have "x \<in> set (pg_items (listed rows (int ?q + 1)))"
    proof -
      have "take 25 (drop (?q * 25) rows) ! (j mod 25) = x" using j by simp
      moreover have "j mod 25 < length (take 25 (drop (?q * 25) rows))"
      proof -
        have "?q * 25 + j mod 25 < length rows" using j(1) by (simp only: div_mult_mod_eq)
        then have "j mod 25 < length rows - ?q * 25" by linarith
        then show ?thesis by simp
      qed
      moreover have "nat ((int ?q + 1 - 1) * 25) = ?q * 25" by simp
      ultimately show ?thesis by (metis add.commute le_add_same_cancel1 listed_sel(2) nth_mem of_nat_0_le_iff)
    qed
    ultimately show "x \<in> (\<Union>p \<in> {p. turned rows p}. set (pg_items (listed rows p)))" by blast
  qed
qed

section \<open>Witnesses\<close>


lemma demoStage_sysInv:
  assumes "legalPath OrderStatus.CREATED path" "ast \<in> {AllocationStatus.ALLOCATED, AllocationStatus.PICKED}"
  shows "sysInv (demoStage path sst ast)"
proof -
  have "linksOk {} (demoStage path sst ast)"
    using demoStage_inv(2) [OF assms, of sst]
    by (simp add: linksOk_def retInv_def orderIds_def demoStage_def demoShipped_def demoPick_def demoBook_def demoReserving_def demoOrder_def demoWorld_sel)
  then show ?thesis using demoStage_inv(1) [OF assms, of sst] by (simp add: sysInv_def)
qed

lemma demoPacked_sysInv: "sysInv demoPacked"
  unfolding demoPacked_def by (rule demoStage_sysInv [OF pickedPath_legal(1)]) simp

lemma shipment_buttons_work_witness:
  "\<exists>x w'. handle demoSystem 7 (Fulfillment (PostShip 4 None)) demoPacked = (Inr x, w') \<and> shipmentIs 7 4 ShipmentStatus.SHIPPED w'"
proof -
  obtain sh where sh: "findShipment 7 4 demoPacked = Some sh" "sh_status sh = ShipmentStatus.PICKED"
    using demoPacked_facts(3) by (auto simp: shipmentIs_def)
  have "(''Ship'', ''/shipments/4/ship'') \<in> set (shipmentActions ((\<lambda>_. ''4'') 4) (sh_status sh))" by (simp add: sh(2))
  from shipment_buttons_work [where idText = "\<lambda>_. ''4''" and env = demoSystem, OF demoPacked_sysInv sh(1) this]
  have "case handle demoSystem 7 (Fulfillment (shipmentCall 4 ''Ship'')) demoPacked of
       (Inr _, w') \<Rightarrow> shipmentIs 7 4 (shipmentAim ''Ship'') w' \<and> \<not> shipmentRefusal 7 4 ''Ship'' demoPacked
     | (Inl e, w') \<Rightarrow> shipmentRefusal 7 4 ''Ship'' demoPacked" by (rule conjunct2)
  then show ?thesis
    using demoPacked_facts(4) by (auto simp: shipmentCall_def shipmentAim_def shipmentRefusal_def split: prod.splits sum.splits)
qed

end
