(* ===== verification/Gates.thy ===== *)
theory Gates
  imports Screens
begin

text \<open>
  The controls of the operations console: for every page, what it asks of the API and from which role on it
  offers it (\<open>RoleGate\<close> in frontend/src/pages).  What a page shows without a gate asks for the lowest role.
  The lists are compared with the guard of the API.
\<close>

section \<open>Controls\<close>

record control =
  cn_least :: ApiRole
  cn_verb :: string
  cn_path :: string

definition reads :: "string \<Rightarrow> control" where
  "reads path = \<lparr>cn_least = READ_ONLY, cn_verb = ''GET'', cn_path = path\<rparr>"

definition RoleGate :: "ApiRole \<Rightarrow> (string \<times> string) list \<Rightarrow> control list" where
  "RoleGate least calls = map (\<lambda>(verb, path). \<lparr>cn_least = least, cn_verb = verb, cn_path = path\<rparr>) calls"

definition ungated :: "(string \<times> string) list \<Rightarrow> control list" where
  "ungated calls = RoleGate READ_ONLY calls"

definition dashboardQueries :: "control list" where
  "dashboardQueries = map reads [''/reports/orders'', ''/reports/inventory'', ''/reports/fulfillment'', ''/reports/sourcing'']"

definition inventoryQueries :: "control list" where
  "inventoryQueries = map reads [''/inventory/snapshots'', ''/inventory/inbound'']"

text \<open>The four dialogs of the inventory page share one form.\<close>

datatype kind = Receipt | Adjust | Inbound | Safety

fun endpointFor :: "kind \<Rightarrow> string" where
  "endpointFor Receipt = ''/inventory/receipts''"
| "endpointFor Adjust = ''/inventory/adjustments''"
| "endpointFor Inbound = ''/inventory/inbound''"
| "endpointFor Safety = ''/inventory/safety-stock''"

definition inventoryCommands :: "control list" where
  "inventoryCommands = RoleGate OPERATOR
    [(''POST'', endpointFor Receipt), (''POST'', endpointFor Adjust), (''POST'', endpointFor Inbound),
     (''POST'', endpointFor Safety), (''POST'', ''/inventory/transfers'')]"

definition forecastQuery :: "control list" where
  "forecastQuery = [reads ''/ai/forecast'']"

definition orderQueries :: "string \<Rightarrow> control list" where
  "orderQueries i = map reads [''/orders'', ''/orders/'' @ i]"

definition newOrderCommand :: "control list" where
  "newOrderCommand = RoleGate OPERATOR [(''POST'', ''/orders'')]"

definition orderCommands :: "string \<Rightarrow> OrderStatus \<Rightarrow> control list" where
  "orderCommands i st = RoleGate OPERATOR
    (map (\<lambda>a. (''POST'', snd a)) (orderActions i st) @ (if offersReturn st then [(''POST'', ''/returns'')] else []))"

definition shipmentCommands :: "string \<Rightarrow> ShipmentStatus \<Rightarrow> control list" where
  "shipmentCommands i st = RoleGate OPERATOR (map (\<lambda>a. (''POST'', snd a)) (shipmentActions i st))"

definition fulfilmentQuery :: "control list" where
  "fulfilmentQuery = [reads ''/shipments'']"

definition fulfilmentCommands :: "string \<Rightarrow> ShipmentStatus \<Rightarrow> control list" where
  "fulfilmentCommands i st = RoleGate OPERATOR (map (\<lambda>a. (''POST'', snd a)) (pageActions i st))"

definition returnsShown :: "control list" where
  "returnsShown = [reads ''/returns'']"

definition returnCommands :: "string \<Rightarrow> ReturnStatus \<Rightarrow> control list" where
  "returnCommands i st =
    (if offersReceive st then RoleGate OPERATOR [(''POST'', ''/returns/'' @ i @ ''/receive'')] else [])"

definition catalogQueries :: "control list" where
  "catalogQueries = map reads [''/skus'', ''/locations'']"

definition catalogCommands :: "string \<Rightarrow> control list" where
  "catalogCommands i = RoleGate OPERATOR
    [(''POST'', ''/skus''), (''PATCH'', ''/skus/'' @ i), (''POST'', ''/locations''), (''PATCH'', ''/locations/'' @ i)]"

definition ruleQuery :: "control list" where
  "ruleQuery = [reads ''/sourcing-rules'']"

definition ruleCommands :: "string \<Rightarrow> control list" where
  "ruleCommands i = RoleGate OPERATOR [(''POST'', ''/sourcing-rules''), (''PATCH'', ''/sourcing-rules/'' @ i)]"

definition channelQuery :: "control list" where
  "channelQuery = [reads ''/channels'']"

definition channelCommands :: "control list" where
  "channelCommands = RoleGate ADMIN [(''POST'', ''/channels'')]"

definition outboxControls :: "control list" where
  "outboxControls = reads ''/sync/outbox'' # RoleGate OPERATOR [(''POST'', ''/sync/drain'')]"

text \<open>The import of a channel, the questions to the assistant and the page of the administrator have no gate.\<close>

definition importCommand :: "string \<Rightarrow> control list" where
  "importCommand i = ungated [(''POST'', ''/channels/'' @ i @ ''/import-shopify'')]"

definition assistantQuery :: "control list" where
  "assistantQuery = [reads ''/ai/status'']"

definition askCommand :: "control list" where
  "askCommand = ungated [(''POST'', ''/ai/ask'')]"

definition keyControls :: "string \<Rightarrow> control list" where
  "keyControls i = ungated
    [(''GET'', ''/admin/api-keys''), (''POST'', ''/admin/api-keys''), (''PATCH'', ''/admin/api-keys/'' @ i)]"

definition reconciliationControls :: "control list" where
  "reconciliationControls = ungated [(''GET'', ''/admin/reconciliation''), (''POST'', ''/admin/reconciliation/repair'')]"

text \<open>All controls the pages of the rows \<open>i\<close> can show, in whatever statuses, but for the ungated ones.\<close>

definition gatedControls :: "string \<Rightarrow> OrderStatus \<Rightarrow> ShipmentStatus \<Rightarrow> ReturnStatus \<Rightarrow> control list" where
  "gatedControls i ost sst rst =
    dashboardQueries @ inventoryQueries @ inventoryCommands @ forecastQuery @ orderQueries i @ newOrderCommand @
    orderCommands i ost @ shipmentCommands i sst @ fulfilmentQuery @ fulfilmentCommands i sst @ returnsShown @
    returnCommands i rst @ catalogQueries @ catalogCommands i @ ruleQuery @ ruleCommands i @ channelQuery @
    channelCommands @ outboxControls @ assistantQuery"

definition ungatedControls :: "string \<Rightarrow> control list" where
  "ungatedControls i = importCommand i @ askCommand @ keyControls i @ reconciliationControls"

section \<open>Gates and guard\<close>

text \<open>A role passes the gate exactly when it passes the guard.\<close>

definition gateIsGuard :: "control \<Rightarrow> bool" where
  "gateIsGuard c \<longleftrightarrow> \<not> isPublic (cn_path c) \<and>
    list_all (\<lambda>r. (RANK (cn_least c) \<le> RANK r) = permitted r (cn_verb c) (cn_path c)) [READ_ONLY, OPERATOR, ADMIN]"

lemmas gate_defs = gateIsGuard_def reads_def RoleGate_def ungated_def permitted_def isPublic_def PUBLIC_PREFIXES_def startsWith_def

lemma gate_reads:
  "list_all gateIsGuard (dashboardQueries @ inventoryQueries @ forecastQuery @ orderQueries i @ fulfilmentQuery @ returnsShown @
    catalogQueries @ ruleQuery @ channelQuery @ assistantQuery)"
  by (simp add: dashboardQueries_def inventoryQueries_def forecastQuery_def orderQueries_def fulfilmentQuery_def returnsShown_def
      catalogQueries_def ruleQuery_def channelQuery_def assistantQuery_def gate_defs)

lemma gate_commands:
  "list_all gateIsGuard (inventoryCommands @ newOrderCommand @ catalogCommands i @ ruleCommands i @ channelCommands @ outboxControls)"
  by (simp add: inventoryCommands_def newOrderCommand_def catalogCommands_def ruleCommands_def channelCommands_def outboxControls_def gate_defs)

lemma gate_orders: "list_all gateIsGuard (orderCommands i st)"
  by (cases st) (simp_all add: orderCommands_def offersReturn_def gate_defs)

lemma gate_shipments: "list_all gateIsGuard (shipmentCommands i st)" "list_all gateIsGuard (fulfilmentCommands i st)"
  by (cases st; simp add: shipmentCommands_def fulfilmentCommands_def gate_defs)+

lemma gate_returns: "list_all gateIsGuard (returnCommands i st)"
  by (simp add: returnCommands_def gate_defs)

lemma gate_controls: "c \<in> set (gatedControls i ost sst rst) \<Longrightarrow> gateIsGuard c"
  using gate_reads [of i] gate_commands [of i] gate_orders [of i ost] gate_shipments [of i sst] gate_returns [of i rst]
  by (auto simp: gatedControls_def list_all_iff)

text \<open>The ungated ones are shown to everybody and refused to the lowest role at least.\<close>

lemma ungated_refused: "c \<in> set (ungatedControls i) \<Longrightarrow> cn_least c = READ_ONLY \<and> \<not> permitted READ_ONLY (cn_verb c) (cn_path c)"
  by (auto simp: ungatedControls_def importCommand_def askCommand_def keyControls_def reconciliationControls_def ungated_def RoleGate_def
      permitted_def startsWith_def)

section \<open>Properties\<close>



end
