(* ===== verification/Dialogs.thy ===== *)
theory Dialogs
  imports Gates
begin

text \<open>
  The forms of the operations console (the dialogs under frontend/src/pages): what a form holds when it is
  opened, when it can be submitted, and the request a submission makes.  A number field holds a text; \<open>num\<close> is
  JavaScript's \<open>Number\<close> on the texts such a field can hold (empty, or a numeral) and \<open>text\<close> is \<open>String\<close> of an
  integer.  A body with a fraction where the API asks for an integer is refused by its validation before
  any handler runs: such a submission has no request (\<open>None\<close>).
\<close>

section \<open>Number fields\<close>

definition wholeOf :: "rat \<Rightarrow> int option" where
  "wholeOf q = (if of_int \<lfloor>q\<rfloor> = q then Some \<lfloor>q\<rfloor> else None)"

text \<open>\<open>v || undefined\<close>\<close>

abbreviation orUndefined :: "string \<Rightarrow> string option" where
  "orUndefined v \<equiv> truthy (Some v)"

lemma wholeOf_int [simp]: "wholeOf (of_int n) = Some n"
  by (simp add: wholeOf_def)

lemma wholeOf_SomeD: "wholeOf q = Some n \<Longrightarrow> q = of_int n"
  by (auto simp: wholeOf_def split: if_splits)

text \<open>All or none of the values of a list.\<close>

fun allSome :: "'a option list \<Rightarrow> 'a list option" where
  "allSome [] = Some []"
| "allSome (x # xs) = (case x of None \<Rightarrow> None | Some a \<Rightarrow> map_option ((#) a) (allSome xs))"

section \<open>Inventory\<close>

text \<open>An empty choice of a list is \<open>None\<close>.\<close>

record inventoryForm =
  if_skuId :: "ident option"
  if_locationId :: "ident option"
  if_quantity :: string
  if_expectedAt :: string

definition inventoryEnabled :: "inventoryForm \<Rightarrow> bool" where
  "inventoryEnabled form \<longleftrightarrow> if_skuId form \<noteq> None \<and> if_locationId form \<noteq> None"

definition submitInventory :: "(string \<Rightarrow> rat) \<Rightarrow> (string \<Rightarrow> int) \<Rightarrow> kind \<Rightarrow> inventoryForm \<Rightarrow> inventoryRequest option" where
  "submitInventory num date kind form =
    (case (if_skuId form, if_locationId form, wholeOf (num (if_quantity form))) of
       (Some s, Some l, Some n) \<Rightarrow>
         (case kind of
            Receipt \<Rightarrow> Some (PostReceipt \<lparr>rs_skuId = s, rs_locationId = l, rs_quantity = n, rs_reason = None\<rparr>)
          | Adjust \<Rightarrow> Some (PostAdjustment \<lparr>as_skuId = s, as_locationId = l, as_delta = n, as_reason = None\<rparr>)
          | Inbound \<Rightarrow> Some (PostInbound \<lparr>id_skuId = s, id_locationId = l, id_quantity = n,
              id_expectedAt = (if if_expectedAt form = [] then None else Some (date (if_expectedAt form))), id_reference = None\<rparr>)
          | Safety \<Rightarrow> Some (PostSafetyStock \<lparr>ss_skuId = s, ss_locationId = l, ss_safetyStock = n\<rparr>))
     | _ \<Rightarrow> None)"

record transferForm =
  tf_skuId :: "ident option"
  tf_from :: "ident option"
  tf_to :: "ident option"
  tf_quantity :: string

definition transferValid :: "transferForm \<Rightarrow> bool" where
  "transferValid form \<longleftrightarrow> tf_skuId form \<noteq> None \<and> tf_from form \<noteq> None \<and> tf_to form \<noteq> None \<and> tf_from form \<noteq> tf_to form"

definition submitTransfer :: "(string \<Rightarrow> rat) \<Rightarrow> transferForm \<Rightarrow> inventoryRequest option" where
  "submitTransfer num form =
    (case (tf_skuId form, tf_from form, tf_to form, wholeOf (num (tf_quantity form))) of
       (Some s, Some a, Some b, Some n) \<Rightarrow> Some (PostTransfer
         \<lparr>ts_skuId = s, ts_fromLocationId = a, ts_toLocationId = b, ts_quantity = n, ts_reason = None\<rparr>)
     | _ \<Rightarrow> None)"

section \<open>A new order\<close>

record lineField =
  lf_skuId :: "ident option"
  lf_quantity :: string
  lf_unitPrice :: string

record orderForm =
  of_channel :: OrderChannel
  of_externalRef :: string
  of_reserveOnCreate :: bool
  of_lines :: "lineField list"

definition emptyLine :: lineField where
  "emptyLine = \<lparr>lf_skuId = None, lf_quantity = ''1'', lf_unitPrice = ''0''\<rparr>"

definition newOrderForm :: orderForm where
  "newOrderForm = \<lparr>of_channel = WEB, of_externalRef = [], of_reserveOnCreate = True, of_lines = [emptyLine]\<rparr>"

definition setLine :: "nat \<Rightarrow> (lineField \<Rightarrow> lineField) \<Rightarrow> orderForm \<Rightarrow> orderForm" where
  "setLine i patch form = form\<lparr>of_lines := map (\<lambda>(idx, l). if idx = i then patch l else l) (enumerate 0 (of_lines form))\<rparr>"

definition addLine :: "orderForm \<Rightarrow> orderForm" where
  "addLine form = form\<lparr>of_lines := of_lines form @ [emptyLine]\<rparr>"

definition removeLine :: "nat \<Rightarrow> orderForm \<Rightarrow> orderForm" where
  "removeLine i form = form\<lparr>of_lines := map snd (filter (\<lambda>(idx, _). idx \<noteq> i) (enumerate 0 (of_lines form)))\<rparr>"

definition orderEnabled :: "orderForm \<Rightarrow> bool" where
  "orderEnabled form \<longleftrightarrow> list_ex (\<lambda>l. lf_skuId l \<noteq> None) (of_lines form)"

definition lineBody :: "(string \<Rightarrow> rat) \<Rightarrow> lineField \<Rightarrow> orderLineDto option" where
  "lineBody num l =
    (case (lf_skuId l, wholeOf (num (lf_quantity l)), wholeOf (num (lf_unitPrice l))) of
       (Some s, Some n, Some p) \<Rightarrow> Some \<lparr>dl_skuId = s, dl_quantity = n, dl_unitPrice = Some p\<rparr>
     | _ \<Rightarrow> None)"

definition submitOrder :: "(string \<Rightarrow> rat) \<Rightarrow> orderForm \<Rightarrow> orderRequest option" where
  "submitOrder num form = map_option (\<lambda>ls. PostOrder
     \<lparr>co_channel = of_channel form, co_externalRef = orUndefined (of_externalRef form), co_customerRef = None,
      co_currency = None, co_shipToLatitude = None, co_shipToLongitude = None, co_shipToRegion = None,
      co_allowSplit = None, co_allowBackorder = None, co_reserveOnCreate = Some (of_reserveOnCreate form), co_lines = ls\<rparr>)
    (allSome (map (lineBody num) (filter (\<lambda>l. lf_skuId l \<noteq> None) (of_lines form))))"

section \<open>A return\<close>

record returnForm =
  rf_reason :: string
  rf_qty :: "ident \<Rightarrow> string option"

definition openReturn :: "(int \<Rightarrow> string) \<Rightarrow> orderLine list \<Rightarrow> returnForm" where
  "openReturn text lines = \<lparr>rf_reason = [], rf_qty = map_of (map (\<lambda>l. (ol_id l, text (ol_quantity l))) lines)\<rparr>"

definition setQuantity :: "ident \<Rightarrow> string \<Rightarrow> returnForm \<Rightarrow> returnForm" where
  "setQuantity i v form = form\<lparr>rf_qty := (rf_qty form)(i \<mapsto> v)\<rparr>"

definition returnQuantities :: "(string \<Rightarrow> rat) \<Rightarrow> returnForm \<Rightarrow> orderLine list \<Rightarrow> (ident \<times> rat) list" where
  "returnQuantities num form lines = filter (\<lambda>(_, q). 0 < q)
    (map (\<lambda>l. (ol_id l, case rf_qty form (ol_id l) of Some v \<Rightarrow> num v | None \<Rightarrow> 0)) lines)"

definition submitReturn :: "(string \<Rightarrow> rat) \<Rightarrow> ident \<Rightarrow> orderLine list \<Rightarrow> returnForm \<Rightarrow> fulfillmentRequest option" where
  "submitReturn num orderId lines form = map_option (\<lambda>ls. PostReturn
     \<lparr>tr_orderId = orderId, tr_reason = orUndefined (rf_reason form), tr_lines = ls\<rparr>)
    (allSome (map (\<lambda>(i, q). map_option (\<lambda>n. \<lparr>td_orderLineId = i, td_quantity = n, td_restock = Some True, td_locationId = None\<rparr>) (wholeOf q))
      (returnQuantities num form lines)))"

section \<open>Catalog and rules\<close>

record skuForm =
  kf_code :: string
  kf_name :: string
  kf_active :: bool

definition openSku :: "sku option \<Rightarrow> skuForm" where
  "openSku existing = (case existing of
       Some k \<Rightarrow> \<lparr>kf_code = sk_code k, kf_name = sk_name k, kf_active = sk_active k\<rparr>
     | None \<Rightarrow> \<lparr>kf_code = [], kf_name = [], kf_active = True\<rparr>)"

definition submitSku :: "sku option \<Rightarrow> skuForm \<Rightarrow> catalogCall" where
  "submitSku existing form = (case existing of
       Some k \<Rightarrow> PatchSku (sk_id k) \<lparr>ks_name = Some (kf_name form), ks_active = Some (kf_active form)\<rparr>
     | None \<Rightarrow> PostSku \<lparr>cs_code = kf_code form, cs_name = kf_name form, cs_active = None\<rparr>)"

record locationForm =
  lc_code :: string
  lc_name :: string
  lc_type :: LocationType
  lc_priority :: string
  lc_active :: bool

definition openLocation :: "(int \<Rightarrow> string) \<Rightarrow> location option \<Rightarrow> locationForm" where
  "openLocation text existing = (case existing of
       Some l \<Rightarrow> \<lparr>lc_code = lo_code l, lc_name = lo_name l, lc_type = lo_type l, lc_priority = text (lo_fulfillmentPriority l),
         lc_active = lo_active l\<rparr>
     | None \<Rightarrow> \<lparr>lc_code = [], lc_name = [], lc_type = WAREHOUSE, lc_priority = text 100, lc_active = True\<rparr>)"

definition submitLocation :: "(string \<Rightarrow> rat) \<Rightarrow> location option \<Rightarrow> locationForm \<Rightarrow> catalogCall option" where
  "submitLocation num existing form = map_option (\<lambda>p. case existing of
       Some l \<Rightarrow> PatchLocation (lo_id l) \<lparr>ul_name = Some (lc_name form), ul_latitude = None, ul_longitude = None,
         ul_fulfillmentPriority = Some p, ul_shipFromEnabled = None, ul_pickupEnabled = None, ul_dailyOrderCapacity = None,
         ul_active = Some (lc_active form)\<rparr>
     | None \<Rightarrow> PostLocation \<lparr>cl_code = lc_code form, cl_name = lc_name form, cl_type = lc_type form, cl_latitude = None,
         cl_longitude = None, cl_fulfillmentPriority = Some p, cl_shipFromEnabled = None, cl_pickupEnabled = None,
         cl_dailyOrderCapacity = None, cl_active = None\<rparr>) (wholeOf (num (lc_priority form)))"

text \<open>The choice \<open>any\<close> of a channel is the empty text: \<open>None\<close>.\<close>

record ruleForm =
  uf_name :: string
  uf_strategy :: SourcingStrategy
  uf_channel :: "OrderChannel option"
  uf_region :: string
  uf_priority :: string
  uf_allowSplit :: bool
  uf_active :: bool

definition openRule :: "(int \<Rightarrow> string) \<Rightarrow> sourcingRule option \<Rightarrow> ruleForm" where
  "openRule text existing = (case existing of
       Some r \<Rightarrow> \<lparr>uf_name = sr_name r, uf_strategy = sr_strategy r, uf_channel = sr_channel r,
         uf_region = (case sr_region r of Some x \<Rightarrow> x | None \<Rightarrow> []), uf_priority = text (sr_priority r),
         uf_allowSplit = sr_allowSplit r, uf_active = sr_active r\<rparr>
     | None \<Rightarrow> \<lparr>uf_name = [], uf_strategy = BALANCED, uf_channel = None, uf_region = [], uf_priority = text 100,
         uf_allowSplit = True, uf_active = True\<rparr>)"

definition ruleBody :: "(string \<Rightarrow> rat) \<Rightarrow> ruleForm \<Rightarrow> ruleDto option" where
  "ruleBody num form = map_option (\<lambda>p.
     \<lparr>ru_name = Some (uf_name form), ru_channel = map_option Some (uf_channel form),
      ru_region = map_option Some (orUndefined (uf_region form)), ru_strategy = Some (uf_strategy form),
      ru_allowSplit = Some (uf_allowSplit form), ru_priority = Some p, ru_active = Some (uf_active form)\<rparr>)
    (wholeOf (num (uf_priority form)))"

definition submitRule :: "(string \<Rightarrow> rat) \<Rightarrow> sourcingRule option \<Rightarrow> ruleForm \<Rightarrow> ruleRequest option" where
  "submitRule num existing form = map_option (\<lambda>dto. case existing of
       Some r \<Rightarrow> PatchRule (sr_id r) dto
     | None \<Rightarrow> PostRule (uf_name form) (uf_strategy form) dto) (ruleBody num form)"

text \<open>The catalog and rule forms can be submitted once their texts are filled.\<close>

definition formEnabled :: "string list \<Rightarrow> bool" where
  "formEnabled texts \<longleftrightarrow> [] \<notin> set texts"

section \<open>What the forms do\<close>

text \<open>A number that is shown is read back.\<close>

definition numberLaw :: "(string \<Rightarrow> rat) \<Rightarrow> (int \<Rightarrow> string) \<Rightarrow> bool" where
  "numberLaw num text \<longleftrightarrow> num [] = 0 \<and> (\<forall>n. 0 \<le> n \<longrightarrow> num (text n) = of_int n)"

lemma numberLawD: "numberLaw num text \<Longrightarrow> 0 \<le> n \<Longrightarrow> num (text n) = of_int n"
  by (simp add: numberLaw_def)

lemma allSome_map: "allSome (map (\<lambda>x. Some (f x)) xs) = Some (map f xs)"
  by (induction xs) simp_all

lemma allSome_SomeD: "allSome xs = Some ys \<Longrightarrow> xs = map Some ys"
  by (induction xs arbitrary: ys) (auto split: option.splits)

lemma setLine_nth: "of_lines (setLine i patch form) =
    (if i < length (of_lines form) then (of_lines form)[i := patch (of_lines form ! i)] else of_lines form)"
  by (rule nth_equalityI) (auto simp: setLine_def nth_enumerate_eq nth_list_update)

text \<open>An inventory form reaches its endpoint and passes validation exactly when its number has the sign its kind asks for.\<close>

fun quantityOk :: "kind \<Rightarrow> rat \<Rightarrow> bool" where
  "quantityOk Receipt q = (1 \<le> q)"
| "quantityOk Adjust q = (q \<noteq> 0)"
| "quantityOk Inbound q = (1 \<le> q)"
| "quantityOk Safety q = (0 \<le> q)"

definition bodyOk :: "inventoryRequest \<Rightarrow> bool" where
  "bodyOk r = (case r of PostReceipt dto \<Rightarrow> receiveStockOk dto | PostAdjustment dto \<Rightarrow> adjustStockOk dto
     | PostInbound dto \<Rightarrow> inboundDtoOk dto | PostSafetyStock dto \<Rightarrow> safetyStockOk dto | PostTransfer dto \<Rightarrow> transferStockOk dto | _ \<Rightarrow> True)"

lemma inventory_form_validated:
  assumes "submitInventory num date kind form = Some r"
  shows "routeOf idText (Inventory r) = (''POST'', endpointFor kind)" "bodyOk r = quantityOk kind (num (if_quantity form))"
proof -
  obtain s l n where f: "if_skuId form = Some s" "if_locationId form = Some l" "wholeOf (num (if_quantity form)) = Some n"
    using assms by (auto simp: submitInventory_def split: option.splits)
  show "routeOf idText (Inventory r) = (''POST'', endpointFor kind)" "bodyOk r = quantityOk kind (num (if_quantity form))"
    using assms by (cases kind; auto simp: submitInventory_def f wholeOf_SomeD [OF f(3)] routeOf_def inventoryRoute_def bodyOk_def
      receiveStockOk_def adjustStockOk_def inboundDtoOk_def safetyStockOk_def)+
qed

lemma transfer_form_validated:
  assumes "submitTransfer num form = Some (PostTransfer dto)" "transferValid form"
  shows "ts_fromLocationId dto \<noteq> ts_toLocationId dto" "transferStockOk dto = (1 \<le> num (tf_quantity form))"
proof -
  obtain n where n: "wholeOf (num (tf_quantity form)) = Some n"
    using assms(1) by (auto simp: submitTransfer_def split: option.splits)
  show "ts_fromLocationId dto \<noteq> ts_toLocationId dto" "transferStockOk dto = (1 \<le> num (tf_quantity form))"
    using assms by (auto simp: submitTransfer_def transferValid_def transferStockOk_def n wholeOf_SomeD [OF n] split: option.splits)
qed

text \<open>A submitted order passes validation exactly when every chosen line has a positive quantity and no negative price.\<close>

lemma order_form_validated:
  assumes "submitOrder num form = Some (PostOrder dto)" "orderEnabled form"
  shows "createOrderOk dto \<longleftrightarrow> (\<forall>l \<in> set (of_lines form). lf_skuId l \<noteq> None \<longrightarrow> 1 \<le> num (lf_quantity l) \<and> 0 \<le> num (lf_unitPrice l))"
proof -
  let ?chosen = "filter (\<lambda>l. lf_skuId l \<noteq> None) (of_lines form)"
  have all: "allSome (map (lineBody num) ?chosen) = Some (co_lines dto)"
    using assms(1) by (auto simp: submitOrder_def)
  note map_eq = allSome_SomeD [OF all]
  have len: "length (co_lines dto) = length ?chosen" using arg_cong [OF map_eq, of length] by simp
  have "?chosen \<noteq> []" using assms(2) by (auto simp: orderEnabled_def list_ex_iff filter_empty_conv)
  then have ne: "1 \<le> length (co_lines dto)" using len by (simp add: Suc_le_eq)
  have at: "lineBody num (?chosen ! j) = Some (co_lines dto ! j)" if "j < length ?chosen" for j
    using arg_cong [OF map_eq, of "\<lambda>xs. xs ! j"] that len by simp
  have one: "orderLineDtoOk dl \<longleftrightarrow> 1 \<le> num (lf_quantity l) \<and> 0 \<le> num (lf_unitPrice l)" if "lineBody num l = Some dl" for l dl
  proof -
    from that obtain n p where np: "wholeOf (num (lf_quantity l)) = Some n" "wholeOf (num (lf_unitPrice l)) = Some p"
      and dl: "dl_quantity dl = n" "dl_unitPrice dl = Some p" by (auto simp: lineBody_def split: option.splits)
    show ?thesis by (simp add: orderLineDtoOk_def optionally_def dl wholeOf_SomeD [OF np(1)] wholeOf_SomeD [OF np(2)])
  qed
  have "list_all orderLineDtoOk (co_lines dto) \<longleftrightarrow> (\<forall>j < length ?chosen. 1 \<le> num (lf_quantity (?chosen ! j)) \<and> 0 \<le> num (lf_unitPrice (?chosen ! j)))"
    unfolding list_all_length len using one [OF at] by blast
  also have "\<dots> \<longleftrightarrow> (\<forall>l \<in> set ?chosen. 1 \<le> num (lf_quantity l) \<and> 0 \<le> num (lf_unitPrice l))"
    by (metis in_set_conv_nth)
  finally show ?thesis using ne by (auto simp: createOrderOk_def)
qed

text \<open>The return dialog as it opens: every line in full.\<close>

lemma default_return:
  assumes law: "numberLaw num text" and lines: "distinct (map ol_id ls)" "\<forall>l \<in> set ls. 0 < ol_quantity l"
  shows "submitReturn num i ls (openReturn text ls) = Some (PostReturn \<lparr>tr_orderId = i, tr_reason = None,
    tr_lines = map (\<lambda>l. \<lparr>td_orderLineId = ol_id l, td_quantity = ol_quantity l, td_restock = Some True, td_locationId = None\<rparr>) ls\<rparr>)"
proof -
  have qty: "rf_qty (openReturn text ls) (ol_id l) = Some (text (ol_quantity l))" if "l \<in> set ls" for l
    using lines(1) that by (auto simp: openReturn_def comp_def intro!: map_of_is_SomeI)
  have "returnQuantities num (openReturn text ls) ls = map (\<lambda>l. (ol_id l, of_int (ol_quantity l))) ls"
  proof -
    have "map (\<lambda>l. (ol_id l, case rf_qty (openReturn text ls) (ol_id l) of Some v \<Rightarrow> num v | None \<Rightarrow> 0)) ls =
        map (\<lambda>l. (ol_id l, of_int (ol_quantity l))) ls"
      using qty lines(2) numberLawD [OF law] by (intro map_cong refl) (auto simp: less_imp_le)
    then show ?thesis using lines(2) by (simp add: returnQuantities_def)
  qed
  then show ?thesis
    by (simp add: submitReturn_def openReturn_def truthy_def comp_def allSome_map)
qed

lemma default_return_raisable:
  assumes inv: "orderInv w" and ord: "findTenantOrder t i w = Some ord" "o_status ord = OrderStatus.DELIVERED"
    and rma: "\<forall>r \<in> set (returnRows w). rt_tenantId r = t \<longrightarrow> rt_rma r \<noteq> rmaOf w"
    and dto: "dto = \<lparr>tr_orderId = i, tr_reason = None,
      tr_lines = map (\<lambda>l. \<lparr>td_orderLineId = ol_id l, td_quantity = ol_quantity l, td_restock = Some True, td_locationId = None\<rparr>) (linesOf i w)\<rparr>"
  shows "raisable t dto w"
proof -
  note ls = linesOf_ok [OF inv, of i]
  have "find (\<lambda>l'. ol_id l' = ol_id l) (linesOf i w) = Some l" if "l \<in> set (linesOf i w)" for l
    by (rule find_unique [OF ls(1) that])
  then have "list_all (returnLineOk (linesOf i w)) (tr_lines dto)"
    using ls(2) by (auto simp: dto list_all_iff returnLineOk_def Suc_le_eq int_one_le_iff_zero_less)
  then show ?thesis using ord rma by (simp add: raisable_def dto)
qed

text \<open>Saving an edit as it was opened writes the row it read.\<close>

lemma rule_unchanged:
  assumes "numberLaw num text" "0 \<le> sr_priority r"
  shows "\<exists>dto. submitRule num (Some r) (openRule text (Some r)) = Some (PatchRule (sr_id r) dto) \<and> ruleDtoOk dto \<and> updatedRule dto r = r"
  using numberLawD [OF assms(1,2)] assms(2)
  by (auto simp: submitRule_def ruleBody_def openRule_def updatedRule_def ruleDtoOk_def optionally_def truthy_def split: option.split)

lemma sku_unchanged:
  "\<exists>dto. submitSku (Some k) (openSku (Some k)) = PatchSku (sk_id k) dto \<and> changedSku dto k = k"
  by (simp add: submitSku_def openSku_def changedSku_def orKeep_def)

lemma location_unchanged:
  assumes "numberLaw num text" "0 \<le> lo_fulfillmentPriority l"
  shows "\<exists>dto. submitLocation num (Some l) (openLocation text (Some l)) = Some (PatchLocation (lo_id l) dto) \<and>
    updateLocationOk dto \<and> changedLocation dto l = l"
  using numberLawD [OF assms] assms(2)
  by (simp add: submitLocation_def openLocation_def changedLocation_def updateLocationOk_def optionally_def orKeep_def)

text \<open>A table written over with what one of its rows holds.\<close>

lemma mapWhere_own:
  assumes "distinct (map k rs)" "r \<in> set rs" "f r = r"
  shows "mapWhere (\<lambda>x. k x = k r) f rs = rs"
proof -
  have "(if k x = k r then f x else x) = x" if "x \<in> set rs" for x
  proof (cases "k x = k r")
    case True
    then have "x = r" using assms(1,2) that by (metis distinct_map inj_onD)
    then show ?thesis using assms(3) by simp
  qed simp
  then show ?thesis unfolding mapWhere_def by (rule map_idI)
qed

lemma find_own:
  assumes "distinct (map k rs)" "r \<in> set rs"
  shows "find (\<lambda>x. k x = k r \<and> P x) rs = (if P r then Some r else None)"
  using assms by (induction rs) (auto simp: find_None_iff image_iff)

text \<open>Emptying the channel or the region of a rule is not saved.\<close>

lemma rule_scope_stays:
  assumes "submitRule num (Some r) (f\<lparr>uf_channel := None, uf_region := []\<rparr>) = Some (PatchRule i dto)"
  shows "sr_channel (updatedRule dto r) = sr_channel r" "sr_region (updatedRule dto r) = sr_region r"
  using assms by (auto simp: submitRule_def ruleBody_def updatedRule_def truthy_def)

section \<open>Properties\<close>


text \<open>
  The return dialog, submitted as it opens, is accepted wherever the console offers it: the
  order has a return of all its lines in full, in the state of an order of returned goods on their way.
\<close>

lemma default_return_accepted:
  assumes "sysInv w" "findTenantOrder t i w = Some ord" "offersReturn (o_status ord)" "linesOf i w \<noteq> []"
    and "\<forall>r \<in> set (returnRows w). rt_tenantId r = t \<longrightarrow> rt_rma r \<noteq> rmaOf w" "numberLaw num text"
  shows "\<exists>dto ans. submitReturn num i (linesOf i w) (openReturn text (linesOf i w)) = Some (PostReturn dto) \<and>
    handle env t (Fulfillment (PostReturn dto)) w = (Inr ans, raised t dto w) \<and>
    map (\<lambda>rl. (td_orderLineId rl, td_quantity rl)) (tr_lines dto) = map (\<lambda>l. (ol_id l, ol_quantity l)) (linesOf i w)"
proof -
  note inv = coreInvD(3) [OF sysInvD(1) [OF assms(1)]]
  note ls = linesOf_ok [OF inv, of i]
  let ?dto = "\<lparr>tr_orderId = i, tr_reason = None,
      tr_lines = map (\<lambda>l. \<lparr>td_orderLineId = ol_id l, td_quantity = ol_quantity l, td_restock = Some True, td_locationId = None\<rparr>) (linesOf i w)\<rparr>"
  have can: "raisable t ?dto w"
    by (rule default_return_raisable [OF inv assms(2) _ assms(5) refl]) (use assms(3) in \<open>simp add: offersReturn_def\<close>)
  have ok: "createReturnOk ?dto"
    using assms(4) ls(2) by (auto simp: createReturnOk_def returnLineDtoOk_def list_all_iff Suc_le_eq int_one_le_iff_zero_less)
  have "wp (create_return t ?dto) (\<lambda>_ w'. w' = raised t ?dto w) (\<lambda>_ _. False) w"
    by (rule wp_mono [OF wp_create_return]) (use can in auto)
  then obtain res where res: "create_return t ?dto w = (Inr res, raised t ?dto w)" by (auto elim: wp_obtain)
  have "handle env t (Fulfillment (PostReturn ?dto)) w = (Inr (ReturnReply res), raised t ?dto w)"
    using ok by (simp add: handle_defs validated_def answer_def throwIf_def andThen_def bind_def ret_def res)
  then show ?thesis using default_return [OF assms(6) ls, of i] by (intro exI [of _ ?dto]) (simp add: comp_def)
qed

section \<open>Witnesses\<close>

text \<open>Numbers in unary.\<close>

definition unary :: "int \<Rightarrow> string" where
  "unary n = replicate (nat n) (CHR ''1'')"

definition countOf :: "string \<Rightarrow> rat" where
  "countOf s = of_nat (length s)"

lemma unary_law: "numberLaw countOf unary"
  by (simp add: numberLaw_def countOf_def unary_def)


definition deliveredPath :: "OrderStatus list" where
  "deliveredPath = pickedPath @ [OrderStatus.SHIPPED, OrderStatus.DELIVERED]"

definition demoDelivered :: world where
  "demoDelivered = demoStage deliveredPath ShipmentStatus.DELIVERED AllocationStatus.PICKED"

lemma default_return_accepted_witness:
  "\<exists>dto ans. submitReturn countOf 5 [demoLine] (openReturn unary [demoLine]) = Some (PostReturn dto) \<and>
    handle demoSystem 7 (Fulfillment (PostReturn dto)) demoDelivered = (Inr ans, raised 7 dto demoDelivered) \<and>
    map td_quantity (tr_lines dto) = [4]"
proof -
  have path: "legalPath OrderStatus.CREATED deliveredPath" "last (OrderStatus.CREATED # deliveredPath) = OrderStatus.DELIVERED"
    by (simp_all add: deliveredPath_def pickedPath_def canTransition_def)
  have inv: "sysInv demoDelivered" unfolding demoDelivered_def by (rule demoStage_sysInv [OF path(1)]) simp
  have found: "findTenantOrder 7 5 demoDelivered = Some (demoOrder\<lparr>o_status := OrderStatus.DELIVERED\<rparr>)"
    using demoStage_sel(3) [where path = deliveredPath] path(2) by (simp add: demoDelivered_def)
  have lines: "linesOf 5 demoDelivered = [demoLine]" and none: "returnRows demoDelivered = []"
    by (simp_all add: linesOf_def demoDelivered_def demoStage_def demoShipped_def demoLine_def demoWorld_sel)
  have "offersReturn (o_status (demoOrder\<lparr>o_status := OrderStatus.DELIVERED\<rparr>))" "linesOf 5 demoDelivered \<noteq> []"
    "\<forall>r \<in> set (returnRows demoDelivered). rt_tenantId r = 7 \<longrightarrow> rt_rma r \<noteq> rmaOf demoDelivered"
    by (simp_all add: offersReturn_def lines none)
  from default_return_accepted [OF inv found this unary_law, where env = demoSystem, unfolded lines]
  obtain dto ans where d: "submitReturn countOf 5 [demoLine] (openReturn unary [demoLine]) = Some (PostReturn dto)"
    "handle demoSystem 7 (Fulfillment (PostReturn dto)) demoDelivered = (Inr ans, raised 7 dto demoDelivered)"
    "map (\<lambda>rl. (td_orderLineId rl, td_quantity rl)) (tr_lines dto) = map (\<lambda>l. (ol_id l, ol_quantity l)) [demoLine]" by blast
  have "map td_quantity (tr_lines dto) = [4]"
    using arg_cong [OF d(3), of "map snd"] by (simp add: comp_def demoLine_def)
  then show ?thesis using d(1,2) by (intro exI [of _ dto] exI [of _ ans] conjI)
qed

end
